(* ===== verification/Chem_Prelude.thy ===== *)
theory Chem_Prelude
  imports Complex_Main
    "HOL-Library.Word"
    "HOL-Library.Char_ord"
    "HOL-Library.List_Lexorder"
    "HOL-Library.Product_Lexorder"
begin

text \<open>
  Shared vocabulary of the CHEM development: the C++ machine types the components use
  (bytes, fixed-width words, floating-point numbers with their non-finite values), C++
  exceptions as values, the containers \<open>std::map\<close> and \<open>memcpy\<close> into a buffer,
  little-endian struct fields, and the generic lemmas about them that the component
  theories rely on.

  Floating point: \<open>float\<close> and \<open>double\<close> are both the type \<open>fp\<close>, a real number or
  one of the three non-finite classes. Arithmetic on finite values is exact (rounding is
  not modelled); the classification \<open>isfinite\<close>, IEEE equality and IEEE ordering are.
\<close>

named_theorems omap_simps \<open>lookup laws of the ordered association lists\<close>
named_theorems byte_simps \<open>little-endian field encoding and slices of byte buffers\<close>

section \<open>Machine types\<close>

type_synonym byte = "8 word"
type_synonym u16 = "16 word"
type_synonym u32 = "32 word"
type_synonym u64 = "64 word"

subsection \<open>Floating point with non-finite values\<close>

datatype fp = Fin real | PInf | NInf | NaN

fun isfinite :: "fp \<Rightarrow> bool" where
  "isfinite (Fin _) = True"
| "isfinite _ = False"

text \<open>IEEE equality: a NaN is equal to nothing, itself included.\<close>

fun fp_eq :: "fp \<Rightarrow> fp \<Rightarrow> bool" where
  "fp_eq (Fin a) (Fin b) = (a = b)"
| "fp_eq PInf PInf = True"
| "fp_eq NInf NInf = True"
| "fp_eq _ _ = False"

text \<open>IEEE strict ordering: every comparison with a NaN is false.\<close>

fun fp_less :: "fp \<Rightarrow> fp \<Rightarrow> bool" where
  "fp_less (Fin a) (Fin b) = (a < b)"
| "fp_less (Fin _) PInf = True"
| "fp_less NInf (Fin _) = True"
| "fp_less NInf PInf = True"
| "fp_less _ _ = False"

fun fp_neg :: "fp \<Rightarrow> fp" where
  "fp_neg (Fin a) = Fin (- a)"
| "fp_neg PInf = NInf"
| "fp_neg NInf = PInf"
| "fp_neg NaN = NaN"

fun fp_add :: "fp \<Rightarrow> fp \<Rightarrow> fp" where
  "fp_add (Fin a) (Fin b) = Fin (a + b)"
| "fp_add NaN _ = NaN"
| "fp_add _ NaN = NaN"
| "fp_add PInf NInf = NaN"
| "fp_add NInf PInf = NaN"
| "fp_add PInf _ = PInf"
| "fp_add _ PInf = PInf"
| "fp_add NInf _ = NInf"
| "fp_add _ NInf = NInf"

definition fp_sub :: "fp \<Rightarrow> fp \<Rightarrow> fp" where
  "fp_sub a b = fp_add a (fp_neg b)"

text \<open>\<open>std::min\<close> and \<open>std::max\<close>: the first argument unless the second is strictly
  on the right side of it.\<close>

definition fp_min :: "fp \<Rightarrow> fp \<Rightarrow> fp" where
  "fp_min a b = (if fp_less b a then b else a)"

definition fp_max :: "fp \<Rightarrow> fp \<Rightarrow> fp" where
  "fp_max a b = (if fp_less a b then b else a)"

lemma isfinite_iff: "isfinite x \<longleftrightarrow> (\<exists>r. x = Fin r)"
  by (cases x) auto

lemma fp_eq_refl_iff: "fp_eq x x \<longleftrightarrow> x \<noteq> NaN"
  by (cases x) auto

lemma fp_eq_imp_eq: "fp_eq x y \<Longrightarrow> x = y"
  by (cases x; cases y) auto

lemma fp_eq_sym: "fp_eq x y = fp_eq y x"
  by (cases x; cases y) auto

lemma fp_less_irrefl [simp]: "\<not> fp_less x x"
  by (cases x) auto

lemma fp_add_finite [simp]: "isfinite (fp_add a b) \<longleftrightarrow> isfinite a \<and> isfinite b"
  by (cases a; cases b) auto

lemma fp_neg_finite [simp]: "isfinite (fp_neg a) = isfinite a"
  by (cases a) auto

lemma fp_sub_finite [simp]: "isfinite (fp_sub a b) \<longleftrightarrow> isfinite a \<and> isfinite b"
  by (simp add: fp_sub_def)

lemma fp_sub_Fin [simp]: "fp_sub (Fin a) (Fin b) = Fin (a - b)"
  by (simp add: fp_sub_def)

lemma fp_min_Fin [simp]: "fp_min (Fin a) (Fin b) = Fin (min a b)"
  by (simp add: fp_min_def min_def)

lemma fp_max_Fin [simp]: "fp_max (Fin a) (Fin b) = Fin (max a b)"
  by (auto simp: fp_max_def max_def)

subsection \<open>Signed integers of 32 and 64 bits\<close>

text \<open>Conversion of an unbounded integer to \<open>int\<close> and \<open>int64_t\<close>: two's complement.\<close>

definition to_int32 :: "int \<Rightarrow> int" where
  "to_int32 i = (i + 2 ^ 31) mod 2 ^ 32 - 2 ^ 31"

definition to_int64 :: "int \<Rightarrow> int" where
  "to_int64 i = (i + 2 ^ 63) mod 2 ^ 64 - 2 ^ 63"

lemma to_int32_bounds: "- (2 ^ 31) \<le> to_int32 i \<and> to_int32 i < 2 ^ 31"
  unfolding to_int32_def
  using pos_mod_bound [of "2 ^ 32 :: int" "i + 2 ^ 31"] pos_mod_sign [of "2 ^ 32 :: int" "i + 2 ^ 31"]
  by simp

lemma to_int32_id: "- (2 ^ 31) \<le> i \<Longrightarrow> i < 2 ^ 31 \<Longrightarrow> to_int32 i = i"
  by (simp add: to_int32_def)

text \<open>\<open>std::clamp(v, lo, hi)\<close> on integers.\<close>

definition clamp_int :: "int \<Rightarrow> int \<Rightarrow> int \<Rightarrow> int" where
  "clamp_int v lo hi = (if v < lo then lo else if hi < v then hi else v)"

lemma clamp_int_range: "lo \<le> hi \<Longrightarrow> lo \<le> clamp_int v lo hi \<and> clamp_int v lo hi \<le> hi"
  by (simp add: clamp_int_def)

lemma clamp_int_id: "lo \<le> v \<Longrightarrow> v \<le> hi \<Longrightarrow> clamp_int v lo hi = v"
  by (simp add: clamp_int_def)

lemma clamp_int_idem [simp]: "lo \<le> hi \<Longrightarrow> clamp_int (clamp_int v lo hi) lo hi = clamp_int v lo hi"
  by (simp add: clamp_int_def)

subsection \<open>Unsigned subtraction on \<open>size_t\<close>\<close>

definition size_sub :: "nat \<Rightarrow> nat \<Rightarrow> nat" where
  "size_sub a b = (a + 2 ^ 64 - b) mod 2 ^ 64"

lemma size_sub_no_wrap: "b \<le> a \<Longrightarrow> a < 2 ^ 64 \<Longrightarrow> size_sub a b = a - b"
proof -
  assume ba: "b \<le> a" and a: "a < 2 ^ 64"
  have "a + 2 ^ 64 - b = (a - b) + 2 ^ 64" using ba by simp
  then have "size_sub a b = ((a - b) + 2 ^ 64) mod 2 ^ 64" by (simp only: size_sub_def)
  also have "\<dots> = (a - b) mod 2 ^ 64" by (rule mod_add_self2)
  also have "\<dots> = a - b" using a by (simp add: less_imp_diff_less)
  finally show ?thesis .
qed

lemma size_sub_wraps: "a < b \<Longrightarrow> b \<le> 2 ^ 64 \<Longrightarrow> size_sub a b = 2 ^ 64 - (b - a)"
proof -
  assume ab: "a < b" and b: "b \<le> 2 ^ 64"
  have "a + 2 ^ 64 - b = 2 ^ 64 - (b - a)" using ab b by linarith
  moreover have "2 ^ 64 - (b - a) < (2 ^ 64 :: nat)" using ab by simp
  ultimately show ?thesis by (simp only: size_sub_def mod_less)
qed

section \<open>C++ exceptions as values\<close>

datatype cpp_exn =
    Invalid_argument string
  | Runtime_error string
  | Out_of_range string
  | Type_error string

type_synonym 'a result = "cpp_exn + 'a"

section \<open>Characters\<close>

text \<open>\<open>std::toupper\<close> and \<open>std::tolower\<close> in the C locale, applied to each character.\<close>

definition char_toupper :: "char \<Rightarrow> char" where
  "char_toupper c =
     (let n = of_char c :: nat in if 97 \<le> n \<and> n \<le> 122 then char_of (n - 32) else c)"

definition char_tolower :: "char \<Rightarrow> char" where
  "char_tolower c =
     (let n = of_char c :: nat in if 65 \<le> n \<and> n \<le> 90 then char_of (n + 32) else c)"

definition str_toupper :: "string \<Rightarrow> string" where
  "str_toupper s = map char_toupper s"

definition str_tolower :: "string \<Rightarrow> string" where
  "str_tolower s = map char_tolower s"

definition is_digit :: "char \<Rightarrow> bool" where
  "is_digit c = (let n = of_char c :: nat in 48 \<le> n \<and> n \<le> 57)"

lemma char_toupper_idem [simp]: "char_toupper (char_toupper c) = char_toupper c"
proof (cases "97 \<le> (of_char c :: nat) \<and> (of_char c :: nat) \<le> 122")
  case True
  then have "(of_char c - 32) mod 256 = (of_char c - 32 :: nat)"
    by (intro mod_less) linarith
  with True show ?thesis by (auto simp add: char_toupper_def Let_def)
next
  case False
  then show ?thesis by (auto simp add: char_toupper_def Let_def)
qed

lemma str_toupper_idem [simp]: "str_toupper (str_toupper s) = str_toupper s"
  by (simp add: str_toupper_def)

lemma str_toupper_Nil_iff [simp]: "str_toupper s = [] \<longleftrightarrow> s = []"
  by (simp add: str_toupper_def)

end
