(* ===== verification/Cpp_Containers.thy ===== *)
theory Cpp_Containers
  imports Chem_Prelude
begin

text \<open>
  The containers the components share: \<open>std::map\<close> (and \<open>std::unordered_map\<close>, whose
  iteration order the code never relies on) as an association list with strictly
  increasing keys, raw byte buffers with bounds-checked \<open>memcpy\<close>, and the
  little-endian layout of integer fields of the wire structs.

  The locale \<open>std_map\<close> is the contract clients use: what \<open>find\<close> returns after
  each operation and that iteration lists exactly the bound keys. It is interpreted on
  the association lists.
\<close>

section \<open>Ordered maps\<close>

type_synonym ('k, 'v) omap = "('k \<times> 'v) list"

definition om_wf :: "('k::linorder, 'v) omap \<Rightarrow> bool" where
  "om_wf m \<longleftrightarrow> sorted_wrt (<) (map fst m)"

definition om_find :: "('k, 'v) omap \<Rightarrow> 'k \<Rightarrow> 'v option" where
  "om_find m k = map_of m k"

text \<open>\<open>m[k] = v\<close>: overwrites or inserts in key order.\<close>

fun om_set :: "'k::linorder \<Rightarrow> 'v \<Rightarrow> ('k, 'v) omap \<Rightarrow> ('k, 'v) omap" where
  "om_set k v [] = [(k, v)]"
| "om_set k v ((k', v') # m) =
     (if k < k' then (k, v) # (k', v') # m
      else if k = k' then (k, v) # m
      else (k', v') # om_set k v m)"

text \<open>\<open>m.insert({k, v})\<close>: keeps an existing binding.\<close>

definition om_insert :: "'k::linorder \<Rightarrow> 'v \<Rightarrow> ('k, 'v) omap \<Rightarrow> ('k, 'v) omap" where
  "om_insert k v m = (if om_find m k = None then om_set k v m else m)"

definition om_erase :: "'k \<Rightarrow> ('k, 'v) omap \<Rightarrow> ('k, 'v) omap" where
  "om_erase k m = filter (\<lambda>e. fst e \<noteq> k) m"

definition om_keys :: "('k, 'v) omap \<Rightarrow> 'k list" where
  "om_keys m = map fst m"

text \<open>A loop \<open>for (auto& e : m)\<close> that updates each value in place, and the loop that
  erases while it iterates.\<close>

definition om_map_values :: "('v \<Rightarrow> 'w) \<Rightarrow> ('k, 'v) omap \<Rightarrow> ('k, 'w) omap" where
  "om_map_values f m = map (\<lambda>(k, v). (k, f v)) m"

definition om_filter :: "('k \<Rightarrow> 'v \<Rightarrow> bool) \<Rightarrow> ('k, 'v) omap \<Rightarrow> ('k, 'v) omap" where
  "om_filter p m = filter (\<lambda>(k, v). p k v) m"

lemma om_set_keys: "set (map fst (om_set k v m)) = insert k (set (map fst m))"
proof (induction m)
  case Nil
  then show ?case by simp
next
  case (Cons e m)
  obtain k' v' where e: "e = (k', v')" by force
  show ?case using Cons.IH by (simp add: e insert_commute)
qed

lemma om_wf_Nil [simp]: "om_wf []"
  by (simp add: om_wf_def)

lemma om_wf_Cons: "om_wf ((k, v) # m) \<longleftrightarrow> om_wf m \<and> (\<forall>k' \<in> set (map fst m). k < k')"
  by (auto simp: om_wf_def)

lemma om_wf_set: "om_wf m \<Longrightarrow> om_wf (om_set k v m)"
proof (induction m)
  case Nil
  then show ?case by (simp add: om_wf_Cons)
next
  case (Cons e m)
  obtain k' v' where e: "e = (k', v')" by force
  have "\<forall>x \<in> set (map fst (om_set k v m)). k' < x" if "k' < k"
    using Cons.prems that unfolding e om_set_keys om_wf_Cons by blast
  then show ?case
    using Cons by (auto simp: e om_wf_Cons)
qed

lemma om_find_set: "om_find (om_set k v m) x = (if x = k then Some v else om_find m x)"
  unfolding om_find_def by (induction m) auto

lemma om_find_erase: "om_find (om_erase k m) x = (if x = k then None else om_find m x)"
  unfolding om_find_def om_erase_def by (induction m) auto

lemma om_wf_filter: "om_wf m \<Longrightarrow> om_wf (filter p m)"
  unfolding om_wf_def by (induction m) auto

lemma om_wf_erase: "om_wf m \<Longrightarrow> om_wf (om_erase k m)"
  by (simp add: om_erase_def om_wf_filter)

lemma om_wf_distinct: "om_wf m \<Longrightarrow> distinct (map fst m)"
  unfolding om_wf_def by (simp add: strict_sorted_iff)

lemma om_keys_iff: "k \<in> set (om_keys m) \<longleftrightarrow> om_find m k \<noteq> None"
  by (simp add: om_keys_def om_find_def map_of_eq_None_iff)

lemma om_find_map_values: "om_find (om_map_values f m) k = map_option f (om_find m k)"
  unfolding om_find_def om_map_values_def by (induction m) auto

lemma om_keys_map_values [simp]: "om_keys (om_map_values f m) = om_keys m"
  by (simp add: om_keys_def om_map_values_def comp_def case_prod_beta)

lemma om_wf_map_values [simp]: "om_wf (om_map_values f m) = om_wf m"
  by (simp add: om_wf_def om_map_values_def comp_def case_prod_beta)

lemma om_find_filter:
  assumes "om_wf m"
  shows "om_find (om_filter p m) k =
    (case om_find m k of None \<Rightarrow> None | Some v \<Rightarrow> if p k v then Some v else None)"
  using assms
proof (induction m)
  case Nil
  then show ?case by (simp add: om_find_def om_filter_def)
next
  case (Cons e m)
  obtain k' v' where e: "e = (k', v')" by force
  from Cons.prems have wf: "om_wf m" and lt: "\<forall>x \<in> set (map fst m). k' < x"
    by (simp_all add: e om_wf_Cons)
  have none: "om_find m k' = None"
    using lt by (auto simp: om_find_def map_of_eq_None_iff)
  show ?case
    using Cons.IH [OF wf] none
    by (auto simp: e om_find_def om_filter_def split: option.splits)
qed

lemma om_wf_om_filter: "om_wf m \<Longrightarrow> om_wf (om_filter p m)"
  by (simp add: om_filter_def om_wf_filter)

lemma om_items_find: "om_wf m \<Longrightarrow> (k, v) \<in> set m \<longleftrightarrow> om_find m k = Some v"
  unfolding om_find_def by (simp add: om_wf_distinct)

text \<open>The contract, and what follows from it for every client.\<close>

locale std_map =
  fixes find :: "'m \<Rightarrow> 'k \<Rightarrow> 'v option"
    and upd :: "'k \<Rightarrow> 'v \<Rightarrow> 'm \<Rightarrow> 'm"
    and ins :: "'k \<Rightarrow> 'v \<Rightarrow> 'm \<Rightarrow> 'm"
    and erase :: "'k \<Rightarrow> 'm \<Rightarrow> 'm"
    and keys :: "'m \<Rightarrow> 'k list"
    and wf :: "'m \<Rightarrow> bool"
  assumes find_upd: "find (upd k v m) x = (if x = k then Some v else find m x)"
    and find_ins: "find (ins k v m) x = (if x = k \<and> find m k = None then Some v else find m x)"
    and find_erase: "find (erase k m) x = (if x = k then None else find m x)"
    and keys_find: "k \<in> set (keys m) \<longleftrightarrow> find m k \<noteq> None"
    and wf_upd: "wf m \<Longrightarrow> wf (upd k v m)"
    and wf_ins: "wf m \<Longrightarrow> wf (ins k v m)"
    and wf_erase: "wf m \<Longrightarrow> wf (erase k m)"
begin

lemma ins_keeps: "find m x = Some v \<Longrightarrow> find (ins k w m) x = Some v"
  by (auto simp: find_ins)

lemma ins_binds: "find (ins k v m) k \<noteq> None"
  by (simp add: find_ins)

lemma keys_upd: "set (keys (upd k v m)) = insert k (set (keys m))"
  by (auto simp: keys_find find_upd split: if_splits)

lemma keys_ins: "set (keys (ins k v m)) = insert k (set (keys m))"
  by (auto simp: keys_find find_ins split: if_splits)

lemma keys_erase: "set (keys (erase k m)) = set (keys m) - {k}"
  by (auto simp: keys_find find_erase split: if_splits)

text \<open>A loop of insertions of values computed from their keys binds exactly the missing
  keys and keeps every binding that was there.\<close>

lemma find_fold_ins:
  "find (fold (\<lambda>k. ins k (f k)) ks m) x =
     (if find m x = None \<and> x \<in> set ks then Some (f x) else find m x)"
  by (induction ks arbitrary: m) (auto simp: find_ins)

lemma wf_fold_ins: "wf m \<Longrightarrow> wf (fold (\<lambda>k. ins k (f k)) ks m)"
  by (induction ks arbitrary: m) (auto simp: wf_ins)

end

lemma om_find_insert:
  "om_find (om_insert k v m) x = (if x = k \<and> om_find m k = None then Some v else om_find m x)"
  by (simp add: om_insert_def om_find_set)

lemma om_wf_insert: "om_wf m \<Longrightarrow> om_wf (om_insert k v m)"
  by (simp add: om_insert_def om_wf_set)

interpretation om: std_map om_find om_set om_insert om_erase om_keys om_wf
  by unfold_locales
    (auto simp: om_find_set om_find_insert om_find_erase om_keys_iff om_wf_set om_wf_insert
      om_wf_erase)

lemmas om_wfs = om_wf_Nil om_wf_set om_wf_insert om_wf_erase om_wf_om_filter

lemmas om_finds [omap_simps] =
  om_find_set om_find_insert om_find_erase om_find_map_values

lemma om_find_Nil [simp, omap_simps]: "om_find [] k = None"
  by (simp add: om_find_def)

lemma om_set_length: "om_find m k = None \<Longrightarrow> length (om_set k v m) = Suc (length m)"
  by (induction k v m rule: om_set.induct) (auto simp: om_find_def split: if_splits)

lemma om_insert_length: "om_find m k = None \<Longrightarrow> length (om_insert k v m) = Suc (length m)"
  by (simp add: om_insert_def om_set_length)

lemma om_erase_length:
  assumes "om_wf m" and "om_find m k \<noteq> None"
  shows "length (om_erase k m) = length m - 1"
proof -
  have "length (filter (\<lambda>e. fst e \<noteq> k) m) = length m - 1" if "distinct (map fst m)" "k \<in> fst ` set m"
    using that
  proof (induction m)
    case (Cons e m)
    show ?case
    proof (cases "fst e = k")
      case True
      then have "k \<notin> fst ` set m" using Cons.prems(1) by simp
      then have "\<forall>x \<in> set m. fst x \<noteq> k" by (metis imageI)
      then have "filter (\<lambda>e. fst e \<noteq> k) m = m" by (simp add: filter_id_conv)
      then show ?thesis using True by simp
    next
      case False
      then have "m \<noteq> []" using Cons.prems(2) by auto
      then show ?thesis using Cons False by (cases m) auto
    qed
  qed simp
  moreover have "k \<in> fst ` set m" using assms(2) by (simp add: om_find_def map_of_eq_None_iff)
  ultimately show ?thesis using om_wf_distinct [OF assms(1)] by (simp add: om_erase_def)
qed

section \<open>Byte buffers\<close>

text \<open>\<open>memcpy(buf + off, src, len)\<close>: \<open>None\<close> when a byte would be written past the
  end of the allocation.\<close>

definition buf_write :: "'a list \<Rightarrow> nat \<Rightarrow> 'a list \<Rightarrow> 'a list option" where
  "buf_write buf off src =
     (if off + length src \<le> length buf
      then Some (take off buf @ src @ drop (off + length src) buf) else None)"

definition buf_read :: "'a list \<Rightarrow> nat \<Rightarrow> nat \<Rightarrow> 'a list option" where
  "buf_read buf off len = (if off + len \<le> length buf then Some (take len (drop off buf)) else None)"

lemma buf_write_length [byte_simps]: "buf_write buf off src = Some buf' \<Longrightarrow> length buf' = length buf"
  by (auto simp: buf_write_def split: if_splits)

lemma buf_write_nth:
  assumes "buf_write buf off src = Some buf'" and "i < length buf"
  shows "buf' ! i = (if off \<le> i \<and> i < off + length src then src ! (i - off) else buf ! i)"
  using assms by (auto simp: buf_write_def nth_append min_def split: if_splits)

lemma buf_write_defined: "off + length src \<le> length buf \<Longrightarrow> \<exists>buf'. buf_write buf off src = Some buf'"
  by (simp add: buf_write_def)

lemma buf_read_length: "buf_read buf off len = Some xs \<Longrightarrow> length xs = len"
  by (auto simp: buf_read_def split: if_splits)

lemma buf_read_nth: "buf_read buf off len = Some xs \<Longrightarrow> i < len \<Longrightarrow> xs ! i = buf ! (off + i)"
  by (auto simp: buf_read_def split: if_splits)

section \<open>Little-endian integer fields\<close>

primrec le_bytes :: "nat \<Rightarrow> nat \<Rightarrow> byte list" where
  "le_bytes 0 x = []"
| "le_bytes (Suc n) x = of_nat x # le_bytes n (x div 256)"

fun of_le :: "byte list \<Rightarrow> nat" where
  "of_le [] = 0"
| "of_le (b # bs) = unat b + 256 * of_le bs"

lemma le_bytes_length [simp, byte_simps]: "length (le_bytes n x) = n"
  by (induction n arbitrary: x) auto

lemma of_le_le_bytes: "of_le (le_bytes n x) = x mod 256 ^ n"
proof (induction n arbitrary: x)
  case 0
  then show ?case by simp
next
  case (Suc n)
  have "unat (of_nat x :: byte) = x mod 256" by (simp add: unat_of_nat)
  then have "of_le (le_bytes (Suc n) x) = x mod 256 + 256 * (x div 256 mod 256 ^ n)"
    by (simp add: Suc.IH)
  also have "\<dots> = x mod (256 * 256 ^ n)" by (simp add: mod_mult2_eq)
  finally show ?case by simp
qed

lemma of_le_le_bytes_small [byte_simps]: "x < 256 ^ n \<Longrightarrow> of_le (le_bytes n x) = x"
  by (simp add: of_le_le_bytes)

text \<open>The bytes of a field at a known offset of a struct.\<close>

definition field :: "nat \<Rightarrow> nat \<Rightarrow> byte list \<Rightarrow> nat" where
  "field off n bs = of_le (take n (drop off bs))"

lemma field_append_skip: "length xs \<le> off \<Longrightarrow> field off n (xs @ ys) = field (off - length xs) n ys"
  by (simp add: field_def)

lemma field_append_here: "n \<le> length xs \<Longrightarrow> field 0 n (xs @ ys) = field 0 n xs"
  by (simp add: field_def)

lemma field_le_bytes: "x < 256 ^ n \<Longrightarrow> field 0 n (le_bytes n x @ ys) = x"
  by (simp add: field_def of_le_le_bytes_small)

lemma field_byte: "field 0 (Suc 0) (b # bs) = unat b"
  by (simp add: field_def)

lemmas field_simps_le = field_append_skip field_le_bytes

end
