(* ===== verification/Chem_Common.thy ===== *)
theory Chem_Common
  imports Cpp_Containers
begin

text \<open>
  The declarations of \<open>include/chem/common.h\<close>: the wire structs and their byte layout,
  the size constants of the UDP transport, the enumerations and their string forms, the
  AERPAW location table, and the decibel conversions.
\<close>

section \<open>Wire structs\<close>

text \<open>Signed 64-bit fields (\<open>start\<close>, \<open>end\<close>) are kept as 64-bit words and read with
  \<open>sint\<close>.\<close>

record Header =
  hdr_size :: u64
  hdr_start :: u64
  hdr_end :: u64
  hdr_rt_tx_time :: u64
  hdr_sample_rate :: u64
  hdr_number_of_samples :: u32
  hdr_total_frags :: u16
  hdr_number_of_channels :: byte

record UDPHeader =
  udp_timestamp :: u64
  udp_size :: u64
  udp_seq_number :: u16
  udp_flag :: byte

definition HEADER_SIZE :: nat where "HEADER_SIZE = 48"
definition UDP_HEADER_SIZE :: nat where "UDP_HEADER_SIZE = 24"
definition MTU_SIZE :: nat where "MTU_SIZE = 1472"
definition BATCH_SIZE :: nat where "BATCH_SIZE = 4"
definition UDP_CAP :: nat where "UDP_CAP = 16"
definition PAYLOAD_SIZE :: nat where "PAYLOAD_SIZE = MTU_SIZE - UDP_HEADER_SIZE"
definition MAX_FRAGS :: nat where "MAX_FRAGS = 128"
definition MAX_IQ :: nat where "MAX_IQ = PAYLOAD_SIZE * MAX_FRAGS"
definition QUEUE_CAP :: nat where "QUEUE_CAP = 500"
definition IQ_SIZE :: nat where "IQ_SIZE = MAX_IQ * 4"

lemmas size_consts = HEADER_SIZE_def UDP_HEADER_SIZE_def MTU_SIZE_def BATCH_SIZE_def UDP_CAP_def
  PAYLOAD_SIZE_def MAX_FRAGS_def MAX_IQ_def IQ_SIZE_def

text \<open>The objects as the bytes they occupy (x86-64 layout, little-endian). The padding
  bytes are whatever the memory held; they are an argument.\<close>

definition UDPHeader_bytes :: "byte list \<Rightarrow> UDPHeader \<Rightarrow> byte list" where
  "UDPHeader_bytes pad u =
     le_bytes 8 (unat (udp_timestamp u)) @ le_bytes 8 (unat (udp_size u)) @
     le_bytes 2 (unat (udp_seq_number u)) @ le_bytes 1 (unat (udp_flag u)) @ pad"

definition UDPHeader_of_bytes :: "byte list \<Rightarrow> UDPHeader" where
  "UDPHeader_of_bytes bs =
     \<lparr>udp_timestamp = of_nat (field 0 8 bs), udp_size = of_nat (field 8 8 bs),
      udp_seq_number = of_nat (field 16 2 bs), udp_flag = of_nat (field 18 1 bs)\<rparr>"

definition Header_bytes :: "byte list \<Rightarrow> Header \<Rightarrow> byte list" where
  "Header_bytes pad h =
     le_bytes 8 (unat (hdr_size h)) @ le_bytes 8 (unat (hdr_start h)) @
     le_bytes 8 (unat (hdr_end h)) @ le_bytes 8 (unat (hdr_rt_tx_time h)) @
     le_bytes 8 (unat (hdr_sample_rate h)) @ le_bytes 4 (unat (hdr_number_of_samples h)) @
     le_bytes 2 (unat (hdr_total_frags h)) @ le_bytes 1 (unat (hdr_number_of_channels h)) @ pad"

definition Header_of_bytes :: "byte list \<Rightarrow> Header" where
  "Header_of_bytes bs =
     \<lparr>hdr_size = of_nat (field 0 8 bs), hdr_start = of_nat (field 8 8 bs),
      hdr_end = of_nat (field 16 8 bs), hdr_rt_tx_time = of_nat (field 24 8 bs),
      hdr_sample_rate = of_nat (field 32 8 bs), hdr_number_of_samples = of_nat (field 40 4 bs),
      hdr_total_frags = of_nat (field 44 2 bs), hdr_number_of_channels = of_nat (field 46 1 bs)\<rparr>"

definition zero_Header :: Header where
  "zero_Header = \<lparr>hdr_size = 0, hdr_start = 0, hdr_end = 0, hdr_rt_tx_time = 0,
     hdr_sample_rate = 0, hdr_number_of_samples = 0, hdr_total_frags = 0,
     hdr_number_of_channels = 0\<rparr>"

lemma word_field_bounds:
  "unat (a :: u64) < 256 ^ 8" "unat (b :: u32) < 256 ^ 4" "unat (c :: u16) < 256 ^ 2"
  "unat (d :: byte) < 256 ^ 1"
  using unsigned_less [of a, where 'a = nat] unsigned_less [of b, where 'a = nat]
    unsigned_less [of c, where 'a = nat] unsigned_less [of d, where 'a = nat]
  by simp_all

lemma UDPHeader_bytes_length [simp]: "length (UDPHeader_bytes pad u) = 19 + length pad"
  by (simp add: UDPHeader_bytes_def)

lemma Header_bytes_length [simp]: "length (Header_bytes pad h) = 47 + length pad"
  by (simp add: Header_bytes_def)

lemma UDPHeader_roundtrip: "UDPHeader_of_bytes (UDPHeader_bytes pad u @ rest) = u"
  by (cases u)
    (simp add: UDPHeader_bytes_def UDPHeader_of_bytes_def field_simps_le field_byte word_field_bounds
      word_field_bounds [simplified])

lemma Header_roundtrip: "Header_of_bytes (Header_bytes pad h @ rest) = h"
  by (cases h)
    (simp add: Header_bytes_def Header_of_bytes_def field_simps_le field_byte word_field_bounds
      word_field_bounds [simplified])

section \<open>Enumerations\<close>

datatype NodeType = NT_UNKNOWN | NT_FIXED | NT_AERPAW_FIXED | NT_AERPAW_PORTABLE
  | NT_VEHICLE_MAVPROXY | NT_OTHER int

fun NodeTypeToString :: "NodeType \<Rightarrow> string" where
  "NodeTypeToString NT_FIXED = ''Fixed''"
| "NodeTypeToString NT_AERPAW_FIXED = ''AERPAW Fixed''"
| "NodeTypeToString NT_AERPAW_PORTABLE = ''AERPAW Portable''"
| "NodeTypeToString NT_VEHICLE_MAVPROXY = ''Vehicle (MAVProxy)''"
| "NodeTypeToString _ = ''Unknown''"

datatype NoiseType = NoiseNONE | AWGN

datatype PropagationModel = PM_UNKNOWN | FREE_SPACE | TWO_RAY | THREE_GPP_38_901
  | OKUMURA_HATA | LONGLEY_RICE | PM_NONE

fun PropagationModelToString :: "PropagationModel \<Rightarrow> string" where
  "PropagationModelToString FREE_SPACE = ''FREE_SPACE''"
| "PropagationModelToString TWO_RAY = ''2_RAY''"
| "PropagationModelToString THREE_GPP_38_901 = ''3GPP_38_901''"
| "PropagationModelToString OKUMURA_HATA = ''OKUMURA_HATA''"
| "PropagationModelToString LONGLEY_RICE = ''LONGLEY_RICE''"
| "PropagationModelToString PM_NONE = ''NONE''"
| "PropagationModelToString PM_UNKNOWN = ''UNKNOWN''"

definition PropagationModelFromString :: "string \<Rightarrow> PropagationModel" where
  "PropagationModelFromString model =
     (let upper = str_toupper model in
      if upper = ''FREE_SPACE'' then FREE_SPACE
      else if upper = ''2_RAY'' \<or> upper = ''TWO_RAY'' then TWO_RAY
      else if upper = ''3GPP_38_901'' \<or> upper = ''3GPP'' then THREE_GPP_38_901
      else if upper = ''OKUMURA_HATA'' \<or> upper = ''HATA'' then OKUMURA_HATA
      else if upper = ''LONGLEY_RICE'' \<or> upper = ''ITM'' then LONGLEY_RICE
      else if upper = ''NONE'' then PM_NONE
      else PM_UNKNOWN)"

datatype PathLossType = twoRay | freeSpace | multiPath | threeGPP_38_901 | okumuraHata
  | longleyRice

record PropagationDefaults =
  pd_model :: PropagationModel
  pd_groundCoeff :: fp
  pd_scenario :: string
  pd_hataEnvironment :: string
  pd_refractivity :: fp
  pd_groundConductivity :: fp
  pd_groundPermittivity :: fp
  pd_climateZone :: int

definition init_PropagationDefaults :: PropagationDefaults where
  "init_PropagationDefaults = \<lparr>pd_model = FREE_SPACE, pd_groundCoeff = Fin (- 1),
     pd_scenario = ''UMa'', pd_hataEnvironment = ''URBAN'', pd_refractivity = Fin 301,
     pd_groundConductivity = Fin (5 / 1000), pd_groundPermittivity = Fin 15,
     pd_climateZone = 5\<rparr>"

record NodeLink =
  nl_type :: NodeType
  nl_dist :: fp
  nl_h_dist :: fp
  nl_elevation :: fp
  nl_azimuth :: fp

definition init_NodeLink :: NodeLink where
  "init_NodeLink = \<lparr>nl_type = NT_UNKNOWN, nl_dist = Fin 0, nl_h_dist = Fin 0,
     nl_elevation = Fin 0, nl_azimuth = Fin 0\<rparr>"

record Location =
  loc_lat :: fp
  loc_lon :: fp
  loc_alt :: fp

record Velocity =
  vel_east :: fp
  vel_north :: fp
  vel_up :: fp

record NodeLocation =
  nloc_logicalNode :: byte
  nloc_position :: Location
  nloc_velocity :: Velocity
  nloc_hasVelocity :: bool

definition mkLocation :: "real \<Rightarrow> real \<Rightarrow> real \<Rightarrow> Location" where
  "mkLocation lat lon alt = \<lparr>loc_lat = Fin lat, loc_lon = Fin lon, loc_alt = Fin alt\<rparr>"

definition ResolveAerpawLocation :: "string \<Rightarrow> Location option" where
  "ResolveAerpawLocation key_raw =
     (let upper = str_toupper key_raw in
      if upper = ''CC-1'' \<or> upper = ''CC1''
      then Some (mkLocation 35.773871026537634 (- 78.67694781603241) 10)
      else if upper = ''CC-2'' \<or> upper = ''CC2''
      then Some (mkLocation 35.772182310053005 (- 78.67476986245003) 10)
      else if upper = ''CC-3'' \<or> upper = ''CC3'' then None
      else if upper = ''LW-1'' \<or> upper = ''LW1''
      then Some (mkLocation 35.72750947 (- 78.69595819) 12)
      else if upper = ''LW-2'' \<or> upper = ''LW2''
      then Some (mkLocation 35.72821305 (- 78.70090823) 10)
      else if upper = ''LW-3'' \<or> upper = ''LW3''
      then Some (mkLocation 35.72491205 (- 78.69190014) 20)
      else if upper = ''LW-4'' \<or> upper = ''LW4''
      then Some (mkLocation 35.73318358 (- 78.6983642) 12)
      else if upper = ''LW-5'' \<or> upper = ''LW5''
      then Some (mkLocation 35.74294142 (- 78.69962993) 18)
      else None)"

section \<open>Decibel conversions\<close>

definition DB_TO_LIN :: "real \<Rightarrow> real" where "DB_TO_LIN x = 10 powr (x / 10)"
definition LIN_TO_DB :: "real \<Rightarrow> real" where "LIN_TO_DB x = 10 * log 10 x"
definition DB_TO_LIN_A :: "real \<Rightarrow> real" where "DB_TO_LIN_A x = 10 powr (x / 20)"
definition LIN_TO_DB_A :: "real \<Rightarrow> real" where "LIN_TO_DB_A x = 20 * log 10 x"
definition DBM_TO_LIN :: "real \<Rightarrow> real" where "DBM_TO_LIN x = 10 powr ((x - 30) / 10)"
definition LIN_TO_DBM :: "real \<Rightarrow> real" where "LIN_TO_DBM x = 10 * log 10 x + 30"

definition LOG_SAFE_GUARD :: real where "LOG_SAFE_GUARD = 1 / 10000"

definition LOG_GUARD :: "fp \<Rightarrow> real" where
  "LOG_GUARD x = max LOG_SAFE_GUARD (case x of Fin r \<Rightarrow> r | _ \<Rightarrow> 0)"

lemma LOG_GUARD_pos: "0 < LOG_GUARD x"
  by (simp add: LOG_GUARD_def LOG_SAFE_GUARD_def)

lemma DB_TO_LIN_pos: "0 < DB_TO_LIN x"
  by (simp add: DB_TO_LIN_def)

section \<open>Properties\<close>

lemma PropagationModelFromString_upper:
  "PropagationModelFromString (str_toupper s) = PropagationModelFromString s"
  by (simp add: PropagationModelFromString_def)

text \<open>Parsing the printed form of a propagation model gives the model back, for every
  enumerator, and parsing ignores letter case.\<close>

theorem PropagationModel_string_roundtrip:
  "PropagationModelFromString (PropagationModelToString m) = m \<and>
   PropagationModelFromString (str_toupper s) = PropagationModelFromString s"
proof -
  have "PropagationModelFromString (PropagationModelToString m) = m"
    by (cases m)
      (simp_all add: PropagationModelFromString_def str_toupper_def char_toupper_def Let_def)
  then show ?thesis by (simp add: PropagationModelFromString_upper)
qed

text \<open>The decibel conversions are inverse to one another: power and amplitude, dB and
  dBm, in both directions (from linear only for positive values, where the logarithm is
  defined).\<close>

theorem dB_conversions_inverse:
  "LIN_TO_DB (DB_TO_LIN x) = x \<and> LIN_TO_DB_A (DB_TO_LIN_A x) = x \<and>
   LIN_TO_DBM (DBM_TO_LIN x) = x \<and>
   (0 < y \<longrightarrow> DB_TO_LIN (LIN_TO_DB y) = y \<and> DB_TO_LIN_A (LIN_TO_DB_A y) = y \<and>
     DBM_TO_LIN (LIN_TO_DBM y) = y)"
  by (simp add: LIN_TO_DB_def DB_TO_LIN_def LIN_TO_DB_A_def DB_TO_LIN_A_def LIN_TO_DBM_def
      DBM_TO_LIN_def field_simps)

theorem dB_conversions_inverse_witness:
  "(0::real) < 100 \<and> DB_TO_LIN (LIN_TO_DB 100) = 100"
  using dB_conversions_inverse [of 0 100] by simp

end
