(* ===== verification/Data_Pool.thy ===== *)
theory Data_Pool
  imports Chem_Common
begin

text \<open>
  The buffer pools of \<open>include/chem/models/data_pool.hpp\<close>. A pool owns a FIFO of
  buffers (\<open>tbb::concurrent_queue\<close> of \<open>unique_ptr\<close>); a caller that acquired a buffer
  owns it until it is released. A null \<open>unique_ptr\<close> is \<open>None\<close>.

  \<open>DataArrayPool\<close> has four constructors that differ in whether the item size is a template
  argument and whether the allocation is bound to a NUMA node; all of them fill the queue
  with zeroed buffers of one size, so they are one definition of that size. \<open>DataPool\<close>
  holds single objects: the buffers of size one.

  The locale \<open>buffer_pool\<close> is what the transport and the signal path rely on; it is
  interpreted on the pool model.
\<close>

record 'a DataArrayPool =
  dp_poolSize :: nat
  dp_itemSize :: nat
  dp_zeroOnRelease :: bool
  dp_pool :: "'a list list"
  dp_id :: string

text \<open>The constructors. \<open>z\<close> is the zero of the element type.\<close>

definition DataArrayPool_new ::
  "'a \<Rightarrow> nat \<Rightarrow> nat \<Rightarrow> string \<Rightarrow> bool \<Rightarrow> 'a DataArrayPool result" where
  "DataArrayPool_new z poolSize itemSize ident zero =
     (if poolSize = 0 then Inl (Invalid_argument (''Pool size must be greater than zero. ID:'' @ ident))
      else Inr \<lparr>dp_poolSize = poolSize, dp_itemSize = itemSize, dp_zeroOnRelease = zero,
                dp_pool = replicate poolSize (replicate itemSize z), dp_id = ident\<rparr>)"

definition acquire :: "'a DataArrayPool \<Rightarrow> ('a list \<times> 'a DataArrayPool) result" where
  "acquire p =
     (case dp_pool p of
        [] \<Rightarrow> Inl (Runtime_error (''No available items in the pool. ID:'' @ dp_id p))
      | item # rest \<Rightarrow> Inr (item, p\<lparr>dp_pool := rest\<rparr>))"

text \<open>The loop of \<open>acquireBatch\<close>: \<open>n\<close> more items wanted, \<open>batch\<close> already taken. When
  the queue runs dry the items taken so far are pushed back, in order, before the throw;
  the pool is therefore returned with the error.\<close>

fun acquireBatch_loop ::
  "nat \<Rightarrow> 'a list list \<Rightarrow> 'a DataArrayPool \<Rightarrow> cpp_exn option \<times> 'a list list \<times> 'a DataArrayPool" where
  "acquireBatch_loop 0 batch p = (None, batch, p)"
| "acquireBatch_loop (Suc n) batch p =
     (case dp_pool p of
        [] \<Rightarrow> (Some (Runtime_error (''Not enough items in the pool for batch acquire. ID:'' @ dp_id p)),
               [], p\<lparr>dp_pool := dp_pool p @ batch\<rparr>)
      | item # rest \<Rightarrow> acquireBatch_loop n (batch @ [item]) (p\<lparr>dp_pool := rest\<rparr>))"

definition acquireBatch ::
  "nat \<Rightarrow> 'a DataArrayPool \<Rightarrow> cpp_exn option \<times> 'a list list \<times> 'a DataArrayPool" where
  "acquireBatch n p = acquireBatch_loop n [] p"

definition available :: "'a DataArrayPool \<Rightarrow> nat" where
  "available p = length (dp_pool p)"

definition release :: "'a \<Rightarrow> 'a list option \<Rightarrow> 'a DataArrayPool \<Rightarrow> 'a DataArrayPool result" where
  "release z item p =
     (case item of
        None \<Rightarrow> Inl (Invalid_argument (''Cannot release a null. ID:'' @ dp_id p))
      | Some b \<Rightarrow>
          Inr (p\<lparr>dp_pool := dp_pool p @
                 [if dp_zeroOnRelease p then replicate (dp_itemSize p) z else b]\<rparr>))"

definition getItemSize :: "'a DataArrayPool \<Rightarrow> nat" where
  "getItemSize p = dp_itemSize p"

section \<open>Invariant\<close>

text \<open>Every pooled buffer has the pool's item size, and a pool that scrubs its buffers
  holds only zeroed ones.\<close>

definition pool_inv :: "'a \<Rightarrow> 'a DataArrayPool \<Rightarrow> bool" where
  "pool_inv z p \<longleftrightarrow>
     (\<forall>b \<in> set (dp_pool p). length b = dp_itemSize p) \<and>
     (dp_zeroOnRelease p \<longrightarrow> (\<forall>b \<in> set (dp_pool p). b = replicate (dp_itemSize p) z))"

lemma pool_inv_new: "DataArrayPool_new z n sz i zr = Inr p \<Longrightarrow> pool_inv z p"
  by (auto simp: DataArrayPool_new_def pool_inv_def split: if_splits)

lemma acquire_Inr_iff:
  "acquire p = Inr (b, p') \<longleftrightarrow> (\<exists>rest. dp_pool p = b # rest \<and> p' = p\<lparr>dp_pool := rest\<rparr>)"
  by (auto simp: acquire_def split: list.splits)

lemma acquire_Inl_iff: "(\<exists>e. acquire p = Inl e) \<longleftrightarrow> available p = 0"
  by (auto simp: acquire_def available_def split: list.splits)

lemma pool_inv_acquire:
  "pool_inv z p \<Longrightarrow> acquire p = Inr (b, p') \<Longrightarrow> pool_inv z p' \<and> length b = dp_itemSize p"
  by (auto simp: pool_inv_def acquire_Inr_iff)

lemma release_Some:
  "release z (Some b) p =
     Inr (p\<lparr>dp_pool := dp_pool p @ [if dp_zeroOnRelease p then replicate (dp_itemSize p) z else b]\<rparr>)"
  by (simp add: release_def)

lemma pool_inv_release:
  "pool_inv z p \<Longrightarrow> length b = dp_itemSize p \<Longrightarrow> release z (Some b) p = Inr p' \<Longrightarrow> pool_inv z p'"
  by (auto simp: pool_inv_def release_def)

lemma available_release: "release z (Some b) p = Inr p' \<Longrightarrow> available p' = Suc (available p)"
  by (auto simp: release_def available_def)

lemma available_acquire: "acquire p = Inr (b, p') \<Longrightarrow> Suc (available p') = available p"
  by (auto simp: acquire_Inr_iff available_def)

section \<open>Batch acquisition\<close>

lemma acquireBatch_loop_eq:
  "acquireBatch_loop n batch p =
     (if n \<le> length (dp_pool p)
      then (None, batch @ take n (dp_pool p), p\<lparr>dp_pool := drop n (dp_pool p)\<rparr>)
      else (Some (Runtime_error (''Not enough items in the pool for batch acquire. ID:'' @ dp_id p)),
            [], p\<lparr>dp_pool := batch @ dp_pool p\<rparr>))"
proof (induction n batch p rule: acquireBatch_loop.induct)
  case (1 batch p)
  then show ?case by simp
next
  case (2 n batch p)
  then show ?case by (cases "dp_pool p") auto
qed

text \<open>\<open>acquireBatch\<close> is all or nothing: with enough buffers it takes exactly the
  first \<open>n\<close> of the queue in order and leaves the rest; otherwise it reports the error,
  hands out nothing and leaves the pool exactly as it was.\<close>

theorem acquireBatch_all_or_nothing:
  "acquireBatch n p =
     (if n \<le> available p
      then (None, take n (dp_pool p), p\<lparr>dp_pool := drop n (dp_pool p)\<rparr>)
      else (Some (Runtime_error (''Not enough items in the pool for batch acquire. ID:'' @ dp_id p)),
            [], p))"
  by (simp add: acquireBatch_def acquireBatch_loop_eq available_def)

section \<open>The pool contract\<close>

locale buffer_pool =
  fixes acq :: "'p \<Rightarrow> ('b \<times> 'p) result"
    and rel :: "'b \<Rightarrow> 'p \<Rightarrow> 'p"
    and avail :: "'p \<Rightarrow> nat"
    and inv :: "'p \<Rightarrow> bool"
    and ok :: "'p \<Rightarrow> 'b \<Rightarrow> bool"
  assumes acq_fails: "(\<exists>e. acq p = Inl e) \<longleftrightarrow> avail p = 0"
    and acq_avail: "acq p = Inr (b, p') \<Longrightarrow> Suc (avail p') = avail p"
    and acq_inv: "inv p \<Longrightarrow> acq p = Inr (b, p') \<Longrightarrow> inv p'"
    and acq_ok: "inv p \<Longrightarrow> acq p = Inr (b, p') \<Longrightarrow> ok p b"
    and acq_ok_frame: "acq p = Inr (b, p') \<Longrightarrow> ok p' c = ok p c"
    and rel_avail: "avail (rel b p) = Suc (avail p)"
    and rel_inv: "inv p \<Longrightarrow> ok p b \<Longrightarrow> inv (rel b p)"
    and rel_ok_frame: "ok (rel b p) c = ok p c"
begin

text \<open>Acquiring and then releasing, in any number, keeps the balance.\<close>

lemma acq_rel_balance: "acq p = Inr (b, p') \<Longrightarrow> avail (rel b' p') = avail p"
  by (simp add: rel_avail acq_avail)

lemma fold_rel_avail: "avail (fold rel bs p) = length bs + avail p"
  by (induction bs arbitrary: p) (simp_all add: rel_avail)

lemma fold_rel_inv: "inv p \<Longrightarrow> (\<forall>b \<in> set bs. ok p b) \<Longrightarrow> inv (fold rel bs p)"
  by (induction bs arbitrary: p) (simp_all add: rel_inv rel_ok_frame)

end

text \<open>Releasing a non-null buffer into the pool, the total form clients use.\<close>

definition release_buf :: "'a \<Rightarrow> 'a list \<Rightarrow> 'a DataArrayPool \<Rightarrow> 'a DataArrayPool" where
  "release_buf z b p =
     p\<lparr>dp_pool := dp_pool p @ [if dp_zeroOnRelease p then replicate (dp_itemSize p) z else b]\<rparr>"

lemma release_release_buf: "release z (Some b) p = Inr (release_buf z b p)"
  by (simp add: release_def release_buf_def)

lemma release_buf_fields [simp]:
  "dp_itemSize (release_buf z b p) = dp_itemSize p"
  "dp_zeroOnRelease (release_buf z b p) = dp_zeroOnRelease p"
  "available (release_buf z b p) = Suc (available p)"
  by (simp_all add: release_buf_def available_def)

interpretation dpool: buffer_pool
    acquire "release_buf z" available "pool_inv z" "\<lambda>p b. length b = dp_itemSize p" for z
proof (unfold_locales, goal_cases)
  case (1 p)
  show ?case by (rule acquire_Inl_iff)
next
  case (2 p b p')
  then show ?case by (rule available_acquire)
next
  case (3 p b p')
  then show ?case by (rule pool_inv_acquire [THEN conjunct1])
next
  case (4 p b p')
  then show ?case by (rule pool_inv_acquire [THEN conjunct2])
next
  case (5 p b p' c)
  then show ?case by (auto simp: acquire_Inr_iff)
next
  case (6 b p)
  show ?case by simp
next
  case (7 p b)
  then show ?case by (rule pool_inv_release [OF _ _ release_release_buf])
next
  case (8 b p c)
  show ?case by simp
qed

section \<open>Any interleaving of pool operations\<close>

text \<open>The users of a pool: each step acquires one buffer, acquires a batch, or gives back a
  buffer it holds (whose contents it may have overwritten). \<open>held\<close> is the number of
  buffers the users own. The queue is thread-safe, so a concurrent run is a sequence of
  these steps.\<close>

inductive pool_step ::
  "'a \<Rightarrow> 'a DataArrayPool \<times> nat \<Rightarrow> 'a DataArrayPool \<times> nat \<Rightarrow> bool" for z where
  step_acquire: "acquire p = Inr (b, p') \<Longrightarrow> pool_step z (p, h) (p', Suc h)"
| step_acquire_fail: "acquire p = Inl e \<Longrightarrow> pool_step z (p, h) (p, h)"
| step_batch: "acquireBatch n p = (err, bs, p') \<Longrightarrow> pool_step z (p, h) (p', h + length bs)"
| step_release: "length b = dp_itemSize p \<Longrightarrow> release z (Some b) p = Inr p' \<Longrightarrow>
     pool_step z (p, Suc h) (p', h)"

inductive pool_run ::
  "'a \<Rightarrow> 'a DataArrayPool \<times> nat \<Rightarrow> 'a DataArrayPool \<times> nat \<Rightarrow> bool" for z where
  run_refl: "pool_run z s s"
| run_step: "pool_run z s t \<Longrightarrow> pool_step z t u \<Longrightarrow> pool_run z s u"

definition pool_good :: "'a \<Rightarrow> 'a DataArrayPool \<times> nat \<Rightarrow> bool" where
  "pool_good z s = (case s of (p, h) \<Rightarrow> pool_inv z p \<and> available p + h = dp_poolSize p)"

lemma pool_step_good:
  "pool_step z s t \<Longrightarrow> pool_good z s \<Longrightarrow> pool_good z t \<and> dp_poolSize (fst t) = dp_poolSize (fst s)"
proof (induction rule: pool_step.induct)
  case (step_acquire p b p' h)
  then show ?case
    by (auto simp: pool_good_def acquire_Inr_iff available_def pool_inv_def)
next
  case (step_acquire_fail p e h)
  then show ?case by simp
next
  case (step_batch n p err bs p' h)
  then have "(n \<le> available p \<and> bs = take n (dp_pool p) \<and> p' = p\<lparr>dp_pool := drop n (dp_pool p)\<rparr>) \<or>
      (bs = [] \<and> p' = p)"
    by (auto simp: acquireBatch_def acquireBatch_loop_eq available_def split: if_splits)
  moreover have "b \<in> set (dp_pool p)" if "b \<in> set (drop n (dp_pool p))" for b
    using that by (rule in_set_dropD)
  then have "pool_inv z (p\<lparr>dp_pool := drop n (dp_pool p)\<rparr>)"
    using step_batch.prems unfolding pool_good_def pool_inv_def by simp
  ultimately show ?case
    using step_batch.prems \<open>pool_inv z (p\<lparr>dp_pool := drop n (dp_pool p)\<rparr>)\<close> by (auto simp: pool_good_def available_def)
next
  case (step_release b p p' h)
  then have "pool_inv z p'" using pool_inv_release by (auto simp: pool_good_def)
  with step_release show ?case by (auto simp: pool_good_def release_def available_def)
qed

text \<open>C8. Buffers are conserved: starting from a fresh pool with nothing handed out, after
  any sequence of acquire, batch-acquire and release steps the buffers in the queue plus
  the buffers held by callers are exactly the pool size, every queued buffer has the item
  size, and a scrubbing pool only ever queues zeroed buffers (no caller sees another
  caller's data).\<close>

theorem pool_conserves_buffers:
  assumes "DataArrayPool_new z n sz i zr = Inr p0"
    and "pool_run z (p0, 0) (p, h)"
  shows "available p + h = n \<and> pool_inv z p"
proof -
  have new: "pool_good z (p0, 0) \<and> dp_poolSize p0 = n"
    using assms(1) pool_inv_new [OF assms(1)]
    by (auto simp: pool_good_def DataArrayPool_new_def available_def split: if_splits)
  have "pool_good z t \<and> dp_poolSize (fst t) = dp_poolSize (fst s)"
    if "pool_run z s t" "pool_good z s" for s t
    using that by (induction rule: pool_run.induct) (auto dest: pool_step_good)
  from this [OF assms(2)] new show ?thesis by (auto simp: pool_good_def)
qed

theorem pool_conserves_buffers_witness:
  "available (release_buf (0::int) [7] \<lparr>dp_poolSize = 2, dp_itemSize = 1, dp_zeroOnRelease = True,
      dp_pool = [[0]], dp_id = ''x''\<rparr>) + 0 = 2"
proof -
  let ?p0 = "\<lparr>dp_poolSize = 2, dp_itemSize = 1, dp_zeroOnRelease = True,
      dp_pool = [[0::int], [0]], dp_id = ''x''\<rparr>"
  let ?p1 = "\<lparr>dp_poolSize = 2, dp_itemSize = 1, dp_zeroOnRelease = True,
      dp_pool = [[0::int]], dp_id = ''x''\<rparr>"
  have new: "DataArrayPool_new (0::int) 2 1 ''x'' True = Inr ?p0"
    by (simp add: DataArrayPool_new_def numeral_2_eq_2)
  have a: "pool_step 0 (?p0, 0) (?p1, Suc 0)"
    by (rule step_acquire [where b = "[0]"]) (simp add: acquire_def)
  have r: "pool_step 0 (?p1, Suc 0) (release_buf 0 [7] ?p1, 0)"
    by (rule step_release [where b = "[7]"]) (simp_all add: release_release_buf)
  have "pool_run 0 (?p0, 0) (release_buf 0 [7] ?p1, 0)"
    using run_step [OF run_step [OF run_refl a] r] .
  from pool_conserves_buffers [OF new this] show ?thesis by simp
qed

text \<open>The error paths: a pool of size zero cannot be made, an empty pool refuses to
  acquire, a null pointer cannot be released; each leaves the state alone, and these are
  the only failures.\<close>

theorem pool_errors:
  "((\<exists>e. DataArrayPool_new z n sz i zr = Inl e) \<longleftrightarrow> n = 0) \<and>
   ((\<exists>e. acquire p = Inl e) \<longleftrightarrow> available p = 0) \<and>
   ((\<exists>e. release z item p = Inl e) \<longleftrightarrow> item = None)"
  by (auto simp: DataArrayPool_new_def acquire_def available_def release_def
      split: list.splits option.splits)

end
