(* ===== verification/Udp_Client.thy ===== *)
theory Udp_Client
  imports Data_Pool
begin

text \<open>
  The IQ signal object of \<open>include/chem/models/signal.hpp\<close> and the fragmenting sender
  \<open>UDPClient::Send\<close> of \<open>src/chem/net/udp_client.cpp\<close>. Packets are byte lists exactly as
  \<open>sendmmsg\<close> gathers them from the iovec; the clock and the uninitialised padding bytes of
  the structs are arguments. Unsigned subtraction wraps as \<open>size_t\<close> does, and a gather
  that would read past the IQ buffer is a fault.
\<close>

section \<open>Signal\<close>

record Signal =
  sig_srcId :: string
  sig_size :: u32
  sig_srate :: real
  sig_freq :: real
  sig_numCh :: byte
  sig_numSamp :: nat
  sig_header :: Header
  sig_iq :: "byte list option"

text \<open>The constructor leaves the rate, the channel count and the sample count unset, and
  drops the buffer, when the header announces no data; the unset values are an argument.\<close>

definition Signal_new ::
  "real \<times> byte \<times> nat \<Rightarrow> byte list option \<Rightarrow> Header \<Rightarrow> real \<Rightarrow> string \<Rightarrow> Signal" where
  "Signal_new unset iq hdr freq ident =
     (if hdr_size hdr \<noteq> 0
      then \<lparr>sig_srcId = ident, sig_size = ucast (hdr_size hdr),
            sig_srate = real (unat (hdr_sample_rate hdr)), sig_freq = freq,
            sig_numCh = hdr_number_of_channels hdr,
            sig_numSamp = unat (hdr_number_of_samples hdr), sig_header = hdr, sig_iq = iq\<rparr>
      else \<lparr>sig_srcId = ident, sig_size = ucast (hdr_size hdr), sig_srate = fst unset,
            sig_freq = freq, sig_numCh = fst (snd unset), sig_numSamp = snd (snd unset),
            sig_header = hdr, sig_iq = None\<rparr>)"

definition getSize :: "Signal \<Rightarrow> nat" where
  "getSize s = unat (sig_size s)"

definition getSizePerBuff :: "Signal \<Rightarrow> nat" where
  "getSizePerBuff s = (if sig_numCh s = 0 then 0 else getSize s div unat (sig_numCh s))"

text \<open>\<open>getData(ch)\<close> as an offset into the IQ buffer; \<open>None\<close> is the null pointer.\<close>

definition getData :: "Signal \<Rightarrow> nat \<Rightarrow> nat option" where
  "getData s chNo = (if unat (sig_numCh s) \<le> chNo then None else Some (chNo * getSizePerBuff s))"

definition getTotalNumSamps :: "Signal \<Rightarrow> nat" where
  "getTotalNumSamps s = sig_numSamp s * unat (sig_numCh s)"

section \<open>Fragmentation plan\<close>

text \<open>The payload size of a fragment and the number of fragments for \<open>size\<close> bytes.\<close>

definition frag_plan :: "nat \<Rightarrow> nat \<times> nat" where
  "frag_plan sz =
     (let cps = PAYLOAD_SIZE;
          tot = (sz + HEADER_SIZE) div cps + (if (sz + HEADER_SIZE) mod cps \<noteq> 0 then 1 else 0)
      in if tot < BATCH_SIZE \<and> 0 < tot
         then (let cps' = (sz + HEADER_SIZE + BATCH_SIZE - 1) div BATCH_SIZE
               in (cps', (sz + HEADER_SIZE) div cps'))
         else (cps, tot))"

definition frag_flag :: "nat \<Rightarrow> nat \<Rightarrow> byte" where
  "frag_flag tot i =
     (if tot = 1 then 5 else if i = 0 then 1 else if i = tot - 1 then 4 else 2)"

section \<open>The send loop\<close>

record send_env =
  env_now :: "nat \<Rightarrow> u64"
  env_frag_pad :: "byte list"
  env_hdr_pad :: "byte list"

record send_state =
  ss_sent :: nat
  ss_sent_per_ch :: nat
  ss_batch :: "byte list list"
  ss_wire :: "byte list list"

text \<open>The iovec entries of one fragment: \<open>len\<close> bytes of each of \<open>n\<close> channels, starting
  at the same offset inside every channel.\<close>

primrec gather :: "Signal \<Rightarrow> nat \<Rightarrow> nat \<Rightarrow> nat \<Rightarrow> byte list option" where
  "gather s off len 0 = Some []"
| "gather s off len (Suc n) =
     (case gather s off len n of
        None \<Rightarrow> None
      | Some bs \<Rightarrow>
          (case sig_iq s of
             None \<Rightarrow> None
           | Some iq \<Rightarrow>
               (case getData s n of
                  None \<Rightarrow> None
                | Some base \<Rightarrow> map_option (\<lambda>x. bs @ x) (buf_read iq (base + off) len))))"

definition frag_packet ::
  "send_env \<Rightarrow> Header \<Rightarrow> nat \<Rightarrow> nat \<Rightarrow> nat \<Rightarrow> byte list \<Rightarrow> byte list" where
  "frag_packet env main_header tot i payload_size bs =
     UDPHeader_bytes (env_frag_pad env)
       \<lparr>udp_timestamp = env_now env i, udp_size = of_nat payload_size,
        udp_seq_number = of_nat i, udp_flag = frag_flag tot i\<rparr> @
     (if i = 0 then Header_bytes (env_hdr_pad env) main_header else []) @ bs"

text \<open>One iteration: \<open>Inl\<close> ends the loop (a \<open>break\<close>, or a gather fault as \<open>None\<close>),
  \<open>Inr\<close> goes on. A full batch, or the last fragment, is handed to \<open>sendmmsg\<close>; a failing
  \<open>sendmmsg\<close> is only logged, so the wire is what was handed over.\<close>

definition send_step ::
  "send_env \<Rightarrow> Signal \<Rightarrow> Header \<Rightarrow> nat \<Rightarrow> nat \<Rightarrow> nat \<Rightarrow> send_state \<Rightarrow> send_state option + send_state" where
  "send_step env s main_header cps tot i st =
     (let nof_ch = unat (hdr_number_of_channels (sig_header s));
          remaining = size_sub (getSize s) (ss_sent st);
          payload0 = min remaining cps
      in if payload0 = 0 then Inl (Some st)
         else
           let payload1 = (if i = 0 \<and> 1 < tot then size_sub payload0 HEADER_SIZE else payload0);
               size_per_ch = payload1 div nof_ch;
               aligned = size_per_ch * nof_ch
           in if aligned = 0 then Inl (Some st)
              else
                case gather s (ss_sent_per_ch st) size_per_ch nof_ch of
                  None \<Rightarrow> Inl None
                | Some bs \<Rightarrow>
                    let batch = ss_batch st @ [frag_packet env main_header tot i aligned bs];
                        flush = (length batch = BATCH_SIZE \<or> i = tot - 1)
                    in Inr \<lparr>ss_sent = ss_sent st + aligned,
                            ss_sent_per_ch = ss_sent_per_ch st + size_per_ch,
                            ss_batch = (if flush then [] else batch),
                            ss_wire = (if flush then ss_wire st @ batch else ss_wire st)\<rparr>)"

text \<open>\<open>k\<close> iterations are left; the loop index is \<open>i\<close>.\<close>

fun send_loop ::
  "send_env \<Rightarrow> Signal \<Rightarrow> Header \<Rightarrow> nat \<Rightarrow> nat \<Rightarrow> nat \<Rightarrow> nat \<Rightarrow> send_state \<Rightarrow> send_state option" where
  "send_loop env s mh cps tot 0 i st = Some st"
| "send_loop env s mh cps tot (Suc k) i st =
     (case send_step env s mh cps tot i st of
        Inl r \<Rightarrow> r
      | Inr st' \<Rightarrow> send_loop env s mh cps tot k (Suc i) st')"

datatype send_result =
    Sent "byte list list" "byte DataArrayPool"
  | Send_fault
  | Send_exn cpp_exn

definition Send ::
  "send_env \<Rightarrow> nat \<Rightarrow> byte DataArrayPool \<Rightarrow> Signal option \<Rightarrow> nat \<Rightarrow> send_result" where
  "Send env m_port pool sig bytes_per_otw =
     (case sig of
        None \<Rightarrow> Sent [] pool
      | Some s \<Rightarrow>
          let final_header = sig_header s;
              nof_ch = hdr_number_of_channels final_header;
              n_samples = hdr_number_of_samples final_header;
              done = (\<lambda>wire. case release 0 (sig_iq s) pool of
                         Inl e \<Rightarrow> Send_exn e | Inr pool' \<Rightarrow> Sent wire pool');
              (cps, total_frags) = frag_plan (getSize s)
          in if n_samples = 0 \<or> nof_ch = 0 \<or> bytes_per_otw = 0 \<or> m_port = 0 then done []
             else if total_frags = 0 then done []
             else
               let main_header = final_header\<lparr>hdr_total_frags := of_nat total_frags\<rparr>
               in case send_loop env s main_header cps total_frags total_frags 0
                       \<lparr>ss_sent = 0, ss_sent_per_ch = 0, ss_batch = [], ss_wire = []\<rparr> of
                    None \<Rightarrow> Send_fault
                  | Some st \<Rightarrow> done (ss_wire st))"

section \<open>Well-formed signals\<close>

text \<open>A signal as the processing path builds them: up to four channels of 4-byte samples
  (1, 2 or 4, which divide the 48-byte header), its buffer at least as long as the data,
  the channel count of the object and of its header agree.\<close>

definition wf_signal :: "Signal \<Rightarrow> bool" where
  "wf_signal s \<longleftrightarrow>
     unat (sig_numCh s) \<in> {1, 2, 4} \<and>
     hdr_number_of_channels (sig_header s) = sig_numCh s \<and>
     hdr_number_of_samples (sig_header s) \<noteq> 0 \<and>
     hdr_size (sig_header s) = of_nat (getSize s) \<and>
     4 * unat (sig_numCh s) dvd getSize s \<and>
     144 < getSize s \<and> getSize s + 48 \<le> 65535 * 1448 \<and>
     (\<exists>iq. sig_iq s = Some iq \<and> getSize s \<le> length iq)"

text \<open>The plan of a well-formed signal: enough fragments, none of them superfluous.\<close>

definition good_plan :: "nat \<Rightarrow> nat \<Rightarrow> nat \<Rightarrow> nat \<Rightarrow> bool" where
  "good_plan n sz cps tot \<longleftrightarrow>
     0 < n \<and> n dvd 48 \<and> n dvd cps \<and> n dvd sz \<and> 48 < cps \<and> cps \<le> 1448 \<and> cps \<le> sz \<and>
     4 \<le> tot \<and> tot \<le> 65535 \<and> (tot - 1) * cps < sz + 48 \<and> sz + 48 \<le> tot * cps"

text \<open>The rounded-up quotient the code computes as a quotient plus one for a remainder.\<close>

definition ceil_div :: "nat \<Rightarrow> nat \<Rightarrow> nat" where
  "ceil_div x c = x div c + (if x mod c \<noteq> 0 then 1 else 0)"

lemma ceil_div_bounds:
  assumes "0 < c" and "0 < x"
  shows "(ceil_div x c - 1) * c < x \<and> x \<le> ceil_div x c * c"
proof (cases "x mod c = 0")
  case True
  then obtain q where q: "x = c * q" by blast
  with assms have "ceil_div x c = q" and "0 < q" by (auto simp: ceil_div_def)
  then have "(q - 1) * c < q * c" using assms(1) by simp
  with q \<open>ceil_div x c = q\<close> show ?thesis by (simp add: mult.commute)
next
  case False
  then have t: "ceil_div x c = Suc (x div c)" by (simp add: ceil_div_def)
  have "x div c * c + x mod c = x" by simp
  moreover have "x mod c < c" using assms(1) by simp
  ultimately have "x div c * c < x \<and> x \<le> x div c * c + c" using False by linarith
  then show ?thesis by (simp add: t add.commute)
qed

lemma ceil_div_less: "0 < c \<Longrightarrow> 0 < x \<Longrightarrow> ceil_div x c \<le> k \<longleftrightarrow> x \<le> k * c"
proof
  assume c: "0 < c" and x: "0 < x" and "ceil_div x c \<le> k"
  then have "ceil_div x c * c \<le> k * c" by (intro mult_right_mono) auto
  with ceil_div_bounds [OF c x] show "x \<le> k * c" by linarith
next
  assume c: "0 < c" and x: "0 < x" and "x \<le> k * c"
  show "ceil_div x c \<le> k"
  proof (rule ccontr)
    assume "\<not> ceil_div x c \<le> k"
    then have "k * c \<le> (ceil_div x c - 1) * c" by (intro mult_right_mono) auto
    with ceil_div_bounds [OF c x] \<open>x \<le> k * c\<close> show False by linarith
  qed
qed

lemma frag_plan_eq:
  "frag_plan sz =
     (if ceil_div (sz + 48) 1448 < 4
      then ((sz + 51) div 4, (sz + 48) div ((sz + 51) div 4))
      else (1448, ceil_div (sz + 48) 1448))"
proof -
  have "0 < ceil_div (sz + 48) 1448"
    using ceil_div_less [of 1448 "sz + 48" 0] by simp
  then show ?thesis
    unfolding frag_plan_def size_consts Let_def ceil_div_def [symmetric]
    by (simp add: add.commute)
qed

lemma good_plan_large:
  assumes n: "n \<in> {1, 2, 4}" and d: "n dvd sz" and big: "3 * 1448 < sz + 48"
    and le: "sz + 48 \<le> 65535 * 1448" and plan: "frag_plan sz = (cps, tot)"
  shows "good_plan n sz cps tot"
proof -
  have "\<not> ceil_div (sz + 48) 1448 \<le> 3"
    using big ceil_div_less [of 1448 "sz + 48" 3] by simp
  then have pl: "cps = 1448" "tot = ceil_div (sz + 48) 1448" "4 \<le> tot"
    using plan by (auto simp: frag_plan_eq)
  moreover have "tot \<le> 65535"
    using le ceil_div_less [of 1448 "sz + 48" 65535] pl by simp
  moreover have "(tot - 1) * 1448 < sz + 48 \<and> sz + 48 \<le> tot * 1448"
    using ceil_div_bounds [of 1448 "sz + 48"] pl by simp
  moreover have "0 < n \<and> n dvd 48 \<and> n dvd 1448"
    using n by auto
  ultimately show ?thesis using d big by (simp add: good_plan_def)
qed

lemma good_plan_small:
  assumes n: "n \<in> {1, 2, 4}" and d: "4 * n dvd sz" and small: "sz + 48 \<le> 3 * 1448"
    and "144 < sz" and plan: "frag_plan sz = (cps, tot)"
  shows "good_plan n sz cps tot"
proof -
  from d obtain m where m: "sz = 4 * (n * m)" by (auto simp: dvd_def mult.assoc)
  have "ceil_div (sz + 48) 1448 \<le> 3"
    using small ceil_div_less [of 1448 "sz + 48" 3] by simp
  then have "cps = (sz + 51) div 4" and tot: "tot = (sz + 48) div cps"
    using plan by (auto simp: frag_plan_eq)
  then have cps: "cps = n * m + 12" by (simp add: m)
  have "sz + 48 = 4 * cps" by (simp add: m cps)
  then have "tot = 4 * cps div cps" using tot by simp
  moreover have "0 < cps" by (simp add: cps)
  ultimately have "tot = 4" by simp
  moreover have "0 < n \<and> n dvd 48 \<and> n dvd cps \<and> n dvd sz"
    using n by (auto simp: cps m)
  ultimately show ?thesis
    using small \<open>144 < sz\<close> \<open>sz + 48 = 4 * cps\<close> by (simp add: good_plan_def)
qed

lemma wf_signal_plan:
  assumes "wf_signal s" and "frag_plan (getSize s) = (cps, tot)"
  shows "good_plan (unat (sig_numCh s)) (getSize s) cps tot"
proof (cases "getSize s + 48 \<le> 3 * 1448")
  case True
  with assms show ?thesis by (intro good_plan_small) (auto simp: wf_signal_def)
next
  case False
  have "unat (sig_numCh s) dvd getSize s"
    using assms(1) by (auto simp: wf_signal_def intro: dvd_mult_right dvd_trans)
  with False assms show ?thesis by (intro good_plan_large) (auto simp: wf_signal_def)
qed

section \<open>What the loop puts on the wire\<close>

text \<open>The bytes sent before fragment \<open>i\<close>, over all channels.\<close>

definition sent_at :: "nat \<Rightarrow> nat \<Rightarrow> nat \<Rightarrow> nat" where
  "sent_at sz cps i = (if i = 0 then 0 else min sz (i * cps - 48))"

lemma sent_at_middle:
  assumes "good_plan n sz cps tot" and "0 < i" and "i < tot"
  shows "sent_at sz cps i = i * cps - 48 \<and> 48 < i * cps \<and> i * cps < sz + 48"
proof -
  have "i * cps \<le> (tot - 1) * cps" using assms(3) by (intro mult_right_mono) auto
  also have "\<dots> < sz + 48" using assms(1) by (simp add: good_plan_def)
  finally have "i * cps < sz + 48" .
  moreover have "1 * cps \<le> i * cps" using assms(2) by (intro mult_right_mono) auto
  then have "48 < i * cps" using assms(1) unfolding good_plan_def by linarith
  ultimately show ?thesis using assms(2) by (simp add: sent_at_def)
qed

lemma sent_at_last: "good_plan n sz cps tot \<Longrightarrow> sent_at sz cps tot = sz"
  by (auto simp: good_plan_def sent_at_def)

lemma sent_at_dvd: "good_plan n sz cps tot \<Longrightarrow> n dvd sent_at sz cps i"
  by (auto simp: good_plan_def sent_at_def min_def intro!: dvd_diff_nat dvd_mult)

lemma sent_at_step:
  assumes "good_plan n sz cps tot" and "i < tot"
  shows "sent_at sz cps i < sent_at sz cps (Suc i) \<and> sent_at sz cps (Suc i) \<le> sz \<and>
    sent_at sz cps (Suc i) - sent_at sz cps i =
      (if i = 0 then cps - 48 else min (sz - sent_at sz cps i) cps)"
proof (cases "i = 0")
  case True
  with assms show ?thesis by (auto simp: good_plan_def sent_at_def)
next
  case False
  with assms sent_at_middle [of n sz cps tot i] show ?thesis
    by (auto simp: sent_at_def good_plan_def min_def)
qed

definition channel_bytes :: "byte list \<Rightarrow> nat \<Rightarrow> nat \<Rightarrow> nat \<Rightarrow> nat \<Rightarrow> byte list" where
  "channel_bytes iq stride off len n =
     concat (map (\<lambda>c. take len (drop (c * stride + off) iq)) [0..<n])"

lemma gather_eq:
  assumes "sig_iq s = Some iq" and "n \<le> unat (sig_numCh s)"
    and "\<forall>c < n. c * getSizePerBuff s + off + len \<le> length iq"
  shows "gather s off len n = Some (channel_bytes iq (getSizePerBuff s) off len n)"
  using assms(2,3)
  by (induction n) (simp_all add: assms(1) channel_bytes_def getData_def buf_read_def)

definition frag_len :: "nat \<Rightarrow> nat \<Rightarrow> nat \<Rightarrow> nat \<Rightarrow> nat" where
  "frag_len n sz cps i = (sent_at sz cps (Suc i) - sent_at sz cps i) div n"

definition sent_frag :: "send_env \<Rightarrow> Signal \<Rightarrow> Header \<Rightarrow> nat \<Rightarrow> nat \<Rightarrow> nat \<Rightarrow> byte list" where
  "sent_frag env s mh cps tot i =
     (let n = unat (sig_numCh s); len = frag_len n (getSize s) cps i
      in frag_packet env mh tot i (len * n)
           (channel_bytes (the (sig_iq s)) (getSize s div n) (sent_at (getSize s) cps i div n) len n))"

lemma frag_len_props:
  assumes "good_plan n sz cps tot" and "i < tot"
  shows "0 < frag_len n sz cps i"
    and "frag_len n sz cps i * n = sent_at sz cps (Suc i) - sent_at sz cps i"
    and "sent_at sz cps i div n + frag_len n sz cps i = sent_at sz cps (Suc i) div n"
    and "sent_at sz cps (Suc i) div n \<le> sz div n"
proof -
  have n: "0 < n" using assms(1) by (simp add: good_plan_def)
  obtain a where a: "sent_at sz cps i = n * a" using sent_at_dvd [OF assms(1)] by blast
  obtain b where b: "sent_at sz cps (Suc i) = n * b" using sent_at_dvd [OF assms(1)] by blast
  have ab: "a < b" using sent_at_step [OF assms] n by (simp add: a b)
  have len: "frag_len n sz cps i = b - a"
    using n by (simp add: frag_len_def a b flip: diff_mult_distrib2)
  show "0 < frag_len n sz cps i" using ab by (simp add: len)
  show "frag_len n sz cps i * n = sent_at sz cps (Suc i) - sent_at sz cps i"
    by (simp add: len a b diff_mult_distrib2 mult.commute)
  show "sent_at sz cps i div n + frag_len n sz cps i = sent_at sz cps (Suc i) div n"
    using n ab by (simp add: len a b)
  show "sent_at sz cps (Suc i) div n \<le> sz div n"
    using sent_at_step [OF assms] by (simp add: div_le_mono)
qed

lemma wf_signal_gather:
  assumes wf: "wf_signal s" and plan: "frag_plan (getSize s) = (cps, tot)" and i: "i < tot"
    and n: "n = unat (sig_numCh s)" and sz: "sz = getSize s"
  shows "gather s (sent_at sz cps i div n) (frag_len n sz cps i) n =
    Some (channel_bytes (the (sig_iq s)) (sz div n) (sent_at sz cps i div n) (frag_len n sz cps i) n)"
proof -
  from wf obtain iq where iq: "sig_iq s = Some iq" and len: "sz \<le> length iq"
    by (auto simp: wf_signal_def sz)
  have gp: "good_plan n sz cps tot" using wf_signal_plan [OF wf plan] by (simp add: n sz)
  have sp: "getSizePerBuff s = sz div n" using gp by (auto simp: getSizePerBuff_def good_plan_def n sz)
  have "c * (sz div n) + sent_at sz cps i div n + frag_len n sz cps i \<le> length iq" if "c < n" for c
  proof -
    have "c * (sz div n) + sz div n \<le> n * (sz div n)"
      using mult_right_mono [of "Suc c" n "sz div n"] that by simp
    also have "\<dots> \<le> sz" by simp
    finally show ?thesis using frag_len_props [OF gp i] len by linarith
  qed
  then show ?thesis using gather_eq [OF iq, of n] by (simp add: iq sp n)
qed

lemma send_step_good:
  assumes wf: "wf_signal s" and plan: "frag_plan (getSize s) = (cps, tot)" and i: "i < tot"
    and st: "ss_sent st = sent_at (getSize s) cps i"
      "ss_sent_per_ch st = sent_at (getSize s) cps i div unat (sig_numCh s)"
  shows "send_step env s mh cps tot i st =
    (let batch = ss_batch st @ [sent_frag env s mh cps tot i];
         flush = (length batch = BATCH_SIZE \<or> i = tot - 1)
     in Inr \<lparr>ss_sent = sent_at (getSize s) cps (Suc i),
             ss_sent_per_ch = sent_at (getSize s) cps (Suc i) div unat (sig_numCh s),
             ss_batch = (if flush then [] else batch),
             ss_wire = (if flush then ss_wire st @ batch else ss_wire st)\<rparr>)"
proof -
  define n sz where "n = unat (sig_numCh s)" and "sz = getSize s"
  have gp: "good_plan n sz cps tot" using wf_signal_plan [OF wf plan] by (simp add: n_def sz_def)
  note fl = frag_len_props [OF gp i] and ss = sent_at_step [OF gp i]
  have szb: "sz < 2 ^ 64" using unsigned_less [of "sig_size s", where 'a = nat]
    by (simp add: sz_def getSize_def)
  have rem: "size_sub sz (sent_at sz cps i) = sz - sent_at sz cps i"
    using ss szb by (intro size_sub_no_wrap) auto
  have cps: "size_sub cps 48 = cps - 48" using gp by (intro size_sub_no_wrap) (auto simp: good_plan_def)
  have p1: "(if i = 0 \<and> 1 < tot then size_sub (min (sz - sent_at sz cps i) cps) 48
      else min (sz - sent_at sz cps i) cps) = frag_len n sz cps i * n"
    using ss fl(2) gp cps by (auto simp: good_plan_def sent_at_def)
  have nz: "min (sz - sent_at sz cps i) cps \<noteq> 0"
    using ss gp by (auto simp: good_plan_def)
  have n0: "0 < n" using gp by (simp add: good_plan_def)
  have hn: "unat (hdr_number_of_channels (sig_header s)) = n" using wf by (simp add: wf_signal_def n_def)
  have g: "gather s (sent_at sz cps i div n) (frag_len n sz cps i) n =
      Some (channel_bytes (the (sig_iq s)) (sz div n) (sent_at sz cps i div n) (frag_len n sz cps i) n)"
    by (rule wf_signal_gather [OF wf plan i n_def sz_def])
  have d: "frag_len n sz cps i * n div n = frag_len n sz cps i" using n0 by simp
  have sum: "sent_at sz cps i + frag_len n sz cps i * n = sent_at sz cps (Suc i)"
    using fl(2) ss by linarith
  show ?thesis
    unfolding send_step_def hn st n_def [symmetric] sz_def [symmetric] Let_def HEADER_SIZE_def
      rem p1 d
    using nz n0 fl(1) g sum fl(3)
    by (simp add: sent_frag_def Let_def n_def [symmetric] sz_def [symmetric])
qed

lemma send_loop_good:
  assumes wf: "wf_signal s" and plan: "frag_plan (getSize s) = (cps, tot)"
    and "k + i = tot"
    and "ss_sent st = sent_at (getSize s) cps i"
    and "ss_sent_per_ch st = sent_at (getSize s) cps i div unat (sig_numCh s)"
    and "ss_wire st @ ss_batch st = map (sent_frag env s mh cps tot) [0..<i]"
    and "i = tot \<longrightarrow> ss_batch st = []"
  shows "\<exists>st'. send_loop env s mh cps tot k i st = Some st' \<and>
    ss_wire st' = map (sent_frag env s mh cps tot) [0..<tot]"
  using assms(3-)
proof (induction k arbitrary: i st)
  case 0
  then show ?case by simp
next
  case (Suc k)
  then have i: "i < tot" by simp
  let ?batch = "ss_batch st @ [sent_frag env s mh cps tot i]"
  let ?flush = "length ?batch = BATCH_SIZE \<or> i = tot - 1"
  let ?st = "\<lparr>ss_sent = sent_at (getSize s) cps (Suc i),
     ss_sent_per_ch = sent_at (getSize s) cps (Suc i) div unat (sig_numCh s),
     ss_batch = (if ?flush then [] else ?batch),
     ss_wire = (if ?flush then ss_wire st @ ?batch else ss_wire st)\<rparr>"
  have step: "send_step env s mh cps tot i st = Inr ?st"
    using send_step_good [OF wf plan i Suc.prems(2,3)] by (simp add: Let_def)
  have w: "ss_wire st @ ss_batch st @ [sent_frag env s mh cps tot i] =
      map (sent_frag env s mh cps tot) [0..<Suc i]"
    using Suc.prems(4) by (simp flip: append_assoc)
  have "\<exists>st'. send_loop env s mh cps tot k (Suc i) ?st = Some st' \<and>
      ss_wire st' = map (sent_frag env s mh cps tot) [0..<tot]"
    by (rule Suc.IH) (use Suc.prems w in auto)
  then show ?case by (simp only: send_loop.simps step sum.case)
qed

text \<open>The wire image of a well-formed signal.\<close>

lemma Send_good:
  assumes wf: "wf_signal s" and "m_port \<noteq> 0" and "otw \<noteq> 0"
    and plan: "frag_plan (getSize s) = (cps, tot)"
  shows "Send env m_port pool (Some s) otw =
    Sent (map (sent_frag env s ((sig_header s)\<lparr>hdr_total_frags := of_nat tot\<rparr>) cps tot) [0..<tot])
      (release_buf 0 (the (sig_iq s)) pool)"
proof -
  let ?mh = "(sig_header s)\<lparr>hdr_total_frags := of_nat tot\<rparr>"
  let ?st = "\<lparr>ss_sent = 0, ss_sent_per_ch = 0, ss_batch = [], ss_wire = []\<rparr>"
  have gp: "good_plan (unat (sig_numCh s)) (getSize s) cps tot" by (rule wf_signal_plan [OF wf plan])
  have "\<exists>st'. send_loop env s ?mh cps tot tot 0 ?st = Some st' \<and>
      ss_wire st' = map (sent_frag env s ?mh cps tot) [0..<tot]"
    by (rule send_loop_good [OF wf plan]) (auto simp: sent_at_def)
  moreover have "hdr_number_of_samples (sig_header s) \<noteq> 0" "tot \<noteq> 0"
    "hdr_number_of_channels (sig_header s) \<noteq> 0"
    using wf gp by (auto simp: wf_signal_def good_plan_def)
  moreover obtain iq where "sig_iq s = Some iq" using wf by (auto simp: wf_signal_def)
  ultimately show ?thesis
    using assms(2,3) by (auto simp: Send_def plan release_release_buf Let_def)
qed

section \<open>Short bursts\<close>

lemma gather_read_past_end:
  assumes "sig_iq s = Some iq" and "length iq < len" and "0 < n"
  shows "gather s off len n = None"
  using assms(3)
proof (induction n)
  case 0
  then show ?case by simp
next
  case (Suc n)
  then show ?case
    using assms(1,2) by (cases "n = 0") (auto simp: buf_read_def split: option.splits)
qed

lemma frag_plan_short: "sz < 144 \<Longrightarrow> 4 dvd sz \<Longrightarrow> frag_plan sz = ((sz + 48) div 4, 4)"
proof -
  assume sz: "sz < 144" and "4 dvd sz"
  then obtain m where m: "sz = 4 * m" by blast
  have "ceil_div (sz + 48) 1448 \<le> 3" using sz ceil_div_less [of 1448 "sz + 48" 3] by simp
  moreover have "(4 * m + 48) div (m + 12) = 4"
    using div_mult_self1_is_m [of "m + 12" 4] by (simp add: algebra_simps)
  ultimately show ?thesis by (simp add: frag_plan_eq m)
qed

text \<open>C35. A burst of fewer than 144 data bytes (fewer than 36 samples in all) is never
  transmitted: the code forces it into four fragments of \<open>(size + 48) / 4\<close> bytes, which is
  less than the 48-byte header, and \<open>payload_size -= HEADER_SIZE\<close> wraps around, so the
  first iovec entry asks for almost \<open>2^64\<close> bytes of the IQ buffer.\<close>

theorem Send_short_burst_faults:
  assumes "sig_iq s = Some iq" and "length iq < 2 ^ 60"
    and "unat (sig_numCh s) \<in> {1, 2, 4}" and "hdr_number_of_channels (sig_header s) = sig_numCh s"
    and "hdr_number_of_samples (sig_header s) \<noteq> 0" and "m_port \<noteq> 0" and "otw \<noteq> 0"
    and "4 dvd getSize s" and "0 < getSize s" and "getSize s < 144"
  shows "Send env m_port pool (Some s) otw = Send_fault"
proof -
  define n sz cps where "n = unat (sig_numCh s)" and "sz = getSize s" and "cps = (sz + 48) div 4"
  have plan: "frag_plan sz = (cps, 4)" using frag_plan_short assms(8,10) by (simp add: sz_def cps_def)
  have sz: "0 < sz" "sz < 144" using assms(9,10) by (simp_all add: sz_def)
  then have cps: "0 < cps" "cps < 48" by (simp_all add: cps_def)
  have n: "0 < n" "n \<le> 4" using assms(3) by (auto simp: n_def)
  let ?p0 = "min sz cps"
  have "size_sub ?p0 48 = 2 ^ 64 - (48 - ?p0)" using cps by (intro size_sub_wraps) auto
  then have big: "2 ^ 63 \<le> size_sub ?p0 48" by simp
  have "(2 ^ 63 :: nat) div 4 \<le> 2 ^ 63 div n" using n by (intro div_le_mono2) auto
  then have "2 ^ 61 \<le> size_sub ?p0 48 div n"
    using div_le_mono [OF big, of n] by simp
  then have len: "length iq < size_sub ?p0 48 div n" using assms(2) by simp
  have rem: "size_sub sz 0 = sz" using sz by (intro size_sub_no_wrap [of 0, simplified]) auto
  have "gather s 0 (size_sub ?p0 48 div n) n = None"
    by (rule gather_read_past_end [OF assms(1) len n(1)])
  then have step: "send_step env s mh cps 4 0
      \<lparr>ss_sent = 0, ss_sent_per_ch = 0, ss_batch = [], ss_wire = []\<rparr> = Inl None" for mh
    using sz cps n len rem assms(4)
    by (simp add: send_step_def Let_def sz_def [symmetric] n_def [symmetric] HEADER_SIZE_def)
  have "send_loop env s mh cps 4 4 0
      \<lparr>ss_sent = 0, ss_sent_per_ch = 0, ss_batch = [], ss_wire = []\<rparr> = None" for mh
    unfolding numeral_eq_Suc send_loop.simps by (simp add: step [unfolded numeral_eq_Suc, simplified])
  moreover have "hdr_number_of_channels (sig_header s) \<noteq> 0"
    using assms(4) n by (auto simp: n_def)
  ultimately show ?thesis
    using assms(5-7) plan by (simp add: Send_def Let_def sz_def)
qed

text \<open>A small signal: \<open>n\<close> one-channel samples, all zero.\<close>

definition zero_signal :: "nat \<Rightarrow> Signal" where
  "zero_signal n =
     Signal_new (0, 0, 0) (Some (replicate (4 * n) 0))
       (zero_Header\<lparr>hdr_size := of_nat (4 * n), hdr_number_of_samples := of_nat n,
          hdr_number_of_channels := 1\<rparr>) 0 ''tx''"

definition example_env :: send_env where
  "example_env = \<lparr>env_now = (\<lambda>i. of_nat (1000 + i)), env_frag_pad = replicate 5 0,
     env_hdr_pad = [0]\<rparr>"

definition empty_pool :: "nat \<Rightarrow> byte DataArrayPool" where
  "empty_pool n = \<lparr>dp_poolSize = n, dp_itemSize = IQ_SIZE, dp_zeroOnRelease = False,
     dp_pool = [], dp_id = ''IQ''\<rparr>"

theorem Send_short_burst_faults_witness:
  "Send example_env 10001 (empty_pool 1) (Some (zero_signal 10)) 4 = Send_fault \<and> getSize (zero_signal 10) < 144"
proof -
  have "getSize (zero_signal 10) = 40"
    by (simp add: zero_signal_def Signal_new_def getSize_def zero_Header_def)
  moreover have "Send example_env 10001 (empty_pool 1) (Some (zero_signal 10)) 4 = Send_fault"
    by (rule Send_short_burst_faults [where iq = "replicate 40 0"])
      (simp_all add: zero_signal_def Signal_new_def getSize_def zero_Header_def)
  ultimately show ?thesis by simp
qed

end
