(* ===== verification/Udp_Server.thy ===== *)
theory Udp_Server
  imports Udp_Client
begin

text \<open>
  The reassembling receiver \<open>UDPServer::Recv\<close> of \<open>src/chem/net/udp_server.cpp\<close>: the
  per-packet state machine over raw datagrams, the loop over the outcomes of
  \<open>recvmmsg\<close>, and the two buffer pools it draws from. A \<open>memcpy\<close> past the end of the
  reassembly buffer is the outcome \<open>Rx_fault\<close>. The properties are that what the sender of
  \<open>Udp_Client\<close> puts on the wire is reassembled exactly, when the buffer is safe, and what
  happens to the packet buffers on every way out.
\<close>

section \<open>State\<close>

record rx_state =
  rx_assembling :: bool
  rx_last_seq_no :: nat
  rx_fragments_received :: nat
  rx_bytes_written_per_ch :: nat
  rx_per_channel_stride :: nat
  rx_active_num_channels :: nat
  rx_final_hdr :: Header
  rx_buffer :: "byte list"
  rx_batch_size :: nat

definition rx_init :: "byte list \<Rightarrow> rx_state" where
  "rx_init buf = \<lparr>rx_assembling = False, rx_last_seq_no = 0, rx_fragments_received = 0,
     rx_bytes_written_per_ch = 0, rx_per_channel_stride = 0, rx_active_num_channels = 0,
     rx_final_hdr = zero_Header, rx_buffer = buf, rx_batch_size = BATCH_SIZE\<rparr>"

definition reset_assembly :: "rx_state \<Rightarrow> rx_state" where
  "reset_assembly st = st\<lparr>rx_assembling := False, rx_last_seq_no := 0,
     rx_fragments_received := 0, rx_bytes_written_per_ch := 0, rx_per_channel_stride := 0,
     rx_active_num_channels := 0, rx_final_hdr := zero_Header, rx_batch_size := BATCH_SIZE\<rparr>"

datatype rx_step = Rx_more rx_state | Rx_done Header "byte list" | Rx_fault

section \<open>One packet\<close>

definition start_flag :: "UDPHeader \<Rightarrow> bool" where
  "start_flag u = bit (udp_flag u) 0"

definition end_flag :: "UDPHeader \<Rightarrow> bool" where
  "end_flag u = bit (udp_flag u) 2"

text \<open>The first half of the loop body: admit the packet into the current burst, start a new
  burst, or drop it (\<open>Inl\<close> is the state after the \<open>continue\<close>).\<close>

definition recv_admit :: "rx_state \<Rightarrow> byte list \<Rightarrow> rx_state + rx_state" where
  "recv_admit st packet =
     (let u = UDPHeader_of_bytes packet; seq = unat (udp_seq_number u)
      in if \<not> rx_assembling st then
           if \<not> start_flag u then Inl st
           else if length packet < UDP_HEADER_SIZE + HEADER_SIZE then Inl st
           else
             let h = Header_of_bytes (drop UDP_HEADER_SIZE packet);
                 n = unat (hdr_number_of_channels h);
                 stride = (if n = 0 then 0 else unat (hdr_size h) div n);
                 st1 = st\<lparr>rx_final_hdr := h, rx_active_num_channels := n,
                          rx_per_channel_stride := stride, rx_bytes_written_per_ch := 0,
                          rx_fragments_received := 0, rx_last_seq_no := seq\<rparr>
             in if n = 0 \<or> stride = 0 \<or> unat (hdr_size h) mod n \<noteq> 0
                then Inl (reset_assembly st1)
                else Inr (st1\<lparr>rx_assembling := True\<rparr>)
         else if seq \<noteq> rx_last_seq_no st + 1 then Inl (reset_assembly st)
         else Inr (st\<lparr>rx_last_seq_no := seq\<rparr>))"

text \<open>The interleaving copy: channel \<open>c\<close> of the payload goes to its place in the region of
  channel \<open>c\<close>.\<close>

primrec copy_channels ::
  "nat \<Rightarrow> nat \<Rightarrow> nat \<Rightarrow> nat \<Rightarrow> byte list \<Rightarrow> byte list \<Rightarrow> byte list option" where
  "copy_channels 0 stride written chunk payload buf = Some buf"
| "copy_channels (Suc c) stride written chunk payload buf =
     (case copy_channels c stride written chunk payload buf of
        None \<Rightarrow> None
      | Some b \<Rightarrow> buf_write b (c * stride + written) (take chunk (drop (c * chunk) payload)))"

definition recv_payload :: "rx_state \<Rightarrow> byte list \<Rightarrow> rx_step" where
  "recv_payload st packet =
     (let u = UDPHeader_of_bytes packet;
          body = drop UDP_HEADER_SIZE packet
      in if start_flag u \<and> length body < HEADER_SIZE then Rx_more (reset_assembly st)
         else
           let payload = (if start_flag u then drop HEADER_SIZE body else body);
               len = length payload;
               n = rx_active_num_channels st
           in if len \<noteq> unat (udp_size u) then Rx_more (reset_assembly st)
              else if n = 0 \<or> len mod n \<noteq> 0 then Rx_more (reset_assembly st)
              else
                let chunk = len div n
                in if chunk = 0 \<or>
                      rx_bytes_written_per_ch st + chunk > rx_per_channel_stride st
                   then Rx_more (reset_assembly st)
                   else
                     case copy_channels n (rx_per_channel_stride st) (rx_bytes_written_per_ch st)
                            chunk payload (rx_buffer st) of
                       None \<Rightarrow> Rx_fault
                     | Some buf \<Rightarrow>
                         let st' = st\<lparr>rx_buffer := buf,
                               rx_bytes_written_per_ch := rx_bytes_written_per_ch st + chunk,
                               rx_fragments_received := rx_fragments_received st + 1\<rparr>
                         in if end_flag u then
                              if rx_bytes_written_per_ch st' \<noteq> rx_per_channel_stride st'
                              then Rx_more (reset_assembly st')
                              else Rx_done (rx_final_hdr st') buf
                            else Rx_more st')"

definition recv_packet :: "rx_state \<Rightarrow> byte list \<Rightarrow> rx_step" where
  "recv_packet st packet =
     (if length packet < UDP_HEADER_SIZE then Rx_more st
      else case recv_admit st packet of
             Inl st' \<Rightarrow> Rx_more st'
           | Inr st' \<Rightarrow> recv_payload st' packet)"

text \<open>The packets of one \<open>recvmmsg\<close> call. A completed burst returns at once: the packets
  behind it in the same batch are gone.\<close>

fun recv_batch :: "rx_state \<Rightarrow> byte list list \<Rightarrow> rx_step" where
  "recv_batch st [] = Rx_more st"
| "recv_batch st (p # ps) =
     (case recv_packet st p of Rx_more st' \<Rightarrow> recv_batch st' ps | r \<Rightarrow> r)"

definition adjust_batch_size :: "rx_state \<Rightarrow> rx_state" where
  "adjust_batch_size st =
     (if rx_assembling st \<and> 0 < unat (hdr_total_frags (rx_final_hdr st)) then
        let remaining = int (unat (hdr_total_frags (rx_final_hdr st))) - int (rx_fragments_received st)
        in st\<lparr>rx_batch_size :=
             (if 0 < remaining \<and> remaining < int BATCH_SIZE then max 1 (nat remaining) else BATCH_SIZE)\<rparr>
      else st)"

section \<open>The receive call\<close>

text \<open>What a pass of the loop can see: the socket was closed, \<open>recvmmsg\<close> timed out or
  failed, or it delivered at least one datagram.\<close>

datatype rx_event = Ev_closed | Ev_timeout | Ev_error | Ev_packets "byte list" "byte list list"

record UDPServer =
  sv_udpPool :: "byte DataArrayPool"
  sv_pool :: "byte DataArrayPool"

datatype recv_result =
    Recv_signal Header "byte list"
  | Recv_null
  | Recv_throw cpp_exn
  | Recv_blocked rx_state
  | Recv_fault

definition release_packets :: "byte list list \<Rightarrow> UDPServer \<Rightarrow> UDPServer" where
  "release_packets bufs sv = sv\<lparr>sv_udpPool := fold (release_buf 0) bufs (sv_udpPool sv)\<rparr>"

definition release_final :: "byte list \<Rightarrow> UDPServer \<Rightarrow> UDPServer" where
  "release_final buf sv = sv\<lparr>sv_pool := release_buf 0 buf (sv_pool sv)\<rparr>"

fun recv_loop ::
  "byte list list \<Rightarrow> rx_state \<Rightarrow> rx_event list \<Rightarrow> UDPServer \<Rightarrow> recv_result \<times> UDPServer" where
  "recv_loop bufs st [] sv = (Recv_blocked st, sv)"
| "recv_loop bufs st (Ev_closed # evs) sv =
     (Recv_null, release_final (rx_buffer st) (release_packets bufs sv))"
| "recv_loop bufs st (Ev_timeout # evs) sv =
     (if rx_assembling st then (Recv_null, release_final (rx_buffer st) sv)
      else recv_loop bufs st evs sv)"
| "recv_loop bufs st (Ev_error # evs) sv =
     (Recv_null, release_final (rx_buffer st) (release_packets bufs sv))"
| "recv_loop bufs st (Ev_packets p ps # evs) sv =
     (case recv_batch st (p # ps) of
        Rx_more st' \<Rightarrow> recv_loop bufs (adjust_batch_size st') evs sv
      | Rx_done h buf \<Rightarrow> (Recv_signal h buf, release_packets bufs sv)
      | Rx_fault \<Rightarrow> (Recv_fault, sv))"

text \<open>Taking the \<open>k\<close> packet buffers one at a time: an exception destroys the ones already
  taken, they do not go back to the pool.\<close>

fun acquire_each ::
  "nat \<Rightarrow> byte DataArrayPool \<Rightarrow> (cpp_exn + byte list list) \<times> byte DataArrayPool" where
  "acquire_each 0 p = (Inr [], p)"
| "acquire_each (Suc k) p =
     (case acquire p of
        Inl e \<Rightarrow> (Inl e, p)
      | Inr (b, p') \<Rightarrow>
          (case acquire_each k p' of
             (Inl e, p'') \<Rightarrow> (Inl e, p'')
           | (Inr bs, p'') \<Rightarrow> (Inr (b # bs), p'')))"

definition Recv :: "rx_event list \<Rightarrow> UDPServer \<Rightarrow> recv_result \<times> UDPServer" where
  "Recv evs sv =
     (case acquire_each BATCH_SIZE (sv_udpPool sv) of
        (Inl e, up) \<Rightarrow> (Recv_throw e, sv\<lparr>sv_udpPool := up\<rparr>)
      | (Inr bufs, up) \<Rightarrow>
          (case acquire (sv_pool sv) of
             Inl e \<Rightarrow> (Recv_throw e, sv\<lparr>sv_udpPool := up\<rparr>)
           | Inr (final_buf, ip) \<Rightarrow>
               recv_loop bufs (rx_init final_buf) evs (sv\<lparr>sv_udpPool := up, sv_pool := ip\<rparr>)))"

section \<open>The copy\<close>

lemma channel_window_bound:
  fixes c n stride written chunk j :: nat
  assumes "c < n" and "written + chunk \<le> stride" and "j < chunk"
  shows "c * stride + written + j < n * stride"
proof -
  have "c * stride + written + j < Suc c * stride" using assms(2,3) by simp
  also have "\<dots> \<le> n * stride" using assms(1) by (intro mult_right_mono) auto
  finally show ?thesis .
qed

lemma copy_channels_spec:
  assumes "written + chunk \<le> stride" and "n * stride \<le> length buf" and "n * chunk \<le> length payload"
  shows "\<exists>buf'. copy_channels n stride written chunk payload buf = Some buf' \<and>
    length buf' = length buf \<and>
    (\<forall>c < n. \<forall>j < chunk. buf' ! (c * stride + written + j) = payload ! (c * chunk + j)) \<and>
    (\<forall>p < length buf. (\<forall>c < n. p < c * stride + written \<or> c * stride + written + chunk \<le> p) \<longrightarrow>
       buf' ! p = buf ! p)"
  using assms(2,3)
proof (induction n)
  case 0
  then show ?case by simp
next
  case (Suc n)
  then obtain b where b: "copy_channels n stride written chunk payload buf = Some b"
    and lb: "length b = length buf"
    and copied: "\<forall>c < n. \<forall>j < chunk. b ! (c * stride + written + j) = payload ! (c * chunk + j)"
    and frame: "\<forall>p < length buf. (\<forall>c < n. p < c * stride + written \<or> c * stride + written + chunk \<le> p) \<longrightarrow>
       b ! p = buf ! p" by auto
  let ?src = "take chunk (drop (n * chunk) payload)"
  have ls: "length ?src = chunk" using Suc.prems(2) by simp
  have fits: "n * stride + written + chunk \<le> length b"
    using Suc.prems(1) assms(1) lb by simp
  then obtain b' where b': "buf_write b (n * stride + written) ?src = Some b'"
    using buf_write_defined [of "n * stride + written" ?src b] ls by auto
  have lb': "length b' = length buf" using buf_write_length [OF b'] lb by simp
  have nth: "b' ! p = (if n * stride + written \<le> p \<and> p < n * stride + written + chunk
      then ?src ! (p - (n * stride + written)) else b ! p)" if "p < length buf" for p
    using buf_write_nth [OF b', of p] that lb ls by simp
  have "b' ! (c * stride + written + j) = payload ! (c * chunk + j)" if "c < Suc n" "j < chunk" for c j
  proof (cases "c = n")
    case True
    with that fits lb Suc.prems(2) show ?thesis by (subst nth) auto
  next
    case False
    with that have "c < n" by simp
    then have "c * stride + written + j < n * stride"
      using channel_window_bound assms(1) that(2) by blast
    moreover have "c * stride + written + j < length buf"
      using calculation Suc.prems(1) by simp
    ultimately show ?thesis using copied \<open>c < n\<close> that(2) by (subst nth) auto
  qed
  moreover have "b' ! p = buf ! p"
    if "p < length buf" "\<forall>c < Suc n. p < c * stride + written \<or> c * stride + written + chunk \<le> p" for p
    using that frame by (subst nth) auto
  ultimately show ?case using b b' lb' by auto
qed

lemma copy_channels_overrun:
  assumes "c < n" and "length buf < c * stride + written + chunk" and "(c + 1) * chunk \<le> length payload"
  shows "copy_channels n stride written chunk payload buf = None"
  using assms(1)
proof (induction n)
  case 0
  then show ?case by simp
next
  case (Suc n)
  show ?case
  proof (cases "copy_channels n stride written chunk payload buf")
    case None
    then show ?thesis by simp
  next
    case (Some b)
    with Suc have "c = n" by force
    moreover have "length b = length buf" if "copy_channels m stride written chunk payload buf = Some b" for m b
      using that by (induction m arbitrary: b) (auto dest: buf_write_length split: option.splits)
    ultimately show ?thesis using Some assms by (auto simp: buf_write_def)
  qed
qed

section \<open>Reassembly of what the sender sends\<close>

lemma flag_bits:
  "bit (1 :: byte) 0" "\<not> bit (1 :: byte) 2" "\<not> bit (2 :: byte) 0" "\<not> bit (2 :: byte) 2"
  "\<not> bit (4 :: byte) 0" "bit (4 :: byte) 2"
  by code_simp+

lemma frag_flag_bits:
  assumes "4 \<le> tot" and "i < tot"
  shows "bit (frag_flag tot i) 0 = (i = 0)" and "bit (frag_flag tot i) 2 = (i = tot - 1)"
  using assms by (auto simp: frag_flag_def flag_bits)

text \<open>The fields of a sent fragment as the receiver reads them.\<close>

lemma sent_frag_parse:
  fixes env :: send_env and mh :: Header and psz :: nat and bs :: "byte list"
  assumes pads: "length (env_frag_pad env) = 5" "length (env_hdr_pad env) = 1"
    and i: "i < tot" and tot: "4 \<le> tot" "tot \<le> 65535"
  defines "pk \<equiv> frag_packet env mh tot i psz bs"
  shows "length pk = 24 + (if i = 0 then 48 else 0) + length bs"
    and "udp_seq_number (UDPHeader_of_bytes pk) = of_nat i"
    and "udp_size (UDPHeader_of_bytes pk) = of_nat psz"
    and "start_flag (UDPHeader_of_bytes pk) = (i = 0)"
    and "end_flag (UDPHeader_of_bytes pk) = (i = tot - 1)"
    and "drop 24 pk = (if i = 0 then Header_bytes (env_hdr_pad env) mh @ bs else bs)"
    and "i = 0 \<Longrightarrow> Header_of_bytes (drop 24 pk) = mh"
proof -
  let ?u = "\<lparr>udp_timestamp = env_now env i, udp_size = of_nat psz,
    udp_seq_number = of_nat i, udp_flag = frag_flag tot i\<rparr> :: UDPHeader"
  have u: "UDPHeader_of_bytes pk = ?u" by (simp add: pk_def frag_packet_def UDPHeader_roundtrip)
  show "length pk = 24 + (if i = 0 then 48 else 0) + length bs"
    by (simp add: pk_def frag_packet_def pads)
  show "udp_seq_number (UDPHeader_of_bytes pk) = of_nat i" "udp_size (UDPHeader_of_bytes pk) = of_nat psz"
    by (simp_all add: u)
  show "start_flag (UDPHeader_of_bytes pk) = (i = 0)" "end_flag (UDPHeader_of_bytes pk) = (i = tot - 1)"
    using frag_flag_bits [OF tot(1) i] by (simp_all add: u start_flag_def end_flag_def)
  show d: "drop 24 pk = (if i = 0 then Header_bytes (env_hdr_pad env) mh @ bs else bs)"
    by (simp add: pk_def frag_packet_def pads)
  show "Header_of_bytes (drop 24 pk) = mh" if "i = 0" by (simp add: d that Header_roundtrip)
qed

lemma channel_bytes_length:
  assumes "\<forall>c < n. c * stride + off + len \<le> length iq"
  shows "length (channel_bytes iq stride off len n) = n * len"
  using assms
proof (induction n)
  case 0
  then show ?case by (simp add: channel_bytes_def)
next
  case (Suc n)
  then have "n * stride + off + len \<le> length iq" by simp
  then have "min (length iq - (n * stride + off)) len = len" by simp
  with Suc show ?case by (simp add: channel_bytes_def)
qed

lemma channel_bytes_nth:
  assumes "\<forall>c < n. c * stride + off + len \<le> length iq" and "c < n" and "j < len"
  shows "channel_bytes iq stride off len n ! (c * len + j) = iq ! (c * stride + off + j)"
  using assms(1,2)
proof (induction n)
  case 0
  then show ?case by simp
next
  case (Suc n)
  have snoc: "channel_bytes iq stride off len (Suc n) =
      channel_bytes iq stride off len n @ take len (drop (n * stride + off) iq)"
    by (simp add: channel_bytes_def)
  have l: "length (channel_bytes iq stride off len n) = n * len"
    using Suc.prems by (intro channel_bytes_length) auto
  show ?case
  proof (cases "c = n")
    case True
    have "n * stride + off + len \<le> length iq" using Suc.prems(1) by simp
    then show ?thesis using True assms(3) by (simp add: snoc nth_append l add.assoc)
  next
    case False
    then have cn: "c < n" using Suc.prems(2) by simp
    have "c * len + j < n * len"
      using channel_window_bound [of c n 0 len len j] cn assms(3) by simp
    then show ?thesis using Suc.IH Suc.prems(1) cn by (simp add: snoc nth_append l)
  qed
qed

text \<open>The receiver in front of fragment \<open>i\<close> of a burst.\<close>

definition rx_at :: "Signal \<Rightarrow> Header \<Rightarrow> nat \<Rightarrow> nat \<Rightarrow> rx_state \<Rightarrow> bool" where
  "rx_at s mh cps i st \<longleftrightarrow>
     (let n = unat (sig_numCh s); sz = getSize s; w = sent_at sz cps i div n
      in sz \<le> length (rx_buffer st) \<and> rx_assembling st = (0 < i) \<and>
         (0 < i \<longrightarrow> rx_last_seq_no st = i - 1 \<and> rx_bytes_written_per_ch st = w \<and>
            rx_per_channel_stride st = sz div n \<and> rx_active_num_channels st = n \<and>
            rx_final_hdr st = mh) \<and>
         (\<forall>c < n. \<forall>j < w. rx_buffer st ! (c * (sz div n) + j) = the (sig_iq s) ! (c * (sz div n) + j)))"

lemma rx_admit_frag:
  assumes wf: "wf_signal s" and gp: "good_plan (unat (sig_numCh s)) (getSize s) cps tot" and i: "i < tot"
    and pads: "length (env_frag_pad env) = 5" "length (env_hdr_pad env) = 1"
    and mh: "mh = (sig_header s)\<lparr>hdr_total_frags := of_nat tot\<rparr>"
    and at: "rx_at s mh cps i st"
  shows "\<exists>st'. recv_admit st (sent_frag env s mh cps tot i) = Inr st' \<and>
    rx_assembling st' \<and> rx_last_seq_no st' = i \<and> rx_buffer st' = rx_buffer st \<and>
    rx_bytes_written_per_ch st' = sent_at (getSize s) cps i div unat (sig_numCh s) \<and>
    rx_per_channel_stride st' = getSize s div unat (sig_numCh s) \<and>
    rx_active_num_channels st' = unat (sig_numCh s) \<and> rx_final_hdr st' = mh"
proof -
  define n sz where "n = unat (sig_numCh s)" and "sz = getSize s"
  have tot: "4 \<le> tot" "tot \<le> 65535" and n0: "0 < n" and dv: "n dvd sz" and big: "48 < sz"
    using gp by (auto simp: good_plan_def n_def sz_def)
  note ps = sent_frag_parse [OF pads i tot]
  have seq: "unat (of_nat i :: u16) = i" using i tot by (simp add: unat_of_nat take_bit_nat_eq_self)
  have sz32: "sz < 2 ^ 32" using unsigned_less [of "sig_size s", where 'a = nat]
    by (simp add: sz_def getSize_def)
  have hsz: "unat (hdr_size mh) = sz"
    using wf sz32 by (simp add: mh wf_signal_def sz_def [symmetric] unat_of_nat take_bit_nat_eq_self)
  have hn: "unat (hdr_number_of_channels mh) = n" using wf by (simp add: mh wf_signal_def n_def)
  have st0: "sz div n \<noteq> 0"
    using dv big n0 by (auto simp: div_eq_0_iff dest: dvd_imp_le)
  show ?thesis
  proof (cases "i = 0")
    case True
    with at have "\<not> rx_assembling st" by (simp add: rx_at_def Let_def)
    with True ps seq st0 dv n0 hsz hn show ?thesis
      by (simp add: recv_admit_def sent_frag_def Let_def size_consts sent_at_def flip: n_def sz_def)
  next
    case False
    with at have "rx_assembling st" by (simp add: rx_at_def Let_def)
    with False at ps seq show ?thesis
      by (simp add: recv_admit_def sent_frag_def Let_def rx_at_def)
  qed
qed

text \<open>Every byte index below \<open>n * stride\<close> lies in the window of one channel.\<close>

lemma channel_index:
  fixes p n stride :: nat
  assumes "p < n * stride"
  shows "p div stride < n \<and> p mod stride < stride \<and> p = p div stride * stride + p mod stride"
  using assms by (cases "stride = 0") (auto simp: less_mult_imp_div_less)

lemma take_eq_channels:
  fixes xs ys :: "'a list"
  assumes "n * stride \<le> length xs" and "n * stride \<le> length ys"
    and "\<forall>c < n. \<forall>j < stride. xs ! (c * stride + j) = ys ! (c * stride + j)"
  shows "take (n * stride) xs = take (n * stride) ys"
proof (rule nth_equalityI)
  show "length (take (n * stride) xs) = length (take (n * stride) ys)" using assms by simp
  fix p assume "p < length (take (n * stride) xs)"
  then have p: "p < n * stride" using assms(1) by simp
  note ci = channel_index [OF p]
  have "xs ! (p div stride * stride + p mod stride) = ys ! (p div stride * stride + p mod stride)"
    using assms(3) ci by blast
  then have "xs ! p = ys ! p" using ci by simp
  with p show "take (n * stride) xs ! p = take (n * stride) ys ! p" by simp
qed

text \<open>Writing the window \<open>[w, w + len)\<close> of every channel extends what is already in place.\<close>

lemma copy_extends:
  assumes le: "w + len \<le> stride" and lb: "n * stride \<le> length buf" and liq: "n * stride \<le> length iq"
    and old: "\<forall>c < n. \<forall>j < w. buf ! (c * stride + j) = iq ! (c * stride + j)"
  shows "\<exists>buf'. copy_channels n stride w len (channel_bytes iq stride w len n) buf = Some buf' \<and>
    length buf' = length buf \<and>
    (\<forall>c < n. \<forall>j < w + len. buf' ! (c * stride + j) = iq ! (c * stride + j))"
proof -
  let ?pl = "channel_bytes iq stride w len n"
  have room: "\<forall>c < n. c * stride + w + len \<le> length iq"
  proof (intro allI impI)
    fix c assume "c < n"
    then have "Suc c * stride \<le> n * stride" by (intro mult_right_mono) auto
    with le liq show "c * stride + w + len \<le> length iq" by simp
  qed
  have "n * len \<le> length ?pl" using channel_bytes_length [OF room] by simp
  from copy_channels_spec [OF le lb this] obtain buf' where
    b: "copy_channels n stride w len ?pl buf = Some buf'" and l: "length buf' = length buf"
    and new: "\<forall>c < n. \<forall>j < len. buf' ! (c * stride + w + j) = ?pl ! (c * len + j)"
    and frame: "\<forall>p < length buf. (\<forall>c < n. p < c * stride + w \<or> c * stride + w + len \<le> p) \<longrightarrow>
       buf' ! p = buf ! p" by blast
  have "buf' ! (c * stride + j) = iq ! (c * stride + j)" if c: "c < n" and j: "j < w + len" for c j
  proof (cases "j < w")
    case True
    have "c * stride + j < c' * stride + w \<or> c' * stride + w + len \<le> c * stride + j" if "c' < n" for c'
    proof (cases "c' < c")
      case True
      then have "Suc c' * stride \<le> c * stride" by (intro mult_right_mono) auto
      with le show ?thesis by simp
    next
      case False
      then have "c * stride \<le> c' * stride" by (intro mult_right_mono) auto
      with \<open>j < w\<close> show ?thesis by linarith
    qed
    moreover have "c * stride + 0 + j < n * stride"
      using channel_window_bound [of c n 0 w stride j] c True le by simp
    ultimately show ?thesis using frame old c True lb by auto
  next
    case False
    then obtain k where k: "j = w + k" "k < len" using j by (metis add_less_cancel_left le_Suc_ex not_less)
    with new c channel_bytes_nth [OF room c, of k] show ?thesis by (simp add: add.assoc)
  qed
  with b l show ?thesis by blast
qed

lemma rx_payload_frag:
  assumes wf: "wf_signal s" and plan: "frag_plan (getSize s) = (cps, tot)" and i: "i < tot"
    and pads: "length (env_frag_pad env) = 5" "length (env_hdr_pad env) = 1"
    and mh: "mh = (sig_header s)\<lparr>hdr_total_frags := of_nat tot\<rparr>"
    and at: "rx_at s mh cps i st"
  shows "(i < tot - 1 \<longrightarrow> (\<exists>st'. recv_packet st (sent_frag env s mh cps tot i) = Rx_more st' \<and>
            rx_at s mh cps (Suc i) st' \<and> length (rx_buffer st') = length (rx_buffer st))) \<and>
         (i = tot - 1 \<longrightarrow> (\<exists>buf. recv_packet st (sent_frag env s mh cps tot i) = Rx_done mh buf \<and>
            take (getSize s) buf = take (getSize s) (the (sig_iq s)) \<and> length buf = length (rx_buffer st)))"
proof -
  define n sz where "n = unat (sig_numCh s)" and "sz = getSize s"
  define w len where "w = sent_at sz cps i div n" and "len = frag_len n sz cps i"
  define pk where "pk = sent_frag env s mh cps tot i"
  let ?iq = "the (sig_iq s)" and ?pl = "channel_bytes (the (sig_iq s)) (sz div n) w len n"
  have gp: "good_plan n sz cps tot" using wf_signal_plan [OF wf plan] by (simp add: n_def sz_def)
  then have tot: "4 \<le> tot" "tot \<le> 65535" and n0: "0 < n" and dv: "n * (sz div n) = sz"
    by (auto simp: good_plan_def)
  have szl: "sz \<le> length ?iq" using wf by (auto simp: wf_signal_def sz_def)
  note fl = frag_len_props [OF gp i, folded len_def w_def]
  have small: "len * n < 2 ^ 16"
  proof -
    have "len * n \<le> cps" using sent_at_step [OF gp i] fl(2) by (auto split: if_splits)
    then show ?thesis using gp by (simp add: good_plan_def)
  qed
  obtain st1 where st1: "recv_admit st pk = Inr st1" "rx_assembling st1" "rx_last_seq_no st1 = i"
    "rx_buffer st1 = rx_buffer st" "rx_bytes_written_per_ch st1 = w" "rx_per_channel_stride st1 = sz div n"
    "rx_active_num_channels st1 = n" "rx_final_hdr st1 = mh"
    using rx_admit_frag [OF wf gp [unfolded n_def sz_def] i pads mh at]
    by (auto simp: n_def sz_def w_def pk_def)
  have old: "\<forall>c < n. \<forall>j < w. rx_buffer st ! (c * (sz div n) + j) = ?iq ! (c * (sz div n) + j)"
    and lb: "sz \<le> length (rx_buffer st)"
    using at by (auto simp: rx_at_def Let_def n_def sz_def w_def)
  have le: "w + len \<le> sz div n" using fl(3,4) by simp
  obtain buf where copy: "copy_channels n (sz div n) w len ?pl (rx_buffer st) = Some buf"
    and lbuf: "length buf = length (rx_buffer st)"
    and new: "\<forall>c < n. \<forall>j < w + len. buf ! (c * (sz div n) + j) = ?iq ! (c * (sz div n) + j)"
    using copy_extends [OF le, of n "rx_buffer st" ?iq] old lb szl dv by auto
  have lpl: "length ?pl = n * len"
  proof (rule channel_bytes_length, intro allI impI)
    fix c assume "c < n"
    then have "Suc c * (sz div n) \<le> n * (sz div n)" by (intro mult_right_mono) auto
    with le dv szl show "c * (sz div n) + w + len \<le> length ?iq" by simp
  qed
  have pk: "pk = frag_packet env mh tot i (len * n) ?pl"
    by (simp add: pk_def sent_frag_def Let_def n_def sz_def w_def len_def)
  note ps = sent_frag_parse [OF pads i tot, of mh "len * n" ?pl, folded pk]
  have usz: "unat (udp_size (UDPHeader_of_bytes pk)) = n * len"
    unfolding ps(3) unat_of_nat using small by (simp add: take_bit_nat_eq_self mult.commute)
  have pay: "recv_payload st1 pk =
     (let st' = st1\<lparr>rx_buffer := buf, rx_bytes_written_per_ch := w + len,
                    rx_fragments_received := rx_fragments_received st1 + 1\<rparr>
      in if i = tot - 1 then if w + len \<noteq> sz div n then Rx_more (reset_assembly st') else Rx_done mh buf
         else Rx_more st')"
    using n0 fl(1) le lpl usz copy st1
    by (simp add: recv_payload_def size_consts ps Let_def pads)
  have rp: "recv_packet st pk = recv_payload st1 pk"
    using st1(1) ps(1) by (simp add: recv_packet_def size_consts)
  have "w + len = sz div n" if "i = tot - 1"
    using fl(3) sent_at_last [OF gp] that i by simp
  moreover have "take sz buf = take sz ?iq" if "w + len = sz div n"
    using take_eq_channels [of n "sz div n" buf ?iq] new that dv lb lbuf szl by simp
  moreover have "rx_at s mh cps (Suc i) (st1\<lparr>rx_buffer := buf, rx_bytes_written_per_ch := w + len,
                    rx_fragments_received := rx_fragments_received st1 + 1\<rparr>)"
    using st1 new lb lbuf fl(3) by (simp add: rx_at_def Let_def flip: n_def sz_def)
  ultimately show ?thesis
    using lbuf unfolding pk_def [symmetric] sz_def [symmetric] rp pay Let_def by simp
qed

lemma recv_batch_frags:
  assumes wf: "wf_signal s" and plan: "frag_plan (getSize s) = (cps, tot)"
    and pads: "length (env_frag_pad env) = 5" "length (env_hdr_pad env) = 1"
    and mh: "mh = (sig_header s)\<lparr>hdr_total_frags := of_nat tot\<rparr>"
    and "rx_at s mh cps i st" and "i + m \<le> tot"
  shows "(i + m < tot \<longrightarrow> (\<exists>st'. recv_batch st (map (sent_frag env s mh cps tot) [i..<i + m]) = Rx_more st' \<and>
            rx_at s mh cps (i + m) st' \<and> length (rx_buffer st') = length (rx_buffer st))) \<and>
         (i + m = tot \<and> 0 < m \<longrightarrow>
            (\<exists>buf. recv_batch st (map (sent_frag env s mh cps tot) [i..<i + m]) = Rx_done mh buf \<and>
               take (getSize s) buf = take (getSize s) (the (sig_iq s)) \<and> length buf = length (rx_buffer st)))"
  using assms(6,7)
proof (induction m arbitrary: i st)
  case 0
  then show ?case by simp
next
  case (Suc m)
  then have i: "i < tot" by simp
  have up: "[i..<i + Suc m] = i # [Suc i..<Suc i + m]" by (simp add: upt_conv_Cons)
  note step = rx_payload_frag [OF wf plan i pads mh Suc.prems(1)]
  show ?case
  proof (cases "i = tot - 1")
    case True
    with Suc.prems i have "m = 0" by simp
    with True step i show ?thesis unfolding up by auto
  next
    case False
    with i step obtain st' where st': "recv_packet st (sent_frag env s mh cps tot i) = Rx_more st'"
      "rx_at s mh cps (Suc i) st'" "length (rx_buffer st') = length (rx_buffer st)" by auto
    have "0 < m \<or> Suc i + m < tot" using False Suc.prems by auto
    moreover have "recv_batch st (map (sent_frag env s mh cps tot) [i..<i + Suc m]) =
        recv_batch st' (map (sent_frag env s mh cps tot) [Suc i..<Suc i + m])"
      unfolding up using st'(1) by simp
    moreover have "i + Suc m = Suc i + m" by simp
    ultimately show ?thesis using Suc.IH [OF st'(2)] Suc.prems(2) st'(3)
      by (cases "Suc (i + m) = tot") (auto simp del: upt_Suc)
  qed
qed

text \<open>The datagrams of a burst, split into the batches that successive \<open>recvmmsg\<close> calls
  return.\<close>

definition batches :: "byte list list list \<Rightarrow> rx_event list" where
  "batches bss = map (\<lambda>b. Ev_packets (hd b) (tl b)) bss"

lemma rx_at_adjust [simp]: "rx_at s mh cps i (adjust_batch_size st) = rx_at s mh cps i st"
  by (simp add: adjust_batch_size_def rx_at_def Let_def)

lemma rx_buffer_adjust [simp]: "rx_buffer (adjust_batch_size st) = rx_buffer st"
  by (simp add: adjust_batch_size_def Let_def)

lemma recv_loop_burst:
  assumes wf: "wf_signal s" and plan: "frag_plan (getSize s) = (cps, tot)"
    and pads: "length (env_frag_pad env) = 5" "length (env_hdr_pad env) = 1"
    and mh: "mh = (sig_header s)\<lparr>hdr_total_frags := of_nat tot\<rparr>"
    and "rx_at s mh cps i st" and "i < tot"
    and "concat bss = map (sent_frag env s mh cps tot) [i..<tot]" and "[] \<notin> set bss"
  shows "\<exists>buf. recv_loop bufs st (batches bss @ evs) sv = (Recv_signal mh buf, release_packets bufs sv) \<and>
    take (getSize s) buf = take (getSize s) (the (sig_iq s)) \<and> length buf = length (rx_buffer st)"
  using assms(6-)
proof (induction bss arbitrary: i st)
  case Nil
  then show ?case by simp
next
  case (Cons b bss)
  let ?f = "sent_frag env s mh cps tot"
  have "length (concat (b # bss)) = tot - i" using Cons.prems(3) by simp
  then have le: "i + length b \<le> tot" using Cons.prems(2) by simp
  have "b = take (length b) (concat (b # bss))" by simp
  also have "\<dots> = map ?f [i..<i + length b]"
    unfolding Cons.prems(3) using le by (simp add: take_map)
  finally have b: "b = map ?f [i..<i + length b]" .
  have rest: "concat bss = map ?f [i + length b..<tot]"
  proof -
    have "concat bss = drop (length b) (concat (b # bss))" by simp
    then show ?thesis unfolding Cons.prems(3) by (simp add: drop_map)
  qed
  have nb: "b \<noteq> []" using Cons.prems(4) by auto
  then have hd: "hd b # tl b = b" by simp
  note rb = recv_batch_frags [OF wf plan pads mh Cons.prems(1) le, folded b]
  show ?case
  proof (cases "i + length b = tot")
    case True
    with rb nb show ?thesis by (auto simp: batches_def hd)
  next
    case False
    with le rb obtain st' where st': "recv_batch st b = Rx_more st'"
      "rx_at s mh cps (i + length b) st'" "length (rx_buffer st') = length (rx_buffer st)" by auto
    from Cons.IH [of "i + length b" "adjust_batch_size st'"] st' False le rest Cons.prems(4)
    show ?thesis by (auto simp: batches_def hd)
  qed
qed

lemma recv_loop_idle:
  "\<not> rx_assembling st \<Longrightarrow> recv_loop bufs st (replicate k Ev_timeout @ evs) sv = recv_loop bufs st evs sv"
  by (induction k) auto

lemma acquire_each_ok:
  "k \<le> available p \<Longrightarrow> acquire_each k p = (Inr (take k (dp_pool p)), p\<lparr>dp_pool := drop k (dp_pool p)\<rparr>)"
proof (induction k arbitrary: p)
  case 0
  then show ?case by simp
next
  case (Suc k)
  then obtain b bs where p: "dp_pool p = b # bs" by (cases "dp_pool p") (auto simp: available_def)
  with Suc.prems have "acquire p = Inr (b, p\<lparr>dp_pool := bs\<rparr>)" by (auto simp: acquire_Inr_iff)
  moreover have "k \<le> available (p\<lparr>dp_pool := bs\<rparr>)" using Suc.prems p by (simp add: available_def)
  ultimately show ?case using Suc.IH p by simp
qed

lemma available_drop [simp]: "available (p\<lparr>dp_pool := drop k (dp_pool p)\<rparr>) = available p - k"
  by (simp add: available_def)

lemma available_release_packets [simp]:
  "available (sv_udpPool (release_packets bufs sv)) = length bufs + available (sv_udpPool sv)"
  by (simp add: release_packets_def dpool.fold_rel_avail)

lemma sv_pool_release [simp]:
  "sv_pool (release_packets bufs sv) = sv_pool sv"
  "sv_udpPool (release_final b sv) = sv_udpPool sv"
  "sv_pool (release_final b sv) = release_buf 0 b (sv_pool sv)"
  by (simp_all add: release_packets_def release_final_def)

text \<open>A call that gets its buffers is the loop on the fresh state.\<close>

lemma Recv_loop:
  assumes "BATCH_SIZE \<le> available (sv_udpPool sv)" and "acquire (sv_pool sv) = Inr (b, ip)"
  shows "Recv evs sv = recv_loop (take BATCH_SIZE (dp_pool (sv_udpPool sv))) (rx_init b) evs
    (sv\<lparr>sv_udpPool := (sv_udpPool sv)\<lparr>dp_pool := drop BATCH_SIZE (dp_pool (sv_udpPool sv))\<rparr>, sv_pool := ip\<rparr>)"
  using assms by (simp add: Recv_def acquire_each_ok)

text \<open>C1. What \<open>UDPClient::Send\<close> puts on the wire, \<open>UDPServer::Recv\<close> puts together again: a
  well-formed signal is sent (no fault, its buffer back in the sender's pool), and however
  the kernel batches the datagrams, after any number of idle timeouts, the receiver with
  four packet buffers and an IQ buffer of sufficient size returns the signal's header, with
  the fragment count filled in, and exactly its IQ bytes; its packet buffers are all back in
  their pool.\<close>

theorem Send_Recv_roundtrip:
  assumes wf: "wf_signal s" and "m_port \<noteq> 0" and "otw \<noteq> 0"
    and pads: "length (env_frag_pad env) = 5" "length (env_hdr_pad env) = 1"
    and up: "BATCH_SIZE \<le> available (sv_udpPool sv)" and ip: "acquire (sv_pool sv) = Inr (b, ip)"
    and len: "getSize s \<le> length b"
  shows "\<exists>wire. Send env m_port pool (Some s) otw = Sent wire (release_buf 0 (the (sig_iq s)) pool) \<and>
    (\<forall>bss evs k. concat bss = wire \<and> [] \<notin> set bss \<longrightarrow>
      (\<exists>buf sv'. Recv (replicate k Ev_timeout @ batches bss @ evs) sv =
           (Recv_signal ((sig_header s)\<lparr>hdr_total_frags := of_nat (length wire)\<rparr>) buf, sv') \<and>
         take (getSize s) buf = take (getSize s) (the (sig_iq s)) \<and>
         available (sv_udpPool sv') = available (sv_udpPool sv) \<and> sv_pool sv' = ip))"
proof -
  obtain cps tot where plan: "frag_plan (getSize s) = (cps, tot)" by fastforce
  define mh where "mh = (sig_header s)\<lparr>hdr_total_frags := of_nat tot\<rparr>"
  have gp: "good_plan (unat (sig_numCh s)) (getSize s) cps tot" by (rule wf_signal_plan [OF wf plan])
  have at: "rx_at s mh cps 0 (rx_init b)"
    using len by (simp add: rx_at_def rx_init_def sent_at_def Let_def)
  have t: "0 < tot" using gp by (simp add: good_plan_def)
  have idle: "\<not> rx_assembling (rx_init b)" by (simp add: rx_init_def)
  have r: "\<exists>buf sv'. Recv (replicate k Ev_timeout @ batches bss @ evs) sv = (Recv_signal mh buf, sv') \<and>
      take (getSize s) buf = take (getSize s) (the (sig_iq s)) \<and>
      available (sv_udpPool sv') = available (sv_udpPool sv) \<and> sv_pool sv' = ip"
    if "concat bss = map (sent_frag env s mh cps tot) [0..<tot]" and "[] \<notin> set bss" for bss evs k
    using recv_loop_burst [OF wf plan pads mh_def at t that,
        of "take BATCH_SIZE (dp_pool (sv_udpPool sv))" evs
           "sv\<lparr>sv_udpPool := (sv_udpPool sv)\<lparr>dp_pool := drop BATCH_SIZE (dp_pool (sv_udpPool sv))\<rparr>, sv_pool := ip\<rparr>"]
      up
    by (auto simp: Recv_loop [OF up ip] recv_loop_idle [OF idle] available_def [symmetric])
  show ?thesis
    using Send_good [OF wf assms(2,3) plan, of env pool] r by (auto simp: mh_def)
qed

definition example_server :: UDPServer where
  "example_server = \<lparr>sv_udpPool = (empty_pool 4)\<lparr>dp_pool := replicate 4 []\<rparr>,
     sv_pool = (empty_pool 1)\<lparr>dp_itemSize := 4096, dp_pool := [replicate 4096 7]\<rparr>\<rparr>"

lemma wf_zero_signal: "wf_signal (zero_signal 1000)"
  by (simp add: wf_signal_def zero_signal_def Signal_new_def getSize_def zero_Header_def)

theorem Send_Recv_roundtrip_witness:
  "\<exists>wire. Send example_env 10001 (empty_pool 1) (Some (zero_signal 1000)) 4 =
       Sent wire (release_buf 0 (replicate 4000 0) (empty_pool 1)) \<and>
    (\<exists>buf sv'. Recv (batches (map (\<lambda>p. [p]) wire)) example_server =
       (Recv_signal ((sig_header (zero_signal 1000))\<lparr>hdr_total_frags := of_nat (length wire)\<rparr>) buf, sv') \<and>
       take 4000 buf = replicate 4000 0)"
proof -
  let ?s = "zero_signal 1000" and ?b = "replicate 4096 7 :: byte list"
  have sz: "getSize ?s = 4000" "sig_iq ?s = Some (replicate 4000 0)"
    by (simp_all add: zero_signal_def Signal_new_def getSize_def zero_Header_def)
  have "acquire (sv_pool example_server) = Inr (?b, (empty_pool 1)\<lparr>dp_itemSize := 4096\<rparr>)"
    by (simp add: acquire_def example_server_def empty_pool_def)
  from Send_Recv_roundtrip [OF wf_zero_signal, of 10001 4 example_env example_server, OF _ _ _ _ _ this]
  obtain wire where w: "Send example_env 10001 (empty_pool 1) (Some ?s) 4 =
       Sent wire (release_buf 0 (replicate 4000 0) (empty_pool 1))"
    and r: "\<And>bss evs k. concat bss = wire \<Longrightarrow> [] \<notin> set bss \<Longrightarrow>
      \<exists>buf sv'. Recv (replicate k Ev_timeout @ batches bss @ evs) example_server =
        (Recv_signal ((sig_header ?s)\<lparr>hdr_total_frags := of_nat (length wire)\<rparr>) buf, sv') \<and>
        take 4000 buf = replicate 4000 0"
    by (fastforce simp: sz example_env_def example_server_def available_def BATCH_SIZE_def)
  have "concat (map (\<lambda>p. [p]) wire) = wire" by (induction wire) auto
  with w r [of "map (\<lambda>p. [p]) wire" 0 "[]"] show ?thesis by auto
qed

section \<open>Safety of the reassembly buffer\<close>

text \<open>A packet is harmless for a buffer of \<open>L\<close> bytes when it cannot open a burst or when
  the header it carries announces at most \<open>L\<close> bytes.\<close>

definition harmless :: "nat \<Rightarrow> byte list \<Rightarrow> bool" where
  "harmless L p \<longleftrightarrow> UDP_HEADER_SIZE + HEADER_SIZE \<le> length p \<and> start_flag (UDPHeader_of_bytes p) \<longrightarrow>
     unat (hdr_size (Header_of_bytes (drop UDP_HEADER_SIZE p))) \<le> L"

definition rx_safe :: "nat \<Rightarrow> rx_state \<Rightarrow> bool" where
  "rx_safe L st \<longleftrightarrow> length (rx_buffer st) = L \<and>
     rx_active_num_channels st * rx_per_channel_stride st \<le> L"

lemma rx_safe_init: "rx_safe (length b) (rx_init b)"
  by (simp add: rx_safe_def rx_init_def)

lemma rx_safe_reset: "rx_safe L st \<Longrightarrow> rx_safe L (reset_assembly st)"
  by (simp add: rx_safe_def reset_assembly_def)

lemma rx_safe_reset_any: "length (rx_buffer st) = L \<Longrightarrow> rx_safe L (reset_assembly st)"
  by (simp add: rx_safe_def reset_assembly_def)

lemma rx_safe_adjust: "rx_safe L st \<Longrightarrow> rx_safe L (adjust_batch_size st)"
  by (simp add: rx_safe_def adjust_batch_size_def Let_def)

lemma recv_admit_safe:
  assumes "rx_safe L st" and "harmless L p"
  shows "case recv_admit st p of Inl st' \<Rightarrow> rx_safe L st' | Inr st' \<Rightarrow> rx_safe L st'"
proof -
  have d: "n * (x div n) \<le> x" for n x :: nat by simp
  show ?thesis
    using assms le_trans [OF d]
    by (auto simp: recv_admit_def Let_def rx_safe_reset rx_safe_def harmless_def
        reset_assembly_def split: if_splits)
qed

lemma copy_channels_length:
  "copy_channels n stride w len payload buf = Some buf' \<Longrightarrow> length buf' = length buf"
  by (induction n arbitrary: buf') (auto dest: buf_write_length split: option.splits)

lemma recv_payload_safe:
  assumes "rx_safe L st"
  shows "recv_payload st p \<noteq> Rx_fault \<and> (\<forall>st'. recv_payload st p = Rx_more st' \<longrightarrow> rx_safe L st')"
proof -
  let ?n = "rx_active_num_channels st" and ?stride = "rx_per_channel_stride st"
  have none: "?stride < w + len div ?n"
    if "copy_channels ?n ?stride w (len div ?n) pl (rx_buffer st) = None" "length pl = len"
    for w len and pl :: "byte list"
    using copy_channels_spec [of w "len div ?n" ?stride ?n "rx_buffer st" pl] that assms
    by (auto simp: rx_safe_def intro: ccontr)
  show ?thesis
    using assms
    by (auto simp: recv_payload_def Let_def rx_safe_reset rx_safe_def reset_assembly_def
        dest: copy_channels_length none split: option.splits)
qed

lemma recv_packet_safe:
  assumes "rx_safe L st" and "harmless L p"
  shows "recv_packet st p \<noteq> Rx_fault \<and> (\<forall>st'. recv_packet st p = Rx_more st' \<longrightarrow> rx_safe L st')"
  using recv_admit_safe [OF assms] recv_payload_safe assms(1)
  by (auto simp: recv_packet_def split: sum.splits)

lemma recv_batch_safe:
  assumes "rx_safe L st" and "\<forall>p \<in> set ps. harmless L p"
  shows "recv_batch st ps \<noteq> Rx_fault \<and> (\<forall>st'. recv_batch st ps = Rx_more st' \<longrightarrow> rx_safe L st')"
  using assms
proof (induction ps arbitrary: st)
  case Nil
  then show ?case by simp
next
  case (Cons p ps)
  then have "harmless L p" "\<forall>p \<in> set ps. harmless L p" by auto
  with recv_packet_safe [OF Cons.prems(1), of p] Cons.IH show ?case
    by (cases "recv_packet st p") auto
qed

fun event_packets :: "rx_event \<Rightarrow> byte list list" where
  "event_packets (Ev_packets p ps) = p # ps"
| "event_packets _ = []"

lemma recv_loop_safe:
  assumes "rx_safe L st" and "\<forall>e \<in> set evs. \<forall>p \<in> set (event_packets e). harmless L p"
  shows "fst (recv_loop bufs st evs sv) \<noteq> Recv_fault"
  using assms
proof (induction evs arbitrary: st)
  case Nil
  then show ?case by simp
next
  case (Cons e evs)
  have rest: "\<forall>e \<in> set evs. \<forall>p \<in> set (event_packets e). harmless L p" using Cons.prems(2) by simp
  show ?case
  proof (cases e)
    case (Ev_packets p ps)
    have "\<forall>q \<in> set (p # ps). harmless L q" using Cons.prems(2) Ev_packets by simp
    with recv_batch_safe [OF Cons.prems(1)]
    have rb: "recv_batch st (p # ps) \<noteq> Rx_fault"
      "\<And>st'. recv_batch st (p # ps) = Rx_more st' \<Longrightarrow> rx_safe L st'" by blast+
    then show ?thesis using Cons.IH [OF rx_safe_adjust rest] Ev_packets
      by (cases "recv_batch st (p # ps)") (auto simp del: recv_batch.simps)
  qed (use Cons.IH [OF Cons.prems(1) rest] in auto)
qed

text \<open>C6. The receiver never writes outside its reassembly buffer, whatever arrives
  (truncated, reordered, duplicated or forged datagrams, timeouts, errors), as long as no
  packet that can open a burst announces more bytes than the buffer holds.\<close>

theorem Recv_memory_safe:
  assumes "pool_inv 0 (sv_pool sv)"
    and "\<forall>e \<in> set evs. \<forall>p \<in> set (event_packets e). harmless (dp_itemSize (sv_pool sv)) p"
  shows "fst (Recv evs sv) \<noteq> Recv_fault"
proof -
  have "fst (recv_loop bufs (rx_init b) evs sv') \<noteq> Recv_fault"
    if "acquire (sv_pool sv) = Inr (b, ip)" for b ip bufs sv'
    using recv_loop_safe [of "dp_itemSize (sv_pool sv)" "rx_init b" evs] rx_safe_init [of b] assms(2)
      dpool.acq_ok [OF assms(1) that] by simp
  then show ?thesis
    by (auto simp: Recv_def split: sum.splits prod.splits)
qed

theorem Recv_memory_safe_witness:
  "fst (Recv [Ev_packets (replicate 100 0) [], Ev_timeout, Ev_packets (replicate 30 1) []] example_server)
     \<noteq> Recv_fault"
  by (rule Recv_memory_safe)
    (auto simp: example_server_def empty_pool_def pool_inv_def harmless_def start_flag_def size_consts
      UDPHeader_of_bytes_def field_def)

text \<open>C36. Nothing enforces that bound: a single valid start fragment of a two-channel burst
  whose header announces channels as long as the whole reassembly buffer makes the second
  \<open>memcpy\<close> write past its end.\<close>

theorem Recv_oversized_header_overruns:
  assumes len: "length p = UDP_HEADER_SIZE + HEADER_SIZE + unat (udp_size (UDPHeader_of_bytes p))"
    and start: "start_flag (UDPHeader_of_bytes p)"
    and h: "h = Header_of_bytes (drop UDP_HEADER_SIZE p)" and "hdr_number_of_channels h = 2"
    and big: "even (unat (hdr_size h))" "2 * length b \<le> unat (hdr_size h)"
    and pay: "even (unat (udp_size (UDPHeader_of_bytes p)))" "0 < unat (udp_size (UDPHeader_of_bytes p))"
      "unat (udp_size (UDPHeader_of_bytes p)) \<le> unat (hdr_size h)"
    and up: "BATCH_SIZE \<le> available (sv_udpPool sv)" and ip: "acquire (sv_pool sv) = Inr (b, ip)"
  shows "fst (Recv (Ev_packets p ps # evs) sv) = Recv_fault"
proof -
  let ?st = "(rx_init b)\<lparr>rx_final_hdr := h, rx_active_num_channels := 2,
    rx_per_channel_stride := unat (hdr_size h) div 2, rx_bytes_written_per_ch := 0,
    rx_fragments_received := 0, rx_last_seq_no := unat (udp_seq_number (UDPHeader_of_bytes p)),
    rx_assembling := True\<rparr>"
  let ?pl = "drop HEADER_SIZE (drop UDP_HEADER_SIZE p)" and ?k = "unat (udp_size (UDPHeader_of_bytes p))"
  have "2 \<le> ?k" using pay(1,2) by (auto elim!: evenE)
  then have half: "0 < unat (hdr_size h) div 2" using pay(3) by (simp add: div_greater_zero_iff)
  have adm: "recv_admit (rx_init b) p = Inr ?st"
    using assms half by (simp add: recv_admit_def rx_init_def Let_def)
  have lp: "length ?pl = ?k" using len by simp
  have le: "?k div 2 \<le> unat (hdr_size h) div 2" using pay(3) by (rule div_le_mono)
  have "0 < ?k div 2" and "length b \<le> unat (hdr_size h) div 2"
    using \<open>2 \<le> ?k\<close> big(2) by (simp_all add: div_greater_zero_iff)
  then have "length b < 1 * (unat (hdr_size h) div 2) + 0 + ?k div 2" by linarith
  then have "copy_channels 2 (unat (hdr_size h) div 2) 0 (?k div 2) ?pl b = None"
    using lp by (intro copy_channels_overrun [where c = 1]) auto
  then have "recv_payload ?st p = Rx_fault"
    using lp le pay start len \<open>0 < ?k div 2\<close>
    by (simp add: recv_payload_def Let_def rx_init_def not_less)
  then have "recv_packet (rx_init b) p = Rx_fault"
    using adm len by (simp add: recv_packet_def)
  then show ?thesis by (simp add: Recv_loop [OF up ip])
qed

definition overrun_packet :: "byte list" where
  "overrun_packet =
     UDPHeader_bytes (replicate 5 0) \<lparr>udp_timestamp = 0, udp_size = 8, udp_seq_number = 0, udp_flag = 1\<rparr> @
     Header_bytes [0] (zero_Header\<lparr>hdr_size := 8192, hdr_number_of_samples := 1024,
       hdr_number_of_channels := 2\<rparr>) @ replicate 8 0"

theorem Recv_oversized_header_overruns_witness:
  "fst (Recv [Ev_packets overrun_packet []] example_server) = Recv_fault"
proof -
  have p: "UDPHeader_of_bytes overrun_packet =
      \<lparr>udp_timestamp = 0, udp_size = 8, udp_seq_number = 0, udp_flag = 1\<rparr>"
    by (simp add: overrun_packet_def UDPHeader_roundtrip)
  have h: "Header_of_bytes (drop UDP_HEADER_SIZE overrun_packet) =
      zero_Header\<lparr>hdr_size := 8192, hdr_number_of_samples := 1024, hdr_number_of_channels := 2\<rparr>"
    by (simp add: overrun_packet_def UDP_HEADER_SIZE_def Header_roundtrip)
  have l: "length overrun_packet = 80" by (simp add: overrun_packet_def)
  show ?thesis
    by (rule Recv_oversized_header_overruns [OF _ _ h [symmetric], where b = "replicate 4096 7"])
      (auto simp: p l start_flag_def flag_bits size_consts example_server_def
        empty_pool_def acquire_def available_def)
qed

section \<open>The packet buffers on every way out\<close>

lemma recv_loop_pools:
  assumes "recv_loop bufs st evs sv = (r, sv')"
  shows "(\<forall>h b. r = Recv_signal h b \<longrightarrow> sv' = release_packets bufs sv) \<and>
    (r = Recv_null \<longrightarrow> (\<exists>b. sv' = release_final b (release_packets bufs sv) \<or>
                        (Ev_timeout \<in> set evs \<and> sv' = release_final b sv)))"
  using assms
proof (induction bufs st evs sv rule: recv_loop.induct)
  case (5 bufs st p ps evs sv)
  then show ?case by (cases "recv_batch st (p # ps)") (auto simp del: recv_batch.simps)
qed (auto split: if_splits)

text \<open>C7. Where the buffers are when a call comes back. A call that returns a signal has put
  its four packet buffers back and keeps the IQ buffer (it is the signal's); a call that
  returns nothing puts the IQ buffer back and, unless the wait timed out, the packet buffers
  too. When the wait times out in the middle of a burst the packet buffers are lost.\<close>

theorem Recv_buffer_accounting:
  assumes "Recv evs sv = (r, sv')" and up: "BATCH_SIZE \<le> available (sv_udpPool sv)"
    and "0 < available (sv_pool sv)"
  shows "(\<forall>h b. r = Recv_signal h b \<longrightarrow> available (sv_udpPool sv') = available (sv_udpPool sv) \<and>
            available (sv_pool sv') = available (sv_pool sv) - 1) \<and>
    (r = Recv_null \<longrightarrow> available (sv_pool sv') = available (sv_pool sv)) \<and>
    (r = Recv_null \<and> Ev_timeout \<notin> set evs \<longrightarrow>
            available (sv_udpPool sv') = available (sv_udpPool sv))"
proof -
  obtain b ip where ip: "acquire (sv_pool sv) = Inr (b, ip)"
    using assms(3) by (cases "dp_pool (sv_pool sv)") (auto simp: available_def acquire_def)
  let ?bufs = "take BATCH_SIZE (dp_pool (sv_udpPool sv))"
  have l: "length ?bufs = BATCH_SIZE" using up by (simp add: available_def)
  note acq = dpool.acq_avail [OF ip]
  have r: "recv_loop ?bufs (rx_init b) evs
    (sv\<lparr>sv_udpPool := (sv_udpPool sv)\<lparr>dp_pool := drop BATCH_SIZE (dp_pool (sv_udpPool sv))\<rparr>,
        sv_pool := ip\<rparr>) = (r, sv')"
    using assms(1) Recv_loop [OF up ip, of evs] by simp
  show ?thesis
    using recv_loop_pools [OF r] acq up l by (cases r) (auto simp del: length_take)
qed

theorem Recv_buffer_accounting_witness:
  "available (sv_udpPool (snd (Recv [Ev_packets (replicate 9 0) [], Ev_error] example_server))) = 4"
proof -
  have r: "Recv [Ev_packets (replicate 9 0) [], Ev_error] example_server =
      (Recv_null, snd (Recv [Ev_packets (replicate 9 0) [], Ev_error] example_server))"
    by (simp add: Recv_def example_server_def empty_pool_def BATCH_SIZE_def numeral_eq_Suc acquire_def
        recv_packet_def UDP_HEADER_SIZE_def)
  show ?thesis
    using Recv_buffer_accounting [OF r]
    by (simp add: example_server_def empty_pool_def available_def BATCH_SIZE_def)
qed

text \<open>A burst that stalls after its first fragment.\<close>

definition stall :: "byte list \<Rightarrow> UDPServer \<Rightarrow> UDPServer" where
  "stall p sv = snd (Recv [Ev_packets p [], Ev_timeout] sv)"

definition opens_burst :: "nat \<Rightarrow> byte list \<Rightarrow> bool" where
  "opens_burst L p \<longleftrightarrow> (\<forall>b. length b = L \<longrightarrow>
     (\<exists>st. recv_packet (rx_init b) p = Rx_more st \<and> rx_assembling st \<and> length (rx_buffer st) = L))"

lemma stall_step:
  assumes "opens_burst (dp_itemSize (sv_pool sv)) p" and "pool_inv 0 (sv_pool sv)"
    and "0 < available (sv_pool sv)" and up: "BATCH_SIZE \<le> available (sv_udpPool sv)"
  shows "available (sv_udpPool (stall p sv)) = available (sv_udpPool sv) - BATCH_SIZE \<and>
    pool_inv 0 (sv_pool (stall p sv)) \<and> available (sv_pool (stall p sv)) = available (sv_pool sv) \<and>
    dp_itemSize (sv_pool (stall p sv)) = dp_itemSize (sv_pool sv)"
proof -
  obtain b ip where ip: "acquire (sv_pool sv) = Inr (b, ip)"
    using assms(3) by (cases "dp_pool (sv_pool sv)") (auto simp: available_def acquire_def)
  have lb: "length b = dp_itemSize (sv_pool sv)" by (rule dpool.acq_ok [OF assms(2) ip])
  have it: "dp_itemSize ip = dp_itemSize (sv_pool sv)" using ip by (auto simp: acquire_Inr_iff)
  from assms(1) lb obtain st where st: "recv_packet (rx_init b) p = Rx_more st" "rx_assembling st"
    "length (rx_buffer st) = dp_itemSize (sv_pool sv)" by (auto simp: opens_burst_def)
  have "rx_assembling (adjust_batch_size st)" using st(2) by (simp add: adjust_batch_size_def Let_def)
  with st show ?thesis
    using dpool.acq_avail [OF ip] dpool.acq_inv [OF assms(2) ip] it
    by (auto simp: stall_def Recv_loop [OF up ip] intro: dpool.rel_inv)
qed

lemma acquire_each_short:
  "available p < k \<Longrightarrow> \<exists>e p'. acquire_each k p = (Inl (Runtime_error e), p')"
proof (induction k arbitrary: p)
  case 0
  then show ?case by simp
next
  case (Suc k)
  show ?case
  proof (cases "dp_pool p")
    case Nil
    then show ?thesis by (simp add: acquire_def)
  next
    case (Cons b bs)
    then have "available (p\<lparr>dp_pool := bs\<rparr>) < k" using Suc.prems by (simp add: available_def)
    from Suc.IH [OF this] Cons show ?thesis by (auto simp: acquire_def)
  qed
qed

text \<open>C37. Four stalled bursts disable the receiver: each of them loses four of the sixteen
  packet buffers, and every later call throws \<open>runtime_error\<close>, whatever arrives.\<close>

theorem Recv_timeout_exhausts_pool:
  assumes "opens_burst (dp_itemSize (sv_pool sv)) p" and "pool_inv 0 (sv_pool sv)"
    and "0 < available (sv_pool sv)" and "available (sv_udpPool sv) = UDP_CAP"
  shows "\<exists>e. fst (Recv evs (stall p (stall p (stall p (stall p sv))))) = Recv_throw (Runtime_error e)"
proof -
  let ?s1 = "stall p sv" let ?s2 = "stall p ?s1" let ?s3 = "stall p ?s2" let ?s4 = "stall p ?s3"
  note s1 = stall_step [OF assms(1-3)]
  have 1: "available (sv_udpPool ?s1) = 12" using s1 assms(4) by (simp add: size_consts)
  have 2: "available (sv_udpPool ?s2) = 8" using stall_step [of ?s1 p] s1 assms 1 by (simp add: size_consts)
  have "pool_inv 0 (sv_pool ?s2)" "0 < available (sv_pool ?s2)"
      "opens_burst (dp_itemSize (sv_pool ?s2)) p"
    using stall_step [of ?s1 p] s1 assms 1 by (simp_all add: size_consts)
  note s2 = stall_step [OF this(3,1,2)] and t2 = this
  have 3: "available (sv_udpPool ?s3) = 4" using s2 2 by (simp add: size_consts)
  have "available (sv_udpPool ?s4) = 0" using stall_step [of ?s3 p] s2 t2 2 3 by (simp add: size_consts)
  then show ?thesis
    using acquire_each_short [of "sv_udpPool ?s4" BATCH_SIZE]
    by (auto simp: Recv_def BATCH_SIZE_def)
qed

lemma first_fragment_opens:
  assumes wf: "wf_signal s" and plan: "frag_plan (getSize s) = (cps, tot)"
    and pads: "length (env_frag_pad env) = 5" "length (env_hdr_pad env) = 1"
    and mh: "mh = (sig_header s)\<lparr>hdr_total_frags := of_nat tot\<rparr>" and "getSize s \<le> L"
  shows "opens_burst L (sent_frag env s mh cps tot 0)"
  unfolding opens_burst_def
proof (intro allI impI)
  fix b :: "byte list" assume b: "length b = L"
  have at: "rx_at s mh cps 0 (rx_init b)"
    using assms(6) b by (simp add: rx_at_def rx_init_def sent_at_def Let_def)
  have "4 \<le> tot" using wf_signal_plan [OF wf plan] by (simp add: good_plan_def)
  then have "0 < tot" "0 < tot - 1" by simp_all
  then obtain st where st: "recv_packet (rx_init b) (sent_frag env s mh cps tot 0) = Rx_more st"
    "rx_at s mh cps (Suc 0) st" "length (rx_buffer st) = length (rx_buffer (rx_init b))"
    using rx_payload_frag [OF wf plan \<open>0 < tot\<close> pads mh at] by blast
  then show "\<exists>st. recv_packet (rx_init b) (sent_frag env s mh cps tot 0) = Rx_more st \<and>
      rx_assembling st \<and> length (rx_buffer st) = L"
    using b by (auto simp: rx_at_def Let_def rx_init_def)
qed

theorem Recv_timeout_exhausts_pool_witness:
  "\<exists>p. \<exists>e. fst (Recv [Ev_error] (stall p (stall p (stall p (stall p
      (example_server\<lparr>sv_udpPool := (empty_pool 16)\<lparr>dp_pool := replicate 16 []\<rparr>\<rparr>))))))
    = Recv_throw (Runtime_error e)"
proof -
  have "getSize (zero_signal 1000) = 4000"
    by (simp add: zero_signal_def Signal_new_def getSize_def zero_Header_def)
  then have plan: "frag_plan (getSize (zero_signal 1000)) = (1012, 4)"
    by (simp add: frag_plan_eq ceil_div_def)
  show ?thesis
    by (rule exI, rule Recv_timeout_exhausts_pool,
        rule first_fragment_opens [OF wf_zero_signal plan _ _ refl, of example_env])
      (simp_all add: example_env_def example_server_def empty_pool_def available_def pool_inv_def
        UDP_CAP_def zero_signal_def Signal_new_def getSize_def zero_Header_def)
qed

end
