(* ===== verification/Json.thy ===== *)
theory Json
  imports Chem_Common
begin

text \<open>
  The part of \<open>nlohmann::json\<close> the program uses: a value, \<open>contains\<close>, \<open>at\<close>, \<open>operator[]\<close> on
  an object being built, the \<open>get\<close> conversions with their implicit casts and the type and
  range errors as values, and \<open>merge_patch\<close>; and \<open>std::stoi\<close> and \<open>std::stod\<close> on strings.
  A parsed JSON number is a finite \<open>double\<close> or an integer, so numbers are reals and
  integers. Objects are maps ordered by key, as \<open>std::map<std::string, json>\<close> is.
\<close>

section \<open>Values\<close>

datatype json =
    JNull
  | JBool bool
  | JInt int
  | JFloat real
  | JStr string
  | JArr "json list"
  | JObj "(string \<times> json) list"

fun is_object :: "json \<Rightarrow> bool" where
  "is_object (JObj _) = True"
| "is_object _ = False"

fun is_string :: "json \<Rightarrow> bool" where
  "is_string (JStr _) = True"
| "is_string _ = False"

fun is_number :: "json \<Rightarrow> bool" where
  "is_number (JInt _) = True"
| "is_number (JFloat _) = True"
| "is_number _ = False"

fun is_number_integer :: "json \<Rightarrow> bool" where
  "is_number_integer (JInt _) = True"
| "is_number_integer _ = False"

fun is_boolean :: "json \<Rightarrow> bool" where
  "is_boolean (JBool _) = True"
| "is_boolean _ = False"

fun is_array :: "json \<Rightarrow> bool" where
  "is_array (JArr _) = True"
| "is_array _ = False"

fun jmembers :: "json \<Rightarrow> (string, json) omap" where
  "jmembers (JObj m) = m"
| "jmembers _ = []"

definition contains :: "json \<Rightarrow> string \<Rightarrow> bool" where
  "contains j k = (om_find (jmembers j) k \<noteq> None)"

definition jat :: "json \<Rightarrow> string \<Rightarrow> json result" where
  "jat j k =
     (if is_object j then
        case om_find (jmembers j) k of
          Some v \<Rightarrow> Inr v
        | None \<Rightarrow> Inl (Out_of_range (''key '' @ k @ '' not found''))
      else Inl (Type_error ''cannot use at() with this type''))"

text \<open>\<open>j[k] = v\<close>: a null value becomes an object first.\<close>

fun jset :: "string \<Rightarrow> json \<Rightarrow> json \<Rightarrow> json" where
  "jset k v (JObj m) = JObj (om_set k v m)"
| "jset k v JNull = JObj [(k, v)]"
| "jset k v j = j"

definition jobj :: "(string \<times> json) list \<Rightarrow> json" where
  "jobj kvs = JObj (fold (\<lambda>(k, v). om_set k v) kvs [])"

section \<open>Conversions\<close>

text \<open>C++ casts of a finite \<open>double\<close> to an integer type truncate towards zero.\<close>

definition trunc_real :: "real \<Rightarrow> int" where
  "trunc_real r = (if 0 \<le> r then \<lfloor>r\<rfloor> else \<lceil>r\<rceil>)"

fun get_string :: "json \<Rightarrow> string result" where
  "get_string (JStr s) = Inr s"
| "get_string _ = Inl (Type_error ''type must be string'')"

text \<open>\<open>get<double>\<close> takes numbers only.\<close>

fun get_double :: "json \<Rightarrow> real result" where
  "get_double (JInt i) = Inr (of_int i)"
| "get_double (JFloat r) = Inr r"
| "get_double _ = Inl (Type_error ''type must be number'')"

text \<open>\<open>get<float>\<close>, \<open>get<int>\<close> and \<open>get<uint8_t>\<close> go through the generic conversion, which
  also takes booleans.\<close>

fun get_float :: "json \<Rightarrow> real result" where
  "get_float (JInt i) = Inr (of_int i)"
| "get_float (JFloat r) = Inr r"
| "get_float (JBool b) = Inr (if b then 1 else 0)"
| "get_float _ = Inl (Type_error ''type must be number'')"

fun get_integer :: "json \<Rightarrow> int result" where
  "get_integer (JInt i) = Inr i"
| "get_integer (JFloat r) = Inr (trunc_real r)"
| "get_integer (JBool b) = Inr (if b then 1 else 0)"
| "get_integer _ = Inl (Type_error ''type must be number'')"

definition get_int :: "json \<Rightarrow> int result" where
  "get_int j = (case get_integer j of Inl e \<Rightarrow> Inl e | Inr i \<Rightarrow> Inr (to_int32 i))"

definition get_uint8 :: "json \<Rightarrow> byte result" where
  "get_uint8 j = (case get_integer j of Inl e \<Rightarrow> Inl e | Inr i \<Rightarrow> Inr (of_int i))"

definition get_uint16 :: "json \<Rightarrow> u16 result" where
  "get_uint16 j = (case get_integer j of Inl e \<Rightarrow> Inl e | Inr i \<Rightarrow> Inr (of_int i))"

fun get_bool :: "json \<Rightarrow> bool result" where
  "get_bool (JBool b) = Inr b"
| "get_bool _ = Inl (Type_error ''type must be boolean'')"

section \<open>Merge patch\<close>

text \<open>RFC 7396: a null member deletes, an object member merges, anything else replaces.\<close>

fun merge_patch :: "json \<Rightarrow> json \<Rightarrow> json"
  and merge_members :: "(string \<times> json) list \<Rightarrow> (string, json) omap \<Rightarrow> (string, json) omap" where
  "merge_patch target (JObj ps) = JObj (merge_members ps (jmembers target))"
| "merge_patch target p = p"
| "merge_members [] m = m"
| "merge_members ((k, v) # ps) m =
     merge_members ps
       (if v = JNull then om_erase k m
        else om_set k (merge_patch (case om_find m k of Some t \<Rightarrow> t | None \<Rightarrow> JNull) v) m)"

section \<open>Numbers in strings\<close>

definition is_space :: "char \<Rightarrow> bool" where
  "is_space c = (let n = of_char c :: nat in n = 32 \<or> 9 \<le> n \<and> n \<le> 13)"

definition digit_val :: "char \<Rightarrow> nat" where
  "digit_val c = of_char c - 48"

definition read_digits :: "string \<Rightarrow> nat" where
  "read_digits ds = foldl (\<lambda>a d. 10 * a + digit_val d) 0 ds"

fun read_sign :: "string \<Rightarrow> bool \<times> string" where
  "read_sign (c # s) =
     (if c = CHR ''-'' then (True, s) else if c = CHR ''+'' then (False, s) else (False, c # s))"
| "read_sign [] = (False, [])"

definition stoi :: "string \<Rightarrow> int result" where
  "stoi s =
     (let (neg, body) = read_sign (dropWhile is_space s);
          ds = takeWhile is_digit body;
          v = (if neg then - int (read_digits ds) else int (read_digits ds))
      in if ds = [] then Inl (Invalid_argument ''stoi'')
         else if v < - (2 ^ 31) \<or> 2 ^ 31 \<le> v then Inl (Out_of_range ''stoi'')
         else Inr v)"

definition is_hex :: "char \<Rightarrow> bool" where
  "is_hex c = (let n = of_char (char_tolower c) :: nat in is_digit c \<or> 97 \<le> n \<and> n \<le> 102)"

definition hex_val :: "char \<Rightarrow> nat" where
  "hex_val c = (if is_digit c then digit_val c else of_char (char_tolower c) - 87)"

text \<open>A mantissa in the base with digits \<open>isd\<close>: the digits, how many of them follow the
  point, and the rest of the string.\<close>

definition read_mantissa :: "(char \<Rightarrow> bool) \<Rightarrow> string \<Rightarrow> string \<times> nat \<times> string" where
  "read_mantissa isd s =
     (let ints = takeWhile isd s; rest = dropWhile isd s
      in case rest of
           [] \<Rightarrow> (ints, 0, [])
         | c # r \<Rightarrow>
             if c = CHR ''.'' \<and> (ints \<noteq> [] \<or> takeWhile isd r \<noteq> [])
             then (ints @ takeWhile isd r, length (takeWhile isd r), dropWhile isd r)
             else (ints, 0, rest))"

definition read_exponent :: "char \<Rightarrow> string \<Rightarrow> int" where
  "read_exponent mark s =
     (case s of
        [] \<Rightarrow> 0
      | c # r \<Rightarrow>
          if char_tolower c = mark then
            let (neg, body) = read_sign r; ds = takeWhile is_digit body
            in if neg then - int (read_digits ds) else int (read_digits ds)
          else 0)"

definition strtod :: "string \<Rightarrow> fp option" where
  "strtod s =
     (let (neg, body) = read_sign (dropWhile is_space s);
          low = str_tolower body;
          sgn = (\<lambda>r :: real. Fin (if neg then - r else r));
          decimal = (let (ds, fr, rest) = read_mantissa is_digit body
                     in if ds = [] then None
                        else Some (sgn (real (read_digits ds) * 10 powi (read_exponent CHR ''e'' rest - int fr))))
      in if take 3 low = ''inf'' then Some (if neg then NInf else PInf)
         else if take 3 low = ''nan'' then Some NaN
         else if take 2 low = ''0x'' then
           let (ds, fr, rest) = read_mantissa is_hex (drop 2 body)
           in if ds = [] then decimal
              else Some (sgn (real (foldl (\<lambda>a d. 16 * a + hex_val d) 0 ds) *
                              2 powi (read_exponent CHR ''p'' rest - 4 * int fr)))
         else decimal)"

text \<open>\<open>stod\<close> and \<open>stof\<close> differ in the range outside which they throw.\<close>

definition sto_fp :: "string \<Rightarrow> int \<Rightarrow> int \<Rightarrow> string \<Rightarrow> fp result" where
  "sto_fp name emin emax s =
     (case strtod s of
        None \<Rightarrow> Inl (Invalid_argument name)
      | Some (Fin r) \<Rightarrow>
          if 2 powi emax \<le> \<bar>r\<bar> \<or> r \<noteq> 0 \<and> \<bar>r\<bar> < 2 powi emin then Inl (Out_of_range name) else Inr (Fin r)
      | Some x \<Rightarrow> Inr x)"

definition stod :: "string \<Rightarrow> fp result" where
  "stod s = sto_fp ''stod'' (- 1022) 1024 s"

definition stof :: "string \<Rightarrow> fp result" where
  "stof s = sto_fp ''stof'' (- 126) 128 s"

lemma stoi_range: "stoi s = Inr v \<Longrightarrow> - (2 ^ 31) \<le> v \<and> v < 2 ^ 31"
  by (auto simp: stoi_def Let_def split: prod.splits if_splits)

section \<open>Laws\<close>

named_theorems json_simps

lemma jset_find [json_simps]:
  "om_find (jmembers (jset k v (JObj m))) x = (if x = k then Some v else om_find m x)"
  by (simp add: om_find_set)

lemma contains_JObj [json_simps]: "contains (JObj m) k = (om_find m k \<noteq> None)"
  by (simp add: contains_def)

lemma jat_JObj [json_simps]:
  "om_find m k = Some v \<Longrightarrow> jat (JObj m) k = Inr v"
  by (simp add: jat_def)

lemma jat_contains: "(\<exists>v. jat j k = Inr v) \<longleftrightarrow> contains j k"
  by (cases j) (auto simp: jat_def contains_def split: option.splits)

lemma fold_om_set_find:
  "om_find (fold (\<lambda>(k, v). om_set k v) kvs m) x =
     (case map_of (rev kvs) x of Some v \<Rightarrow> Some v | None \<Rightarrow> om_find m x)"
proof (induction kvs arbitrary: m)
  case Nil
  then show ?case by simp
next
  case (Cons e kvs)
  obtain k v where e: "e = (k, v)" by fastforce
  show ?case by (simp add: e Cons.IH om_find_set map_add_def split: option.splits)
qed

end
