(* ===== verification/Node_Config.thy ===== *)
theory Node_Config
  imports Json
begin

text \<open>
  The configuration of a node: the USRP channel and sample rate of
  \<open>include/chem/models/usrp_channel.hpp\<close>, the \<open>NodeConfig\<close> of
  \<open>include/chem/models/node_config.hpp\<close> and the AERPAW characteristics, with their JSON
  conversions. \<open>from_json\<close> works on an existing object: every \<open>try\<close> block is one function
  that returns the object as it stands when the block ends, also when an exception ended it
  half way.
\<close>

section \<open>USRP channel and sample rate\<close>

record usrp_Channel =
  uch_txTuneFreq :: real
  uch_rxTuneFreq :: real
  uch_txGain :: real
  uch_rxGain :: real
  uch_txAnt :: string
  uch_rxAnt :: string

definition usrp_Channel_new :: usrp_Channel where
  "usrp_Channel_new = \<lparr>uch_txTuneFreq = 0, uch_rxTuneFreq = 0, uch_txGain = 0, uch_rxGain = 0,
     uch_txAnt = '''', uch_rxAnt = ''''\<rparr>"

definition usrp_Channel_compare :: "usrp_Channel \<Rightarrow> usrp_Channel \<Rightarrow> bool" where
  "usrp_Channel_compare a c \<longleftrightarrow>
     uch_txTuneFreq a = uch_txTuneFreq c \<and> uch_rxTuneFreq a = uch_rxTuneFreq c \<and>
     uch_txGain a = uch_txGain c \<and> uch_rxGain a = uch_rxGain c \<and>
     uch_txAnt a = uch_txAnt c \<and> uch_rxAnt a = uch_rxAnt c"

text \<open>The statements of a \<open>try\<close> block, run in order until one throws.\<close>

fun try_seq :: "('a \<Rightarrow> 'a result) list \<Rightarrow> 'a \<Rightarrow> 'a" where
  "try_seq [] x = x"
| "try_seq (f # fs) x = (case f x of Inl _ \<Rightarrow> x | Inr y \<Rightarrow> try_seq fs y)"

definition rbind :: "'a result \<Rightarrow> ('a \<Rightarrow> 'b result) \<Rightarrow> 'b result" where
  "rbind r f = (case r of Inl e \<Rightarrow> Inl e | Inr x \<Rightarrow> f x)"

definition rmap :: "('a \<Rightarrow> 'b) \<Rightarrow> 'a result \<Rightarrow> 'b result" where
  "rmap f r = (case r of Inl e \<Rightarrow> Inl e | Inr x \<Rightarrow> Inr (f x))"

definition jat2 :: "json \<Rightarrow> string \<Rightarrow> string \<Rightarrow> json result" where
  "jat2 j k l = rbind (jat j k) (\<lambda>v. jat v l)"

definition usrp_Channel_from_json :: "json \<Rightarrow> usrp_Channel \<Rightarrow> usrp_Channel" where
  "usrp_Channel_from_json j c =
     (let c1 = (if contains j ''tx'' then
                  try_seq
                    [\<lambda>c. rmap (\<lambda>f. c\<lparr>uch_txTuneFreq := f\<rparr>) (rbind (jat2 j ''tx'' ''tune_freq'') get_double),
                     \<lambda>c. rmap (\<lambda>g. c\<lparr>uch_txGain := g\<rparr>) (rbind (jat2 j ''tx'' ''gain'') get_double),
                     \<lambda>c. rmap (\<lambda>a. c\<lparr>uch_txAnt := a\<rparr>) (rbind (jat2 j ''tx'' ''antenna'') get_string)] c
                else c)
      in if contains j ''rx'' then
           try_seq
             [\<lambda>c. rmap (\<lambda>f. c\<lparr>uch_rxTuneFreq := f\<rparr>) (rbind (jat2 j ''rx'' ''tune_freq'') get_double),
              \<lambda>c. rmap (\<lambda>g. c\<lparr>uch_rxGain := g\<rparr>) (rbind (jat2 j ''rx'' ''gain'') get_double),
              \<lambda>c. rmap (\<lambda>a. c\<lparr>uch_rxAnt := a\<rparr>) (rbind (jat2 j ''rx'' ''antenna'') get_string)] c1
         else c1)"

definition usrp_Channel_to_json :: "usrp_Channel \<Rightarrow> json" where
  "usrp_Channel_to_json c =
     (let j1 = (if uch_txTuneFreq c \<noteq> 0
                then jset ''tx'' (jobj [(''tune_freq'', JFloat (uch_txTuneFreq c)),
                                        (''gain'', JFloat (uch_txGain c)),
                                        (''antenna'', JStr (uch_txAnt c))]) JNull
                else JNull)
      in if uch_rxTuneFreq c \<noteq> 0
         then jset ''rx'' (jobj [(''tune_freq'', JFloat (uch_rxTuneFreq c)),
                                 (''gain'', JFloat (uch_rxGain c)),
                                 (''antenna'', JStr (uch_rxAnt c))]) j1
         else j1)"

record SampleRate =
  sr_txRate :: real
  sr_rxRate :: real

definition SampleRate_new :: SampleRate where
  "SampleRate_new = \<lparr>sr_txRate = 0, sr_rxRate = 0\<rparr>"

definition SampleRate_to_json :: "SampleRate \<Rightarrow> json" where
  "SampleRate_to_json s = jobj [(''tx'', JFloat (sr_txRate s)), (''rx'', JFloat (sr_rxRate s))]"

definition SampleRate_from_json :: "json \<Rightarrow> SampleRate \<Rightarrow> SampleRate" where
  "SampleRate_from_json j s =
     (let rate = (\<lambda>k. case jat j k of
                    Inr v \<Rightarrow> (case get_double v of Inr r \<Rightarrow> r | Inl _ \<Rightarrow> 1000000)
                  | Inl _ \<Rightarrow> 1000000)
      in s\<lparr>sr_txRate := rate ''tx'', sr_rxRate := rate ''rx''\<rparr>)"

section \<open>AERPAW characteristics\<close>

record NodeCharacteristics =
  ch_tx_pa_gain_db :: real
  ch_rx_gain_db :: real
  ch_tx_noise_figure_db :: real
  ch_rx_noise_figure_db :: real
  ch_cable_loss_db :: real
  ch_source_power_dbfs :: fp
  ch_tx_antennas :: "string list"
  ch_rx_antennas :: "string list"

definition fixed_node_characteristics :: NodeCharacteristics where
  "fixed_node_characteristics = \<lparr>ch_tx_pa_gain_db = 30, ch_rx_gain_db = 19,
     ch_tx_noise_figure_db = 5, ch_rx_noise_figure_db = 1.45 + 6, ch_cable_loss_db = 5,
     ch_source_power_dbfs = Fin (- 12),
     ch_tx_antennas = [''rm-wb1-dn-blk right side up''],
     ch_rx_antennas = [''rm-wb1-dn-blk right side up'']\<rparr>"

definition portable_node_characteristics :: NodeCharacteristics where
  "portable_node_characteristics = \<lparr>ch_tx_pa_gain_db = 25, ch_rx_gain_db = 19,
     ch_tx_noise_figure_db = 4.1, ch_rx_noise_figure_db = 1.45 + 6, ch_cable_loss_db = 1,
     ch_source_power_dbfs = Fin (- 12),
     ch_tx_antennas = [''sa-1400-5900''], ch_rx_antennas = [''sa-1400-5900'']\<rparr>"

section \<open>Node configuration\<close>

record NodeConfig =
  nc_ipAddress :: string
  nc_id :: string
  nc_name :: string
  nc_portTxNum :: u16
  nc_portRxNum :: u16
  nc_numChannels :: byte
  nc_sample_rate :: SampleRate
  nc_channels :: "usrp_Channel list"
  nc_logicalNode :: int
  nc_location :: Location
  nc_hasLocation :: bool
  nc_vehicleAddress :: string
  nc_aerpawKey :: string
  nc_nodeType :: NodeType
  nc_characteristics :: "NodeCharacteristics option"
  nc_deviceTxGain :: real
  nc_deviceRxGain :: real
  nc_hasDeviceTxGain :: bool
  nc_hasDeviceRxGain :: bool
  nc_txAntennaPattern :: string
  nc_rxAntennaPattern :: string
  nc_hasTxAntennaPattern :: bool
  nc_hasRxAntennaPattern :: bool
  nc_inputFormat :: string
  nc_outputFormat :: string

text \<open>The initialisers; the two port numbers are not initialised and are arguments.\<close>

definition NodeConfig_new :: "u16 \<Rightarrow> u16 \<Rightarrow> NodeConfig" where
  "NodeConfig_new ptx prx = \<lparr>nc_ipAddress = '''', nc_id = '''', nc_name = '''', nc_portTxNum = ptx,
     nc_portRxNum = prx, nc_numChannels = 1, nc_sample_rate = SampleRate_new, nc_channels = [],
     nc_logicalNode = - 1, nc_location = mkLocation 0 0 0, nc_hasLocation = False,
     nc_vehicleAddress = '''', nc_aerpawKey = '''', nc_nodeType = NT_UNKNOWN,
     nc_characteristics = None, nc_deviceTxGain = 0, nc_deviceRxGain = 0,
     nc_hasDeviceTxGain = False, nc_hasDeviceRxGain = False, nc_txAntennaPattern = '''',
     nc_rxAntennaPattern = '''', nc_hasTxAntennaPattern = False, nc_hasRxAntennaPattern = False,
     nc_inputFormat = '''', nc_outputFormat = ''''\<rparr>"

text \<open>\<open>m_channels.at(ch)\<close> throws out of range.\<close>

definition updateTxFreq :: "real \<Rightarrow> nat \<Rightarrow> NodeConfig \<Rightarrow> NodeConfig result" where
  "updateTxFreq freq ch n =
     (if ch < length (nc_channels n)
      then Inr (n\<lparr>nc_channels := (nc_channels n)[ch := (nc_channels n ! ch)\<lparr>uch_txTuneFreq := freq\<rparr>]\<rparr>)
      else Inl (Out_of_range ''vector::_M_range_check''))"

definition updateRxFreq :: "real \<Rightarrow> nat \<Rightarrow> NodeConfig \<Rightarrow> NodeConfig result" where
  "updateRxFreq freq ch n =
     (if ch < length (nc_channels n)
      then Inr (n\<lparr>nc_channels := (nc_channels n)[ch := (nc_channels n ! ch)\<lparr>uch_rxTuneFreq := freq\<rparr>]\<rparr>)
      else Inl (Out_of_range ''vector::_M_range_check''))"

definition hasLogicalNode :: "NodeConfig \<Rightarrow> bool" where
  "hasLogicalNode n = (0 \<le> nc_logicalNode n)"

definition setNodeConfigLocation :: "Location \<Rightarrow> NodeConfig \<Rightarrow> NodeConfig" where
  "setNodeConfigLocation l n = n\<lparr>nc_location := l, nc_hasLocation := True\<rparr>"

definition setDeviceTxGain :: "real \<Rightarrow> NodeConfig \<Rightarrow> NodeConfig" where
  "setDeviceTxGain g n = n\<lparr>nc_deviceTxGain := g, nc_hasDeviceTxGain := True\<rparr>"

definition setDeviceRxGain :: "real \<Rightarrow> NodeConfig \<Rightarrow> NodeConfig" where
  "setDeviceRxGain g n = n\<lparr>nc_deviceRxGain := g, nc_hasDeviceRxGain := True\<rparr>"

definition setTxAntennaPattern :: "string \<Rightarrow> NodeConfig \<Rightarrow> NodeConfig" where
  "setTxAntennaPattern p n = n\<lparr>nc_txAntennaPattern := p, nc_hasTxAntennaPattern := True\<rparr>"

definition setRxAntennaPattern :: "string \<Rightarrow> NodeConfig \<Rightarrow> NodeConfig" where
  "setRxAntennaPattern p n = n\<lparr>nc_rxAntennaPattern := p, nc_hasRxAntennaPattern := True\<rparr>"

definition setAntennaPattern :: "string \<Rightarrow> NodeConfig \<Rightarrow> NodeConfig" where
  "setAntennaPattern p n = setRxAntennaPattern p (setTxAntennaPattern p n)"

section \<open>To JSON\<close>

fun NodeType_to_int :: "NodeType \<Rightarrow> int" where
  "NodeType_to_int NT_UNKNOWN = 0"
| "NodeType_to_int NT_FIXED = 1"
| "NodeType_to_int NT_AERPAW_FIXED = 2"
| "NodeType_to_int NT_AERPAW_PORTABLE = 3"
| "NodeType_to_int NT_VEHICLE_MAVPROXY = 4"
| "NodeType_to_int (NT_OTHER i) = i"

definition NodeType_of_int :: "int \<Rightarrow> NodeType" where
  "NodeType_of_int i =
     (if i = 0 then NT_UNKNOWN else if i = 1 then NT_FIXED else if i = 2 then NT_AERPAW_FIXED
      else if i = 3 then NT_AERPAW_PORTABLE else if i = 4 then NT_VEHICLE_MAVPROXY else NT_OTHER i)"

text \<open>A \<open>double\<close> as a JSON value; a non-finite one is written as null.\<close>

fun json_of_fp :: "fp \<Rightarrow> json" where
  "json_of_fp (Fin r) = JFloat r"
| "json_of_fp _ = JNull"

definition jset_if :: "bool \<Rightarrow> string \<Rightarrow> json \<Rightarrow> json \<Rightarrow> json" where
  "jset_if c k v j = (if c then jset k v j else j)"

definition NodeConfig_to_json :: "NodeConfig \<Rightarrow> json" where
  "NodeConfig_to_json n =
     (let j0 = jobj [(''id'', JStr (nc_id n)), (''name'', JStr (nc_name n)),
                     (''numChannels'', JInt (int (unat (nc_numChannels n)))),
                     (''sample_rate'', SampleRate_to_json (nc_sample_rate n))];
          j1 = jset_if (nc_channels n \<noteq> []) ''channels'' (JArr (map usrp_Channel_to_json (nc_channels n))) j0;
          j2 = jset_if (0 \<le> nc_logicalNode n) ''logical_node'' (JInt (nc_logicalNode n)) j1;
          j3 = jset_if (nc_hasLocation n) ''location''
                 (jobj [(''lat'', json_of_fp (loc_lat (nc_location n))),
                        (''lon'', json_of_fp (loc_lon (nc_location n))),
                        (''alt'', json_of_fp (loc_alt (nc_location n)))]) j2;
          j4 = jset_if (nc_vehicleAddress n \<noteq> []) ''vehicle''
                 (jobj [(''address'', JStr (nc_vehicleAddress n))]) j3;
          j5 = jset_if (nc_aerpawKey n \<noteq> []) ''AERPAW'' (JStr (nc_aerpawKey n)) j4;
          j6 = jset_if (nc_nodeType n \<noteq> NT_UNKNOWN) ''node_type''
                 (JInt (NodeType_to_int (nc_nodeType n))) j5;
          gains = jset_if (nc_hasDeviceRxGain n) ''rx'' (JFloat (nc_deviceRxGain n))
                    (jset_if (nc_hasDeviceTxGain n) ''tx'' (JFloat (nc_deviceTxGain n)) JNull);
          j7 = jset_if (nc_hasDeviceTxGain n \<or> nc_hasDeviceRxGain n) ''gains'' gains j6;
          j8 = jset_if (nc_inputFormat n \<noteq> []) ''inputFormat'' (JStr (nc_inputFormat n)) j7
      in jset_if (nc_outputFormat n \<noteq> []) ''outputFormat'' (JStr (nc_outputFormat n)) j8)"

section \<open>From JSON\<close>

definition parse_id_name :: "json \<Rightarrow> NodeConfig \<Rightarrow> NodeConfig" where
  "parse_id_name j =
     try_seq
       [\<lambda>n. if contains j ''id'' then rmap (\<lambda>s. n\<lparr>nc_id := s\<rparr>) (rbind (jat j ''id'') get_string) else Inr n,
        \<lambda>n. if contains j ''name'' then rmap (\<lambda>s. n\<lparr>nc_name := s\<rparr>) (rbind (jat j ''name'') get_string) else Inr n]"

definition parse_numChannels :: "json \<Rightarrow> NodeConfig \<Rightarrow> NodeConfig" where
  "parse_numChannels j n =
     (case jat j ''numChannels'' of
        Inl _ \<Rightarrow> n
      | Inr v \<Rightarrow>
          if is_number v
          then (case get_uint8 v of Inr k \<Rightarrow> n\<lparr>nc_numChannels := k\<rparr> | Inl _ \<Rightarrow> n)
          else n)"

definition parse_channels :: "json \<Rightarrow> NodeConfig \<Rightarrow> NodeConfig" where
  "parse_channels j n =
     (case jat j ''channels'' of
        Inr (JArr vs) \<Rightarrow> n\<lparr>nc_channels := map (\<lambda>v. usrp_Channel_from_json v usrp_Channel_new) vs\<rparr>
      | Inr _ \<Rightarrow> n
      | Inl _ \<Rightarrow>
          if 0 < nc_numChannels n
          then n\<lparr>nc_channels := replicate (unat (nc_numChannels n)) usrp_Channel_new\<rparr>
          else n)"

definition parse_sample_rate :: "json \<Rightarrow> NodeConfig \<Rightarrow> NodeConfig" where
  "parse_sample_rate j n =
     (case jat j ''sample_rate'' of
        Inr v \<Rightarrow> n\<lparr>nc_sample_rate := SampleRate_from_json v SampleRate_new\<rparr>
      | Inl _ \<Rightarrow> n)"

definition parse_logical_node :: "json \<Rightarrow> NodeConfig \<Rightarrow> NodeConfig" where
  "parse_logical_node j n =
     (case jat j ''logical_node'' of
        Inl _ \<Rightarrow> n
      | Inr v \<Rightarrow>
          if is_number v
          then (case get_int v of Inr i \<Rightarrow> n\<lparr>nc_logicalNode := i\<rparr> | Inl _ \<Rightarrow> n)
          else if is_string v
          then (case rbind (get_string v) stoi of Inr i \<Rightarrow> n\<lparr>nc_logicalNode := i\<rparr> | Inl _ \<Rightarrow> n)
          else n)"

text \<open>A coordinate: absent it stays, a number is taken, anything else must be a string.\<close>

definition parse_coord ::
  "(json \<Rightarrow> real result) \<Rightarrow> (string \<Rightarrow> fp result) \<Rightarrow> json \<Rightarrow> string \<Rightarrow> fp \<Rightarrow> fp result" where
  "parse_coord getn sto loc k old =
     (case jat loc k of
        Inl _ \<Rightarrow> Inr old
      | Inr v \<Rightarrow> if is_number v then rmap Fin (getn v) else rbind (get_string v) sto)"

definition parse_location :: "json \<Rightarrow> NodeConfig \<Rightarrow> NodeConfig" where
  "parse_location j n =
     (case jat j ''location'' of
        Inl _ \<Rightarrow> n
      | Inr loc \<Rightarrow>
          if is_object loc then
            (case rbind (parse_coord get_double stod loc ''lat'' (Fin 0)) (\<lambda>lat.
                  rbind (parse_coord get_double stod loc ''lon'' (Fin 0)) (\<lambda>lon.
                  rmap (\<lambda>alt. \<lparr>loc_lat = lat, loc_lon = lon, loc_alt = alt\<rparr>)
                    (parse_coord get_float stof loc ''alt'' (Fin 0)))) of
               Inl _ \<Rightarrow> n
             | Inr l \<Rightarrow> setNodeConfigLocation l n)
          else n)"

definition parse_vehicle :: "json \<Rightarrow> NodeConfig \<Rightarrow> NodeConfig" where
  "parse_vehicle j n =
     (case jat j ''vehicle'' of
        Inl _ \<Rightarrow> n
      | Inr v \<Rightarrow>
          (case rbind (jat v ''address'') get_string of
             Inr a \<Rightarrow> n\<lparr>nc_vehicleAddress := a\<rparr>
           | Inl _ \<Rightarrow> n))"

definition parse_aerpaw :: "json \<Rightarrow> NodeConfig \<Rightarrow> NodeConfig" where
  "parse_aerpaw j n =
     (let take_key = (\<lambda>v. case v of
            JStr s \<Rightarrow> n\<lparr>nc_aerpawKey := s\<rparr>
          | JObj _ \<Rightarrow> (case rbind (jat v ''node'') get_string of
                       Inr s \<Rightarrow> n\<lparr>nc_aerpawKey := s\<rparr> | Inl _ \<Rightarrow> n)
          | _ \<Rightarrow> n)
      in case jat j ''AERPAW'' of
           Inr v \<Rightarrow> take_key v
         | Inl _ \<Rightarrow> (case jat j ''aerpaw'' of Inr v \<Rightarrow> take_key v | Inl _ \<Rightarrow> n))"

definition gain_set :: "real \<Rightarrow> bool" where
  "gain_set g = (1 / 10 ^ 12 < \<bar>g\<bar>)"

definition parse_gains :: "json \<Rightarrow> NodeConfig \<Rightarrow> NodeConfig" where
  "parse_gains j n =
     (let from_obj = (\<lambda>k set n. case rbind (jat j ''gains'') (\<lambda>g. rbind (jat g k) get_double) of
                         Inr r \<Rightarrow> set r n | Inl _ \<Rightarrow> n);
          n1 = from_obj ''tx'' setDeviceTxGain n;
          n2 = from_obj ''rx'' setDeviceRxGain n1
      in case nc_channels n2 of
           [] \<Rightarrow> n2
         | c # _ \<Rightarrow>
             let n3 = (if \<not> nc_hasDeviceTxGain n2 \<and> gain_set (uch_txGain c)
                       then setDeviceTxGain (uch_txGain c) n2 else n2)
             in if \<not> nc_hasDeviceRxGain n3 \<and> gain_set (uch_rxGain c)
                then setDeviceRxGain (uch_rxGain c) n3 else n3)"

definition parse_node_type :: "json \<Rightarrow> NodeConfig \<Rightarrow> NodeConfig" where
  "parse_node_type j n =
     (case jat j ''node_type'' of
        Inr (JInt i) \<Rightarrow> n\<lparr>nc_nodeType := NodeType_of_int (to_int32 i)\<rparr>
      | _ \<Rightarrow> n)"

definition parse_formats :: "json \<Rightarrow> NodeConfig \<Rightarrow> NodeConfig" where
  "parse_formats j n =
     (let n1 = (case jat j ''inputFormat'' of Inr (JStr s) \<Rightarrow> n\<lparr>nc_inputFormat := s\<rparr> | _ \<Rightarrow> n)
      in case jat j ''outputFormat'' of Inr (JStr s) \<Rightarrow> n1\<lparr>nc_outputFormat := s\<rparr> | _ \<Rightarrow> n1)"

definition NodeConfig_from_json :: "json \<Rightarrow> NodeConfig \<Rightarrow> NodeConfig" where
  "NodeConfig_from_json j n =
     parse_formats j (parse_node_type j (parse_gains j (parse_aerpaw j (parse_vehicle j
       (parse_location j (parse_logical_node j (parse_sample_rate j (parse_channels j
         (parse_numChannels j (parse_id_name j n))))))))))"

section \<open>Round trip\<close>

lemma jset_if_object: "is_object j \<Longrightarrow> is_object (jset_if c k v j)"
  by (cases j) (simp_all add: jset_if_def)

lemma jset_if_jat:
  "is_object j \<Longrightarrow> jat (jset_if c k v j) x = (if c \<and> x = k then Inr v else jat j x)"
  by (cases j) (simp_all add: jset_if_def jat_def om_find_set)

lemma jobj_object [simp]: "is_object (jobj kvs)"
  by (simp add: jobj_def)

lemma jobj_jat:
  "jat (jobj kvs) x =
     (case map_of (rev kvs) x of Some v \<Rightarrow> Inr v | None \<Rightarrow> Inl (Out_of_range (''key '' @ x @ '' not found'')))"
  by (simp add: jobj_def jat_def fold_om_set_find split: option.splits)

lemma contains_jat: "contains j k \<longleftrightarrow> (\<exists>v. jat j k = Inr v)"
  by (simp add: jat_contains)

text \<open>A channel survives when a direction that is not tuned carries no other settings.\<close>

definition uch_storable :: "usrp_Channel \<Rightarrow> bool" where
  "uch_storable c \<longleftrightarrow> (uch_txTuneFreq c = 0 \<longrightarrow> uch_txGain c = 0 \<and> uch_txAnt c = []) \<and>
     (uch_rxTuneFreq c = 0 \<longrightarrow> uch_rxGain c = 0 \<and> uch_rxAnt c = [])"

lemma jat_non_object: "\<not> is_object j \<Longrightarrow> \<exists>e. jat j k = Inl e"
  by (simp add: jat_def)

lemma usrp_Channel_roundtrip:
  assumes "uch_storable c"
  shows "usrp_Channel_from_json (usrp_Channel_to_json c) usrp_Channel_new = c"
proof -
  let ?tx = "uch_txTuneFreq c \<noteq> 0" and ?rx = "uch_rxTuneFreq c \<noteq> 0"
  let ?jt = "jobj [(''tune_freq'', JFloat (uch_txTuneFreq c)), (''gain'', JFloat (uch_txGain c)),
    (''antenna'', JStr (uch_txAnt c))]"
  let ?jr = "jobj [(''tune_freq'', JFloat (uch_rxTuneFreq c)), (''gain'', JFloat (uch_rxGain c)),
    (''antenna'', JStr (uch_rxAnt c))]"
  define j where "j = usrp_Channel_to_json c"
  have t: "jat j ''tx'' = Inr ?jt" "contains j ''tx''" if ?tx
    using that by (auto simp: j_def usrp_Channel_to_json_def jat_def contains_def om_find_set Let_def om_find_def)
  have r: "jat j ''rx'' = Inr ?jr" "contains j ''rx''" if ?rx
    using that by (auto simp: j_def usrp_Channel_to_json_def jat_def contains_def om_find_set Let_def om_find_def)
  have nt: "\<not> contains j ''tx''" if "\<not> ?tx"
    using that by (auto simp: j_def usrp_Channel_to_json_def contains_def om_find_set Let_def om_find_def)
  have nr: "\<not> contains j ''rx''" if "\<not> ?rx"
    using that by (auto simp: j_def usrp_Channel_to_json_def contains_def om_find_set Let_def om_find_def)
  show ?thesis
    unfolding j_def [symmetric] using assms
    by (cases c; cases ?tx; cases ?rx)
      (simp_all add: usrp_Channel_from_json_def Let_def t r nt nr jat2_def rbind_def rmap_def jobj_jat
        usrp_Channel_new_def uch_storable_def)
qed

lemma SampleRate_roundtrip: "SampleRate_from_json (SampleRate_to_json s) s0 = s"
  by (cases s) (simp add: SampleRate_from_json_def SampleRate_to_json_def jobj_jat)

lemma NodeType_roundtrip: "NodeType_to_int (NodeType_of_int i) = i"
  by (simp add: NodeType_of_int_def)

text \<open>What a configuration must satisfy to be written without loss: the logical node is \<open>- 1\<close> (none) or an \<open>int\<close>, a location has
  finite coordinates and is the origin when there is none, the number of the node type is an \<open>int\<close>, and a direction of
  a channel that is not tuned carries no other settings.\<close>

definition nc_storable :: "NodeConfig \<Rightarrow> bool" where
  "nc_storable n \<longleftrightarrow>
     (\<forall>c \<in> set (nc_channels n). uch_storable c) \<and>
     - 1 \<le> nc_logicalNode n \<and> nc_logicalNode n < 2 ^ 31 \<and>
     (if nc_hasLocation n
      then isfinite (loc_lat (nc_location n)) \<and> isfinite (loc_lon (nc_location n)) \<and>
           isfinite (loc_alt (nc_location n))
      else nc_location n = mkLocation 0 0 0) \<and>
     NodeType_of_int (to_int32 (NodeType_to_int (nc_nodeType n))) = nc_nodeType n"

text \<open>What \<open>from_json\<close> fills in when it is not there: default channels, as many as announced, for an empty list of channels,
  and the gains of the first channel for device gains that are not set.\<close>

definition channels_read :: "NodeConfig \<Rightarrow> usrp_Channel list" where
  "channels_read n = (if nc_channels n = [] then replicate (unat (nc_numChannels n)) usrp_Channel_new else nc_channels n)"

definition first_gain :: "(usrp_Channel \<Rightarrow> real) \<Rightarrow> NodeConfig \<Rightarrow> real option" where
  "first_gain g n = (if nc_channels n \<noteq> [] \<and> gain_set (g (hd (nc_channels n))) then Some (g (hd (nc_channels n))) else None)"

definition gain_read :: "bool \<Rightarrow> real \<Rightarrow> real option \<Rightarrow> real" where
  "gain_read has g first = (if has then g else case first of Some r \<Rightarrow> r | None \<Rightarrow> 0)"

definition nc_filled :: "NodeConfig \<Rightarrow> NodeConfig" where
  "nc_filled n = n\<lparr>nc_channels := channels_read n,
     nc_deviceTxGain := gain_read (nc_hasDeviceTxGain n) (nc_deviceTxGain n) (first_gain uch_txGain n),
     nc_deviceRxGain := gain_read (nc_hasDeviceRxGain n) (nc_deviceRxGain n) (first_gain uch_rxGain n),
     nc_hasDeviceTxGain := nc_hasDeviceTxGain n \<or> first_gain uch_txGain n \<noteq> None,
     nc_hasDeviceRxGain := nc_hasDeviceRxGain n \<or> first_gain uch_rxGain n \<noteq> None\<rparr>"

text \<open>Nothing is left to be filled in.\<close>

definition nc_complete :: "NodeConfig \<Rightarrow> bool" where
  "nc_complete n \<longleftrightarrow> (nc_channels n = [] \<longrightarrow> nc_numChannels n = 0) \<and>
     (\<not> nc_hasDeviceTxGain n \<longrightarrow> nc_deviceTxGain n = 0 \<and> first_gain uch_txGain n = None) \<and>
     (\<not> nc_hasDeviceRxGain n \<longrightarrow> nc_deviceRxGain n = 0 \<and> first_gain uch_rxGain n = None)"

lemma nc_filled_id: "nc_filled n = n \<longleftrightarrow> nc_complete n"
proof -
  have "channels_read n = nc_channels n \<longleftrightarrow> (nc_channels n = [] \<longrightarrow> nc_numChannels n = 0)"
    by (auto simp: channels_read_def unat_eq_0)
  then show ?thesis
    by (cases n) (auto simp: nc_filled_def nc_complete_def gain_read_def split: option.splits)
qed

text \<open>The part of a configuration that is not written.\<close>

definition nc_unstored :: "NodeConfig \<Rightarrow> NodeConfig \<Rightarrow> NodeConfig" where
  "nc_unstored n0 n = n\<lparr>nc_ipAddress := nc_ipAddress n0, nc_portTxNum := nc_portTxNum n0,
     nc_portRxNum := nc_portRxNum n0, nc_characteristics := nc_characteristics n0,
     nc_txAntennaPattern := nc_txAntennaPattern n0, nc_rxAntennaPattern := nc_rxAntennaPattern n0,
     nc_hasTxAntennaPattern := nc_hasTxAntennaPattern n0,
     nc_hasRxAntennaPattern := nc_hasRxAntennaPattern n0\<rparr>"

lemma NodeConfig_to_json_jat:
  fixes n defines "j \<equiv> NodeConfig_to_json n"
  shows "jat j ''id'' = Inr (JStr (nc_id n))" "jat j ''name'' = Inr (JStr (nc_name n))"
    "jat j ''numChannels'' = Inr (JInt (int (unat (nc_numChannels n))))"
    "jat j ''sample_rate'' = Inr (SampleRate_to_json (nc_sample_rate n))"
    "nc_channels n \<noteq> [] \<Longrightarrow> jat j ''channels'' = Inr (JArr (map usrp_Channel_to_json (nc_channels n)))"
    "nc_channels n = [] \<Longrightarrow> \<exists>e. jat j ''channels'' = Inl e"
    "0 \<le> nc_logicalNode n \<Longrightarrow> jat j ''logical_node'' = Inr (JInt (nc_logicalNode n))"
    "\<not> 0 \<le> nc_logicalNode n \<Longrightarrow> \<exists>e. jat j ''logical_node'' = Inl e"
    "nc_hasLocation n \<Longrightarrow> jat j ''location'' = Inr (jobj [(''lat'', json_of_fp (loc_lat (nc_location n))),
        (''lon'', json_of_fp (loc_lon (nc_location n))), (''alt'', json_of_fp (loc_alt (nc_location n)))])"
    "\<not> nc_hasLocation n \<Longrightarrow> \<exists>e. jat j ''location'' = Inl e"
    "nc_vehicleAddress n \<noteq> [] \<Longrightarrow> jat j ''vehicle'' = Inr (jobj [(''address'', JStr (nc_vehicleAddress n))])"
    "nc_vehicleAddress n = [] \<Longrightarrow> \<exists>e. jat j ''vehicle'' = Inl e"
    "nc_aerpawKey n \<noteq> [] \<Longrightarrow> jat j ''AERPAW'' = Inr (JStr (nc_aerpawKey n))"
    "nc_aerpawKey n = [] \<Longrightarrow> \<exists>e. jat j ''AERPAW'' = Inl e" "\<exists>e. jat j ''aerpaw'' = Inl e"
    "nc_nodeType n \<noteq> NT_UNKNOWN \<Longrightarrow> jat j ''node_type'' = Inr (JInt (NodeType_to_int (nc_nodeType n)))"
    "nc_nodeType n = NT_UNKNOWN \<Longrightarrow> \<exists>e. jat j ''node_type'' = Inl e"
    "nc_hasDeviceTxGain n \<or> nc_hasDeviceRxGain n \<Longrightarrow>
       jat j ''gains'' = Inr (jset_if (nc_hasDeviceRxGain n) ''rx'' (JFloat (nc_deviceRxGain n))
         (jset_if (nc_hasDeviceTxGain n) ''tx'' (JFloat (nc_deviceTxGain n)) JNull))"
    "\<not> (nc_hasDeviceTxGain n \<or> nc_hasDeviceRxGain n) \<Longrightarrow> \<exists>e. jat j ''gains'' = Inl e"
    "nc_inputFormat n \<noteq> [] \<Longrightarrow> jat j ''inputFormat'' = Inr (JStr (nc_inputFormat n))"
    "nc_inputFormat n = [] \<Longrightarrow> \<exists>e. jat j ''inputFormat'' = Inl e"
    "nc_outputFormat n \<noteq> [] \<Longrightarrow> jat j ''outputFormat'' = Inr (JStr (nc_outputFormat n))"
    "nc_outputFormat n = [] \<Longrightarrow> \<exists>e. jat j ''outputFormat'' = Inl e"
  unfolding j_def NodeConfig_to_json_def Let_def
  by (simp_all add: jset_if_object jset_if_jat jobj_jat)

text \<open>What each block of \<open>from_json\<close> reads back from what \<open>to_json\<close> wrote.\<close>

lemma parse_blocks_written:
  assumes wf: "nc_storable n"
  defines "j \<equiv> NodeConfig_to_json n"
  shows "parse_id_name j m = m\<lparr>nc_id := nc_id n, nc_name := nc_name n\<rparr>"
    and "parse_numChannels j m = m\<lparr>nc_numChannels := nc_numChannels n\<rparr>"
    and "nc_numChannels m = nc_numChannels n \<Longrightarrow> nc_channels m = [] \<Longrightarrow>
      parse_channels j m = m\<lparr>nc_channels := channels_read n\<rparr>"
    and "parse_sample_rate j m = m\<lparr>nc_sample_rate := nc_sample_rate n\<rparr>"
    and "nc_logicalNode m = - 1 \<Longrightarrow> parse_logical_node j m = m\<lparr>nc_logicalNode := nc_logicalNode n\<rparr>"
    and "nc_vehicleAddress m = [] \<Longrightarrow> parse_vehicle j m = m\<lparr>nc_vehicleAddress := nc_vehicleAddress n\<rparr>"
    and "nc_aerpawKey m = [] \<Longrightarrow> parse_aerpaw j m = m\<lparr>nc_aerpawKey := nc_aerpawKey n\<rparr>"
    and "nc_nodeType m = NT_UNKNOWN \<Longrightarrow> parse_node_type j m = m\<lparr>nc_nodeType := nc_nodeType n\<rparr>"
    and "nc_inputFormat m = [] \<Longrightarrow> nc_outputFormat m = [] \<Longrightarrow>
      parse_formats j m = m\<lparr>nc_inputFormat := nc_inputFormat n, nc_outputFormat := nc_outputFormat n\<rparr>"
proof -
  note at = NodeConfig_to_json_jat [of n, folded j_def]
  show "parse_id_name j m = m\<lparr>nc_id := nc_id n, nc_name := nc_name n\<rparr>"
    by (simp add: parse_id_name_def contains_jat at rbind_def rmap_def)
  show "parse_numChannels j m = m\<lparr>nc_numChannels := nc_numChannels n\<rparr>"
    by (simp add: parse_numChannels_def at get_uint8_def)
  show "parse_sample_rate j m = m\<lparr>nc_sample_rate := nc_sample_rate n\<rparr>"
    by (simp add: parse_sample_rate_def at SampleRate_roundtrip)
  show "parse_channels j m = m\<lparr>nc_channels := channels_read n\<rparr>"
    if "nc_numChannels m = nc_numChannels n" "nc_channels m = []"
  proof (cases "nc_channels n = []")
    case True
    with at(6) that show ?thesis
      by (cases m; cases "nc_numChannels n = 0") (auto simp: parse_channels_def channels_read_def word_gt_0)
  next
    case False
    have "map (\<lambda>c. usrp_Channel_from_json (usrp_Channel_to_json c) usrp_Channel_new) (nc_channels n) = nc_channels n"
      using wf by (intro map_idI) (simp add: usrp_Channel_roundtrip nc_storable_def)
    with False show ?thesis by (simp add: parse_channels_def channels_read_def at comp_def)
  qed
  show "parse_logical_node j m = m\<lparr>nc_logicalNode := nc_logicalNode n\<rparr>" if "nc_logicalNode m = - 1"
  proof (cases "0 \<le> nc_logicalNode n")
    case True
    with wf show ?thesis
      by (simp add: parse_logical_node_def at get_int_def to_int32_id nc_storable_def)
  next
    case False
    then have "nc_logicalNode n = - 1" using wf by (simp add: nc_storable_def)
    with False at(8) that show ?thesis by (cases m) (auto simp: parse_logical_node_def)
  qed
  show "parse_vehicle j m = m\<lparr>nc_vehicleAddress := nc_vehicleAddress n\<rparr>" if "nc_vehicleAddress m = []"
    using at(11,12) that
    by (cases m; cases "nc_vehicleAddress n = []") (auto simp: parse_vehicle_def rbind_def jobj_jat)
  show "parse_aerpaw j m = m\<lparr>nc_aerpawKey := nc_aerpawKey n\<rparr>" if "nc_aerpawKey m = []"
    using at(13-15) that by (cases m; cases "nc_aerpawKey n = []") (auto simp: parse_aerpaw_def)
  show "parse_node_type j m = m\<lparr>nc_nodeType := nc_nodeType n\<rparr>" if "nc_nodeType m = NT_UNKNOWN"
    using at(16,17) that wf
    by (cases m; cases "nc_nodeType n = NT_UNKNOWN") (auto simp: parse_node_type_def nc_storable_def)
  show "parse_formats j m = m\<lparr>nc_inputFormat := nc_inputFormat n, nc_outputFormat := nc_outputFormat n\<rparr>"
    if "nc_inputFormat m = []" "nc_outputFormat m = []"
    using at(20-23) that
    by (cases m; cases "nc_inputFormat n = []"; cases "nc_outputFormat n = []") (auto simp: parse_formats_def)
qed

lemma parse_location_written:
  assumes wf: "nc_storable n" and m: "nc_location m = mkLocation 0 0 0" "\<not> nc_hasLocation m"
  shows "parse_location (NodeConfig_to_json n) m =
    m\<lparr>nc_location := nc_location n, nc_hasLocation := nc_hasLocation n\<rparr>"
proof (cases "nc_hasLocation n")
  case True
  then obtain a b c where "nc_location n = \<lparr>loc_lat = Fin a, loc_lon = Fin b, loc_alt = Fin c\<rparr>"
    using wf by (cases "nc_location n") (auto simp: nc_storable_def isfinite_iff)
  with True show ?thesis
    by (simp add: parse_location_def NodeConfig_to_json_jat(9) parse_coord_def jobj_jat rbind_def rmap_def
        setNodeConfigLocation_def)
next
  case False
  with NodeConfig_to_json_jat(10) [of n] wf m show ?thesis
    by (cases m) (auto simp: parse_location_def nc_storable_def)
qed

lemma jat_JObj_eq:
  "jat (JObj m) k =
     (case om_find m k of Some v \<Rightarrow> Inr v | None \<Rightarrow> Inl (Out_of_range (''key '' @ k @ '' not found'')))"
  by (simp add: jat_def)

lemma parse_gains_written:
  assumes ch: "nc_channels m = channels_read n"
    and m: "nc_deviceTxGain m = 0" "nc_deviceRxGain m = 0" "\<not> nc_hasDeviceTxGain m" "\<not> nc_hasDeviceRxGain m"
  shows "parse_gains (NodeConfig_to_json n) m =
    m\<lparr>nc_deviceTxGain := nc_deviceTxGain (nc_filled n), nc_deviceRxGain := nc_deviceRxGain (nc_filled n),
      nc_hasDeviceTxGain := nc_hasDeviceTxGain (nc_filled n), nc_hasDeviceRxGain := nc_hasDeviceRxGain (nc_filled n)\<rparr>"
proof -
  let ?g = "\<lambda>k. rbind (jat (NodeConfig_to_json n) ''gains'') (\<lambda>g. rbind (jat g k) get_double)"
  note at = NodeConfig_to_json_jat(18,19) [of n]
  have tx: "nc_hasDeviceTxGain n \<Longrightarrow> ?g ''tx'' = Inr (nc_deviceTxGain n)"
    "\<not> nc_hasDeviceTxGain n \<Longrightarrow> \<exists>e. ?g ''tx'' = Inl e"
    using at by (cases "nc_hasDeviceTxGain n"; cases "nc_hasDeviceRxGain n";
        force simp: rbind_def jset_if_def jat_JObj_eq om_find_def)+
  have rx: "nc_hasDeviceRxGain n \<Longrightarrow> ?g ''rx'' = Inr (nc_deviceRxGain n)"
    "\<not> nc_hasDeviceRxGain n \<Longrightarrow> \<exists>e. ?g ''rx'' = Inl e"
    using at by (cases "nc_hasDeviceTxGain n"; cases "nc_hasDeviceRxGain n";
        force simp: rbind_def jset_if_def jat_JObj_eq om_find_def)+
  have ch': "nc_channels m = [] \<Longrightarrow> first_gain g n = None"
    "nc_channels m = c # cs \<Longrightarrow> first_gain uch_txGain n = (if gain_set (uch_txGain c) then Some (uch_txGain c) else None) \<and>
       first_gain uch_rxGain n = (if gain_set (uch_rxGain c) then Some (uch_rxGain c) else None)" for g c cs
    using ch by (cases "unat (nc_numChannels n)"; auto simp: channels_read_def first_gain_def usrp_Channel_new_def gain_set_def split: if_splits)+
  show ?thesis
    using tx rx m ch'
    by (cases m; cases "nc_hasDeviceTxGain n"; cases "nc_hasDeviceRxGain n")
      (auto simp: parse_gains_def Let_def setDeviceTxGain_def setDeviceRxGain_def nc_filled_def gain_read_def
        split: list.splits)
qed

text \<open>C31. Storing a node configuration and reading it back into a fresh object. For a configuration that can be written without
  loss (\<open>nc_storable\<close>: logical node and node type are \<open>int\<close>s, coordinates finite, no location means the origin, no settings
  in a direction of a channel that is not tuned), what comes back is the configuration with what \<open>from_json\<close> fills in: default channels, as
  many as \<open>numChannels\<close> says, for an empty list, and the gains of the first channel for device gains that are not set; the
  fields that are not written (address, ports, antenna patterns, AERPAW characteristics) are those of the fresh object. So the
  configuration itself comes back if and only if nothing was to be filled in; a configuration made by the
  constructor, one channel announced and none listed, does not.\<close>

theorem NodeConfig_json_roundtrip:
  assumes "nc_storable n"
  shows "NodeConfig_from_json (NodeConfig_to_json n) (NodeConfig_new ptx prx) =
      nc_unstored (NodeConfig_new ptx prx) (nc_filled n) \<and>
    (nc_filled n = n \<longleftrightarrow> nc_complete n)"
proof -
  have "NodeConfig_from_json (NodeConfig_to_json n) (NodeConfig_new ptx prx) =
      nc_unstored (NodeConfig_new ptx prx) (nc_filled n)"
    unfolding NodeConfig_from_json_def
    by (simp add: parse_blocks_written [OF assms] parse_location_written [OF assms]
        parse_gains_written NodeConfig_new_def nc_unstored_def) (simp add: nc_filled_def)
  then show ?thesis by (simp add: nc_filled_id)
qed

definition example_config :: NodeConfig where
  "example_config = (NodeConfig_new 0 0)\<lparr>nc_id := ''n1'', nc_name := ''tower'',
     nc_channels := [usrp_Channel_new\<lparr>uch_txTuneFreq := 3500000000, uch_txGain := 30\<rparr>],
     nc_sample_rate := \<lparr>sr_txRate = 2000000, sr_rxRate = 2000000\<rparr>, nc_logicalNode := 2,
     nc_location := mkLocation 35.7 (- 78.6) 12, nc_hasLocation := True,
     nc_nodeType := NT_AERPAW_FIXED, nc_deviceTxGain := 30, nc_hasDeviceTxGain := True\<rparr>"

text \<open>A complete configuration comes back, the default one with a channel more.\<close>

theorem NodeConfig_json_roundtrip_witness:
  "nc_storable example_config \<and> NodeConfig_from_json (NodeConfig_to_json example_config) (NodeConfig_new 0 0) = example_config \<and>
   nc_storable (NodeConfig_new 0 0) \<and>
   nc_channels (NodeConfig_from_json (NodeConfig_to_json (NodeConfig_new 0 0)) (NodeConfig_new 0 0)) = [usrp_Channel_new]"
proof -
  have st: "nc_storable example_config" "nc_storable (NodeConfig_new 0 0)"
    by (simp_all add: nc_storable_def example_config_def NodeConfig_new_def uch_storable_def
        usrp_Channel_new_def mkLocation_def to_int32_def NodeType_of_int_def)
  have "nc_complete example_config"
    by (simp add: nc_complete_def first_gain_def example_config_def NodeConfig_new_def usrp_Channel_new_def gain_set_def)
  then have "NodeConfig_from_json (NodeConfig_to_json example_config) (NodeConfig_new 0 0) = example_config"
    using NodeConfig_json_roundtrip [OF st(1), of 0 0]
    by (simp add: nc_unstored_def example_config_def NodeConfig_new_def)
  moreover have "nc_channels (nc_unstored (NodeConfig_new 0 0) (nc_filled (NodeConfig_new 0 0))) = [usrp_Channel_new]"
    by (simp add: nc_unstored_def nc_filled_def channels_read_def NodeConfig_new_def)
  ultimately show ?thesis using NodeConfig_json_roundtrip [OF st(2), of 0 0] st by simp
qed

end
