(* ===== verification/Transceiver.thy ===== *)
theory Transceiver
  imports Udp_Server Node_Config "HOL-Library.Multiset"
begin

text \<open>
  The two endpoints of a node: \<open>Receiver\<close> (\<open>src/chem/node/receiver.cpp\<close>), which takes bursts
  from the UDP server, and \<open>Transmitter\<close> (\<open>src/chem/node/transmitter.cpp\<close>), which sends bursts in
  the order of their time stamps. One pass of each \<open>Start\<close> loop is a definition; the IQ pool they
  share with the rest of the process is passed explicitly. A signal handed to the receiver's
  callback is an output of the step: what the callback does is the component \<open>Intermediate\<close>.
  The locale \<open>signal_sink\<close> is the contract of \<open>Add2Buff\<close>; it is interpreted on both endpoints.
\<close>

type_synonym iq_pool = "byte DataArrayPool"

section \<open>Single precision\<close>

text \<open>The conversion of an integer to \<open>float\<close>: 24 bits of mantissa, ties to even.\<close>

fun bits :: "nat \<Rightarrow> nat" where
  "bits n = (if n = 0 then 0 else Suc (bits (n div 2)))"

declare bits.simps [simp del]

definition f32_nat :: "nat \<Rightarrow> nat" where
  "f32_nat m =
     (if m < 2 ^ 24 then m
      else let e = bits m - 24; q = m div 2 ^ e; r = m mod 2 ^ e
           in (if 2 * r < 2 ^ e \<or> (2 * r = 2 ^ e \<and> even q) then q else q + 1) * 2 ^ e)"

definition f32 :: "int \<Rightarrow> int" where
  "f32 n = (if n < 0 then - int (f32_nat (nat (- n))) else int (f32_nat (nat n)))"

section \<open>Receiver\<close>

record Receiver =
  rcv_node_config :: NodeConfig
  rcv_NodeId :: string
  rcv_NodeName :: string
  rcv_ch_no :: byte
  rcv_ip_address :: string
  rcv_portNum :: u16
  rcv_working :: bool
  rcv_attached :: bool
  rcv_sample_rate :: u32
  rcv_freq :: real
  rcv_numChannels :: byte
  rcv_hasCallback :: bool
  rcv_queue :: "Signal list"
  rcv_udpPool :: "byte DataArrayPool"

text \<open>The rate is converted from \<open>double\<close> to 32 bits; a node without channels throws.\<close>

definition Receiver_new :: "NodeConfig \<Rightarrow> byte \<Rightarrow> byte DataArrayPool \<Rightarrow> Receiver result" where
  "Receiver_new nc ch udpPool =
     (case nc_channels nc of
        [] \<Rightarrow> Inl (Out_of_range ''vector::_M_range_check'')
      | c # _ \<Rightarrow>
          Inr \<lparr>rcv_node_config = nc, rcv_NodeId = nc_id nc, rcv_NodeName = nc_name nc, rcv_ch_no = ch,
               rcv_ip_address = nc_ipAddress nc, rcv_portNum = nc_portTxNum nc, rcv_working = True,
               rcv_attached = False, rcv_sample_rate = of_int (trunc_real (sr_txRate (nc_sample_rate nc))),
               rcv_freq = uch_txTuneFreq c, rcv_numChannels = nc_numChannels nc,
               rcv_hasCallback = False, rcv_queue = [], rcv_udpPool = udpPool\<rparr>)"

text \<open>\<open>m_iq_pool->release(sig->dataArray())\<close>\<close>

definition drop_signal :: "Signal \<Rightarrow> iq_pool \<Rightarrow> iq_pool result" where
  "drop_signal s pool = release 0 (sig_iq s) pool"

text \<open>\<open>try_pop\<close> of the oldest signal, which goes back to the pool.\<close>

definition drop_oldest :: "Signal list \<Rightarrow> iq_pool \<Rightarrow> (Signal list \<times> iq_pool) result" where
  "drop_oldest q pool =
     (case q of [] \<Rightarrow> Inr (q, pool) | s # q' \<Rightarrow> rmap (\<lambda>p. (q', p)) (drop_signal s pool))"

datatype rcv_step =
    Rcv_step "Signal option" Receiver iq_pool
  | Rcv_exn cpp_exn
  | Rcv_blocked
  | Rcv_fault

text \<open>The part of a pass after a burst has arrived.\<close>

definition Receiver_deliver ::
  "real \<times> byte \<times> nat \<Rightarrow> Header \<Rightarrow> byte list \<Rightarrow> Receiver \<Rightarrow> iq_pool \<Rightarrow> rcv_step" where
  "Receiver_deliver unset hdr rx r pool =
     (case (if QUEUE_CAP \<le> length (rcv_queue r) then drop_oldest (rcv_queue r) pool else Inr (rcv_queue r, pool)) of
        Inl e \<Rightarrow> Rcv_exn e
      | Inr (q, pool1) \<Rightarrow>
          let t_sig = Signal_new unset (Some rx) hdr (rcv_freq r) (rcv_NodeId r)
          in if rcv_hasCallback r then Rcv_step (Some t_sig) (r\<lparr>rcv_queue := q\<rparr>) pool1
             else if length q < QUEUE_CAP then Rcv_step None (r\<lparr>rcv_queue := q @ [t_sig]\<rparr>) pool1
             else (case drop_signal t_sig pool1 of
                     Inl e \<Rightarrow> Rcv_exn e
                   | Inr pool2 \<Rightarrow> Rcv_step None (r\<lparr>rcv_queue := q\<rparr>) pool2))"

text \<open>One pass of \<open>Receiver::Start\<close> over the next outcomes of the socket.\<close>

definition Receiver_step :: "real \<times> byte \<times> nat \<Rightarrow> rx_event list \<Rightarrow> Receiver \<Rightarrow> iq_pool \<Rightarrow> rcv_step" where
  "Receiver_step unset evs r pool =
     (case Recv evs \<lparr>sv_udpPool = rcv_udpPool r, sv_pool = pool\<rparr> of
        (Recv_throw e, sv) \<Rightarrow> Rcv_step None (r\<lparr>rcv_working := False, rcv_udpPool := sv_udpPool sv\<rparr>) (sv_pool sv)
      | (Recv_null, sv) \<Rightarrow> Rcv_step None (r\<lparr>rcv_udpPool := sv_udpPool sv\<rparr>) (sv_pool sv)
      | (Recv_blocked _, sv) \<Rightarrow> Rcv_blocked
      | (Recv_fault, sv) \<Rightarrow> Rcv_fault
      | (Recv_signal hdr rx, sv) \<Rightarrow>
          (let r1 = r\<lparr>rcv_udpPool := sv_udpPool sv\<rparr>
           in if hdr_size hdr = 0 then Rcv_step None r1 (sv_pool sv)
              else Receiver_deliver unset hdr rx r1 (sv_pool sv)))"

definition getSignalFromQueue :: "Receiver \<Rightarrow> Signal option \<times> Receiver" where
  "getSignalFromQueue r =
     (case rcv_queue r of [] \<Rightarrow> (None, r) | s # q \<Rightarrow> (Some s, r\<lparr>rcv_queue := q\<rparr>))"

definition setAddQueFnc :: "Receiver \<Rightarrow> Receiver" where
  "setAddQueFnc r = r\<lparr>rcv_hasCallback := True\<rparr>"

text \<open>\<open>Receiver::Add2Buff\<close>: the first component is the signal given to the callback.\<close>

definition Receiver_Add2Buff ::
  "Signal \<Rightarrow> Receiver \<times> iq_pool \<Rightarrow> (Signal option \<times> Receiver \<times> iq_pool) result" where
  "Receiver_Add2Buff sig = (\<lambda>(r, pool).
     if rcv_hasCallback r then Inr (Some sig, r, pool)
     else if QUEUE_CAP - 1 \<le> length (rcv_queue r)
     then rbind (drop_oldest (rcv_queue r) pool) (\<lambda>(q, pool1).
            rmap (\<lambda>pool2. (None, r\<lparr>rcv_queue := q\<rparr>, pool2)) (drop_signal sig pool1))
     else Inr (None, r\<lparr>rcv_queue := rcv_queue r @ [sig]\<rparr>, pool))"

definition Receiver_setAttachState :: "bool \<Rightarrow> Receiver \<Rightarrow> Receiver" where
  "Receiver_setAttachState b r = r\<lparr>rcv_attached := b\<rparr>"

definition Receiver_updateFreq :: "real \<Rightarrow> Receiver \<Rightarrow> Receiver" where
  "Receiver_updateFreq f r = r\<lparr>rcv_freq := f\<rparr>"

definition Receiver_setSampleRate :: "u32 \<Rightarrow> Receiver \<Rightarrow> Receiver" where
  "Receiver_setSampleRate rate r =
     r\<lparr>rcv_sample_rate := rate,
       rcv_node_config := (rcv_node_config r)\<lparr>nc_sample_rate :=
         (nc_sample_rate (rcv_node_config r))\<lparr>sr_txRate := real (unat rate)\<rparr>\<rparr>\<rparr>"

section \<open>Transmitter\<close>

record Transmitter =
  tr_node_config :: NodeConfig
  tr_NodeId :: string
  tr_NodeName :: string
  tr_ip_address :: string
  tr_portNum :: u16
  tr_sample_rate :: u32
  tr_numChannels :: byte
  tr_bytes_per_sample :: byte
  tr_freq :: real
  tr_working :: bool
  tr_attached :: bool
  tr_queue :: "Signal list"

definition Transmitter_new :: "NodeConfig \<Rightarrow> Transmitter result" where
  "Transmitter_new nc =
     (case nc_channels nc of
        [] \<Rightarrow> Inl (Out_of_range ''vector::_M_range_check'')
      | c # _ \<Rightarrow>
          Inr \<lparr>tr_node_config = nc, tr_NodeId = nc_id nc, tr_NodeName = nc_name nc,
               tr_ip_address = nc_ipAddress nc, tr_portNum = nc_portRxNum nc,
               tr_sample_rate = of_int (trunc_real (sr_rxRate (nc_sample_rate nc))),
               tr_numChannels = nc_numChannels nc, tr_bytes_per_sample = 4, tr_freq = uch_rxTuneFreq c,
               tr_working = True, tr_attached = False, tr_queue = []\<rparr>)"

text \<open>The comparator of the priority queue: the earlier a signal starts, the higher is its priority.\<close>

definition start_time :: "Signal \<Rightarrow> int" where
  "start_time s = sint (hdr_start (sig_header s))"

definition SignalTimestampCompare :: "Signal \<Rightarrow> Signal \<Rightarrow> bool" where
  "SignalTimestampCompare a b \<longleftrightarrow> start_time b < start_time a"

text \<open>The queue itself, \<open>tbb::concurrent_priority_queue\<close>, is a library. Its contents are a list in the order of
  addition, and its \<open>try_pop\<close> is a parameter of the operations below. Documented is that it fails on the empty queue
  only and otherwise removes one element, to which the comparator prefers none of those that stay; which of several such
  elements it takes is left open.\<close>

type_synonym signal_pop = "Signal list \<Rightarrow> (Signal \<times> Signal list) option"

definition pq_ok :: "signal_pop \<Rightarrow> bool" where
  "pq_ok try_pop \<longleftrightarrow>
     (\<forall>q. try_pop q = None \<longleftrightarrow> q = []) \<and>
     (\<forall>q s q'. try_pop q = Some (s, q') \<longrightarrow> mset q = add_mset s (mset q') \<and> (\<forall>t \<in> set q'. \<not> SignalTimestampCompare s t))"

text \<open>The age test of the loop: \<open>start < send_time - MS_2_NS(5)\<close> is evaluated in \<open>float\<close>.\<close>

definition too_old :: "int \<Rightarrow> int \<Rightarrow> bool" where
  "too_old start send_time \<longleftrightarrow> f32 start < f32 (f32 send_time - 5000000)"

datatype tr_step =
    Tr_step "byte list list" Transmitter iq_pool
  | Tr_exn cpp_exn
  | Tr_stop
  | Tr_fault

text \<open>One pass of \<open>Transmitter::Start\<close>. \<open>Tr_stop\<close>: the loop ends or waits for a signal. When
  \<open>Send\<close> throws, the handler dereferences the pointer that was moved into the call.\<close>

definition Transmitter_step :: "signal_pop \<Rightarrow> send_env \<Rightarrow> int \<Rightarrow> Transmitter \<Rightarrow> iq_pool \<Rightarrow> tr_step" where
  "Transmitter_step try_pop env send_time t pool =
     (if \<not> tr_working t then Tr_stop
      else
        case try_pop (tr_queue t) of
          None \<Rightarrow> Tr_stop
        | Some (sig, q) \<Rightarrow>
            let t1 = t\<lparr>tr_queue := q\<rparr>
            in if too_old (start_time sig) send_time
               then (case drop_signal sig pool of Inl e \<Rightarrow> Tr_exn e | Inr p \<Rightarrow> Tr_step [] t1 p)
               else (case Send env (unat (tr_portNum t)) pool (Some sig) (unat (tr_bytes_per_sample t)) of
                       Sent wire p \<Rightarrow> Tr_step wire t1 p
                     | Send_fault \<Rightarrow> Tr_fault
                     | Send_exn e \<Rightarrow> Tr_fault))"

text \<open>The loop of \<open>Transmitter::Start\<close> over as many passes as there are send times, with what each pass puts on the
  wire; None when a pass ends the loop, waits or faults.\<close>

fun Transmitter_run ::
  "signal_pop \<Rightarrow> (send_env \<times> int) list \<Rightarrow> Transmitter \<Rightarrow> iq_pool \<Rightarrow> (byte list list list \<times> Transmitter \<times> iq_pool) option" where
  "Transmitter_run try_pop [] t pool = Some ([], t, pool)"
| "Transmitter_run try_pop ((env, send_time) # es) t pool =
     (case Transmitter_step try_pop env send_time t pool of
        Tr_step wire t1 p1 \<Rightarrow>
          (case Transmitter_run try_pop es t1 p1 of
             Some (wires, t', p') \<Rightarrow> Some (wire # wires, t', p')
           | None \<Rightarrow> None)
      | _ \<Rightarrow> None)"

definition Transmitter_Add2Buff ::
  "signal_pop \<Rightarrow> Signal \<Rightarrow> Transmitter \<times> iq_pool \<Rightarrow> (Transmitter \<times> iq_pool) result" where
  "Transmitter_Add2Buff try_pop sig = (\<lambda>(t, pool).
     if QUEUE_CAP - 1 \<le> length (tr_queue t)
     then (case try_pop (tr_queue t) of
             None \<Rightarrow> rmap (\<lambda>p. (t, p)) (drop_signal sig pool)
           | Some (oldest, q) \<Rightarrow>
               rbind (drop_signal oldest pool) (\<lambda>p1.
                 rmap (\<lambda>p2. (t\<lparr>tr_queue := q\<rparr>, p2)) (drop_signal sig p1)))
     else Inr (t\<lparr>tr_queue := tr_queue t @ [sig]\<rparr>, pool))"

definition Transmitter_setSampleRate :: "u32 \<Rightarrow> Transmitter \<Rightarrow> Transmitter" where
  "Transmitter_setSampleRate rate t =
     t\<lparr>tr_sample_rate := rate,
       tr_node_config := (tr_node_config t)\<lparr>nc_sample_rate :=
         (nc_sample_rate (tr_node_config t))\<lparr>sr_rxRate := real (unat rate)\<rparr>\<rparr>\<rparr>"

definition Transmitter_setBytesPerSample :: "byte \<Rightarrow> Transmitter \<Rightarrow> Transmitter" where
  "Transmitter_setBytesPerSample b t = t\<lparr>tr_bytes_per_sample := b\<rparr>"

definition Transmitter_setAttachState :: "bool \<Rightarrow> Transmitter \<Rightarrow> Transmitter" where
  "Transmitter_setAttachState b t = t\<lparr>tr_attached := b\<rparr>"

definition Transmitter_updateFreq :: "real \<Rightarrow> Transmitter \<Rightarrow> Transmitter" where
  "Transmitter_updateFreq f t = t\<lparr>tr_freq := f\<rparr>"

section \<open>The age test\<close>

lemma bits_bounds: "0 < n \<Longrightarrow> 2 ^ (bits n - 1) \<le> n \<and> n < 2 ^ bits n"
proof (induction n rule: less_induct)
  case (less n)
  show ?case
  proof (cases "n = 1")
    case True
    then show ?thesis by (simp add: bits.simps)
  next
    case False
    then have h: "0 < n div 2" "n div 2 < n" using less.prems by auto
    have b: "bits n = Suc (bits (n div 2))" using less.prems bits.simps [of n] by simp
    from less.IH [OF h(2) h(1)] have i: "2 ^ (bits (n div 2) - 1) \<le> n div 2" "n div 2 < 2 ^ bits (n div 2)" by auto
    have "bits (n div 2) \<noteq> 0" using h(1) by (simp add: bits.simps [of "n div 2"])
    then have "2 ^ bits (n div 2) = 2 * (2 :: nat) ^ (bits (n div 2) - 1)" by (cases "bits (n div 2)") auto
    with i b show ?thesis by simp linarith
  qed
qed

lemma bits_le: "n < 2 ^ k \<Longrightarrow> bits n \<le> k"
proof (rule ccontr)
  assume a: "n < 2 ^ k" "\<not> bits n \<le> k"
  then have "0 < n" by (cases n) (auto simp: bits.simps)
  then have "2 ^ (bits n - 1) \<le> n" by (rule bits_bounds [THEN conjunct1])
  moreover have "(2 :: nat) ^ k \<le> 2 ^ (bits n - 1)" using a(2) by (intro power_increasing) auto
  ultimately show False using a(1) by linarith
qed

text \<open>Half a unit in the last place, and no carry past the next power of two.\<close>

lemma f32_nat_error:
  assumes m: "m < 2 ^ (24 + e)"
  shows "2 * f32_nat m \<le> 2 * m + 2 ^ e" and "2 * m \<le> 2 * f32_nat m + 2 ^ e" and "f32_nat m \<le> 2 ^ (24 + e)"
proof -
  have "2 * f32_nat m \<le> 2 * m + 2 ^ e \<and> 2 * m \<le> 2 * f32_nat m + 2 ^ e \<and> f32_nat m \<le> 2 ^ (24 + e)"
  proof (cases "m < 2 ^ 24")
    case True
    then show ?thesis using m by (simp add: f32_nat_def)
  next
    case False
    define k where "k = bits m - 24"
    define q where "q = m div 2 ^ k"
    define r where "r = m mod 2 ^ k"
    have "\<not> bits m \<le> 24" using False bits_bounds [of m] power_increasing [of "bits m" 24 "2 :: nat"] by auto
    then have "m < 2 ^ (24 + k)" using False bits_bounds [of m] by (simp add: k_def)
    then have q: "q < 2 ^ 24" unfolding q_def by (simp add: power_add less_mult_imp_div_less)
    have "bits m \<le> 24 + e" using m by (rule bits_le)
    then have ke: "(2 :: nat) ^ k \<le> 2 ^ e" unfolding k_def by (intro power_increasing) auto
    have mqr: "m = q * 2 ^ k + r" unfolding q_def r_def by (simp only: div_mult_mod_eq)
    have r: "r < 2 ^ k" unfolding r_def by simp
    have top: "q * 2 ^ k + 2 ^ k \<le> 2 ^ (24 + e)"
      using mult_le_mono [OF Suc_leI [OF q] ke] by (simp add: power_add)
    have f: "f32_nat m = (if 2 * r < 2 ^ k \<or> (2 * r = 2 ^ k \<and> even q) then q else q + 1) * 2 ^ k"
      using False unfolding f32_nat_def Let_def k_def [symmetric] q_def [symmetric] r_def [symmetric] by simp
    show ?thesis
    proof (cases "2 * r < 2 ^ k \<or> (2 * r = 2 ^ k \<and> even q)")
      case True
      then have "f32_nat m = q * 2 ^ k" "2 * r \<le> 2 ^ k" using f by auto
      with mqr r ke top show ?thesis by (intro conjI) linarith+
    next
      case False
      then have "f32_nat m = q * 2 ^ k + 2 ^ k" "2 ^ k \<le> 2 * r" using f by auto
      with mqr r ke top show ?thesis by (intro conjI) linarith+
    qed
  qed
  then show "2 * f32_nat m \<le> 2 * m + 2 ^ e" and "2 * m \<le> 2 * f32_nat m + 2 ^ e" and "f32_nat m \<le> 2 ^ (24 + e)"
    by auto
qed

lemma f32_of_nat: "f32 (int m) = int (f32_nat m)"
  by (simp add: f32_def)

lemma f32_minus: "f32 (- n) = - f32 n"
  by (cases "n = 0") (auto simp: f32_def f32_nat_def)

lemma f32_error:
  assumes "\<bar>n\<bar> < 2 ^ (24 + e)"
  shows "2 * (f32 n - n) \<le> 2 ^ e \<and> 2 * (n - f32 n) \<le> 2 ^ e"
proof -
  have pos: "2 * (f32 (int m) - int m) \<le> 2 ^ e \<and> 2 * (int m - f32 (int m)) \<le> 2 ^ e"
    if "int m < 2 ^ (24 + e)" for m
  proof -
    have "m < 2 ^ (24 + e)" using that by (simp only: of_nat_less_numeral_power_cancel_iff)
    from f32_nat_error(1,2) [OF this] have "int (2 * f32_nat m) \<le> int (2 * m + 2 ^ e)" "int (2 * m) \<le> int (2 * f32_nat m + 2 ^ e)"
      by (simp_all only: of_nat_le_iff)
    then show ?thesis by (simp add: f32_of_nat)
  qed
  show ?thesis
  proof (cases "0 \<le> n")
    case True
    then show ?thesis using pos [of "nat n"] assms by simp
  next
    case False
    then show ?thesis using pos [of "nat (- n)"] assms by (simp add: f32_minus)
  qed
qed

text \<open>How exact the age test of the sender is: below \<open>2 ^ (24 + e)\<close> nanoseconds of uptime it
  drops every signal that is more than 5 ms and \<open>3 * 2 ^ (e - 1)\<close> ns old, and no signal that is
  less than 5 ms minus that margin old; the margin doubles with every doubling of the uptime.\<close>

theorem too_old_margin:
  assumes "0 \<le> start" "start < 2 ^ (24 + e)" "0 \<le> now" "now < 2 ^ (24 + e)" "1 \<le> e"
  shows "(start < now - 5000000 - 3 * 2 ^ (e - 1) \<longrightarrow> too_old start now) \<and>
    (too_old start now \<longrightarrow> start < now - 5000000 + 3 * 2 ^ (e - 1))"
proof -
  define h where "h = (2 :: int) ^ (e - 1)"
  have e: "(2 :: int) ^ e = 2 * h" using assms(5) unfolding h_def by (cases e) auto
  have s: "2 * (f32 start - start) \<le> 2 ^ e" "2 * (start - f32 start) \<le> 2 ^ e"
    and n: "2 * (f32 now - now) \<le> 2 ^ e" "2 * (now - f32 now) \<le> 2 ^ e"
    using assms f32_error [of start e] f32_error [of now e] by auto
  have now: "nat now < 2 ^ (24 + e)" using assms(3,4) by (simp add: nat_less_iff)
  have "f32 now \<le> 2 ^ (24 + e)"
    using f32_nat_error(3) [OF now] f32_of_nat [of "nat now"] assms(3) by simp
  moreover have "0 \<le> f32 now" using assms(3) by (simp add: f32_def)
  moreover have "(2 :: int) ^ 24 \<le> 2 ^ (24 + e)" by (intro power_increasing) auto
  ultimately have "\<bar>f32 now - 5000000\<bar> < 2 ^ (24 + e)" by simp
  from f32_error [OF this] have d: "2 * (f32 (f32 now - 5000000) - (f32 now - 5000000)) \<le> 2 ^ e"
    "2 * (f32 now - 5000000 - f32 (f32 now - 5000000)) \<le> 2 ^ e" by auto
  define D where "D = f32 (f32 now - 5000000)"
  have "f32 start \<le> start + h" "start \<le> f32 start + h" "f32 now \<le> now + h" "now \<le> f32 now + h"
    "D \<le> f32 now - 5000000 + h" "f32 now - 5000000 \<le> D + h"
    using s n d unfolding e D_def [symmetric] by simp_all
  then show ?thesis unfolding too_old_def h_def [symmetric] D_def [symmetric] by (intro conjI impI) simp_all
qed

theorem too_old_margin_witness:
  "too_old 4000000000 4200000000 \<and> \<not> too_old 4199000000 4200000000"
  using too_old_margin [of 4000000000 8 4200000000] too_old_margin [of 4199000000 8 4200000000] by simp

text \<open>After 11.6 days of uptime a signal that is 30 ms old can still be sent, and one that is 2 ns
  old can be dropped.\<close>

lemma too_old_after_days:
  "\<not> too_old 999999990545535 1000000020545535 \<and> too_old 1000000020545535 1000000020545537"
  by (simp add: too_old_def f32_def f32_nat_def Let_def bits.simps)

section \<open>The order of transmission\<close>

lemma pq_ok_pop:
  assumes "pq_ok try_pop" "q \<noteq> []"
  obtains s q' where "try_pop q = Some (s, q')" "mset q = add_mset s (mset q')" "set q = insert s (set q')"
    "length q = Suc (length q')" "\<forall>t \<in> set q'. start_time s \<le> start_time t"
proof -
  obtain s q' where p: "try_pop q = Some (s, q')" using assms by (cases "try_pop q") (auto simp: pq_ok_def)
  then have m: "mset q = add_mset s (mset q')" "\<forall>t \<in> set q'. start_time s \<le> start_time t"
    using assms(1) by (auto simp: pq_ok_def SignalTimestampCompare_def not_less)
  then have "set q = insert s (set q')" "length q = Suc (length q')"
    by (metis set_mset_add_mset_insert set_mset_mset, metis size_add_mset size_mset)
  then show thesis using that p m by blast
qed

lemma drop_signal_ok: "sig_iq s \<noteq> None \<Longrightarrow> \<exists>p'. drop_signal s p = Inr p' \<and> available p' = Suc (available p)"
  by (auto simp: drop_signal_def release_def available_def)

text \<open>What a pass puts on the wire for the signal it takes: nothing when it is too old, else its fragments, whatever the
  pool.\<close>

definition pass_output :: "send_env \<Rightarrow> int \<Rightarrow> Transmitter \<Rightarrow> Signal \<Rightarrow> byte list list \<Rightarrow> bool" where
  "pass_output env send_time t s wire \<longleftrightarrow>
     (if too_old (start_time s) send_time then wire = []
      else \<forall>p. \<exists>p'. Send env (unat (tr_portNum t)) p (Some s) (unat (tr_bytes_per_sample t)) = Sent wire p')"

lemma Transmitter_step_takes:
  assumes "pq_ok try_pop" "tr_working t" "tr_portNum t \<noteq> 0" "tr_bytes_per_sample t \<noteq> 0"
    and "tr_queue t \<noteq> []" "\<forall>s \<in> set (tr_queue t). wf_signal s"
  obtains s q wire p' where "Transmitter_step try_pop env now t p = Tr_step wire (t\<lparr>tr_queue := q\<rparr>) p'"
    "mset (tr_queue t) = add_mset s (mset q)" "set (tr_queue t) = insert s (set q)" "length (tr_queue t) = Suc (length q)"
    "\<forall>r \<in> set q. start_time s \<le> start_time r" "pass_output env now t s wire" "available p' = Suc (available p)"
proof -
  obtain s q where q: "try_pop (tr_queue t) = Some (s, q)" "mset (tr_queue t) = add_mset s (mset q)"
    "set (tr_queue t) = insert s (set q)" "length (tr_queue t) = Suc (length q)" "\<forall>r \<in> set q. start_time s \<le> start_time r"
    by (rule pq_ok_pop [OF assms(1,5)])
  have wf: "wf_signal s" and iq: "sig_iq s \<noteq> None" using assms(6) q(3) by (auto simp: wf_signal_def)
  obtain cps tot where plan: "frag_plan (getSize s) = (cps, tot)" by (cases "frag_plan (getSize s)")
  obtain p1 where p1: "drop_signal s p = Inr p1" "available p1 = Suc (available p)" using drop_signal_ok [OF iq, of p] by blast
  let ?wire = "map (sent_frag env s ((sig_header s)\<lparr>hdr_total_frags := of_nat tot\<rparr>) cps tot) [0..<tot]"
  have port: "unat (tr_portNum t) \<noteq> 0" "unat (tr_bytes_per_sample t) \<noteq> 0" using assms(3,4) by (simp_all add: unat_eq_0)
  have send: "Send env (unat (tr_portNum t)) x (Some s) (unat (tr_bytes_per_sample t)) = Sent ?wire (release_buf 0 (the (sig_iq s)) x)" for x
    by (rule Send_good [OF wf port plan])
  show thesis
  proof (cases "too_old (start_time s) now")
    case True
    show thesis
      by (rule that [of "[]" q p1 s]) (use q p1 True assms(2) in \<open>simp_all add: Transmitter_step_def Let_def pass_output_def\<close>)
  next
    case False
    have "available (release_buf 0 (the (sig_iq s)) p) = Suc (available p)" by (simp add: release_buf_def available_def)
    then show thesis
      by (intro that [of ?wire q "release_buf 0 (the (sig_iq s)) p" s])
        (use q False assms(2) send in \<open>simp_all add: Transmitter_step_def Let_def pass_output_def\<close>)
  qed
qed

text \<open>C24. A transmitter sends in the order of the time stamps. While no signal is added, the loop of a working
  transmitter whose signals are well formed completes a pass for every signal: what it has
  taken is sorted by start time and makes up the queue together with what is left, nothing that is left starts
  earlier, each pass puts on the wire nothing when its signal is too old and else the fragments of that signal, and every
  pass returns one buffer to the pool.\<close>

theorem transmitter_sends_in_order:
  assumes "pq_ok try_pop" "tr_working t" "tr_portNum t \<noteq> 0" "tr_bytes_per_sample t \<noteq> 0"
    and "\<forall>s \<in> set (tr_queue t). wf_signal s" "length es \<le> length (tr_queue t)"
  shows "\<exists>taken wires q p'. Transmitter_run try_pop es t p = Some (wires, t\<lparr>tr_queue := q\<rparr>, p') \<and>
    length taken = length es \<and> mset taken + mset q = mset (tr_queue t) \<and>
    sorted (map start_time taken) \<and> (\<forall>s \<in> set taken. \<forall>r \<in> set q. start_time s \<le> start_time r) \<and>
    list_all2 (\<lambda>((env, now), s) wire. pass_output env now t s wire) (zip es taken) wires \<and>
    available p' = available p + length es"
  using assms(2-)
proof (induction es arbitrary: t p)
  case Nil
  then show ?case by (intro exI [of _ "[]"] exI [of _ "tr_queue t"]) simp
next
  case (Cons e es)
  obtain env now where e: "e = (env, now)" by (cases e)
  have ne: "tr_queue t \<noteq> []" using Cons.prems(5) by auto
  obtain s q wire p1 where st: "Transmitter_step try_pop env now t p = Tr_step wire (t\<lparr>tr_queue := q\<rparr>) p1"
    "mset (tr_queue t) = add_mset s (mset q)" "set (tr_queue t) = insert s (set q)" "length (tr_queue t) = Suc (length q)"
    "\<forall>r \<in> set q. start_time s \<le> start_time r" "pass_output env now t s wire" "available p1 = Suc (available p)"
    using Transmitter_step_takes [OF assms(1) Cons.prems(1-3) ne Cons.prems(4)] by metis
  have out: "pass_output env' now' (t\<lparr>tr_queue := q\<rparr>) = pass_output env' now' t" for env' now'
    by (simp add: pass_output_def fun_eq_iff)
  obtain taken wires q' p' where IH: "Transmitter_run try_pop es (t\<lparr>tr_queue := q\<rparr>) p1 = Some (wires, t\<lparr>tr_queue := q'\<rparr>, p')"
    "length taken = length es" "mset taken + mset q' = mset q" "sorted (map start_time taken)"
    "\<forall>s \<in> set taken. \<forall>r \<in> set q'. start_time s \<le> start_time r"
    "list_all2 (\<lambda>((env, now), s) wire. pass_output env now t s wire) (zip es taken) wires"
    "available p' = available p1 + length es"
    using Cons.IH [of "t\<lparr>tr_queue := q\<rparr>" p1] Cons.prems st(3,4) by (auto simp: out)
  have "set taken \<union> set q' = set q" by (metis IH(3) set_mset_mset set_mset_union)
  then have "\<forall>r \<in> set taken \<union> set q'. start_time s \<le> start_time r" using st(5) by simp
  then show ?case using st IH
    by (intro exI [of _ "s # taken"] exI [of _ "wire # wires"] exI [of _ q'] exI [of _ p']) (auto simp: e)
qed

section \<open>The contract of Add2Buff\<close>

text \<open>A sink for signals: adding one never fails, the queue stays within its bound, and the
  buffer of every signal is either in the queue or back in the pool.\<close>

locale signal_sink =
  fixes add :: "Signal \<Rightarrow> 's \<times> iq_pool \<Rightarrow> ('s \<times> iq_pool) result"
    and queued :: "'s \<Rightarrow> Signal list"
    and ready :: "'s \<Rightarrow> bool"
    and cap :: nat
  assumes add_ok: "ready s \<Longrightarrow> sig_iq x \<noteq> None \<Longrightarrow> (\<forall>y \<in> set (queued s). sig_iq y \<noteq> None) \<Longrightarrow>
    \<exists>s' p'. add x (s, p) = Inr (s', p') \<and> ready s' \<and>
      available p' + length (queued s') = Suc (available p + length (queued s)) \<and>
      (length (queued s) \<le> cap \<longrightarrow> length (queued s') \<le> cap) \<and>
      set (queued s') \<subseteq> insert x (set (queued s))"
begin

text \<open>Any number of signals added in a row.\<close>

fun add_all :: "Signal list \<Rightarrow> 's \<times> iq_pool \<Rightarrow> ('s \<times> iq_pool) result" where
  "add_all [] sp = Inr sp"
| "add_all (x # xs) sp = rbind (add x sp) (add_all xs)"

lemma add_all_ok:
  assumes "ready s" and "\<forall>x \<in> set xs. sig_iq x \<noteq> None" and "\<forall>y \<in> set (queued s). sig_iq y \<noteq> None"
    and "length (queued s) \<le> cap"
  shows "\<exists>s' p'. add_all xs (s, p) = Inr (s', p') \<and>
      available p' + length (queued s') = available p + length (queued s) + length xs \<and> length (queued s') \<le> cap"
  using assms
proof (induction xs arbitrary: s p)
  case (Cons x xs)
  obtain s1 p1 where a: "add x (s, p) = Inr (s1, p1)" "ready s1"
    "available p1 + length (queued s1) = Suc (available p + length (queued s))"
    "length (queued s1) \<le> cap" "set (queued s1) \<subseteq> insert x (set (queued s))"
    using add_ok [of s x p] Cons.prems by auto
  have "\<exists>s' p'. add_all xs (s1, p1) = Inr (s', p') \<and>
      available p' + length (queued s') = available p1 + length (queued s1) + length xs \<and> length (queued s') \<le> cap"
  proof (rule Cons.IH)
    show "\<forall>y \<in> set (queued s1). sig_iq y \<noteq> None" using a(5) Cons.prems(2,3) by (metis insert_iff list.set_intros(1) subsetD)
  qed (use Cons.prems a in auto)
  then show ?case using a by (auto simp: rbind_def)
qed simp

end

lemma Transmitter_Add2Buff_ok:
  assumes pop: "pq_ok try_pop" and x: "sig_iq x \<noteq> None" and q: "\<forall>y \<in> set (tr_queue t). sig_iq y \<noteq> None"
  shows "\<exists>t' p'. Transmitter_Add2Buff try_pop x (t, p) = Inr (t', p') \<and>
      available p' + length (tr_queue t') = Suc (available p + length (tr_queue t)) \<and>
      (length (tr_queue t) \<le> QUEUE_CAP - 1 \<longrightarrow> length (tr_queue t') \<le> QUEUE_CAP - 1) \<and>
      set (tr_queue t') \<subseteq> insert x (set (tr_queue t))"
proof (cases "QUEUE_CAP - 1 \<le> length (tr_queue t)")
  case True
  then have "tr_queue t \<noteq> []" by (auto simp: QUEUE_CAP_def)
  then obtain s q' where q': "try_pop (tr_queue t) = Some (s, q')" "set (tr_queue t) = insert s (set q')"
    "length (tr_queue t) = Suc (length q')"
    using pq_ok_pop [OF pop] by metis
  obtain p1 where p1: "drop_signal s p = Inr p1" "available p1 = Suc (available p)"
    using drop_signal_ok [of s p] q q'(2) by auto
  obtain p2 where p2: "drop_signal x p1 = Inr p2" "available p2 = Suc (available p1)"
    using drop_signal_ok [of x p1] x by auto
  show ?thesis using True q' p1 p2
    by (auto simp: Transmitter_Add2Buff_def rbind_def rmap_def)
next
  case False
  then show ?thesis by (auto simp: Transmitter_Add2Buff_def)
qed

text \<open>The state of this sink is the transmitter together with the \<open>try_pop\<close> of its queue.\<close>

definition sink_add ::
  "Signal \<Rightarrow> (signal_pop \<times> Transmitter) \<times> iq_pool \<Rightarrow> ((signal_pop \<times> Transmitter) \<times> iq_pool) result" where
  "sink_add x = (\<lambda>(s, p). rmap (\<lambda>(t, p'). ((fst s, t), p')) (Transmitter_Add2Buff (fst s) x (snd s, p)))"

interpretation tsink: signal_sink sink_add "\<lambda>s. tr_queue (snd s)" "\<lambda>s. pq_ok (fst s)" "QUEUE_CAP - 1"
proof
  fix s :: "signal_pop \<times> Transmitter" and x :: Signal and p
  assume "pq_ok (fst s)" "sig_iq x \<noteq> None" "\<forall>y \<in> set (tr_queue (snd s)). sig_iq y \<noteq> None"
  from Transmitter_Add2Buff_ok [OF this, of p] this(1)
  show "\<exists>s' p'. sink_add x (s, p) = Inr (s', p') \<and> pq_ok (fst s') \<and>
      available p' + length (tr_queue (snd s')) = Suc (available p + length (tr_queue (snd s))) \<and>
      (length (tr_queue (snd s)) \<le> QUEUE_CAP - 1 \<longrightarrow> length (tr_queue (snd s')) \<le> QUEUE_CAP - 1) \<and>
      set (tr_queue (snd s')) \<subseteq> insert x (set (tr_queue (snd s)))"
    by (auto simp: sink_add_def rmap_def)
qed

text \<open>The receiver's own queue, used while no callback is set.\<close>

lemma Receiver_Add2Buff_ok:
  assumes c: "\<not> rcv_hasCallback r" and x: "sig_iq x \<noteq> None" and q: "\<forall>y \<in> set (rcv_queue r). sig_iq y \<noteq> None"
  shows "\<exists>r' p'. rmap snd (Receiver_Add2Buff x (r, p)) = Inr (r', p') \<and> \<not> rcv_hasCallback r' \<and>
      available p' + length (rcv_queue r') = Suc (available p + length (rcv_queue r)) \<and>
      (length (rcv_queue r) \<le> QUEUE_CAP - 1 \<longrightarrow> length (rcv_queue r') \<le> QUEUE_CAP - 1) \<and>
      set (rcv_queue r') \<subseteq> insert x (set (rcv_queue r))"
proof (cases "QUEUE_CAP - 1 \<le> length (rcv_queue r)")
  case True
  then obtain s q' where sq: "rcv_queue r = s # q'" by (cases "rcv_queue r") (auto simp: QUEUE_CAP_def)
  obtain p1 where p1: "drop_signal s p = Inr p1" "available p1 = Suc (available p)"
    using drop_signal_ok [of s p] q sq by auto
  obtain p2 where p2: "drop_signal x p1 = Inr p2" "available p2 = Suc (available p1)"
    using drop_signal_ok [of x p1] x by auto
  show ?thesis using True sq p1 p2 c by (auto simp: Receiver_Add2Buff_def drop_oldest_def rbind_def rmap_def)
next
  case False
  then show ?thesis using c by (auto simp: Receiver_Add2Buff_def rmap_def)
qed

interpretation rsink: signal_sink "\<lambda>x rp. rmap snd (Receiver_Add2Buff x rp)" rcv_queue
    "\<lambda>r. \<not> rcv_hasCallback r" "QUEUE_CAP - 1"
  by unfold_locales (use Receiver_Add2Buff_ok in blast)

text \<open>C23. No buffer is lost between the channel and the sender: whatever signals are added to a
  transmitter, the calls succeed, its queue stays below its bound, and the buffers in the queue and
  in the pool together grow by exactly one for each signal.\<close>

theorem transmitter_queue_conserves:
  assumes "pq_ok try_pop" and "\<forall>x \<in> set xs. sig_iq x \<noteq> None" and "\<forall>y \<in> set (tr_queue t). sig_iq y \<noteq> None"
    and "length (tr_queue t) < QUEUE_CAP"
  shows "\<exists>t' p'. foldl (\<lambda>tp x. rbind tp (Transmitter_Add2Buff try_pop x)) (Inr (t, p)) xs = Inr (t', p') \<and>
      available p' + length (tr_queue t') = available p + length (tr_queue t) + length xs \<and>
      length (tr_queue t') < QUEUE_CAP"
proof -
  let ?add = "\<lambda>tp x. rbind tp (Transmitter_Add2Buff try_pop x)"
  have all: "tsink.add_all xs ((try_pop, fst tp), snd tp) = rmap (\<lambda>(t', p'). ((try_pop, t'), p')) (foldl ?add (Inr tp) xs)" for tp
  proof (induction xs arbitrary: tp)
    case (Cons x xs)
    have err: "foldl ?add (Inl e) xs = Inl e" for e by (induction xs) (simp_all add: rbind_def)
    have step: "sink_add x ((try_pop, fst tp), snd tp) = rmap (\<lambda>(t, p'). ((try_pop, t), p')) (Transmitter_Add2Buff try_pop x tp)"
      by (simp add: sink_add_def)
    show ?case
    proof (cases "Transmitter_Add2Buff try_pop x tp")
      case (Inl e)
      then show ?thesis using err step by (simp add: rbind_def rmap_def)
    next
      case (Inr tp')
      then show ?thesis using Cons [of tp'] step by (cases tp') (simp add: rbind_def rmap_def)
    qed
  qed (simp add: rmap_def split_beta)
  have "length (tr_queue t) \<le> QUEUE_CAP - 1" using assms(4) by simp
  then obtain s' p' where "tsink.add_all xs ((try_pop, t), p) = Inr (s', p')"
      "available p' + length (tr_queue (snd s')) = available p + length (tr_queue t) + length xs"
      "length (tr_queue (snd s')) \<le> QUEUE_CAP - 1"
    using tsink.add_all_ok [of "(try_pop, t)" xs p] assms by auto
  then show ?thesis using all [of "(t, p)"] by (auto simp: rmap_def QUEUE_CAP_def split: sum.splits)
qed

text \<open>A queue of this kind: among equal signals it takes the one added first.\<close>

fun pq_pop :: signal_pop where
  "pq_pop [] = None"
| "pq_pop (s # q) =
     (case pq_pop q of
        None \<Rightarrow> Some (s, [])
      | Some (t, q') \<Rightarrow> if SignalTimestampCompare s t then Some (t, s # q') else Some (s, q))"

lemma pq_pop_None: "pq_pop q = None \<longleftrightarrow> q = []"
  by (cases q) (auto split: option.splits prod.splits if_splits)

lemma pq_pop_Some:
  "pq_pop q = Some (s, q') \<Longrightarrow> mset q = add_mset s (mset q') \<and> (\<forall>t \<in> set q'. start_time s \<le> start_time t)"
proof (induction q arbitrary: s q')
  case (Cons a q)
  show ?case
  proof (cases "pq_pop q")
    case None
    then show ?thesis using Cons.prems by (auto simp: pq_pop_None)
  next
    case (Some x)
    obtain t q1 where x: "x = (t, q1)" by (cases x)
    note IH = Cons.IH [OF Some [unfolded x]]
    then have "set q = insert t (set q1)" by (metis set_mset_add_mset_insert set_mset_mset)
    with IH Some x Cons.prems show ?thesis
      by (auto simp: SignalTimestampCompare_def split: if_splits)
  qed
qed simp

lemma pq_ok_pq_pop: "pq_ok pq_pop"
  using pq_pop_None pq_pop_Some by (auto simp: pq_ok_def SignalTimestampCompare_def not_less)

definition example_transmitter :: Transmitter where
  "example_transmitter = \<lparr>tr_node_config = NodeConfig_new 0 0, tr_NodeId = ''b'', tr_NodeName = ''b'',
     tr_ip_address = ''127.0.0.1'', tr_portNum = 5000, tr_sample_rate = 1000000, tr_numChannels = 1,
     tr_bytes_per_sample = 4, tr_freq = 0, tr_working = True, tr_attached = True, tr_queue = []\<rparr>"

lemma zero_signal_iq: "sig_iq (zero_signal 1000) \<noteq> None"
  by (simp add: zero_signal_def Signal_new_def zero_Header_def)

theorem transmitter_queue_conserves_witness:
  "\<exists>t' p'. foldl (\<lambda>tp x. rbind tp (Transmitter_Add2Buff pq_pop x)) (Inr (example_transmitter, empty_pool 2))
      (replicate 600 (zero_signal 1000)) = Inr (t', p') \<and>
    available p' + length (tr_queue t') = 600 \<and> length (tr_queue t') < QUEUE_CAP"
proof -
  have "\<forall>x \<in> set (replicate 600 (zero_signal 1000)). sig_iq x \<noteq> None" using zero_signal_iq by simp
  moreover have "\<forall>y \<in> set (tr_queue example_transmitter). sig_iq y \<noteq> None" "length (tr_queue example_transmitter) < QUEUE_CAP"
    by (simp_all add: example_transmitter_def QUEUE_CAP_def)
  ultimately show ?thesis
    using transmitter_queue_conserves [OF pq_ok_pq_pop, of "replicate 600 (zero_signal 1000)" example_transmitter "empty_pool 2"]
    by (simp only: length_replicate) (simp add: example_transmitter_def available_def empty_pool_def)
qed

text \<open>Two bursts that were added in the wrong order; the loop sends the earlier one first.\<close>

definition burst_at :: "int \<Rightarrow> Signal" where
  "burst_at start = (zero_signal 1000)\<lparr>sig_header := (sig_header (zero_signal 1000))\<lparr>hdr_start := of_int start\<rparr>\<rparr>"

lemma burst_at_wf: "wf_signal (burst_at start)"
  by (simp add: wf_signal_def burst_at_def zero_signal_def Signal_new_def zero_Header_def getSize_def IQ_SIZE_def)

theorem transmitter_sends_in_order_witness:
  "\<exists>wires p'. Transmitter_run pq_pop [(example_env, 0)] (example_transmitter\<lparr>tr_queue := [burst_at 9, burst_at 7]\<rparr>) (empty_pool 2) =
      Some (wires, example_transmitter\<lparr>tr_queue := [burst_at 9]\<rparr>, p')"
proof -
  let ?t = "example_transmitter\<lparr>tr_queue := [burst_at 9, burst_at 7]\<rparr>"
  have st: "start_time (burst_at 9) = 9" "start_time (burst_at 7) = 7" by (simp_all add: start_time_def burst_at_def)
  obtain taken wires q p' where r: "Transmitter_run pq_pop [(example_env, 0)] ?t (empty_pool 2) = Some (wires, ?t\<lparr>tr_queue := q\<rparr>, p')"
    "length taken = length [(example_env, 0 :: int)]" "mset taken + mset q = mset (tr_queue ?t)"
    "\<forall>s \<in> set taken. \<forall>r \<in> set q. start_time s \<le> start_time r"
    using transmitter_sends_in_order [OF pq_ok_pq_pop, of ?t "[(example_env, 0)]" "empty_pool 2"] burst_at_wf
    by (auto simp: example_transmitter_def)
  obtain s where s: "taken = [s]" using r(2) by (cases taken) auto
  moreover obtain u where u: "q = [u]" using arg_cong [OF r(3), of size] s by (cases q) auto
  ultimately have "{#s, u#} = {#burst_at 9, burst_at 7#}" "start_time s \<le> start_time u" using r(3,4) by (auto simp: add_mset_commute)
  then have "s = burst_at 7 \<and> u = burst_at 9" using st by (auto simp: add_eq_conv_ex)
  then show ?thesis using r(1) u by (simp del: Transmitter_run.simps)
qed

end
