(* ===== verification/Path_Loss.thy ===== *)
theory Path_Loss
  imports Chem_Common
begin

text \<open>
  The path loss models: free space and two-ray of \<open>src/chem/dsp/channel.cpp\<close>, 3GPP TR 38.901,
  Okumura-Hata and Longley-Rice of \<open>include/chem/channel_models/\<close>. The formulas are
  translated operation by operation over floating-point values with infinities and NaN
  (rounding and signed zeros apart), so what a model returns for a zero distance, an
  infinite coordinate or a refractivity outside the physical range is part of the model.
  The random number a call draws is an argument.
\<close>

section \<open>Arithmetic\<close>

text \<open>The sign of a value that is not NaN.\<close>

fun fp_sgn :: "fp \<Rightarrow> real" where
  "fp_sgn (Fin a) = sgn a"
| "fp_sgn PInf = 1"
| "fp_sgn NInf = - 1"
| "fp_sgn NaN = 0"

definition fp_inf :: "real \<Rightarrow> fp" where
  "fp_inf s = (if 0 < s then PInf else if s < 0 then NInf else NaN)"

fun fp_mul :: "fp \<Rightarrow> fp \<Rightarrow> fp" where
  "fp_mul (Fin a) (Fin b) = Fin (a * b)"
| "fp_mul NaN _ = NaN"
| "fp_mul _ NaN = NaN"
| "fp_mul x y = fp_inf (fp_sgn x * fp_sgn y)"

fun fp_div :: "fp \<Rightarrow> fp \<Rightarrow> fp" where
  "fp_div (Fin a) (Fin b) = (if b = 0 then fp_inf a else Fin (a / b))"
| "fp_div NaN _ = NaN"
| "fp_div _ NaN = NaN"
| "fp_div (Fin a) _ = Fin 0"
| "fp_div x (Fin b) = fp_inf (fp_sgn x * (if b < 0 then - 1 else 1))"
| "fp_div _ _ = NaN"

fun fp_sqrt :: "fp \<Rightarrow> fp" where
  "fp_sqrt (Fin a) = (if a < 0 then NaN else Fin (sqrt a))"
| "fp_sqrt PInf = PInf"
| "fp_sqrt _ = NaN"

fun fp_log10 :: "fp \<Rightarrow> fp" where
  "fp_log10 (Fin a) = (if 0 < a then Fin (log 10 a) else if a = 0 then NInf else NaN)"
| "fp_log10 PInf = PInf"
| "fp_log10 _ = NaN"

fun fp_exp :: "fp \<Rightarrow> fp" where
  "fp_exp (Fin a) = Fin (exp a)"
| "fp_exp PInf = PInf"
| "fp_exp NInf = Fin 0"
| "fp_exp NaN = NaN"

fun fp_cos :: "fp \<Rightarrow> fp" where
  "fp_cos (Fin a) = Fin (cos a)"
| "fp_cos _ = NaN"

definition fp_le :: "fp \<Rightarrow> fp \<Rightarrow> bool" where
  "fp_le a b = (fp_less a b \<or> fp_eq a b)"

definition fp_clamp :: "fp \<Rightarrow> fp \<Rightarrow> fp \<Rightarrow> fp" where
  "fp_clamp v lo hi = (if fp_less v lo then lo else if fp_less hi v then hi else v)"

definition fp_sq :: "fp \<Rightarrow> fp" where
  "fp_sq x = fp_mul x x"

lemma fp_le_Fin [simp]: "fp_le (Fin a) (Fin b) = (a \<le> b)"
  by (auto simp: fp_le_def)

lemma fp_sq_Fin [simp]: "fp_sq (Fin a) = Fin (a * a)"
  by (simp add: fp_sq_def)

lemma fp_clamp_Fin [simp]:
  "fp_clamp (Fin v) (Fin lo) (Fin hi) = Fin (if v < lo then lo else if hi < v then hi else v)"
  by (simp add: fp_clamp_def)

section \<open>Constants\<close>

definition PI_C :: real where "PI_C = 314159265 / 100000000"
definition SPEED_OF_LIGHT :: real where "SPEED_OF_LIGHT = 299792458"
definition EARTH_RADIUS :: real where "EARTH_RADIUS = 6371000"
definition FSPL_CONSTANT :: real where "FSPL_CONSTANT = - 14755 / 100"

section \<open>Shadowing\<close>

text \<open>Every model adds a normal sample when the standard deviation is positive.\<close>

definition add_shadowing :: "fp \<Rightarrow> fp \<Rightarrow> fp \<Rightarrow> fp" where
  "add_shadowing shadowing_std rnd pl = (if fp_less (Fin 0) shadowing_std then fp_add pl rnd else pl)"

section \<open>Free space\<close>

definition calc_fspl :: "fp \<Rightarrow> fp \<Rightarrow> fp \<Rightarrow> fp \<Rightarrow> fp" where
  "calc_fspl distance_m frequency_hz shadowing_std rnd =
     add_shadowing shadowing_std rnd
       (fp_add (fp_add (fp_mul (Fin 20) (fp_log10 frequency_hz))
                       (fp_mul (Fin 20) (fp_log10 (fp_add distance_m (Fin LOG_SAFE_GUARD)))))
               (Fin FSPL_CONSTANT))"

section \<open>Two-ray ground reflection\<close>

definition calc_2ray :: "fp \<Rightarrow> fp \<Rightarrow> fp \<Rightarrow> fp \<Rightarrow> fp \<Rightarrow> fp \<Rightarrow> fp \<Rightarrow> fp" where
  "calc_2ray distance_m frequency_hz tx_height rx_height ground_coeff shadowing_std rnd =
     (let d = fp_max (Fin 0) distance_m;
          ht = fp_max (Fin (1 / 100)) tx_height;
          hr = fp_max (Fin (1 / 100)) rx_height;
          d1 = fp_sqrt (fp_add (fp_mul d d) (fp_sq (fp_sub ht hr)));
          d2 = fp_sqrt (fp_add (fp_mul d d) (fp_sq (fp_add ht hr)));
          gamma = (if isfinite ground_coeff then fp_clamp ground_coeff (Fin (- 1)) (Fin 1) else Fin (- 1));
          pl =
            (if isfinite frequency_hz \<and> fp_less (Fin 0) frequency_hz then
               let lambda = fp_div (Fin SPEED_OF_LIGHT) frequency_hz;
                   k = fp_div (Fin (2 * PI_C)) (fp_max (Fin (1 / 10 ^ 12)) lambda);
                   phase = fp_mul k (fp_sub d2 d1);
                   a = fp_div (Fin 1) (fp_max (Fin (1 / 10 ^ 12)) d1);
                   b = fp_div gamma (fp_max (Fin (1 / 10 ^ 12)) d2);
                   e_mag2 = fp_max (Fin (1 / 10 ^ 20))
                     (fp_add (fp_add (fp_mul a a) (fp_mul b b))
                             (fp_mul (fp_mul (fp_mul (Fin 2) a) b) (fp_cos phase)));
                   pl_lin = fp_div (fp_sq (fp_div (Fin (4 * PI_C)) lambda)) e_mag2
               in fp_mul (Fin 10) (fp_log10 (fp_max (Fin (1 / 10 ^ 20)) pl_lin))
             else Fin 0)
      in add_shadowing shadowing_std rnd pl)"

section \<open>3GPP TR 38.901\<close>

datatype PropagationCondition = LOS | NLOS

definition los_probability :: "string \<Rightarrow> fp \<Rightarrow> fp" where
  "los_probability scenario distance =
     (let d2d = fp_max (Fin 1) distance;
          urban = (\<lambda>c. if fp_le d2d (Fin 18) then Fin 1
                       else fp_add (fp_mul (fp_div (Fin 18) d2d)
                                           (fp_sub (Fin 1) (fp_exp (fp_div (fp_neg d2d) (Fin c)))))
                                   (fp_exp (fp_div (fp_neg d2d) (Fin c))))
      in if scenario = ''RMa'' then
           if fp_le d2d (Fin 10) then Fin 1
           else fp_exp (fp_div (fp_neg (fp_sub d2d (Fin 10))) (Fin 1000))
         else if scenario = ''UMa'' then urban 63
         else if scenario = ''UMi-StreetCanyon'' then urban 36
         else Fin 0)"

definition get_propagation_condition :: "string \<Rightarrow> fp \<Rightarrow> real \<Rightarrow> PropagationCondition" where
  "get_propagation_condition scenario distance u =
     (if fp_less (Fin u) (los_probability scenario distance) then LOS else NLOS)"

text \<open>The line-of-sight formula at three-dimensional distance \<open>d3\<close>; \<open>5 powr 1.72\<close> is the
  building height term.\<close>

definition rma_pl1 :: "fp \<Rightarrow> fp \<Rightarrow> fp" where
  "rma_pl1 d3 fc =
     (let h172 = 5 powr (172 / 100)
      in fp_add
           (fp_sub
              (fp_add (fp_mul (Fin 20) (fp_log10 (fp_div (fp_mul (fp_mul (Fin (40 * PI_C)) d3) fc) (Fin 3))))
                      (fp_mul (Fin (min (3 / 100 * h172) 10)) (fp_log10 d3)))
              (Fin (min (44 / 1000 * h172) (1477 / 100))))
           (fp_mul (Fin (2 / 1000 * log 10 5)) d3))"

definition calculate_path_loss_rma_los :: "fp \<Rightarrow> fp \<Rightarrow> fp \<Rightarrow> fp \<Rightarrow> fp \<Rightarrow> fp" where
  "calculate_path_loss_rma_los dist_3d dist_2d fc ue_height bs_height =
     (let hBS = fp_max (Fin 1) bs_height; hUT = fp_max (Fin 1) ue_height;
          d3D = fp_max (Fin 1) dist_3d; d2D = fp_max (Fin 1) dist_2d;
          d_BP = fp_div (fp_mul (fp_mul (fp_mul (Fin (2 * PI_C)) hBS) hUT) (fp_mul fc (Fin (10 ^ 9))))
                        (Fin SPEED_OF_LIGHT)
      in if fp_le d2D d_BP then rma_pl1 d3D fc
         else
           let d3D_BP = fp_sqrt (fp_add (fp_mul d_BP d_BP) (fp_sq (fp_sub hBS hUT)))
           in fp_add (rma_pl1 d3D_BP fc) (fp_mul (Fin 40) (fp_log10 (fp_div d3D d3D_BP))))"

definition calculate_path_loss_rma :: "fp \<Rightarrow> fp \<Rightarrow> fp \<Rightarrow> fp \<Rightarrow> fp \<Rightarrow> PropagationCondition \<Rightarrow> fp" where
  "calculate_path_loss_rma dist_3d dist_2d fc ue_height bs_height cond =
     (case cond of
        LOS \<Rightarrow> calculate_path_loss_rma_los dist_3d dist_2d fc ue_height bs_height
      | NLOS \<Rightarrow>
          let hBS = fp_max (Fin 1) bs_height; hUT = fp_max (Fin 1) ue_height;
              d3D = fp_max (Fin 1) dist_3d;
              pl_nlos =
                fp_sub
                  (fp_add
                     (fp_add
                        (fp_sub (Fin (16104 / 100 - 71 / 10 * log 10 20 + 75 / 10 * log 10 5))
                                (fp_mul (fp_sub (Fin (2437 / 100)) (fp_mul (Fin (37 / 10)) (fp_sq (fp_div (Fin 5) hBS))))
                                        (fp_log10 hBS)))
                        (fp_mul (fp_sub (Fin (4342 / 100)) (fp_mul (Fin (31 / 10)) (fp_log10 hBS)))
                                (fp_sub (fp_log10 d3D) (Fin 3))))
                     (fp_mul (Fin 20) (fp_log10 fc)))
                  (fp_sub (fp_mul (Fin (32 / 10)) (fp_sq (fp_log10 (fp_mul (Fin (1175 / 100)) hUT))))
                          (Fin (497 / 100)))
          in fp_max pl_nlos (calculate_path_loss_rma_los dist_3d dist_2d fc ue_height bs_height))"

definition calculate_path_loss_uma :: "fp \<Rightarrow> fp \<Rightarrow> fp \<Rightarrow> PropagationCondition \<Rightarrow> fp" where
  "calculate_path_loss_uma dist_3d freq_ghz ue_height cond =
     (case cond of
        LOS \<Rightarrow> Fin (28 + 22 * log 10 (LOG_GUARD dist_3d) + 20 * log 10 (LOG_GUARD freq_ghz))
      | NLOS \<Rightarrow> fp_sub (Fin (1354 / 100 + 3908 / 100 * log 10 (LOG_GUARD dist_3d) +
                              20 * log 10 (LOG_GUARD freq_ghz)))
                       (fp_mul (Fin (6 / 10)) (fp_sub ue_height (Fin (3 / 2)))))"

definition calculate_path_loss_umi :: "fp \<Rightarrow> fp \<Rightarrow> fp \<Rightarrow> PropagationCondition \<Rightarrow> fp" where
  "calculate_path_loss_umi dist_3d freq_ghz ue_height cond =
     (case cond of
        LOS \<Rightarrow> Fin (324 / 10 + 21 * log 10 (LOG_GUARD dist_3d) + 20 * log 10 (LOG_GUARD freq_ghz))
      | NLOS \<Rightarrow> fp_sub (Fin (353 / 10 * log 10 (LOG_GUARD dist_3d) + 224 / 10 +
                              213 / 10 * log 10 (LOG_GUARD freq_ghz)))
                       (fp_mul (Fin (3 / 10)) (fp_sub ue_height (Fin (3 / 2)))))"

definition tr_38_901_path_loss :: "string \<Rightarrow> fp \<Rightarrow> fp \<Rightarrow> fp \<Rightarrow> fp \<Rightarrow> real \<Rightarrow> fp result" where
  "tr_38_901_path_loss scenario distance freq_ghz ue_height bs_height u =
     (let cond = get_propagation_condition scenario distance u;
          dist_3d = fp_sqrt (fp_add (fp_mul distance distance) (fp_sq (fp_sub bs_height ue_height)))
      in if scenario = ''RMa'' then Inr (calculate_path_loss_rma dist_3d distance freq_ghz ue_height bs_height cond)
         else if scenario = ''UMa'' then Inr (calculate_path_loss_uma dist_3d freq_ghz ue_height cond)
         else if scenario = ''UMi-StreetCanyon''
              then Inr (calculate_path_loss_umi dist_3d freq_ghz ue_height cond)
         else Inl (Invalid_argument ''Unknown scenario for 3GPP TR 38.901 model''))"

text \<open>The caller swallows the exception and goes on with 0 dB.\<close>

definition calc_3gpp_38_901 ::
  "fp \<Rightarrow> fp \<Rightarrow> fp \<Rightarrow> fp \<Rightarrow> string \<Rightarrow> fp \<Rightarrow> real \<Rightarrow> fp \<Rightarrow> fp" where
  "calc_3gpp_38_901 distance_m frequency_hz ue_height bs_height scenario shadowing_std u rnd =
     add_shadowing shadowing_std rnd
       (if isfinite frequency_hz \<and> fp_less (Fin 0) frequency_hz then
          (case tr_38_901_path_loss scenario distance_m (fp_div frequency_hz (Fin (10 ^ 9))) ue_height bs_height u of
             Inr pl \<Rightarrow> pl
           | Inl _ \<Rightarrow> Fin 0)
        else Fin 0)"

section \<open>Okumura-Hata\<close>

datatype Environment = URBAN | SUBURBAN | OPEN

definition EnvironmentFromString :: "string \<Rightarrow> Environment" where
  "EnvironmentFromString env =
     (if env = ''URBAN'' then URBAN else if env = ''SUBURBAN'' then SUBURBAN
      else if env = ''OPEN'' then OPEN else URBAN)"

fun EnvironmentToString :: "Environment \<Rightarrow> string" where
  "EnvironmentToString URBAN = ''URBAN''"
| "EnvironmentToString SUBURBAN = ''SUBURBAN''"
| "EnvironmentToString OPEN = ''OPEN''"

definition mobile_correction :: "fp \<Rightarrow> fp \<Rightarrow> fp" where
  "mobile_correction freq_mhz h_ms =
     (let log_fc = fp_log10 (fp_max (Fin 1) freq_mhz)
      in fp_sub (fp_mul (fp_sub (fp_mul (Fin (11 / 10)) log_fc) (Fin (7 / 10))) h_ms)
                (fp_sub (fp_mul (Fin (156 / 100)) log_fc) (Fin (8 / 10))))"

definition calculate_urban :: "fp \<Rightarrow> fp \<Rightarrow> fp \<Rightarrow> fp \<Rightarrow> fp" where
  "calculate_urban freq_mhz dist_km h_bs h_ms =
     (let fc = fp_clamp freq_mhz (Fin 150) (Fin 1500);
          d = fp_max (Fin (1 / 10)) dist_km;
          hb = fp_clamp h_bs (Fin 1) (Fin 200);
          hm = fp_clamp h_ms (Fin 1) (Fin 10);
          log_fc = fp_log10 fc;
          a_hm = mobile_correction fc hm
      in fp_add
           (fp_sub
              (fp_sub (fp_add (Fin (6955 / 100)) (fp_mul (Fin (2616 / 100)) log_fc))
                      (fp_mul (Fin (1382 / 100)) (fp_log10 hb)))
              a_hm)
           (fp_mul (fp_sub (Fin (449 / 10)) (fp_mul (Fin (655 / 100)) (fp_log10 hb))) (fp_log10 d)))"

definition hata_path_loss :: "fp \<Rightarrow> fp \<Rightarrow> fp \<Rightarrow> fp \<Rightarrow> Environment \<Rightarrow> fp" where
  "hata_path_loss freq_hz dist_m h_bs h_ms env =
     (let freq_mhz = fp_div freq_hz (Fin (10 ^ 6));
          dist_km = fp_div dist_m (Fin 1000);
          pl = calculate_urban freq_mhz dist_km h_bs h_ms
      in case env of
           SUBURBAN \<Rightarrow>
             let log_ratio = fp_log10 (fp_div freq_mhz (Fin 28))
             in fp_sub pl (fp_add (fp_mul (fp_mul (Fin 2) log_ratio) log_ratio) (Fin (54 / 10)))
         | OPEN \<Rightarrow>
             let log_fc = fp_log10 freq_mhz
             in fp_sub pl (fp_add (fp_sub (fp_mul (fp_mul (Fin (478 / 100)) log_fc) log_fc)
                                          (fp_mul (Fin (1833 / 100)) log_fc))
                                  (Fin (4094 / 100)))
         | URBAN \<Rightarrow> pl)"

definition calc_okumura_hata ::
  "fp \<Rightarrow> fp \<Rightarrow> fp \<Rightarrow> fp \<Rightarrow> string \<Rightarrow> fp \<Rightarrow> fp \<Rightarrow> fp" where
  "calc_okumura_hata distance_m frequency_hz bs_height ms_height environment shadowing_std rnd =
     add_shadowing shadowing_std rnd
       (if isfinite frequency_hz \<and> fp_less (Fin 0) frequency_hz
        then hata_path_loss frequency_hz distance_m bs_height ms_height (EnvironmentFromString environment)
        else Fin 0)"

section \<open>Longley-Rice\<close>

record ITMParams =
  itm_freq_hz :: fp
  itm_tx_height_m :: fp
  itm_rx_height_m :: fp
  itm_refractivity :: fp
  itm_ground_conductivity :: fp
  itm_ground_permittivity :: fp
  itm_climate :: int

definition effective_earth_radius_factor :: "fp \<Rightarrow> fp" where
  "effective_earth_radius_factor N_s =
     fp_div (Fin 1) (fp_sub (Fin 1) (fp_mul (Fin (4665 / 100000)) (fp_exp (fp_mul (Fin (5577 / 1000000)) N_s))))"

definition horizon_distance :: "fp \<Rightarrow> fp \<Rightarrow> fp" where
  "horizon_distance h k_factor =
     fp_sqrt (fp_mul (fp_mul (fp_mul (Fin 2) k_factor) (Fin EARTH_RADIUS)) (fp_max (Fin (1 / 100)) h))"

definition knife_edge_loss :: "fp \<Rightarrow> fp" where
  "knife_edge_loss v =
     (if fp_le v (Fin (- 78 / 100)) then Fin 0
      else if fp_less v (Fin 0)
      then fp_sub (fp_add (Fin (602 / 100)) (fp_mul (Fin (911 / 100)) v)) (fp_mul (fp_mul (Fin (127 / 100)) v) v)
      else fp_add (fp_add (Fin (602 / 100)) (fp_mul (Fin 9) v)) (fp_mul (fp_mul (Fin (165 / 100)) v) v))"

definition diffraction_loss :: "fp \<Rightarrow> fp \<Rightarrow> ITMParams \<Rightarrow> fp \<Rightarrow> fp" where
  "diffraction_loss dist_m freq_hz params k_factor =
     (let lambda = fp_div (Fin SPEED_OF_LIGHT) freq_hz;
          a_e = fp_mul k_factor (Fin EARTH_RADIUS);
          d_los = fp_add (horizon_distance (itm_tx_height_m params) k_factor)
                         (horizon_distance (itm_rx_height_m params) k_factor)
      in if fp_le dist_m d_los then Fin 0
         else
           let d_beyond = fp_sub dist_m d_los;
               h_eff = fp_div (fp_mul d_beyond d_beyond) (fp_mul (Fin 2) a_e);
               d_eff = fp_div (fp_mul d_los d_beyond) (fp_max (Fin 1) (fp_add d_los d_beyond));
               v = fp_mul h_eff (fp_sqrt (fp_div (Fin 2) (fp_mul lambda d_eff)))
           in knife_edge_loss v)"

definition troposcatter_loss :: "fp \<Rightarrow> fp \<Rightarrow> ITMParams \<Rightarrow> fp \<Rightarrow> fp" where
  "troposcatter_loss dist_m freq_hz params k_factor =
     (let freq_mhz = fp_div freq_hz (Fin (10 ^ 6));
          dist_km = fp_div dist_m (Fin 1000);
          a_e = fp_mul k_factor (Fin EARTH_RADIUS);
          theta_s = fp_sub (fp_sub (fp_div dist_m a_e)
                                   (fp_div (itm_tx_height_m params) (fp_max (Fin 1) dist_m)))
                           (fp_div (itm_rx_height_m params) (fp_max (Fin 1) dist_m))
      in if fp_le theta_s (Fin 0) then Fin 0
         else
           let theta_deg = fp_mul theta_s (Fin (180 / PI_C));
               freq_ghz = fp_div freq_mhz (Fin 1000)
           in fp_sub
                (fp_add
                   (fp_add
                      (fp_add (Fin (1901 / 10)) (fp_mul (Fin 20) (fp_log10 (fp_max (Fin (1 / 1000)) freq_ghz))))
                      (fp_mul (Fin 20) (fp_log10 (fp_max (Fin (1 / 100)) dist_km))))
                   (fp_mul (Fin (573 / 1000)) theta_deg))
                (fp_mul (Fin (15 / 100)) (itm_refractivity params)))"

definition itm_path_loss :: "fp \<Rightarrow> ITMParams \<Rightarrow> fp" where
  "itm_path_loss dist_m params =
     (let d = fp_max (Fin 1) dist_m;
          freq = fp_max (Fin (10 ^ 6)) (itm_freq_hz params);
          k_factor = effective_earth_radius_factor (itm_refractivity params);
          fspl = fp_add (fp_add (fp_mul (Fin 20) (fp_log10 d)) (fp_mul (Fin 20) (fp_log10 freq)))
                        (Fin FSPL_CONSTANT);
          d_los = fp_add (horizon_distance (itm_tx_height_m params) k_factor)
                         (horizon_distance (itm_rx_height_m params) k_factor)
      in if fp_le d d_los then fspl
         else fp_add fspl (fp_min (diffraction_loss d freq params k_factor)
                                  (troposcatter_loss d freq params k_factor)))"

definition calc_longley_rice ::
  "fp \<Rightarrow> fp \<Rightarrow> fp \<Rightarrow> fp \<Rightarrow> fp \<Rightarrow> fp \<Rightarrow> fp \<Rightarrow> int \<Rightarrow> fp \<Rightarrow> fp \<Rightarrow> fp" where
  "calc_longley_rice distance_m frequency_hz tx_height rx_height refractivity ground_conductivity
     ground_permittivity climate_zone shadowing_std rnd =
     add_shadowing shadowing_std rnd
       (if isfinite frequency_hz \<and> fp_less (Fin 0) frequency_hz then
          itm_path_loss distance_m
            \<lparr>itm_freq_hz = frequency_hz, itm_tx_height_m = fp_max (Fin (1 / 100)) tx_height,
             itm_rx_height_m = fp_max (Fin (1 / 100)) rx_height, itm_refractivity = refractivity,
             itm_ground_conductivity = ground_conductivity,
             itm_ground_permittivity = ground_permittivity,
             itm_climate = clamp_int climate_zone 1 7\<rparr>
        else Fin 0)"

section \<open>Properties\<close>

lemma add_shadowing_off [simp]: "add_shadowing (Fin 0) rnd pl = pl"
  by (simp add: add_shadowing_def)

text \<open>Free-space loss of a link is finite for every non-negative distance, grows with the
  distance and with the frequency, and doubling either adds \<open>20 log10 2\<close> dB (the guard in the
  logarithm counted with the distance).\<close>

theorem calc_fspl_monotone:
  assumes "0 \<le> d" and "d \<le> d'" and "0 < f" and "f \<le> f'"
  shows "\<exists>l l'. calc_fspl (Fin d) (Fin f) (Fin 0) rnd = Fin l \<and>
    calc_fspl (Fin d') (Fin f') (Fin 0) rnd = Fin l' \<and> l \<le> l' \<and>
    calc_fspl (Fin d) (Fin (2 * f)) (Fin 0) rnd = Fin (l + 20 * log 10 2) \<and>
    calc_fspl (Fin (2 * d + LOG_SAFE_GUARD)) (Fin f) (Fin 0) rnd = Fin (l + 20 * log 10 2)"
proof -
  have g: "0 < LOG_SAFE_GUARD" by (simp add: LOG_SAFE_GUARD_def)
  then have p: "0 < d + LOG_SAFE_GUARD" "0 < d' + LOG_SAFE_GUARD"
    "0 < 2 * d + LOG_SAFE_GUARD + LOG_SAFE_GUARD" using assms(1,2) by linarith+
  have e: "calc_fspl (Fin x) (Fin y) (Fin 0) rnd =
      Fin (20 * log 10 y + 20 * log 10 (x + LOG_SAFE_GUARD) + FSPL_CONSTANT)"
    if "0 < y" "0 < x + LOG_SAFE_GUARD" for x y
    using that by (simp add: calc_fspl_def)
  have m: "log 10 f \<le> log 10 f'" "log 10 (d + LOG_SAFE_GUARD) \<le> log 10 (d' + LOG_SAFE_GUARD)"
    using assms p by simp_all
  have two: "log 10 (2 * x) = log 10 2 + log 10 x" if "0 < x" for x :: real
    using that by (simp add: log_mult)
  have dbl: "log 10 (2 * d + LOG_SAFE_GUARD + LOG_SAFE_GUARD) = log 10 2 + log 10 (d + LOG_SAFE_GUARD)"
    "log 10 (2 * f) = log 10 2 + log 10 f"
    using two [OF p(1)] two [OF assms(3)] by (simp_all add: algebra_simps)
  have "20 * log 10 f + 20 * log 10 (d + LOG_SAFE_GUARD) \<le>
      20 * log 10 f' + 20 * log 10 (d' + LOG_SAFE_GUARD)" using m by linarith
  then show ?thesis
    using assms p dbl by (simp add: e)
qed

theorem calc_fspl_monotone_witness:
  "\<exists>l l'. calc_fspl (Fin 100) (Fin 3500000000) (Fin 0) NaN = Fin l \<and>
    calc_fspl (Fin 200) (Fin 3500000000) (Fin 0) NaN = Fin l' \<and> l \<le> l'"
  using calc_fspl_monotone [of 100 200 3500000000 3500000000 NaN] by auto

lemma convex_bounds:
  fixes r e :: real
  assumes "0 \<le> r" and "r \<le> 1" and "0 \<le> e" and "e \<le> 1"
  shows "0 \<le> r * (1 - e) + e \<and> r * (1 - e) + e \<le> 1"
proof -
  have "0 \<le> r * (1 - e)" using assms by (intro mult_nonneg_nonneg) auto
  moreover have "r * (1 - e) \<le> 1 * (1 - e)" using assms by (intro mult_right_mono) auto
  ultimately show ?thesis using assms(3) by auto
qed

lemma los_urban_bounds:
  fixes d c :: real
  assumes "18 < d" and "0 < c"
  shows "0 \<le> 18 / d * (1 - exp (- d / c)) + exp (- d / c) \<and>
    18 / d * (1 - exp (- d / c)) + exp (- d / c) \<le> 1"
  using assms by (intro convex_bounds) auto

text \<open>The line-of-sight probability of TR 38.901 is a probability for every scenario name
  and every distance, non-finite ones included.\<close>

theorem los_probability_bounds:
  "\<exists>p. los_probability scenario distance = Fin p \<and> 0 \<le> p \<and> p \<le> 1"
proof (cases "fp_max (Fin 1) distance")
  case (Fin d)
  then have "1 \<le> d" by (cases distance) (auto simp: fp_max_def split: if_splits)
  with Fin los_urban_bounds [of d 63] los_urban_bounds [of d 36] show ?thesis
    by (cases "d \<le> 18"; cases "d \<le> 10") (auto simp: los_probability_def Let_def)
next
  case PInf
  then show ?thesis by (simp add: los_probability_def Let_def fp_le_def fp_sub_def fp_inf_def)
next
  case NInf
  then show ?thesis by (cases distance) (auto simp: fp_max_def split: if_splits)
next
  case NaN
  then show ?thesis by (cases distance) (auto simp: fp_max_def split: if_splits)
qed

text \<open>A 3GPP scenario name the model does not know (the lower-case \<open>uma\<close>, say) is no
  error for the link: its path loss is 0 dB.\<close>

theorem calc_3gpp_unknown_scenario:
  "scenario \<notin> {''RMa'', ''UMa'', ''UMi-StreetCanyon''} \<Longrightarrow>
     calc_3gpp_38_901 distance f ue bs scenario (Fin 0) u rnd = Fin 0"
  by (auto simp: calc_3gpp_38_901_def tr_38_901_path_loss_def Let_def)

theorem calc_3gpp_unknown_scenario_witness:
  "calc_3gpp_38_901 (Fin 5000) (Fin 3500000000) (Fin (3 / 2)) (Fin 25) ''uma'' (Fin 0) 0 NaN = Fin 0"
  by (rule calc_3gpp_unknown_scenario) simp

text \<open>The Hata corrections are losses, never gains.\<close>

lemma hata_open_correction_pos: "0 < 478 / 100 * x * x - 1833 / 100 * x + (4094 / 100 :: real)"
proof -
  have "0 \<le> (x - 1833 / 956) * (x - 1833 / 956)" by simp
  then have "0 \<le> x * x - 2 * (1833 / 956) * x + (1833 / 956) * (1833 / 956)" by (simp add: algebra_simps)
  then show ?thesis by simp
qed

lemma calculate_urban_finite:
  assumes "0 < f" and "0 \<le> d"
  shows "\<exists>u. calculate_urban (Fin f) (Fin d) (Fin hb) (Fin hm) = Fin u"
  using assms by (simp add: calculate_urban_def mobile_correction_def Let_def)

text \<open>The Hata model orders its environments: for every frequency, distance and antenna
  heights the suburban and the open-area loss are below the urban one, all three finite.\<close>

theorem hata_environment_order:
  assumes "0 < f" and "0 \<le> d"
  shows "\<exists>u s p. hata_path_loss (Fin f) (Fin d) (Fin hb) (Fin hm) URBAN = Fin u \<and>
    hata_path_loss (Fin f) (Fin d) (Fin hb) (Fin hm) SUBURBAN = Fin s \<and>
    hata_path_loss (Fin f) (Fin d) (Fin hb) (Fin hm) OPEN = Fin p \<and> s < u \<and> p < u"
proof -
  obtain u where u: "calculate_urban (Fin (f / 10 ^ 6)) (Fin (d / 1000)) (Fin hb) (Fin hm) = Fin u"
    using calculate_urban_finite [of "f / 10 ^ 6" "d / 1000" hb hm] assms by auto
  have sq: "- (10 * (log 10 (f / 28000000) * log 10 (f / 28000000))) < 27"
    using zero_le_square [of "log 10 (f / 28000000)"] by linarith
  have op: "0 < 478 / 100 * log 10 (f / 10 ^ 6) * log 10 (f / 10 ^ 6) - 1833 / 100 * log 10 (f / 10 ^ 6) + 4094 / 100"
    by (rule hata_open_correction_pos)
  show ?thesis
    using u sq op assms by (simp add: hata_path_loss_def Let_def)
qed

theorem hata_environment_order_witness:
  "\<exists>u s p. hata_path_loss (Fin 900000000) (Fin 2000) (Fin 30) (Fin (3 / 2)) URBAN = Fin u \<and>
    hata_path_loss (Fin 900000000) (Fin 2000) (Fin 30) (Fin (3 / 2)) SUBURBAN = Fin s \<and>
    hata_path_loss (Fin 900000000) (Fin 2000) (Fin 30) (Fin (3 / 2)) OPEN = Fin p \<and> s < u \<and> p < u"
  by (rule hata_environment_order) simp_all

text \<open>A surface refractivity so large that the effective earth radius turns negative
  (above about 549.6 N-units) makes the Longley-Rice loss NaN for every distance, inside
  the horizon too.\<close>

theorem itm_high_refractivity_nan:
  assumes "itm_refractivity p = Fin n" and "100000 / 4665 < exp (5577 / 1000000 * n)"
    and "itm_tx_height_m p = Fin ht" and "itm_rx_height_m p = Fin hr"
  shows "itm_path_loss distance p = NaN"
proof -
  have den: "1 - 4665 / 100000 * exp (5577 / 1000000 * n) < 0" using assms(2) by (simp add: field_simps)
  define k where "k = 1 / (1 - 4665 / 100000 * exp (5577 / 1000000 * n))"
  have neg: "k < 0" unfolding k_def using den by (intro divide_pos_neg) auto
  have k: "effective_earth_radius_factor (Fin n) = Fin k"
    using den by (simp add: effective_earth_radius_factor_def k_def)
  have h: "horizon_distance (Fin h) (Fin k) = NaN" for h
  proof -
    have "2 * k * EARTH_RADIUS * max (1 / 100) h < 0"
      using neg by (simp add: EARTH_RADIUS_def mult_neg_pos)
    then show ?thesis by (simp add: horizon_distance_def)
  qed
  have "fp_add x NaN = NaN" for x by (cases x) auto
  moreover have "\<not> fp_le x NaN" for x by (cases x) (auto simp: fp_le_def)
  moreover have "fp_min NaN x = NaN" for x by (cases x) (auto simp: fp_min_def)
  moreover have "fp_sub x NaN = NaN" for x by (cases x) (auto simp: fp_sub_def)
  moreover have "fp_mul x NaN = NaN" for x by (cases x) auto
  moreover have "fp_div NaN x = NaN" for x by (cases x) auto
  moreover have "knife_edge_loss NaN = NaN" by (simp add: knife_edge_loss_def fp_le_def)
  ultimately show ?thesis
    using assms(1,3,4) by (simp add: itm_path_loss_def diffraction_loss_def Let_def k h)
qed

theorem itm_high_refractivity_nan_witness:
  "itm_path_loss (Fin 1000) \<lparr>itm_freq_hz = Fin 915000000, itm_tx_height_m = Fin 10,
     itm_rx_height_m = Fin 2, itm_refractivity = Fin 1000, itm_ground_conductivity = Fin 0,
     itm_ground_permittivity = Fin 15, itm_climate = 5\<rparr> = NaN"
proof -
  have "1 + 5577 / 8000 \<le> exp (5577 / 8000 :: real)" by (rule exp_ge_add_one_self)
  then have "(1 + 5577 / 8000) ^ 8 \<le> exp (5577 / 8000 :: real) ^ 8" by (intro power_mono) auto
  also have "\<dots> = exp (of_nat 8 * (5577 / 8000 :: real))" by (rule exp_of_nat_mult [symmetric])
  finally have e: "(100000 / 4665 :: real) < exp (5577 / 1000)" by (simp add: power_divide)
  have "5577 / 1000000 * 1000 = (5577 / 1000 :: real)" by simp
  with e have "(100000 / 4665 :: real) < exp (5577 / 1000000 * 1000)" by (simp only:)
  then show ?thesis by (rule itm_high_refractivity_nan [rotated]) simp_all
qed

end
