(* ===== verification/Dsp_Signal.thy ===== *)
theory Dsp_Signal
  imports Path_Loss
begin

text \<open>
  Sample processing: \<open>src/chem/dsp/signal.cpp\<close>, \<open>src/chem/dsp/utils.cpp\<close> and the impulse
  response and delay part of \<open>src/chem/dsp/channel.cpp\<close>. Samples are complex numbers
  (rounding apart) in lists; an access outside a vector is \<open>None\<close>. The VOLK kernels are
  not part of the sources: they are a record of functions, and \<open>volk_ok\<close> states what their
  documentation promises.
\<close>

section \<open>The VOLK kernels\<close>

record VOLK =
  vk_s_multiply :: "complex \<Rightarrow> complex list \<Rightarrow> nat \<Rightarrow> complex list"
  vk_dot :: "complex list \<Rightarrow> complex list \<Rightarrow> nat \<Rightarrow> complex"
  vk_dot_f :: "complex list \<Rightarrow> real list \<Rightarrow> nat \<Rightarrow> complex"
  vk_add :: "complex list \<Rightarrow> complex list \<Rightarrow> nat \<Rightarrow> complex list"
  vk_magsq :: "complex list \<Rightarrow> nat \<Rightarrow> real list"
  vk_acc :: "real list \<Rightarrow> nat \<Rightarrow> real"
  vk_rotator :: "complex list \<Rightarrow> complex \<Rightarrow> complex \<Rightarrow> nat \<Rightarrow> complex list"

definition volk_ok :: "VOLK \<Rightarrow> bool" where
  "volk_ok V \<longleftrightarrow>
     (\<forall>s xs n. n \<le> length xs \<longrightarrow> vk_s_multiply V s xs n = map (\<lambda>x. x * s) (take n xs)) \<and>
     (\<forall>xs ys n. n \<le> length xs \<and> n \<le> length ys \<longrightarrow> vk_dot V xs ys n = (\<Sum>k<n. xs ! k * ys ! k)) \<and>
     (\<forall>xs ys n. n \<le> length xs \<and> n \<le> length ys \<longrightarrow>
        vk_dot_f V xs ys n = (\<Sum>k<n. xs ! k * of_real (ys ! k))) \<and>
     (\<forall>xs ys n. n \<le> length xs \<and> n \<le> length ys \<longrightarrow>
        vk_add V xs ys n = map2 (+) (take n xs) (take n ys)) \<and>
     (\<forall>xs n. n \<le> length xs \<longrightarrow> vk_magsq V xs n = map (\<lambda>x. (cmod x)\<^sup>2) (take n xs)) \<and>
     (\<forall>xs n. n \<le> length xs \<longrightarrow> vk_acc V xs n = sum_list (take n xs)) \<and>
     (\<forall>xs inc ph n. n \<le> length xs \<longrightarrow>
        vk_rotator V xs inc ph n = map (\<lambda>i. xs ! i * (ph * inc ^ i)) [0..<n])"

text \<open>The kernels as exact arithmetic.\<close>

definition exact_volk :: VOLK where
  "exact_volk = \<lparr>vk_s_multiply = (\<lambda>s xs n. map (\<lambda>x. x * s) (take n xs)),
     vk_dot = (\<lambda>xs ys n. \<Sum>k<n. xs ! k * ys ! k),
     vk_dot_f = (\<lambda>xs ys n. \<Sum>k<n. xs ! k * of_real (ys ! k)),
     vk_add = (\<lambda>xs ys n. map2 (+) (take n xs) (take n ys)),
     vk_magsq = (\<lambda>xs n. map (\<lambda>x. (cmod x)\<^sup>2) (take n xs)),
     vk_acc = (\<lambda>xs n. sum_list (take n xs)),
     vk_rotator = (\<lambda>xs inc ph n. map (\<lambda>i. xs ! i * (ph * inc ^ i)) [0..<n])\<rparr>"

lemma volk_ok_exact: "volk_ok exact_volk"
  by (simp add: volk_ok_def exact_volk_def)

section \<open>Kernels of utils.cpp\<close>

definition fc32_mul_scalar ::
  "VOLK \<Rightarrow> complex list \<Rightarrow> complex \<Rightarrow> complex list \<Rightarrow> nat \<Rightarrow> complex list option" where
  "fc32_mul_scalar V input scalar output n =
     (if n \<le> length input then buf_write output 0 (vk_s_multiply V scalar input n) else None)"

definition fc32_lshift ::
  "VOLK \<Rightarrow> complex list \<Rightarrow> nat \<Rightarrow> complex list \<Rightarrow> nat \<Rightarrow> complex list option" where
  "fc32_lshift V input shift output n = fc32_mul_scalar V input (2 ^ shift) output n"

definition fc32_sum ::
  "VOLK \<Rightarrow> complex list \<Rightarrow> complex list \<Rightarrow> complex list \<Rightarrow> nat \<Rightarrow> complex list option" where
  "fc32_sum V input1 input2 output n =
     (if n \<le> length input1 \<and> n \<le> length input2
      then buf_write output 0 (vk_add V input1 input2 n) else None)"

definition fc32_mul_scalar_sum ::
  "VOLK \<Rightarrow> complex list \<Rightarrow> complex \<Rightarrow> complex list \<Rightarrow> complex list \<Rightarrow> nat \<Rightarrow> complex list option" where
  "fc32_mul_scalar_sum V input1 scalar input2 output n =
     (case fc32_mul_scalar V input1 scalar output n of
        None \<Rightarrow> None
      | Some out \<Rightarrow> fc32_sum V out input2 out n)"

definition bessel_i0 :: "real \<Rightarrow> real" where
  "bessel_i0 x =
     (if \<bar>x\<bar> < 3.75 then
        let y = (x / 3.75) * (x / 3.75)
        in 1 + y * (3.5156229 + y * (3.0899424 + y * (1.2067492 + y * (0.2659732 +
             y * (0.0360768 + y * 0.0045813)))))
      else
        let y = 3.75 / \<bar>x\<bar>
        in (exp \<bar>x\<bar> / sqrt \<bar>x\<bar>) *
             (0.39894228 + y * (0.01328592 + y * (0.00225319 + y * (- 0.00157565 + y * (0.00916281 +
              y * (- 0.02057706 + y * (0.02635537 + y * (- 0.01647633 + y * 0.00392377)))))))))"

definition calcNTaps :: "real \<Rightarrow> real \<Rightarrow> int" where
  "calcNTaps transition_width beta =
     (let attenuation = beta / 0.1102 + 8.7;
          q = attenuation / (22 * transition_width);
          ntaps = (if 0 \<le> q then \<lfloor>q\<rfloor> else \<lceil>q\<rceil>)
      in if even ntaps then ntaps + 1 else ntaps)"

definition kaiserWin :: "nat \<Rightarrow> real \<Rightarrow> real list" where
  "kaiserWin num_taps beta =
     map (\<lambda>i. if i = 0 \<or> i = num_taps - 1 then 1 / bessel_i0 beta
              else let x = 2 * real i / real (num_taps - 1) - 1
                   in bessel_i0 (beta * sqrt (1 - x * x)) / bessel_i0 beta) [0..<num_taps]"

definition lowpassKaiserWin :: "nat \<Rightarrow> real \<Rightarrow> real \<Rightarrow> int \<Rightarrow> real list" where
  "lowpassKaiserWin num_taps cutoff beta up_factor =
     (let window = kaiserWin num_taps beta;
          half = (num_taps - 1) div 2;
          c = cutoff / of_int up_factor;
          fwT0 = 2 * pi * c
      in map (\<lambda>i. (if i = half then 2 * c
                   else sin (fwT0 * (real i - real half)) / (pi * (real i - real half))) *
                  window ! i * of_int up_factor) [0..<num_taps])"

definition round_real :: "real \<Rightarrow> int" where
  "round_real r = (if 0 \<le> r then \<lfloor>r + 1 / 2\<rfloor> else \<lceil>r - 1 / 2\<rceil>)"

definition computeResamplingFactors :: "real \<Rightarrow> int \<times> int" where
  "computeResamplingFactors ratio =
     (let num = round_real (ratio * 1000); g = gcd num 1000
      in (num div g, 1000 div g))"

section \<open>signal.cpp\<close>

definition fir_filter_f ::
  "VOLK \<Rightarrow> complex list \<Rightarrow> real list \<Rightarrow> complex list \<Rightarrow> nat \<Rightarrow> complex list option" where
  "fir_filter_f V sig coeffs filtered n =
     (let coeff_len = length coeffs
      in if coeff_len = 0 \<or> n = 0 then Some filtered
         else if length sig < n then None
         else
           let delay = (coeff_len - 1) div 2; right = coeff_len - 1 - delay;
               ext = replicate delay (sig ! 0) @ take n sig @ replicate right (sig ! (n - 1)) @ replicate 16 0;
               taps = coeffs @ replicate 16 0
           in buf_write filtered 0 (map (\<lambda>i. vk_dot_f V (drop i ext) taps coeff_len) [0..<n]))"

definition upsample :: "complex list \<Rightarrow> complex list \<Rightarrow> nat \<Rightarrow> nat \<Rightarrow> complex list option" where
  "upsample src dest up n =
     (if up = 1 then Some src
      else if length src < n \<or> (0 < n \<and> length dest \<le> (n - 1) * up) then None
      else Some (fold (\<lambda>i d. d[i * up := src ! i]) [0..<n] dest))"

definition downsample :: "complex list \<Rightarrow> complex list \<Rightarrow> nat \<Rightarrow> nat \<Rightarrow> complex list option" where
  "downsample src dest down n =
     (if down = 1 then Some src
      else
        let new_size = n div down
        in if 0 < new_size \<and> length src \<le> (new_size - 1) * down then None
           else buf_write dest 0 (map (\<lambda>i. src ! (i * down)) [0..<new_size]))"

definition resample :: "VOLK \<Rightarrow> complex list \<Rightarrow> complex list \<Rightarrow> real \<Rightarrow> nat \<Rightarrow> complex list option" where
  "resample V src dest rate n =
     (let (up, down) = computeResamplingFactors rate;
          up16 = nat (up mod 65536); down16 = nat (down mod 65536);
          new_size = n * nat up;
          trans_width = (if 1 \<le> rate then 0.5 - 0.4 else rate * (0.5 - 0.4));
          cutoff = (if 1 \<le> rate then 0.5 - trans_width / 2 else rate * 0.5 - trans_width / 2);
          nt = calcNTaps trans_width 8.6 div 2;
          num_taps = (if even nt then nt + 1 else nt);
          taps = rev (lowpassKaiserWin (nat num_taps) cutoff 8.6 up)
      in case upsample src (replicate new_size 0) up16 n of
           None \<Rightarrow> None
         | Some t1 \<Rightarrow>
             (case fir_filter_f V t1 taps t1 new_size of
                None \<Rightarrow> None
              | Some t2 \<Rightarrow> downsample t2 dest down16 new_size))"

definition calc_power :: "VOLK \<Rightarrow> complex list \<Rightarrow> nat \<Rightarrow> real option" where
  "calc_power V xs n =
     (if n = 0 then Some 0
      else if n \<le> length xs then Some (vk_acc V (vk_magsq V xs n) n / real n) else None)"

text \<open>\<open>std::remainder(x, y)\<close>: the quotient is rounded to the nearest integer, ties to even.\<close>

definition round_even :: "real \<Rightarrow> int" where
  "round_even r =
     (let f = \<lfloor>r\<rfloor>
      in if r - of_int f < 1 / 2 then f
         else if 1 / 2 < r - of_int f then f + 1
         else if even f then f else f + 1)"

definition remainder :: "real \<Rightarrow> real \<Rightarrow> real" where
  "remainder x y = x - of_int (round_even (x / y)) * y"

definition apply_frequency_offset ::
  "VOLK \<Rightarrow> complex list \<Rightarrow> nat \<Rightarrow> fp \<Rightarrow> fp \<Rightarrow> real \<Rightarrow> (complex list \<times> real) option" where
  "apply_frequency_offset V sig n sample_rate_hz freq_offset_hz phase_rad =
     (if n = 0 then Some (sig, phase_rad)
      else
        case sample_rate_hz of
          Fin fs \<Rightarrow>
            if fs \<le> 0 then Some (sig, phase_rad)
            else
              (case freq_offset_hz of
                 Fin fo \<Rightarrow>
                   if fo = 0 then Some (sig, phase_rad)
                   else
                     let two_pi = 2 * PI_C;
                         phase_inc = two_pi * fo / fs;
                         phase = remainder phase_rad two_pi
                     in if length sig < n then None
                        else
                          map_option
                            (\<lambda>s. (s, remainder (phase + phase_inc * real n) two_pi))
                            (buf_write sig 0 (vk_rotator V sig (cis phase_inc) (cis phase) n))
               | _ \<Rightarrow> Some (sig, phase_rad))
        | _ \<Rightarrow> Some (sig, phase_rad))"

section \<open>Channel impulse response\<close>

datatype CIRApplyMethod = CIR_NONE | FIR_CAUSAL | FIR_CENTERED | DIRECT_CONV

text \<open>\<open>vector::resize\<close> to at least \<open>n\<close> elements.\<close>

definition grow :: "nat \<Rightarrow> complex list \<Rightarrow> complex list" where
  "grow n xs = xs @ replicate (n - length xs) 0"

definition apply_cir_fir_causal ::
  "VOLK \<Rightarrow> complex list \<Rightarrow> complex list \<Rightarrow> complex list \<Rightarrow> nat \<Rightarrow> complex list option" where
  "apply_cir_fir_causal V input output taps n =
     (if n = 0 then Some output
      else if taps = [] then
        if n \<le> length input then buf_write output 0 (take n input) else None
      else
        let in_size = min n (length input);
            out = grow in_size output;
            tap_len = length taps
        in if tap_len = 1 then buf_write out 0 (vk_s_multiply V (taps ! 0) input in_size)
           else
             let rev_taps = map (\<lambda>j. taps ! (tap_len - 1 - j)) [0..<tap_len];
                 ext = replicate (tap_len - 1) 0 @ take in_size input
             in buf_write out 0 (map (\<lambda>i. vk_dot V (drop i ext) rev_taps tap_len) [0..<in_size]))"

text \<open>The reference convolution; its output must not be its input.\<close>

definition apply_cir_direct_conv ::
  "complex list \<Rightarrow> complex list \<Rightarrow> complex list \<Rightarrow> nat \<Rightarrow> complex list option" where
  "apply_cir_direct_conv input output taps n =
     (if n = 0 then Some output
      else
        let in_size = min n (length input); out = grow in_size output
        in if taps = [] then buf_write out 0 (take in_size input)
           else buf_write out 0
                  (map (\<lambda>i. \<Sum>k \<le> min i (length taps - 1). taps ! k * input ! (i - k)) [0..<in_size]))"

definition fir_filter_c ::
  "VOLK \<Rightarrow> complex list \<Rightarrow> complex list \<Rightarrow> complex list \<Rightarrow> nat \<Rightarrow> complex list option" where
  "fir_filter_c V sig coeffs filtered n =
     (let coeff_len = length coeffs; signal_len = length sig
      in if coeff_len = 0 \<or> signal_len = 0 then Some filtered
         else if signal_len < n then None
         else
           let delay = (coeff_len - 1) div 2; right = coeff_len - 1 - delay;
               ext = replicate delay (sig ! 0) @ take n sig @ replicate (signal_len - n) 0 @
                     replicate right (sig ! (signal_len - 1)) @ replicate 16 0;
               taps = coeffs @ replicate 16 0
           in buf_write filtered 0 (map (\<lambda>i. vk_dot V (drop i ext) taps coeff_len) [0..<signal_len]))"

definition apply_cir ::
  "VOLK \<Rightarrow> complex list \<Rightarrow> complex list \<Rightarrow> complex list \<Rightarrow> nat \<Rightarrow> CIRApplyMethod \<Rightarrow> complex list option" where
  "apply_cir V input output taps n method =
     (if n = 0 then Some output
      else
        case method of
          CIR_NONE \<Rightarrow> buf_write (grow (min n (length input)) output) 0 (take n input)
        | FIR_CENTERED \<Rightarrow> fir_filter_c V input taps output (min n (length input))
        | DIRECT_CONV \<Rightarrow> apply_cir_direct_conv input output taps n
        | FIR_CAUSAL \<Rightarrow> apply_cir_fir_causal V input output taps n)"

section \<open>Propagation delay\<close>

text \<open>The three time stamps move by the delay in whole nanoseconds, in 64-bit arithmetic.\<close>

definition apply_propagation_delay :: "real \<Rightarrow> Header \<Rightarrow> Header" where
  "apply_propagation_delay delay_s h =
     (let d = of_int (if 0 \<le> delay_s * 10 ^ 9 then \<lfloor>delay_s * 10 ^ 9\<rfloor> else \<lceil>delay_s * 10 ^ 9\<rceil>)
      in h\<lparr>hdr_start := hdr_start h + d, hdr_end := hdr_end h + d, hdr_rt_tx_time := hdr_rt_tx_time h + d\<rparr>)"

section \<open>The optimised convolution is the reference convolution\<close>

lemma volk_dot: "volk_ok V \<Longrightarrow> n \<le> length xs \<Longrightarrow> n \<le> length ys \<Longrightarrow> vk_dot V xs ys n = (\<Sum>k<n. xs ! k * ys ! k)"
  by (simp add: volk_ok_def)

lemma volk_s_multiply: "volk_ok V \<Longrightarrow> n \<le> length xs \<Longrightarrow> vk_s_multiply V s xs n = map (\<lambda>x. x * s) (take n xs)"
  by (simp add: volk_ok_def)

text \<open>A window of the zero-padded input against the reversed taps is the causal sum.\<close>

lemma padded_dot_eq_conv:
  fixes xs taps :: "complex list"
  assumes i: "i < length xs" and L: "0 < length taps"
  shows "(\<Sum>j<length taps. (replicate (length taps - 1) 0 @ xs) ! (i + j) * taps ! (length taps - 1 - j)) =
    (\<Sum>k \<le> min i (length taps - 1). taps ! k * xs ! (i - k))"
proof -
  let ?L = "length taps"
  let ?f = "\<lambda>k. if k \<le> i then taps ! k * xs ! (i - k) else 0"
  obtain l where l: "?L = Suc l" using L by (cases ?L) auto
  have "(\<Sum>j<?L. (replicate (?L - 1) 0 @ xs) ! (i + j) * taps ! (?L - 1 - j)) = (\<Sum>j<?L. ?f (?L - 1 - j))"
  proof (rule sum.cong [OF refl])
    fix j assume "j \<in> {..<?L}"
    then have j: "j < ?L" by simp
    show "(replicate (?L - 1) 0 @ xs) ! (i + j) * taps ! (?L - 1 - j) = ?f (?L - 1 - j)"
    proof (cases "i + j < ?L - 1")
      case True
      then have "\<not> ?L - 1 - j \<le> i" by linarith
      with True show ?thesis by (simp only: nth_append length_replicate nth_replicate if_True if_False mult_zero_left)
    next
      case False
      then have "i + j - (?L - 1) = i - (?L - 1 - j)" "?L - 1 - j \<le> i" using j by linarith+
      with False show ?thesis by (simp add: nth_append mult.commute)
    qed
  qed
  also have "\<dots> = (\<Sum>k<?L. ?f k)" using L
    by (intro sum.reindex_bij_witness [of _ "\<lambda>k. ?L - 1 - k" "\<lambda>j. ?L - 1 - j"]) auto
  also have "\<dots> = (\<Sum>k \<in> {..min i (?L - 1)}. ?f k)"
    using l by (intro sum.mono_neutral_right) auto
  also have "\<dots> = (\<Sum>k \<le> min i (?L - 1). taps ! k * xs ! (i - k))"
    by (intro sum.cong) auto
  finally show ?thesis .
qed

text \<open>C17. The vectorised causal filter (zero padding, reversed taps, one dot product per
  sample, a fast path for one tap) computes exactly the direct convolution, for every input,
  output buffer, tap count and burst size.\<close>

theorem apply_cir_causal_eq_direct:
  assumes V: "volk_ok V" and "taps \<noteq> []"
  shows "apply_cir_fir_causal V input output taps n = apply_cir_direct_conv input output taps n"
proof -
  define m where "m = min n (length input)"
  let ?L = "length taps" and ?xs = "take m input"
  have L: "0 < ?L" using assms(2) by simp
  have len: "length ?xs = m" by (simp add: m_def)
  have nth: "?xs ! k = input ! k" if "k < m" for k using that by simp
  have single: "vk_s_multiply V (taps ! 0) input m =
      map (\<lambda>i. \<Sum>k \<le> min i (?L - 1). taps ! k * input ! (i - k)) [0..<m]" if "?L = 1"
    using that volk_s_multiply [OF V, of m input] len
    by (auto simp: m_def list_eq_iff_nth_eq mult.commute)
  have multi: "vk_dot V (drop i (replicate (?L - 1) 0 @ ?xs)) (map (\<lambda>j. taps ! (?L - 1 - j)) [0..<?L]) ?L =
      (\<Sum>k \<le> min i (?L - 1). taps ! k * input ! (i - k))" if "i < m" for i
  proof -
    define ext where "ext = replicate (?L - 1) 0 @ ?xs"
    have le: "?L \<le> length (drop i ext)" "i \<le> length ext" using that len L by (simp_all add: ext_def)
    have "vk_dot V (drop i ext) (map (\<lambda>j. taps ! (?L - 1 - j)) [0..<?L]) ?L =
        (\<Sum>j<?L. ext ! (i + j) * taps ! (?L - 1 - j))"
      using le by (subst volk_dot [OF V]) (auto intro!: sum.cong)
    then have "vk_dot V (drop i (replicate (?L - 1) 0 @ ?xs)) (map (\<lambda>j. taps ! (?L - 1 - j)) [0..<?L]) ?L =
        (\<Sum>j<?L. (replicate (?L - 1) 0 @ ?xs) ! (i + j) * taps ! (?L - 1 - j))"
      by (simp only: ext_def)
    also have "\<dots> = (\<Sum>k \<le> min i (?L - 1). taps ! k * ?xs ! (i - k))"
      using that len L by (intro padded_dot_eq_conv) auto
    also have "\<dots> = (\<Sum>k \<le> min i (?L - 1). taps ! k * input ! (i - k))"
      using that by (intro sum.cong) auto
    finally show ?thesis .
  qed
  have mm: "map (\<lambda>i. vk_dot V (drop i (replicate (?L - 1) 0 @ ?xs))
        (map (\<lambda>j. taps ! (?L - 1 - j)) [0..<?L]) ?L) [0..<m] =
      map (\<lambda>i. \<Sum>k \<le> min i (?L - 1). taps ! k * input ! (i - k)) [0..<m]"
    using multi by (intro map_cong) auto
  show ?thesis
    unfolding apply_cir_fir_causal_def apply_cir_direct_conv_def Let_def m_def [symmetric] mm
    using assms(2) single by (simp split: if_splits)
qed

theorem apply_cir_causal_eq_direct_witness:
  "apply_cir_fir_causal exact_volk [1, 2, 3] [0, 0, 0] [1, 1] 3 = apply_cir_direct_conv [1, 2, 3] [0, 0, 0] [1, 1] 3"
  by (rule apply_cir_causal_eq_direct) (simp_all add: volk_ok_exact)

section \<open>The resampling filter\<close>

lemma kaiserWin_symmetric:
  assumes "i < n"
  shows "kaiserWin n beta ! (n - 1 - i) = kaiserWin n beta ! i"
proof (cases "i = 0 \<or> i = n - 1")
  case True
  then show ?thesis using assms by (auto simp: kaiserWin_def)
next
  case False
  with assms have n: "1 < n" "0 < n - 1 - i" "n - 1 - i < n - 1" "0 < i" "i < n - 1" by auto
  define x where "x k = 2 * real k / real (n - 1) - 1" for k
  have w: "kaiserWin n beta ! k = bessel_i0 (beta * sqrt (1 - x k * x k)) / bessel_i0 beta"
    if "0 < k" "k < n - 1" for k using that by (simp add: kaiserWin_def Let_def x_def)
  have "real (n - 1 - i) = real (n - 1) - real i" using assms by simp
  then have "x (n - 1 - i) = - x i" using n(1) by (simp add: x_def field_simps)
  with w [OF n(2,3)] w [OF n(4,5)] show ?thesis by simp
qed

lemma sinc_even: "sin (a * - x) / (p * - x) = sin (a * x) / (p * x)" for a x p :: real
  by simp

text \<open>The anti-aliasing filter has linear phase: its taps are symmetric, so reversing
  them before the correlation, as \<open>resample\<close> does, changes nothing and the correlation is
  the convolution with the designed filter.\<close>

theorem lowpass_taps_symmetric:
  assumes "odd n"
  shows "rev (lowpassKaiserWin n cutoff beta up) = lowpassKaiserWin n cutoff beta up"
proof (rule nth_equalityI)
  let ?t = "lowpassKaiserWin n cutoff beta up"
  have l: "length ?t = n" by (simp add: lowpassKaiserWin_def Let_def)
  show "length (rev ?t) = length ?t" by simp
  fix i assume "i < length (rev ?t)"
  then have i: "i < n" by (simp add: l)
  let ?h = "(n - 1) div 2"
  from assms obtain m where m: "n = 2 * m + 1" by (elim oddE)
  then have h: "?h = m" by simp
  have r: "real (n - 1 - i) - real m = - (real i - real m)" using i m by simp
  have "?t ! (n - 1 - i) = ?t ! i"
  proof (cases "i = m")
    case True
    then show ?thesis by (simp add: m)
  next
    case False
    then have ne: "n - 1 - i \<noteq> m" using i m by linarith
    define c where "c = cutoff / of_int up"
    have "?t ! (n - 1 - i) = sin (2 * pi * c * (real (n - 1 - i) - real m)) / (pi * (real (n - 1 - i) - real m)) *
        kaiserWin n beta ! (n - 1 - i) * of_int up"
      using i ne h by (simp add: lowpassKaiserWin_def Let_def c_def)
    also have "\<dots> = sin (2 * pi * c * (real i - real m)) / (pi * (real i - real m)) *
        kaiserWin n beta ! i * of_int up"
      unfolding r kaiserWin_symmetric [OF i] sinc_even by (rule refl)
    also have "\<dots> = ?t ! i" using i False h by (simp add: lowpassKaiserWin_def Let_def c_def)
    finally show ?thesis .
  qed
  then show "rev ?t ! i = ?t ! i" using i by (simp add: rev_nth l)
qed

theorem lowpass_taps_symmetric_witness:
  "rev (lowpassKaiserWin 3 (45 / 100) (86 / 10) 2) = lowpassKaiserWin 3 (45 / 100) (86 / 10) 2"
  by (rule lowpass_taps_symmetric) simp

section \<open>Buffers that shrink\<close>

lemma fir_filter_f_length: "fir_filter_f V sig coeffs filtered n = Some out \<Longrightarrow> length out = length filtered"
  by (auto simp: fir_filter_f_def Let_def dest: buf_write_length split: if_splits)

lemma fold_update_length: "length (fold (\<lambda>i d. d[f i := g i]) is d) = length d"
  by (induction "is" arbitrary: d) simp_all

text \<open>Resampling by an integer factor replaces the destination vector instead of filling
  it: whatever room it had, afterwards it holds exactly the samples of this burst, and
  scaling a longer burst into it later writes past its end.\<close>

theorem resample_integer_shrinks:
  assumes "computeResamplingFactors rate = (up, 1)" and "1 < up" and "up < 65536"
    and "resample V src dest rate n = Some out"
  shows "length out = n * nat up \<and>
    (\<forall>src' g m. n * nat up < m \<and> volk_ok V \<longrightarrow> fc32_mul_scalar V src' g out m = None)"
proof -
  have up: "nat (up mod 65536) = nat up" "nat up \<noteq> 1" using assms(2,3) by auto
  obtain t1 where t1: "upsample src (replicate (n * nat up) 0) (nat up) n = Some t1"
    using assms up by (auto simp: resample_def Let_def split: option.splits)
  then have l1: "length t1 = n * nat up"
    using up(2) by (auto simp: upsample_def fold_update_length split: if_splits)
  have l: "length out = n * nat up"
    using assms(1,4) up t1 l1
    by (auto simp: resample_def Let_def downsample_def dest: fir_filter_f_length split: option.splits)
  have "fc32_mul_scalar V src' g out m = None" if "n * nat up < m" "volk_ok V" for src' g m
    using that l by (auto simp: fc32_mul_scalar_def volk_s_multiply buf_write_def)
  with l show ?thesis by blast
qed

lemma buf_write_0: "length ys = length xs \<Longrightarrow> buf_write xs 0 ys = Some ys"
  by (simp add: buf_write_def)

lemma upsample_defined:
  assumes "up \<noteq> 0" and "n \<le> length src"
  shows "\<exists>t. upsample src (replicate (n * up) 0) up n = Some t \<and> n * up \<le> length t"
proof -
  have "0 < n \<Longrightarrow> (n - 1) * up < n * up" using assms(1) by simp
  then show ?thesis
    using assms by (auto simp: upsample_def fold_update_length not_le)
qed

theorem resample_integer_shrinks_witness:
  "\<exists>out. resample exact_volk [1, 2] (replicate 100 0) 2 2 = Some out \<and> length out = 4 \<and>
     fc32_mul_scalar exact_volk (replicate 100 1) 1 out 50 = None"
proof -
  have f: "computeResamplingFactors 2 = (2, 1)"
  proof -
    have "gcd 2000 (1000 :: int) = 1000" by code_simp
    then show ?thesis by (simp add: computeResamplingFactors_def round_real_def Let_def)
  qed
  have "\<exists>t. upsample [1, 2] (replicate 4 0) 2 2 = Some (t :: complex list)"
    by (simp add: upsample_def)
  then obtain t where t: "upsample [1, 2] (replicate 4 0) 2 2 = Some (t :: complex list)" by blast
  then have "length t = 4" by (auto simp: upsample_def fold_update_length)
  then have nn: "fir_filter_f exact_volk t taps t 4 \<noteq> None" for taps
    by (simp add: fir_filter_f_def Let_def buf_write_def)
  have "\<exists>out. resample exact_volk [1, 2] (replicate 100 0) 2 2 = Some out"
    using f t by (auto simp: resample_def Let_def downsample_def nn split: option.splits)
  then obtain out where out: "resample exact_volk [1, 2] (replicate 100 0) 2 2 = Some out" by blast
  from resample_integer_shrinks [OF f _ _ out] show ?thesis
    using out volk_ok_exact by auto
qed

section \<open>Frequency offset\<close>

lemma round_even_near: "\<bar>r - of_int (round_even r)\<bar> \<le> 1 / 2"
proof -
  define f where "f = \<lfloor>r\<rfloor>"
  have "of_int f \<le> r" "r < of_int f + 1" unfolding f_def by linarith+
  then show ?thesis by (auto simp: round_even_def Let_def abs_if f_def [symmetric])
qed

lemma remainder_bound: "0 < y \<Longrightarrow> \<bar>remainder x y\<bar> \<le> y / 2"
proof -
  assume y: "0 < y"
  have "remainder x y = (x / y - of_int (round_even (x / y))) * y"
    using y by (simp add: remainder_def left_diff_distrib)
  then have "\<bar>remainder x y\<bar> = \<bar>x / y - of_int (round_even (x / y))\<bar> * y"
    using y by (simp add: abs_mult)
  also have "\<dots> \<le> 1 / 2 * y" using y round_even_near by (intro mult_right_mono) auto
  finally show ?thesis by simp
qed

lemma volk_power:
  assumes "volk_ok V" and "n \<le> length xs"
  shows "vk_acc V (vk_magsq V xs n) n = sum_list (map (\<lambda>x. (cmod x)\<^sup>2) (take n xs))"
proof -
  have "vk_magsq V xs n = map (\<lambda>x. (cmod x)\<^sup>2) (take n xs)" using assms by (simp add: volk_ok_def)
  moreover have "vk_acc V ys n = sum_list (take n ys)" if "n \<le> length ys" for ys
    using assms(1) that by (simp add: volk_ok_def)
  ultimately show ?thesis using assms(2) by simp
qed

lemma rotated_power:
  assumes V: "volk_ok V" and n: "n \<le> length xs"
    and out: "out = map (\<lambda>i. xs ! i * (cis p * cis q ^ i)) [0..<n] @ drop n xs"
  shows "calc_power V out n = calc_power V xs n"
proof -
  have "map (\<lambda>x. (cmod x)\<^sup>2) (take n out) = map (\<lambda>x. (cmod x)\<^sup>2) (take n xs)"
    using n by (auto simp: out list_eq_iff_nth_eq norm_mult norm_power)
  moreover have "n \<le> length out" using n by (simp add: out)
  ultimately show ?thesis using n by (simp add: calc_power_def volk_power [OF V])
qed

text \<open>A frequency offset rotates the samples of a burst and leaves their power alone; the
  samples behind the burst are not touched and the accumulated phase stays within half a
  turn.\<close>

theorem apply_frequency_offset_power:
  assumes V: "volk_ok V" and n: "n \<le> length sig" and ph: "\<bar>ph\<bar> \<le> PI_C"
  shows "\<exists>out ph'. apply_frequency_offset V sig n fs fo ph = Some (out, ph') \<and> \<bar>ph'\<bar> \<le> PI_C \<and>
    length out = length sig \<and> calc_power V out n = calc_power V sig n \<and> drop n out = drop n sig"
proof (cases "0 < n \<and> (\<exists>r. fs = Fin r \<and> 0 < r) \<and> (\<exists>r. fo = Fin r \<and> r \<noteq> 0)")
  case False
  then have "apply_frequency_offset V sig n fs fo ph = Some (sig, ph)"
    by (auto simp: apply_frequency_offset_def split: fp.splits)
  with ph show ?thesis by simp
next
  case True
  then obtain r s where r: "fs = Fin r" "0 < r" and s: "fo = Fin s" "s \<noteq> 0" and n0: "0 < n" by auto
  let ?inc = "2 * PI_C * s / r" and ?p = "remainder ph (2 * PI_C)"
  let ?rot = "vk_rotator V sig (cis ?inc) (cis ?p) n"
  let ?out = "map (\<lambda>i. sig ! i * (cis ?p * cis ?inc ^ i)) [0..<n] @ drop n sig"
  have rot: "?rot = map (\<lambda>i. sig ! i * (cis ?p * cis ?inc ^ i)) [0..<n]"
    using V n by (simp add: volk_ok_def)
  have "apply_frequency_offset V sig n fs fo ph = Some (?out, remainder (?p + ?inc * real n) (2 * PI_C))"
    using r s n0 n by (simp add: apply_frequency_offset_def Let_def rot buf_write_def)
  moreover have "\<bar>remainder (?p + ?inc * real n) (2 * PI_C)\<bar> \<le> PI_C"
    using remainder_bound [of "2 * PI_C"] by (simp add: PI_C_def)
  moreover have "calc_power V ?out n = calc_power V sig n" by (rule rotated_power [OF V n refl])
  ultimately show ?thesis using n by simp
qed

theorem apply_frequency_offset_power_witness:
  "\<exists>out ph'. apply_frequency_offset exact_volk [1, 2, 3] 2 (Fin 1000000) (Fin 100) 0 = Some (out, ph') \<and>
     \<bar>ph'\<bar> \<le> PI_C \<and> calc_power exact_volk out 2 = calc_power exact_volk [1, 2, 3] 2 \<and> drop 2 out = [3]"
proof -
  have "\<bar>0\<bar> \<le> PI_C" by (simp add: PI_C_def)
  from apply_frequency_offset_power [OF volk_ok_exact _ this, of 2 "[1, 2, 3]" "Fin 1000000" "Fin 100"]
  show ?thesis by auto
qed

end
