(* ===== verification/Antenna.thy ===== *)
theory Antenna
  imports Path_Loss Node_Config
begin

text \<open>
  Antenna selection and gain: \<open>src/chem/dsp/antenna_prop.cpp\<close>, \<open>include/chem/antennas/antennas.h\<close>
  and \<open>dipole.h\<close>. The measured patterns are generated tables: their gain is the argument
  \<open>gen\<close>, a function of the pattern, the frequency and the two angles.
\<close>

datatype Antenna = IsotropicAntenna | DipoleAntenna real | GeneratedAntenna string real

definition normalize_antenna_name :: "string \<Rightarrow> string" where
  "normalize_antenna_name name = str_tolower name"

text \<open>Consecutive underscores become one; the flag says that the last character was one.\<close>

fun collapse_underscores :: "bool \<Rightarrow> string \<Rightarrow> string" where
  "collapse_underscores prev [] = []"
| "collapse_underscores prev (c # cs) =
     (if c = CHR ''_'' then
        if prev then collapse_underscores True cs else c # collapse_underscores True cs
      else c # collapse_underscores False cs)"

definition normalize_name :: "string \<Rightarrow> string" where
  "normalize_name name =
     (let low = map (\<lambda>c. if c = CHR '' '' \<or> c = CHR ''-'' then CHR ''_'' else c) (str_tolower name);
          out = collapse_underscores False low;
          out1 = (if out \<noteq> [] \<and> hd out = CHR ''_'' then tl out else out);
          out2 = (if out1 \<noteq> [] \<and> last out1 = CHR ''_'' then butlast out1 else out1)
      in if out2 = [] then low else out2)"

definition AvailableAntennas :: "string list" where
  "AvailableAntennas = [''dipole'', ''sa-1400-5900'', ''rm-wb1-dn-blk right side up'',
     ''rm-wb1-dn-blk upside down'']"

definition MakeAntenna :: "string \<Rightarrow> real \<Rightarrow> Antenna option" where
  "MakeAntenna name f =
     (let norm = normalize_name name
      in if norm = ''isotropic'' then Some IsotropicAntenna
         else if norm = ''dipole'' then Some (DipoleAntenna f)
         else if norm = ''sa_1400_5900'' then Some (GeneratedAntenna norm f)
         else if norm = ''rm_wb1_dn_blk_right_side_up'' then Some (GeneratedAntenna norm f)
         else if norm = ''rm_wb1_dn_blk_upside_down'' then Some (GeneratedAntenna norm f)
         else None)"

fun get_gain :: "(string \<Rightarrow> real \<Rightarrow> real \<Rightarrow> real \<Rightarrow> fp) \<Rightarrow> Antenna \<Rightarrow> real \<Rightarrow> real \<Rightarrow> fp" where
  "get_gain gen IsotropicAntenna theta phi = Fin 0"
| "get_gain gen (DipoleAntenna f) theta phi =
     (if \<bar>sin theta\<bar> < 1 / 10 ^ 6 then Fin (- 60)
      else
        let pattern = cos ((PI_C / 2) * cos theta) / sin theta
        in fp_mul (Fin 10) (fp_log10 (Fin (pattern * pattern * (164 / 100)))))"
| "get_gain gen (GeneratedAntenna n f) theta phi = gen n f theta phi"

definition select_antenna_name :: "NodeConfig \<Rightarrow> bool \<Rightarrow> string" where
  "select_antenna_name config is_tx =
     (let names = map (\<lambda>c. if is_tx then uch_txAnt c else uch_rxAnt c) (nc_channels config);
          from_channels = (case filter (\<lambda>n. n \<noteq> []) names of
                             [] \<Rightarrow> ''isotropic''
                           | n # _ \<Rightarrow> normalize_antenna_name n)
      in if is_tx \<and> nc_hasTxAntennaPattern config \<and> nc_txAntennaPattern config \<noteq> []
         then normalize_antenna_name (nc_txAntennaPattern config)
         else if \<not> is_tx \<and> nc_hasRxAntennaPattern config \<and> nc_rxAntennaPattern config \<noteq> []
         then normalize_antenna_name (nc_rxAntennaPattern config)
         else
           case nc_characteristics config of
             None \<Rightarrow> from_channels
           | Some chars \<Rightarrow>
               (case if is_tx then ch_tx_antennas chars else ch_rx_antennas chars of
                  [] \<Rightarrow> from_channels
                | n # _ \<Rightarrow> normalize_antenna_name n))"

text \<open>The angle in \<open>[0, 360)\<close>.\<close>

definition wrap_degrees :: "real \<Rightarrow> real" where
  "wrap_degrees deg =
     (let q = deg / 360;
          wrapped = deg - 360 * of_int (if 0 \<le> q then \<lfloor>q\<rfloor> else \<lceil>q\<rceil>)
      in if wrapped < 0 then wrapped + 360 else wrapped)"

definition deg_to_rad :: "real \<Rightarrow> real" where
  "deg_to_rad deg = deg * (PI_C / 180)"

type_synonym antenna_cache = "(string \<times> int, Antenna) omap"

definition compute_antenna_gain_db ::
  "(string \<Rightarrow> real \<Rightarrow> real \<Rightarrow> real \<Rightarrow> fp) \<Rightarrow> antenna_cache \<Rightarrow> NodeConfig \<Rightarrow> bool \<Rightarrow> real \<Rightarrow> fp \<Rightarrow> fp \<Rightarrow>
   fp \<times> antenna_cache" where
  "compute_antenna_gain_db gen cache config is_tx frequency_hz elevation_deg azimuth_deg =
     (if frequency_hz \<le> 0 then (Fin 0, cache)
      else
        let name = select_antenna_name config is_tx;
            key = (name, \<lfloor>frequency_hz / 1000\<rfloor>);
            found = (case om_find cache key of Some a \<Rightarrow> Some a | None \<Rightarrow> MakeAntenna name frequency_hz)
        in case found of
             None \<Rightarrow> (Fin 0, cache)
           | Some antenna \<Rightarrow>
               let elev = (case elevation_deg of Fin e \<Rightarrow> e | _ \<Rightarrow> 0);
                   az = (case azimuth_deg of Fin a \<Rightarrow> a | _ \<Rightarrow> 0);
                   t = 90 - elev;
                   theta = deg_to_rad (if t < 0 then 0 else if 180 < t then 180 else t);
                   phi = deg_to_rad (wrap_degrees (az + (if is_tx then 0 else 180)))
               in (get_gain gen antenna theta phi, om_set key antenna cache))"

section \<open>Properties\<close>

text \<open>Every antenna the program offers can be built under the name it is offered under,
  and so can the default that is used when a node names none.\<close>

theorem available_antennas_build:
  "\<forall>n \<in> set (''isotropic'' # AvailableAntennas). MakeAntenna n f \<noteq> None"
proof -
  have "normalize_name ''isotropic'' = ''isotropic''" "normalize_name ''dipole'' = ''dipole''"
    "normalize_name ''sa-1400-5900'' = ''sa_1400_5900''"
    "normalize_name ''rm-wb1-dn-blk right side up'' = ''rm_wb1_dn_blk_right_side_up''"
    "normalize_name ''rm-wb1-dn-blk upside down'' = ''rm_wb1_dn_blk_upside_down''"
    by code_simp+
  then show ?thesis by (simp add: AvailableAntennas_def MakeAntenna_def)
qed

theorem available_antennas_build_witness:
  "MakeAntenna ''sa-1400-5900'' 3500000000 \<noteq> None"
  using available_antennas_build [of 3500000000] by (simp add: AvailableAntennas_def)

lemma wrap_degrees_range: "0 \<le> wrap_degrees d \<and> wrap_degrees d < 360"
proof -
  define q where "q = d / 360"
  then have d: "d = 360 * q" by simp
  define a b where "a = \<lfloor>q\<rfloor>" and "b = \<lceil>q\<rceil>"
  have "of_int a \<le> q" "q < of_int a + 1" "q \<le> of_int b" "of_int b < q + 1"
    unfolding a_def b_def by linarith+
  then show ?thesis by (auto simp: wrap_degrees_def Let_def d a_def [symmetric] b_def [symmetric])
qed

end
