(* ===== verification/Link_Channel.thy ===== *)
theory Link_Channel
  imports Dsp_Signal Antenna "HOL-Library.Monad_Syntax" "HOL-Library.Multiset"
begin

text \<open>
  One directed link: \<open>Channel\<close> of \<open>include/chem/channel/channel.h\<close> and
  \<open>src/chem/channel/channel.cpp\<close>, and the noise generator \<open>get_noise\<close> of
  \<open>src/chem/dsp/channel.cpp\<close>. The link is built with the destination's channel count first,
  so its coefficients are keyed by (destination port, source port). \<open>processChannel\<close> is the
  whole pipeline; the thread's state (antenna cache, noise buffer) and what the random
  number generators produce are passed explicitly.
\<close>

section \<open>State\<close>

text \<open>A pair of ports, two values of type \<open>size_t\<close>.\<close>

type_synonym chId = "u64 \<times> u64"

record Channel =
  ch_source :: string
  ch_dest :: string
  ch_txNumCh :: byte
  ch_rxNumCh :: byte
  ch_chTaps :: "(chId, complex list) omap"
  ch_portChCoeffs :: "(chId, fp) omap"
  ch_linkInfo :: NodeLink
  ch_txHeight :: fp
  ch_rxHeight :: fp
  ch_3gppScenario :: string
  ch_hataEnvironment :: string
  ch_itmRefractivity :: fp
  ch_itmGroundConductivity :: fp
  ch_itmGroundPermittivity :: fp
  ch_itmClimateZone :: int
  ch_noiseType :: NoiseType
  ch_plType :: PathLossType
  ch_plDb :: fp
  ch_snrMeasured :: fp
  ch_snrOverride :: "fp option"
  ch_shadowingStd :: fp
  ch_powerCounter :: byte
  ch_cachedSigPower :: fp
  ch_freqOffsetHz :: real
  ch_freqOffsetPhase :: "real list"
  ch_dopplerEnabled :: bool
  ch_dopplerHz :: real
  ch_cirApplyMethod :: CIRApplyMethod
  ch_activeExtension :: string
  ch_extensionBypassesPathLoss :: bool
  ch_extensionPathLossDb :: fp

text \<open>All pairs of ports, with coefficient one.\<close>

definition createPortCombinations :: "byte \<Rightarrow> byte \<Rightarrow> (chId, fp) omap" where
  "createPortCombinations txNumCh rxNumCh =
     fold (\<lambda>k. om_insert k (Fin 1))
       (concat (map (\<lambda>c0. map (\<lambda>c1. (of_nat c0, of_nat c1)) [0..<unat rxNumCh]) [0..<unat txNumCh])) []"

definition Channel_new :: "string \<Rightarrow> string \<Rightarrow> byte \<Rightarrow> byte \<Rightarrow> Channel" where
  "Channel_new source dest txNumCh rxNumCh =
     \<lparr>ch_source = source, ch_dest = dest, ch_txNumCh = txNumCh, ch_rxNumCh = rxNumCh, ch_chTaps = [],
      ch_portChCoeffs = createPortCombinations txNumCh rxNumCh, ch_linkInfo = init_NodeLink,
      ch_txHeight = Fin (3 / 2), ch_rxHeight = Fin (3 / 2), ch_3gppScenario = ''UMa'',
      ch_hataEnvironment = ''URBAN'', ch_itmRefractivity = Fin 301,
      ch_itmGroundConductivity = Fin (5 / 1000), ch_itmGroundPermittivity = Fin 15,
      ch_itmClimateZone = 5, ch_noiseType = AWGN, ch_plType = freeSpace, ch_plDb = Fin 0,
      ch_snrMeasured = Fin 0, ch_snrOverride = None, ch_shadowingStd = Fin 0, ch_powerCounter = 0,
      ch_cachedSigPower = Fin (- 100), ch_freqOffsetHz = 0,
      ch_freqOffsetPhase = replicate (unat txNumCh) 0, ch_dopplerEnabled = False, ch_dopplerHz = 0,
      ch_cirApplyMethod = FIR_CAUSAL, ch_activeExtension = '''',
      ch_extensionBypassesPathLoss = False, ch_extensionPathLossDb = Fin 0\<rparr>"

section \<open>Setters and getters\<close>

definition ch_updateDistance :: "fp \<Rightarrow> Channel \<Rightarrow> Channel" where
  "ch_updateDistance d c = c\<lparr>ch_linkInfo := (ch_linkInfo c)\<lparr>nl_dist := d\<rparr>\<rparr>"

definition getLinkDistance :: "Channel \<Rightarrow> fp" where
  "getLinkDistance c = nl_dist (ch_linkInfo c)"

definition ch_updateAltitude :: "fp \<Rightarrow> Channel \<Rightarrow> Channel" where
  "ch_updateAltitude a c = c\<lparr>ch_linkInfo := (ch_linkInfo c)\<lparr>nl_h_dist := a\<rparr>\<rparr>"

definition ch_updateElevation :: "fp \<Rightarrow> Channel \<Rightarrow> Channel" where
  "ch_updateElevation e c = c\<lparr>ch_linkInfo := (ch_linkInfo c)\<lparr>nl_elevation := e\<rparr>\<rparr>"

definition ch_updateAzimuth :: "fp \<Rightarrow> Channel \<Rightarrow> Channel" where
  "ch_updateAzimuth a c = c\<lparr>ch_linkInfo := (ch_linkInfo c)\<lparr>nl_azimuth := a\<rparr>\<rparr>"

definition updateHeights :: "fp \<Rightarrow> fp \<Rightarrow> Channel \<Rightarrow> Channel" where
  "updateHeights tx rx c =
     c\<lparr>ch_txHeight := (if isfinite tx then tx else ch_txHeight c),
       ch_rxHeight := (if isfinite rx then rx else ch_rxHeight c)\<rparr>"

definition updateNoiseType :: "NoiseType \<Rightarrow> Channel \<Rightarrow> Channel" where
  "updateNoiseType n c = c\<lparr>ch_noiseType := n\<rparr>"

definition updatePlType :: "PathLossType \<Rightarrow> Channel \<Rightarrow> Channel" where
  "updatePlType p c = c\<lparr>ch_plType := p\<rparr>"

definition setPl :: "fp \<Rightarrow> Channel \<Rightarrow> Channel" where
  "setPl pl c = c\<lparr>ch_plDb := pl\<rparr>"

definition update3gppScenario :: "string \<Rightarrow> Channel \<Rightarrow> Channel" where
  "update3gppScenario s c = (if s \<noteq> [] then c\<lparr>ch_3gppScenario := s\<rparr> else c)"

definition updateHataEnvironment :: "string \<Rightarrow> Channel \<Rightarrow> Channel" where
  "updateHataEnvironment s c = (if s \<noteq> [] then c\<lparr>ch_hataEnvironment := s\<rparr> else c)"

definition updateITMParams :: "fp \<Rightarrow> fp \<Rightarrow> fp \<Rightarrow> int \<Rightarrow> Channel \<Rightarrow> Channel" where
  "updateITMParams refr cond perm zone c =
     c\<lparr>ch_itmRefractivity := (if isfinite refr then refr else ch_itmRefractivity c),
       ch_itmGroundConductivity := (if isfinite cond then cond else ch_itmGroundConductivity c),
       ch_itmGroundPermittivity := (if isfinite perm then perm else ch_itmGroundPermittivity c),
       ch_itmClimateZone := clamp_int zone 1 7\<rparr>"

definition ch_setShadowingSTD :: "fp \<Rightarrow> Channel \<Rightarrow> Channel" where
  "ch_setShadowingSTD s c = c\<lparr>ch_shadowingStd := s\<rparr>"

definition setActiveExtension :: "string \<Rightarrow> bool \<Rightarrow> Channel \<Rightarrow> Channel" where
  "setActiveExtension name bypass c =
     c\<lparr>ch_activeExtension := name, ch_extensionBypassesPathLoss := bypass\<rparr>"

definition clearActiveExtension :: "Channel \<Rightarrow> Channel" where
  "clearActiveExtension c = c\<lparr>ch_activeExtension := '''', ch_extensionBypassesPathLoss := False,
     ch_extensionPathLossDb := Fin 0\<rparr>"

definition setExtensionPathLossDb :: "fp \<Rightarrow> Channel \<Rightarrow> Channel" where
  "setExtensionPathLossDb pl c = c\<lparr>ch_extensionPathLossDb := pl\<rparr>"

definition updateSNR :: "fp \<Rightarrow> Channel \<Rightarrow> Channel" where
  "updateSNR s c = c\<lparr>ch_snrOverride := Some s\<rparr>"

definition clearSNROverride :: "Channel \<Rightarrow> Channel" where
  "clearSNROverride c = c\<lparr>ch_snrOverride := None\<rparr>"

definition getSNR :: "Channel \<Rightarrow> fp" where
  "getSNR c = (case ch_snrOverride c of Some s \<Rightarrow> s | None \<Rightarrow> ch_snrMeasured c)"

definition getChCoeffs :: "byte \<Rightarrow> byte \<Rightarrow> Channel \<Rightarrow> fp" where
  "getChCoeffs src dest c =
     (case om_find (ch_portChCoeffs c) (ucast src, ucast dest) of Some v \<Rightarrow> v | None \<Rightarrow> Fin 0)"

definition updateChCoeff :: "chId \<Rightarrow> fp \<Rightarrow> Channel \<Rightarrow> Channel" where
  "updateChCoeff k v c =
     (case om_find (ch_portChCoeffs c) k of
        Some _ \<Rightarrow> c\<lparr>ch_portChCoeffs := om_set k v (ch_portChCoeffs c)\<rparr>
      | None \<Rightarrow> c)"

definition setCIRApplyMethod :: "CIRApplyMethod \<Rightarrow> Channel \<Rightarrow> Channel" where
  "setCIRApplyMethod m c = c\<lparr>ch_cirApplyMethod := m\<rparr>"

definition updateChTaps :: "chId \<Rightarrow> complex list \<Rightarrow> Channel \<Rightarrow> Channel" where
  "updateChTaps k taps c = c\<lparr>ch_chTaps := om_set k taps (ch_chTaps c)\<rparr>"

definition clearChTaps :: "chId \<Rightarrow> Channel \<Rightarrow> Channel" where
  "clearChTaps k c = c\<lparr>ch_chTaps := om_erase k (ch_chTaps c)\<rparr>"

definition getChTapCount :: "chId \<Rightarrow> Channel \<Rightarrow> nat" where
  "getChTapCount k c = (case om_find (ch_chTaps c) k of None \<Rightarrow> 0 | Some t \<Rightarrow> length t)"

definition fp_finite_or_zero :: "fp \<Rightarrow> real" where
  "fp_finite_or_zero x = (case x of Fin r \<Rightarrow> r | _ \<Rightarrow> 0)"

definition setFrequencyOffsetHz :: "fp \<Rightarrow> Channel \<Rightarrow> Channel" where
  "setFrequencyOffsetHz f c = c\<lparr>ch_freqOffsetHz := fp_finite_or_zero f\<rparr>"

definition setDopplerEnabled :: "bool \<Rightarrow> Channel \<Rightarrow> Channel" where
  "setDopplerEnabled b c = c\<lparr>ch_dopplerEnabled := b\<rparr>"

definition setDopplerHz :: "fp \<Rightarrow> Channel \<Rightarrow> Channel" where
  "setDopplerHz f c = c\<lparr>ch_dopplerHz := fp_finite_or_zero f\<rparr>"

section \<open>Frequency offset\<close>

definition applyFrequencyOffset ::
  "VOLK \<Rightarrow> complex list \<Rightarrow> nat \<Rightarrow> fp \<Rightarrow> nat \<Rightarrow> Channel \<Rightarrow> (complex list \<times> Channel) option" where
  "applyFrequencyOffset V sig n sample_rate_hz dest_channel_index c =
     (let total = ch_freqOffsetHz c + (if ch_dopplerEnabled c then ch_dopplerHz c else 0)
      in if total = 0 \<or> length (ch_freqOffsetPhase c) \<le> dest_channel_index then Some (sig, c)
         else
           map_option
             (\<lambda>(s, ph). (s, c\<lparr>ch_freqOffsetPhase := (ch_freqOffsetPhase c)[dest_channel_index := ph]\<rparr>))
             (apply_frequency_offset V sig n sample_rate_hz (Fin total)
                (ch_freqOffsetPhase c ! dest_channel_index)))"

section \<open>Link budget\<close>

record LinkBudget =
  lb_tx_gain_db :: real
  lb_rx_gain_db :: real
  lb_noise_figure_db :: real
  lb_tx_ant_gain_db :: fp
  lb_rx_ant_gain_db :: fp
  lb_tx_cable_loss_db :: real
  lb_rx_cable_loss_db :: real
  lb_source_power_dbfs :: fp

definition computeLinkBudget ::
  "(string \<Rightarrow> real \<Rightarrow> real \<Rightarrow> real \<Rightarrow> fp) \<Rightarrow> antenna_cache \<Rightarrow> NodeConfig \<Rightarrow> NodeConfig \<Rightarrow> real \<Rightarrow> Channel \<Rightarrow>
   LinkBudget \<times> antenna_cache" where
  "computeLinkBudget gen cache src dst frequency_hz c =
     (let el = nl_elevation (ch_linkInfo c); az = nl_azimuth (ch_linkInfo c);
          (ta, cache1) = compute_antenna_gain_db gen cache src True frequency_hz el az;
          (ra, cache2) = compute_antenna_gain_db gen cache1 dst False frequency_hz el az
      in (\<lparr>lb_tx_gain_db = (if nc_hasDeviceTxGain src then nc_deviceTxGain src else 15) +
             (case nc_characteristics src of Some k \<Rightarrow> ch_tx_pa_gain_db k | None \<Rightarrow> 0),
           lb_rx_gain_db = (if nc_hasDeviceRxGain dst then nc_deviceRxGain dst else 10) +
             (case nc_characteristics dst of Some k \<Rightarrow> ch_rx_gain_db k | None \<Rightarrow> 0),
           lb_noise_figure_db =
             (case nc_characteristics src of Some k \<Rightarrow> ch_tx_noise_figure_db k | None \<Rightarrow> 0) +
             (case nc_characteristics dst of Some k \<Rightarrow> ch_rx_noise_figure_db k | None \<Rightarrow> 0),
           lb_tx_ant_gain_db = ta, lb_rx_ant_gain_db = ra,
           lb_tx_cable_loss_db = (case nc_characteristics src of Some k \<Rightarrow> ch_cable_loss_db k | None \<Rightarrow> 0),
           lb_rx_cable_loss_db = (case nc_characteristics dst of Some k \<Rightarrow> ch_cable_loss_db k | None \<Rightarrow> 0),
           lb_source_power_dbfs = (case nc_characteristics src of Some k \<Rightarrow> ch_source_power_dbfs k | None \<Rightarrow> NaN)\<rparr>,
          cache2))"

section \<open>Path loss of the link\<close>

text \<open>What one call draws from the random number generator: the uniform sample of the 3GPP
  model and the shadowing sample.\<close>

record draws =
  dr_uniform :: real
  dr_shadow :: fp

definition computePathLoss ::
  "fp \<Rightarrow> PropagationModel \<Rightarrow> real \<Rightarrow> fp \<Rightarrow> draws \<Rightarrow> Channel \<Rightarrow> fp" where
  "computePathLoss distance model freq ground_coeff dr c =
     (if ch_extensionBypassesPathLoss c then ch_extensionPathLossDb c
      else
        case model of
          FREE_SPACE \<Rightarrow> calc_fspl distance (Fin freq) (ch_shadowingStd c) (dr_shadow dr)
        | TWO_RAY \<Rightarrow>
            calc_2ray distance (Fin freq) (ch_txHeight c) (ch_rxHeight c) ground_coeff
              (ch_shadowingStd c) (dr_shadow dr)
        | THREE_GPP_38_901 \<Rightarrow>
            calc_3gpp_38_901 distance (Fin freq) (fp_max (Fin (1 / 100)) (ch_rxHeight c))
              (fp_max (Fin (1 / 100)) (ch_txHeight c)) (ch_3gppScenario c) (ch_shadowingStd c)
              (dr_uniform dr) (dr_shadow dr)
        | OKUMURA_HATA \<Rightarrow>
            calc_okumura_hata distance (Fin freq) (fp_max (Fin 1) (ch_txHeight c))
              (fp_max (Fin 1) (ch_rxHeight c)) (ch_hataEnvironment c) (ch_shadowingStd c) (dr_shadow dr)
        | LONGLEY_RICE \<Rightarrow>
            calc_longley_rice distance (Fin freq) (ch_txHeight c) (ch_rxHeight c) (ch_itmRefractivity c)
              (ch_itmGroundConductivity c) (ch_itmGroundPermittivity c) (ch_itmClimateZone c)
              (ch_shadowingStd c) (dr_shadow dr)
        | PM_NONE \<Rightarrow> Fin 0
        | PM_UNKNOWN \<Rightarrow> Fin 0)"

section \<open>Noise\<close>

record noise_state =
  ns_noise :: "complex list option"
  ns_cached_bw :: real
  ns_cached_nf :: real
  ns_cached_sigma :: real
  ns_needs_regen :: bool

definition noise_init :: noise_state where
  "noise_init = \<lparr>ns_noise = None, ns_cached_bw = 0, ns_cached_nf = 0, ns_cached_sigma = 0,
     ns_needs_regen = True\<rparr>"

definition safe_noise_bw :: "fp \<Rightarrow> real" where
  "safe_noise_bw bw = (case bw of Fin r \<Rightarrow> if r \<le> 0 then 1 else r | _ \<Rightarrow> 1)"

definition noise_floor_dbfs :: "real \<Rightarrow> real \<Rightarrow> real" where
  "noise_floor_dbfs bandwidth nf = - 174 + 10 * log 10 (safe_noise_bw (Fin bandwidth)) + nf"

text \<open>\<open>gauss sigma n\<close> are the samples the normal distribution yields, \<open>shuf\<close> the
  permutation of \<open>std::shuffle\<close>.\<close>

definition get_noise ::
  "(real \<Rightarrow> nat \<Rightarrow> complex list) \<Rightarrow> (complex list \<Rightarrow> complex list) \<Rightarrow> nat \<Rightarrow> real \<Rightarrow> NoiseType \<Rightarrow> real \<Rightarrow>
   noise_state \<Rightarrow> complex list \<times> noise_state" where
  "get_noise gauss shuf n bandwidth ty nf ns =
     (let ns1 = (if 1 / 10 ^ 6 < \<bar>bandwidth - ns_cached_bw ns\<bar> \<or> 1 / 10 ^ 6 < \<bar>nf - ns_cached_nf ns\<bar>
                 then ns\<lparr>ns_cached_bw := bandwidth, ns_cached_nf := nf,
                        ns_cached_sigma := sqrt (max 0 (DB_TO_LIN (noise_floor_dbfs bandwidth nf)) / 2),
                        ns_needs_regen := True\<rparr>
                 else ns);
          ns2 = (case ns_noise ns1 of
                   Some v \<Rightarrow> if length v \<noteq> n
                             then ns1\<lparr>ns_noise := Some (replicate n 0), ns_needs_regen := True\<rparr> else ns1
                 | None \<Rightarrow> ns1\<lparr>ns_noise := Some (replicate n 0), ns_needs_regen := True\<rparr>);
          v = the (ns_noise ns2)
      in if ty = NoiseNONE then (replicate n 0, ns2\<lparr>ns_noise := Some (replicate n 0)\<rparr>)
         else if ns_needs_regen ns2
         then (gauss (ns_cached_sigma ns2) n,
               ns2\<lparr>ns_noise := Some (gauss (ns_cached_sigma ns2) n), ns_needs_regen := False\<rparr>)
         else (shuf v, ns2\<lparr>ns_noise := Some (shuf v)\<rparr>))"

section \<open>The pipeline\<close>

text \<open>What the code calls outside the sources, and what the thread keeps between calls.\<close>

record dsp_env =
  de_volk :: VOLK
  de_gen :: "string \<Rightarrow> real \<Rightarrow> real \<Rightarrow> real \<Rightarrow> fp"
  de_gauss :: "real \<Rightarrow> nat \<Rightarrow> complex list"
  de_shuf :: "complex list \<Rightarrow> complex list"
  de_draws :: draws

record thread_state =
  ts_antennas :: antenna_cache
  ts_noise :: noise_state

record ChannelProcessParams =
  cp_coeff :: fp
  cp_s_perBuff :: nat
  cp_sample_ratio :: real
  cp_sample_rate_hz :: fp
  cp_src_channel_index :: nat
  cp_dest_channel_index :: nat
  cp_propagationModel :: PropagationModel
  cp_ground_coeff :: fp
  cp_src_config :: "NodeConfig option"
  cp_dest_config :: "NodeConfig option"
  cp_freq :: real

text \<open>The first stage: resample if the rates differ, and scale by the port coefficient.\<close>

definition process_scale ::
  "VOLK \<Rightarrow> complex list \<Rightarrow> complex list \<Rightarrow> ChannelProcessParams \<Rightarrow> complex list option" where
  "process_scale V src dest p =
     (let gain = complex_of_real (fp_finite_or_zero (cp_coeff p)); n = cp_s_perBuff p
      in if cp_sample_ratio p \<noteq> 1 then do {
           d \<leftarrow> resample V src dest (cp_sample_ratio p) (nat \<lfloor>real n / cp_sample_ratio p\<rfloor>);
           fc32_mul_scalar V d gain d n
         }
         else fc32_mul_scalar V src gain dest n)"

text \<open>The power of the signal in dBFS: the node's reference power, or a measurement taken
  every fourth call.\<close>

definition process_power ::
  "VOLK \<Rightarrow> complex list \<Rightarrow> nat \<Rightarrow> fp \<Rightarrow> Channel \<Rightarrow> (fp \<times> Channel) option" where
  "process_power V dest n source_power_dbfs c =
     (if isfinite source_power_dbfs then Some (source_power_dbfs, c)
      else
        let k = ch_powerCounter c + 1
        in if 4 \<le> k \<or> fp_le (ch_cachedSigPower c) (Fin (- 100)) then do {
             pw \<leftarrow> calc_power V dest n;
             let sp = fp_mul (Fin 10) (fp_log10 (Fin (pw + LOG_SAFE_GUARD)));
             Some (sp, c\<lparr>ch_powerCounter := 0, ch_cachedSigPower := sp\<rparr>)
           }
           else Some (ch_cachedSigPower c, c\<lparr>ch_powerCounter := k\<rparr>))"

definition cir_taps :: "ChannelProcessParams \<Rightarrow> Channel \<Rightarrow> complex list option" where
  "cir_taps p c =
     (case om_find (ch_chTaps c) (of_nat (cp_dest_channel_index p), of_nat (cp_src_channel_index p)) of
        Some taps \<Rightarrow> if ch_cirApplyMethod c \<noteq> CIR_NONE \<and> taps \<noteq> [] then Some taps else None
      | None \<Rightarrow> None)"

definition process_cir ::
  "VOLK \<Rightarrow> complex list \<Rightarrow> ChannelProcessParams \<Rightarrow> Channel \<Rightarrow> (complex list \<times> fp) option" where
  "process_cir V dest p c =
     (let n = cp_s_perBuff p
      in case cir_taps p c of
           None \<Rightarrow> Some (dest, Fin 0)
         | Some taps \<Rightarrow> do {
             loss \<leftarrow> (if ch_extensionBypassesPathLoss c then do {
                        pw \<leftarrow> calc_power V taps (length taps);
                        let energy = pw * real (length taps);
                        Some (if 0 < energy then Fin (10 * log 10 energy) else Fin 0)
                      } else Some (Fin 0));
             d \<leftarrow> (if ch_cirApplyMethod c = DIRECT_CONV then do {
                     t \<leftarrow> apply_cir V dest (replicate n 0) taps n DIRECT_CONV;
                     buf_write dest 0 (take n t)
                   } else apply_cir V dest dest taps n (ch_cirApplyMethod c));
             Some (d, loss)
           })"

text \<open>The last stage: scale to the received power, add the noise, and turn by the frequency offset.\<close>

definition process_mix ::
  "VOLK \<Rightarrow> complex list \<Rightarrow> real \<Rightarrow> complex list \<Rightarrow> bool \<Rightarrow> ChannelProcessParams \<Rightarrow> Channel \<Rightarrow>
   (complex list \<times> Channel) option" where
  "process_mix V dest rx_scale noise src_sc16 p c =
     (let n = cp_s_perBuff p
      in do {
        d1 \<leftarrow> fc32_mul_scalar_sum V dest (complex_of_real rx_scale) noise dest n;
        d2 \<leftarrow> (if src_sc16 then fc32_lshift V d1 4 d1 n else Some d1);
        applyFrequencyOffset V d2 n (cp_sample_rate_hz p) (cp_dest_channel_index p) c
      })"

definition processChannel ::
  "dsp_env \<Rightarrow> complex list \<Rightarrow> complex list \<Rightarrow> ChannelProcessParams \<Rightarrow> thread_state \<Rightarrow> Channel \<Rightarrow>
   (complex list \<times> thread_state \<times> Channel) option" where
  "processChannel env src dest p ts c =
     (case (cp_src_config p, cp_dest_config p) of
        (Some sc, Some dc) \<Rightarrow> do {
          let V = de_volk env;
          let n = cp_s_perBuff p;
          let (b, cache) = computeLinkBudget (de_gen env) (ts_antennas ts) sc dc (cp_freq p) c;
          let distance = getLinkDistance c;
          d1 \<leftarrow> process_scale V src dest p;
          let sc16 = (nc_outputFormat sc = ''sc16'' \<or> nc_inputFormat sc = ''sc16'');
          (sig_power, c1) \<leftarrow> process_power V d1 n (lb_source_power_dbfs b) c;
          let use_ref = isfinite (lb_source_power_dbfs b);
          let has_signal = (isfinite sig_power \<and> fp_less (Fin (- 100)) sig_power);
          let sig_ref = (if use_ref then lb_source_power_dbfs b
                         else if has_signal then sig_power else Fin (- 100));
          let noise_bw = (case cp_sample_rate_hz p of Fin r \<Rightarrow> if 0 < r then r else 1 | _ \<Rightarrow> 1);
          let p_tx = fp_sub (fp_add (fp_add sig_ref (Fin (lb_tx_gain_db b))) (lb_tx_ant_gain_db b))
                            (Fin (lb_tx_cable_loss_db b));
          (d2, cir_loss) \<leftarrow> process_cir V d1 p c1;
          let pl = computePathLoss distance (cp_propagationModel p) (cp_freq p) (cp_ground_coeff p)
                     (de_draws env) c1;
          let c2 = c1\<lparr>ch_plDb := pl\<rparr>;
          let p_in = fp_add sig_ref cir_loss;
          let p_rx = fp_min (fp_sub (fp_add (fp_add (fp_sub (fp_add p_tx cir_loss) pl) (Fin (lb_rx_gain_db b)))
                                            (lb_rx_ant_gain_db b)) (Fin (lb_rx_cable_loss_db b))) (Fin 0);
          let (noise, ns) = get_noise (de_gauss env) (de_shuf env) n noise_bw (ch_noiseType c2)
                              (lb_noise_figure_db b + lb_rx_gain_db b) (ts_noise ts);
          noise_power \<leftarrow> calc_power V noise n;
          let scale_db = (case fp_sub p_rx p_in of Fin r \<Rightarrow> r | _ \<Rightarrow> - 300);
          let snr = fp_sub p_rx (fp_mul (Fin 10) (fp_log10 (Fin noise_power)));
          (d3, c3) \<leftarrow> process_mix V d2 (sqrt (DB_TO_LIN scale_db)) noise sc16 p c2;
          let c4 = (if has_signal \<or> use_ref then c3\<lparr>ch_snrMeasured := snr\<rparr> else c3);
          Some (d3, \<lparr>ts_antennas = cache, ts_noise = ns\<rparr>, c4)
        }
      | _ \<Rightarrow> Some (dest, ts, c))"

section \<open>Ports\<close>

lemma size_port: "unat (a :: byte) < 2 ^ 64"
  using unsigned_less [of a, where 'a = nat] by simp

lemma createPortCombinations_find:
  "om_find (createPortCombinations t r) (a, b) = (if unat a < unat t \<and> unat b < unat r then Some (Fin 1) else None)"
proof -
  let ?ks = "concat (map (\<lambda>c0. map (\<lambda>c1. (of_nat c0, of_nat c1)) [0..<unat r]) [0..<unat t]) :: chId list"
  have mem: "(a, b) \<in> set ?ks \<longleftrightarrow> unat a < unat t \<and> unat b < unat r"
  proof
    assume "(a, b) \<in> set ?ks"
    then obtain i j where ij: "i < unat t" "j < unat r" "a = of_nat i" "b = of_nat j" by auto
    have "i < 2 ^ 64" "j < 2 ^ 64" using ij(1,2) size_port [of t] size_port [of r] by (meson less_trans)+
    then show "unat a < unat t \<and> unat b < unat r" using ij by (simp add: unat_of_nat take_bit_nat_eq_self)
  next
    assume "unat a < unat t \<and> unat b < unat r"
    then show "(a, b) \<in> set ?ks" by (auto intro!: bexI [of _ "unat a"] image_eqI [of _ _ "unat b"])
  qed
  show ?thesis
    unfolding createPortCombinations_def om.find_fold_ins [of "\<lambda>_. Fin 1"] using mem by simp
qed

text \<open>A new link has coefficient one for exactly the pairs of ports the two ends have and
  zero for all others, and setting a coefficient changes that pair only, and only when the
  pair exists.\<close>

theorem channel_coefficients:
  "getChCoeffs a b (Channel_new s d t r) = (if a < t \<and> b < r then Fin 1 else Fin 0) \<and>
   getChCoeffs a b (updateChCoeff k v c) =
     (if k = (ucast a, ucast b) \<and> om_find (ch_portChCoeffs c) k \<noteq> None then v else getChCoeffs a b c)"
proof -
  have "unat (ucast x :: u64) = unat x" for x :: byte
    using size_port [of x] by (simp add: unsigned_ucast_eq take_bit_nat_eq_self)
  then show ?thesis
    by (auto simp: getChCoeffs_def Channel_new_def createPortCombinations_find updateChCoeff_def om_find_set
        word_less_nat_alt split: option.splits)
qed

section \<open>Noise\<close>

text \<open>Noise that is switched off on one link goes silent on every link the same thread
  serves: after a call for a link without noise, the next call for a link with noise of the
  same bandwidth, noise figure and burst size gets zeros, because the buffer was cleared but
  not marked for regeneration.\<close>

theorem get_noise_stays_silent:
  assumes "ns_noise ns = Some v" and "length v = n" and "\<not> ns_needs_regen ns"
    and "ns_cached_bw ns = bw" and "ns_cached_nf ns = nf" and "\<And>xs. mset (shuf xs) = mset xs"
  shows "fst (get_noise gauss shuf n bw AWGN nf (snd (get_noise gauss shuf n bw NoiseNONE nf ns))) = replicate n 0"
proof -
  have "shuf (replicate n (0 :: complex)) = replicate n 0"
  proof (rule replicate_eqI)
    have m: "mset (shuf (replicate n (0 :: complex))) = mset (replicate n 0)" by (rule assms(6))
    show "length (shuf (replicate n (0 :: complex))) = n" using mset_eq_length [OF m] by simp
    show "y = 0" if "y \<in> set (shuf (replicate n 0))" for y :: complex
      using that m by (metis in_set_replicate set_mset_mset)
  qed
  then show ?thesis using assms(1-5) by (simp add: get_noise_def Let_def)
qed

theorem get_noise_stays_silent_witness:
  "fst (get_noise (\<lambda>_ n. replicate n 1) rev 2 1 AWGN 6
     (snd (get_noise (\<lambda>_ n. replicate n 1) rev 2 1 NoiseNONE 6
       (snd (get_noise (\<lambda>_ n. replicate n 1) rev 2 1 AWGN 6 noise_init))))) = [0, 0]"
proof -
  let ?ns = "snd (get_noise (\<lambda>_ n. replicate n 1) rev 2 1 AWGN 6 noise_init)"
  have "fst (get_noise (\<lambda>_ n. replicate n 1) rev 2 1 AWGN 6
     (snd (get_noise (\<lambda>_ n. replicate n 1) rev 2 1 NoiseNONE 6 ?ns))) = replicate 2 0"
    by (rule get_noise_stays_silent [where v = "[1, 1]"])
      (simp_all add: get_noise_def noise_init_def Let_def numeral_2_eq_2)
  then show ?thesis by (simp add: numeral_2_eq_2)
qed

section \<open>The pipeline is safe\<close>

text \<open>A stage that returns, keeps the size of the buffer, and (when \<open>b\<close>) leaves what is
  behind the burst alone.\<close>

definition stage :: "bool \<Rightarrow> nat \<Rightarrow> complex list \<Rightarrow> complex list option \<Rightarrow> bool" where
  "stage b n d r \<longleftrightarrow> (\<exists>d'. r = Some d' \<and> length d' = length d \<and> (b \<longrightarrow> drop n d' = drop n d))"

lemma stage_Some [simp]: "stage b n d (Some d)"
  by (simp add: stage_def)

lemma stageE:
  assumes "stage b n d r"
  obtains d' where "r = Some d'" and "length d' = length d" and "b \<Longrightarrow> drop n d' = drop n d"
  using assms by (auto simp: stage_def)

lemma stage_buf_write:
  "length xs \<le> length d \<Longrightarrow> (b \<Longrightarrow> length xs \<le> n) \<Longrightarrow> stage b n d (buf_write d 0 xs)"
  by (auto simp: stage_def buf_write_def)

lemma stage_mul_scalar:
  "volk_ok V \<Longrightarrow> n \<le> length s \<Longrightarrow> n \<le> length d \<Longrightarrow> stage b n d (fc32_mul_scalar V s g d n)"
  by (auto simp: fc32_mul_scalar_def volk_s_multiply intro!: stage_buf_write)

lemma stage_mul_scalar_sum:
  assumes "volk_ok V" and "n \<le> length s" and "n \<le> length d" and "n \<le> length x"
  shows "stage b n d (fc32_mul_scalar_sum V s g x d n)"
proof -
  obtain d1 where d1: "fc32_mul_scalar V s g d n = Some d1" "length d1 = length d" "drop n d1 = drop n d"
    using stage_mul_scalar [OF assms(1-3), of True g] by (auto simp: stage_def)
  have "stage b n d1 (fc32_sum V d1 x d1 n)"
    using assms d1(2) by (auto simp: fc32_sum_def volk_ok_def intro!: stage_buf_write)
  then show ?thesis using d1 by (auto simp: fc32_mul_scalar_sum_def stage_def)
qed

lemma stage_frequency_offset:
  assumes "volk_ok V" and "n \<le> length d"
  shows "\<exists>d' ph'. apply_frequency_offset V d n fs fo ph = Some (d', ph') \<and> length d' = length d \<and> drop n d' = drop n d"
  using assms by (auto simp: apply_frequency_offset_def Let_def volk_ok_def buf_write_def split: fp.splits)

lemma applyFrequencyOffset_safe:
  assumes "volk_ok V" and "n \<le> length d"
  obtains d' ph where "applyFrequencyOffset V d n fs i c = Some (d', c\<lparr>ch_freqOffsetPhase := ph\<rparr>)"
    and "length d' = length d" and "drop n d' = drop n d"
proof (cases "ch_freqOffsetHz c + (if ch_dopplerEnabled c then ch_dopplerHz c else 0) = 0 \<or>
    length (ch_freqOffsetPhase c) \<le> i")
  case True
  then have "applyFrequencyOffset V d n fs i c = Some (d, c\<lparr>ch_freqOffsetPhase := ch_freqOffsetPhase c\<rparr>)"
    by (simp add: applyFrequencyOffset_def Let_def)
  then show ?thesis by (rule that) simp_all
next
  case False
  obtain d' ph' where "apply_frequency_offset V d n fs
      (Fin (ch_freqOffsetHz c + (if ch_dopplerEnabled c then ch_dopplerHz c else 0))) (ch_freqOffsetPhase c ! i) =
      Some (d', ph')" and l: "length d' = length d" "drop n d' = drop n d"
    using stage_frequency_offset [OF assms] by metis
  then have "applyFrequencyOffset V d n fs i c =
      Some (d', c\<lparr>ch_freqOffsetPhase := (ch_freqOffsetPhase c)[i := ph']\<rparr>)"
    using False by (auto simp: applyFrequencyOffset_def Let_def)
  then show ?thesis using l by (rule that)
qed

lemma calc_power_Some: "n \<le> length xs \<Longrightarrow> \<exists>r. calc_power V xs n = Some r"
  by (simp add: calc_power_def)

lemma process_power_safe:
  assumes "n \<le> length d"
  obtains s k q where "process_power V d n sp c = Some (s, c\<lparr>ch_powerCounter := k, ch_cachedSigPower := q\<rparr>)"
proof -
  obtain r where r: "calc_power V d n = Some r" using calc_power_Some [OF assms] by blast
  obtain s c' where p: "process_power V d n sp c = Some (s, c')"
    by (cases "process_power V d n sp c") (auto simp: process_power_def Let_def r split: if_splits)
  then have "c' = c\<lparr>ch_powerCounter := ch_powerCounter c', ch_cachedSigPower := ch_cachedSigPower c'\<rparr>"
    by (auto simp: process_power_def Let_def r split: if_splits)
  with p show ?thesis using that by metis
qed

lemma stage_apply_cir:
  assumes "volk_ok V" and "n \<le> length d" and "taps \<noteq> []" and "m \<noteq> DIRECT_CONV"
  shows "stage (m \<noteq> FIR_CENTERED) n d (apply_cir V d d taps n m)"
  using assms
  by (cases m) (auto simp: apply_cir_def apply_cir_fir_causal_def fir_filter_c_def Let_def grow_def
      volk_s_multiply intro!: stage_buf_write)

lemma stage_direct_conv:
  assumes "n \<le> length d" and "taps \<noteq> []"
  shows "\<exists>t. apply_cir V d (replicate n 0) taps n DIRECT_CONV = Some t \<and> length t = n"
  using assms by (auto simp: apply_cir_def apply_cir_direct_conv_def Let_def grow_def buf_write_def)

lemma process_cir_safe:
  assumes V: "volk_ok V" and n: "cp_s_perBuff p \<le> length d"
  obtains d' loss where "process_cir V d p c = Some (d', loss)" and "length d' = length d"
    and "ch_cirApplyMethod c \<noteq> FIR_CENTERED \<Longrightarrow> drop (cp_s_perBuff p) d' = drop (cp_s_perBuff p) d"
proof (cases "cir_taps p c")
  case None
  then show ?thesis using that by (simp add: process_cir_def)
next
  case (Some taps)
  then have ne: "taps \<noteq> []" by (auto simp: cir_taps_def split: option.splits if_splits)
  obtain r where r: "calc_power V taps (length taps) = Some r" using calc_power_Some by blast
  let ?n = "cp_s_perBuff p"
  have "stage (ch_cirApplyMethod c \<noteq> FIR_CENTERED) ?n d
      (if ch_cirApplyMethod c = DIRECT_CONV
       then Option.bind (apply_cir V d (replicate ?n 0) taps ?n DIRECT_CONV) (\<lambda>t. buf_write d 0 (take ?n t))
       else apply_cir V d d taps ?n (ch_cirApplyMethod c))"
    using stage_direct_conv [OF n ne, of V] stage_apply_cir [OF V n ne] n by (auto intro!: stage_buf_write)
  then obtain d' where d': "(if ch_cirApplyMethod c = DIRECT_CONV
       then Option.bind (apply_cir V d (replicate ?n 0) taps ?n DIRECT_CONV) (\<lambda>t. buf_write d 0 (take ?n t))
       else apply_cir V d d taps ?n (ch_cirApplyMethod c)) = Some d'" and len: "length d' = length d"
    and tl: "ch_cirApplyMethod c \<noteq> FIR_CENTERED \<Longrightarrow> drop ?n d' = drop ?n d"
    by (elim stageE) blast
  obtain loss where "process_cir V d p c = Some (d', loss)"
    by (cases "ch_extensionBypassesPathLoss c") (simp_all add: process_cir_def Let_def Some r d')
  from this len tl show ?thesis by (rule that)
qed

lemma process_mix_safe:
  assumes V: "volk_ok V" and n: "cp_s_perBuff p \<le> length d" and v: "length v = cp_s_perBuff p"
  shows "\<exists>y. process_mix V d g v sc16 p c = Some (fst y, c\<lparr>ch_freqOffsetPhase := snd y\<rparr>) \<and>
    length (fst y) = length d \<and> drop (cp_s_perBuff p) (fst y) = drop (cp_s_perBuff p) d"
proof -
  let ?n = "cp_s_perBuff p"
  obtain d1 where d1: "fc32_mul_scalar_sum V d (complex_of_real g) v d ?n = Some d1" "length d1 = length d"
    "drop ?n d1 = drop ?n d"
    using stage_mul_scalar_sum [OF V, of ?n d d v True] n v by (auto simp: stage_def)
  obtain d2 where d2: "(if sc16 then fc32_lshift V d1 4 d1 ?n else Some d1) = Some d2" "length d2 = length d"
    "drop ?n d2 = drop ?n d"
    using stage_mul_scalar [OF V, of ?n d1 d1 True "2 ^ 4"] n d1(2,3) unfolding stage_def fc32_lshift_def
    by (cases sc16) auto
  have n2: "?n \<le> length d2" using n d2(2) by simp
  obtain d3 ph where "applyFrequencyOffset V d2 ?n (cp_sample_rate_hz p) (cp_dest_channel_index p) c =
      Some (d3, c\<lparr>ch_freqOffsetPhase := ph\<rparr>)" "length d3 = length d2" "drop ?n d3 = drop ?n d2"
    by (rule applyFrequencyOffset_safe [OF V n2])
  then show ?thesis using d1 d2 by (intro exI [of _ "(d3, ph)"]) (simp add: process_mix_def Let_def)
qed

lemma processChannel_result:
  assumes V: "volk_ok (de_volk env)" and g: "\<And>s k. length (de_gauss env s k) = k"
    and sh: "\<And>xs. length (de_shuf env xs) = length xs"
    and cfg: "cp_src_config p = Some sc" "cp_dest_config p = Some dc"
    and ratio: "cp_sample_ratio p = 1"
    and ns: "cp_s_perBuff p \<le> length src" and nd: "cp_s_perBuff p \<le> length dest"
  shows "\<exists>dest' ts' c'. processChannel env src dest p ts c = Some (dest', ts', c') \<and>
    length dest' = length dest \<and>
    (ch_cirApplyMethod c \<noteq> FIR_CENTERED \<longrightarrow> drop (cp_s_perBuff p) dest' = drop (cp_s_perBuff p) dest) \<and>
    ch_plDb c' = computePathLoss (getLinkDistance c) (cp_propagationModel p) (cp_freq p)
      (cp_ground_coeff p) (de_draws env) c \<and>
    ch_portChCoeffs c' = ch_portChCoeffs c \<and> ch_chTaps c' = ch_chTaps c \<and>
    ch_source c' = ch_source c \<and> ch_dest c' = ch_dest c \<and> ch_cirApplyMethod c' = ch_cirApplyMethod c"
proof -
  let ?n = "cp_s_perBuff p" and ?V = "de_volk env"
  obtain b cache where b: "computeLinkBudget (de_gen env) (ts_antennas ts) sc dc (cp_freq p) c = (b, cache)"
    by (cases "computeLinkBudget (de_gen env) (ts_antennas ts) sc dc (cp_freq p) c")
  obtain d1 where d1: "process_scale ?V src dest p = Some d1" "length d1 = length dest" "drop ?n d1 = drop ?n dest"
    using stage_mul_scalar [OF V ns nd, of True] ratio by (auto simp: process_scale_def Let_def stage_def)
  obtain s k q where pw: "process_power ?V d1 ?n (lb_source_power_dbfs b) c =
      Some (s, c\<lparr>ch_powerCounter := k, ch_cachedSigPower := q\<rparr>)"
    using nd d1(2) by (metis process_power_safe)
  let ?c1 = "c\<lparr>ch_powerCounter := k, ch_cachedSigPower := q\<rparr>"
  obtain d2 loss where d2: "process_cir ?V d1 p ?c1 = Some (d2, loss)" "length d2 = length d1"
    and t2: "ch_cirApplyMethod ?c1 \<noteq> FIR_CENTERED \<Longrightarrow> drop ?n d2 = drop ?n d1"
    using nd d1(2) by (metis process_cir_safe [OF V])
  define pl where "pl = computePathLoss (getLinkDistance c) (cp_propagationModel p) (cp_freq p) (cp_ground_coeff p) (de_draws env) c"
  have pl: "computePathLoss (getLinkDistance c) (cp_propagationModel p) (cp_freq p) (cp_ground_coeff p) (de_draws env) ?c1 = pl"
    by (simp add: pl_def computePathLoss_def cong: PropagationModel.case_cong)
  have noise: "\<exists>v ns'. get_noise (de_gauss env) (de_shuf env) ?n bw ty nf ns = (v, ns') \<and> length v = ?n" for bw ty nf ns
    by (auto simp: get_noise_def Let_def g sh split: option.splits)
  obtain v ns' where nz: "get_noise (de_gauss env) (de_shuf env) ?n
      (case cp_sample_rate_hz p of Fin r \<Rightarrow> if 0 < r then r else 1 | _ \<Rightarrow> 1) (ch_noiseType c)
      (lb_noise_figure_db b + lb_rx_gain_db b) (ts_noise ts) = (v, ns')" and lv: "length v = ?n"
    using noise by blast
  obtain np where np: "calc_power ?V v ?n = Some np" using calc_power_Some [of ?n v ?V] lv by auto
  have "\<forall>g. \<exists>y. process_mix ?V d2 g v (nc_outputFormat sc = ''sc16'' \<or> nc_inputFormat sc = ''sc16'') p (?c1\<lparr>ch_plDb := pl\<rparr>) =
      Some (fst y, (?c1\<lparr>ch_plDb := pl\<rparr>)\<lparr>ch_freqOffsetPhase := snd y\<rparr>) \<and>
      length (fst y) = length d2 \<and> drop ?n (fst y) = drop ?n d2"
    using process_mix_safe [OF V _ lv, of d2] nd d1(2) d2(2) by (intro allI) simp
  from choice [OF this] obtain H where H: "\<And>g. process_mix ?V d2 g v (nc_outputFormat sc = ''sc16'' \<or> nc_inputFormat sc = ''sc16'') p (?c1\<lparr>ch_plDb := pl\<rparr>) =
      Some (fst (H g), (?c1\<lparr>ch_plDb := pl\<rparr>)\<lparr>ch_freqOffsetPhase := snd (H g)\<rparr>)"
    "\<And>g. length (fst (H g)) = length d2" "\<And>g. drop ?n (fst (H g)) = drop ?n d2" by blast
  show ?thesis
    unfolding processChannel_def cfg
    by (simp add: b d1 pw d2 nz np H Let_def pl pl_def [symmetric] t2)
qed

text \<open>C9. Processing a burst over a link never faults when source and destination buffers hold the
  burst and the rates agree: the destination keeps its size, nothing behind the burst changes
  (except with the centered filter, which rewrites the whole buffer), the loss of the configured
  model is recorded, and neither the coefficients, the taps nor the identity of the link change.\<close>

theorem processChannel_safe:
  assumes V: "volk_ok (de_volk env)" and g: "\<And>s k. length (de_gauss env s k) = k"
    and sh: "\<And>xs. length (de_shuf env xs) = length xs"
    and cfg: "cp_src_config p = Some sc" "cp_dest_config p = Some dc"
    and ratio: "cp_sample_ratio p = 1"
    and ns: "cp_s_perBuff p \<le> length src" and nd: "cp_s_perBuff p \<le> length dest"
  shows "\<exists>dest' ts' c'. processChannel env src dest p ts c = Some (dest', ts', c') \<and>
    length dest' = length dest \<and>
    (ch_cirApplyMethod c \<noteq> FIR_CENTERED \<longrightarrow> drop (cp_s_perBuff p) dest' = drop (cp_s_perBuff p) dest) \<and>
    ch_plDb c' = computePathLoss (getLinkDistance c) (cp_propagationModel p) (cp_freq p)
      (cp_ground_coeff p) (de_draws env) c \<and>
    ch_portChCoeffs c' = ch_portChCoeffs c \<and> ch_chTaps c' = ch_chTaps c \<and>
    ch_source c' = ch_source c \<and> ch_dest c' = ch_dest c"
  using processChannel_result [OF assms, of ts c] by blast

text \<open>A silent environment and a link between two default nodes.\<close>

definition example_dsp_env :: dsp_env where
  "example_dsp_env = \<lparr>de_volk = exact_volk, de_gen = (\<lambda>_ _ _ _. Fin 0),
     de_gauss = (\<lambda>_ n. replicate n 0), de_shuf = rev, de_draws = \<lparr>dr_uniform = 1 / 2, dr_shadow = Fin 0\<rparr>\<rparr>"

definition example_params :: ChannelProcessParams where
  "example_params = \<lparr>cp_coeff = Fin 1, cp_s_perBuff = 2, cp_sample_ratio = 1, cp_sample_rate_hz = Fin 1000000,
     cp_src_channel_index = 0, cp_dest_channel_index = 0, cp_propagationModel = FREE_SPACE,
     cp_ground_coeff = Fin (- 1), cp_src_config = Some (NodeConfig_new 1 2),
     cp_dest_config = Some (NodeConfig_new 3 4), cp_freq = 3500000000\<rparr>"

theorem processChannel_safe_witness:
  "\<exists>dest' ts' c'. processChannel example_dsp_env [1, \<i>] [0, 0, 5] example_params
      \<lparr>ts_antennas = [], ts_noise = noise_init\<rparr> (Channel_new ''a'' ''b'' 1 1) = Some (dest', ts', c') \<and>
    length dest' = 3 \<and> drop 2 dest' = [5]"
proof -
  have "\<exists>dest' ts' c'. processChannel example_dsp_env [1, \<i>] [0, 0, 5] example_params
      \<lparr>ts_antennas = [], ts_noise = noise_init\<rparr> (Channel_new ''a'' ''b'' 1 1) = Some (dest', ts', c') \<and>
    length dest' = length [0 :: complex, 0, 5] \<and>
    (ch_cirApplyMethod (Channel_new ''a'' ''b'' 1 1) \<noteq> FIR_CENTERED \<longrightarrow>
      drop (cp_s_perBuff example_params) dest' = drop (cp_s_perBuff example_params) [0, 0, 5]) \<and>
    ch_plDb c' = computePathLoss (getLinkDistance (Channel_new ''a'' ''b'' 1 1)) (cp_propagationModel example_params)
      (cp_freq example_params) (cp_ground_coeff example_params) (de_draws example_dsp_env) (Channel_new ''a'' ''b'' 1 1) \<and>
    ch_portChCoeffs c' = ch_portChCoeffs (Channel_new ''a'' ''b'' 1 1) \<and>
    ch_chTaps c' = ch_chTaps (Channel_new ''a'' ''b'' 1 1) \<and>
    ch_source c' = ch_source (Channel_new ''a'' ''b'' 1 1) \<and> ch_dest c' = ch_dest (Channel_new ''a'' ''b'' 1 1)"
    by (rule processChannel_safe) (simp_all add: example_dsp_env_def example_params_def volk_ok_exact)
  then show ?thesis by (auto simp: Channel_new_def example_params_def)
qed

end
