(* ===== verification/Intermediate_Channel.thy ===== *)
theory Intermediate_Channel
  imports Transceiver Link_Channel
begin

text \<open>
  One frequency of the emulator: \<open>Intermediate\<close> of \<open>src/chem/channel/intermediate.cpp\<close>. It keeps
  the attached receivers (sources) and transmitters (destinations), a link for every pair, and a
  worker with a queue for every source. Receivers and transmitters are shared objects: they live in
  a heap and the maps hold their addresses. Hash maps are modelled in the order of their keys.
  What the UHD sample converters compute is a parameter. \<open>None\<close> stands for a memory fault or an
  exception that ends the worker thread.
\<close>

section \<open>The heap\<close>

record heap =
  hp_rx :: "nat \<Rightarrow> Receiver"
  hp_tx :: "nat \<Rightarrow> Transmitter"
  hp_next :: nat
  hp_pools :: "iq_pool list"

fun to_option :: "'a result \<Rightarrow> 'a option" where
  "to_option (Inl _) = None"
| "to_option (Inr x) = Some x"

text \<open>\<open>m_iq_pools[k]->release(sig->dataArray())\<close> and \<open>m_iq_pools[k]->release(buf)\<close>.\<close>

definition pool_drop :: "nat \<Rightarrow> Signal \<Rightarrow> heap \<Rightarrow> heap option" where
  "pool_drop k s h =
     (if k < length (hp_pools h)
      then map_option (\<lambda>p. h\<lparr>hp_pools := (hp_pools h)[k := p]\<rparr>) (to_option (drop_signal s (hp_pools h ! k)))
      else None)"

definition pool_put :: "nat \<Rightarrow> byte list \<Rightarrow> heap \<Rightarrow> heap option" where
  "pool_put k b h =
     (if k < length (hp_pools h)
      then Some (h\<lparr>hp_pools := (hp_pools h)[k := release_buf 0 b (hp_pools h ! k)]\<rparr>) else None)"

fun fold_opt :: "('a \<Rightarrow> 's \<Rightarrow> 's option) \<Rightarrow> 'a list \<Rightarrow> 's \<Rightarrow> 's option" where
  "fold_opt f [] s = Some s"
| "fold_opt f (x # xs) s = (case f x s of None \<Rightarrow> None | Some s' \<Rightarrow> fold_opt f xs s')"

section \<open>State\<close>

text \<open>The pointers of \<open>DestInfo\<close>: the configuration is the one of the transmitter, the link is the
  entry of the channel map for the source and this destination.\<close>

record DestInfo =
  di_dest_id :: string
  di_sample_rate :: u32
  di_num_channels :: byte
  di_transmitter :: nat

record WorkerContext =
  wc_queue :: "Signal list"
  wc_running :: bool
  wc_running_flag :: bool
  wc_receiver_id :: string
  wc_src_node_id :: string
  wc_receiver :: nat
  wc_cached_dest_version :: u64
  wc_cached_destinations :: "DestInfo list"
  wc_numa_node :: nat
  wc_last_tx_ns :: int
  wc_src_sig_arr :: "complex list list"

record Intermediate =
  im_work :: bool
  im_freq :: real
  im_max_latency_ns :: int
  im_propagationModel :: PropagationModel
  im_grReflection :: fp
  im_3gppScenario :: string
  im_hataEnvironment :: string
  im_itmRefractivity :: fp
  im_itmGroundConductivity :: fp
  im_itmGroundPermittivity :: fp
  im_itmClimateZone :: int
  im_sourceMap :: "(string, nat) omap"
  im_destinationMap :: "(string, nat) omap"
  im_destCount :: nat
  im_destVersion :: u64
  im_channelMap :: "(string \<times> string, Channel) omap"
  im_workers :: "(string, WorkerContext) omap"
  im_poolDropCount :: nat
  im_workerAgeDropCount :: nat
  im_sandboxNodes :: "(string, unit) omap"
  im_sandboxNumChannels :: "(string, nat) omap"

text \<open>\<open>MS_2_NS\<close> of an integer: the product is a \<open>float\<close>.\<close>

definition ms_2_ns :: "int \<Rightarrow> int" where
  "ms_2_ns ms = f32 (f32 ms * 1000000)"

definition Intermediate_new :: "real \<Rightarrow> int \<Rightarrow> Intermediate" where
  "Intermediate_new freq max_latency_ms =
     \<lparr>im_work = True, im_freq = freq, im_max_latency_ns = ms_2_ns max_latency_ms,
      im_propagationModel = FREE_SPACE, im_grReflection = Fin (- 1), im_3gppScenario = ''UMa'',
      im_hataEnvironment = ''URBAN'', im_itmRefractivity = Fin 301,
      im_itmGroundConductivity = Fin (5 / 1000), im_itmGroundPermittivity = Fin 15,
      im_itmClimateZone = 5, im_sourceMap = [], im_destinationMap = [], im_destCount = 0,
      im_destVersion = 0, im_channelMap = [], im_workers = [], im_poolDropCount = 0,
      im_workerAgeDropCount = 0, im_sandboxNodes = [], im_sandboxNumChannels = []\<rparr>"

definition setMaxLatency :: "int \<Rightarrow> Intermediate \<Rightarrow> Intermediate" where
  "setMaxLatency ms im = im\<lparr>im_max_latency_ns := ms_2_ns ms\<rparr>"

section \<open>The channel map\<close>

definition currentPlType :: "PropagationModel \<Rightarrow> PathLossType" where
  "currentPlType m =
     (case m of TWO_RAY \<Rightarrow> twoRay | THREE_GPP_38_901 \<Rightarrow> threeGPP_38_901 | OKUMURA_HATA \<Rightarrow> okumuraHata
      | LONGLEY_RICE \<Rightarrow> longleyRice | _ \<Rightarrow> freeSpace)"

definition new_link :: "string \<Rightarrow> string \<Rightarrow> byte \<Rightarrow> byte \<Rightarrow> Intermediate \<Rightarrow> Channel" where
  "new_link src dest destNumCh srcNumCh im =
     updateITMParams (im_itmRefractivity im) (im_itmGroundConductivity im) (im_itmGroundPermittivity im)
       (im_itmClimateZone im)
       (updateHataEnvironment (im_hataEnvironment im)
         (update3gppScenario (im_3gppScenario im)
           (updatePlType (currentPlType (im_propagationModel im)) (Channel_new src dest destNumCh srcNumCh))))"

definition insertChannelIfMissing ::
  "string \<Rightarrow> string \<Rightarrow> byte \<Rightarrow> byte \<Rightarrow> Intermediate \<Rightarrow> Intermediate" where
  "insertChannelIfMissing src dest destNumCh srcNumCh im =
     (if om_find (im_channelMap im) (src, dest) \<noteq> None then im
      else im\<lparr>im_channelMap := om_insert (src, dest) (new_link src dest destNumCh srcNumCh im) (im_channelMap im)\<rparr>)"

definition sandboxChannels :: "string \<Rightarrow> Intermediate \<Rightarrow> byte" where
  "sandboxChannels n im =
     (case om_find (im_sandboxNumChannels im) n of Some k \<Rightarrow> of_nat k | None \<Rightarrow> 1)"

text \<open>The pairs a call inserts, with the channel counts of the two ends, in the order of the loops.\<close>

definition wanted_links :: "heap \<Rightarrow> Intermediate \<Rightarrow> (string \<times> string \<times> byte \<times> byte) list" where
  "wanted_links h im =
     (let srcs = map (hp_rx h \<circ> snd) (im_sourceMap im); dests = map (hp_tx h \<circ> snd) (im_destinationMap im);
          sandbox = om_keys (im_sandboxNodes im)
      in concat (map (\<lambda>s. map (\<lambda>d. (rcv_NodeId s, tr_NodeId d, tr_numChannels d, rcv_numChannels s)) dests) srcs) @
         concat (map (\<lambda>a.
           map (\<lambda>b. (a, b, sandboxChannels b im, sandboxChannels a im)) (filter (\<lambda>b. a \<noteq> b) sandbox) @
           map (\<lambda>d. (a, tr_NodeId d, tr_numChannels d, sandboxChannels a im)) dests @
           map (\<lambda>s. (rcv_NodeId s, a, sandboxChannels a im, rcv_numChannels s)) srcs) sandbox))"

definition updateChannelMap :: "heap \<Rightarrow> Intermediate \<Rightarrow> Intermediate" where
  "updateChannelMap h im = fold (\<lambda>(s, d, dn, sn). insertChannelIfMissing s d dn sn) (wanted_links h im) im"

definition removeChannel :: "string \<Rightarrow> Intermediate \<Rightarrow> Intermediate" where
  "removeChannel nodeId im =
     im\<lparr>im_channelMap := om_filter (\<lambda>_ c. \<not> (ch_source c = nodeId \<or> ch_dest c = nodeId)) (im_channelMap im)\<rparr>"

definition bumpVersion :: "Intermediate \<Rightarrow> Intermediate" where
  "bumpVersion im = im\<lparr>im_destVersion := im_destVersion im + 1\<rparr>"

definition isEmpty :: "Intermediate \<Rightarrow> bool" where
  "isEmpty im \<longleftrightarrow> im_destinationMap im = [] \<and> im_sourceMap im = [] \<and> im_sandboxNodes im = []"

definition EmptyChannelChecker :: "Intermediate \<Rightarrow> Intermediate" where
  "EmptyChannelChecker im = (if isEmpty im then im\<lparr>im_work := False\<rparr> else im)"

text \<open>\<open>printStatus\<close> dereferences the endpoints of every link; a link of a sandbox node has none.\<close>

definition printStatus :: "Intermediate \<Rightarrow> Intermediate option" where
  "printStatus im =
     (if list_all (\<lambda>(_, c). om_find (im_sourceMap im) (ch_source c) \<noteq> None \<and>
                            om_find (im_destinationMap im) (ch_dest c) \<noteq> None) (im_channelMap im)
      then Some im else None)"

definition GetDestinationCnt :: "Intermediate \<Rightarrow> byte" where
  "GetDestinationCnt im = of_nat (length (im_destinationMap im))"

definition GetSourceCnt :: "Intermediate \<Rightarrow> byte" where
  "GetSourceCnt im = of_nat (length (im_sourceMap im))"

section \<open>Attaching and detaching\<close>

definition AttachDestination :: "heap \<Rightarrow> nat \<Rightarrow> Intermediate \<Rightarrow> Intermediate option" where
  "AttachDestination h t im =
     (let ident = nc_id (tr_node_config (hp_tx h t))
      in if om_find (im_destinationMap im) ident = None
         then printStatus (bumpVersion (updateChannelMap h
                (im\<lparr>im_destinationMap := om_insert ident t (im_destinationMap im),
                    im_destCount := im_destCount im + 1\<rparr>)))
         else Some im)"

definition DetachDestination :: "heap \<Rightarrow> nat \<Rightarrow> Intermediate \<Rightarrow> bool \<times> heap \<times> Intermediate" where
  "DetachDestination h t im =
     (let ident = tr_NodeId (hp_tx h t)
      in if om_find (im_destinationMap im) ident = None then (False, h, im)
         else
           let h' = h\<lparr>hp_tx := (hp_tx h)(t := Transmitter_setAttachState False (hp_tx h t))\<rparr>;
               im1 = removeChannel ident im;
               im2 = im1\<lparr>im_destinationMap := om_erase ident (im_destinationMap im1),
                         im_destCount := im_destCount im1 - 1\<rparr>
           in (True, h', EmptyChannelChecker (bumpVersion im2)))"

definition WorkerContext_new :: "string \<Rightarrow> string \<Rightarrow> nat \<Rightarrow> WorkerContext" where
  "WorkerContext_new receiver_id src_node_id r =
     \<lparr>wc_queue = [], wc_running = True, wc_running_flag = True, wc_receiver_id = receiver_id,
      wc_src_node_id = src_node_id, wc_receiver = r, wc_cached_dest_version = 0,
      wc_cached_destinations = [], wc_numa_node = 0, wc_last_tx_ns = 0, wc_src_sig_arr = []\<rparr>"

definition AttachSource :: "heap \<Rightarrow> nat \<Rightarrow> Intermediate \<Rightarrow> (heap \<times> Intermediate) option" where
  "AttachSource h r im =
     (let rc = hp_rx h r; ident = rcv_NodeId rc
      in if om_find (im_sourceMap im) ident = None
         then
           let h' = h\<lparr>hp_rx := (hp_rx h)(r := setAddQueFnc (Receiver_setAttachState True rc))\<rparr>;
               ctx = WorkerContext_new ident (nc_id (rcv_node_config rc)) r
           in map_option (\<lambda>im'. (h', im'))
                (printStatus (bumpVersion (updateChannelMap h'
                  (im\<lparr>im_sourceMap := om_insert ident r (im_sourceMap im),
                      im_workers := om_set ident ctx (im_workers im)\<rparr>))))
         else Some (h, im))"

text \<open>The callback \<open>AttachSource\<close> installs: into the worker's queue, dropping the oldest when it is
  nearly full; after the worker was stopped, back to the pool.\<close>

definition worker_enqueue :: "string \<Rightarrow> Signal \<Rightarrow> heap \<times> Intermediate \<Rightarrow> (heap \<times> Intermediate) option" where
  "worker_enqueue rid sig = (\<lambda>(h, im).
     case om_find (im_workers im) rid of
       None \<Rightarrow> map_option (\<lambda>h'. (h', im)) (pool_drop 0 sig h)
     | Some w \<Rightarrow>
         if \<not> wc_running_flag w then map_option (\<lambda>h'. (h', im)) (pool_drop 0 sig h)
         else do {
           (q, h1) \<leftarrow> (if QUEUE_CAP - 1 \<le> length (wc_queue w)
                       then (case wc_queue w of
                               [] \<Rightarrow> Some ([], h)
                             | s # q \<Rightarrow> map_option (\<lambda>h'. (q, h')) (pool_drop 0 s h))
                       else Some (wc_queue w, h));
           if length q < QUEUE_CAP
           then Some (h1, im\<lparr>im_workers := om_set rid (w\<lparr>wc_queue := q @ [sig]\<rparr>) (im_workers im)\<rparr>)
           else map_option (\<lambda>h'. (h', im\<lparr>im_workers := om_set rid (w\<lparr>wc_queue := q\<rparr>) (im_workers im)\<rparr>)) (pool_drop 0 sig h1)
         })"

definition DetachSource :: "heap \<Rightarrow> nat \<Rightarrow> Intermediate \<Rightarrow> (bool \<times> heap \<times> Intermediate) option" where
  "DetachSource h r im =
     (let ident = rcv_NodeId (hp_rx h r)
      in if om_find (im_sourceMap im) ident = None then Some (False, h, im)
         else do {
           let h1 = h\<lparr>hp_rx := (hp_rx h)(r := setAddQueFnc (Receiver_setAttachState False (hp_rx h r)))\<rparr>;
           h2 \<leftarrow> (case om_find (im_workers im) ident of
                    None \<Rightarrow> Some h1
                  | Some w \<Rightarrow> fold_opt (pool_drop 0) (wc_queue w) h1);
           let im1 = bumpVersion (removeChannel ident (im\<lparr>im_workers := om_erase ident (im_workers im)\<rparr>));
           let im2 = im1\<lparr>im_sourceMap := om_erase ident (im_sourceMap im1)\<rparr>;
           Some (True, h2, EmptyChannelChecker im2)
         })"

definition addSandboxNode :: "heap \<Rightarrow> string \<Rightarrow> nat \<Rightarrow> Intermediate \<Rightarrow> Intermediate" where
  "addSandboxNode h n k im =
     bumpVersion (updateChannelMap h
       (im\<lparr>im_sandboxNodes := om_insert n () (im_sandboxNodes im),
           im_sandboxNumChannels := om_set n k (im_sandboxNumChannels im)\<rparr>))"

definition removeSandboxNode :: "string \<Rightarrow> Intermediate \<Rightarrow> Intermediate" where
  "removeSandboxNode n im =
     bumpVersion (removeChannel n
       (im\<lparr>im_sandboxNodes := om_erase n (im_sandboxNodes im),
           im_sandboxNumChannels := om_erase n (im_sandboxNumChannels im)\<rparr>))"

definition add2Queue :: "Signal option \<Rightarrow> heap \<Rightarrow> heap option" where
  "add2Queue sig h = (case sig of None \<Rightarrow> Some h | Some s \<Rightarrow> pool_drop 0 s h)"

section \<open>Parameters of the links\<close>

definition for_channels :: "(Channel \<Rightarrow> Channel) \<Rightarrow> Intermediate \<Rightarrow> Intermediate" where
  "for_channels f im = im\<lparr>im_channelMap := om_map_values f (im_channelMap im)\<rparr>"

definition setPathLossMode :: "PropagationModel \<Rightarrow> Intermediate \<Rightarrow> Intermediate" where
  "setPathLossMode m im = for_channels (updatePlType (currentPlType m)) (im\<lparr>im_propagationModel := m\<rparr>)"

definition setPathLossMode_str :: "string \<Rightarrow> Intermediate \<Rightarrow> Intermediate" where
  "setPathLossMode_str s im = setPathLossMode (PropagationModelFromString s) im"

definition set3gppScenario :: "string \<Rightarrow> Intermediate \<Rightarrow> Intermediate" where
  "set3gppScenario s im = (if s = [] then im else for_channels (update3gppScenario s) (im\<lparr>im_3gppScenario := s\<rparr>))"

definition setHataEnvironment :: "string \<Rightarrow> Intermediate \<Rightarrow> Intermediate" where
  "setHataEnvironment s im =
     (if s = [] then im else for_channels (updateHataEnvironment s) (im\<lparr>im_hataEnvironment := s\<rparr>))"

definition setITMParams :: "fp \<Rightarrow> fp \<Rightarrow> fp \<Rightarrow> int \<Rightarrow> Intermediate \<Rightarrow> Intermediate" where
  "setITMParams n s e z im =
     for_channels (updateITMParams n s e (clamp_int z 1 7))
       (im\<lparr>im_itmRefractivity := n, im_itmGroundConductivity := s, im_itmGroundPermittivity := e,
           im_itmClimateZone := clamp_int z 1 7\<rparr>)"

definition updatePathLoss :: "PropagationModel \<Rightarrow> fp \<Rightarrow> Intermediate \<Rightarrow> Intermediate" where
  "updatePathLoss m g im = (setPathLossMode m im)\<lparr>im_grReflection := g\<rparr>"

definition updatePathLoss_str :: "string \<Rightarrow> fp \<Rightarrow> Intermediate \<Rightarrow> Intermediate" where
  "updatePathLoss_str s g im = updatePathLoss (PropagationModelFromString s) g im"

definition setShadowingSTD :: "fp \<Rightarrow> Intermediate \<Rightarrow> Intermediate" where
  "setShadowingSTD s im = for_channels (ch_setShadowingSTD s) im"

text \<open>The setters of one link report whether it exists.\<close>

definition on_channel :: "(Channel \<Rightarrow> Channel) \<Rightarrow> string \<Rightarrow> string \<Rightarrow> Intermediate \<Rightarrow> bool \<times> Intermediate" where
  "on_channel f src dest im =
     (case om_find (im_channelMap im) (src, dest) of
        None \<Rightarrow> (False, im)
      | Some c \<Rightarrow> (True, im\<lparr>im_channelMap := om_set (src, dest) (f c) (im_channelMap im)\<rparr>))"

definition updateAWGN :: "string \<Rightarrow> string \<Rightarrow> bool \<Rightarrow> fp \<Rightarrow> Intermediate \<Rightarrow> bool \<times> Intermediate" where
  "updateAWGN src dest enabled snr =
     on_channel (\<lambda>c. if enabled then updateSNR snr (updateNoiseType AWGN c)
                     else clearSNROverride (updateNoiseType NoiseNONE c)) src dest"

definition updateCIR :: "string \<Rightarrow> string \<Rightarrow> chId \<Rightarrow> complex list \<Rightarrow> Intermediate \<Rightarrow> bool \<times> Intermediate" where
  "updateCIR src dest ch taps = on_channel (if taps = [] then clearChTaps ch else updateChTaps ch taps) src dest"

definition updateDistance :: "string \<Rightarrow> string \<Rightarrow> fp \<Rightarrow> Intermediate \<Rightarrow> bool \<times> Intermediate" where
  "updateDistance src dest d = on_channel (ch_updateDistance d) src dest"

definition updateAltitude :: "string \<Rightarrow> string \<Rightarrow> fp \<Rightarrow> Intermediate \<Rightarrow> bool \<times> Intermediate" where
  "updateAltitude src dest a = on_channel (ch_updateAltitude a) src dest"

definition updateElevation :: "string \<Rightarrow> string \<Rightarrow> fp \<Rightarrow> Intermediate \<Rightarrow> bool \<times> Intermediate" where
  "updateElevation src dest e = on_channel (ch_updateElevation e) src dest"

definition updateAzimuth :: "string \<Rightarrow> string \<Rightarrow> fp \<Rightarrow> Intermediate \<Rightarrow> bool \<times> Intermediate" where
  "updateAzimuth src dest a = on_channel (ch_updateAzimuth a) src dest"

definition updateChannelCoeff :: "string \<Rightarrow> string \<Rightarrow> chId \<Rightarrow> fp \<Rightarrow> Intermediate \<Rightarrow> bool \<times> Intermediate" where
  "updateChannelCoeff src dest ch v = on_channel (updateChCoeff ch v) src dest"

definition updateFrequencyOffset :: "string \<Rightarrow> string \<Rightarrow> fp \<Rightarrow> Intermediate \<Rightarrow> bool \<times> Intermediate" where
  "updateFrequencyOffset src dest f = on_channel (setFrequencyOffsetHz f) src dest"

definition updateDopplerEnabled :: "string \<Rightarrow> string \<Rightarrow> bool \<Rightarrow> Intermediate \<Rightarrow> bool \<times> Intermediate" where
  "updateDopplerEnabled src dest b = on_channel (setDopplerEnabled b) src dest"

definition updateDopplerHz :: "string \<Rightarrow> string \<Rightarrow> fp \<Rightarrow> Intermediate \<Rightarrow> bool \<times> Intermediate" where
  "updateDopplerHz src dest f = on_channel (setDopplerHz f) src dest"

definition apply_patterns :: "string \<Rightarrow> string \<Rightarrow> string \<Rightarrow> NodeConfig \<Rightarrow> NodeConfig" where
  "apply_patterns pattern txPattern rxPattern cfg =
     (if pattern \<noteq> [] then setAntennaPattern pattern cfg
      else
        let c1 = (if txPattern \<noteq> [] then setTxAntennaPattern txPattern cfg else cfg)
        in if rxPattern \<noteq> [] then setRxAntennaPattern rxPattern c1 else c1)"

definition updateNodeAntenna ::
  "string \<Rightarrow> string \<Rightarrow> string \<Rightarrow> string \<Rightarrow> Intermediate \<Rightarrow> heap \<Rightarrow> bool \<times> heap" where
  "updateNodeAntenna nodeName pattern txPattern rxPattern im h =
     (let rs = filter (\<lambda>r. rcv_NodeName (hp_rx h r) = nodeName \<or> rcv_NodeId (hp_rx h r) = nodeName)
                 (map snd (im_sourceMap im));
          ts = filter (\<lambda>t. tr_NodeName (hp_tx h t) = nodeName \<or> tr_NodeId (hp_tx h t) = nodeName)
                 (map snd (im_destinationMap im));
          f = apply_patterns pattern txPattern rxPattern;
          h1 = fold (\<lambda>r h. h\<lparr>hp_rx := (hp_rx h)(r := (hp_rx h r)\<lparr>rcv_node_config := f (rcv_node_config (hp_rx h r))\<rparr>)\<rparr>) rs h;
          h2 = fold (\<lambda>t h. h\<lparr>hp_tx := (hp_tx h)(t := (hp_tx h t)\<lparr>tr_node_config := f (tr_node_config (hp_tx h t))\<rparr>)\<rparr>) ts h1
      in (rs \<noteq> [] \<or> ts \<noteq> [], h2))"

definition getTxActivity :: "Intermediate \<Rightarrow> (string \<times> int) list" where
  "getTxActivity im = map (\<lambda>(_, w). (wc_src_node_id w, wc_last_tx_ns w)) (im_workers im)"

section \<open>The signal path\<close>

text \<open>The converters of UHD for \<open>sc16_item32_le\<close>, the DSP environment, the pool of the endpoints
  (the controller's \<open>iq_pool\<close>), the fields a \<open>Signal\<close> without data leaves unset and the \<open>try_pop\<close> of the send queues.\<close>

record im_env =
  ie_conv_rx :: "byte list \<Rightarrow> complex list"
  ie_conv_tx :: "complex list \<Rightarrow> byte list"
  ie_dsp :: dsp_env
  ie_home :: nat
  ie_unset :: "real \<times> byte \<times> nat"
  ie_try_pop :: signal_pop

text \<open>What a processing thread keeps between bursts.\<close>

record worker_tls =
  tls_thread :: thread_state
  tls_dest_sig_arr :: "complex list list"

record SignalContext =
  sc_sig_hdr :: Header
  sc_src_id :: string
  sc_src_n_ch :: nat
  sc_i_sz_ch :: nat
  sc_i_ns_ch :: nat
  sc_sig_srate :: real

definition MAX_NUM_SAMPLES :: nat where
  "MAX_NUM_SAMPLES = 100000"

definition resize_arr :: "nat \<Rightarrow> complex list list \<Rightarrow> complex list list" where
  "resize_arr n arr = arr @ replicate (n - length arr) (replicate MAX_NUM_SAMPLES 0)"

definition ensureSrcChannels :: "nat \<Rightarrow> WorkerContext \<Rightarrow> WorkerContext" where
  "ensureSrcChannels n w = w\<lparr>wc_src_sig_arr := resize_arr n (wc_src_sig_arr w)\<rparr>"

text \<open>Conversion of one received channel: 4 bytes per sample from the IQ buffer into the array.\<close>

definition conv_rx_channel :: "im_env \<Rightarrow> Signal \<Rightarrow> nat \<Rightarrow> complex list list \<Rightarrow> complex list list option" where
  "conv_rx_channel env sig ch arr = do {
     iq \<leftarrow> sig_iq sig;
     off \<leftarrow> getData sig ch;
     bytes \<leftarrow> buf_read iq off (4 * sig_numSamp sig);
     if ch < length arr then do {
       d \<leftarrow> buf_write (arr ! ch) 0 (ie_conv_rx env bytes);
       Some (arr[ch := d])
     } else None
   }"

definition snapshot :: "heap \<Rightarrow> Intermediate \<Rightarrow> string \<Rightarrow> DestInfo list" where
  "snapshot h im src_id =
     map (\<lambda>(_, t). \<lparr>di_dest_id = nc_id (tr_node_config (hp_tx h t)), di_sample_rate = tr_sample_rate (hp_tx h t),
                    di_num_channels = nc_numChannels (tr_node_config (hp_tx h t)), di_transmitter = t\<rparr>)
       (filter (\<lambda>(_, t). nc_id (tr_node_config (hp_tx h t)) \<noteq> src_id \<and>
                         om_find (im_channelMap im) (src_id, nc_id (tr_node_config (hp_tx h t))) \<noteq> None)
         (im_destinationMap im))"

text \<open>The cached snapshot is used while the version has not moved.\<close>

definition get_destinations :: "heap \<Rightarrow> Intermediate \<Rightarrow> WorkerContext \<Rightarrow> DestInfo list \<times> WorkerContext" where
  "get_destinations h im w =
     (if wc_cached_dest_version w = im_destVersion im \<and> im_destVersion im \<noteq> 0
      then (wc_cached_destinations w, w)
      else let ds = snapshot h im (wc_src_node_id w)
           in (ds, w\<lparr>wc_cached_destinations := ds, wc_cached_dest_version := im_destVersion im\<rparr>))"

text \<open>\<open>acquireBatch\<close> from the local pool, then from the others in order.\<close>

fun acquire_from :: "nat list \<Rightarrow> nat \<Rightarrow> heap \<Rightarrow> (byte list list \<times> heap) option" where
  "acquire_from [] n h = None"
| "acquire_from (k # ks) n h =
     (case acquireBatch n (hp_pools h ! k) of
        (None, bufs, p) \<Rightarrow> Some (bufs, h\<lparr>hp_pools := (hp_pools h)[k := p]\<rparr>)
      | (Some _, _, p) \<Rightarrow> acquire_from ks n (h\<lparr>hp_pools := (hp_pools h)[k := p]\<rparr>))"

definition pool_order :: "nat \<Rightarrow> nat \<Rightarrow> nat list" where
  "pool_order numa n = numa # filter (\<lambda>i. i \<noteq> numa) [0..<n]"

text \<open>The header and the sizes of the burst at the destination, after resampling: \<open>None\<close> when the
  ratio of the rates is not finite, whose conversion to an integer is undefined.\<close>

definition dest_geometry :: "SignalContext \<Rightarrow> DestInfo \<Rightarrow> (Header \<times> real \<times> nat \<times> nat) option" where
  "dest_geometry sc d =
     (let dest_srate = real (unat (di_sample_rate d)); hdr = sc_sig_hdr sc
      in if dest_srate = sc_sig_srate sc then Some (hdr, 1, sc_i_ns_ch sc, sc_i_sz_ch sc)
         else if sc_sig_srate sc = 0 then None
         else
           let ratio = dest_srate / sc_sig_srate sc;
               per_buff = nat (round_real (real (sc_i_ns_ch sc) * ratio));
               sz_ch = nat (round_real (real (sc_i_sz_ch sc) * ratio))
           in Some (hdr\<lparr>hdr_number_of_channels := of_nat (sc_src_n_ch sc),
                        hdr_number_of_samples := of_nat per_buff,
                        hdr_size := of_nat (sz_ch * unat (di_num_channels d) + HEADER_SIZE),
                        hdr_sample_rate := ucast (di_sample_rate d)\<rparr>, ratio, per_buff, sz_ch))"

definition delay_header :: "Channel \<Rightarrow> DestInfo \<Rightarrow> Header \<Rightarrow> Header" where
  "delay_header c d hdr =
     (let dest_srate = real (unat (di_sample_rate d))
      in if 0 < dest_srate then
           (case getLinkDistance c of
              Fin dm \<Rightarrow> if 0 < dm \<and> 1 / dest_srate \<le> dm / SPEED_OF_LIGHT
                       then apply_propagation_delay (dm / SPEED_OF_LIGHT) hdr else hdr
            | _ \<Rightarrow> hdr)
         else hdr)"

text \<open>The inner loop over the source channels: each one with a non-zero coefficient is processed
  into the same destination array.\<close>

definition link_step ::
  "im_env \<Rightarrow> complex list list \<Rightarrow> ChannelProcessParams \<Rightarrow> nat \<Rightarrow> nat \<Rightarrow>
   complex list \<times> thread_state \<times> Channel \<Rightarrow> (complex list \<times> thread_state \<times> Channel) option" where
  "link_step env srcs params c_dest c_src = (\<lambda>(dest, ts, c).
     let coeff = getChCoeffs (of_nat c_dest) (of_nat c_src) c
     in if fp_eq coeff (Fin 0) then Some (dest, ts, c)
        else processChannel (ie_dsp env) (srcs ! c_src) dest
               (params\<lparr>cp_coeff := coeff, cp_src_channel_index := c_src, cp_dest_channel_index := c_dest\<rparr>) ts c)"

text \<open>One destination channel: process, then convert into the output buffer.\<close>

definition dest_channel_step ::
  "im_env \<Rightarrow> complex list list \<Rightarrow> ChannelProcessParams \<Rightarrow> nat \<Rightarrow> nat \<Rightarrow> nat \<Rightarrow>
   worker_tls \<times> Channel \<times> byte list \<Rightarrow> (worker_tls \<times> Channel \<times> byte list) option" where
  "dest_channel_step env srcs params n_src sz_ch c_dest = (\<lambda>(tls, c, buf). do {
     (d, ts, c') \<leftarrow> fold_opt (link_step env srcs params c_dest) [0..<n_src]
                       (tls_dest_sig_arr tls ! c_dest, tls_thread tls, c);
     samples \<leftarrow> buf_read d 0 (cp_s_perBuff params);
     buf' \<leftarrow> buf_write buf (c_dest * sz_ch) (ie_conv_tx env samples);
     Some (\<lparr>tls_thread = ts, tls_dest_sig_arr = (tls_dest_sig_arr tls)[c_dest := d]\<rparr>, c', buf')
   })"

definition ProcessDestinationSignal ::
  "im_env \<Rightarrow> WorkerContext \<Rightarrow> SignalContext \<Rightarrow> DestInfo \<times> byte list \<Rightarrow>
   heap \<times> Intermediate \<times> worker_tls \<Rightarrow> (heap \<times> Intermediate \<times> worker_tls) option" where
  "ProcessDestinationSignal env w sc = (\<lambda>(d, buf) (h, im, tls). do {
     c \<leftarrow> om_find (im_channelMap im) (sc_src_id sc, di_dest_id d);
     (hdr, ratio, per_buff, sz_ch) \<leftarrow> dest_geometry sc d;
     let n = unat (di_num_channels d);
     let tls1 = tls\<lparr>tls_dest_sig_arr := resize_arr n (tls_dest_sig_arr tls)\<rparr>;
     if ratio = 0 then map_option (\<lambda>h'. (h', im, tls1)) (pool_put (wc_numa_node w) buf h)
     else do {
       let params = \<lparr>cp_coeff = Fin 0, cp_s_perBuff = per_buff, cp_sample_ratio = ratio,
                     cp_sample_rate_hz = Fin (real (unat (di_sample_rate d))), cp_src_channel_index = 0,
                     cp_dest_channel_index = 0, cp_propagationModel = im_propagationModel im,
                     cp_ground_coeff = im_grReflection im,
                     cp_src_config = Some (rcv_node_config (hp_rx h (wc_receiver w))),
                     cp_dest_config = Some (tr_node_config (hp_tx h (di_transmitter d))),
                     cp_freq = im_freq im\<rparr>;
       (tls2, c', buf') \<leftarrow> fold_opt (dest_channel_step env (wc_src_sig_arr w) params (sc_src_n_ch sc) sz_ch)
                             [0..<n] (tls1, c, buf);
       let sig = Signal_new (ie_unset env) (Some buf') (delay_header c d hdr) (im_freq im) (di_dest_id d);
       (t', p') \<leftarrow> to_option (Transmitter_Add2Buff (ie_try_pop env) sig
                     (hp_tx h (di_transmitter d), hp_pools h ! ie_home env));
       Some (h\<lparr>hp_tx := (hp_tx h)(di_transmitter d := t'), hp_pools := (hp_pools h)[ie_home env := p']\<rparr>,
             im\<lparr>im_channelMap := om_set (sc_src_id sc, di_dest_id d) c' (im_channelMap im)\<rparr>, tls2)
     }
   })"

text \<open>\<open>ProcessSignal\<close> for the worker \<open>rid\<close> at time \<open>now\<close>. The destinations are independent (each has
  its own link and transmitter); \<open>parallel_for\<close> is run in index order.\<close>

definition ProcessSignal ::
  "im_env \<Rightarrow> int \<Rightarrow> string \<Rightarrow> Signal \<Rightarrow> heap \<times> Intermediate \<times> worker_tls \<Rightarrow>
   (heap \<times> Intermediate \<times> worker_tls) option" where
  "ProcessSignal env now rid sig = (\<lambda>(h, im, tls). do {
     w \<leftarrow> om_find (im_workers im) rid;
     let n_src = unat (sig_numCh sig);
     let sc = \<lparr>sc_sig_hdr = sig_header sig, sc_src_id = wc_src_node_id w, sc_src_n_ch = n_src,
               sc_i_sz_ch = getSizePerBuff sig, sc_i_ns_ch = sig_numSamp sig, sc_sig_srate = sig_srate sig\<rparr>;
     let w1 = ensureSrcChannels n_src (w\<lparr>wc_last_tx_ns := now\<rparr>);
     arr \<leftarrow> fold_opt (conv_rx_channel env sig) [0..<n_src] (wc_src_sig_arr w1);
     h1 \<leftarrow> pool_drop (wc_numa_node w) sig h;
     let (ds, w2) = get_destinations h1 im (w1\<lparr>wc_src_sig_arr := arr\<rparr>);
     let im1 = im\<lparr>im_workers := om_set rid w2 (im_workers im)\<rparr>;
     if ds = [] then Some (h1, im1, tls)
     else (case acquire_from (pool_order (wc_numa_node w) (length (hp_pools h1))) (length ds) h1 of
             None \<Rightarrow> Some (h1, im1\<lparr>im_poolDropCount := im_poolDropCount im1 + length ds\<rparr>, tls)
           | Some (bufs, h2) \<Rightarrow> fold_opt (ProcessDestinationSignal env w2 sc) (zip ds bufs) (h2, im1, tls))
   })"

text \<open>One pass of a worker; without work (stopped, no destination, an empty queue) nothing changes.\<close>

definition WorkerLoop_step ::
  "im_env \<Rightarrow> int \<Rightarrow> string \<Rightarrow> heap \<times> Intermediate \<times> worker_tls \<Rightarrow> (heap \<times> Intermediate \<times> worker_tls) option" where
  "WorkerLoop_step env now rid = (\<lambda>(h, im, tls). do {
     w \<leftarrow> om_find (im_workers im) rid;
     if \<not> (wc_running w \<and> im_work im) \<or> im_destCount im = 0 then Some (h, im, tls)
     else (case wc_queue w of
             [] \<Rightarrow> Some (h, im, tls)
           | sig # q \<Rightarrow>
               let im1 = im\<lparr>im_workers := om_set rid (w\<lparr>wc_queue := q\<rparr>) (im_workers im)\<rparr>
               in if start_time sig < now - im_max_latency_ns im
                  then map_option (\<lambda>h'. (h', im1\<lparr>im_workerAgeDropCount := im_workerAgeDropCount im1 + 1\<rparr>, tls))
                         (pool_drop (wc_numa_node w) sig h)
                  else ProcessSignal env now rid sig (h, im1, tls))
   })"

section \<open>The channel map\<close>

lemma new_link_cong [simp]: "new_link s d dn sn (im\<lparr>im_channelMap := m\<rparr>) = new_link s d dn sn im"
  by (simp add: new_link_def)

lemma new_link_ends [simp]: "ch_source (new_link s d dn sn im) = s" "ch_dest (new_link s d dn sn im) = d"
  by (simp_all add: new_link_def updateITMParams_def updateHataEnvironment_def update3gppScenario_def
      updatePlType_def Channel_new_def)

text \<open>The insertions only touch the map, and what is inserted does not depend on it.\<close>

lemma insertChannelIfMissing_eq:
  "insertChannelIfMissing s d dn sn im =
     im\<lparr>im_channelMap := om_insert (s, d) (new_link s d dn sn im) (im_channelMap im)\<rparr>"
  by (auto simp: insertChannelIfMissing_def om_insert_def split: option.splits)

lemma fold_insertChannel:
  "fold (\<lambda>(s, d, dn, sn). insertChannelIfMissing s d dn sn) ls im =
     im\<lparr>im_channelMap := fold (\<lambda>(s, d, dn, sn). om_insert (s, d) (new_link s d dn sn im)) ls (im_channelMap im)\<rparr>"
proof (induction ls arbitrary: im)
  case (Cons l ls)
  obtain s d dn sn where l: "l = (s, d, dn, sn)" by (metis prod.exhaust)
  show ?case using Cons.IH [of "insertChannelIfMissing s d dn sn im"]
    by (simp add: l insertChannelIfMissing_eq [of s d dn sn im])
qed simp

lemma fold_om_insert_find:
  "om_find (fold (\<lambda>(s, d, dn, sn). om_insert (s, d) (f s d dn sn)) ls m) k =
     (case om_find m k of
        Some c \<Rightarrow> Some c
      | None \<Rightarrow> map_option (\<lambda>(s, d, dn, sn). f s d dn sn) (List.find (\<lambda>(s, d, _). (s, d) = k) ls))"
proof (induction ls arbitrary: m)
  case (Cons l ls)
  obtain s d dn sn where l: "l = (s, d, dn, sn)" by (metis prod.exhaust)
  show ?case by (auto simp: l Cons.IH om_find_insert split: option.splits)
qed (simp split: option.splits)

lemma fold_om_insert_wf:
  "om_wf m \<Longrightarrow> om_wf (fold (\<lambda>(s, d, dn, sn). om_insert (s, d) (f s d dn sn)) ls m)"
proof (induction ls arbitrary: m)
  case (Cons l ls)
  obtain s d dn sn where l: "l = (s, d, dn, sn)" by (metis prod.exhaust)
  show ?case using Cons by (simp add: l om_wf_insert)
qed simp

lemma updateChannelMap_frame:
  "updateChannelMap h im = im\<lparr>im_channelMap := im_channelMap (updateChannelMap h im)\<rparr>"
  by (simp add: updateChannelMap_def fold_insertChannel)

lemma updateChannelMap_find:
  "om_find (im_channelMap (updateChannelMap h im)) k =
     (case om_find (im_channelMap im) k of
        Some c \<Rightarrow> Some c
      | None \<Rightarrow> map_option (\<lambda>(s, d, dn, sn). new_link s d dn sn im)
                  (List.find (\<lambda>(s, d, _). (s, d) = k) (wanted_links h im)))"
  by (simp add: updateChannelMap_def fold_insertChannel fold_om_insert_find)

lemma updateChannelMap_wf: "om_wf (im_channelMap im) \<Longrightarrow> om_wf (im_channelMap (updateChannelMap h im))"
  by (simp add: updateChannelMap_def fold_insertChannel fold_om_insert_wf)

lemma concat_map_mem: "x \<in> set xs \<Longrightarrow> y \<in> set ys \<Longrightarrow> f x y \<in> set (concat (map (\<lambda>x. map (f x) ys) xs))"
  by auto

lemma wanted_pair:
  assumes "(k, r) \<in> set (im_sourceMap im)" and "(k', t) \<in> set (im_destinationMap im)"
  shows "om_find (im_channelMap (updateChannelMap h im)) (rcv_NodeId (hp_rx h r), tr_NodeId (hp_tx h t)) \<noteq> None"
proof -
  let ?l = "(rcv_NodeId (hp_rx h r), tr_NodeId (hp_tx h t), tr_numChannels (hp_tx h t), rcv_numChannels (hp_rx h r))"
  have "hp_rx h r \<in> (hp_rx h \<circ> snd) ` set (im_sourceMap im)" "hp_tx h t \<in> (hp_tx h \<circ> snd) ` set (im_destinationMap im)"
    using image_eqI [OF _ assms(1), of _ "hp_rx h \<circ> snd"] image_eqI [OF _ assms(2), of _ "hp_tx h \<circ> snd"] by simp_all
  then have "?l \<in> set (wanted_links h im)"
    unfolding wanted_links_def Let_def set_append by (intro UnI1 concat_map_mem) (simp_all only: set_map)
  then have "\<exists>x. x \<in> set (wanted_links h im) \<and> (\<lambda>(s, d, _). (s, d) = (rcv_NodeId (hp_rx h r), tr_NodeId (hp_tx h t))) x"
    by (intro exI [of _ ?l]) simp
  then have "List.find (\<lambda>(s, d, _). (s, d) = (rcv_NodeId (hp_rx h r), tr_NodeId (hp_tx h t))) (wanted_links h im) \<noteq> None"
    unfolding find_None_iff by blast
  then show ?thesis by (auto simp: updateChannelMap_find split: option.splits)
qed

section \<open>Invariant\<close>

text \<open>What a worker remembers is what a fresh look at the maps would give, as long as the version
  has not moved.\<close>

definition cache_ok :: "heap \<Rightarrow> Intermediate \<Rightarrow> WorkerContext \<Rightarrow> bool" where
  "cache_ok h im w \<longleftrightarrow>
     unat (wc_cached_dest_version w) \<le> unat (im_destVersion im) \<and>
     (wc_cached_dest_version w = im_destVersion im \<and> im_destVersion im \<noteq> 0 \<longrightarrow>
        wc_cached_destinations w = snapshot h im (wc_src_node_id w))"

definition im_inv :: "heap \<Rightarrow> Intermediate \<Rightarrow> bool" where
  "im_inv h im \<longleftrightarrow>
     om_wf (im_sourceMap im) \<and> om_wf (im_destinationMap im) \<and> om_wf (im_channelMap im) \<and> om_wf (im_workers im) \<and>
     (\<forall>k r. om_find (im_sourceMap im) k = Some r \<longrightarrow> rcv_NodeId (hp_rx h r) = k) \<and>
     (\<forall>k t. om_find (im_destinationMap im) k = Some t \<longrightarrow>
        tr_NodeId (hp_tx h t) = k \<and> nc_id (tr_node_config (hp_tx h t)) = k) \<and>
     (\<forall>s d c. om_find (im_channelMap im) (s, d) = Some c \<longrightarrow> ch_source c = s \<and> ch_dest c = d) \<and>
     (\<forall>k. om_find (im_workers im) k = None \<longleftrightarrow> om_find (im_sourceMap im) k = None) \<and>
     im_destCount im = length (im_destinationMap im) \<and>
     (\<forall>k w. om_find (im_workers im) k = Some w \<longrightarrow> cache_ok h im w)"

lemma snapshot_cong:
  assumes "im_destinationMap im' = im_destinationMap im"
    and "\<And>k. om_find (im_channelMap im') k = None \<longleftrightarrow> om_find (im_channelMap im) k = None"
    and "\<And>k t. (k, t) \<in> set (im_destinationMap im) \<Longrightarrow>
      tr_node_config (hp_tx h' t) = tr_node_config (hp_tx h t) \<and> tr_sample_rate (hp_tx h' t) = tr_sample_rate (hp_tx h t)"
  shows "snapshot h' im' s = snapshot h im s"
  unfolding snapshot_def assms(1)
  using assms(2,3) by (intro map_cong filter_cong) auto

lemma cache_ok_cong:
  assumes "cache_ok h im w" and "im_destVersion im' = im_destVersion im"
    and "im_destinationMap im' = im_destinationMap im"
    and "\<And>k. om_find (im_channelMap im') k = None \<longleftrightarrow> om_find (im_channelMap im) k = None"
    and "\<And>k t. (k, t) \<in> set (im_destinationMap im) \<Longrightarrow>
      tr_node_config (hp_tx h' t) = tr_node_config (hp_tx h t) \<and> tr_sample_rate (hp_tx h' t) = tr_sample_rate (hp_tx h t)"
  shows "cache_ok h' im' w"
  using assms(1,2) snapshot_cong [OF assms(3-5)] by (simp add: cache_ok_def)

text \<open>When the version moves, no cache is in use.\<close>

lemma version_bump: "unat v < 2 ^ 64 - 1 \<Longrightarrow> unat (v + 1 :: u64) = Suc (unat v)"
  by (subst unat_add_lem [THEN iffD1]) (simp_all add: )

lemma cache_ok_bump:
  assumes "unat (wc_cached_dest_version w) \<le> unat (im_destVersion im)" and "unat (im_destVersion im) < 2 ^ 64 - 1"
    and "im_destVersion im' = im_destVersion im + 1"
  shows "cache_ok h im' w"
  using assms version_bump [OF assms(2)] by (auto simp: cache_ok_def)

text \<open>The parts of the state that decide whether the invariant holds.\<close>

lemma im_inv_bump:
  assumes inv: "im_inv h im" and v: "unat (im_destVersion im) < 2 ^ 64 - 1" "im_destVersion im' = im_destVersion im + 1"
    and wf: "om_wf (im_sourceMap im')" "om_wf (im_destinationMap im')" "om_wf (im_channelMap im')" "om_wf (im_workers im')"
    and src: "\<And>k r. om_find (im_sourceMap im') k = Some r \<Longrightarrow> rcv_NodeId (hp_rx h' r) = k"
    and dest: "\<And>k t. om_find (im_destinationMap im') k = Some t \<Longrightarrow>
      tr_NodeId (hp_tx h' t) = k \<and> nc_id (tr_node_config (hp_tx h' t)) = k"
    and links: "\<And>s d c. om_find (im_channelMap im') (s, d) = Some c \<Longrightarrow> ch_source c = s \<and> ch_dest c = d"
    and wk: "\<And>k. om_find (im_workers im') k = None \<longleftrightarrow> om_find (im_sourceMap im') k = None"
    and cnt: "im_destCount im' = length (im_destinationMap im')"
    and old: "\<And>k w. om_find (im_workers im') k = Some w \<Longrightarrow>
      om_find (im_workers im) k = Some w \<or> wc_cached_dest_version w = 0"
  shows "im_inv h' im'"
proof -
  have "cache_ok h' im' w" if "om_find (im_workers im') k = Some w" for k w
  proof (rule cache_ok_bump [OF _ v])
    show "unat (wc_cached_dest_version w) \<le> unat (im_destVersion im)"
      using old [OF that] inv by (auto simp: im_inv_def cache_ok_def)
  qed
  with assms show ?thesis by (simp add: im_inv_def)
qed

lemma updateChannelMap_ends:
  assumes "\<And>s d c. om_find (im_channelMap im) (s, d) = Some c \<Longrightarrow> ch_source c = s \<and> ch_dest c = d"
    and "om_find (im_channelMap (updateChannelMap h im)) (s, d) = Some c"
  shows "ch_source c = s \<and> ch_dest c = d"
proof (cases "om_find (im_channelMap im) (s, d)")
  case None
  then obtain x where x: "List.find (\<lambda>(s', d', _). (s', d') = (s, d)) (wanted_links h im) = Some x"
    and c: "c = (case x of (s, d, dn, sn) \<Rightarrow> new_link s d dn sn im)"
    using assms(2) by (auto simp: updateChannelMap_find)
  have "(\<lambda>(s', d', _). (s', d') = (s, d)) x" using x by (metis (mono_tags, lifting) find_Some_iff)
  then show ?thesis using c by (cases x) auto
next
  case (Some c')
  then show ?thesis using assms by (simp add: updateChannelMap_find)
qed

lemma updateChannelMap_fields [simp]:
  "im_sourceMap (updateChannelMap h im) = im_sourceMap im"
  "im_destinationMap (updateChannelMap h im) = im_destinationMap im"
  "im_workers (updateChannelMap h im) = im_workers im"
  "im_destVersion (updateChannelMap h im) = im_destVersion im"
  "im_destCount (updateChannelMap h im) = im_destCount im"
  "im_sandboxNodes (updateChannelMap h im) = im_sandboxNodes im"
  by (subst updateChannelMap_frame, simp)+

lemma removeChannel_find:
  "om_wf (im_channelMap im) \<Longrightarrow> om_find (im_channelMap (removeChannel n im)) k =
     (case om_find (im_channelMap im) k of
        None \<Rightarrow> None | Some c \<Rightarrow> if ch_source c = n \<or> ch_dest c = n then None else Some c)"
  by (auto simp: removeChannel_def om_find_filter split: option.splits)

lemma EmptyChannelChecker_fields [simp]:
  "im_sourceMap (EmptyChannelChecker im) = im_sourceMap im"
  "im_destinationMap (EmptyChannelChecker im) = im_destinationMap im"
  "im_workers (EmptyChannelChecker im) = im_workers im"
  "im_channelMap (EmptyChannelChecker im) = im_channelMap im"
  "im_destVersion (EmptyChannelChecker im) = im_destVersion im"
  "im_destCount (EmptyChannelChecker im) = im_destCount im"
  by (simp_all add: EmptyChannelChecker_def)

lemma printStatus_Some: "printStatus im = Some im' \<Longrightarrow> im' = im"
  by (simp add: printStatus_def split: if_splits)

lemmas im_inv_maps = im_inv_def [THEN iffD1]

lemma im_inv_wf:
  "im_inv h im \<Longrightarrow> om_wf (im_sourceMap im)" "im_inv h im \<Longrightarrow> om_wf (im_destinationMap im)"
  "im_inv h im \<Longrightarrow> om_wf (im_channelMap im)" "im_inv h im \<Longrightarrow> om_wf (im_workers im)"
  by (simp_all add: im_inv_def)

lemma im_inv_dest:
  "im_inv h im \<Longrightarrow> om_find (im_destinationMap im) k = Some t \<Longrightarrow>
     tr_NodeId (hp_tx h t) = k \<and> nc_id (tr_node_config (hp_tx h t)) = k"
  by (simp add: im_inv_def)

lemma im_inv_ends:
  "im_inv h im \<Longrightarrow> om_find (im_channelMap im) (s, d) = Some c \<Longrightarrow> ch_source c = s \<and> ch_dest c = d"
  by (simp add: im_inv_def)

text \<open>The version counter does not wrap.\<close>

definition fresh_version :: "Intermediate \<Rightarrow> bool" where
  "fresh_version im \<longleftrightarrow> unat (im_destVersion im) < 2 ^ 64 - 1"

lemma AttachDestination_inv:
  assumes inv: "im_inv h im" and t: "tr_NodeId (hp_tx h t) = nc_id (tr_node_config (hp_tx h t))"
    and v: "fresh_version im" and a: "AttachDestination h t im = Some im'"
  shows "im_inv h im'"
proof (cases "om_find (im_destinationMap im) (nc_id (tr_node_config (hp_tx h t)))")
  case (Some x)
  then show ?thesis using a inv by (simp add: AttachDestination_def)
next
  case None
  let ?id = "nc_id (tr_node_config (hp_tx h t))"
  define im0 where "im0 = im\<lparr>im_destinationMap := om_insert ?id t (im_destinationMap im), im_destCount := im_destCount im + 1\<rparr>"
  have im': "im' = bumpVersion (updateChannelMap h im0)"
    using a None by (auto simp: AttachDestination_def im0_def Let_def dest: printStatus_Some)
  note I = im_inv_maps [OF inv]
  show ?thesis unfolding im'
  proof (rule im_inv_bump [OF inv])
    show "unat (im_destVersion im) < 2 ^ 64 - 1" using v by (simp add: fresh_version_def)
    show "om_wf (im_channelMap (bumpVersion (updateChannelMap h im0)))"
      using I by (simp add: bumpVersion_def im0_def updateChannelMap_wf)
    show "ch_source c = s \<and> ch_dest c = d"
      if "om_find (im_channelMap (bumpVersion (updateChannelMap h im0))) (s, d) = Some c" for s d c
      by (rule updateChannelMap_ends [of im0]) (use I that in \<open>auto simp: im0_def bumpVersion_def\<close>)
  qed (use I t None in \<open>auto simp: im0_def bumpVersion_def om_wf_insert om_find_insert om_insert_length split: if_splits\<close>)
qed

lemma AttachSource_inv:
  assumes inv: "im_inv h im" and v: "fresh_version im" and a: "AttachSource h r im = Some (h', im')"
  shows "im_inv h' im'"
proof (cases "om_find (im_sourceMap im) (rcv_NodeId (hp_rx h r))")
  case (Some x)
  then show ?thesis using a inv by (simp add: AttachSource_def Let_def)
next
  case None
  let ?id = "rcv_NodeId (hp_rx h r)"
  define h1 where "h1 = h\<lparr>hp_rx := (hp_rx h)(r := setAddQueFnc (Receiver_setAttachState True (hp_rx h r)))\<rparr>"
  define im0 where "im0 = im\<lparr>im_sourceMap := om_insert ?id r (im_sourceMap im),
    im_workers := om_set ?id (WorkerContext_new ?id (nc_id (rcv_node_config (hp_rx h r))) r) (im_workers im)\<rparr>"
  have e: "h' = h1" "im' = bumpVersion (updateChannelMap h1 im0)"
    using a None by (auto simp: AttachSource_def im0_def h1_def Let_def dest: printStatus_Some)
  have ids: "rcv_NodeId (hp_rx h1 x) = rcv_NodeId (hp_rx h x)" for x
    by (simp add: h1_def setAddQueFnc_def Receiver_setAttachState_def)
  have tx: "hp_tx h1 = hp_tx h" by (simp add: h1_def)
  note I = im_inv_maps [OF inv]
  show ?thesis unfolding e
  proof (rule im_inv_bump [OF inv])
    show "unat (im_destVersion im) < 2 ^ 64 - 1" using v by (simp add: fresh_version_def)
    show "om_wf (im_channelMap (bumpVersion (updateChannelMap h1 im0)))"
      using I by (simp add: bumpVersion_def im0_def updateChannelMap_wf)
    show "ch_source c = s \<and> ch_dest c = d"
      if "om_find (im_channelMap (bumpVersion (updateChannelMap h1 im0))) (s, d) = Some c" for s d c
      by (rule updateChannelMap_ends [of im0]) (use I that in \<open>auto simp: im0_def bumpVersion_def\<close>)
  qed (use I None in \<open>auto simp: im0_def bumpVersion_def om_wf_insert om_wf_set om_find_insert om_find_set ids tx
      WorkerContext_new_def split: if_splits\<close>)
qed

lemma DetachDestination_inv:
  assumes inv: "im_inv h im" and v: "fresh_version im" and a: "DetachDestination h t im = (b, h', im')"
  shows "im_inv h' im'"
proof (cases "om_find (im_destinationMap im) (tr_NodeId (hp_tx h t))")
  case None
  then show ?thesis using a inv by (simp add: DetachDestination_def Let_def)
next
  case (Some x)
  let ?id = "tr_NodeId (hp_tx h t)"
  define im1 where "im1 = removeChannel ?id im"
  define im2 where "im2 = im1\<lparr>im_destinationMap := om_erase ?id (im_destinationMap im1), im_destCount := im_destCount im1 - 1\<rparr>"
  have e: "h' = h\<lparr>hp_tx := (hp_tx h)(t := Transmitter_setAttachState False (hp_tx h t))\<rparr>"
    "im' = EmptyChannelChecker (bumpVersion im2)"
    using a Some by (auto simp: DetachDestination_def Let_def im1_def im2_def)
  note I = im_inv_maps [OF inv]
  have "om_find (im_destinationMap im) ?id \<noteq> None" "om_wf (im_destinationMap im)" using Some I by auto
  note len = om_erase_length [OF this(2,1)]
  show ?thesis unfolding e
  proof (rule im_inv_bump [OF inv])
    show "unat (im_destVersion im) < 2 ^ 64 - 1" using v by (simp add: fresh_version_def)
    show "om_wf (im_channelMap (EmptyChannelChecker (bumpVersion im2)))"
      using I by (simp add: bumpVersion_def im1_def im2_def removeChannel_def om_wf_om_filter)
    show "ch_source c = s \<and> ch_dest c = d"
      if "om_find (im_channelMap (EmptyChannelChecker (bumpVersion im2))) (s, d) = Some c" for s d c
      using that I by (auto simp: bumpVersion_def im2_def im1_def removeChannel_find split: option.splits if_splits)
  qed (use I len in \<open>auto simp: im2_def im1_def removeChannel_def bumpVersion_def om_wf_erase om_find_erase
      Transmitter_setAttachState_def split: if_splits\<close>)
qed

lemma fold_pool_drop_frame:
  "fold_opt (pool_drop k) q h = Some h' \<Longrightarrow> hp_rx h' = hp_rx h \<and> hp_tx h' = hp_tx h \<and> hp_next h' = hp_next h"
proof (induction q arbitrary: h)
  case (Cons s q)
  then obtain h1 where h1: "pool_drop k s h = Some h1" "fold_opt (pool_drop k) q h1 = Some h'"
    by (auto split: option.splits)
  then show ?case using Cons.IH [OF h1(2)] by (auto simp: pool_drop_def split: if_splits)
qed simp

lemma DetachSource_inv:
  assumes inv: "im_inv h im" and v: "fresh_version im" and a: "DetachSource h r im = Some (b, h', im')"
  shows "im_inv h' im'"
proof (cases "om_find (im_sourceMap im) (rcv_NodeId (hp_rx h r))")
  case None
  then show ?thesis using a inv by (simp add: DetachSource_def Let_def)
next
  case (Some x)
  let ?id = "rcv_NodeId (hp_rx h r)"
  define h1 where "h1 = h\<lparr>hp_rx := (hp_rx h)(r := setAddQueFnc (Receiver_setAttachState False (hp_rx h r)))\<rparr>"
  define im1 where "im1 = bumpVersion (removeChannel ?id (im\<lparr>im_workers := om_erase ?id (im_workers im)\<rparr>))"
  define H where "H = (case om_find (im_workers im) ?id of None \<Rightarrow> Some h1 | Some w \<Rightarrow> fold_opt (pool_drop 0) (wc_queue w) h1)"
  have "DetachSource h r im =
      map_option (\<lambda>h2. (True, h2, EmptyChannelChecker (im1\<lparr>im_sourceMap := om_erase ?id (im_sourceMap im1)\<rparr>))) H"
    unfolding DetachSource_def Let_def H_def im1_def h1_def using Some
    by (simp add: map_conv_bind_option comp_def)
  then obtain h2 where h2: "H = Some h2"
    and e: "h' = h2" "im' = EmptyChannelChecker (im1\<lparr>im_sourceMap := om_erase ?id (im_sourceMap im1)\<rparr>)"
    using a by (cases H) auto
  have hh: "hp_rx h2 = hp_rx h1 \<and> hp_tx h2 = hp_tx h1" using h2 by (auto simp: H_def split: option.splits dest: fold_pool_drop_frame)
  then have ids: "rcv_NodeId (hp_rx h2 y) = rcv_NodeId (hp_rx h y)" for y
    by (simp add: h1_def setAddQueFnc_def Receiver_setAttachState_def)
  have tx: "hp_tx h2 = hp_tx h" using hh by (simp add: h1_def)
  note I = im_inv_maps [OF inv]
  show ?thesis unfolding e
  proof (rule im_inv_bump [OF inv])
    show "unat (im_destVersion im) < 2 ^ 64 - 1" using v by (simp add: fresh_version_def)
    show "ch_source c = s \<and> ch_dest c = d"
      if "om_find (im_channelMap (EmptyChannelChecker (im1\<lparr>im_sourceMap := om_erase ?id (im_sourceMap im1)\<rparr>))) (s, d) = Some c" for s d c
      using that I by (auto simp: bumpVersion_def im1_def removeChannel_find split: option.splits if_splits)
  qed (use I in \<open>auto simp: im1_def removeChannel_def bumpVersion_def om_wf_erase om_find_erase om_wf_om_filter ids tx split: if_splits\<close>)
qed

lemma addSandboxNode_inv:
  assumes inv: "im_inv h im" and v: "fresh_version im"
  shows "im_inv h (addSandboxNode h n k im)"
proof -
  define im0 where "im0 = im\<lparr>im_sandboxNodes := om_insert n () (im_sandboxNodes im), im_sandboxNumChannels := om_set n k (im_sandboxNumChannels im)\<rparr>"
  have e: "addSandboxNode h n k im = bumpVersion (updateChannelMap h im0)" by (simp add: addSandboxNode_def im0_def)
  note I = im_inv_maps [OF inv]
  show ?thesis unfolding e
  proof (rule im_inv_bump [OF inv])
    show "unat (im_destVersion im) < 2 ^ 64 - 1" using v by (simp add: fresh_version_def)
    show "om_wf (im_channelMap (bumpVersion (updateChannelMap h im0)))"
      using I by (simp add: bumpVersion_def im0_def updateChannelMap_wf)
    show "ch_source c = s \<and> ch_dest c = d"
      if "om_find (im_channelMap (bumpVersion (updateChannelMap h im0))) (s, d) = Some c" for s d c
      by (rule updateChannelMap_ends [of im0]) (use I that in \<open>auto simp: im0_def bumpVersion_def\<close>)
  qed (use I in \<open>auto simp: im0_def bumpVersion_def\<close>)
qed

lemma removeSandboxNode_inv:
  assumes inv: "im_inv h im" and v: "fresh_version im"
  shows "im_inv h (removeSandboxNode n im)"
proof -
  note I = im_inv_maps [OF inv]
  show ?thesis
  proof (rule im_inv_bump [OF inv])
    show "unat (im_destVersion im) < 2 ^ 64 - 1" using v by (simp add: fresh_version_def)
    show "ch_source c = s \<and> ch_dest c = d"
      if "om_find (im_channelMap (removeSandboxNode n im)) (s, d) = Some c" for s d c
      using that I by (auto simp: removeSandboxNode_def bumpVersion_def removeChannel_find split: option.splits if_splits)
  qed (use I in \<open>auto simp: removeSandboxNode_def bumpVersion_def removeChannel_def om_wf_om_filter\<close>)
qed

text \<open>Changes that leave the version alone: the maps keep their keys and their ends, the endpoints
  keep what a snapshot reads.\<close>

definition same_view :: "heap \<Rightarrow> Intermediate \<Rightarrow> heap \<Rightarrow> Intermediate \<Rightarrow> bool" where
  "same_view h im h' im' \<longleftrightarrow>
     im_sourceMap im' = im_sourceMap im \<and> im_destinationMap im' = im_destinationMap im \<and>
     im_destCount im' = im_destCount im \<and> im_destVersion im' = im_destVersion im \<and>
     (om_wf (im_channelMap im) \<longrightarrow> om_wf (im_channelMap im')) \<and>
     (\<forall>k. om_find (im_channelMap im') k = None \<longleftrightarrow> om_find (im_channelMap im) k = None) \<and>
     (\<forall>k c'. om_find (im_channelMap im') k = Some c' \<longrightarrow>
        (\<exists>c. om_find (im_channelMap im) k = Some c \<and> ch_source c' = ch_source c \<and> ch_dest c' = ch_dest c)) \<and>
     (\<forall>r. rcv_NodeId (hp_rx h' r) = rcv_NodeId (hp_rx h r)) \<and>
     (\<forall>t. tr_NodeId (hp_tx h' t) = tr_NodeId (hp_tx h t) \<and> tr_node_config (hp_tx h' t) = tr_node_config (hp_tx h t) \<and>
          tr_sample_rate (hp_tx h' t) = tr_sample_rate (hp_tx h t))"

lemma same_view_refl [simp]: "same_view h im h im"
  by (simp add: same_view_def)

lemma same_view_trans: "same_view h im h1 im1 \<Longrightarrow> same_view h1 im1 h2 im2 \<Longrightarrow> same_view h im h2 im2"
  unfolding same_view_def by (elim conjE) (intro conjI; metis)

lemma same_view_snapshot: "same_view h im h' im' \<Longrightarrow> snapshot h' im' s = snapshot h im s"
  by (rule snapshot_cong) (auto simp: same_view_def)

lemma im_inv_same_view:
  assumes inv: "im_inv h im" and sv: "same_view h im h' im'"
    and wk: "om_wf (im_workers im')" "\<And>k. om_find (im_workers im') k = None \<longleftrightarrow> om_find (im_workers im) k = None"
    and cache: "\<And>k w'. om_find (im_workers im') k = Some w' \<Longrightarrow> cache_ok h im w'"
  shows "im_inv h' im'"
proof -
  have c: "cache_ok h' im' w'" if "om_find (im_workers im') k = Some w'" for k w'
    using cache [OF that] sv same_view_snapshot [OF sv] by (simp add: cache_ok_def same_view_def)
  have l: "ch_source c = s \<and> ch_dest c = d" if "om_find (im_channelMap im') (s, d) = Some c" for s d c
    using that sv inv unfolding same_view_def im_inv_def by metis
  show ?thesis using inv sv wk c l unfolding im_inv_def same_view_def by auto
qed

lemma set_worker_inv:
  assumes inv: "im_inv h im" and sv: "same_view h im h' im'" and w: "om_find (im_workers im) rid = Some w"
    and wk: "im_workers im' = om_set rid w' (im_workers im)" and c: "cache_ok h im w'"
  shows "im_inv h' im'"
proof (rule im_inv_same_view [OF inv sv])
  show "om_wf (im_workers im')" using inv by (simp add: wk om_wf_set im_inv_def)
  show "om_find (im_workers im') k = None \<longleftrightarrow> om_find (im_workers im) k = None" for k
    using w by (simp add: wk om_find_set)
  show "cache_ok h im x" if "om_find (im_workers im') k = Some x" for k x
    using that c inv by (auto simp: wk om_find_set im_inv_def split: if_splits)
qed

section \<open>The signal path keeps the view\<close>

lemma applyFrequencyOffset_ends:
  "applyFrequencyOffset V d n fs i c = Some (d', c') \<Longrightarrow> ch_source c' = ch_source c \<and> ch_dest c' = ch_dest c"
  by (auto simp: applyFrequencyOffset_def Let_def split: if_splits)

lemma process_power_ends:
  "process_power V d n sp c = Some (s, c') \<Longrightarrow> ch_source c' = ch_source c \<and> ch_dest c' = ch_dest c"
  by (auto simp: process_power_def Let_def split: if_splits bind_splits)

lemma process_mix_ends:
  "process_mix V d g v b p c = Some (d', c') \<Longrightarrow> ch_source c' = ch_source c \<and> ch_dest c' = ch_dest c"
  by (auto simp: process_mix_def Let_def split: bind_splits dest: applyFrequencyOffset_ends)

lemma processChannel_ends:
  assumes "processChannel env src dest p ts c = Some (d, ts', c')"
  shows "ch_source c' = ch_source c \<and> ch_dest c' = ch_dest c"
proof (cases "(cp_src_config p, cp_dest_config p)")
  case (Pair a b)
  show ?thesis
  proof (cases "a = None \<or> b = None")
    case True
    then show ?thesis using assms Pair by (auto simp: processChannel_def split: option.splits)
  next
    case False
    then obtain sc dc where "a = Some sc" "b = Some dc" by auto
    with assms Pair show ?thesis
      unfolding processChannel_def Let_def
      by (auto split: prod.splits bind_splits dest!: process_mix_ends process_power_ends)
  qed
qed

lemma fold_opt_inv:
  assumes "fold_opt f xs s = Some s'" and "P s" and "\<And>x s s'. x \<in> set xs \<Longrightarrow> P s \<Longrightarrow> f x s = Some s' \<Longrightarrow> P s'"
  shows "P s'"
  using assms
proof (induction xs arbitrary: s)
  case (Cons x xs)
  then obtain s1 where s1: "f x s = Some s1" "fold_opt f xs s1 = Some s'" by (auto split: option.splits)
  show ?case by (rule Cons.IH [OF s1(2)]) (use Cons.prems s1 in auto)
qed simp

lemma dest_channel_step_ends:
  assumes "dest_channel_step env srcs params n sz i (tls, c, buf) = Some (tls', c', buf')"
  shows "ch_source c' = ch_source c \<and> ch_dest c' = ch_dest c"
proof -
  obtain d ts where f: "fold_opt (link_step env srcs params i) [0..<n] (tls_dest_sig_arr tls ! i, tls_thread tls, c) = Some (d, ts, c')"
    using assms by (auto simp: dest_channel_step_def split: bind_splits prod.splits)
  have "(\<lambda>(d, ts, x). ch_source x = ch_source c \<and> ch_dest x = ch_dest c) (d, ts, c')"
    by (rule fold_opt_inv [OF f]) (auto simp: link_step_def Let_def split: if_splits dest!: processChannel_ends)
  then show ?thesis by simp
qed

lemma Transmitter_Add2Buff_frame:
  "Transmitter_Add2Buff try_pop x (t, p) = Inr (t', p') \<Longrightarrow>
     tr_NodeId t' = tr_NodeId t \<and> tr_node_config t' = tr_node_config t \<and> tr_sample_rate t' = tr_sample_rate t"
  by (auto simp: Transmitter_Add2Buff_def rbind_def rmap_def split: if_splits option.splits sum.splits)

lemma same_view_pool: "same_view h im (h\<lparr>hp_pools := p\<rparr>) im"
  by (simp add: same_view_def)

lemma same_view_workers: "same_view h im h (im\<lparr>im_workers := w\<rparr>)"
  by (simp add: same_view_def)

lemma pool_put_frame: "pool_put k b h = Some h' \<Longrightarrow> \<exists>p. h' = h\<lparr>hp_pools := p\<rparr>"
  by (auto simp: pool_put_def split: if_splits)

lemma pool_drop_frame: "pool_drop k s h = Some h' \<Longrightarrow> \<exists>p. h' = h\<lparr>hp_pools := p\<rparr>"
  by (auto simp: pool_drop_def split: if_splits)

lemma ProcessDestinationSignal_view:
  assumes "ProcessDestinationSignal env w sc (d, buf) (h, im, tls) = Some (h', im', tls')"
  shows "same_view h im h' im' \<and> im_workers im' = im_workers im"
proof -
  obtain c where c: "om_find (im_channelMap im) (sc_src_id sc, di_dest_id d) = Some c"
    using assms by (auto simp: ProcessDestinationSignal_def split: bind_splits)
  obtain hdr ratio per_buff sz_ch where g: "dest_geometry sc d = Some (hdr, ratio, per_buff, sz_ch)"
    using assms c by (auto simp: ProcessDestinationSignal_def split: bind_splits)
  show ?thesis
  proof (cases "ratio = 0")
    case True
    then show ?thesis using assms c g
      by (auto simp: ProcessDestinationSignal_def Let_def same_view_pool dest!: pool_put_frame)
  next
    case False
    obtain params n tls1 tls2 c' buf' sig t' p'
      where f: "fold_opt (dest_channel_step env (wc_src_sig_arr w) params (sc_src_n_ch sc) sz_ch) [0..<n] (tls1, c, buf) = Some (tls2, c', buf')"
        and ad: "Transmitter_Add2Buff (ie_try_pop env) sig (hp_tx h (di_transmitter d), hp_pools h ! ie_home env) = Inr (t', p')"
        and e: "h' = h\<lparr>hp_tx := (hp_tx h)(di_transmitter d := t'), hp_pools := (hp_pools h)[ie_home env := p']\<rparr>"
          "im' = im\<lparr>im_channelMap := om_set (sc_src_id sc, di_dest_id d) c' (im_channelMap im)\<rparr>"
      using assms c g False
      by (auto simp: ProcessDestinationSignal_def Let_def split: bind_splits prod.splits elim!: to_option.elims)
    have "(\<lambda>(tl, x, b). ch_source x = ch_source c \<and> ch_dest x = ch_dest c) (tls2, c', buf')"
      by (rule fold_opt_inv [OF f]) (auto dest!: dest_channel_step_ends)
    then have ends: "ch_source c' = ch_source c" "ch_dest c' = ch_dest c" by simp_all
    show ?thesis unfolding e same_view_def using c ends Transmitter_Add2Buff_frame [OF ad]
      by (auto simp: om_find_set om_wf_set)
  qed
qed

lemma ProcessDestinationSignal_fold_view:
  assumes "fold_opt (ProcessDestinationSignal env w sc) xs (h, im, tls) = Some (h', im', tls')"
  shows "same_view h im h' im' \<and> im_workers im' = im_workers im"
proof -
  have "(\<lambda>(h1, im1, tls1). same_view h im h1 im1 \<and> im_workers im1 = im_workers im) (h', im', tls')"
    by (rule fold_opt_inv [OF assms]) (auto dest!: ProcessDestinationSignal_view intro: same_view_trans)
  then show ?thesis by simp
qed

lemma acquire_from_frame: "acquire_from ks n h = Some (bufs, h') \<Longrightarrow> \<exists>p. h' = h\<lparr>hp_pools := p\<rparr>"
proof (induction ks n h rule: acquire_from.induct)
  case (2 k ks n h)
  then show ?case by (auto split: prod.splits option.splits)
qed simp

lemma get_destinations_cache:
  assumes "cache_ok h im w"
  shows "fst (get_destinations h im w) = snapshot h im (wc_src_node_id w) \<and>
    cache_ok h im (snd (get_destinations h im w)) \<and> wc_src_node_id (snd (get_destinations h im w)) = wc_src_node_id w"
  using assms by (auto simp: get_destinations_def Let_def cache_ok_def)

lemma ProcessSignal_view:
  assumes p: "ProcessSignal env now rid sig (h, im, tls) = Some (h', im', tls')"
    and w: "om_find (im_workers im) rid = Some w" "cache_ok h im w"
  shows "same_view h im h' im' \<and> (\<exists>w'. im_workers im' = om_set rid w' (im_workers im) \<and> cache_ok h im w')"
proof -
  define w1 where "w1 = ensureSrcChannels (unat (sig_numCh sig)) (w\<lparr>wc_last_tx_ns := now\<rparr>)"
  obtain arr h1 where h1: "pool_drop (wc_numa_node w) sig h = Some h1"
    and arr: "fold_opt (conv_rx_channel env sig) [0..<unat (sig_numCh sig)] (wc_src_sig_arr w1) = Some arr"
    using p w(1) by (auto simp: ProcessSignal_def w1_def Let_def split: bind_splits)
  obtain ds w2 where g: "get_destinations h1 im (w1\<lparr>wc_src_sig_arr := arr\<rparr>) = (ds, w2)"
    by (cases "get_destinations h1 im (w1\<lparr>wc_src_sig_arr := arr\<rparr>)")
  obtain pl where pl: "h1 = h\<lparr>hp_pools := pl\<rparr>" using pool_drop_frame [OF h1] by blast
  have sv1: "same_view h im h1 im" unfolding pl by (rule same_view_pool)
  have c1: "cache_ok h1 im (w1\<lparr>wc_src_sig_arr := arr\<rparr>)"
    using w(2) same_view_snapshot [OF sv1] by (simp add: cache_ok_def w1_def ensureSrcChannels_def)
  have c2: "cache_ok h im w2"
    using get_destinations_cache [OF c1] g same_view_snapshot [OF sv1] by (simp add: cache_ok_def)
  define im1 where "im1 = im\<lparr>im_workers := om_set rid w2 (im_workers im)\<rparr>"
  have sv2: "same_view h im h1 im1" using sv1 by (simp add: im1_def same_view_def)
  have "same_view h im h' im' \<and> im_workers im' = im_workers im1"
  proof (cases "ds = []")
    case True
    then show ?thesis using p w(1) h1 arr g sv2
      by (auto simp: ProcessSignal_def w1_def Let_def im1_def split: bind_splits)
  next
    case False
    show ?thesis
    proof (cases "acquire_from (pool_order (wc_numa_node w) (length (hp_pools h1))) (length ds) h1")
      case None
      then show ?thesis using p w(1) h1 arr g sv2 False
        by (auto simp: ProcessSignal_def w1_def Let_def im1_def same_view_def split: bind_splits)
    next
      case (Some x)
      obtain bufs h2 where x: "x = (bufs, h2)" by (cases x)
      obtain pl2 where "h2 = h1\<lparr>hp_pools := pl2\<rparr>" using acquire_from_frame Some x by blast
      then have sv3: "same_view h im h2 im1" using sv2 same_view_trans same_view_pool by blast
      obtain sc where "fold_opt (ProcessDestinationSignal env w2 sc) (zip ds bufs) (h2, im1, tls) = Some (h', im', tls')"
        using p w(1) h1 arr g False Some x
        by (auto simp: ProcessSignal_def w1_def Let_def im1_def split: bind_splits)
      from ProcessDestinationSignal_fold_view [OF this] sv3 show ?thesis by (auto intro: same_view_trans)
    qed
  qed
  then show ?thesis using c2 by (auto simp: im1_def)
qed

lemma WorkerLoop_step_inv:
  assumes inv: "im_inv h im" and s: "WorkerLoop_step env now rid (h, im, tls) = Some (h', im', tls')"
  shows "im_inv h' im' \<and> im_destVersion im' = im_destVersion im"
proof -
  obtain w where w: "om_find (im_workers im) rid = Some w"
    using s by (auto simp: WorkerLoop_step_def split: bind_splits)
  have cw: "cache_ok h im w" using inv w by (auto simp: im_inv_def)
  have key: "\<exists>w'. same_view h im h' im' \<and> im_workers im' = om_set rid w' (im_workers im) \<and> cache_ok h im w'"
    if ch: "\<not> (h' = h \<and> im' = im)"
  proof -
    obtain sig q where q: "wc_queue w = sig # q"
      using s w ch by (auto simp: WorkerLoop_step_def split: if_splits list.splits)
    define im1 where "im1 = im\<lparr>im_workers := om_set rid (w\<lparr>wc_queue := q\<rparr>) (im_workers im)\<rparr>"
    have c1: "cache_ok h im (w\<lparr>wc_queue := q\<rparr>)" using cw by (simp add: cache_ok_def)
    have sv: "same_view h im h im1" unfolding im1_def by (rule same_view_workers)
    have ss: "om_set rid a (om_set rid b m) = om_set rid a m" for a b and m :: "(string, WorkerContext) omap"
      by (induction m) auto
    show ?thesis
    proof (cases "start_time sig < now - im_max_latency_ns im")
      case True
      then show ?thesis using s w q ch c1
        by (auto simp: WorkerLoop_step_def Let_def same_view_def split: if_splits dest!: pool_drop_frame)
    next
      case False
      then have p: "ProcessSignal env now rid sig (h, im1, tls) = Some (h', im', tls')"
        using s w q ch by (auto simp: WorkerLoop_step_def Let_def im1_def split: if_splits)
      have f: "om_find (im_workers im1) rid = Some (w\<lparr>wc_queue := q\<rparr>)" by (simp add: im1_def om_find_set)
      have c: "cache_ok h im1 (w\<lparr>wc_queue := q\<rparr>)"
        using c1 same_view_snapshot [OF sv] by (simp add: cache_ok_def im1_def)
      obtain w' where "same_view h im1 h' im'" "im_workers im' = om_set rid w' (im_workers im1)" "cache_ok h im1 w'"
        using ProcessSignal_view [OF p f c] by blast
      then have "same_view h im h' im'" "im_workers im' = om_set rid w' (im_workers im)" "cache_ok h im w'"
        using same_view_trans [OF sv] same_view_snapshot [OF sv] by (auto simp: cache_ok_def im1_def ss)
      then show ?thesis by blast
    qed
  qed
  show ?thesis
  proof (cases "h' = h \<and> im' = im")
    case True
    then show ?thesis using inv by simp
  next
    case False
    then obtain w' where k: "same_view h im h' im'" "im_workers im' = om_set rid w' (im_workers im)" "cache_ok h im w'"
      using key by auto
    have "im_inv h' im'" by (rule set_worker_inv [OF inv k(1) w k(2,3)])
    then show ?thesis using k by (simp add: same_view_def)
  qed
qed

section \<open>Runs of a channel\<close>

text \<open>A function that keeps the ends of a link; every setter of a link is one.\<close>

definition link_setter :: "(Channel \<Rightarrow> Channel) \<Rightarrow> bool" where
  "link_setter f \<longleftrightarrow> (\<forall>c. ch_source (f c) = ch_source c \<and> ch_dest (f c) = ch_dest c)"

lemma link_setters:
  "link_setter (ch_updateDistance d)" "link_setter (ch_updateAltitude d)" "link_setter (ch_updateElevation d)"
  "link_setter (ch_updateAzimuth d)" "link_setter (updateChCoeff k d)" "link_setter (setFrequencyOffsetHz d)"
  "link_setter (setDopplerEnabled b)" "link_setter (setDopplerHz d)" "link_setter (updateChTaps k ts)"
  "link_setter (clearChTaps k)" "link_setter (updatePlType pl)" "link_setter (update3gppScenario s)"
  "link_setter (updateHataEnvironment s)" "link_setter (updateITMParams n g e z)" "link_setter (ch_setShadowingSTD d)"
  "link_setter (updateSNR d)" "link_setter (updateNoiseType nt)" "link_setter clearSNROverride"
  by (simp_all add: link_setter_def ch_updateDistance_def ch_updateAltitude_def ch_updateElevation_def
      ch_updateAzimuth_def updateChCoeff_def setFrequencyOffsetHz_def setDopplerEnabled_def setDopplerHz_def
      updateChTaps_def clearChTaps_def updatePlType_def update3gppScenario_def updateHataEnvironment_def
      updateITMParams_def ch_setShadowingSTD_def updateSNR_def updateNoiseType_def clearSNROverride_def
      split: option.splits)

text \<open>Everything that can happen to a channel, apart from an in-place change of an endpoint's rate.
  Transmitters are created with the identity of their configuration.\<close>

inductive im_step :: "heap \<times> Intermediate \<Rightarrow> heap \<times> Intermediate \<Rightarrow> bool" where
  attach_dest: "tr_NodeId (hp_tx h t) = nc_id (tr_node_config (hp_tx h t)) \<Longrightarrow> AttachDestination h t im = Some im' \<Longrightarrow>
     im_step (h, im) (h, im')"
| detach_dest: "DetachDestination h t im = (b, h', im') \<Longrightarrow> im_step (h, im) (h', im')"
| attach_src: "AttachSource h r im = Some (h', im') \<Longrightarrow> im_step (h, im) (h', im')"
| detach_src: "DetachSource h r im = Some (b, h', im') \<Longrightarrow> im_step (h, im) (h', im')"
| enqueue: "worker_enqueue rid sig (h, im) = Some (h', im') \<Longrightarrow> im_step (h, im) (h', im')"
| work: "WorkerLoop_step env now rid (h, im, tls) = Some (h', im', tls') \<Longrightarrow> im_step (h, im) (h', im')"
| sandbox_add: "im_step (h, im) (h, addSandboxNode h n k im)"
| sandbox_remove: "im_step (h, im) (h, removeSandboxNode n im)"
| set_link: "link_setter f \<Longrightarrow> im_step (h, im) (h, snd (on_channel f src dest im))"
| set_shadowing: "im_step (h, im) (h, setShadowingSTD d im)"
| set_model: "im_step (h, im) (h, updatePathLoss m g im)"
| set_scenario: "im_step (h, im) (h, set3gppScenario s im)"
| set_hata: "im_step (h, im) (h, setHataEnvironment s im)"
| set_itm: "im_step (h, im) (h, setITMParams n g e z im)"
| set_latency: "im_step (h, im) (h, setMaxLatency ms im)"

inductive im_reach :: "nat \<Rightarrow> heap \<times> Intermediate \<Rightarrow> bool" where
  start: "im_reach 0 (h, Intermediate_new freq ms)"
| step: "im_reach n s \<Longrightarrow> im_step s s' \<Longrightarrow> im_reach (Suc n) s'"

lemma for_channels_view:
  assumes "link_setter f" and "same_view h im h im'" and "om_wf (im_channelMap im) \<Longrightarrow> om_wf (im_channelMap im')"
  shows "same_view h im h (for_channels f im')"
  using assms by (auto simp: same_view_def for_channels_def om_find_map_values link_setter_def)

lemma on_channel_view: "link_setter f \<Longrightarrow> same_view h im h (snd (on_channel f src dest im))"
  by (auto simp: same_view_def on_channel_def om_find_set om_wf_set link_setter_def split: option.splits)

lemma param_views:
  "same_view h im h (setShadowingSTD d im)" "same_view h im h (updatePathLoss m g im)"
  "same_view h im h (set3gppScenario s im)" "same_view h im h (setHataEnvironment s im)"
  "same_view h im h (setITMParams n g e z im)" "same_view h im h (setMaxLatency ms im)"
  using link_setters
  by (auto simp: same_view_def setShadowingSTD_def updatePathLoss_def setPathLossMode_def set3gppScenario_def
      setHataEnvironment_def setITMParams_def setMaxLatency_def for_channels_def om_find_map_values link_setter_def)

lemma param_workers:
  "im_workers (setShadowingSTD d im) = im_workers im" "im_workers (updatePathLoss m g im) = im_workers im"
  "im_workers (set3gppScenario s im) = im_workers im" "im_workers (setHataEnvironment s im) = im_workers im"
  "im_workers (setITMParams n g e z im) = im_workers im" "im_workers (setMaxLatency ms im) = im_workers im"
  "im_workers (snd (on_channel f src dest im)) = im_workers im"
  by (auto simp: setShadowingSTD_def updatePathLoss_def setPathLossMode_def set3gppScenario_def
      setHataEnvironment_def setITMParams_def setMaxLatency_def for_channels_def on_channel_def split: option.splits)

lemma view_inv:
  assumes "im_inv h im" and "same_view h im h im'" and "im_workers im' = im_workers im"
  shows "im_inv h im' \<and> im_destVersion im' = im_destVersion im"
proof -
  have "im_inv h im'"
    by (rule im_inv_same_view [OF assms(1,2)]) (use assms in \<open>auto simp: im_inv_def\<close>)
  then show ?thesis using assms(2) by (simp add: same_view_def)
qed

lemmas param_inv =
  view_inv [OF _ param_views(1) param_workers(1)] view_inv [OF _ param_views(2) param_workers(2)]
  view_inv [OF _ param_views(3) param_workers(3)] view_inv [OF _ param_views(4) param_workers(4)]
  view_inv [OF _ param_views(5) param_workers(5)] view_inv [OF _ param_views(6) param_workers(6)]

lemma worker_enqueue_frame:
  assumes e: "worker_enqueue rid sig (h, im) = Some (h', im')"
  shows "(\<exists>p. h' = h\<lparr>hp_pools := p\<rparr>) \<and> (im' = im \<or> (\<exists>w q. om_find (im_workers im) rid = Some w \<and>
    im' = im\<lparr>im_workers := om_set rid (w\<lparr>wc_queue := q\<rparr>) (im_workers im)\<rparr>))"
proof (cases "\<exists>w. om_find (im_workers im) rid = Some w \<and> wc_running_flag w")
  case False
  then have "map_option (\<lambda>h'. (h', im)) (pool_drop 0 sig h) = Some (h', im')"
    using e by (auto simp: worker_enqueue_def split: option.splits)
  then have "pool_drop 0 sig h = Some h'" "im' = im" by auto
  then show ?thesis using pool_drop_frame by blast
next
  case True
  then obtain w where w: "om_find (im_workers im) rid = Some w" "wc_running_flag w" by blast
  obtain q h1 where q: "(if QUEUE_CAP - 1 \<le> length (wc_queue w)
      then (case wc_queue w of [] \<Rightarrow> Some ([], h) | s # q \<Rightarrow> map_option (\<lambda>h'. (q, h')) (pool_drop 0 s h))
      else Some (wc_queue w, h)) = Some (q, h1)"
    using e w by (auto simp: worker_enqueue_def simp del: diff_Suc_1 split: bind_splits)
  have h1: "\<exists>p. h1 = h\<lparr>hp_pools := p\<rparr>"
  proof (cases "h1 = h")
    case True
    then show ?thesis by (intro exI [of _ "hp_pools h"]) simp
  next
    case False
    then obtain s where "pool_drop 0 s h = Some h1" using q by (auto split: if_splits list.splits)
    then show ?thesis by (rule pool_drop_frame)
  qed
  show ?thesis
  proof (cases "length q < QUEUE_CAP")
    case True
    then have "h' = h1" "im' = im\<lparr>im_workers := om_set rid (w\<lparr>wc_queue := q @ [sig]\<rparr>) (im_workers im)\<rparr>"
      using e w q by (simp_all add: worker_enqueue_def)
    then show ?thesis using h1 w by blast
  next
    case False
    then have d: "pool_drop 0 sig h1 = Some h'" and "im' = im\<lparr>im_workers := om_set rid (w\<lparr>wc_queue := q\<rparr>) (im_workers im)\<rparr>"
      using e w q by (auto simp: worker_enqueue_def)
    moreover obtain p where "h' = h1\<lparr>hp_pools := p\<rparr>" using pool_drop_frame [OF d] by blast
    ultimately show ?thesis using h1 w by auto
  qed
qed

lemma worker_enqueue_inv:
  assumes inv: "im_inv h im" and e: "worker_enqueue rid sig (h, im) = Some (h', im')"
  shows "im_inv h' im' \<and> im_destVersion im' = im_destVersion im"
proof -
  obtain p where h': "h' = h\<lparr>hp_pools := p\<rparr>" using worker_enqueue_frame [OF e] by blast
  consider "im' = im" | w q where "om_find (im_workers im) rid = Some w"
      "im' = im\<lparr>im_workers := om_set rid (w\<lparr>wc_queue := q\<rparr>) (im_workers im)\<rparr>"
    using worker_enqueue_frame [OF e] by blast
  then show ?thesis
  proof cases
    case 1
    have "im_inv h' im'" unfolding h' 1
      by (rule im_inv_same_view [OF inv same_view_pool]) (use inv in \<open>auto simp: im_inv_def\<close>)
    then show ?thesis using 1 by simp
  next
    case 2
    have sv: "same_view h im h' im'" by (simp add: h' 2 same_view_def)
    have "cache_ok h im (w\<lparr>wc_queue := q\<rparr>)" using inv 2(1) by (auto simp: im_inv_def cache_ok_def)
    then have "im_inv h' im'" by (intro set_worker_inv [OF inv sv 2(1)]) (simp_all add: 2(2))
    then show ?thesis by (simp add: 2(2))
  qed
qed

lemma versions:
  "AttachDestination h t im = Some im' \<Longrightarrow> im_destVersion im' \<in> {im_destVersion im, im_destVersion im + 1}"
  "DetachDestination h t im = (b, h', im') \<Longrightarrow> im_destVersion im' \<in> {im_destVersion im, im_destVersion im + 1}"
  "AttachSource h r im = Some (h', im') \<Longrightarrow> im_destVersion im' \<in> {im_destVersion im, im_destVersion im + 1}"
  "DetachSource h r im = Some (b, h', im') \<Longrightarrow> im_destVersion im' \<in> {im_destVersion im, im_destVersion im + 1}"
  "im_destVersion (addSandboxNode h n k im) = im_destVersion im + 1"
  "im_destVersion (removeSandboxNode n im) = im_destVersion im + 1"
  by (auto simp: AttachDestination_def AttachSource_def DetachDestination_def DetachSource_def addSandboxNode_def
      removeSandboxNode_def bumpVersion_def removeChannel_def Let_def
      split: if_splits option.splits bind_splits dest!: printStatus_Some)

lemma im_step_inv:
  assumes "im_step s s'" and "im_inv (fst s) (snd s)" and "fresh_version (snd s)"
  shows "im_inv (fst s') (snd s') \<and> unat (im_destVersion (snd s')) \<le> Suc (unat (im_destVersion (snd s)))"
  using assms
proof (induction rule: im_step.induct)
  case (attach_dest h t im im')
  then show ?case using AttachDestination_inv versions(1) [OF attach_dest(2)] version_bump
    by (fastforce simp: fresh_version_def)
next
  case (detach_dest h t im b h' im')
  then show ?case using DetachDestination_inv versions(2) [OF detach_dest(1)] version_bump
    by (fastforce simp: fresh_version_def)
next
  case (attach_src h r im h' im')
  then show ?case using AttachSource_inv versions(3) [OF attach_src(1)] version_bump
    by (fastforce simp: fresh_version_def)
next
  case (detach_src h r im b h' im')
  then show ?case using DetachSource_inv versions(4) [OF detach_src(1)] version_bump
    by (fastforce simp: fresh_version_def)
next
  case (enqueue rid sig h im h' im')
  then show ?case using worker_enqueue_inv by fastforce
next
  case (work env now rid h im tls h' im' tls')
  then show ?case using WorkerLoop_step_inv by fastforce
next
  case (sandbox_add h im n k)
  then show ?case using addSandboxNode_inv version_bump by (simp add: versions fresh_version_def)
next
  case (sandbox_remove h im n)
  then show ?case using removeSandboxNode_inv version_bump by (simp add: versions fresh_version_def)
next
  case (set_link f h im src dest)
  then show ?case using view_inv [OF _ on_channel_view] by (simp add: param_workers)
qed (simp_all add: param_inv)

lemma im_reach_inv:
  assumes "im_reach n s" and "n < 2 ^ 64"
  shows "im_inv (fst s) (snd s) \<and> unat (im_destVersion (snd s)) \<le> n"
  using assms
proof (induction rule: im_reach.induct)
  case (start h freq ms)
  then show ?case by (simp add: im_inv_def Intermediate_new_def)
next
  case (step n s s')
  then have IH: "im_inv (fst s) (snd s)" "unat (im_destVersion (snd s)) \<le> n" by auto
  then have "fresh_version (snd s)" using step.prems by (simp add: fresh_version_def)
  from im_step_inv [OF step.hyps(2) IH(1) this] IH(2) show ?case by auto
qed

text \<open>C5. A worker never processes a stale set of destinations: in every run of fewer than 2 to the
  64 operations on a channel (attaching and detaching, traffic, sandbox nodes, parameter updates), what a
  worker uses for the next burst, cached or not, is exactly the set of destinations that are
  attached and linked to its source at that moment.\<close>

theorem snapshot_cache_valid:
  assumes "im_reach n (h, im)" and "n < 2 ^ 64" and "om_find (im_workers im) rid = Some w"
  shows "fst (get_destinations h im w) = snapshot h im (wc_src_node_id w)"
proof -
  have "cache_ok h im w" using im_reach_inv [OF assms(1,2)] assms(3) by (simp add: im_inv_def)
  then show ?thesis using get_destinations_cache by simp
qed

definition example_receiver :: Receiver where
  "example_receiver = \<lparr>rcv_node_config = (NodeConfig_new 0 0)\<lparr>nc_id := ''a''\<rparr>, rcv_NodeId = ''a'', rcv_NodeName = ''a'',
     rcv_ch_no = 0, rcv_ip_address = ''127.0.0.1'', rcv_portNum = 4000, rcv_working = True, rcv_attached = False,
     rcv_sample_rate = 1000000, rcv_freq = 0, rcv_numChannels = 1, rcv_hasCallback = False, rcv_queue = [],
     rcv_udpPool = empty_pool 4\<rparr>"

definition example_heap :: heap where
  "example_heap = \<lparr>hp_rx = (\<lambda>_. example_receiver),
     hp_tx = (\<lambda>_. example_transmitter\<lparr>tr_node_config := (NodeConfig_new 0 0)\<lparr>nc_id := ''b''\<rparr>\<rparr>),
     hp_next = 1, hp_pools = [empty_pool 4]\<rparr>"

text \<open>One source and one destination.\<close>

definition example_channel :: "(heap \<times> Intermediate) option" where
  "example_channel = (case AttachSource example_heap 0 (Intermediate_new 1000 10) of
     None \<Rightarrow> None | Some (h, im) \<Rightarrow> map_option (\<lambda>im'. (h, im')) (AttachDestination h 0 im))"

lemma example_channel_steps:
  assumes "example_channel = Some s"
  shows "im_reach 2 s"
proof -
  obtain h im im' where a: "AttachSource example_heap 0 (Intermediate_new 1000 10) = Some (h, im)"
    and d: "AttachDestination h 0 im = Some im'" and s: "s = (h, im')"
    using assms by (auto simp: example_channel_def split: option.splits)
  have tx: "hp_tx h = hp_tx example_heap" using a by (auto simp: AttachSource_def Let_def split: if_splits)
  have "im_reach (Suc 0) (h, im)" by (rule im_reach.step [OF im_reach.start im_step.attach_src [OF a]])
  then have "im_reach (Suc (Suc 0)) (h, im')"
    by (rule im_reach.step) (rule im_step.attach_dest [OF _ d], simp add: tx example_heap_def example_transmitter_def)
  then show ?thesis by (simp add: s numeral_2_eq_2)
qed

lemma example_channel_Some:
  "\<exists>h im w. example_channel = Some (h, im) \<and> om_find (im_workers im) ''a'' = Some w \<and>
     map di_dest_id (snapshot h im (wc_src_node_id w)) = [''b''] \<and> wc_src_node_id w = ''a'' \<and>
     im_destVersion im \<noteq> 0"
  by (simp add: example_channel_def AttachSource_def AttachDestination_def example_heap_def example_receiver_def
      example_transmitter_def Intermediate_new_def Let_def updateChannelMap_def wanted_links_def om_insert_def
      insertChannelIfMissing_def printStatus_def bumpVersion_def om_keys_def om_find_def setAddQueFnc_def
      Receiver_setAttachState_def WorkerContext_new_def snapshot_def NodeConfig_new_def)

theorem snapshot_cache_valid_witness:
  "\<exists>h im w. example_channel = Some (h, im) \<and> om_find (im_workers im) ''a'' = Some w \<and>
     map di_dest_id (fst (get_destinations h im w)) = [''b'']"
proof -
  obtain h im w where e: "example_channel = Some (h, im)" "om_find (im_workers im) ''a'' = Some w"
    "map di_dest_id (snapshot h im (wc_src_node_id w)) = [''b'']"
    using example_channel_Some by (elim exE conjE)
  then have "map di_dest_id (fst (get_destinations h im w)) = [''b'']"
    using snapshot_cache_valid [OF example_channel_steps [OF e(1)] _ e(2)] by simp
  with e(1,2) show ?thesis by (intro exI conjI)
qed

text \<open>The rate of an attached transmitter is the exception: when it is changed in place, a worker
  that has cached its destinations goes on with the old rate, because the version does not move.\<close>

theorem stale_sample_rate:
  assumes "cache_ok h im w" and "wc_cached_dest_version w = im_destVersion im" and "im_destVersion im \<noteq> 0"
    and "d \<in> set (snapshot h im (wc_src_node_id w))" and "rate \<noteq> di_sample_rate d"
    and "h' = h\<lparr>hp_tx := (hp_tx h)(di_transmitter d := Transmitter_setSampleRate rate (hp_tx h (di_transmitter d)))\<rparr>"
  shows "d \<in> set (fst (get_destinations h' im w)) \<and> tr_sample_rate (hp_tx h' (di_transmitter d)) = rate \<and>
    d \<notin> set (snapshot h' im (wc_src_node_id w))"
proof -
  have "fst (get_destinations h' im w) = snapshot h im (wc_src_node_id w)"
    using assms(1-3) by (simp add: get_destinations_def cache_ok_def)
  moreover have "di_sample_rate e = tr_sample_rate (hp_tx h' (di_transmitter e))"
    if "e \<in> set (snapshot h' im (wc_src_node_id w))" for e using that by (auto simp: snapshot_def)
  moreover have "tr_sample_rate (hp_tx h' (di_transmitter d)) = rate"
    by (simp add: assms(6) Transmitter_setSampleRate_def)
  ultimately show ?thesis using assms(4,5) by auto
qed

lemma example_channel_facts:
  obtains h im w d where "example_channel = Some (h, im)" "om_find (im_workers im) ''a'' = Some w"
    "wc_src_node_id w = ''a''" "im_inv h im" "im_destVersion im \<noteq> 0" "snapshot h im ''a'' = [d]"
proof -
  obtain h im w where e: "example_channel = Some (h, im)" "om_find (im_workers im) ''a'' = Some w"
    "map di_dest_id (snapshot h im (wc_src_node_id w)) = [''b'']" "wc_src_node_id w = ''a''" "im_destVersion im \<noteq> 0"
    using example_channel_Some by (elim exE conjE)
  have "im_inv h im" using im_reach_inv [OF example_channel_steps [OF e(1)]] by simp
  moreover obtain d where "snapshot h im ''a'' = [d]" using e(3,4) by auto
  ultimately show ?thesis using e that by simp
qed

theorem stale_sample_rate_witness:
  "\<exists>h im w d h'. example_channel = Some (h, im) \<and> h' = h\<lparr>hp_tx := (hp_tx h)(di_transmitter d :=
       Transmitter_setSampleRate (di_sample_rate d + 1) (hp_tx h (di_transmitter d)))\<rparr> \<and>
     d \<in> set (fst (get_destinations h' im w)) \<and> d \<notin> set (snapshot h' im (wc_src_node_id w))"
proof -
  obtain h im w d where e: "example_channel = Some (h, im)" "om_find (im_workers im) ''a'' = Some w"
    "wc_src_node_id w = ''a''" "im_inv h im" "im_destVersion im \<noteq> 0" "snapshot h im ''a'' = [d]"
    by (rule example_channel_facts)
  define w' where "w' = snd (get_destinations h im w)"
  have c: "cache_ok h im w" using im_inv_maps [OF e(4)] e(2) by simp
  have c': "cache_ok h im w'" "wc_src_node_id w' = ''a''" using get_destinations_cache [OF c] e(3) by (simp_all add: w'_def)
  have v: "wc_cached_dest_version w' = im_destVersion im" by (simp add: w'_def get_destinations_def Let_def)
  define h' where "h' = h\<lparr>hp_tx := (hp_tx h)(di_transmitter d :=
       Transmitter_setSampleRate (di_sample_rate d + 1) (hp_tx h (di_transmitter d)))\<rparr>"
  have "d \<in> set (fst (get_destinations h' im w')) \<and> d \<notin> set (snapshot h' im (wc_src_node_id w'))"
    using stale_sample_rate [OF c'(1) v e(5) _ _ h'_def] e(6) c'(2) by simp
  with e(1) h'_def show ?thesis by blast
qed

text \<open>C38. A transmitter that is detached while a worker is between its snapshot and the processing
  leaves that worker with a link that no longer exists: the processing of that destination faults.\<close>

theorem detach_during_processing_faults:
  assumes "im_inv h im" and "d \<in> set (snapshot h im src)" and "DetachDestination h (di_transmitter d) im = (b, h', im')"
    and "sc_src_id sc = src"
  shows "b \<and> ProcessDestinationSignal env w sc (d, buf) (h'', im', tls) = None"
proof -
  note wf = im_inv_wf [OF assms(1)]
  obtain k where m: "(k, di_transmitter d) \<in> set (im_destinationMap im)"
    and ident: "di_dest_id d = nc_id (tr_node_config (hp_tx h (di_transmitter d)))"
    using assms(2) by (auto simp: snapshot_def)
  have f: "om_find (im_destinationMap im) k = Some (di_transmitter d)" using m om_items_find [OF wf(2)] by simp
  have k: "tr_NodeId (hp_tx h (di_transmitter d)) = k" "di_dest_id d = k"
    using im_inv_dest [OF assms(1) f] ident by simp_all
  have "b" and "im_channelMap im' = im_channelMap (removeChannel k im)"
    using assms(3) f k(1) by (auto simp: DetachDestination_def Let_def bumpVersion_def)
  moreover have "om_find (im_channelMap (removeChannel k im)) (src, k) = None"
    using im_inv_ends [OF assms(1)] by (auto simp: removeChannel_find [OF wf(3)] split: option.split)
  ultimately have "b" and "om_find (im_channelMap im') (src, k) = None" by simp_all
  then show ?thesis using assms(4) k by (simp add: ProcessDestinationSignal_def)
qed

theorem detach_during_processing_faults_witness:
  "\<exists>h im d h' im'. example_channel = Some (h, im) \<and> DetachDestination h (di_transmitter d) im = (True, h', im') \<and>
     (\<forall>env w sc buf h'' tls. ProcessDestinationSignal env w (sc\<lparr>sc_src_id := ''a''\<rparr>) (d, buf) (h'', im', tls) = None)"
proof -
  obtain h im w d where e: "example_channel = Some (h, im)" "om_find (im_workers im) ''a'' = Some w"
    "wc_src_node_id w = ''a''" "im_inv h im" "im_destVersion im \<noteq> 0" "snapshot h im ''a'' = [d]"
    by (rule example_channel_facts)
  obtain b h' im' where x: "DetachDestination h (di_transmitter d) im = (b, h', im')" by (metis prod_cases3)
  have "b \<and> ProcessDestinationSignal env w (sc\<lparr>sc_src_id := ''a''\<rparr>) (d, buf) (h'', im', tls) = None"
    for env w h'' buf tls and sc :: SignalContext
    by (rule detach_during_processing_faults [OF e(4) _ x]) (simp_all add: e(6))
  then have "DetachDestination h (di_transmitter d) im = (True, h', im')" and
    "\<forall>env w (sc :: SignalContext) buf h'' tls.
       ProcessDestinationSignal env w (sc\<lparr>sc_src_id := ''a''\<rparr>) (d, buf) (h'', im', tls) = None"
    using x by simp_all
  with e(1) show ?thesis by (intro exI conjI)
qed

end
