(* ===== verification/Node_Entity.thy ===== *)
theory Node_Entity
  imports Node_Config Path_Loss
begin

text \<open>
  A connected node, \<open>src/chem/node/node_entity.cpp\<close>: its configuration, where it is and how
  fast it moves, its RF characteristics, its heartbeat, and the sender and receiver it owns
  (addresses of the shared objects). \<open>refreshFromConfig\<close> takes the configuration of a request
  by reference and changes both; its lambda \<open>getResolvedLogicalNode\<close> remembers its first answer,
  so the answer is part of the state. The telemetry threads are started by \<open>addVehicle\<close>; what
  is modelled of them is the table of handlers and the calls their callbacks make on the node.
\<close>

section \<open>Decimal numbers\<close>

fun decimal :: "nat \<Rightarrow> string" where
  "decimal n = (if n < 10 then [char_of (48 + n)] else decimal (n div 10) @ [char_of (48 + n mod 10)])"

declare decimal.simps [simp del]

definition fmt_int :: "int \<Rightarrow> string" where
  "fmt_int i = (if i < 0 then CHR ''-'' # decimal (nat (- i)) else decimal (nat i))"

section \<open>The node\<close>

text \<open>Time points of the steady clock are nanoseconds.\<close>

record Node =
  nd_config :: NodeConfig
  nd_update :: bool
  nd_txExist :: bool
  nd_rxExist :: bool
  nd_type :: NodeType
  nd_location :: Location
  nd_logicalNode :: byte
  nd_hasLocation :: bool
  nd_velocity :: Velocity
  nd_hasVelocity :: bool
  nd_hasPrevLocation :: bool
  nd_prevLocation :: Location
  nd_prevLocationTime :: int
  nd_characteristics :: "NodeCharacteristics option"
  nd_transmitter :: "nat option"
  nd_receiver :: "nat option"
  nd_lastHeartbeat :: int

definition Node_new :: "int \<Rightarrow> NodeConfig \<Rightarrow> Node" where
  "Node_new now config =
     \<lparr>nd_config = config, nd_update = False, nd_txExist = False, nd_rxExist = False, nd_type = NT_UNKNOWN,
      nd_location = mkLocation 0 0 0, nd_logicalNode = 0, nd_hasLocation = False,
      nd_velocity = \<lparr>vel_east = Fin 0, vel_north = Fin 0, vel_up = Fin 0\<rparr>, nd_hasVelocity = False,
      nd_hasPrevLocation = False, nd_prevLocation = mkLocation 0 0 0, nd_prevLocationTime = 0,
      nd_characteristics = None, nd_transmitter = None, nd_receiver = None, nd_lastHeartbeat = now\<rparr>"

definition updateHeartbeat :: "int \<Rightarrow> Node \<Rightarrow> Node" where
  "updateHeartbeat now n = n\<lparr>nd_lastHeartbeat := now\<rparr>"

text \<open>\<open>duration_cast<seconds>\<close> truncates towards zero.\<close>

definition isAlive :: "int \<Rightarrow> int \<Rightarrow> Node \<Rightarrow> bool" where
  "isAlive now timeout n = (trunc_real (of_int (now - nd_lastHeartbeat n) / 1000000000) < timeout)"

definition compare :: "NodeConfig \<Rightarrow> Node \<Rightarrow> bool" where
  "compare nc n =
     (let m = nd_config n in
      length (nc_channels m) = length (nc_channels nc) \<and>
      nc_id m = nc_id nc \<and> nc_name m = nc_name nc \<and> nc_ipAddress m = nc_ipAddress nc \<and>
      nc_sample_rate m = nc_sample_rate nc \<and> nc_inputFormat m = nc_inputFormat nc \<and>
      nc_outputFormat m = nc_outputFormat nc \<and> nc_nodeType m = nc_nodeType nc \<and>
      nc_hasDeviceTxGain m = nc_hasDeviceTxGain nc \<and> nc_hasDeviceRxGain m = nc_hasDeviceRxGain nc \<and>
      (nc_hasDeviceTxGain m \<and> nc_hasDeviceTxGain nc \<longrightarrow> nc_deviceTxGain m = nc_deviceTxGain nc) \<and>
      (nc_hasDeviceRxGain m \<and> nc_hasDeviceRxGain nc \<longrightarrow> nc_deviceRxGain m = nc_deviceRxGain nc) \<and>
      list_all2 usrp_Channel_compare (nc_channels m) (nc_channels nc))"

definition compare_node :: "Node \<Rightarrow> Node \<Rightarrow> bool" where
  "compare_node other n = compare (nd_config other) n"

text \<open>The velocity is estimated from two successive positions that are more than a
  millisecond apart, on a local plane.\<close>

definition meters_per_deg :: real where
  "meters_per_deg = 111319.5"

definition estimate_velocity :: "real \<Rightarrow> Location \<Rightarrow> Location \<Rightarrow> Velocity" where
  "estimate_velocity dt prev loc =
     (let lat_avg_rad = fp_mul (fp_mul (fp_add (loc_lat prev) (loc_lat loc)) (Fin (1 / 2))) (Fin (PI_C / 180));
          dlat_m = fp_mul (fp_sub (loc_lat loc) (loc_lat prev)) (Fin meters_per_deg);
          dlon_m = fp_mul (fp_mul (fp_sub (loc_lon loc) (loc_lon prev)) (Fin meters_per_deg)) (fp_cos lat_avg_rad);
          dalt_m = fp_sub (loc_alt loc) (loc_alt prev)
      in \<lparr>vel_east = fp_div dlon_m (Fin dt), vel_north = fp_div dlat_m (Fin dt), vel_up = fp_div dalt_m (Fin dt)\<rparr>)"

definition setLocation :: "int \<Rightarrow> Location \<Rightarrow> byte \<Rightarrow> Node \<Rightarrow> Node" where
  "setLocation now location logicalNode n =
     (let dt = of_int (now - nd_prevLocationTime n) / 1000000000;
          n1 = (if nd_hasPrevLocation n \<and> 1 / 1000 < dt
                then n\<lparr>nd_velocity := estimate_velocity dt (nd_prevLocation n) location, nd_hasVelocity := True\<rparr>
                else n)
      in n1\<lparr>nd_prevLocation := location, nd_prevLocationTime := now, nd_hasPrevLocation := True,
            nd_location := location, nd_logicalNode := logicalNode, nd_hasLocation := True,
            nd_config := (setNodeConfigLocation location (nd_config n1))\<lparr>nc_logicalNode := int (unat logicalNode)\<rparr>\<rparr>)"

definition setVelocity :: "Velocity \<Rightarrow> Node \<Rightarrow> Node" where
  "setVelocity v n = n\<lparr>nd_velocity := v, nd_hasVelocity := True\<rparr>"

definition getLocation :: "Node \<Rightarrow> NodeLocation option" where
  "getLocation n =
     (if nd_hasLocation n
      then Some \<lparr>nloc_logicalNode = nd_logicalNode n, nloc_position = nd_location n,
                 nloc_velocity = nd_velocity n, nloc_hasVelocity = nd_hasVelocity n\<rparr>
      else None)"

definition isComplete :: "Node \<Rightarrow> bool" where
  "isComplete n = (1 \<le> length (nc_channels (nd_config n)))"

definition setTransmitter :: "nat option \<Rightarrow> Node \<Rightarrow> Node" where
  "setTransmitter tx n = n\<lparr>nd_transmitter := tx, nd_txExist := (tx \<noteq> None)\<rparr>"

definition setReceiver :: "nat option \<Rightarrow> Node \<Rightarrow> Node" where
  "setReceiver rx n = n\<lparr>nd_receiver := rx, nd_rxExist := (rx \<noteq> None)\<rparr>"

definition setConfig :: "NodeConfig \<Rightarrow> Node \<Rightarrow> Node" where
  "setConfig config n = n\<lparr>nd_config := config, nd_characteristics := nc_characteristics config\<rparr>"

definition setCharacteristics :: "NodeCharacteristics \<Rightarrow> Node \<Rightarrow> Node" where
  "setCharacteristics c n = n\<lparr>nd_characteristics := Some c\<rparr>"

definition clearCharacteristics :: "Node \<Rightarrow> Node" where
  "clearCharacteristics n = n\<lparr>nd_characteristics := None\<rparr>"

definition Node_to_json :: "Node \<Rightarrow> json" where
  "Node_to_json n = NodeConfig_to_json (nd_config n)"

text \<open>\<open>get<NodeConfig>\<close> fills a fresh configuration, whose ports are whatever was in memory.\<close>

definition Node_from_json :: "u16 \<Rightarrow> u16 \<Rightarrow> json \<Rightarrow> Node \<Rightarrow> Node" where
  "Node_from_json ptx prx j n =
     try_seq
       [\<lambda>n. Inr (setConfig (NodeConfig_from_json j (NodeConfig_new ptx prx)) n),
        \<lambda>n. rmap (\<lambda>u. n\<lparr>nd_update := u\<rparr>) (rbind (jat j ''update'') get_bool)] n"

section \<open>Vehicles\<close>

text \<open>A handler holds a pointer to its node; nodes are named by their id.\<close>

record Handler =
  vh_connection :: string
  vh_nodeId :: string
  vh_node :: string
  vh_running :: bool

type_synonym handlers = "(string, Handler) omap"

definition vehicle_key :: "Node \<Rightarrow> string" where
  "vehicle_key n = (if nc_name (nd_config n) \<noteq> [] then nc_name (nd_config n) else nc_id (nd_config n))"

definition is_pn_key :: "string \<Rightarrow> bool" where
  "is_pn_key key = (take 2 (str_toupper key) = ''PN'')"

definition vehicle_url :: "int \<Rightarrow> string" where
  "vehicle_url logicalNode = ''tcp://127.0.0.1:'' @ fmt_int (to_int32 (5760 + logicalNode))"

text \<open>The number in an AERPAW key: from its first digit on, as \<open>stoi\<close> reads it.\<close>

definition key_number :: "string \<Rightarrow> int result option" where
  "key_number key = (case dropWhile (\<lambda>c. \<not> is_digit c) key of [] \<Rightarrow> None | s \<Rightarrow> Some (stoi s))"

definition default_vehicle_address :: "NodeConfig \<Rightarrow> string" where
  "default_vehicle_address nc =
     (if nc_vehicleAddress nc = [] \<and> nc_aerpawKey nc \<noteq> [] \<and> is_pn_key (nc_aerpawKey nc)
      then vehicle_url (if hasLogicalNode nc then nc_logicalNode nc
                        else case key_number (str_toupper (nc_aerpawKey nc)) of Some (Inr k) \<Rightarrow> k | _ \<Rightarrow> 0)
      else nc_vehicleAddress nc)"

definition addVehicle :: "NodeConfig \<Rightarrow> Node \<Rightarrow> handlers \<Rightarrow> bool \<times> Node \<times> handlers" where
  "addVehicle nc n hs =
     (let key = vehicle_key n; address = default_vehicle_address nc in
      if key = [] then (False, n, hs)
      else if om_find hs key \<noteq> None then (False, n, hs)
      else if address = [] then (False, n, hs)
      else (True, n\<lparr>nd_config := (nd_config n)\<lparr>nc_vehicleAddress := address\<rparr>\<rparr>,
            om_insert key \<lparr>vh_connection = address, vh_nodeId = key, vh_node = nc_id (nd_config n),
                           vh_running = False\<rparr> hs))"

section \<open>Refreshing a node from a request\<close>

record refresh =
  rf_node :: Node
  rf_cfg :: NodeConfig
  rf_handlers :: handlers
  rf_resolved :: "(int \<times> bool) option"

abbreviation rf_map_config :: "(NodeConfig \<Rightarrow> NodeConfig) \<Rightarrow> refresh \<Rightarrow> refresh" where
  "rf_map_config f r \<equiv> r\<lparr>rf_node := (rf_node r)\<lparr>nd_config := f (nd_config (rf_node r))\<rparr>\<rparr>"

definition resolveLogicalNode :: "NodeConfig \<Rightarrow> int \<times> NodeConfig" where
  "resolveLogicalNode nc =
     (if hasLogicalNode nc then (nc_logicalNode nc, nc)
      else case key_number (nc_aerpawKey nc) of
             Some (Inr k) \<Rightarrow> (k, nc\<lparr>nc_logicalNode := k\<rparr>)
           | _ \<Rightarrow> (0, nc\<lparr>nc_logicalNode := 0\<rparr>))"

definition getResolvedLogicalNode :: "refresh \<Rightarrow> (int \<times> bool) \<times> refresh" where
  "getResolvedLogicalNode r =
     (case rf_resolved r of
        Some x \<Rightarrow> (x, r)
      | None \<Rightarrow>
          let hasInfo = (hasLogicalNode (rf_cfg r) \<or> key_number (nc_aerpawKey (rf_cfg r)) \<noteq> None);
              (k, nc) = resolveLogicalNode (rf_cfg r)
          in ((k, hasInfo), r\<lparr>rf_cfg := nc, rf_resolved := Some (k, hasInfo)\<rparr>))"

definition is_origin :: "Location \<Rightarrow> bool" where
  "is_origin l = (fp_eq (loc_lat l) (Fin 0) \<and> fp_eq (loc_lon l) (Fin 0) \<and> fp_eq (loc_alt l) (Fin 0))"

definition refresh_copy :: "refresh \<Rightarrow> refresh" where
  "refresh_copy r =
     (let nc = rf_cfg r in
      rf_map_config
        ((\<lambda>m. if nc_hasDeviceRxGain nc then setDeviceRxGain (nc_deviceRxGain nc) m else m) \<circ>
         (\<lambda>m. if nc_hasDeviceTxGain nc then setDeviceTxGain (nc_deviceTxGain nc) m else m) \<circ>
         (\<lambda>m. if nc_aerpawKey nc \<noteq> [] then m\<lparr>nc_aerpawKey := nc_aerpawKey nc\<rparr> else m) \<circ>
         (\<lambda>m. if nc_vehicleAddress nc \<noteq> [] then m\<lparr>nc_vehicleAddress := nc_vehicleAddress nc\<rparr> else m) \<circ>
         (\<lambda>m. m\<lparr>nc_id := nc_id nc, nc_name := nc_name nc, nc_ipAddress := nc_ipAddress nc,
                nc_inputFormat := nc_inputFormat nc, nc_outputFormat := nc_outputFormat nc,
                nc_numChannels := nc_numChannels nc, nc_nodeType := nc_nodeType nc\<rparr>)) r)"

definition refresh_isPn :: "NodeConfig \<Rightarrow> bool" where
  "refresh_isPn nc = (nc_aerpawKey nc \<noteq> [] \<and> is_pn_key (nc_aerpawKey nc))"

text \<open>The type of the node, and whether a vehicle was added on the way.\<close>

definition refresh_type :: "refresh \<Rightarrow> bool \<times> refresh" where
  "refresh_type r =
     (let nc = rf_cfg r;
          (ty, added, r1) =
            (if nc_vehicleAddress nc \<noteq> [] then
               let (added, n, hs) = addVehicle nc (rf_node r) (rf_handlers r)
               in (NT_VEHICLE_MAVPROXY, added, r\<lparr>rf_node := n, rf_handlers := hs\<rparr>)
             else if nc_hasLocation nc then
               (if is_origin (nc_location nc) then nc_nodeType nc else NT_FIXED, False, r)
             else if nc_aerpawKey nc \<noteq> [] then
               if refresh_isPn nc then (NT_AERPAW_PORTABLE, False, snd (getResolvedLogicalNode r))
               else (NT_AERPAW_FIXED, False, r)
             else (nc_nodeType nc, False, r))
      in (added, rf_map_config (\<lambda>m. m\<lparr>nc_nodeType := ty\<rparr>) (r1\<lparr>rf_cfg := (rf_cfg r1)\<lparr>nc_nodeType := ty\<rparr>\<rparr>)))"

definition refresh_set_characteristics :: "NodeCharacteristics option \<Rightarrow> refresh \<Rightarrow> refresh" where
  "refresh_set_characteristics c r =
     r\<lparr>rf_node := (rf_node r)\<lparr>nd_characteristics := c,
                                nd_config := (nd_config (rf_node r))\<lparr>nc_characteristics := c\<rparr>\<rparr>,
       rf_cfg := (rf_cfg r)\<lparr>nc_characteristics := c\<rparr>\<rparr>"

definition refresh_characteristics :: "refresh \<Rightarrow> refresh" where
  "refresh_characteristics r =
     refresh_set_characteristics
       (case nc_nodeType (rf_cfg r) of
          NT_AERPAW_FIXED \<Rightarrow> Some fixed_node_characteristics
        | NT_AERPAW_PORTABLE \<Rightarrow> Some portable_node_characteristics
        | NT_VEHICLE_MAVPROXY \<Rightarrow>
            (case nc_characteristics (rf_cfg r) of Some c \<Rightarrow> Some c | None \<Rightarrow> Some portable_node_characteristics)
        | _ \<Rightarrow> None) r"

definition refresh_place :: "int \<Rightarrow> Location \<Rightarrow> byte \<Rightarrow> refresh \<Rightarrow> refresh" where
  "refresh_place now loc k r =
     r\<lparr>rf_node := setLocation now loc k (rf_node r),
       rf_cfg := (setNodeConfigLocation loc (rf_cfg r))\<lparr>nc_logicalNode := int (unat k)\<rparr>\<rparr>"

definition refresh_location :: "int \<Rightarrow> refresh \<Rightarrow> refresh" where
  "refresh_location now r =
     (let nc = rf_cfg r in
      if nc_hasLocation nc then
        if is_origin (nc_location nc) then r
        else
          let k = (if hasLogicalNode nc then of_int (nc_logicalNode nc) else 0);
              r1 = refresh_place now (nc_location nc) k r;
              n = rf_node r1
          in r1\<lparr>rf_node := (setCharacteristics fixed_node_characteristics n)\<lparr>
                   nd_config := (nd_config n)\<lparr>nc_characteristics := Some fixed_node_characteristics\<rparr>\<rparr>\<rparr>
      else if nc_aerpawKey nc \<noteq> [] then
        case ResolveAerpawLocation (nc_aerpawKey nc) of
          Some loc \<Rightarrow>
            if hasLogicalNode nc then refresh_place now loc (of_int (nc_logicalNode nc)) r
            else let ((k, _), r1) = getResolvedLogicalNode r in refresh_place now loc (of_int k) r1
        | None \<Rightarrow> r
      else r)"

definition refresh_pn_vehicle :: "bool \<Rightarrow> bool \<Rightarrow> refresh \<Rightarrow> refresh" where
  "refresh_pn_vehicle isPn added r =
     (if isPn \<and> \<not> added then
        let ((k, hasInfo), r1) = getResolvedLogicalNode r
        in if hasInfo then
             let nc = (rf_cfg r1)\<lparr>nc_vehicleAddress := vehicle_url k\<rparr>;
                 (_, n, hs) = addVehicle nc (rf_node r1) (rf_handlers r1)
             in r1\<lparr>rf_cfg := nc, rf_node := n, rf_handlers := hs\<rparr>
           else r1
      else r)"

definition refresh_vehicle :: "bool \<Rightarrow> bool \<Rightarrow> refresh \<Rightarrow> refresh" where
  "refresh_vehicle isPn added r =
     (let r2 = refresh_pn_vehicle isPn added r
      in if nc_vehicleAddress (rf_cfg r2) \<noteq> []
         then rf_map_config (\<lambda>m. m\<lparr>nc_vehicleAddress := nc_vehicleAddress (rf_cfg r2)\<rparr>) r2
         else r2)"

definition refreshFromConfig :: "int \<Rightarrow> NodeConfig \<Rightarrow> Node \<Rightarrow> handlers \<Rightarrow> Node \<times> NodeConfig \<times> handlers" where
  "refreshFromConfig now nc n hs =
     (let r0 = refresh_copy \<lparr>rf_node = n, rf_cfg = nc, rf_handlers = hs, rf_resolved = None\<rparr>;
          (added, r1) = refresh_type r0;
          r2 = refresh_vehicle (refresh_isPn nc) added (refresh_location now (refresh_characteristics r1))
      in (rf_node r2, rf_cfg r2, rf_handlers r2))"

text \<open>What the telemetry callbacks do to the node while the handler is running and the update
  is not faster than the poll interval, and the position a handler sets when it cannot connect.\<close>

definition minUpdateInterval :: "int \<Rightarrow> int" where
  "minUpdateInterval poll_ms = 1000000 * max 20 poll_ms"

definition on_position :: "int \<Rightarrow> int \<Rightarrow> int \<Rightarrow> Location \<Rightarrow> Handler \<Rightarrow> Node \<Rightarrow> int \<times> Node" where
  "on_position poll_ms now prev pos h n =
     (if \<not> vh_running h \<or> now - prev < minUpdateInterval poll_ms then (prev, n)
      else (now, setLocation now pos
              (if hasLogicalNode (nd_config n) then of_int (nc_logicalNode (nd_config n)) else 0) n))"

definition on_velocity :: "int \<Rightarrow> int \<Rightarrow> int \<Rightarrow> fp \<times> fp \<times> fp \<Rightarrow> Handler \<Rightarrow> Node \<Rightarrow> int \<times> Node" where
  "on_velocity poll_ms now prev ned h n =
     (if \<not> vh_running h \<or> now - prev < minUpdateInterval poll_ms then (prev, n)
      else (case ned of (north, east, down) \<Rightarrow>
              (now, setVelocity \<lparr>vel_east = east, vel_north = north, vel_up = fp_neg down\<rparr> n)))"

definition setFallbackLocation :: "int \<Rightarrow> Node \<Rightarrow> Node" where
  "setFallbackLocation now n =
     (case ResolveAerpawLocation ''LW-1'' of
        None \<Rightarrow> n
      | Some loc \<Rightarrow> setLocation now loc
          (if hasLogicalNode (nd_config n) then of_int (nc_logicalNode (nd_config n)) else 0) n)"

definition Handler_Stop :: "Handler \<Rightarrow> Handler" where
  "Handler_Stop h = h\<lparr>vh_running := False\<rparr>"

section \<open>Heartbeat\<close>

lemma isAlive_iff:
  assumes "0 < timeout"
  shows "isAlive now timeout n \<longleftrightarrow> now - nd_lastHeartbeat n < timeout * 1000000000"
proof -
  let ?d = "now - nd_lastHeartbeat n"
  have "trunc_real (of_int ?d / 1000000000) < timeout \<longleftrightarrow> of_int ?d / 1000000000 < (of_int timeout :: real)"
  proof (cases "0 \<le> ?d")
    case True
    then have "trunc_real (of_int ?d / 1000000000) = \<lfloor>of_int ?d / 1000000000 :: real\<rfloor>"
      by (simp add: trunc_real_def)
    then show ?thesis by (simp only: floor_less_iff)
  next
    case False
    then have neg: "of_int ?d / 1000000000 < (0 :: real)" by (simp add: divide_less_0_iff)
    then have "trunc_real (of_int ?d / 1000000000) \<le> 0" by (simp add: trunc_real_def ceiling_le_iff)
    moreover have "of_int ?d / 1000000000 < (of_int timeout :: real)"
      using neg assms by (meson less_trans of_int_0_less_iff)
    ultimately show ?thesis using assms by linarith
  qed
  also have "\<dots> \<longleftrightarrow> (of_int ?d :: real) < of_int (timeout * 1000000000)" by (simp add: divide_less_eq)
  also have "\<dots> \<longleftrightarrow> ?d < timeout * 1000000000" by (rule of_int_less_iff)
  finally show ?thesis unfolding isAlive_def .
qed

section \<open>Type and profile of a node\<close>

text \<open>The rule behind \<open>refreshFromConfig\<close>, from the request alone.\<close>

definition located :: "NodeConfig \<Rightarrow> bool" where
  "located nc \<longleftrightarrow> nc_hasLocation nc \<and> \<not> is_origin (nc_location nc)"

definition type_of_request :: "NodeConfig \<Rightarrow> NodeType" where
  "type_of_request nc =
     (if nc_vehicleAddress nc \<noteq> [] then NT_VEHICLE_MAVPROXY
      else if located nc then NT_FIXED
      else if nc_hasLocation nc then nc_nodeType nc
      else if nc_aerpawKey nc = [] then nc_nodeType nc
      else if is_pn_key (nc_aerpawKey nc) then NT_AERPAW_PORTABLE else NT_AERPAW_FIXED)"

definition profile_of_request :: "NodeConfig \<Rightarrow> NodeCharacteristics option" where
  "profile_of_request nc =
     (if located nc then Some fixed_node_characteristics
      else case type_of_request nc of
             NT_AERPAW_FIXED \<Rightarrow> Some fixed_node_characteristics
           | NT_AERPAW_PORTABLE \<Rightarrow> Some portable_node_characteristics
           | NT_VEHICLE_MAVPROXY \<Rightarrow> Some (case nc_characteristics nc of Some c \<Rightarrow> c | None \<Rightarrow> portable_node_characteristics)
           | _ \<Rightarrow> None)"

text \<open>What the parts of a refresh leave alone. The identity of a node is the part of its
  configuration that the request copies.\<close>

definition nc_identity :: "NodeConfig \<Rightarrow> string \<times> string \<times> string \<times> string \<times> string \<times> byte" where
  "nc_identity nc = (nc_id nc, nc_name nc, nc_ipAddress nc, nc_inputFormat nc, nc_outputFormat nc, nc_numChannels nc)"

definition nc_gains :: "NodeConfig \<Rightarrow> bool \<times> real \<times> bool \<times> real" where
  "nc_gains nc = (nc_hasDeviceTxGain nc, nc_deviceTxGain nc, nc_hasDeviceRxGain nc, nc_deviceRxGain nc)"

lemma nc_gains_frame [simp]:
  "nc_gains (m\<lparr>nc_nodeType := t\<rparr>) = nc_gains m" "nc_gains (m\<lparr>nc_characteristics := p\<rparr>) = nc_gains m"
  "nc_gains (m\<lparr>nc_vehicleAddress := a\<rparr>) = nc_gains m" "nc_gains (m\<lparr>nc_logicalNode := k\<rparr>) = nc_gains m"
  by (simp_all add: nc_gains_def)

definition nd_owned :: "Node \<Rightarrow> nat option \<times> nat option \<times> usrp_Channel list \<times> SampleRate \<times> u16 \<times> u16 \<times> int" where
  "nd_owned n = (nd_transmitter n, nd_receiver n, nc_channels (nd_config n), nc_sample_rate (nd_config n),
     nc_portTxNum (nd_config n), nc_portRxNum (nd_config n), nd_lastHeartbeat n)"

named_theorems refresh_simps

lemma resolved_frame [refresh_simps]:
  "getResolvedLogicalNode r = (x, r') \<Longrightarrow>
     rf_node r' = rf_node r \<and> rf_handlers r' = rf_handlers r \<and> nc_identity (rf_cfg r') = nc_identity (rf_cfg r) \<and>
     nc_gains (rf_cfg r') = nc_gains (rf_cfg r) \<and>
     nc_hasLocation (rf_cfg r') = nc_hasLocation (rf_cfg r) \<and> nc_location (rf_cfg r') = nc_location (rf_cfg r) \<and>
     nc_aerpawKey (rf_cfg r') = nc_aerpawKey (rf_cfg r) \<and> nc_nodeType (rf_cfg r') = nc_nodeType (rf_cfg r) \<and>
     nc_channels (rf_cfg r') = nc_channels (rf_cfg r) \<and> nc_sample_rate (rf_cfg r') = nc_sample_rate (rf_cfg r) \<and>
     nc_characteristics (rf_cfg r') = nc_characteristics (rf_cfg r) \<and> nc_vehicleAddress (rf_cfg r') = nc_vehicleAddress (rf_cfg r)"
  by (auto simp: getResolvedLogicalNode_def resolveLogicalNode_def nc_identity_def nc_gains_def Let_def
      split: option.splits if_splits sum.splits prod.splits)

lemma addVehicle_frame [refresh_simps]:
  "addVehicle nc n hs = (b, n', hs') \<Longrightarrow>
     nc_identity (nd_config n') = nc_identity (nd_config n) \<and> nd_owned n' = nd_owned n \<and>
     nc_gains (nd_config n') = nc_gains (nd_config n) \<and>
     nd_characteristics n' = nd_characteristics n \<and> nc_nodeType (nd_config n') = nc_nodeType (nd_config n) \<and>
     nc_characteristics (nd_config n') = nc_characteristics (nd_config n)"
  by (auto simp: addVehicle_def nc_identity_def nc_gains_def nd_owned_def Let_def split: if_splits)

lemma setLocation_frame [simp]:
  "nd_owned (setLocation now l k n) = nd_owned n"
  "nd_characteristics (setLocation now l k n) = nd_characteristics n"
  "nc_identity (nd_config (setLocation now l k n)) = nc_identity (nd_config n)"
  "nc_gains (nd_config (setLocation now l k n)) = nc_gains (nd_config n)"
  "nc_nodeType (nd_config (setLocation now l k n)) = nc_nodeType (nd_config n)"
  "nc_characteristics (nd_config (setLocation now l k n)) = nc_characteristics (nd_config n)"
  by (simp_all add: setLocation_def Let_def nd_owned_def nc_identity_def nc_gains_def setNodeConfigLocation_def)

text \<open>What every part of a refresh after the copy keeps.\<close>

definition rf_frame :: "refresh \<Rightarrow> refresh \<Rightarrow> bool" where
  "rf_frame r r' \<longleftrightarrow>
     nd_owned (rf_node r') = nd_owned (rf_node r) \<and>
     nc_identity (nd_config (rf_node r')) = nc_identity (nd_config (rf_node r)) \<and>
     nc_identity (rf_cfg r') = nc_identity (rf_cfg r) \<and>
     nc_gains (nd_config (rf_node r')) = nc_gains (nd_config (rf_node r)) \<and> nc_gains (rf_cfg r') = nc_gains (rf_cfg r) \<and>
     nc_channels (rf_cfg r') = nc_channels (rf_cfg r) \<and> nc_sample_rate (rf_cfg r') = nc_sample_rate (rf_cfg r)"

text \<open>The profile and the type, in the node, its configuration and the request.\<close>

definition rf_profile :: "refresh \<Rightarrow> NodeCharacteristics option \<times> NodeCharacteristics option \<times> NodeType \<times> NodeType" where
  "rf_profile r = (nd_characteristics (rf_node r), nc_characteristics (nd_config (rf_node r)),
     nc_nodeType (nd_config (rf_node r)), nc_nodeType (rf_cfg r))"

lemma refresh_copy_ok:
  "rf_cfg (refresh_copy r) = rf_cfg r \<and> nd_owned (rf_node (refresh_copy r)) = nd_owned (rf_node r) \<and>
   nc_identity (nd_config (rf_node (refresh_copy r))) = nc_identity (rf_cfg r) \<and>
   (nc_gains (nd_config (rf_node r)) = nc_gains (rf_cfg r) \<longrightarrow> nc_gains (nd_config (rf_node (refresh_copy r))) = nc_gains (rf_cfg r))"
  by (simp add: nc_gains_def refresh_copy_def Let_def nd_owned_def nc_identity_def setDeviceRxGain_def setDeviceTxGain_def)

lemma refresh_type_ok:
  assumes "refresh_type r = (added, r')"
  shows "rf_frame r r' \<and> nc_nodeType (rf_cfg r') = type_of_request (rf_cfg r) \<and>
    nc_nodeType (nd_config (rf_node r')) = type_of_request (rf_cfg r) \<and>
    nc_hasLocation (rf_cfg r') = nc_hasLocation (rf_cfg r) \<and> nc_location (rf_cfg r') = nc_location (rf_cfg r) \<and>
    nc_characteristics (rf_cfg r') = nc_characteristics (rf_cfg r)"
proof (cases "nc_vehicleAddress (rf_cfg r) \<noteq> []")
  case True
  then show ?thesis using assms
    by (auto simp: refresh_type_def Let_def rf_frame_def type_of_request_def nd_owned_def nc_identity_def
        dest: addVehicle_frame split: prod.splits)
next
  case False
  show ?thesis
  proof (cases "getResolvedLogicalNode r")
    case (Pair x r1)
    then show ?thesis using assms False resolved_frame [OF Pair]
      by (auto simp: refresh_type_def Let_def rf_frame_def type_of_request_def located_def refresh_isPn_def
          nd_owned_def nc_identity_def split: if_splits)
  qed
qed

lemma refresh_characteristics_ok:
  "rf_frame r (refresh_characteristics r) \<and>
   nc_hasLocation (rf_cfg (refresh_characteristics r)) = nc_hasLocation (rf_cfg r) \<and>
   nc_location (rf_cfg (refresh_characteristics r)) = nc_location (rf_cfg r) \<and>
   nc_nodeType (rf_cfg (refresh_characteristics r)) = nc_nodeType (rf_cfg r) \<and>
   nc_nodeType (nd_config (rf_node (refresh_characteristics r))) = nc_nodeType (nd_config (rf_node r)) \<and>
   nd_characteristics (rf_node (refresh_characteristics r)) = nc_characteristics (rf_cfg (refresh_characteristics r)) \<and>
   nc_characteristics (nd_config (rf_node (refresh_characteristics r))) = nc_characteristics (rf_cfg (refresh_characteristics r)) \<and>
   nc_characteristics (rf_cfg (refresh_characteristics r)) =
     (case nc_nodeType (rf_cfg r) of
        NT_AERPAW_FIXED \<Rightarrow> Some fixed_node_characteristics
      | NT_AERPAW_PORTABLE \<Rightarrow> Some portable_node_characteristics
      | NT_VEHICLE_MAVPROXY \<Rightarrow> Some (case nc_characteristics (rf_cfg r) of Some c \<Rightarrow> c | None \<Rightarrow> portable_node_characteristics)
      | _ \<Rightarrow> None)"
  by (simp add: refresh_characteristics_def refresh_set_characteristics_def rf_frame_def nd_owned_def nc_identity_def
      split: NodeType.split option.split)

lemma refresh_place_ok:
  "rf_frame r (refresh_place now l k r) \<and> rf_profile (refresh_place now l k r) = rf_profile r"
  by (simp add: refresh_place_def rf_frame_def rf_profile_def setNodeConfigLocation_def nc_identity_def [of "_\<lparr>nc_logicalNode := _\<rparr>"])
    (simp add: nc_identity_def nc_gains_def)

lemma rf_frame_trans: "rf_frame r r' \<Longrightarrow> rf_frame r' r'' \<Longrightarrow> rf_frame r r''"
  by (simp add: rf_frame_def)

lemma rf_frame_refl [simp]: "rf_frame r r"
  by (simp add: rf_frame_def)

lemma resolved_ok:
  "getResolvedLogicalNode r = (x, r') \<Longrightarrow> rf_frame r r' \<and> rf_profile r' = rf_profile r"
  by (drule resolved_frame) (simp add: rf_frame_def rf_profile_def)

lemma refresh_location_ok:
  "rf_frame r (refresh_location now r) \<and>
   rf_profile (refresh_location now r) =
     (if located (rf_cfg r)
      then (Some fixed_node_characteristics, Some fixed_node_characteristics,
            nc_nodeType (nd_config (rf_node r)), nc_nodeType (rf_cfg r))
      else rf_profile r)"
proof (cases "nc_hasLocation (rf_cfg r)")
  case True
  show ?thesis
  proof (cases "is_origin (nc_location (rf_cfg r))")
    case False
    let ?p = "refresh_place now (nc_location (rf_cfg r)) (if hasLogicalNode (rf_cfg r) then of_int (nc_logicalNode (rf_cfg r)) else 0) r"
    have "rf_frame r ?p \<and> rf_profile ?p = rf_profile r" by (rule refresh_place_ok)
    with True False show ?thesis
      by (auto simp: refresh_location_def Let_def located_def rf_frame_def rf_profile_def setCharacteristics_def
          nd_owned_def nc_identity_def)
  qed (use True in \<open>simp add: refresh_location_def located_def rf_frame_def\<close>)
next
  case False
  obtain k i r1 where g: "getResolvedLogicalNode r = ((k, i), r1)" by (metis surj_pair)
  have p: "rf_frame r (refresh_place now l (of_int k) r1) \<and> rf_profile (refresh_place now l (of_int k) r1) = rf_profile r" for l
    using refresh_place_ok [of r1 now l "of_int k"] resolved_ok [OF g] by (auto intro: rf_frame_trans)
  have "refresh_location now r =
    (if nc_aerpawKey (rf_cfg r) = [] then r
     else case ResolveAerpawLocation (nc_aerpawKey (rf_cfg r)) of
            None \<Rightarrow> r
          | Some l \<Rightarrow> if hasLogicalNode (rf_cfg r) then refresh_place now l (of_int (nc_logicalNode (rf_cfg r))) r
                      else refresh_place now l (of_int k) r1)"
    using False by (simp add: refresh_location_def g Let_def split: option.split)
  then show ?thesis using False p refresh_place_ok [of r now] by (simp add: located_def split: option.split)
qed

lemma refresh_pn_vehicle_ok:
  "rf_frame r (refresh_pn_vehicle p added r) \<and> rf_profile (refresh_pn_vehicle p added r) = rf_profile r"
proof -
  obtain k i r1 where g: "getResolvedLogicalNode r = ((k, i), r1)" by (metis surj_pair)
  let ?nc = "(rf_cfg r1)\<lparr>nc_vehicleAddress := vehicle_url k\<rparr>"
  obtain b n hs where a: "addVehicle ?nc (rf_node r1) (rf_handlers r1) = (b, n, hs)" by (metis prod_cases3)
  show ?thesis using resolved_ok [OF g] addVehicle_frame [OF a]
    by (auto simp: refresh_pn_vehicle_def g a rf_frame_def rf_profile_def nc_identity_def)
qed

lemma refresh_vehicle_ok:
  "rf_frame r (refresh_vehicle p added r) \<and> rf_profile (refresh_vehicle p added r) = rf_profile r"
  using refresh_pn_vehicle_ok [of r p added]
  by (simp add: refresh_vehicle_def Let_def rf_frame_def rf_profile_def nd_owned_def nc_identity_def)

lemma refreshFromConfig_ok:
  assumes "refreshFromConfig now nc n hs = (n', nc', hs')"
  shows "nd_owned n' = nd_owned n" and "nc_identity (nd_config n') = nc_identity nc" and "nc_identity nc' = nc_identity nc"
    and "nc_channels nc' = nc_channels nc" and "nc_sample_rate nc' = nc_sample_rate nc"
    and "nd_characteristics n' = profile_of_request nc" and "nc_characteristics (nd_config n') = profile_of_request nc"
    and "nc_nodeType (nd_config n') = type_of_request nc" and "nc_nodeType nc' = type_of_request nc"
    and "nc_gains nc' = nc_gains nc" and "nc_gains (nd_config n) = nc_gains nc \<Longrightarrow> nc_gains (nd_config n') = nc_gains nc"
proof -
  define r0 where "r0 = refresh_copy \<lparr>rf_node = n, rf_cfg = nc, rf_handlers = hs, rf_resolved = None\<rparr>"
  obtain added r1 where t: "refresh_type r0 = (added, r1)" by fastforce
  define r2 where "r2 = refresh_location now (refresh_characteristics r1)"
  define r3 where "r3 = refresh_vehicle (refresh_isPn nc) added r2"
  have e: "n' = rf_node r3" "nc' = rf_cfg r3"
    using assms by (simp_all add: refreshFromConfig_def r0_def [symmetric] t r2_def r3_def Let_def)
  have c: "rf_cfg r0 = nc" "nd_owned (rf_node r0) = nd_owned n" "nc_identity (nd_config (rf_node r0)) = nc_identity nc"
    "nc_gains (nd_config n) = nc_gains nc \<longrightarrow> nc_gains (nd_config (rf_node r0)) = nc_gains nc"
    using refresh_copy_ok [of "\<lparr>rf_node = n, rf_cfg = nc, rf_handlers = hs, rf_resolved = None\<rparr>"] by (simp_all add: r0_def)
  note T = refresh_type_ok [OF t, unfolded c(1)]
  note C = refresh_characteristics_ok [of r1]
  have L: "located (rf_cfg (refresh_characteristics r1)) = located nc" using T C by (simp add: located_def)
  have f: "rf_frame r0 r3"
    using T C refresh_location_ok [of "refresh_characteristics r1" now] refresh_vehicle_ok [of r2]
    unfolding r2_def r3_def by (meson rf_frame_trans)
  have "rf_profile r3 = rf_profile r2" using refresh_vehicle_ok by (simp add: r3_def)
  also have "\<dots> = (profile_of_request nc, profile_of_request nc, type_of_request nc, type_of_request nc)"
  proof (cases "located nc")
    case True
    then show ?thesis using refresh_location_ok [of "refresh_characteristics r1" now] T C L
      by (simp add: r2_def profile_of_request_def)
  next
    case False
    then have "rf_profile r2 = rf_profile (refresh_characteristics r1)"
      using refresh_location_ok [of "refresh_characteristics r1" now] L by (simp add: r2_def)
    then show ?thesis using T C False
      by (cases "type_of_request nc") (simp_all add: rf_profile_def profile_of_request_def)
  qed
  finally show "nd_characteristics n' = profile_of_request nc" and "nc_characteristics (nd_config n') = profile_of_request nc"
    and "nc_nodeType (nd_config n') = type_of_request nc" and "nc_nodeType nc' = type_of_request nc"
    by (simp_all add: e rf_profile_def)
  show "nd_owned n' = nd_owned n" and "nc_identity (nd_config n') = nc_identity nc" and "nc_identity nc' = nc_identity nc"
    and "nc_channels nc' = nc_channels nc" and "nc_sample_rate nc' = nc_sample_rate nc"
    and "nc_gains nc' = nc_gains nc" and "nc_gains (nd_config n) = nc_gains nc \<Longrightarrow> nc_gains (nd_config n') = nc_gains nc"
    using f c by (simp_all add: e rf_frame_def)
qed

text \<open>A request decides the type and the RF profile of its node alone, and both are recorded
  consistently: whatever state the node was in, afterwards the node, its configuration and the
  request agree on the type, the node and its configuration agree on the profile, every vehicle,
  AERPAW or located node has one, and the identity is the one of the request, while the
  sender, the receiver, the ports, the tuned channels and the heartbeat are kept. In particular
  a vehicle that also reports a position gets the profile of a fixed node, not the one its
  configuration specifies.\<close>

theorem refresh_decides_type_and_profile:
  assumes "refreshFromConfig now nc n hs = (n', nc', hs')"
  shows "nc_nodeType (nd_config n') = type_of_request nc \<and> nc_nodeType nc' = type_of_request nc \<and>
    nd_characteristics n' = profile_of_request nc \<and> nc_characteristics (nd_config n') = nd_characteristics n' \<and>
    (type_of_request nc \<in> {NT_VEHICLE_MAVPROXY, NT_AERPAW_FIXED, NT_AERPAW_PORTABLE} \<or> located nc \<longrightarrow>
       nd_characteristics n' \<noteq> None) \<and>
    (nc_vehicleAddress nc \<noteq> [] \<and> located nc \<longrightarrow>
       nc_nodeType nc' = NT_VEHICLE_MAVPROXY \<and> nd_characteristics n' = Some fixed_node_characteristics) \<and>
    nc_identity (nd_config n') = nc_identity nc \<and> nd_owned n' = nd_owned n"
  using refreshFromConfig_ok [OF assms] by (auto simp: profile_of_request_def type_of_request_def)

theorem refresh_decides_type_and_profile_witness:
  "let nc = (NodeConfig_new 0 0)\<lparr>nc_id := ''v'', nc_vehicleAddress := ''tcp://10.0.0.1:5760'', nc_hasLocation := True,
              nc_location := mkLocation 35 (-78) 10, nc_characteristics := Some portable_node_characteristics\<rparr>;
       (n', nc', hs') = refreshFromConfig 0 nc (Node_new 0 nc) []
   in nc_nodeType nc' = NT_VEHICLE_MAVPROXY \<and> nd_characteristics n' = Some fixed_node_characteristics"
proof -
  define nc where "nc = (NodeConfig_new 0 0)\<lparr>nc_id := ''v'', nc_vehicleAddress := ''tcp://10.0.0.1:5760'', nc_hasLocation := True,
              nc_location := mkLocation 35 (-78) 10, nc_characteristics := Some portable_node_characteristics\<rparr>"
  obtain n' nc' hs' where r: "refreshFromConfig 0 nc (Node_new 0 nc) [] = (n', nc', hs')" by (metis prod_cases3)
  have "nc_vehicleAddress nc \<noteq> []" "located nc" by (simp_all add: nc_def located_def is_origin_def mkLocation_def)
  then have "nc_nodeType nc' = NT_VEHICLE_MAVPROXY \<and> nd_characteristics n' = Some fixed_node_characteristics"
    using refresh_decides_type_and_profile [OF r] by blast
  then show ?thesis using r by (simp add: nc_def [symmetric] Let_def)
qed

end
