(* ===== verification/Db_Handler.thy ===== *)
theory Db_Handler
  imports Node_Entity Dsp_Signal
begin

text \<open>
  The SQLite store of the nodes and channels, \<open>src/chem/db/dbHandler.cpp\<close>. SQLite is not part of
  the program: the model is the sequence of statements handed to \<open>sqlite3_exec\<close>, as text, with
  the formatting of \<open>std::to_string\<close> written out, and the conversion of result rows to JSON.
  Whether a statement succeeds is an argument.
\<close>

section \<open>Text\<close>

definition quotesql :: "string \<Rightarrow> string" where
  "quotesql s = [CHR 0x27] @ s @ [CHR 0x27]"

text \<open>\<open>std::to_string\<close> of a \<open>double\<close>: fixed notation with six digits after the point, rounded to
  the nearest and ties to even.\<close>

definition pad6 :: "nat \<Rightarrow> string" where
  "pad6 n = (let d = decimal n in replicate (6 - length d) CHR ''0'' @ d)"

definition to_string_double :: "real \<Rightarrow> string" where
  "to_string_double x =
     (let n = nat (round_even (\<bar>x\<bar> * 1000000))
      in (if x < 0 then ''-'' else []) @ decimal (n div 1000000) @ ''.'' @ pad6 (n mod 1000000))"

definition sql_list :: "string list \<Rightarrow> string" where
  "sql_list xs = foldr (\<lambda>x r. if r = [] then x else x @ '','' @ r) xs []"

section \<open>Statements\<close>

text \<open>The text \<open>AddNode\<close> builds; \<open>getChannels().at(0)\<close> throws for a node without channels.\<close>

definition AddNode_sql :: "Node \<Rightarrow> string result" where
  "AddNode_sql node =
     (let cfg = nd_config node in
      case nc_channels cfg of
        [] \<Rightarrow> Inl (Out_of_range ''vector::_M_range_check'')
      | c # _ \<Rightarrow> Inr
          (''INSERT INTO nodes (id, name, txFreq, rxFreq, numChannels, txsampleRate, rxsampleRate, '' @
           ''chCoeff, vehicleAddress, antennaPattern) VALUES ('' @
           sql_list [quotesql (nc_id cfg), quotesql (nc_name cfg),
                     to_string_double (uch_txTuneFreq c / 1000000), to_string_double (uch_rxTuneFreq c / 1000000),
                     decimal (unat (nc_numChannels cfg)),
                     to_string_double (sr_txRate (nc_sample_rate cfg)), to_string_double (sr_rxRate (nc_sample_rate cfg)),
                     ''1.0'', quotesql (nc_vehicleAddress cfg), quotesql ''isotropic''] @
           '') ON CONFLICT(id) DO UPDATE SET name=excluded.name,txFreq=excluded.txFreq,'' @
           ''rxFreq=excluded.rxFreq,numChannels=excluded.numChannels,txsampleRate=excluded.txsampleRate,'' @
           ''rxsampleRate=excluded.rxsampleRate,vehicleAddress=excluded.vehicleAddress;''))"

definition DeleteNode_sql :: "Node \<Rightarrow> string" where
  "DeleteNode_sql node = ''DELETE FROM nodes WHERE id='' @ quotesql (nc_id (nd_config node))"

definition DeleteChannel_sql :: "real \<Rightarrow> string" where
  "DeleteChannel_sql freq = ''DELETE FROM channels WHERE freq='' @ to_string_double (freq / 1000000)"

text \<open>The rate arrives as \<open>uint32_t\<close>.\<close>

definition AddChannel_sql :: "real \<Rightarrow> string \<Rightarrow> u32 \<Rightarrow> string" where
  "AddChannel_sql freq chMode srate =
     ''INSERT INTO channels VALUES ('' @
     sql_list [to_string_double (freq / 1000000), quotesql chMode, decimal (unat srate)] @ '');''"

definition ChangeAntenna_sql :: "string \<Rightarrow> string \<Rightarrow> string" where
  "ChangeAntenna_sql nodeName pattern =
     ''UPDATE nodes SET antennaPattern='' @ quotesql pattern @ '' WHERE name='' @ quotesql nodeName"

definition CreateTables_sql :: "string list" where
  "CreateTables_sql =
     [''DROP TABLE IF EXISTS nodes'', ''DROP TABLE IF EXISTS channels'',
      ''CREATE TABLE nodes (id TEXT PRIMARY KEY, name TEXT, txFreq DOUBLE, rxFreq '' @
      ''DOUBLE, numChannels INT, txsampleRate DOUBLE, rxsampleRate DOUBLE, '' @
      ''chCoeff DOUBLE, vehicleAddress TEXT, antennaPattern TEXT)'',
      ''CREATE TABLE channels (freq DOUBLE PRIMARY KEY, pathLoss TEXT, sRate DOUBLE)'']"

section \<open>Rows\<close>

record NodeSpecs =
  ns_id :: string
  ns_txFreq :: real
  ns_rxFreq :: real
  ns_numChannels :: int
  ns_txsampleRate :: real
  ns_rxsampleRate :: real
  ns_chCoeff :: real
  ns_vehicleAddress :: string
  ns_antennaPattern :: string

definition NodeSpecs_to_json :: "NodeSpecs \<Rightarrow> json" where
  "NodeSpecs_to_json n =
     jobj [(''id'', JStr (ns_id n)), (''txFreq'', JFloat (ns_txFreq n)), (''rxFreq'', JFloat (ns_rxFreq n)),
           (''numChannels'', JInt (ns_numChannels n)), (''txsampleRate'', JFloat (ns_txsampleRate n)),
           (''rxsampleRate'', JFloat (ns_rxsampleRate n)), (''chCoeff'', JFloat (ns_chCoeff n)),
           (''vehicleAddress'', JStr (ns_vehicleAddress n)), (''antennaPattern'', JStr (ns_antennaPattern n))]"

definition NodeSpecs_from_json :: "json \<Rightarrow> NodeSpecs \<Rightarrow> NodeSpecs result" where
  "NodeSpecs_from_json j n =
     rbind (rbind (jat j ''id'') get_string) (\<lambda>i.
     rbind (rbind (jat j ''txFreq'') get_double) (\<lambda>tf.
     rbind (rbind (jat j ''rxFreq'') get_double) (\<lambda>rf.
     rbind (rbind (jat j ''numChannels'') get_int) (\<lambda>k.
     rbind (rbind (jat j ''txsampleRate'') get_double) (\<lambda>tr.
     rbind (rbind (jat j ''rxsampleRate'') get_double) (\<lambda>rr.
     rbind (rbind (jat j ''chCoeff'') get_double) (\<lambda>co.
     rbind (if contains j ''vehicleAddress'' then rbind (jat j ''vehicleAddress'') get_string
            else Inr (ns_vehicleAddress n)) (\<lambda>va.
     rbind (rbind (jat j ''antennaPattern'') get_string) (\<lambda>ap.
       Inr \<lparr>ns_id = i, ns_txFreq = tf, ns_rxFreq = rf, ns_numChannels = k, ns_txsampleRate = tr,
            ns_rxsampleRate = rr, ns_chCoeff = co, ns_vehicleAddress = va, ns_antennaPattern = ap\<rparr>)))))))))"

definition ChSpecs_to_json :: "string \<Rightarrow> real \<Rightarrow> json" where
  "ChSpecs_to_json pathLoss sRate = jobj [(''pathLoss'', JStr pathLoss), (''sRate'', JFloat sRate)]"

text \<open>The rows of a query as JSON, keyed by name and by frequency; a statement that cannot be
  prepared gives null.\<close>

definition GetNodes :: "(string \<times> NodeSpecs) list option \<Rightarrow> json" where
  "GetNodes rows =
     (case rows of None \<Rightarrow> JNull | Some rs \<Rightarrow> fold (\<lambda>(name, n). jset name (NodeSpecs_to_json n)) rs JNull)"

definition GetChannels :: "(string \<times> string \<times> real) list option \<Rightarrow> json" where
  "GetChannels rows =
     (case rows of None \<Rightarrow> JNull | Some rs \<Rightarrow> fold (\<lambda>(freq, pl, sr). jset freq (ChSpecs_to_json pl sr)) rs JNull)"

section \<open>Properties\<close>

text \<open>The statement splits as SQL reads it: a quoted value ends at the first quote in it, since
  nothing escapes one.\<close>

lemma quotesql_plain: "CHR 0x27 \<notin> set s \<Longrightarrow> takeWhile ((\<noteq>) CHR 0x27) (tl (quotesql s)) = s"
  by (simp add: quotesql_def takeWhile_append)

lemma quotesql_breaks_out:
  "CHR 0x27 \<notin> set a \<Longrightarrow> dropWhile ((\<noteq>) CHR 0x27) (tl (quotesql (a @ CHR 0x27 # b))) = CHR 0x27 # b @ [CHR 0x27]"
  by (simp add: quotesql_def dropWhile_append)

lemma NodeSpecs_json_roundtrip:
  "- (2 ^ 31) \<le> ns_numChannels n \<Longrightarrow> ns_numChannels n < 2 ^ 31 \<Longrightarrow>
     NodeSpecs_from_json (NodeSpecs_to_json n) m = Inr n"
  by (simp add: NodeSpecs_from_json_def NodeSpecs_to_json_def jobj_def jat_def contains_def fold_om_set_find
      rbind_def get_int_def to_int32_id om_find_set om_find_def)

end
