(* ===== verification/Controller.thy ===== *)
theory Controller
  imports Intermediate_Channel Db_Handler
begin

text \<open>
  The node controller, \<open>src/chem/node/controller.cpp\<close>: the requests of the nodes (configuration,
  heartbeat, disconnect), the heartbeat timeouts, the assignment of receivers and transmitters to
  the channels of their frequencies, and the port pools. A handler is a function of the
  controller's state that returns the state it leaves behind and either a value, the exception that
  escapes it, or a crash (a null pointer in a component it calls). References into the node map and
  shared pointers to channels are read and written through the maps; receivers and transmitters
  live on the heap. Sockets, threads and SQLite are not part of the state, except that the
  statements sent to the database are kept in order.
\<close>

section \<open>State\<close>

record Controller =
  ct_nodeMap :: "(string, Node) omap"
  ct_intermediateMap :: "(real, Intermediate) omap"
  ct_rxPortPool :: "u16 list"
  ct_txPortPool :: "u16 list"
  ct_ipAddrMap :: "(string, byte) omap"
  ct_heap :: heap
  ct_propagationDefaults :: "PropagationDefaults option"
  ct_vehicleHandlers :: handlers
  ct_numChannels :: u16
  ct_db :: "string list"

text \<open>What a request sees of its surroundings: the clock, the address of the peer, the sandbox
  switch, the two uninitialised ports of a fresh configuration, and the packet pool of a new
  receiver.\<close>

record ct_env =
  ce_now :: int
  ce_remoteIp :: string
  ce_sandbox :: bool
  ce_ptx :: u16
  ce_prx :: u16
  ce_udpPool :: "byte DataArrayPool"

datatype ct_error = Thrown cpp_exn | Crash

type_synonym 'a ct_result = "(ct_error + 'a) \<times> Controller"

definition ct_then :: "'a ct_result \<Rightarrow> ('a \<Rightarrow> Controller \<Rightarrow> 'b ct_result) \<Rightarrow> 'b ct_result" where
  "ct_then r f = (case r of (Inl e, c) \<Rightarrow> (Inl e, c) | (Inr x, c) \<Rightarrow> f x c)"

definition ct_lift :: "'a result \<Rightarrow> Controller \<Rightarrow> 'a ct_result" where
  "ct_lift r c = (case r of Inl e \<Rightarrow> (Inl (Thrown e), c) | Inr x \<Rightarrow> (Inr x, c))"

definition ct_crash :: "'a option \<Rightarrow> Controller \<Rightarrow> 'a ct_result" where
  "ct_crash r c = (case r of None \<Rightarrow> (Inl Crash, c) | Some x \<Rightarrow> (Inr x, c))"

section \<open>Ports\<close>

definition REQ_PORT_NUM :: "nat \<Rightarrow> nat" where
  "REQ_PORT_NUM x = x + 10000"

definition REP_PORT_NUM :: "nat \<Rightarrow> nat" where
  "REP_PORT_NUM x = x + 11000"

definition GeneratePortPool :: "u16 \<Rightarrow> nat \<Rightarrow> u16 list" where
  "GeneratePortPool portEnd n = map (\<lambda>i. portEnd - of_nat i) [0..<n]"

definition AssignTXPort :: "Controller \<Rightarrow> u16 \<times> Controller" where
  "AssignTXPort c =
     (if ct_txPortPool c = [] then (0, c)
      else (List.last (ct_txPortPool c), c\<lparr>ct_txPortPool := butlast (ct_txPortPool c)\<rparr>))"

definition AssignRXPort :: "Controller \<Rightarrow> u16 \<times> Controller" where
  "AssignRXPort c =
     (if ct_rxPortPool c = [] then (0, c)
      else (List.last (ct_rxPortPool c), c\<lparr>ct_rxPortPool := butlast (ct_rxPortPool c)\<rparr>))"

definition RestoreTXPort :: "string \<Rightarrow> Controller \<Rightarrow> Controller" where
  "RestoreTXPort ip c =
     (case om_find (ct_ipAddrMap c) ip of
        None \<Rightarrow> c
      | Some k \<Rightarrow> c\<lparr>ct_ipAddrMap := (if k - 1 = 0 then om_erase ip (ct_ipAddrMap c)
                                     else om_set ip (k - 1) (ct_ipAddrMap c))\<rparr>)"

text \<open>The constructor: one pool of buffers per NUMA node, or one in all.\<close>

definition IQ_POOL_CAP :: nat where
  "IQ_POOL_CAP = QUEUE_CAP * 4"

definition Controller_new ::
  "(string, Node) omap \<Rightarrow> (real, Intermediate) omap \<Rightarrow> PropagationDefaults option \<Rightarrow>
   (nat \<Rightarrow> Receiver) \<Rightarrow> (nat \<Rightarrow> Transmitter) \<Rightarrow> nat \<Rightarrow> bool \<Rightarrow> nat \<Rightarrow> Controller" where
  "Controller_new nodes ims defaults rx tx item numa n_nodes =
     (let pool = (\<lambda>cap name. \<lparr>dp_poolSize = cap, dp_itemSize = item, dp_zeroOnRelease = False,
                     dp_pool = replicate cap (replicate item 0), dp_id = name\<rparr>);
          pools = (if numa then map (\<lambda>i. pool (max 1 (IQ_POOL_CAP div n_nodes)) (''IQ-node'' @ decimal i)) [0..<n_nodes]
                   else [pool IQ_POOL_CAP ''IQ''])
      in \<lparr>ct_nodeMap = nodes, ct_intermediateMap = ims,
          ct_rxPortPool = GeneratePortPool (of_nat (REQ_PORT_NUM 400)) 400,
          ct_txPortPool = GeneratePortPool (of_nat (REP_PORT_NUM 400)) 400,
          ct_ipAddrMap = [], ct_heap = \<lparr>hp_rx = rx, hp_tx = tx, hp_next = 0, hp_pools = pools\<rparr>,
          ct_propagationDefaults = defaults, ct_vehicleHandlers = [], ct_numChannels = 0, ct_db = []\<rparr>)"

section \<open>The database\<close>

definition db_exec :: "string \<Rightarrow> Controller \<Rightarrow> Controller" where
  "db_exec sql c = c\<lparr>ct_db := ct_db c @ [sql]\<rparr>"

definition AddNode :: "string \<Rightarrow> Controller \<Rightarrow> unit ct_result" where
  "AddNode ident c =
     ct_then (ct_crash (om_find (ct_nodeMap c) ident) c) (\<lambda>n c.
       ct_then (ct_lift (AddNode_sql n) c) (\<lambda>sql c. (Inr (), db_exec sql c)))"

section \<open>Nodes\<close>

definition on_node :: "string \<Rightarrow> (Node \<Rightarrow> Node) \<Rightarrow> Controller \<Rightarrow> Controller" where
  "on_node ident f c =
     (case om_find (ct_nodeMap c) ident of
        None \<Rightarrow> c | Some n \<Rightarrow> c\<lparr>ct_nodeMap := om_set ident (f n) (ct_nodeMap c)\<rparr>)"

definition on_config :: "string \<Rightarrow> (NodeConfig \<Rightarrow> NodeConfig) \<Rightarrow> Controller \<Rightarrow> Controller" where
  "on_config ident f = on_node ident (\<lambda>n. n\<lparr>nd_config := f (nd_config n)\<rparr>)"

definition node_config :: "string \<Rightarrow> Controller \<Rightarrow> NodeConfig option" where
  "node_config ident c = map_option nd_config (om_find (ct_nodeMap c) ident)"

definition GetOrCreateNode :: "Node \<Rightarrow> Controller \<Rightarrow> bool ct_result" where
  "GetOrCreateNode node c =
     (let ident = nc_id (nd_config node) in
      if om_find (ct_nodeMap c) ident = None
      then ct_then (AddNode ident (c\<lparr>ct_nodeMap := om_insert ident node (ct_nodeMap c)\<rparr>)) (\<lambda>_ c. (Inr True, c))
      else (Inr False, c))"

section \<open>Channels\<close>

definition FindChannel :: "real \<Rightarrow> Controller \<Rightarrow> bool" where
  "FindChannel freq c = (om_find (ct_intermediateMap c) freq \<noteq> None)"

definition apply_defaults :: "PropagationDefaults option \<Rightarrow> Intermediate \<Rightarrow> Intermediate" where
  "apply_defaults pd im =
     (case pd of
        None \<Rightarrow> im
      | Some d \<Rightarrow>
          if pd_model d \<noteq> FREE_SPACE \<and> pd_model d \<noteq> PM_UNKNOWN then
            let im1 = updatePathLoss (pd_model d) (pd_groundCoeff d) im
            in if pd_model d = THREE_GPP_38_901 then set3gppScenario (pd_scenario d) im1 else im1
          else im)"

definition default_model :: "PropagationDefaults option \<Rightarrow> PropagationModel" where
  "default_model pd = (case pd of None \<Rightarrow> FREE_SPACE | Some d \<Rightarrow> pd_model d)"

definition CreateChannel :: "real \<Rightarrow> real \<Rightarrow> Controller \<Rightarrow> Controller" where
  "CreateChannel freq srate c =
     (if FindChannel freq c then c
      else
        let im = apply_defaults (ct_propagationDefaults c) (Intermediate_new freq 10);
            c1 = c\<lparr>ct_intermediateMap := om_insert freq im (ct_intermediateMap c)\<rparr>;
            c2 = db_exec (AddChannel_sql freq (PropagationModelToString (default_model (ct_propagationDefaults c)))
                            (of_int (trunc_real srate))) c1
        in c2\<lparr>ct_numChannels := ct_numChannels c2 + 1\<rparr>)"

definition isChannelEmpty :: "real \<Rightarrow> Controller \<Rightarrow> Controller" where
  "isChannelEmpty freq c =
     (case om_find (ct_intermediateMap c) freq of
        Some im \<Rightarrow>
          if isEmpty im
          then db_exec (DeleteChannel_sql (im_freq im)) (c\<lparr>ct_intermediateMap := om_erase (im_freq im) (ct_intermediateMap c)\<rparr>)
          else c
      | None \<Rightarrow> c)"

text \<open>The operations of one channel, and of all of them in the order of the map.\<close>

definition on_channel_at :: "real \<Rightarrow> (heap \<Rightarrow> Intermediate \<Rightarrow> (heap \<times> Intermediate) option) \<Rightarrow> Controller \<Rightarrow> unit ct_result" where
  "on_channel_at freq f c =
     ct_then (ct_crash (om_find (ct_intermediateMap c) freq) c) (\<lambda>im c.
     ct_then (ct_crash (f (ct_heap c) im) c) (\<lambda>(h, im') c.
       (Inr (), c\<lparr>ct_heap := h, ct_intermediateMap := om_set freq im' (ct_intermediateMap c)\<rparr>)))"

definition detach_dest_at :: "nat \<Rightarrow> real \<Rightarrow> Controller \<Rightarrow> unit ct_result" where
  "detach_dest_at t freq = on_channel_at freq (\<lambda>h im. Some (snd (DetachDestination h t im)))"

definition detach_src_at :: "nat \<Rightarrow> real \<Rightarrow> Controller \<Rightarrow> unit ct_result" where
  "detach_src_at r freq = on_channel_at freq (\<lambda>h im. map_option snd (DetachSource h r im))"

fun ct_each :: "('a \<Rightarrow> Controller \<Rightarrow> unit ct_result) \<Rightarrow> 'a list \<Rightarrow> Controller \<Rightarrow> unit ct_result" where
  "ct_each f [] c = (Inr (), c)"
| "ct_each f (x # xs) c = ct_then (f x c) (\<lambda>_. ct_each f xs)"

section \<open>Receivers and transmitters\<close>

definition on_rx :: "nat \<Rightarrow> (Receiver \<Rightarrow> Receiver) \<Rightarrow> Controller \<Rightarrow> Controller" where
  "on_rx r f c = c\<lparr>ct_heap := (ct_heap c)\<lparr>hp_rx := (hp_rx (ct_heap c))(r := f (hp_rx (ct_heap c) r))\<rparr>\<rparr>"

definition on_tx :: "nat \<Rightarrow> (Transmitter \<Rightarrow> Transmitter) \<Rightarrow> Controller \<Rightarrow> Controller" where
  "on_tx t f c = c\<lparr>ct_heap := (ct_heap c)\<lparr>hp_tx := (hp_tx (ct_heap c))(t := f (hp_tx (ct_heap c) t))\<rparr>\<rparr>"

definition CreateReceiver :: "ct_env \<Rightarrow> string \<Rightarrow> Controller \<Rightarrow> nat ct_result" where
  "CreateReceiver env ident c =
     (let (port, c1) = AssignTXPort c;
          c2 = on_config ident (\<lambda>m. m\<lparr>nc_portTxNum := port\<rparr>) c1
      in ct_then (ct_crash (node_config ident c2) c2) (\<lambda>nc c3.
         ct_then (ct_lift (Receiver_new nc 0 (ce_udpPool env)) c3) (\<lambda>rx c4.
           let r = hp_next (ct_heap c4); c5 = c4\<lparr>ct_heap := (ct_heap c4)\<lparr>hp_next := r + 1\<rparr>\<rparr>
           in (Inr r, on_rx r (\<lambda>_. rx) c5))))"

definition CreateTransmitter :: "string \<Rightarrow> Controller \<Rightarrow> nat ct_result" where
  "CreateTransmitter ident c =
     (let (port, c1) = AssignRXPort c;
          c2 = on_config ident (\<lambda>m. m\<lparr>nc_portRxNum := port\<rparr>) c1
      in ct_then (ct_crash (node_config ident c2) c2) (\<lambda>nc c3.
         ct_then (ct_lift (Transmitter_new nc) c3) (\<lambda>tx c4.
           let t = hp_next (ct_heap c4); c5 = c4\<lparr>ct_heap := (ct_heap c4)\<lparr>hp_next := t + 1\<rparr>\<rparr>
           in (Inr t, on_tx t (\<lambda>_. tx) c5))))"

text \<open>The receiver of a node, created when it has none; its formats follow the node. In sandbox
  mode there is none.\<close>

definition with_formats :: "NodeConfig \<Rightarrow> NodeConfig \<Rightarrow> NodeConfig" where
  "with_formats nc m = m\<lparr>nc_inputFormat := nc_inputFormat nc, nc_outputFormat := nc_outputFormat nc\<rparr>"

definition node_receiver :: "ct_env \<Rightarrow> string \<Rightarrow> Controller \<Rightarrow> nat ct_result" where
  "node_receiver env ident c =
     (if ce_sandbox env then (Inr 0, c)
      else
        ct_then (ct_crash (om_find (ct_nodeMap c) ident) c) (\<lambda>n c1.
        ct_then (case nd_receiver n of
                   Some r \<Rightarrow> (Inr r, c1)
                 | None \<Rightarrow> ct_then (CreateReceiver env ident c1) (\<lambda>r c2. (Inr r, on_node ident (setReceiver (Some r)) c2)))
          (\<lambda>r c3. ct_then (ct_crash (node_config ident c3) c3) (\<lambda>nc c4.
            (Inr r, on_rx r (\<lambda>rx. rx\<lparr>rcv_node_config := with_formats nc (rcv_node_config rx)\<rparr>) c4)))))"

definition node_transmitter :: "ct_env \<Rightarrow> string \<Rightarrow> Controller \<Rightarrow> nat ct_result" where
  "node_transmitter env ident c =
     (if ce_sandbox env then (Inr 0, c)
      else
        ct_then (ct_crash (om_find (ct_nodeMap c) ident) c) (\<lambda>n c1.
        ct_then (case nd_transmitter n of
                   Some t \<Rightarrow> (Inr t, c1)
                 | None \<Rightarrow> ct_then (CreateTransmitter ident c1) (\<lambda>t c2. (Inr t, on_node ident (setTransmitter (Some t)) c2)))
          (\<lambda>t c3. ct_then (ct_crash (node_config ident c3) c3) (\<lambda>nc c4.
            (Inr t, on_tx t (\<lambda>tx. tx\<lparr>tr_node_config := with_formats nc (tr_node_config tx)\<rparr>) c4)))))"

section \<open>Assigning channels\<close>

definition first_freq :: "(usrp_Channel \<Rightarrow> real) \<Rightarrow> NodeConfig \<Rightarrow> real" where
  "first_freq f nc = (case nc_channels nc of [] \<Rightarrow> 0 | ch # _ \<Rightarrow> f ch)"

definition freqChanged :: "real \<Rightarrow> real \<Rightarrow> bool" where
  "freqChanged prevFreq freq = (10000 \<le> \<bar>prevFreq - freq\<bar>)"

definition rate32 :: "real \<Rightarrow> u32" where
  "rate32 r = of_int (trunc_real r)"

text \<open>Leaving the channel of the previous frequency, which is dropped when nobody is left on it.\<close>

definition leave_channel ::
  "real \<Rightarrow> (heap \<Rightarrow> Intermediate \<Rightarrow> (heap \<times> Intermediate) option) \<Rightarrow> bool \<Rightarrow> Controller \<Rightarrow> unit ct_result" where
  "leave_channel prevFreq f leaves c =
     (if leaves then ct_then (on_channel_at prevFreq f c) (\<lambda>_ c. (Inr (), isChannelEmpty prevFreq c))
      else (Inr (), c))"

definition release_src :: "ct_env \<Rightarrow> string \<Rightarrow> nat \<Rightarrow> heap \<Rightarrow> Intermediate \<Rightarrow> (heap \<times> Intermediate) option" where
  "release_src env ident r h im =
     (if ce_sandbox env then Some (h, removeSandboxNode ident im) else map_option snd (DetachSource h r im))"

definition release_dest :: "ct_env \<Rightarrow> string \<Rightarrow> nat \<Rightarrow> heap \<Rightarrow> Intermediate \<Rightarrow> (heap \<times> Intermediate) option" where
  "release_dest env ident t h im =
     (if ce_sandbox env then Some (h, removeSandboxNode ident im) else Some (snd (DetachDestination h t im)))"

definition attach_src :: "ct_env \<Rightarrow> string \<Rightarrow> byte \<Rightarrow> nat \<Rightarrow> heap \<Rightarrow> Intermediate \<Rightarrow> (heap \<times> Intermediate) option" where
  "attach_src env ident k r h im =
     (if ce_sandbox env then Some (h, addSandboxNode h ident (unat k) im) else AttachSource h r im)"

definition attach_dest :: "ct_env \<Rightarrow> string \<Rightarrow> byte \<Rightarrow> nat \<Rightarrow> heap \<Rightarrow> Intermediate \<Rightarrow> (heap \<times> Intermediate) option" where
  "attach_dest env ident k t h im =
     (if ce_sandbox env then Some (h, addSandboxNode h ident (unat k) im)
      else map_option (\<lambda>im'. (h, im')) (AttachDestination h t im))"

text \<open>Joining the channel of the new frequency, with the sample rate the node had.\<close>

definition join_UL :: "ct_env \<Rightarrow> string \<Rightarrow> NodeConfig \<Rightarrow> nat \<Rightarrow> Controller \<Rightarrow> bool ct_result" where
  "join_UL env ident newConfig r c =
     (let freq = first_freq uch_txTuneFreq newConfig in
      ct_then (ct_crash (node_config ident c) c) (\<lambda>nc c.
      ct_then (ct_lift (updateTxFreq freq 0 nc) c) (\<lambda>nc' c.
        let c1 = on_config ident (\<lambda>_. nc') c;
            c2 = (if ce_sandbox env then c1
                  else on_rx r (Receiver_setSampleRate (rate32 (sr_txRate (nc_sample_rate nc'))) \<circ> Receiver_updateFreq freq) c1)
        in ct_then (on_channel_at freq (attach_src env ident (nc_numChannels newConfig) r) c2) (\<lambda>_ c. (Inr True, c)))))"

text \<open>The rest of \<open>AssignULChannel\<close> once the receiver and the two channels are known.\<close>

definition retune_UL :: "ct_env \<Rightarrow> string \<Rightarrow> NodeConfig \<Rightarrow> nat \<Rightarrow> real \<Rightarrow> bool \<Rightarrow> Controller \<Rightarrow> bool ct_result" where
  "retune_UL env ident newConfig r prevFreq prev_ch_found c =
     (let changed = freqChanged prevFreq (first_freq uch_txTuneFreq newConfig) in
      ct_then (leave_channel prevFreq (release_src env ident r) (changed \<and> prev_ch_found) c) (\<lambda>_ c.
        if \<not> changed then
          let c1 = on_config ident (\<lambda>m. m\<lparr>nc_sample_rate := nc_sample_rate newConfig\<rparr>) c
          in (Inr False, if ce_sandbox env then c1
                         else on_rx r (Receiver_setSampleRate (rate32 (sr_txRate (nc_sample_rate newConfig)))) c1)
        else join_UL env ident newConfig r c))"

definition AssignULChannel :: "ct_env \<Rightarrow> string \<Rightarrow> NodeConfig \<Rightarrow> Controller \<Rightarrow> bool ct_result" where
  "AssignULChannel env ident newConfig c =
     (if nc_channels newConfig = [] then (Inr False, c)
      else
        ct_then (ct_crash (om_find (ct_nodeMap c) ident) c) (\<lambda>node c.
          let freq = first_freq uch_txTuneFreq newConfig;
              prevFreq = first_freq uch_txTuneFreq (nd_config node);
              ch_found = FindChannel freq c;
              prev_ch_found = FindChannel prevFreq c;
              isSame = compare newConfig node
          in ct_then (node_receiver env ident c) (\<lambda>r c.
               let c1 = (if ch_found then c else CreateChannel freq (sr_txRate (nc_sample_rate newConfig)) c)
               in if isSame \<and> \<not> ch_found then (Inr False, c1)
                  else retune_UL env ident newConfig r prevFreq prev_ch_found c1)))"

definition join_DL :: "ct_env \<Rightarrow> string \<Rightarrow> NodeConfig \<Rightarrow> nat \<Rightarrow> Controller \<Rightarrow> bool ct_result" where
  "join_DL env ident newConfig t c =
     (let freq = first_freq uch_rxTuneFreq newConfig in
      ct_then (ct_crash (node_config ident c) c) (\<lambda>nc c.
      ct_then (ct_lift (updateRxFreq freq 0 nc) c) (\<lambda>nc' c.
        let c1 = on_config ident (\<lambda>_. nc') c;
            c2 = (if ce_sandbox env then c1
                  else on_tx t (Transmitter_setSampleRate (rate32 (sr_rxRate (nc_sample_rate nc'))) \<circ> Transmitter_updateFreq freq) c1)
        in ct_then (on_channel_at freq (attach_dest env ident (nc_numChannels newConfig) t) c2) (\<lambda>_ c. (Inr True, c)))))"

text \<open>The rest of \<open>AssignDLChannel\<close> once the transmitter and the two channels are known.\<close>

definition retune_DL :: "ct_env \<Rightarrow> string \<Rightarrow> NodeConfig \<Rightarrow> nat \<Rightarrow> real \<Rightarrow> bool \<Rightarrow> Controller \<Rightarrow> bool ct_result" where
  "retune_DL env ident newConfig t prevFreq prev_ch_found c =
     (let changed = freqChanged prevFreq (first_freq uch_rxTuneFreq newConfig) in
      ct_then (leave_channel prevFreq (release_dest env ident t) (prev_ch_found \<and> changed) c) (\<lambda>_ c.
        if \<not> changed then
          let c1 = on_config ident (\<lambda>m. m\<lparr>nc_sample_rate := nc_sample_rate newConfig\<rparr>) c
          in (Inr False, if ce_sandbox env then c1
                         else on_tx t (Transmitter_setSampleRate (rate32 (sr_rxRate (nc_sample_rate newConfig)))) c1)
        else join_DL env ident newConfig t c))"

definition AssignDLChannel :: "ct_env \<Rightarrow> string \<Rightarrow> NodeConfig \<Rightarrow> Controller \<Rightarrow> bool ct_result" where
  "AssignDLChannel env ident newConfig c =
     (if nc_channels newConfig = [] then (Inr False, c)
      else
        ct_then (ct_crash (om_find (ct_nodeMap c) ident) c) (\<lambda>node c.
          let freq = first_freq uch_rxTuneFreq newConfig;
              prevFreq = first_freq uch_rxTuneFreq (nd_config node);
              ch_found = FindChannel freq c;
              prev_ch_found = FindChannel prevFreq c;
              isSame = compare newConfig node
          in ct_then (node_transmitter env ident c) (\<lambda>t c.
               let c1 = (if ch_found then c else CreateChannel freq (sr_rxRate (nc_sample_rate newConfig)) c)
               in if isSame \<and> \<not> ch_found then (Inr False, c1)
                  else retune_DL env ident newConfig t prevFreq prev_ch_found c1)))"

section \<open>Leaving\<close>

text \<open>The steps shared by a disconnect and a timeout.\<close>

definition detach_node :: "Node \<Rightarrow> Controller \<Rightarrow> unit ct_result" where
  "detach_node n c =
     ct_then (case nd_transmitter n of
                None \<Rightarrow> (Inr (), c)
              | Some t \<Rightarrow> ct_each (detach_dest_at t) (om_keys (ct_intermediateMap c)) c)
       (\<lambda>_ c. case nd_receiver n of
                 None \<Rightarrow> (Inr (), c)
               | Some r \<Rightarrow> ct_each (detach_src_at r) (om_keys (ct_intermediateMap c)) c)"

definition remove_empty :: "Controller \<Rightarrow> Controller" where
  "remove_empty c =
     (let gone = filter (\<lambda>(_, im). isEmpty im) (ct_intermediateMap c)
      in c\<lparr>ct_db := ct_db c @ map (DeleteChannel_sql \<circ> fst) gone,
           ct_intermediateMap := om_filter (\<lambda>_ im. \<not> isEmpty im) (ct_intermediateMap c)\<rparr>)"

text \<open>The handler of the vehicle is stopped and dropped.\<close>

definition drop_vehicle :: "Node \<Rightarrow> Controller \<Rightarrow> Controller" where
  "drop_vehicle n c = c\<lparr>ct_vehicleHandlers := om_erase (vehicle_key n) (ct_vehicleHandlers c)\<rparr>"

definition disconnect :: "string \<Rightarrow> Node \<Rightarrow> Controller \<Rightarrow> unit ct_result" where
  "disconnect ident n c =
     ct_then (detach_node n (RestoreTXPort (nc_ipAddress (nd_config n)) c)) (\<lambda>_ c.
       let c1 = db_exec (DeleteNode_sql n) (remove_empty (drop_vehicle n c))
       in (Inr (), c1\<lparr>ct_nodeMap := om_erase ident (ct_nodeMap c1)\<rparr>))"

text \<open>One pass of the timeout loop over the node map.\<close>

definition timeout_node :: "int \<Rightarrow> string \<Rightarrow> Controller \<Rightarrow> unit ct_result" where
  "timeout_node now ident c =
     (case om_find (ct_nodeMap c) ident of
        None \<Rightarrow> (Inr (), c)
      | Some n \<Rightarrow>
          if isAlive now 10 n then (Inr (), c)
          else ct_then (detach_node n c) (\<lambda>_ c.
                 let c1 = drop_vehicle n (db_exec (DeleteNode_sql n) (remove_empty c))
                 in (Inr (), c1\<lparr>ct_nodeMap := om_erase ident (ct_nodeMap c1)\<rparr>)))"

definition CheckTimeouts_pass :: "int \<Rightarrow> Controller \<Rightarrow> unit ct_result" where
  "CheckTimeouts_pass now c = ct_each (timeout_node now) (om_keys (ct_nodeMap c)) c"

section \<open>Requests\<close>

definition reply :: "string \<Rightarrow> json" where
  "reply status = jobj [(''status'', JStr status)]"

definition reply_ports :: "NodeConfig \<Rightarrow> json" where
  "reply_ports nc = jobj [(''txPort'', JInt (sint (nc_portTxNum nc))), (''rxPort'', JInt (sint (nc_portRxNum nc))),
     (''status'', JStr ''success'')]"

text \<open>\<open>operator[]\<close> on a missing member gives null.\<close>

definition jmember :: "json \<Rightarrow> string \<Rightarrow> json" where
  "jmember j k = (case om_find (jmembers j) k of Some v \<Rightarrow> v | None \<Rightarrow> JNull)"

text \<open>The configuration a request carries.\<close>

definition request_config :: "ct_env \<Rightarrow> json \<Rightarrow> NodeConfig" where
  "request_config env j = (NodeConfig_from_json j (NodeConfig_new (ce_ptx env) (ce_prx env)))\<lparr>nc_ipAddress := ce_remoteIp env\<rparr>"

text \<open>The part after the node was found or created.\<close>

definition serve :: "ct_env \<Rightarrow> NodeConfig \<Rightarrow> bool \<Rightarrow> Controller \<Rightarrow> json ct_result" where
  "serve env nodeConfig newly_inserted c =
     ct_then (ct_crash (om_find (ct_nodeMap c) (nc_id nodeConfig)) c) (\<lambda>target c.
       let ident = nc_id nodeConfig;
           (target', nodeConfig', hs) = refreshFromConfig (ce_now env) nodeConfig target (ct_vehicleHandlers c);
           c1 = c\<lparr>ct_vehicleHandlers := hs, ct_nodeMap := om_set ident target' (ct_nodeMap c)\<rparr>
       in ct_then (AssignULChannel env ident nodeConfig' c1) (\<lambda>ul c.
          ct_then (AssignDLChannel env ident nodeConfig' c) (\<lambda>dl c.
          ct_then (ct_crash (om_find (ct_nodeMap c) ident) c) (\<lambda>target c.
            if \<not> (ul \<or> dl) \<and> \<not> newly_inserted then
              (Inr (if compare nodeConfig' target then reply_ports (nd_config target) else reply ''fail''), c)
            else
              ct_then (AddNode ident c) (\<lambda>_ c. (Inr (reply_ports (nd_config target)), c))))))"

definition configure :: "ct_env \<Rightarrow> json \<Rightarrow> Controller \<Rightarrow> json ct_result" where
  "configure env j c =
     (let nodeConfig = request_config env j
      in ct_then (GetOrCreateNode (Node_new (ce_now env) nodeConfig) c) (serve env nodeConfig))"

definition heartbeat_request :: "ct_env \<Rightarrow> json \<Rightarrow> Controller \<Rightarrow> json ct_result" where
  "heartbeat_request env j c =
     ct_then (ct_lift (get_string (jmember j ''id'')) c) (\<lambda>node_id c.
       if om_find (ct_nodeMap c) node_id \<noteq> None
       then (Inr (reply ''success''), on_node node_id (updateHeartbeat (ce_now env)) c)
       else (Inr (reply ''fail''), c))"

definition disconnect_request :: "json \<Rightarrow> Controller \<Rightarrow> json ct_result" where
  "disconnect_request j c =
     ct_then (ct_lift (get_string (jmember j ''id'')) c) (\<lambda>node_id c.
       case om_find (ct_nodeMap c) node_id of
         Some n \<Rightarrow> ct_then (disconnect node_id n c) (\<lambda>_ c. (Inr (reply ''success''), c))
       | None \<Rightarrow> (Inr (reply ''fail''), c))"

definition requestHandler :: "ct_env \<Rightarrow> json option \<Rightarrow> Controller \<Rightarrow> json ct_result" where
  "requestHandler env request c =
     (case request of
        None \<Rightarrow> (Inr (reply ''fail''), c)
      | Some j \<Rightarrow>
          if contains j ''type'' then
            ct_then (ct_lift (get_string (jmember j ''type'')) c) (\<lambda>req_type c.
              if req_type = ''heartbeat'' then heartbeat_request env j c
              else if req_type = ''disconnect'' then disconnect_request j c
              else configure env j c)
          else configure env j c)"

section \<open>Requests that do not retune\<close>

lemma ct_then_simps [simp]:
  "ct_then (Inl e, c) f = (Inl e, c)" "ct_then (Inr x, c) f = f x c"
  "ct_lift (Inl ex) c = (Inl (Thrown ex), c)" "ct_lift (Inr x) c = (Inr x, c)"
  "ct_crash None c = (Inl Crash, c)" "ct_crash (Some x) c = (Inr x, c)"
  by (simp_all add: ct_then_def ct_lift_def ct_crash_def)

lemma ct_then_Inr:
  "ct_then r f = (Inr y, c') \<longleftrightarrow> (\<exists>x c. r = (Inr x, c) \<and> f x c = (Inr y, c'))"
  by (cases r; cases "fst r") (auto simp: ct_then_def)

text \<open>The components of the state a change of a node, a receiver or a transmitter leaves alone.\<close>

lemma on_node_frame [simp]:
  "ct_intermediateMap (on_node i f c) = ct_intermediateMap c" "ct_heap (on_node i f c) = ct_heap c"
  "ct_vehicleHandlers (on_node i f c) = ct_vehicleHandlers c" "ct_db (on_node i f c) = ct_db c"
  "ct_txPortPool (on_node i f c) = ct_txPortPool c" "ct_rxPortPool (on_node i f c) = ct_rxPortPool c"
  "ct_ipAddrMap (on_node i f c) = ct_ipAddrMap c" "ct_propagationDefaults (on_node i f c) = ct_propagationDefaults c"
  by (simp_all add: on_node_def split: option.split)

lemma on_node_find [simp]:
  "om_find (ct_nodeMap (on_node i f c)) k = (if k = i then map_option f (om_find (ct_nodeMap c) k) else om_find (ct_nodeMap c) k)"
  by (simp add: on_node_def om_find_set split: option.split)

lemma node_config_Some: "om_find (ct_nodeMap c) i = Some n \<Longrightarrow> node_config i c = Some (nd_config n)"
  by (simp add: node_config_def)

lemma on_rx_tx_frame [simp]:
  "ct_nodeMap (on_rx r f c) = ct_nodeMap c" "ct_intermediateMap (on_rx r f c) = ct_intermediateMap c"
  "ct_nodeMap (on_tx r g c) = ct_nodeMap c" "ct_intermediateMap (on_tx r g c) = ct_intermediateMap c"
  "ct_txPortPool (on_rx r f c) = ct_txPortPool c" "ct_rxPortPool (on_rx r f c) = ct_rxPortPool c"
  "ct_txPortPool (on_tx r g c) = ct_txPortPool c" "ct_rxPortPool (on_tx r g c) = ct_rxPortPool c"
  by (simp_all add: on_rx_def on_tx_def)

text \<open>No channel gained or lost a node: the channels that were there are unchanged, new ones are empty.\<close>

definition same_channels :: "Controller \<Rightarrow> Controller \<Rightarrow> bool" where
  "same_channels c c' \<longleftrightarrow>
     (\<forall>f im. om_find (ct_intermediateMap c) f = Some im \<longrightarrow> om_find (ct_intermediateMap c') f = Some im) \<and>
     (\<forall>f im. om_find (ct_intermediateMap c') f = Some im \<longrightarrow> om_find (ct_intermediateMap c) f = Some im \<or> isEmpty im)"

lemma same_channels_refl [simp]: "same_channels c c"
  by (simp add: same_channels_def)

lemma same_channels_trans: "same_channels a b \<Longrightarrow> same_channels b c \<Longrightarrow> same_channels a c"
  unfolding same_channels_def by blast

lemma same_channels_cong: "ct_intermediateMap c' = ct_intermediateMap c \<Longrightarrow> same_channels c c'"
  by (simp add: same_channels_def)

lemma apply_defaults_empty: "isEmpty (apply_defaults pd (Intermediate_new f ms))"
  by (simp add: apply_defaults_def isEmpty_def Intermediate_new_def updatePathLoss_def setPathLossMode_def
      for_channels_def set3gppScenario_def Let_def split: option.split)

lemma CreateChannel_same: "same_channels c (CreateChannel freq srate c)"
  using apply_defaults_empty
  by (auto simp: same_channels_def CreateChannel_def FindChannel_def Let_def db_exec_def om_find_insert)

lemma CreateChannel_frame [simp]:
  "ct_nodeMap (CreateChannel freq srate c) = ct_nodeMap c" "ct_heap (CreateChannel freq srate c) = ct_heap c"
  by (simp_all add: CreateChannel_def Let_def db_exec_def)

lemma CreateChannel_found: "om_find (ct_intermediateMap (CreateChannel freq srate c)) freq \<noteq> None"
  by (simp add: CreateChannel_def FindChannel_def Let_def db_exec_def om_find_insert)

text \<open>The node is still there with its channels and gains, and agrees with a request if it did before.\<close>

definition keeps_tuning :: "string \<Rightarrow> NodeConfig \<Rightarrow> Controller \<Rightarrow> Controller \<Rightarrow> bool" where
  "keeps_tuning i nc c c' \<longleftrightarrow>
     (\<forall>n. om_find (ct_nodeMap c) i = Some n \<longrightarrow>
        (\<exists>n'. om_find (ct_nodeMap c') i = Some n' \<and> nc_channels (nd_config n') = nc_channels (nd_config n) \<and>
           nc_gains (nd_config n') = nc_gains (nd_config n) \<and> (compare nc n \<longrightarrow> compare nc n')))"

lemma keeps_tuning_cong: "ct_nodeMap c' = ct_nodeMap c \<Longrightarrow> keeps_tuning i nc c c'"
  by (simp add: keeps_tuning_def)

lemma keeps_tuning_trans: "keeps_tuning i nc a b \<Longrightarrow> keeps_tuning i nc b c \<Longrightarrow> keeps_tuning i nc a c"
  unfolding keeps_tuning_def by metis

lemmas tuning_simps = keeps_tuning_def nc_gains_def compare_def Let_def

lemma AssignPort_frame [simp]:
  "ct_nodeMap (snd (AssignTXPort c)) = ct_nodeMap c" "ct_intermediateMap (snd (AssignTXPort c)) = ct_intermediateMap c"
  "ct_nodeMap (snd (AssignRXPort c)) = ct_nodeMap c" "ct_intermediateMap (snd (AssignRXPort c)) = ct_intermediateMap c"
  "ct_heap (snd (AssignTXPort c)) = ct_heap c" "ct_heap (snd (AssignRXPort c)) = ct_heap c"
  by (simp_all add: AssignTXPort_def AssignRXPort_def)

lemma node_receiver_ok:
  assumes "om_find (ct_nodeMap c) i = Some n" and "nc_channels (nd_config n) \<noteq> []"
  shows "\<exists>r c'. node_receiver env i c = (Inr r, c') \<and> ct_intermediateMap c' = ct_intermediateMap c \<and> keeps_tuning i nc c c'"
proof -
  obtain ch chs where "nc_channels (nd_config n) = ch # chs" using assms(2) by (cases "nc_channels (nd_config n)") auto
  with assms(1) show ?thesis
    by (auto simp: node_receiver_def CreateReceiver_def Let_def case_prod_beta on_config_def node_config_def
        Receiver_new_def tuning_simps setReceiver_def split: option.split)
qed

lemma node_transmitter_ok:
  assumes "om_find (ct_nodeMap c) i = Some n" and "nc_channels (nd_config n) \<noteq> []"
  shows "\<exists>t c'. node_transmitter env i c = (Inr t, c') \<and> ct_intermediateMap c' = ct_intermediateMap c \<and> keeps_tuning i nc c c'"
proof -
  obtain ch chs where "nc_channels (nd_config n) = ch # chs" using assms(2) by (cases "nc_channels (nd_config n)") auto
  with assms(1) show ?thesis
    by (auto simp: node_transmitter_def CreateTransmitter_def Let_def case_prod_beta on_config_def node_config_def
        Transmitter_new_def tuning_simps setTransmitter_def split: option.split)
qed

lemma retune_unchanged:
  "\<not> freqChanged prevFreq (first_freq uch_txTuneFreq nc) \<Longrightarrow>
     \<exists>c'. retune_UL env i nc r prevFreq pf c = (Inr False, c') \<and> ct_intermediateMap c' = ct_intermediateMap c \<and> keeps_tuning i nc c c'"
  "\<not> freqChanged prevFreq (first_freq uch_rxTuneFreq nc) \<Longrightarrow>
     \<exists>c'. retune_DL env i nc r prevFreq pf c = (Inr False, c') \<and> ct_intermediateMap c' = ct_intermediateMap c \<and> keeps_tuning i nc c c'"
  by (auto simp: retune_UL_def retune_DL_def leave_channel_def on_config_def tuning_simps)

lemma AssignUL_unchanged:
  assumes n: "om_find (ct_nodeMap c) i = Some n" "nc_channels (nd_config n) \<noteq> []"
    and f: "\<not> freqChanged (first_freq uch_txTuneFreq (nd_config n)) (first_freq uch_txTuneFreq nc)"
  shows "\<exists>c'. AssignULChannel env i nc c = (Inr False, c') \<and> same_channels c c' \<and> keeps_tuning i nc c c'"
proof (cases "nc_channels nc = []")
  case True
  then show ?thesis by (simp add: AssignULChannel_def keeps_tuning_cong)
next
  case False
  obtain r c1 where r: "node_receiver env i c = (Inr r, c1)" "ct_intermediateMap c1 = ct_intermediateMap c" "keeps_tuning i nc c c1"
    using node_receiver_ok [OF n] by metis
  define c2 where "c2 = (if FindChannel (first_freq uch_txTuneFreq nc) c then c1
      else CreateChannel (first_freq uch_txTuneFreq nc) (sr_txRate (nc_sample_rate nc)) c1)"
  have 2: "same_channels c c2" "keeps_tuning i nc c c2"
    using r CreateChannel_same same_channels_trans [OF same_channels_cong [OF r(2)]]
    by (auto simp: c2_def same_channels_cong keeps_tuning_def)
  obtain c3 where 3: "retune_UL env i nc r (first_freq uch_txTuneFreq (nd_config n))
      (FindChannel (first_freq uch_txTuneFreq (nd_config n)) c) c2 = (Inr False, c3)"
    "ct_intermediateMap c3 = ct_intermediateMap c2" "keeps_tuning i nc c2 c3"
    using retune_unchanged(1) [OF f] by metis
  have "AssignULChannel env i nc c = (Inr False, if compare nc n \<and> \<not> FindChannel (first_freq uch_txTuneFreq nc) c then c2 else c3)"
    using False n r(1) 3(1) by (simp add: AssignULChannel_def Let_def c2_def)
  moreover have "same_channels c c3" "keeps_tuning i nc c c3"
    using 2 3 same_channels_trans same_channels_cong keeps_tuning_trans by blast+
  ultimately show ?thesis using 2 by auto
qed

lemma AssignDL_unchanged:
  assumes n: "om_find (ct_nodeMap c) i = Some n" "nc_channels (nd_config n) \<noteq> []"
    and f: "\<not> freqChanged (first_freq uch_rxTuneFreq (nd_config n)) (first_freq uch_rxTuneFreq nc)"
  shows "\<exists>c'. AssignDLChannel env i nc c = (Inr False, c') \<and> same_channels c c' \<and> keeps_tuning i nc c c'"
proof (cases "nc_channels nc = []")
  case True
  then show ?thesis by (simp add: AssignDLChannel_def keeps_tuning_cong)
next
  case False
  obtain t c1 where t: "node_transmitter env i c = (Inr t, c1)" "ct_intermediateMap c1 = ct_intermediateMap c" "keeps_tuning i nc c c1"
    using node_transmitter_ok [OF n] by metis
  define c2 where "c2 = (if FindChannel (first_freq uch_rxTuneFreq nc) c then c1
      else CreateChannel (first_freq uch_rxTuneFreq nc) (sr_rxRate (nc_sample_rate nc)) c1)"
  have 2: "same_channels c c2" "keeps_tuning i nc c c2"
    using t CreateChannel_same same_channels_trans [OF same_channels_cong [OF t(2)]]
    by (auto simp: c2_def same_channels_cong keeps_tuning_def)
  obtain c3 where 3: "retune_DL env i nc t (first_freq uch_rxTuneFreq (nd_config n))
      (FindChannel (first_freq uch_rxTuneFreq (nd_config n)) c) c2 = (Inr False, c3)"
    "ct_intermediateMap c3 = ct_intermediateMap c2" "keeps_tuning i nc c2 c3"
    using retune_unchanged(2) [OF f] by metis
  have "AssignDLChannel env i nc c = (Inr False, if compare nc n \<and> \<not> FindChannel (first_freq uch_rxTuneFreq nc) c then c2 else c3)"
    using False n t(1) 3(1) by (simp add: AssignDLChannel_def Let_def c2_def)
  moreover have "same_channels c c3" "keeps_tuning i nc c c3"
    using 2 3 same_channels_trans same_channels_cong keeps_tuning_trans by blast+
  ultimately show ?thesis using 2 by auto
qed

lemma AddNode_ok:
  assumes "om_find (ct_nodeMap c) i = Some n" and "nc_channels (nd_config n) \<noteq> []"
  shows "\<exists>sql. AddNode i c = (Inr (), db_exec sql c)"
  using assms by (cases "nc_channels (nd_config n)") (auto simp: AddNode_def AddNode_sql_def Let_def)

lemma db_exec_frame [simp]:
  "ct_nodeMap (db_exec s c) = ct_nodeMap c" "ct_intermediateMap (db_exec s c) = ct_intermediateMap c"
  "ct_heap (db_exec s c) = ct_heap c" "ct_vehicleHandlers (db_exec s c) = ct_vehicleHandlers c"
  "ct_txPortPool (db_exec s c) = ct_txPortPool c" "ct_rxPortPool (db_exec s c) = ct_rxPortPool c"
  by (simp_all add: db_exec_def)

text \<open>A node that is set up as a request asks.\<close>

definition setup_as :: "NodeConfig \<Rightarrow> NodeConfig \<Rightarrow> bool" where
  "setup_as nc m \<longleftrightarrow> nc_channels nc \<noteq> [] \<and> nc_channels m = nc_channels nc \<and> nc_gains m = nc_gains nc \<and> nc_sample_rate m = nc_sample_rate nc"

lemma setup_not_changed:
  assumes "setup_as nc m"
  shows "nc_channels m \<noteq> []" "\<not> freqChanged (first_freq f m) (first_freq f nc)"
  using assms by (simp_all add: setup_as_def first_freq_def freqChanged_def)

lemma setup_compare:
  assumes "setup_as nc (nd_config n)" "nc_identity (nd_config n) = nc_identity nc" "nc_nodeType (nd_config n) = nc_nodeType nc"
  shows "compare nc n"
  using assms
  by (auto simp: compare_def setup_as_def nc_identity_def nc_gains_def Let_def usrp_Channel_compare_def intro: list_all2_refl)

text \<open>Serving such a request succeeds and attaches nothing, and the node stays set up as it asks.\<close>

lemma serve_unchanged:
  assumes n: "om_find (ct_nodeMap c) (nc_id nc) = Some n" and t: "setup_as nc (nd_config n)"
  shows "\<exists>c' n'. serve env nc new c = (Inr (reply_ports (nd_config n')), c') \<and> same_channels c c' \<and>
    om_find (ct_nodeMap c') (nc_id nc) = Some n' \<and> setup_as nc (nd_config n')"
proof -
  let ?i = "nc_id nc"
  obtain n1 nc1 hs where r: "refreshFromConfig (ce_now env) nc n (ct_vehicleHandlers c) = (n1, nc1, hs)" by (metis prod_cases3)
  note R = refreshFromConfig_ok [OF r]
  define c1 where "c1 = c\<lparr>ct_vehicleHandlers := hs, ct_nodeMap := om_set ?i n1 (ct_nodeMap c)\<rparr>"
  have f1: "om_find (ct_nodeMap c1) ?i = Some n1" by (simp add: c1_def om_find_set)
  have t1: "setup_as nc1 (nd_config n1)" using t R by (simp add: setup_as_def nd_owned_def)
  have cmp: "compare nc1 n1" using t1 R by (intro setup_compare) simp_all
  obtain c2 where u: "AssignULChannel env ?i nc1 c1 = (Inr False, c2)" "same_channels c1 c2" "keeps_tuning ?i nc1 c1 c2"
    using AssignUL_unchanged [OF f1 setup_not_changed [OF t1]] by metis
  obtain n2 where f2: "om_find (ct_nodeMap c2) ?i = Some n2" "nc_channels (nd_config n2) = nc_channels (nd_config n1)"
    "nc_gains (nd_config n2) = nc_gains (nd_config n1)" "compare nc1 n2"
    using u(3) f1 cmp by (auto simp: keeps_tuning_def)
  have t2: "setup_as nc1 (nd_config n2)" using t1 f2 by (auto simp: setup_as_def compare_def Let_def)
  obtain c3 where d: "AssignDLChannel env ?i nc1 c2 = (Inr False, c3)" "same_channels c2 c3" "keeps_tuning ?i nc1 c2 c3"
    using AssignDL_unchanged [OF f2(1) setup_not_changed [OF t2]] by metis
  obtain n3 where f3: "om_find (ct_nodeMap c3) ?i = Some n3" "nc_channels (nd_config n3) = nc_channels (nd_config n2)"
    "nc_gains (nd_config n3) = nc_gains (nd_config n2)" "compare nc1 n3"
    using d(3) f2 by (auto simp: keeps_tuning_def)
  have t3: "setup_as nc (nd_config n3)" using t2 f3 R by (auto simp: setup_as_def compare_def Let_def)
  obtain sql where a: "AddNode ?i c3 = (Inr (), db_exec sql c3)"
    using AddNode_ok [OF f3(1)] t3 by (auto simp: setup_as_def)
  have s: "same_channels c c3"
    using u(2) d(2) same_channels_trans [OF same_channels_cong [of c1 c]] same_channels_trans by (auto simp: c1_def)
  have "serve env nc new c = (Inr (reply_ports (nd_config n3)), if new then db_exec sql c3 else c3)"
    using n r u(1) d(1) f3(1,4) a by (simp add: serve_def Let_def c1_def [symmetric])
  then show ?thesis using s f3(1) t3 by (cases new) (auto simp: same_channels_def)
qed

lemma configure_unchanged:
  assumes "nc_channels (request_config env j) \<noteq> []"
    and "\<And>n. om_find (ct_nodeMap c) (nc_id (request_config env j)) = Some n \<Longrightarrow> setup_as (request_config env j) (nd_config n)"
  shows "\<exists>c' n'. configure env j c = (Inr (reply_ports (nd_config n')), c') \<and> same_channels c c' \<and>
    om_find (ct_nodeMap c') (nc_id (request_config env j)) = Some n' \<and> setup_as (request_config env j) (nd_config n')"
proof (cases "om_find (ct_nodeMap c) (nc_id (request_config env j))")
  case (Some n)
  then show ?thesis
    using serve_unchanged [OF Some assms(2) [OF Some], of env False]
    by (simp add: configure_def GetOrCreateNode_def Node_new_def Let_def)
next
  case None
  let ?nc = "request_config env j" let ?n = "Node_new (ce_now env) ?nc"
  define c1 where "c1 = c\<lparr>ct_nodeMap := om_insert (nc_id ?nc) ?n (ct_nodeMap c)\<rparr>"
  have f: "om_find (ct_nodeMap c1) (nc_id ?nc) = Some ?n" using None by (simp add: c1_def om_find_insert)
  have nd: "nd_config ?n = ?nc" by (simp add: Node_new_def)
  obtain sql where a: "AddNode (nc_id ?nc) c1 = (Inr (), db_exec sql c1)"
    using AddNode_ok [OF f] assms(1) nd by auto
  have "configure env j c = serve env ?nc True (db_exec sql c1)"
    using None a by (simp add: configure_def GetOrCreateNode_def nd Let_def c1_def [symmetric])
  moreover have "setup_as ?nc (nd_config ?n)" using assms(1) by (simp add: nd setup_as_def)
  moreover have "same_channels c (db_exec sql c1)" by (simp add: same_channels_def c1_def)
  ultimately show ?thesis
    using serve_unchanged [of "db_exec sql c1" ?nc ?n env True] f by (auto intro: same_channels_trans)
qed

text \<open>Two requests with the same content differ in the address they come from and in the ports, which the
  configuration leaves uninitialised until they are assigned.\<close>

lemma request_config_env: "request_config env' j = (request_config env j)\<lparr>nc_ipAddress := ce_remoteIp env', nc_portTxNum := ce_ptx env', nc_portRxNum := ce_prx env'\<rparr>"
proof -
  define P where "P n = n\<lparr>nc_portTxNum := ce_ptx env', nc_portRxNum := ce_prx env'\<rparr>" for n :: NodeConfig
  have id_name: "parse_id_name j (P n) = P (parse_id_name j n)" for n
    by (simp add: parse_id_name_def P_def rbind_def rmap_def split: sum.split)
  have "parse_numChannels j (P n) = P (parse_numChannels j n)" for n
    by (simp add: parse_numChannels_def P_def split: sum.split)
  moreover have "parse_channels j (P n) = P (parse_channels j n)" for n
    by (simp add: parse_channels_def P_def split: sum.split json.split)
  moreover have "parse_sample_rate j (P n) = P (parse_sample_rate j n)" for n
    by (simp add: parse_sample_rate_def P_def split: sum.split)
  moreover have "parse_logical_node j (P n) = P (parse_logical_node j n)" for n
    by (simp add: parse_logical_node_def P_def split: sum.split)
  moreover have "parse_location j (P n) = P (parse_location j n)" for n
    by (auto simp: parse_location_def P_def setNodeConfigLocation_def split: sum.split)
  moreover have "parse_vehicle j (P n) = P (parse_vehicle j n)" for n
    by (simp add: parse_vehicle_def P_def split: sum.split)
  moreover have "parse_node_type j (P n) = P (parse_node_type j n)" for n
    by (simp add: parse_node_type_def P_def split: sum.split json.split)
  moreover have "parse_aerpaw j (P n) = P (parse_aerpaw j n)" for n
    by (simp add: parse_aerpaw_def Let_def P_def split: sum.split json.split)
  moreover have "parse_formats j (P n) = P (parse_formats j n)" for n
    by (simp add: parse_formats_def Let_def P_def split: sum.split json.split)
  moreover have "parse_gains j (P n) = P (parse_gains j n)" for n
    by (simp add: parse_gains_def Let_def P_def setDeviceTxGain_def setDeviceRxGain_def split: sum.split list.split)
  moreover have "NodeConfig_new (ce_ptx env') (ce_prx env') = P (NodeConfig_new (ce_ptx env) (ce_prx env))"
    by (simp add: NodeConfig_new_def P_def)
  ultimately have "NodeConfig_from_json j (NodeConfig_new (ce_ptx env') (ce_prx env')) = P (NodeConfig_from_json j (NodeConfig_new (ce_ptx env) (ce_prx env)))"
    by (simp only: NodeConfig_from_json_def id_name)
  then show ?thesis by (simp add: request_config_def P_def)
qed

lemma request_config_same:
  "nc_id (request_config env' j) = nc_id (request_config env j)" "nc_channels (request_config env' j) = nc_channels (request_config env j)"
  "setup_as (request_config env' j) = setup_as (request_config env j)"
  by (subst request_config_env [of env' j env]; simp add: setup_as_def nc_gains_def fun_eq_iff)+

text \<open>C34. A node that is not known yet and whose first request already carries its channels with their frequencies (a
  nonempty channel list, in a request without a member \<open>type\<close>) is answered with success, but it is not attached to any
  channel: the channels that were there are unchanged, and a channel that is new is empty. However often
  the same request is repeated after that, at whatever times and from whatever addresses, it is answered with success each time and
  still nothing is attached: the node was stored with the frequencies of the request, so none of these requests counts as a
  change of frequency, and only a change attaches.\<close>

theorem first_request_attaches_nothing:
  assumes "\<not> contains j ''type''" and "nc_channels (request_config env j) \<noteq> []"
    and "om_find (ct_nodeMap c) (nc_id (request_config env j)) = None"
  shows "\<exists>resp c'. requestHandler env (Some j) c = (Inr resp, c') \<and> jmember resp ''status'' = JStr ''success'' \<and>
    om_find (ct_nodeMap c') (nc_id (request_config env j)) \<noteq> None \<and> same_channels c c' \<and>
    (\<forall>envs env'. \<exists>resp' c''.
       requestHandler env' (Some j) (fold (\<lambda>e c. snd (requestHandler e (Some j) c)) envs c') = (Inr resp', c'') \<and>
       jmember resp' ''status'' = JStr ''success'' \<and> same_channels c c'')"
proof -
  let ?i = "nc_id (request_config env j)"
  define R where "R c' \<longleftrightarrow> same_channels c c' \<and> (\<exists>n. om_find (ct_nodeMap c') ?i = Some n \<and> setup_as (request_config env j) (nd_config n))" for c'
  have q: "requestHandler e (Some j) = configure e j" for e using assms(1) by (simp add: requestHandler_def fun_eq_iff)
  have ok: "jmember (reply_ports m) ''status'' = JStr ''success''" for m
    by (simp add: reply_ports_def jmember_def jobj_def om_find_set om_find_def)
  obtain c' n' where 1: "requestHandler env (Some j) c = (Inr (reply_ports (nd_config n')), c')" "same_channels c c'"
    "om_find (ct_nodeMap c') ?i = Some n'" "setup_as (request_config env j) (nd_config n')"
    using configure_unchanged [OF assms(2), of c] assms(3) by (auto simp: q)
  have step: "\<exists>m d'. requestHandler e (Some j) d = (Inr (reply_ports m), d') \<and> R d'" if Rd: "R d" for e d
  proof -
    obtain n where d: "om_find (ct_nodeMap d) ?i = Some n" "setup_as (request_config env j) (nd_config n)" "same_channels c d"
      using Rd by (auto simp: R_def)
    have "\<exists>d' n'. configure e j d = (Inr (reply_ports (nd_config n')), d') \<and> same_channels d d' \<and>
        om_find (ct_nodeMap d') (nc_id (request_config e j)) = Some n' \<and> setup_as (request_config e j) (nd_config n')"
      by (rule configure_unchanged) (use assms(2) d in \<open>auto simp: request_config_same [of e j env]\<close>)
    then show ?thesis using d(3) same_channels_trans by (fastforce simp: q R_def request_config_same [of e j env])
  qed
  have "R (fold (\<lambda>e c. snd (requestHandler e (Some j) c)) envs c')" for envs
  proof (rule fold_invariant [where Q = "\<lambda>_. True"])
    show "R c'" using 1 by (auto simp: R_def)
    show "R (snd (requestHandler e (Some j) d))" if "R d" for e d using step [OF that, of e] by auto
  qed simp
  then have "\<exists>resp' c''. requestHandler env' (Some j) (fold (\<lambda>e c. snd (requestHandler e (Some j) c)) envs c') = (Inr resp', c'') \<and>
       jmember resp' ''status'' = JStr ''success'' \<and> same_channels c c''" for envs env'
    using step [of _ env'] ok by (metis R_def)
  with 1 ok show ?thesis by blast
qed

text \<open>A controller with one pool of four buffers, and a request that carries a frequency.\<close>

definition example_ct_env :: ct_env where
  "example_ct_env = \<lparr>ce_now = 0, ce_remoteIp = ''10.0.0.2'', ce_sandbox = False, ce_ptx = 0, ce_prx = 0,
     ce_udpPool = empty_pool 4\<rparr>"

definition example_controller :: Controller where
  "example_controller = (Controller_new [] [] None (\<lambda>_. example_receiver) (\<lambda>_. example_transmitter) 0 False 1)\<lparr>
     ct_heap := \<lparr>hp_rx = \<lambda>_. example_receiver, hp_tx = \<lambda>_. example_transmitter, hp_next = 0, hp_pools = [empty_pool 4]\<rparr>\<rparr>"

definition example_request :: "string \<Rightarrow> real \<Rightarrow> json" where
  "example_request ident freq = JObj [(''channels'',
     JArr [JObj [(''rx'', JObj [(''tune_freq'', JFloat freq)]), (''tx'', JObj [(''tune_freq'', JFloat freq)])]]),
     (''id'', JStr ident)]"

lemma example_request_members [simp]:
  "contains (example_request i f) k \<longleftrightarrow> k = ''channels'' \<or> k = ''id''"
  "jat (example_request i f) ''id'' = Inr (JStr i)"
  "jat (example_request i f) ''channels'' = Inr (JArr [JObj [(''rx'', JObj [(''tune_freq'', JFloat f)]), (''tx'', JObj [(''tune_freq'', JFloat f)])]])"
  "k \<noteq> ''channels'' \<Longrightarrow> k \<noteq> ''id'' \<Longrightarrow> jat (example_request i f) k = Inl (Out_of_range (''key '' @ k @ '' not found''))"
  by (auto simp: contains_def jat_def example_request_def om_find_def)

lemma example_request_config:
  "request_config env (example_request i f) = (NodeConfig_new (ce_ptx env) (ce_prx env))\<lparr>nc_id := i,
     nc_channels := [usrp_Channel_new\<lparr>uch_txTuneFreq := f, uch_rxTuneFreq := f\<rparr>], nc_ipAddress := ce_remoteIp env\<rparr>"
  by (simp add: request_config_def NodeConfig_from_json_def parse_formats_def parse_node_type_def parse_gains_def
      parse_aerpaw_def parse_vehicle_def parse_location_def parse_logical_node_def parse_sample_rate_def
      parse_channels_def parse_numChannels_def parse_id_name_def rbind_def rmap_def Let_def gain_set_def
      usrp_Channel_from_json_def usrp_Channel_new_def contains_def [of "JObj _"] jat2_def jat_def [of "JObj _"] om_find_def NodeConfig_new_def)

theorem first_request_attaches_nothing_witness:
  "\<exists>resp c'. requestHandler example_ct_env (Some (example_request ''a'' 3500000000)) example_controller = (Inr resp, c') \<and>
     jmember resp ''status'' = JStr ''success'' \<and> om_find (ct_nodeMap c') ''a'' \<noteq> None \<and>
     (\<forall>f im. om_find (ct_intermediateMap c') f = Some im \<longrightarrow> isEmpty im)"
proof -
  have "\<exists>resp c'. requestHandler example_ct_env (Some (example_request ''a'' 3500000000)) example_controller = (Inr resp, c') \<and>
    jmember resp ''status'' = JStr ''success'' \<and> om_find (ct_nodeMap c') ''a'' \<noteq> None \<and> same_channels example_controller c'"
    using first_request_attaches_nothing [of "example_request ''a'' 3500000000" example_ct_env example_controller]
    by (auto simp: example_request_config NodeConfig_new_def example_controller_def Controller_new_def om_find_def Let_def)
  then show ?thesis by (auto simp: same_channels_def example_controller_def Controller_new_def om_find_def Let_def)
qed

section \<open>Nodes without channels\<close>

lemma AssignUL_no_channels:
  assumes "om_find (ct_nodeMap c) i = Some n" and "nc_channels (nd_config n) = []" and "nd_receiver n = None"
    and "nc_channels nc \<noteq> []" and "\<not> ce_sandbox env"
  shows "\<exists>c'. AssignULChannel env i nc c = (Inl (Thrown (Out_of_range ''vector::_M_range_check'')), c') \<and>
    ct_txPortPool c' = butlast (ct_txPortPool c)"
  using assms
  by (auto simp: AssignULChannel_def node_receiver_def CreateReceiver_def Let_def case_prod_beta on_config_def
      node_config_def Receiver_new_def AssignTXPort_def)

lemma configure_no_channels:
  assumes f: "om_find (ct_nodeMap c) (nc_id (request_config env j)) = Some n"
    and n: "nc_channels (nd_config n) = []" "nd_receiver n = None"
    and e: "nc_channels (request_config env j) \<noteq> []" "\<not> ce_sandbox env"
  shows "\<exists>c'. configure env j c = (Inl (Thrown (Out_of_range ''vector::_M_range_check'')), c') \<and>
    ct_txPortPool c' = butlast (ct_txPortPool c)"
proof -
  let ?nc = "request_config env j"
  obtain n1 nc1 hs where r: "refreshFromConfig (ce_now env) ?nc n (ct_vehicleHandlers c) = (n1, nc1, hs)" by (metis prod_cases3)
  note R = refreshFromConfig_ok [OF r]
  define c1 where "c1 = c\<lparr>ct_vehicleHandlers := hs, ct_nodeMap := om_set (nc_id ?nc) n1 (ct_nodeMap c)\<rparr>"
  have "om_find (ct_nodeMap c1) (nc_id ?nc) = Some n1" "nc_channels (nd_config n1) = []" "nd_receiver n1 = None"
    "nc_channels nc1 \<noteq> []" "ct_txPortPool c1 = ct_txPortPool c"
    using R n e by (simp_all add: c1_def om_find_set nd_owned_def)
  from AssignUL_no_channels [OF this(1-4) e(2)] this(5)
  obtain c2 where "AssignULChannel env (nc_id ?nc) nc1 c1 = (Inl (Thrown (Out_of_range ''vector::_M_range_check'')), c2)"
    "ct_txPortPool c2 = butlast (ct_txPortPool c)" by auto
  then show ?thesis using f r
    by (simp add: configure_def GetOrCreateNode_def Node_new_def serve_def Let_def c1_def [symmetric])
qed

text \<open>A registration with an empty channel list raises an exception out of the request handler, which
  nothing between it and the event loop catches, after the node was stored; and from then on every
  request of that node that does carry channels raises one too, and costs a port each time.\<close>

theorem empty_channel_list_throws:
  assumes "\<not> contains j ''type''" and "nc_channels (request_config env j) = []"
    and "om_find (ct_nodeMap c) (nc_id (request_config env j)) = None"
  shows "\<exists>ex c'. requestHandler env (Some j) c = (Inl (Thrown ex), c') \<and>
    om_find (ct_nodeMap c') (nc_id (request_config env j)) \<noteq> None \<and>
    (\<forall>env' j'. \<not> contains j' ''type'' \<and> \<not> ce_sandbox env' \<and> nc_channels (request_config env' j') \<noteq> [] \<and>
       nc_id (request_config env' j') = nc_id (request_config env j) \<longrightarrow>
       (\<exists>ex' c''. requestHandler env' (Some j') c' = (Inl (Thrown ex'), c'') \<and>
          ct_txPortPool c'' = butlast (ct_txPortPool c')))"
proof -
  let ?nc = "request_config env j" let ?n = "Node_new (ce_now env) ?nc"
  define c' where "c' = c\<lparr>ct_nodeMap := om_insert (nc_id ?nc) ?n (ct_nodeMap c)\<rparr>"
  have f: "om_find (ct_nodeMap c') (nc_id ?nc) = Some ?n" using assms(3) by (simp add: c'_def om_find_insert)
  have n: "nd_config ?n = ?nc" "nd_receiver ?n = None" by (simp_all add: Node_new_def)
  have "requestHandler env (Some j) c = (Inl (Thrown (Out_of_range ''vector::_M_range_check'')), c')"
    using assms f n
    by (simp add: requestHandler_def configure_def GetOrCreateNode_def Let_def c'_def [symmetric] AddNode_def AddNode_sql_def)
  moreover have "\<exists>ex' c''. requestHandler env' (Some j') c' = (Inl (Thrown ex'), c'') \<and> ct_txPortPool c'' = butlast (ct_txPortPool c')"
    if "\<not> contains j' ''type''" "\<not> ce_sandbox env'" "nc_channels (request_config env' j') \<noteq> []"
      "nc_id (request_config env' j') = nc_id ?nc" for env' j'
    using configure_no_channels [of c' env' j' ?n] f n assms(2) that by (auto simp: requestHandler_def)
  ultimately show ?thesis using f by blast
qed

lemma no_channels_config:
  "request_config env (JObj [(''channels'', JArr []), (''id'', JStr i)]) =
     (NodeConfig_new (ce_ptx env) (ce_prx env))\<lparr>nc_id := i, nc_ipAddress := ce_remoteIp env\<rparr>"
  by (simp add: request_config_def NodeConfig_from_json_def parse_formats_def parse_node_type_def parse_gains_def
      parse_aerpaw_def parse_vehicle_def parse_location_def parse_logical_node_def parse_sample_rate_def
      parse_channels_def parse_numChannels_def parse_id_name_def rbind_def rmap_def Let_def
      contains_def jat_def om_find_def NodeConfig_new_def)

theorem empty_channel_list_throws_witness:
  "\<exists>ex c' ex' c''. requestHandler example_ct_env (Some (JObj [(''channels'', JArr []), (''id'', JStr ''a'')])) example_controller =
       (Inl (Thrown ex), c') \<and>
     requestHandler example_ct_env (Some (example_request ''a'' 3500000000)) c' = (Inl (Thrown ex'), c'')"
proof -
  let ?j = "JObj [(''channels'', JArr []), (''id'', JStr ''a'')]" let ?j' = "example_request ''a'' 3500000000"
  have p: "\<not> contains ?j ''type''" "nc_channels (request_config example_ct_env ?j) = []"
    "om_find (ct_nodeMap example_controller) (nc_id (request_config example_ct_env ?j)) = None"
    by (simp_all add: no_channels_config contains_def om_find_def NodeConfig_new_def example_controller_def Controller_new_def Let_def)
  have q: "\<not> contains ?j' ''type'' \<and> \<not> ce_sandbox example_ct_env \<and> nc_channels (request_config example_ct_env ?j') \<noteq> [] \<and>
    nc_id (request_config example_ct_env ?j') = nc_id (request_config example_ct_env ?j)"
    by (simp add: example_request_config no_channels_config example_ct_env_def)
  show ?thesis using empty_channel_list_throws [OF p] q by blast
qed

end
