(* ===== verification/Controller_Safety.thy ===== *)
theory Controller_Safety
  imports Controller
begin

text \<open>
  The invariant of the node controller and what rests on it. A channel is sound when its maps name
  live receivers and transmitters by their own ids, every link has both ends attached and the
  queues hold signals with buffers; the controller is sound when its channels are and every node
  owns the endpoints it names. Every request and every pass of the timeout loop keeps this, and
  without sandbox nodes none of them dereferences a missing object. On top of this it is settled which requests are
  answered and which end in an exception, and what a disconnect and a timeout leave behind.
\<close>

section \<open>Sound channels\<close>

definition chan_inv :: "heap \<Rightarrow> Intermediate \<Rightarrow> bool" where
  "chan_inv h im \<longleftrightarrow>
     om_wf (im_sourceMap im) \<and> om_wf (im_destinationMap im) \<and> om_wf (im_channelMap im) \<and>
     (\<forall>k r. om_find (im_sourceMap im) k = Some r \<longrightarrow> r < hp_next h \<and> rcv_NodeId (hp_rx h r) = k) \<and>
     (\<forall>k t. om_find (im_destinationMap im) k = Some t \<longrightarrow>
        t < hp_next h \<and> tr_NodeId (hp_tx h t) = k \<and> nc_id (tr_node_config (hp_tx h t)) = k) \<and>
     (\<forall>s d c. om_find (im_channelMap im) (s, d) = Some c \<longrightarrow>
        ch_source c = s \<and> ch_dest c = d \<and>
        (om_find (im_sourceMap im) s \<noteq> None \<or> om_find (im_sandboxNodes im) s \<noteq> None) \<and>
        (om_find (im_destinationMap im) d \<noteq> None \<or> om_find (im_sandboxNodes im) d \<noteq> None)) \<and>
     (\<forall>k w x. om_find (im_workers im) k = Some w \<longrightarrow> x \<in> set (wc_queue w) \<longrightarrow> sig_iq x \<noteq> None)"

text \<open>Heaps in which the old endpoints keep their names.\<close>

definition heap_ids :: "heap \<Rightarrow> heap \<Rightarrow> bool" where
  "heap_ids h h' \<longleftrightarrow> hp_next h \<le> hp_next h' \<and> length (hp_pools h') = length (hp_pools h) \<and>
     (\<forall>a < hp_next h. rcv_NodeId (hp_rx h' a) = rcv_NodeId (hp_rx h a) \<and> tr_NodeId (hp_tx h' a) = tr_NodeId (hp_tx h a) \<and>
        nc_id (tr_node_config (hp_tx h' a)) = nc_id (tr_node_config (hp_tx h a)))"

lemma heap_ids_refl [simp]: "heap_ids h h"
  by (simp add: heap_ids_def)

lemma heap_ids_trans: "heap_ids a b \<Longrightarrow> heap_ids b c \<Longrightarrow> heap_ids a c"
  by (simp add: heap_ids_def)

lemma chan_inv_wf:
  "chan_inv h im \<Longrightarrow> om_wf (im_sourceMap im)" "chan_inv h im \<Longrightarrow> om_wf (im_destinationMap im)"
  "chan_inv h im \<Longrightarrow> om_wf (im_channelMap im)"
  by (simp_all add: chan_inv_def)

lemma chan_inv_src:
  "chan_inv h im \<Longrightarrow> om_find (im_sourceMap im) k = Some r \<Longrightarrow> r < hp_next h \<and> rcv_NodeId (hp_rx h r) = k"
  by (simp add: chan_inv_def)

lemma chan_inv_dest:
  "chan_inv h im \<Longrightarrow> om_find (im_destinationMap im) k = Some t \<Longrightarrow>
     t < hp_next h \<and> tr_NodeId (hp_tx h t) = k \<and> nc_id (tr_node_config (hp_tx h t)) = k"
  by (simp add: chan_inv_def)

lemma chan_inv_link:
  "chan_inv h im \<Longrightarrow> om_find (im_channelMap im) (s, d) = Some c \<Longrightarrow>
     ch_source c = s \<and> ch_dest c = d \<and>
     (om_find (im_sourceMap im) s \<noteq> None \<or> om_find (im_sandboxNodes im) s \<noteq> None) \<and>
     (om_find (im_destinationMap im) d \<noteq> None \<or> om_find (im_sandboxNodes im) d \<noteq> None)"
  unfolding chan_inv_def by blast

lemma chan_inv_queue:
  "chan_inv h im \<Longrightarrow> om_find (im_workers im) k = Some w \<Longrightarrow> x \<in> set (wc_queue w) \<Longrightarrow> sig_iq x \<noteq> None"
  unfolding chan_inv_def by blast

lemma chan_invI:
  assumes "om_wf (im_sourceMap im)" and "om_wf (im_destinationMap im)" and "om_wf (im_channelMap im)"
    and "\<And>k r. om_find (im_sourceMap im) k = Some r \<Longrightarrow> r < hp_next h \<and> rcv_NodeId (hp_rx h r) = k"
    and "\<And>k t. om_find (im_destinationMap im) k = Some t \<Longrightarrow>
      t < hp_next h \<and> tr_NodeId (hp_tx h t) = k \<and> nc_id (tr_node_config (hp_tx h t)) = k"
    and "\<And>s d c. om_find (im_channelMap im) (s, d) = Some c \<Longrightarrow>
      ch_source c = s \<and> ch_dest c = d \<and>
      (om_find (im_sourceMap im) s \<noteq> None \<or> om_find (im_sandboxNodes im) s \<noteq> None) \<and>
      (om_find (im_destinationMap im) d \<noteq> None \<or> om_find (im_sandboxNodes im) d \<noteq> None)"
    and "\<And>k w x. om_find (im_workers im) k = Some w \<Longrightarrow> x \<in> set (wc_queue w) \<Longrightarrow> sig_iq x \<noteq> None"
  shows "chan_inv h im"
  unfolding chan_inv_def using assms by blast

lemma chan_inv_heap:
  assumes i: "chan_inv h im" and h: "heap_ids h h'"
  shows "chan_inv h' im"
proof (rule chan_invI)
  show "r < hp_next h' \<and> rcv_NodeId (hp_rx h' r) = k" if "om_find (im_sourceMap im) k = Some r" for k r
    using chan_inv_src [OF i that] h by (auto simp: heap_ids_def)
  show "t < hp_next h' \<and> tr_NodeId (hp_tx h' t) = k \<and> nc_id (tr_node_config (hp_tx h' t)) = k"
    if "om_find (im_destinationMap im) k = Some t" for k t
    using chan_inv_dest [OF i that] h by (auto simp: heap_ids_def)
qed (use chan_inv_wf [OF i] chan_inv_link [OF i] chan_inv_queue [OF i] in blast)+

lemma chan_inv_new: "chan_inv h (apply_defaults pd (Intermediate_new f ms))"
  by (simp add: apply_defaults_def chan_inv_def Intermediate_new_def updatePathLoss_def setPathLossMode_def
      for_channels_def set3gppScenario_def om_map_values_def om_find_def Let_def split: option.split)

text \<open>The links of an updated channel map have both ends attached.\<close>

lemma wanted_links_ends:
  assumes "(s, d, x) \<in> set (wanted_links h im)"
    and "\<And>k r. (k, r) \<in> set (im_sourceMap im) \<Longrightarrow> rcv_NodeId (hp_rx h r) = k"
    and "\<And>k t. (k, t) \<in> set (im_destinationMap im) \<Longrightarrow> tr_NodeId (hp_tx h t) = k"
  shows "(s \<in> set (om_keys (im_sourceMap im)) \<or> s \<in> set (om_keys (im_sandboxNodes im))) \<and>
    (d \<in> set (om_keys (im_destinationMap im)) \<or> d \<in> set (om_keys (im_sandboxNodes im)))"
proof -
  have src: "rcv_NodeId (hp_rx h (snd p)) \<in> set (om_keys (im_sourceMap im))" if "p \<in> set (im_sourceMap im)" for p
    using that assms(2) [of "fst p" "snd p"] by (force simp: om_keys_def)
  have dst: "tr_NodeId (hp_tx h (snd p)) \<in> set (om_keys (im_destinationMap im))" if "p \<in> set (im_destinationMap im)" for p
    using that assms(3) [of "fst p" "snd p"] by (force simp: om_keys_def)
  from assms(1) show ?thesis unfolding wanted_links_def Let_def using src dst by auto
qed

lemma updateChannelMap_attached:
  assumes f: "om_find (im_channelMap (updateChannelMap h im)) (s, d) = Some c"
    and wf: "om_wf (im_sourceMap im)" "om_wf (im_destinationMap im)"
    and ids: "\<And>k r. om_find (im_sourceMap im) k = Some r \<Longrightarrow> rcv_NodeId (hp_rx h r) = k"
      "\<And>k t. om_find (im_destinationMap im) k = Some t \<Longrightarrow> tr_NodeId (hp_tx h t) = k"
    and old: "om_find (im_channelMap im) (s, d) = Some c \<Longrightarrow> P"
    and new: "ch_source c = s \<Longrightarrow> ch_dest c = d \<Longrightarrow>
      om_find (im_sourceMap im) s \<noteq> None \<or> om_find (im_sandboxNodes im) s \<noteq> None \<Longrightarrow>
      om_find (im_destinationMap im) d \<noteq> None \<or> om_find (im_sandboxNodes im) d \<noteq> None \<Longrightarrow> P"
  shows P
proof (cases "om_find (im_channelMap im) (s, d)")
  case None
  then obtain x where x: "List.find (\<lambda>(s', d', _). (s', d') = (s, d)) (wanted_links h im) = Some x"
    and c: "c = (case x of (s, d, dn, sn) \<Rightarrow> new_link s d dn sn im)"
    using f by (auto simp: updateChannelMap_find)
  have "(\<lambda>(s', d', _). (s', d') = (s, d)) x" "x \<in> set (wanted_links h im)"
    using x by (metis (mono_tags, lifting) find_Some_iff nth_mem)+
  then obtain y where "(s, d, y) \<in> set (wanted_links h im)" "ch_source c = s" "ch_dest c = d"
    using c by (cases x) auto
  then show ?thesis using wanted_links_ends [of s d y h im] ids new om_items_find [OF wf(1)] om_items_find [OF wf(2)]
    by (simp add: om_keys_iff)
next
  case (Some c')
  then show ?thesis using f old by (simp add: updateChannelMap_find)
qed

section \<open>Channel operations\<close>

lemma heap_ids_on_rx: "(\<And>x. rcv_NodeId (f x) = rcv_NodeId x) \<Longrightarrow> heap_ids h (h\<lparr>hp_rx := (hp_rx h)(r := f (hp_rx h r))\<rparr>)"
  by (simp add: heap_ids_def)

lemma heap_ids_on_tx:
  "(\<And>x. tr_NodeId (f x) = tr_NodeId x \<and> nc_id (tr_node_config (f x)) = nc_id (tr_node_config x)) \<Longrightarrow>
     heap_ids h (h\<lparr>hp_tx := (hp_tx h)(t := f (hp_tx h t))\<rparr>)"
  by (simp add: heap_ids_def)

lemma bumpVersion_fields [simp]:
  "im_sourceMap (bumpVersion im) = im_sourceMap im" "im_destinationMap (bumpVersion im) = im_destinationMap im"
  "im_channelMap (bumpVersion im) = im_channelMap im" "im_workers (bumpVersion im) = im_workers im"
  "im_sandboxNodes (bumpVersion im) = im_sandboxNodes im" "im_freq (bumpVersion im) = im_freq im"
  by (simp_all add: bumpVersion_def)

lemma removeChannel_fields [simp]:
  "im_sourceMap (removeChannel i im) = im_sourceMap im" "im_destinationMap (removeChannel i im) = im_destinationMap im"
  "im_workers (removeChannel i im) = im_workers im" "im_sandboxNodes (removeChannel i im) = im_sandboxNodes im"
  "im_freq (removeChannel i im) = im_freq im"
  by (simp_all add: removeChannel_def)

lemma more_fields [simp]:
  "im_sandboxNodes (EmptyChannelChecker im) = im_sandboxNodes im" "im_freq (EmptyChannelChecker im) = im_freq im"
  "im_freq (updateChannelMap h im) = im_freq im"
  by (simp_all add: EmptyChannelChecker_def) (subst updateChannelMap_frame, simp)

text \<open>Only the maps, the queues and the sandbox nodes matter.\<close>

lemma chan_inv_cong:
  assumes "chan_inv h im" and "im_sourceMap im' = im_sourceMap im" and "im_destinationMap im' = im_destinationMap im"
    and "im_channelMap im' = im_channelMap im" and "im_workers im' = im_workers im" and "im_sandboxNodes im' = im_sandboxNodes im"
  shows "chan_inv h im'"
  using assms unfolding chan_inv_def by presburger

lemma chan_inv_update:
  assumes "chan_inv h im"
  shows "chan_inv h (bumpVersion (updateChannelMap h im))"
proof (rule chan_invI, unfold bumpVersion_fields updateChannelMap_fields)
  show "om_wf (im_channelMap (updateChannelMap h im))" using assms by (simp add: updateChannelMap_wf chan_inv_wf)
  show "ch_source c = s \<and> ch_dest c = d \<and>
      (om_find (im_sourceMap im) s \<noteq> None \<or> om_find (im_sandboxNodes im) s \<noteq> None) \<and>
      (om_find (im_destinationMap im) d \<noteq> None \<or> om_find (im_sandboxNodes im) d \<noteq> None)"
    if "om_find (im_channelMap (updateChannelMap h im)) (s, d) = Some c" for s d c
    using that
  proof (rule updateChannelMap_attached)
  qed (use chan_inv_wf [OF assms] chan_inv_src [OF assms] chan_inv_dest [OF assms] chan_inv_link [OF assms] in blast)+
qed (use chan_inv_wf [OF assms] chan_inv_src [OF assms] chan_inv_dest [OF assms] chan_inv_queue [OF assms] in blast)+

lemma printStatus_ok:
  assumes "chan_inv h im" and "im_sandboxNodes im = []"
  shows "printStatus im = Some im"
proof -
  have "om_find (im_sourceMap im) (ch_source c) \<noteq> None \<and> om_find (im_destinationMap im) (ch_dest c) \<noteq> None"
    if "((s, d), c) \<in> set (im_channelMap im)" for s d c
  proof -
    have "om_find (im_channelMap im) (s, d) = Some c" using that om_items_find [OF chan_inv_wf(3) [OF assms(1)]] by simp
    from chan_inv_link [OF assms(1) this] show ?thesis by (simp add: assms(2) om_find_Nil)
  qed
  then show ?thesis by (auto simp: printStatus_def list_all_iff)
qed

lemma AttachDestination_chan:
  assumes i: "chan_inv h im" and t: "t < hp_next h" "nc_id (tr_node_config (hp_tx h t)) = tr_NodeId (hp_tx h t)"
  shows "AttachDestination h t im = Some im' \<Longrightarrow> chan_inv h im' \<and> im_freq im' = im_freq im \<and> im_sandboxNodes im' = im_sandboxNodes im \<and>
      om_find (im_destinationMap im') (tr_NodeId (hp_tx h t)) \<noteq> None"
    and "im_sandboxNodes im = [] \<Longrightarrow> AttachDestination h t im \<noteq> None"
proof -
  let ?i = "tr_NodeId (hp_tx h t)"
  define im0 where "im0 = im\<lparr>im_destinationMap := om_insert ?i t (im_destinationMap im), im_destCount := im_destCount im + 1\<rparr>"
  define im1 where "im1 = bumpVersion (updateChannelMap h im0)"
  have e: "AttachDestination h t im = (if om_find (im_destinationMap im) ?i = None then printStatus im1 else Some im)"
    by (simp add: AttachDestination_def t(2) im1_def im0_def Let_def)
  have f0: "om_find (im_destinationMap im0) k = (case om_find (im_destinationMap im) k of Some x \<Rightarrow> Some x | None \<Rightarrow> if k = ?i then Some t else None)" for k
    by (auto simp: im0_def om_find_insert split: option.split)
  have "chan_inv h im0"
  proof (rule chan_invI)
    show "x < hp_next h \<and> tr_NodeId (hp_tx h x) = k \<and> nc_id (tr_node_config (hp_tx h x)) = k"
      if "om_find (im_destinationMap im0) k = Some x" for k x
      using that t chan_inv_dest [OF i] by (auto simp: f0 split: option.splits if_splits)
    show "ch_source c = s \<and> ch_dest c = d \<and>
      (om_find (im_sourceMap im0) s \<noteq> None \<or> om_find (im_sandboxNodes im0) s \<noteq> None) \<and>
      (om_find (im_destinationMap im0) d \<noteq> None \<or> om_find (im_sandboxNodes im0) d \<noteq> None)"
      if "om_find (im_channelMap im0) (s, d) = Some c" for s d c
    proof -
      have "om_find (im_channelMap im) (s, d) = Some c" using that by (simp add: im0_def)
      from chan_inv_link [OF i this] show ?thesis by (auto simp: im0_def om_find_insert split: option.split)
    qed
  qed (use chan_inv_wf [OF i] chan_inv_src [OF i] chan_inv_queue [OF i] in \<open>simp_all add: im0_def om_wf_insert\<close>)
  then have i1: "chan_inv h im1" unfolding im1_def by (rule chan_inv_update)
  have s: "im_sandboxNodes im1 = im_sandboxNodes im" "im_freq im1 = im_freq im" by (simp_all add: im1_def im0_def)
  have d: "om_find (im_destinationMap im1) ?i \<noteq> None" using f0 [of ?i] by (simp add: im1_def split: option.splits)
  show "im_sandboxNodes im = [] \<Longrightarrow> AttachDestination h t im \<noteq> None" using printStatus_ok [OF i1] s by (simp add: e)
  show "AttachDestination h t im = Some im' \<Longrightarrow> chan_inv h im' \<and> im_freq im' = im_freq im \<and> im_sandboxNodes im' = im_sandboxNodes im \<and>
      om_find (im_destinationMap im') ?i \<noteq> None"
    using i i1 s d by (auto simp: e split: if_splits dest: printStatus_Some)
qed

lemma AttachSource_chan:
  assumes i: "chan_inv h im" and r: "r < hp_next h"
  shows "AttachSource h r im = Some (h', im') \<Longrightarrow> chan_inv h' im' \<and> heap_ids h h' \<and> im_freq im' = im_freq im \<and>
      im_sandboxNodes im' = im_sandboxNodes im \<and> om_find (im_sourceMap im') (rcv_NodeId (hp_rx h r)) \<noteq> None"
    and "im_sandboxNodes im = [] \<Longrightarrow> AttachSource h r im \<noteq> None"
proof -
  let ?i = "rcv_NodeId (hp_rx h r)"
  define h1 where "h1 = h\<lparr>hp_rx := (hp_rx h)(r := setAddQueFnc (Receiver_setAttachState True (hp_rx h r)))\<rparr>"
  define im0 where "im0 = im\<lparr>im_sourceMap := om_insert ?i r (im_sourceMap im),
     im_workers := om_set ?i (WorkerContext_new ?i (nc_id (rcv_node_config (hp_rx h r))) r) (im_workers im)\<rparr>"
  define im1 where "im1 = bumpVersion (updateChannelMap h1 im0)"
  have e: "AttachSource h r im = (if om_find (im_sourceMap im) ?i = None then map_option (Pair h1) (printStatus im1) else Some (h, im))"
    by (simp add: AttachSource_def im1_def im0_def h1_def Let_def)
  have h1: "heap_ids h h1" unfolding h1_def
    by (rule heap_ids_on_rx [of "\<lambda>x. setAddQueFnc (Receiver_setAttachState True x)"]) (simp add: setAddQueFnc_def Receiver_setAttachState_def)
  note i' = chan_inv_heap [OF i h1]
  have r1: "r < hp_next h1" "rcv_NodeId (hp_rx h1 r) = ?i"
    using r by (simp_all add: h1_def setAddQueFnc_def Receiver_setAttachState_def)
  have "chan_inv h1 im0"
  proof (rule chan_invI)
    show "x < hp_next h1 \<and> rcv_NodeId (hp_rx h1 x) = k" if "om_find (im_sourceMap im0) k = Some x" for k x
      using that r1 chan_inv_src [OF i'] by (auto simp: im0_def om_find_insert split: option.splits if_splits)
    show "ch_source c = s \<and> ch_dest c = d \<and>
      (om_find (im_sourceMap im0) s \<noteq> None \<or> om_find (im_sandboxNodes im0) s \<noteq> None) \<and>
      (om_find (im_destinationMap im0) d \<noteq> None \<or> om_find (im_sandboxNodes im0) d \<noteq> None)"
      if "om_find (im_channelMap im0) (s, d) = Some c" for s d c
    proof -
      have "om_find (im_channelMap im) (s, d) = Some c" using that by (simp add: im0_def)
      from chan_inv_link [OF i this] show ?thesis by (auto simp: im0_def om_find_insert split: option.split)
    qed
    show "sig_iq x \<noteq> None" if "om_find (im_workers im0) k = Some w" "x \<in> set (wc_queue w)" for k w x
      using that chan_inv_queue [OF i, of k w x] by (auto simp: im0_def om_find_set WorkerContext_new_def split: if_splits)
  qed (use chan_inv_wf [OF i] chan_inv_dest [OF i'] in \<open>simp_all add: im0_def om_wf_insert\<close>)
  then have i1: "chan_inv h1 im1" unfolding im1_def by (rule chan_inv_update)
  have s: "im_sandboxNodes im1 = im_sandboxNodes im" "im_freq im1 = im_freq im" by (simp_all add: im1_def im0_def)
  have d: "om_find (im_sourceMap im1) ?i \<noteq> None" by (simp add: im1_def im0_def om_find_insert split: option.split)
  show "im_sandboxNodes im = [] \<Longrightarrow> AttachSource h r im \<noteq> None" using printStatus_ok [OF i1] s by (simp add: e)
  show "AttachSource h r im = Some (h', im') \<Longrightarrow> chan_inv h' im' \<and> heap_ids h h' \<and> im_freq im' = im_freq im \<and>
      im_sandboxNodes im' = im_sandboxNodes im \<and> om_find (im_sourceMap im') ?i \<noteq> None"
    using i i1 s d h1 by (auto simp: e split: if_splits dest: printStatus_Some)
qed

text \<open>Removing a node from one of the maps together with its links.\<close>

lemma chan_inv_remove:
  assumes i: "chan_inv h im"
    and m: "im_sourceMap im' \<in> {im_sourceMap im, om_erase n (im_sourceMap im)}"
      "im_destinationMap im' \<in> {im_destinationMap im, om_erase n (im_destinationMap im)}"
      "im_workers im' \<in> {im_workers im, om_erase n (im_workers im)}"
      "im_channelMap im' = im_channelMap (removeChannel n im)"
      "im_sandboxNodes im' \<in> {im_sandboxNodes im, om_erase n (im_sandboxNodes im)}"
  shows "chan_inv h im'"
proof (rule chan_invI)
  show "om_wf (im_sourceMap im')" "om_wf (im_destinationMap im')" "om_wf (im_channelMap im')"
    using m chan_inv_wf [OF i] by (auto simp: om_wf_erase removeChannel_def om_wf_om_filter)
  show "r < hp_next h \<and> rcv_NodeId (hp_rx h r) = k" if "om_find (im_sourceMap im') k = Some r" for k r
    using that m(1) chan_inv_src [OF i] by (auto simp: om_find_erase split: if_splits)
  show "t < hp_next h \<and> tr_NodeId (hp_tx h t) = k \<and> nc_id (tr_node_config (hp_tx h t)) = k"
    if "om_find (im_destinationMap im') k = Some t" for k t
    using that m(2) chan_inv_dest [OF i] by (auto simp: om_find_erase split: if_splits)
  show "sig_iq x \<noteq> None" if "om_find (im_workers im') k = Some w" "x \<in> set (wc_queue w)" for k w x
    using that m(3) chan_inv_queue [OF i, of k w x] by (auto simp: om_find_erase split: if_splits)
  show "ch_source c = s \<and> ch_dest c = d \<and>
    (om_find (im_sourceMap im') s \<noteq> None \<or> om_find (im_sandboxNodes im') s \<noteq> None) \<and>
    (om_find (im_destinationMap im') d \<noteq> None \<or> om_find (im_sandboxNodes im') d \<noteq> None)"
    if f: "om_find (im_channelMap im') (s, d) = Some c" for s d c
  proof -
    have c: "om_find (im_channelMap im) (s, d) = Some c" "ch_source c \<noteq> n" "ch_dest c \<noteq> n"
      using f by (auto simp: m(4) removeChannel_find [OF chan_inv_wf(3) [OF i]] split: option.splits if_splits)
    then show ?thesis using chan_inv_link [OF i c(1)] m by (auto simp: om_find_erase)
  qed
qed

text \<open>What a channel is exactly after it lost a node in one or both roles: the node is erased from the maps of the
  roles, its worker goes with the role of a source, and its links, in both directions, with the first role it had. Beside
  these maps, the count of destinations, the version and (for a channel nobody is left on) the running flag, nothing is
  different.\<close>

definition im_rest :: "Intermediate \<Rightarrow> Intermediate" where
  "im_rest im = im\<lparr>im_work := True, im_sourceMap := [], im_destinationMap := [], im_destCount := 0, im_destVersion := 0,
     im_channelMap := [], im_workers := []\<rparr>"

definition without :: "string \<Rightarrow> bool \<Rightarrow> bool \<Rightarrow> Intermediate \<Rightarrow> Intermediate \<Rightarrow> bool" where
  "without k dest src im im' \<longleftrightarrow>
     im_rest im' = im_rest im \<and> (im_work im' = im_work im \<or> isEmpty im') \<and>
     (\<forall>i. om_find (im_destinationMap im') i = (if dest \<and> i = k then None else om_find (im_destinationMap im) i)) \<and>
     (\<forall>i. om_find (im_sourceMap im') i = (if src \<and> i = k then None else om_find (im_sourceMap im) i)) \<and>
     (\<forall>i. om_find (im_workers im') i =
        (if src \<and> om_find (im_sourceMap im) k \<noteq> None \<and> i = k then None else om_find (im_workers im) i)) \<and>
     (\<forall>a b. om_find (im_channelMap im') (a, b) =
        (if (dest \<and> om_find (im_destinationMap im) k \<noteq> None \<or> src \<and> om_find (im_sourceMap im) k \<noteq> None) \<and> (a = k \<or> b = k)
         then None else om_find (im_channelMap im) (a, b)))"

lemma without_refl: "without k False False im im"
  by (simp add: without_def)

lemma without_keeps: "without k d s im im' \<Longrightarrow> im_freq im' = im_freq im \<and> im_sandboxNodes im' = im_sandboxNodes im"
  by (auto simp: without_def im_rest_def dest: arg_cong [of _ _ im_freq] arg_cong [of _ _ im_sandboxNodes])

lemma om_empty_iff: "m = [] \<longleftrightarrow> (\<forall>i. om_find m i = None)"
  by (cases m) (auto simp: om_find_def)

lemma without_trans:
  assumes a: "without k d False im im1" and b: "without k False s im1 im2"
  shows "without k d s im im2"
proof -
  have "isEmpty im2" if "isEmpty im1"
    using that without_keeps [OF b] b unfolding isEmpty_def om_empty_iff without_def by simp
  then show ?thesis using a b unfolding without_def by auto
qed

lemma without_EmptyChannelChecker: "without k d s im im' \<Longrightarrow> without k d s im (EmptyChannelChecker im')"
proof -
  assume w: "without k d s im im'"
  have e: "im_rest (EmptyChannelChecker im') = im_rest im'" "im_work (EmptyChannelChecker im') = im_work im' \<or> isEmpty im'"
    "isEmpty (EmptyChannelChecker im') = isEmpty im'"
    by (simp_all add: EmptyChannelChecker_def im_rest_def isEmpty_def)
  show ?thesis using w e(2) unfolding without_def e(1,3) EmptyChannelChecker_fields by blast
qed

lemma removeChannel_ends:
  assumes "chan_inv h im"
  shows "om_find (om_filter (\<lambda>_ c. ch_source c \<noteq> n \<and> ch_dest c \<noteq> n) (im_channelMap im)) (a, b) =
    (if a = n \<or> b = n then None else om_find (im_channelMap im) (a, b))"
  using chan_inv_link [OF assms] chan_inv_wf(3) [OF assms] by (auto simp: om_find_filter split: option.split)

text \<open>The endpoints outside of a set are untouched.\<close>

definition heap_but :: "nat set \<Rightarrow> heap \<Rightarrow> heap \<Rightarrow> bool" where
  "heap_but A h h' \<longleftrightarrow> hp_next h' = hp_next h \<and> (\<forall>a. a \<notin> A \<longrightarrow> hp_rx h' a = hp_rx h a \<and> hp_tx h' a = hp_tx h a)"

lemma heap_but_refl [simp]: "heap_but A h h"
  by (simp add: heap_but_def)

lemma heap_but_trans: "heap_but A h h1 \<Longrightarrow> heap_but B h1 h2 \<Longrightarrow> heap_but (A \<union> B) h h2"
  by (simp add: heap_but_def)

lemma DetachDestination_chan:
  assumes i: "chan_inv h im" and e: "DetachDestination h t im = (b, h', im')"
  shows "chan_inv h' im' \<and> heap_ids h h' \<and> im_freq im' = im_freq im \<and> im_sandboxNodes im' = im_sandboxNodes im \<and>
    heap_but {t} h h' \<and> without (tr_NodeId (hp_tx h t)) True False im im'"
proof (cases "om_find (im_destinationMap im) (tr_NodeId (hp_tx h t)) = None")
  case True
  then show ?thesis using e i by (auto simp: DetachDestination_def Let_def without_def)
next
  case False
  let ?i = "tr_NodeId (hp_tx h t)"
  have h: "h' = h\<lparr>hp_tx := (hp_tx h)(t := Transmitter_setAttachState False (hp_tx h t))\<rparr>"
    and m: "im' = EmptyChannelChecker (bumpVersion ((removeChannel ?i im)\<lparr>im_destinationMap := om_erase ?i (im_destinationMap im),
        im_destCount := im_destCount (removeChannel ?i im) - 1\<rparr>))"
    using e False by (simp_all add: DetachDestination_def Let_def)
  have "heap_ids h h'" unfolding h by (rule heap_ids_on_tx) (simp add: Transmitter_setAttachState_def)
  moreover have "chan_inv h im'" by (rule chan_inv_remove [OF i, of _ ?i]) (simp_all add: m)
  moreover have "heap_but {t} h h'" by (simp add: h heap_but_def)
  moreover have "without ?i True False im im'"
    unfolding m by (rule without_EmptyChannelChecker)
      (use False removeChannel_ends [OF i] in \<open>auto simp: without_def om_find_erase im_rest_def bumpVersion_def removeChannel_def\<close>)
  ultimately show ?thesis using chan_inv_heap by (auto simp: m)
qed

lemma fold_pool_drop_ok:
  "\<forall>x \<in> set q. sig_iq x \<noteq> None \<Longrightarrow> hp_pools h \<noteq> [] \<Longrightarrow>
     \<exists>h'. fold_opt (pool_drop 0) q h = Some h' \<and> length (hp_pools h') = length (hp_pools h)"
proof (induction q arbitrary: h)
  case (Cons s q)
  obtain p where "drop_signal s (hp_pools h ! 0) = Inr p" using drop_signal_ok Cons.prems(1) by (metis list.set_intros(1))
  then have d: "pool_drop 0 s h = Some (h\<lparr>hp_pools := (hp_pools h)[0 := p]\<rparr>)"
    using Cons.prems(2) by (simp add: pool_drop_def)
  have "(hp_pools h)[0 := p] \<noteq> []" using Cons.prems(2) by simp
  with Cons.IH [of "h\<lparr>hp_pools := (hp_pools h)[0 := p]\<rparr>"] Cons.prems d show ?case by auto
qed simp

lemma DetachSource_chan:
  assumes i: "chan_inv h im" and p: "hp_pools h \<noteq> []"
  shows "\<exists>b h' im'. DetachSource h r im = Some (b, h', im') \<and> chan_inv h' im' \<and> heap_ids h h' \<and> im_freq im' = im_freq im \<and>
    im_sandboxNodes im' = im_sandboxNodes im \<and> heap_but {r} h h' \<and> without (rcv_NodeId (hp_rx h r)) False True im im'"
proof (cases "om_find (im_sourceMap im) (rcv_NodeId (hp_rx h r)) = None")
  case True
  then show ?thesis using i by (auto simp: DetachSource_def Let_def without_def)
next
  case False
  let ?i = "rcv_NodeId (hp_rx h r)"
  define h1 where "h1 = h\<lparr>hp_rx := (hp_rx h)(r := setAddQueFnc (Receiver_setAttachState False (hp_rx h r)))\<rparr>"
  define q where "q = (case om_find (im_workers im) ?i of None \<Rightarrow> [] | Some w \<Rightarrow> wc_queue w)"
  have h1: "heap_ids h h1" unfolding h1_def
    by (rule heap_ids_on_rx [of "\<lambda>x. setAddQueFnc (Receiver_setAttachState False x)"]) (simp add: setAddQueFnc_def Receiver_setAttachState_def)
  have "\<forall>x \<in> set q. sig_iq x \<noteq> None" using chan_inv_queue [OF i] by (cases "om_find (im_workers im) ?i") (simp_all add: q_def)
  then obtain h2 where h2: "fold_opt (pool_drop 0) q h1 = Some h2" "length (hp_pools h2) = length (hp_pools h1)"
    using fold_pool_drop_ok [of q h1] p by (auto simp: h1_def)
  have ids: "heap_ids h h2"
    using h1 h2(2) fold_pool_drop_frame [OF h2(1)] by (simp add: heap_ids_def)
  define im2 where "im2 = EmptyChannelChecker ((bumpVersion (removeChannel ?i (im\<lparr>im_workers := om_erase ?i (im_workers im)\<rparr>)))\<lparr>
     im_sourceMap := om_erase ?i (im_sourceMap im)\<rparr>)"
  have "DetachSource h r im = Some (True, h2, im2)"
    using False h2(1) by (auto simp: DetachSource_def Let_def h1_def [symmetric] im2_def q_def split: option.splits)
  moreover have "chan_inv h im2" by (rule chan_inv_remove [OF i, of _ ?i]) (simp_all add: im2_def removeChannel_def)
  moreover have "heap_but {r} h h2" using fold_pool_drop_frame [OF h2(1)] by (simp add: heap_but_def h1_def)
  moreover have "without ?i False True im im2"
    unfolding im2_def by (rule without_EmptyChannelChecker)
      (use False removeChannel_ends [OF i] in \<open>auto simp: without_def om_find_erase im_rest_def bumpVersion_def removeChannel_def\<close>)
  ultimately show ?thesis using ids chan_inv_heap by (auto simp: im2_def)
qed

lemma sandbox_chan:
  assumes i: "chan_inv h im"
  shows "chan_inv h (addSandboxNode h n k im) \<and> im_freq (addSandboxNode h n k im) = im_freq im"
    and "chan_inv h (removeSandboxNode n im) \<and> im_freq (removeSandboxNode n im) = im_freq im"
proof -
  define im0 where "im0 = im\<lparr>im_sandboxNodes := om_insert n () (im_sandboxNodes im), im_sandboxNumChannels := om_set n k (im_sandboxNumChannels im)\<rparr>"
  have "chan_inv h im0"
  proof (rule chan_invI)
    show "ch_source c = s \<and> ch_dest c = d \<and>
      (om_find (im_sourceMap im0) s \<noteq> None \<or> om_find (im_sandboxNodes im0) s \<noteq> None) \<and>
      (om_find (im_destinationMap im0) d \<noteq> None \<or> om_find (im_sandboxNodes im0) d \<noteq> None)"
      if "om_find (im_channelMap im0) (s, d) = Some c" for s d c
    proof -
      have "om_find (im_channelMap im) (s, d) = Some c" using that by (simp add: im0_def)
      from chan_inv_link [OF i this] show ?thesis by (auto simp: im0_def om_find_insert split: option.split)
    qed
  qed (use chan_inv_wf [OF i] chan_inv_src [OF i] chan_inv_dest [OF i] chan_inv_queue [OF i] in \<open>simp_all add: im0_def\<close>)
  from chan_inv_update [OF this] show "chan_inv h (addSandboxNode h n k im) \<and> im_freq (addSandboxNode h n k im) = im_freq im"
    by (simp add: addSandboxNode_def im0_def)
  have "chan_inv h (removeSandboxNode n im)"
    by (rule chan_inv_remove [OF i, of _ n]) (simp_all add: removeSandboxNode_def removeChannel_def)
  then show "chan_inv h (removeSandboxNode n im) \<and> im_freq (removeSandboxNode n im) = im_freq im"
    by (simp add: removeSandboxNode_def)
qed

section \<open>Sound controllers\<close>

definition node_ok :: "heap \<Rightarrow> string \<Rightarrow> Node \<Rightarrow> bool" where
  "node_ok h i n \<longleftrightarrow> nc_id (nd_config n) = i \<and>
     (\<forall>r. nd_receiver n = Some r \<longrightarrow> r < hp_next h \<and> rcv_NodeId (hp_rx h r) = i) \<and>
     (\<forall>t. nd_transmitter n = Some t \<longrightarrow>
        t < hp_next h \<and> tr_NodeId (hp_tx h t) = i \<and> nc_id (tr_node_config (hp_tx h t)) = i)"

text \<open>The set is the ids of the connected nodes.\<close>

definition ct_inv :: "string set \<Rightarrow> Controller \<Rightarrow> bool" where
  "ct_inv D c \<longleftrightarrow>
     om_wf (ct_nodeMap c) \<and> om_wf (ct_intermediateMap c) \<and> hp_pools (ct_heap c) \<noteq> [] \<and>
     (\<forall>k. om_find (ct_nodeMap c) k \<noteq> None \<longleftrightarrow> k \<in> D) \<and>
     (\<forall>i n. om_find (ct_nodeMap c) i = Some n \<longrightarrow> node_ok (ct_heap c) i n) \<and>
     (\<forall>f im. om_find (ct_intermediateMap c) f = Some im \<longrightarrow> im_freq im = f \<and> chan_inv (ct_heap c) im)"

definition no_sandbox :: "Controller \<Rightarrow> bool" where
  "no_sandbox c \<longleftrightarrow> (\<forall>f im. om_find (ct_intermediateMap c) f = Some im \<longrightarrow> im_sandboxNodes im = [])"

text \<open>The result of a handler: the state is sound in any case, and without sandbox nodes it did not crash.\<close>

definition sound :: "bool \<Rightarrow> string set \<Rightarrow> 'a ct_result \<Rightarrow> bool" where
  "sound b D r \<longleftrightarrow> ct_inv D (snd r) \<and> (b \<longrightarrow> no_sandbox (snd r) \<and> fst r \<noteq> Inl Crash)"

lemma sound_then:
  assumes "sound b D r" and "\<And>x c. r = (Inr x, c) \<Longrightarrow> ct_inv D c \<Longrightarrow> (b \<Longrightarrow> no_sandbox c) \<Longrightarrow> sound b D' (f x c)"
    and "\<And>e c. r = (Inl e, c) \<Longrightarrow> D' = D"
  shows "sound b D' (ct_then r f)"
proof -
  obtain x c where r: "r = (x, c)" by fastforce
  show ?thesis
  proof (cases x)
    case (Inl e)
    then show ?thesis using assms(1,3) by (auto simp: r sound_def)
  next
    case (Inr y)
    then show ?thesis using assms(1) assms(2) [of y c] by (simp add: r sound_def)
  qed
qed

lemma sound_ret: "ct_inv D c \<Longrightarrow> (b \<Longrightarrow> no_sandbox c) \<Longrightarrow> sound b D (Inr x, c)"
  by (simp add: sound_def)

lemma sound_throw: "ct_inv D c \<Longrightarrow> (b \<Longrightarrow> no_sandbox c) \<Longrightarrow> sound b D (Inl (Thrown e), c)"
  by (simp add: sound_def)

lemma sound_lift: "ct_inv D c \<Longrightarrow> (b \<Longrightarrow> no_sandbox c) \<Longrightarrow> sound b D (ct_lift x c)"
  by (cases x) (simp_all add: sound_def)

lemma sound_crash: "ct_inv D c \<Longrightarrow> (b \<Longrightarrow> no_sandbox c) \<Longrightarrow> (b \<Longrightarrow> x \<noteq> None) \<Longrightarrow> sound b D (ct_crash x c)"
  by (cases x) (auto simp: sound_def)

lemma ct_inv_wf: "ct_inv D c \<Longrightarrow> om_wf (ct_nodeMap c)" "ct_inv D c \<Longrightarrow> om_wf (ct_intermediateMap c)"
  "ct_inv D c \<Longrightarrow> hp_pools (ct_heap c) \<noteq> []"
  by (simp_all add: ct_inv_def)

lemma ct_inv_node: "ct_inv D c \<Longrightarrow> om_find (ct_nodeMap c) i = Some n \<Longrightarrow> node_ok (ct_heap c) i n"
  by (simp add: ct_inv_def)

lemma ct_inv_dom: "ct_inv D c \<Longrightarrow> om_find (ct_nodeMap c) i \<noteq> None \<longleftrightarrow> i \<in> D"
  by (simp add: ct_inv_def)

lemma ct_inv_chan: "ct_inv D c \<Longrightarrow> om_find (ct_intermediateMap c) f = Some im \<Longrightarrow> im_freq im = f \<and> chan_inv (ct_heap c) im"
  by (simp add: ct_inv_def)

lemma ct_invI:
  assumes "om_wf (ct_nodeMap c)" and "om_wf (ct_intermediateMap c)" and "hp_pools (ct_heap c) \<noteq> []"
    and "\<And>k. om_find (ct_nodeMap c) k \<noteq> None \<longleftrightarrow> k \<in> D"
    and "\<And>i n. om_find (ct_nodeMap c) i = Some n \<Longrightarrow> node_ok (ct_heap c) i n"
    and "\<And>f im. om_find (ct_intermediateMap c) f = Some im \<Longrightarrow> im_freq im = f \<and> chan_inv (ct_heap c) im"
  shows "ct_inv D c"
  unfolding ct_inv_def using assms by blast

lemma ct_inv_cong:
  "ct_inv D c \<Longrightarrow> ct_nodeMap c' = ct_nodeMap c \<Longrightarrow> ct_intermediateMap c' = ct_intermediateMap c \<Longrightarrow> ct_heap c' = ct_heap c \<Longrightarrow>
     ct_inv D c'"
  unfolding ct_inv_def by presburger

lemma no_sandbox_cong: "no_sandbox c \<Longrightarrow> ct_intermediateMap c' = ct_intermediateMap c \<Longrightarrow> no_sandbox c'"
  by (simp add: no_sandbox_def)

lemma node_ok_heap: "node_ok h i n \<Longrightarrow> heap_ids h h' \<Longrightarrow> node_ok h' i n"
  by (auto simp: node_ok_def heap_ids_def)

lemma ct_inv_heap:
  assumes "ct_inv D c" and "heap_ids (ct_heap c) h'"
  shows "ct_inv D (c\<lparr>ct_heap := h'\<rparr>)"
proof (rule ct_invI)
  have "length (hp_pools h') = length (hp_pools (ct_heap c))" using assms(2) by (simp add: heap_ids_def)
  then show "hp_pools (ct_heap (c\<lparr>ct_heap := h'\<rparr>)) \<noteq> []" using ct_inv_wf(3) [OF assms(1)] by auto
qed (use ct_inv_wf [OF assms(1)] ct_inv_dom [OF assms(1)] ct_inv_node [OF assms(1)] ct_inv_chan [OF assms(1)]
    node_ok_heap [OF _ assms(2)] chan_inv_heap [OF _ assms(2)] in auto)

lemma ct_inv_on_node:
  assumes "ct_inv D c" and "\<And>n. om_find (ct_nodeMap c) i = Some n \<Longrightarrow> node_ok (ct_heap c) i (f n)"
  shows "ct_inv D (on_node i f c)"
proof (rule ct_invI)
  show "om_wf (ct_nodeMap (on_node i f c))"
    using ct_inv_wf [OF assms(1)] by (simp add: on_node_def om_wf_set split: option.split)
qed (use ct_inv_wf [OF assms(1)] ct_inv_dom [OF assms(1)] ct_inv_node [OF assms(1)] ct_inv_chan [OF assms(1)] assms(2)
    in \<open>auto split: if_splits\<close>)

lemma ct_inv_on_config:
  assumes "ct_inv D c" and "\<And>m. nc_id (f m) = nc_id m"
  shows "ct_inv D (on_config i f c)"
  unfolding on_config_def
  by (rule ct_inv_on_node [OF assms(1)]) (use ct_inv_node [OF assms(1)] assms(2) in \<open>auto simp: node_ok_def\<close>)

lemma on_config_frame [simp]:
  "ct_intermediateMap (on_config i f c) = ct_intermediateMap c" "ct_heap (on_config i f c) = ct_heap c"
  by (simp_all add: on_config_def)

lemma sound_channel:
  assumes i: "ct_inv D c" "b \<Longrightarrow> no_sandbox c"
    and f: "\<And>im h' im'. om_find (ct_intermediateMap c) freq = Some im \<Longrightarrow> chan_inv (ct_heap c) im \<Longrightarrow> f (ct_heap c) im = Some (h', im') \<Longrightarrow>
      chan_inv h' im' \<and> heap_ids (ct_heap c) h' \<and> im_freq im' = im_freq im \<and> (b \<longrightarrow> im_sandboxNodes im' = [])"
    and e: "b \<Longrightarrow> om_find (ct_intermediateMap c) freq \<noteq> None"
      "\<And>im. b \<Longrightarrow> om_find (ct_intermediateMap c) freq = Some im \<Longrightarrow> chan_inv (ct_heap c) im \<Longrightarrow> f (ct_heap c) im \<noteq> None"
  shows "sound b D (on_channel_at freq f c)"
proof (cases "om_find (ct_intermediateMap c) freq")
  case None
  then show ?thesis using i e(1) by (auto simp: on_channel_at_def sound_def)
next
  case (Some im)
  note I = ct_inv_chan [OF i(1) Some]
  show ?thesis
  proof (cases "f (ct_heap c) im")
    case None
    then show ?thesis using i e(2) [OF _ Some] I Some by (auto simp: on_channel_at_def sound_def)
  next
    case (Some x)
    obtain h' im' where x: "x = (h', im')" by fastforce
    note F = f [OF \<open>om_find (ct_intermediateMap c) freq = Some im\<close> _ Some [unfolded x]]
    let ?c = "c\<lparr>ct_heap := h', ct_intermediateMap := om_set freq im' (ct_intermediateMap c)\<rparr>"
    have h: "ct_inv D (c\<lparr>ct_heap := h'\<rparr>)" using ct_inv_heap [OF i(1)] F I by blast
    have "ct_inv D ?c"
    proof (rule ct_invI)
    qed (use ct_inv_wf [OF h] ct_inv_dom [OF h] ct_inv_node [OF h] ct_inv_chan [OF h] F I in
        \<open>auto simp: om_wf_set om_find_set split: if_splits\<close>)
    moreover have "no_sandbox ?c" if b using i(2) [OF that] F I that by (auto simp: no_sandbox_def om_find_set)
    moreover have "on_channel_at freq f c = (Inr (), ?c)"
      using \<open>om_find (ct_intermediateMap c) freq = Some im\<close> Some x by (simp add: on_channel_at_def)
    ultimately show ?thesis by (simp add: sound_def)
  qed
qed

section \<open>Handlers\<close>

lemma CreateChannel_inv:
  assumes "ct_inv D c"
  shows "ct_inv D (CreateChannel f s c)" and "no_sandbox c \<Longrightarrow> no_sandbox (CreateChannel f s c)"
proof -
  define new where "new = apply_defaults (ct_propagationDefaults c) (Intermediate_new f 10)"
  have n: "im_freq new = f" "im_sandboxNodes new = []" "chan_inv (ct_heap c) new"
    by (simp_all add: new_def chan_inv_new) (simp_all add: apply_defaults_def Intermediate_new_def updatePathLoss_def setPathLossMode_def
        for_channels_def set3gppScenario_def Let_def split: option.split)
  have m: "ct_intermediateMap (CreateChannel f s c) =
      (if FindChannel f c then ct_intermediateMap c else om_insert f new (ct_intermediateMap c))"
    by (simp add: CreateChannel_def Let_def db_exec_def new_def)
  show "ct_inv D (CreateChannel f s c)"
  proof (rule ct_invI)
    show "om_wf (ct_intermediateMap (CreateChannel f s c))" using ct_inv_wf [OF assms] by (simp add: m om_wf_insert)
    show "im_freq im = g \<and> chan_inv (ct_heap (CreateChannel f s c)) im"
      if "om_find (ct_intermediateMap (CreateChannel f s c)) g = Some im" for g im
      using that ct_inv_chan [OF assms] n
      by (auto simp: m om_find_insert split: if_splits option.splits)
  qed (use ct_inv_wf [OF assms] ct_inv_dom [OF assms] ct_inv_node [OF assms] in auto)
  show "no_sandbox c \<Longrightarrow> no_sandbox (CreateChannel f s c)"
    using n by (auto simp: no_sandbox_def m om_find_insert split: if_splits option.splits)
qed

lemma smaller_channels:
  assumes "ct_inv D c" and "om_wf (ct_intermediateMap c')" and "ct_nodeMap c' = ct_nodeMap c" and "ct_heap c' = ct_heap c"
    and "\<And>f im. om_find (ct_intermediateMap c') f = Some im \<Longrightarrow> om_find (ct_intermediateMap c) f = Some im"
  shows "ct_inv D c'" and "no_sandbox c \<Longrightarrow> no_sandbox c'"
proof -
  show "ct_inv D c'"
  proof (rule ct_invI)
    show "im_freq im = f \<and> chan_inv (ct_heap c') im" if "om_find (ct_intermediateMap c') f = Some im" for f im
      using ct_inv_chan [OF assms(1) assms(5) [OF that]] by (simp add: assms(4))
  qed (use assms(2,3,4) ct_inv_wf [OF assms(1)] ct_inv_dom [OF assms(1)] ct_inv_node [OF assms(1)] in auto)
  show "no_sandbox c \<Longrightarrow> no_sandbox c'" using assms(5) by (auto simp: no_sandbox_def)
qed

lemma isChannelEmpty_inv:
  assumes "ct_inv D c"
  shows "ct_inv D (isChannelEmpty f c)" and "no_sandbox c \<Longrightarrow> no_sandbox (isChannelEmpty f c)"
  by (rule smaller_channels [OF assms]; use ct_inv_wf [OF assms] in
      \<open>auto simp: isChannelEmpty_def om_wf_erase om_find_erase split: option.splits if_splits\<close>)+

lemma remove_empty_find:
  assumes "ct_inv D c"
  shows "om_find (ct_intermediateMap (remove_empty c)) f =
    (case om_find (ct_intermediateMap c) f of Some im \<Rightarrow> if isEmpty im then None else Some im | None \<Rightarrow> None)"
  using ct_inv_wf(2) [OF assms] by (simp add: remove_empty_def Let_def om_find_filter split: option.split)

lemma remove_empty_inv:
  assumes "ct_inv D c"
  shows "ct_inv D (remove_empty c)" and "no_sandbox c \<Longrightarrow> no_sandbox (remove_empty c)"
  by (rule smaller_channels [OF assms]; use remove_empty_find [OF assms] ct_inv_wf [OF assms] in
      \<open>auto simp: remove_empty_def Let_def om_wf_om_filter split: option.splits if_splits\<close>)+

lemma fresh_heap: "heap_ids h (h\<lparr>hp_next := hp_next h + 1, hp_rx := (hp_rx h)(hp_next h := x)\<rparr>)"
  "heap_ids h (h\<lparr>hp_next := hp_next h + 1, hp_tx := (hp_tx h)(hp_next h := y)\<rparr>)"
  by (auto simp: heap_ids_def)

lemma AssignPort_inv:
  "ct_inv D c \<Longrightarrow> ct_inv D (snd (AssignTXPort c))" "ct_inv D c \<Longrightarrow> ct_inv D (snd (AssignRXPort c))"
  by (rule ct_inv_cong; simp)+

lemma CreateReceiver_sound:
  assumes i: "ct_inv D c" and b: "b \<Longrightarrow> no_sandbox c" and d: "i \<in> D"
  shows "sound b D (CreateReceiver env i c) \<and>
    (\<forall>r c'. CreateReceiver env i c = (Inr r, c') \<longrightarrow> r < hp_next (ct_heap c') \<and> rcv_NodeId (hp_rx (ct_heap c') r) = i)"
proof -
  let ?p = "fst (AssignTXPort c)" let ?c1 = "snd (AssignTXPort c)"
  define c2 where "c2 = on_config i (\<lambda>m. m\<lparr>nc_portTxNum := ?p\<rparr>) ?c1"
  have i2: "ct_inv D c2" unfolding c2_def by (rule ct_inv_on_config [OF AssignPort_inv(1) [OF i]]) simp
  have b2: "no_sandbox c2" if b using b [OF that] by (rule no_sandbox_cong) (simp add: c2_def)
  obtain n where n: "om_find (ct_nodeMap c2) i = Some n" using ct_inv_dom [OF i2, of i] d by auto
  have nid: "nc_id (nd_config n) = i" using ct_inv_node [OF i2 n] by (simp add: node_ok_def)
  have e: "CreateReceiver env i c =
    ct_then (ct_lift (Receiver_new (nd_config n) 0 (ce_udpPool env)) c2) (\<lambda>rx c4.
      let r = hp_next (ct_heap c4); c5 = c4\<lparr>ct_heap := (ct_heap c4)\<lparr>hp_next := r + 1\<rparr>\<rparr> in (Inr r, on_rx r (\<lambda>_. rx) c5))"
    using n by (simp add: CreateReceiver_def case_prod_beta Let_def c2_def [symmetric] node_config_Some)
  show ?thesis
  proof (cases "Receiver_new (nd_config n) 0 (ce_udpPool env)")
    case (Inl x)
    then show ?thesis using i2 b2 by (simp add: e sound_def)
  next
    case (Inr rx)
    then have rid: "rcv_NodeId rx = i" using nid by (auto simp: Receiver_new_def split: list.splits)
    let ?c = "c2\<lparr>ct_heap := (ct_heap c2)\<lparr>hp_next := hp_next (ct_heap c2) + 1, hp_rx := (hp_rx (ct_heap c2))(hp_next (ct_heap c2) := rx)\<rparr>\<rparr>"
    have "CreateReceiver env i c = (Inr (hp_next (ct_heap c2)), ?c)" by (simp add: e Inr Let_def on_rx_def)
    then show ?thesis using ct_inv_heap [OF i2 fresh_heap(1)] b2 rid by (auto simp: sound_def no_sandbox_def)
  qed
qed

lemma CreateTransmitter_sound:
  assumes i: "ct_inv D c" and b: "b \<Longrightarrow> no_sandbox c" and d: "i \<in> D"
  shows "sound b D (CreateTransmitter i c) \<and>
    (\<forall>t c'. CreateTransmitter i c = (Inr t, c') \<longrightarrow> t < hp_next (ct_heap c') \<and> tr_NodeId (hp_tx (ct_heap c') t) = i \<and>
       nc_id (tr_node_config (hp_tx (ct_heap c') t)) = i)"
proof -
  let ?p = "fst (AssignRXPort c)" let ?c1 = "snd (AssignRXPort c)"
  define c2 where "c2 = on_config i (\<lambda>m. m\<lparr>nc_portRxNum := ?p\<rparr>) ?c1"
  have i2: "ct_inv D c2" unfolding c2_def by (rule ct_inv_on_config [OF AssignPort_inv(2) [OF i]]) simp
  have b2: "no_sandbox c2" if b using b [OF that] by (rule no_sandbox_cong) (simp add: c2_def)
  obtain n where n: "om_find (ct_nodeMap c2) i = Some n" using ct_inv_dom [OF i2, of i] d by auto
  have nid: "nc_id (nd_config n) = i" using ct_inv_node [OF i2 n] by (simp add: node_ok_def)
  have e: "CreateTransmitter i c =
    ct_then (ct_lift (Transmitter_new (nd_config n)) c2) (\<lambda>tx c4.
      let t = hp_next (ct_heap c4); c5 = c4\<lparr>ct_heap := (ct_heap c4)\<lparr>hp_next := t + 1\<rparr>\<rparr> in (Inr t, on_tx t (\<lambda>_. tx) c5))"
    using n by (simp add: CreateTransmitter_def case_prod_beta Let_def c2_def [symmetric] node_config_Some)
  show ?thesis
  proof (cases "Transmitter_new (nd_config n)")
    case (Inl x)
    then show ?thesis using i2 b2 by (simp add: e sound_def)
  next
    case (Inr tx)
    then have tid: "tr_NodeId tx = i" "nc_id (tr_node_config tx) = i" using nid by (auto simp: Transmitter_new_def split: list.splits)
    let ?c = "c2\<lparr>ct_heap := (ct_heap c2)\<lparr>hp_next := hp_next (ct_heap c2) + 1, hp_tx := (hp_tx (ct_heap c2))(hp_next (ct_heap c2) := tx)\<rparr>\<rparr>"
    have "CreateTransmitter i c = (Inr (hp_next (ct_heap c2)), ?c)" by (simp add: e Inr Let_def on_tx_def)
    then show ?thesis using ct_inv_heap [OF i2 fresh_heap(2)] b2 tid by (auto simp: sound_def no_sandbox_def)
  qed
qed

lemma ct_inv_on_rx: "ct_inv D c \<Longrightarrow> (\<And>x. rcv_NodeId (f x) = rcv_NodeId x) \<Longrightarrow> ct_inv D (on_rx r f c)"
  unfolding on_rx_def by (rule ct_inv_heap) (simp_all add: heap_ids_on_rx)

lemma ct_inv_on_tx:
  "ct_inv D c \<Longrightarrow> (\<And>x. tr_NodeId (f x) = tr_NodeId x \<and> nc_id (tr_node_config (f x)) = nc_id (tr_node_config x)) \<Longrightarrow>
     ct_inv D (on_tx t f c)"
  unfolding on_tx_def by (rule ct_inv_heap) (simp_all add: heap_ids_on_tx)

lemma no_sandbox_frame [simp]:
  "no_sandbox (on_rx r f c) = no_sandbox c" "no_sandbox (on_tx t g c) = no_sandbox c"
  "no_sandbox (on_config i k c) = no_sandbox c" "no_sandbox (on_node i l c) = no_sandbox c"
  "no_sandbox (db_exec s c) = no_sandbox c"
  by (simp_all add: no_sandbox_def)

lemma ct_inv_db [simp]: "ct_inv D (db_exec s c) = ct_inv D c"
  by (simp add: ct_inv_def)

lemma on_rx_heap [simp]:
  "hp_next (ct_heap (on_rx r f c)) = hp_next (ct_heap c)" "hp_rx (ct_heap (on_rx r f c)) r = f (hp_rx (ct_heap c) r)"
  "hp_next (ct_heap (on_tx t g c)) = hp_next (ct_heap c)" "hp_tx (ct_heap (on_tx t g c)) t = g (hp_tx (ct_heap c) t)"
  by (simp_all add: on_rx_def on_tx_def)

definition rx_owned :: "string \<Rightarrow> nat \<Rightarrow> heap \<Rightarrow> bool" where
  "rx_owned i r h \<longleftrightarrow> r < hp_next h \<and> rcv_NodeId (hp_rx h r) = i"

definition tx_owned :: "string \<Rightarrow> nat \<Rightarrow> heap \<Rightarrow> bool" where
  "tx_owned i t h \<longleftrightarrow> t < hp_next h \<and> tr_NodeId (hp_tx h t) = i \<and> nc_id (tr_node_config (hp_tx h t)) = i"

lemma node_receiver_sound:
  assumes i: "ct_inv D c" and b: "b \<Longrightarrow> no_sandbox c" and d: "i \<in> D"
  shows "sound b D (node_receiver env i c)"
    and "node_receiver env i c = (Inr r, c') \<Longrightarrow> ce_sandbox env \<or> rx_owned i r (ct_heap c')"
proof -
  obtain n where n: "om_find (ct_nodeMap c) i = Some n" using ct_inv_dom [OF i, of i] d by auto
  define m where "m = (case nd_receiver n of
                   Some r \<Rightarrow> (Inr r, c)
                 | None \<Rightarrow> ct_then (CreateReceiver env i c) (\<lambda>r c2. (Inr r, on_node i (setReceiver (Some r)) c2)))"
  note C = CreateReceiver_sound [where b = b and env = env, OF i b d]
  have m: "sound b D m \<and> (\<forall>r c'. m = (Inr r, c') \<longrightarrow> rx_owned i r (ct_heap c'))"
  proof (cases "nd_receiver n")
    case (Some r)
    then show ?thesis using i b ct_inv_node [OF i n] by (simp add: m_def sound_def node_ok_def rx_owned_def)
  next
    case None
    have "sound b D m" unfolding m_def None option.case
    proof (rule sound_then)
      show "sound b D (CreateReceiver env i c)" using C by blast
      show "sound b D (Inr r, on_node i (setReceiver (Some r)) c2)"
        if "CreateReceiver env i c = (Inr r, c2)" "ct_inv D c2" "b \<Longrightarrow> no_sandbox c2" for r c2
        using that C ct_inv_node [OF that(2)] by (intro sound_ret ct_inv_on_node) (auto simp: node_ok_def setReceiver_def)
    qed simp
    moreover have "rx_owned i r (ct_heap c')" if "m = (Inr r, c')" for r c'
      using that C by (auto simp: m_def None ct_then_Inr rx_owned_def)
    ultimately show ?thesis by blast
  qed
  define g where "g nc = (\<lambda>rx :: Receiver. rx\<lparr>rcv_node_config := with_formats nc (rcv_node_config rx)\<rparr>)" for nc
  have e: "node_receiver env i c = (if ce_sandbox env then (Inr 0, c)
      else ct_then m (\<lambda>r c3. ct_then (ct_crash (node_config i c3) c3) (\<lambda>nc c4. (Inr r, on_rx r (g nc) c4))))"
    using n by (simp add: node_receiver_def m_def g_def)
  have "sound b D (ct_then m (\<lambda>r c3. ct_then (ct_crash (node_config i c3) c3) (\<lambda>nc c4. (Inr r, on_rx r (g nc) c4))))"
  proof (rule sound_then)
    show "sound b D (ct_then (ct_crash (node_config i c3) c3) (\<lambda>nc c4. (Inr r, on_rx r (g nc) c4)))"
      if "m = (Inr r, c3)" "ct_inv D c3" "b \<Longrightarrow> no_sandbox c3" for r c3
      using that ct_inv_dom [OF that(2), of i] d
      by (intro sound_then [OF sound_crash] sound_ret ct_inv_on_rx) (auto simp: node_config_def g_def)
  qed (use m in auto)
  then show "sound b D (node_receiver env i c)" using i b by (auto simp: e sound_ret)
  show "node_receiver env i c = (Inr r, c') \<Longrightarrow> ce_sandbox env \<or> rx_owned i r (ct_heap c')"
    using m by (auto simp: e ct_then_Inr ct_crash_def rx_owned_def g_def split: if_splits option.splits)
qed

lemma node_transmitter_sound:
  assumes i: "ct_inv D c" and b: "b \<Longrightarrow> no_sandbox c" and d: "i \<in> D"
  shows "sound b D (node_transmitter env i c)"
    and "node_transmitter env i c = (Inr t, c') \<Longrightarrow> ce_sandbox env \<or> tx_owned i t (ct_heap c')"
proof -
  obtain n where n: "om_find (ct_nodeMap c) i = Some n" using ct_inv_dom [OF i, of i] d by auto
  define m where "m = (case nd_transmitter n of
                   Some t \<Rightarrow> (Inr t, c)
                 | None \<Rightarrow> ct_then (CreateTransmitter i c) (\<lambda>t c2. (Inr t, on_node i (setTransmitter (Some t)) c2)))"
  note C = CreateTransmitter_sound [where b = b, OF i b d]
  have m: "sound b D m \<and> (\<forall>t c'. m = (Inr t, c') \<longrightarrow> tx_owned i t (ct_heap c'))"
  proof (cases "nd_transmitter n")
    case (Some t)
    then show ?thesis using i b ct_inv_node [OF i n] by (simp add: m_def sound_def node_ok_def tx_owned_def)
  next
    case None
    have "sound b D m" unfolding m_def None option.case
    proof (rule sound_then)
      show "sound b D (CreateTransmitter i c)" using C by blast
      show "sound b D (Inr t, on_node i (setTransmitter (Some t)) c2)"
        if "CreateTransmitter i c = (Inr t, c2)" "ct_inv D c2" "b \<Longrightarrow> no_sandbox c2" for t c2
        using that C ct_inv_node [OF that(2)] by (intro sound_ret ct_inv_on_node) (auto simp: node_ok_def setTransmitter_def)
    qed simp
    moreover have "tx_owned i t (ct_heap c')" if "m = (Inr t, c')" for t c'
      using that C by (auto simp: m_def None ct_then_Inr tx_owned_def)
    ultimately show ?thesis by blast
  qed
  define g where "g nc = (\<lambda>tx :: Transmitter. tx\<lparr>tr_node_config := with_formats nc (tr_node_config tx)\<rparr>)" for nc
  have e: "node_transmitter env i c = (if ce_sandbox env then (Inr 0, c)
      else ct_then m (\<lambda>t c3. ct_then (ct_crash (node_config i c3) c3) (\<lambda>nc c4. (Inr t, on_tx t (g nc) c4))))"
    using n by (simp add: node_transmitter_def m_def g_def)
  have "sound b D (ct_then m (\<lambda>t c3. ct_then (ct_crash (node_config i c3) c3) (\<lambda>nc c4. (Inr t, on_tx t (g nc) c4))))"
  proof (rule sound_then)
    show "sound b D (ct_then (ct_crash (node_config i c3) c3) (\<lambda>nc c4. (Inr t, on_tx t (g nc) c4)))"
      if "m = (Inr t, c3)" "ct_inv D c3" "b \<Longrightarrow> no_sandbox c3" for t c3
      using that ct_inv_dom [OF that(2), of i] d
      by (intro sound_then [OF sound_crash] sound_ret ct_inv_on_tx) (auto simp: node_config_def g_def with_formats_def)
  qed (use m in auto)
  then show "sound b D (node_transmitter env i c)" using i b by (auto simp: e sound_ret)
  show "node_transmitter env i c = (Inr t, c') \<Longrightarrow> ce_sandbox env \<or> tx_owned i t (ct_heap c')"
    using m by (auto simp: e ct_then_Inr ct_crash_def tx_owned_def g_def with_formats_def split: if_splits option.splits)
qed

lemma on_channel_at_keeps:
  assumes e: "on_channel_at freq f c = (Inr (), c')"
    and h: "\<And>im h' im'. om_find (ct_intermediateMap c) freq = Some im \<Longrightarrow> f (ct_heap c) im = Some (h', im') \<Longrightarrow> heap_ids (ct_heap c) h'"
  shows "heap_ids (ct_heap c) (ct_heap c') \<and> ct_nodeMap c' = ct_nodeMap c \<and>
    (\<forall>g. om_find (ct_intermediateMap c') g = None \<longleftrightarrow> om_find (ct_intermediateMap c) g = None)"
proof -
  obtain im h' im' where "om_find (ct_intermediateMap c) freq = Some im" "f (ct_heap c) im = Some (h', im')"
    "c' = c\<lparr>ct_heap := h', ct_intermediateMap := om_set freq im' (ct_intermediateMap c)\<rparr>"
    using e by (auto simp: on_channel_at_def ct_then_Inr ct_crash_def split: option.splits)
  then show ?thesis using h by (simp add: om_find_set)
qed

lemma isChannelEmpty_keeps:
  assumes "ct_inv D c"
  shows "g \<noteq> f \<Longrightarrow> om_find (ct_intermediateMap (isChannelEmpty f c)) g = om_find (ct_intermediateMap c) g"
    and "ct_heap (isChannelEmpty f c) = ct_heap c" and "ct_nodeMap (isChannelEmpty f c) = ct_nodeMap c"
  using ct_inv_chan [OF assms] by (auto simp: isChannelEmpty_def om_find_erase db_exec_def split: option.splits)

text \<open>The contract of an endpoint, which the uplink and the downlink of a node share: who owns it, what
  releasing and attaching it does to a sound channel.\<close>

locale channel_endpoint =
  fixes release :: "ct_env \<Rightarrow> string \<Rightarrow> nat \<Rightarrow> heap \<Rightarrow> Intermediate \<Rightarrow> (heap \<times> Intermediate) option"
    and attach :: "ct_env \<Rightarrow> string \<Rightarrow> byte \<Rightarrow> nat \<Rightarrow> heap \<Rightarrow> Intermediate \<Rightarrow> (heap \<times> Intermediate) option"
    and owned :: "string \<Rightarrow> nat \<Rightarrow> heap \<Rightarrow> bool"
  assumes owned_heap: "owned i a h \<Longrightarrow> heap_ids h h' \<Longrightarrow> owned i a h'"
    and release_chan: "chan_inv h im \<Longrightarrow> hp_pools h \<noteq> [] \<Longrightarrow>
      \<exists>h' im'. release env i a h im = Some (h', im') \<and> chan_inv h' im' \<and> heap_ids h h' \<and> im_freq im' = im_freq im \<and>
        (\<not> ce_sandbox env \<longrightarrow> im_sandboxNodes im' = im_sandboxNodes im)"
    and attach_chan: "chan_inv h im \<Longrightarrow> ce_sandbox env \<or> owned i a h \<Longrightarrow> attach env i k a h im = Some (h', im') \<Longrightarrow>
      chan_inv h' im' \<and> heap_ids h h' \<and> im_freq im' = im_freq im \<and> (\<not> ce_sandbox env \<longrightarrow> im_sandboxNodes im' = im_sandboxNodes im)"
    and attach_defined: "chan_inv h im \<Longrightarrow> owned i a h \<Longrightarrow> \<not> ce_sandbox env \<Longrightarrow> im_sandboxNodes im = [] \<Longrightarrow> attach env i k a h im \<noteq> None"
begin

lemma leave_sound:
  assumes i: "ct_inv D c" and b: "b \<Longrightarrow> no_sandbox c \<and> \<not> ce_sandbox env" and x: "b \<Longrightarrow> x \<Longrightarrow> om_find (ct_intermediateMap c) g \<noteq> None"
  shows "sound b D (leave_channel g (release env n a) x c)"
proof -
  have "sound b D (on_channel_at g (release env n a) c)" if x
    by (rule sound_channel [OF i])
      (use release_chan [OF _ ct_inv_wf(3) [OF i], of _ env n a] b x that in \<open>fastforce simp: no_sandbox_def\<close>)+
  then show ?thesis
    unfolding leave_channel_def using i b by (auto intro!: sound_then sound_ret isChannelEmpty_inv)
qed

lemma leave_keeps:
  assumes i: "ct_inv D c" and e: "leave_channel g (release env n a) x c = (Inr (), c')"
  shows "heap_ids (ct_heap c) (ct_heap c') \<and> ct_nodeMap c' = ct_nodeMap c \<and>
    (\<forall>k. k \<noteq> g \<or> \<not> x \<longrightarrow> om_find (ct_intermediateMap c') k = None \<longleftrightarrow> om_find (ct_intermediateMap c) k = None)"
proof (cases x)
  case True
  then obtain c1 where c1: "on_channel_at g (release env n a) c = (Inr (), c1)" "c' = isChannelEmpty g c1"
    using e by (auto simp: leave_channel_def ct_then_Inr)
  have s: "sound False D (on_channel_at g (release env n a) c)"
    by (rule sound_channel [OF i]) (use release_chan [OF _ ct_inv_wf(3) [OF i], of _ env n a] in fastforce)+
  then have i1: "ct_inv D c1" using c1(1) by (simp add: sound_def)
  have "heap_ids (ct_heap c) (ct_heap c1) \<and> ct_nodeMap c1 = ct_nodeMap c \<and>
    (\<forall>g. om_find (ct_intermediateMap c1) g = None \<longleftrightarrow> om_find (ct_intermediateMap c) g = None)"
    by (rule on_channel_at_keeps [OF c1(1)])
      (use release_chan [OF _ ct_inv_wf(3) [OF i], of _ env n a] ct_inv_chan [OF i] in fastforce)
  then show ?thesis using isChannelEmpty_keeps [OF i1] c1(2) True by simp
qed (use e in \<open>simp add: leave_channel_def\<close>)

lemma attach_sound:
  assumes i: "ct_inv D c" and b: "b \<Longrightarrow> no_sandbox c \<and> \<not> ce_sandbox env" and o: "ce_sandbox env \<or> owned n a (ct_heap c)"
    and x: "b \<Longrightarrow> om_find (ct_intermediateMap c) g \<noteq> None"
  shows "sound b D (on_channel_at g (attach env n k a) c)"
proof (rule sound_channel [OF i])
  show "chan_inv h' im' \<and> heap_ids (ct_heap c) h' \<and> im_freq im' = im_freq im \<and> (b \<longrightarrow> im_sandboxNodes im' = [])"
    if "om_find (ct_intermediateMap c) g = Some im" "chan_inv (ct_heap c) im" "attach env n k a (ct_heap c) im = Some (h', im')" for im h' im'
    using attach_chan [OF that(2) o that(3)] b that(1) by (auto simp: no_sandbox_def)
  show "attach env n k a (ct_heap c) im \<noteq> None"
    if b "om_find (ct_intermediateMap c) g = Some im" "chan_inv (ct_heap c) im" for im
    by (rule attach_defined [OF that(3)]) (use that b [OF that(1)] o in \<open>auto simp: no_sandbox_def\<close>)
qed (use b x in auto)

end

interpretation uplink: channel_endpoint release_src attach_src rx_owned
proof
  show "rx_owned i a h \<Longrightarrow> heap_ids h h' \<Longrightarrow> rx_owned i a h'" for i a h h' by (auto simp: rx_owned_def heap_ids_def)
  show "\<exists>h' im'. release_src env i a h im = Some (h', im') \<and> chan_inv h' im' \<and> heap_ids h h' \<and> im_freq im' = im_freq im \<and>
        (\<not> ce_sandbox env \<longrightarrow> im_sandboxNodes im' = im_sandboxNodes im)"
    if "chan_inv h im" "hp_pools h \<noteq> []" for h im env i a
    using DetachSource_chan [OF that, of a] sandbox_chan(2) [OF that(1)] by (auto simp: release_src_def)
  show "chan_inv h' im' \<and> heap_ids h h' \<and> im_freq im' = im_freq im \<and> (\<not> ce_sandbox env \<longrightarrow> im_sandboxNodes im' = im_sandboxNodes im)"
    if "chan_inv h im" "ce_sandbox env \<or> rx_owned i a h" "attach_src env i k a h im = Some (h', im')" for h im env i a k h' im'
    using that sandbox_chan(1) [OF that(1)] AttachSource_chan(1) [OF that(1), of a h' im'] by (auto simp: attach_src_def rx_owned_def split: if_splits)
  show "attach_src env i k a h im \<noteq> None"
    if "chan_inv h im" "rx_owned i a h" "\<not> ce_sandbox env" "im_sandboxNodes im = []" for h im env i a k
    using that AttachSource_chan(2) [OF that(1), of a] by (auto simp: attach_src_def rx_owned_def)
qed

interpretation downlink: channel_endpoint release_dest attach_dest tx_owned
proof
  show "tx_owned i a h \<Longrightarrow> heap_ids h h' \<Longrightarrow> tx_owned i a h'" for i a h h' by (auto simp: tx_owned_def heap_ids_def)
  show "\<exists>h' im'. release_dest env i a h im = Some (h', im') \<and> chan_inv h' im' \<and> heap_ids h h' \<and> im_freq im' = im_freq im \<and>
        (\<not> ce_sandbox env \<longrightarrow> im_sandboxNodes im' = im_sandboxNodes im)"
    if "chan_inv h im" "hp_pools h \<noteq> []" for h im env i a
    using DetachDestination_chan [OF that(1), of a] sandbox_chan(2) [OF that(1)]
    by (cases "DetachDestination h a im") (auto simp: release_dest_def)
  show "chan_inv h' im' \<and> heap_ids h h' \<and> im_freq im' = im_freq im \<and> (\<not> ce_sandbox env \<longrightarrow> im_sandboxNodes im' = im_sandboxNodes im)"
    if "chan_inv h im" "ce_sandbox env \<or> tx_owned i a h" "attach_dest env i k a h im = Some (h', im')" for h im env i a k h' im'
    using that sandbox_chan(1) [OF that(1)] AttachDestination_chan(1) [OF that(1), of a im'] by (auto simp: attach_dest_def tx_owned_def split: if_splits)
  show "attach_dest env i k a h im \<noteq> None"
    if "chan_inv h im" "tx_owned i a h" "\<not> ce_sandbox env" "im_sandboxNodes im = []" for h im env i a k
    using that AttachDestination_chan(2) [OF that(1), of a] by (auto simp: attach_dest_def tx_owned_def)
qed

section \<open>Requests\<close>

lemma nc_id_retune: "updateTxFreq f k m = Inr m' \<Longrightarrow> nc_id m' = nc_id m" "updateRxFreq f k m = Inr m' \<Longrightarrow> nc_id m' = nc_id m"
  by (auto simp: updateTxFreq_def updateRxFreq_def split: if_splits)

lemma ct_inv_set_config:
  assumes "ct_inv D c" and "om_find (ct_nodeMap c) i = Some n" and "nc_id m = nc_id (nd_config n)"
  shows "ct_inv D (on_config i (\<lambda>_. m) c)"
  unfolding on_config_def
  by (rule ct_inv_on_node [OF assms(1)]) (use assms(2,3) ct_inv_node [OF assms(1,2)] in \<open>auto simp: node_ok_def\<close>)

lemma join_UL_sound:
  assumes i: "ct_inv D c" and b: "b \<Longrightarrow> no_sandbox c \<and> \<not> ce_sandbox env" and d: "i \<in> D"
    and r: "ce_sandbox env \<or> rx_owned i r (ct_heap c)"
    and ch: "om_find (ct_intermediateMap c) (first_freq uch_txTuneFreq nc) \<noteq> None"
  shows "sound b D (join_UL env i nc r c)"
proof -
  let ?freq = "first_freq uch_txTuneFreq nc"
  obtain n where n: "om_find (ct_nodeMap c) i = Some n" using ct_inv_dom [OF i, of i] d by auto
  show ?thesis
  proof (cases "updateTxFreq ?freq 0 (nd_config n)")
    case (Inl x)
    then show ?thesis using i b n by (simp add: join_UL_def Let_def node_config_Some sound_throw)
  next
    case (Inr m)
    define c2 where "c2 = (if ce_sandbox env then on_config i (\<lambda>_. m) c
      else on_rx r (Receiver_setSampleRate (rate32 (sr_txRate (nc_sample_rate m))) \<circ> Receiver_updateFreq ?freq) (on_config i (\<lambda>_. m) c))"
    have i2: "ct_inv D c2"
      unfolding c2_def using ct_inv_set_config [OF i n nc_id_retune(1) [OF Inr]]
      by (auto intro!: ct_inv_on_rx simp: Receiver_setSampleRate_def Receiver_updateFreq_def)
    have "sound b D (on_channel_at ?freq (attach_src env i (nc_numChannels nc) r) c2)"
      by (rule uplink.attach_sound [OF i2])
        (use b r ch in \<open>auto simp: c2_def rx_owned_def Receiver_setSampleRate_def Receiver_updateFreq_def\<close>)
    then show ?thesis using n Inr
      by (auto simp: join_UL_def Let_def node_config_Some c2_def [symmetric] intro!: sound_then sound_ret)
  qed
qed

lemma join_DL_sound:
  assumes i: "ct_inv D c" and b: "b \<Longrightarrow> no_sandbox c \<and> \<not> ce_sandbox env" and d: "i \<in> D"
    and t: "ce_sandbox env \<or> tx_owned i t (ct_heap c)"
    and ch: "om_find (ct_intermediateMap c) (first_freq uch_rxTuneFreq nc) \<noteq> None"
  shows "sound b D (join_DL env i nc t c)"
proof -
  let ?freq = "first_freq uch_rxTuneFreq nc"
  obtain n where n: "om_find (ct_nodeMap c) i = Some n" using ct_inv_dom [OF i, of i] d by auto
  show ?thesis
  proof (cases "updateRxFreq ?freq 0 (nd_config n)")
    case (Inl x)
    then show ?thesis using i b n by (simp add: join_DL_def Let_def node_config_Some sound_throw)
  next
    case (Inr m)
    define c2 where "c2 = (if ce_sandbox env then on_config i (\<lambda>_. m) c
      else on_tx t (Transmitter_setSampleRate (rate32 (sr_rxRate (nc_sample_rate m))) \<circ> Transmitter_updateFreq ?freq) (on_config i (\<lambda>_. m) c))"
    have i2: "ct_inv D c2"
      unfolding c2_def using ct_inv_set_config [OF i n nc_id_retune(2) [OF Inr]]
      by (auto intro!: ct_inv_on_tx simp: Transmitter_setSampleRate_def Transmitter_updateFreq_def)
    have "sound b D (on_channel_at ?freq (attach_dest env i (nc_numChannels nc) t) c2)"
      by (rule downlink.attach_sound [OF i2])
        (use b t ch in \<open>auto simp: c2_def tx_owned_def Transmitter_setSampleRate_def Transmitter_updateFreq_def\<close>)
    then show ?thesis using n Inr
      by (auto simp: join_DL_def Let_def node_config_Some c2_def [symmetric] intro!: sound_then sound_ret)
  qed
qed

lemma retune_UL_sound:
  assumes i: "ct_inv D c" and b: "b \<Longrightarrow> no_sandbox c \<and> \<not> ce_sandbox env" and d: "i \<in> D"
    and r: "ce_sandbox env \<or> rx_owned i r (ct_heap c)"
    and p: "prev_found \<Longrightarrow> om_find (ct_intermediateMap c) prevFreq \<noteq> None"
    and ch: "om_find (ct_intermediateMap c) (first_freq uch_txTuneFreq nc) \<noteq> None"
  shows "sound b D (retune_UL env i nc r prevFreq prev_found c)"
  unfolding retune_UL_def Let_def
proof (rule sound_then [OF uplink.leave_sound [OF i b]])
  let ?chg = "freqChanged prevFreq (first_freq uch_txTuneFreq nc)"
  fix u c1
  assume e: "leave_channel prevFreq (release_src env i r) (?chg \<and> prev_found) c = (Inr u, c1)"
    and i1: "ct_inv D c1" and b1: "b \<Longrightarrow> no_sandbox c1"
  note k = uplink.leave_keeps [OF i e [unfolded unit_eq [of u]]]
  have neq: "first_freq uch_txTuneFreq nc \<noteq> prevFreq" if ?chg using that by (auto simp: freqChanged_def)
  have ch1: "om_find (ct_intermediateMap c1) (first_freq uch_txTuneFreq nc) \<noteq> None" if ?chg
    using k ch neq [OF that] by auto
  have j: "sound b D (join_UL env i nc r c1)" if ?chg
    by (rule join_UL_sound [OF i1 _ d _ ch1 [OF that]]) (use b b1 r k uplink.owned_heap in blast)+
  show "sound b D (if \<not> ?chg
     then (Inr False, if ce_sandbox env then on_config i (nc_sample_rate_update (\<lambda>_. nc_sample_rate nc)) c1
        else on_rx r (Receiver_setSampleRate (rate32 (sr_txRate (nc_sample_rate nc)))) (on_config i (nc_sample_rate_update (\<lambda>_. nc_sample_rate nc)) c1))
     else join_UL env i nc r c1)"
    using j i1 b1 by (auto intro!: sound_ret ct_inv_on_rx ct_inv_on_config simp: Receiver_setSampleRate_def)
qed (use p in auto)

lemma retune_DL_sound:
  assumes i: "ct_inv D c" and b: "b \<Longrightarrow> no_sandbox c \<and> \<not> ce_sandbox env" and d: "i \<in> D"
    and t: "ce_sandbox env \<or> tx_owned i t (ct_heap c)"
    and p: "prev_found \<Longrightarrow> om_find (ct_intermediateMap c) prevFreq \<noteq> None"
    and ch: "om_find (ct_intermediateMap c) (first_freq uch_rxTuneFreq nc) \<noteq> None"
  shows "sound b D (retune_DL env i nc t prevFreq prev_found c)"
  unfolding retune_DL_def Let_def
proof (rule sound_then [OF downlink.leave_sound [OF i b]])
  let ?chg = "freqChanged prevFreq (first_freq uch_rxTuneFreq nc)"
  fix u c1
  assume e: "leave_channel prevFreq (release_dest env i t) (prev_found \<and> ?chg) c = (Inr u, c1)"
    and i1: "ct_inv D c1" and b1: "b \<Longrightarrow> no_sandbox c1"
  note k = downlink.leave_keeps [OF i e [unfolded unit_eq [of u]]]
  have neq: "first_freq uch_rxTuneFreq nc \<noteq> prevFreq" if ?chg using that by (auto simp: freqChanged_def)
  have ch1: "om_find (ct_intermediateMap c1) (first_freq uch_rxTuneFreq nc) \<noteq> None" if ?chg
    using k ch neq [OF that] by auto
  have j: "sound b D (join_DL env i nc t c1)" if ?chg
    by (rule join_DL_sound [OF i1 _ d _ ch1 [OF that]]) (use b b1 t k downlink.owned_heap in blast)+
  show "sound b D (if \<not> ?chg
     then (Inr False, if ce_sandbox env then on_config i (nc_sample_rate_update (\<lambda>_. nc_sample_rate nc)) c1
        else on_tx t (Transmitter_setSampleRate (rate32 (sr_rxRate (nc_sample_rate nc)))) (on_config i (nc_sample_rate_update (\<lambda>_. nc_sample_rate nc)) c1))
     else join_DL env i nc t c1)"
    using j i1 b1 by (auto intro!: sound_ret ct_inv_on_tx ct_inv_on_config simp: Transmitter_setSampleRate_def)
qed (use p in auto)

lemma node_endpoint_channels:
  "node_receiver env i c = (Inr r, c') \<Longrightarrow> ct_intermediateMap c' = ct_intermediateMap c"
  "node_transmitter env i c = (Inr t, c') \<Longrightarrow> ct_intermediateMap c' = ct_intermediateMap c"
  by (auto simp: node_receiver_def CreateReceiver_def node_transmitter_def CreateTransmitter_def Let_def case_prod_beta
      ct_then_Inr ct_crash_def ct_lift_def split: if_splits option.splits sum.splits)

lemma AssignUL_sound:
  assumes i: "ct_inv D c" and b: "b \<Longrightarrow> no_sandbox c \<and> \<not> ce_sandbox env" and d: "i \<in> D"
  shows "sound b D (AssignULChannel env i nc c)"
proof (cases "nc_channels nc = []")
  case True
  then show ?thesis using i b by (simp add: AssignULChannel_def sound_ret)
next
  case False
  let ?freq = "first_freq uch_txTuneFreq nc"
  obtain n where n: "om_find (ct_nodeMap c) i = Some n" using ct_inv_dom [OF i, of i] d by auto
  note R = node_receiver_sound [where b = b and env = env, OF i _ d]
  have "sound b D (if x \<and> \<not> FindChannel ?freq c then (Inr False, c2)
      else retune_UL env i nc r (first_freq uch_txTuneFreq (nd_config n)) (FindChannel (first_freq uch_txTuneFreq (nd_config n)) c) c2)"
    if r: "node_receiver env i c = (Inr r, c1)" and i1: "ct_inv D c1" and b1: "b \<Longrightarrow> no_sandbox c1"
      and c2: "c2 = (if FindChannel ?freq c then c1 else CreateChannel ?freq (sr_txRate (nc_sample_rate nc)) c1)" for x r c1 c2
  proof -
    have m: "ct_intermediateMap c1 = ct_intermediateMap c" by (rule node_endpoint_channels(1) [OF r])
    have i2: "ct_inv D c2" "b \<Longrightarrow> no_sandbox c2" using CreateChannel_inv [OF i1] i1 b1 by (simp_all add: c2)
    have r2: "ce_sandbox env \<or> rx_owned i r (ct_heap c2)" using R(2) [OF _ r] b by (auto simp: c2)
    have f: "om_find (ct_intermediateMap c2) ?freq \<noteq> None" using CreateChannel_found m by (auto simp: c2 FindChannel_def)
    have g: "om_find (ct_intermediateMap c2) g \<noteq> None" if "FindChannel g c" for g
      using that m CreateChannel_same [of c1] by (auto simp: c2 FindChannel_def same_channels_def)
    show ?thesis using i2 b by (auto intro!: sound_ret retune_UL_sound [OF i2(1) _ d r2 g f])
  qed
  then show ?thesis using False n
    by (auto simp: AssignULChannel_def Let_def intro!: sound_then [OF R(1)] dest: b)
qed

lemma AssignDL_sound:
  assumes i: "ct_inv D c" and b: "b \<Longrightarrow> no_sandbox c \<and> \<not> ce_sandbox env" and d: "i \<in> D"
  shows "sound b D (AssignDLChannel env i nc c)"
proof (cases "nc_channels nc = []")
  case True
  then show ?thesis using i b by (simp add: AssignDLChannel_def sound_ret)
next
  case False
  let ?freq = "first_freq uch_rxTuneFreq nc"
  obtain n where n: "om_find (ct_nodeMap c) i = Some n" using ct_inv_dom [OF i, of i] d by auto
  note R = node_transmitter_sound [where b = b and env = env, OF i _ d]
  have "sound b D (if x \<and> \<not> FindChannel ?freq c then (Inr False, c2)
      else retune_DL env i nc t (first_freq uch_rxTuneFreq (nd_config n)) (FindChannel (first_freq uch_rxTuneFreq (nd_config n)) c) c2)"
    if r: "node_transmitter env i c = (Inr t, c1)" and i1: "ct_inv D c1" and b1: "b \<Longrightarrow> no_sandbox c1"
      and c2: "c2 = (if FindChannel ?freq c then c1 else CreateChannel ?freq (sr_rxRate (nc_sample_rate nc)) c1)" for x t c1 c2
  proof -
    have m: "ct_intermediateMap c1 = ct_intermediateMap c" by (rule node_endpoint_channels(2) [OF r])
    have i2: "ct_inv D c2" "b \<Longrightarrow> no_sandbox c2" using CreateChannel_inv [OF i1] i1 b1 by (simp_all add: c2)
    have r2: "ce_sandbox env \<or> tx_owned i t (ct_heap c2)" using R(2) [OF _ r] b by (auto simp: c2)
    have f: "om_find (ct_intermediateMap c2) ?freq \<noteq> None" using CreateChannel_found m by (auto simp: c2 FindChannel_def)
    have g: "om_find (ct_intermediateMap c2) g \<noteq> None" if "FindChannel g c" for g
      using that m CreateChannel_same [of c1] by (auto simp: c2 FindChannel_def same_channels_def)
    show ?thesis using i2 b by (auto intro!: sound_ret retune_DL_sound [OF i2(1) _ d r2 g f])
  qed
  then show ?thesis using False n
    by (auto simp: AssignDLChannel_def Let_def intro!: sound_then [OF R(1)] dest: b)
qed

lemma AddNode_sound:
  assumes i: "ct_inv D c" and b: "b \<Longrightarrow> no_sandbox c" and d: "i \<in> D"
  shows "sound b D (AddNode i c)"
  unfolding AddNode_def using i b d ct_inv_dom [OF i, of i]
  by (auto intro!: sound_then [OF sound_crash] sound_then [OF sound_lift] sound_ret)

lemma serve_sound:
  assumes i: "ct_inv D c" and b: "b \<Longrightarrow> no_sandbox c \<and> \<not> ce_sandbox env" and d: "nc_id nc \<in> D"
  shows "sound b D (serve env nc new c)"
proof -
  let ?i = "nc_id nc"
  obtain n where n: "om_find (ct_nodeMap c) ?i = Some n" using ct_inv_dom [OF i, of ?i] d by auto
  obtain n1 nc1 hs where r: "refreshFromConfig (ce_now env) nc n (ct_vehicleHandlers c) = (n1, nc1, hs)" by (metis prod_cases3)
  define c1 where "c1 = c\<lparr>ct_vehicleHandlers := hs, ct_nodeMap := om_set ?i n1 (ct_nodeMap c)\<rparr>"
  have "node_ok (ct_heap c) ?i n1"
    using refreshFromConfig_ok(1,2) [OF r] ct_inv_node [OF i n] by (simp add: node_ok_def nd_owned_def nc_identity_def)
  then have "ct_inv D (on_node ?i (\<lambda>_. n1) c)" by (rule ct_inv_on_node [OF i])
  then have i1: "ct_inv D c1" by (rule ct_inv_cong) (simp_all add: c1_def on_node_def n)
  have b1: "b \<Longrightarrow> no_sandbox c1 \<and> \<not> ce_sandbox env" using b by (simp add: c1_def no_sandbox_def)
  have "sound b D (ct_then (AssignULChannel env ?i nc1 c1) (\<lambda>ul c. ct_then (AssignDLChannel env ?i nc1 c) (\<lambda>dl c.
      ct_then (ct_crash (om_find (ct_nodeMap c) ?i) c) (\<lambda>target c.
        if \<not> (ul \<or> dl) \<and> \<not> new then
          (Inr (if compare nc1 target then reply_ports (nd_config target) else reply ''fail''), c)
        else ct_then (AddNode ?i c) (\<lambda>_ c. (Inr (reply_ports (nd_config target)), c))))))"
  proof (rule sound_then [OF AssignUL_sound [OF i1 b1 d]], simp)
    fix ul c2 assume i2: "ct_inv D c2" and b2: "b \<Longrightarrow> no_sandbox c2"
    show "sound b D (ct_then (AssignDLChannel env ?i nc1 c2) (\<lambda>dl c.
      ct_then (ct_crash (om_find (ct_nodeMap c) ?i) c) (\<lambda>target c.
        if \<not> (ul \<or> dl) \<and> \<not> new then
          (Inr (if compare nc1 target then reply_ports (nd_config target) else reply ''fail''), c)
        else ct_then (AddNode ?i c) (\<lambda>_ c. (Inr (reply_ports (nd_config target)), c)))))"
    proof (rule sound_then [OF AssignDL_sound [OF i2 _ d]])
      fix dl c3 assume i3: "ct_inv D c3" and b3: "b \<Longrightarrow> no_sandbox c3"
      show "sound b D (ct_then (ct_crash (om_find (ct_nodeMap c3) ?i) c3) (\<lambda>target c.
        if \<not> (ul \<or> dl) \<and> \<not> new then
          (Inr (if compare nc1 target then reply_ports (nd_config target) else reply ''fail''), c)
        else ct_then (AddNode ?i c) (\<lambda>_ c. (Inr (reply_ports (nd_config target)), c))))"
        using ct_inv_dom [OF i3, of ?i] d i3 b3
        by (auto intro!: sound_then [OF AddNode_sound] sound_ret)
    qed (use b b2 in auto)
  qed simp_all
  then show ?thesis using n r by (simp add: serve_def Let_def c1_def [symmetric])
qed

lemma configure_sound:
  assumes i: "ct_inv D c" and b: "b \<Longrightarrow> no_sandbox c \<and> \<not> ce_sandbox env"
  shows "sound b (insert (nc_id (request_config env j)) D) (configure env j c)"
proof -
  let ?nc = "request_config env j" let ?i = "nc_id ?nc" let ?n = "Node_new (ce_now env) ?nc"
  have "sound b (insert ?i D) (GetOrCreateNode ?n c)"
  proof (cases "om_find (ct_nodeMap c) ?i")
    case None
    define c1 where "c1 = c\<lparr>ct_nodeMap := om_insert ?i ?n (ct_nodeMap c)\<rparr>"
    have "node_ok (ct_heap c) ?i ?n" by (simp add: node_ok_def Node_new_def)
    then have "ct_inv (insert ?i D) c1"
      using i None by (auto simp: ct_inv_def c1_def om_wf_insert om_find_insert split: option.splits if_splits)
    then have "sound b (insert ?i D) (AddNode ?i c1)"
      by (rule AddNode_sound) (use b in \<open>auto simp: c1_def no_sandbox_def\<close>)
    then show ?thesis using None
      by (auto simp: GetOrCreateNode_def Node_new_def [of _ ?nc] Let_def c1_def [unfolded Node_new_def, symmetric] intro!: sound_then sound_ret)
  next
    case (Some x)
    then have "insert ?i D = D" using ct_inv_dom [OF i, of ?i] by auto
    then show ?thesis using i b Some by (simp add: GetOrCreateNode_def Node_new_def Let_def sound_ret)
  qed
  then show ?thesis unfolding configure_def Let_def by (rule sound_then) (use b in \<open>auto intro!: serve_sound\<close>)
qed

section \<open>Leaving\<close>

text \<open>The controller after every channel was changed by some operation on the endpoints \<open>A\<close>.\<close>

definition ct_lost :: "nat set \<Rightarrow> (Intermediate \<Rightarrow> Intermediate \<Rightarrow> bool) \<Rightarrow> Controller \<Rightarrow> Controller \<Rightarrow> bool" where
  "ct_lost A R c c' \<longleftrightarrow>
     c' = c\<lparr>ct_heap := ct_heap c', ct_intermediateMap := ct_intermediateMap c'\<rparr> \<and>
     heap_ids (ct_heap c) (ct_heap c') \<and> heap_but A (ct_heap c) (ct_heap c') \<and>
     (\<forall>f. rel_option R (om_find (ct_intermediateMap c) f) (om_find (ct_intermediateMap c') f))"

lemma ct_lost_refl: "(\<And>im. R im im) \<Longrightarrow> ct_lost A R c c"
  by (simp add: ct_lost_def option.rel_refl)

lemma ct_lost_fields:
  assumes "ct_lost A R c c'"
  shows "ct_nodeMap c' = ct_nodeMap c" "ct_txPortPool c' = ct_txPortPool c" "ct_rxPortPool c' = ct_rxPortPool c"
    "ct_vehicleHandlers c' = ct_vehicleHandlers c" "ct_ipAddrMap c' = ct_ipAddrMap c" "ct_db c' = ct_db c"
    "ct_propagationDefaults c' = ct_propagationDefaults c" "ct_numChannels c' = ct_numChannels c"
    "heap_but A (ct_heap c) (ct_heap c')" "heap_ids (ct_heap c) (ct_heap c')"
    "rel_option R (om_find (ct_intermediateMap c) f) (om_find (ct_intermediateMap c') f)"
proof -
  obtain h m where e: "c' = c\<lparr>ct_heap := h, ct_intermediateMap := m\<rparr>" using assms unfolding ct_lost_def by blast
  show "ct_nodeMap c' = ct_nodeMap c" "ct_txPortPool c' = ct_txPortPool c" "ct_rxPortPool c' = ct_rxPortPool c"
    "ct_vehicleHandlers c' = ct_vehicleHandlers c" "ct_ipAddrMap c' = ct_ipAddrMap c" "ct_db c' = ct_db c"
    "ct_propagationDefaults c' = ct_propagationDefaults c" "ct_numChannels c' = ct_numChannels c" by (simp_all add: e)
qed (use assms in \<open>unfold ct_lost_def, blast+\<close>)

lemma ct_lost_trans:
  assumes "ct_lost A R c c1" "ct_lost B S c1 c2" "\<And>x y z. R x y \<Longrightarrow> S y z \<Longrightarrow> Q x z"
  shows "ct_lost (A \<union> B) Q c c2"
proof -
  have "rel_option Q (om_find (ct_intermediateMap c) f) (om_find (ct_intermediateMap c2) f)" for f
    using ct_lost_fields(11) [OF assms(1), of f] ct_lost_fields(11) [OF assms(2), of f] assms(3)
    by (auto simp: option.rel_sel)
  moreover have "c2 = c\<lparr>ct_heap := ct_heap c2, ct_intermediateMap := ct_intermediateMap c2\<rparr>"
  proof -
    obtain h m where 1: "c1 = c\<lparr>ct_heap := h, ct_intermediateMap := m\<rparr>" using assms(1) unfolding ct_lost_def by blast
    obtain h' m' where 2: "c2 = c1\<lparr>ct_heap := h', ct_intermediateMap := m'\<rparr>" using assms(2) unfolding ct_lost_def by blast
    show ?thesis unfolding 2 1 by simp
  qed
  ultimately show ?thesis
    using assms(1,2) heap_ids_trans heap_but_trans unfolding ct_lost_def by blast
qed

text \<open>The contract of detaching an endpoint from a channel, and of detaching it from all channels.\<close>

locale channel_detach =
  fixes op :: "nat \<Rightarrow> heap \<Rightarrow> Intermediate \<Rightarrow> (heap \<times> Intermediate) option"
    and own :: "string \<Rightarrow> nat \<Rightarrow> heap \<Rightarrow> bool" and lost :: "string \<Rightarrow> Intermediate \<Rightarrow> Intermediate \<Rightarrow> bool"
  assumes own_heap: "own i a h \<Longrightarrow> heap_ids h h' \<Longrightarrow> own i a h'"
    and op_chan: "chan_inv h im \<Longrightarrow> hp_pools h \<noteq> [] \<Longrightarrow> own i a h \<Longrightarrow>
      \<exists>h' im'. op a h im = Some (h', im') \<and> chan_inv h' im' \<and> heap_ids h h' \<and> heap_but {a} h h' \<and> lost i im im'"
    and lost_keeps: "lost i im im' \<Longrightarrow> im_freq im' = im_freq im \<and> im_sandboxNodes im' = im_sandboxNodes im"
begin

lemma one_ok:
  assumes i: "ct_inv D c" and o: "own k a (ct_heap c)" and f: "om_find (ct_intermediateMap c) f \<noteq> None"
  shows "\<exists>c'. on_channel_at f (op a) c = (Inr (), c') \<and> ct_inv D c' \<and>
    ct_lost {a} (\<lambda>im im'. im' = im \<or> lost k im im') c c' \<and>
    (\<forall>g. g \<noteq> f \<longrightarrow> om_find (ct_intermediateMap c') g = om_find (ct_intermediateMap c) g) \<and>
    rel_option (lost k) (om_find (ct_intermediateMap c) f) (om_find (ct_intermediateMap c') f)"
proof -
  obtain im where im: "om_find (ct_intermediateMap c) f = Some im" using f by auto
  obtain h' im' where x: "op a (ct_heap c) im = Some (h', im')" "chan_inv h' im'" "heap_ids (ct_heap c) h'"
    "heap_but {a} (ct_heap c) h'" "lost k im im'"
    using op_chan [OF _ ct_inv_wf(3) [OF i] o] ct_inv_chan [OF i im] by metis
  let ?c = "c\<lparr>ct_heap := h', ct_intermediateMap := om_set f im' (ct_intermediateMap c)\<rparr>"
  have "sound False D (on_channel_at f (op a) c)"
    by (rule sound_channel [OF i]) (use im x lost_keeps [OF x(5)] in auto)
  moreover have "on_channel_at f (op a) c = (Inr (), ?c)" using im x(1) by (simp add: on_channel_at_def)
  moreover have "ct_lost {a} (\<lambda>im im'. im' = im \<or> lost k im im') c ?c"
    using x im by (auto simp: ct_lost_def om_find_set option.rel_refl)
  ultimately show ?thesis using x im by (auto simp: sound_def om_find_set)
qed

lemma each_ok:
  assumes "ct_inv D c" and "own k a (ct_heap c)" and "distinct fs" and "\<And>f. f \<in> set fs \<Longrightarrow> om_find (ct_intermediateMap c) f \<noteq> None"
  shows "\<exists>c'. ct_each (\<lambda>f. on_channel_at f (op a)) fs c = (Inr (), c') \<and> ct_inv D c' \<and> ct_lost {a} (\<lambda>_ _. True) c c' \<and>
    (\<forall>f. if f \<in> set fs then rel_option (lost k) (om_find (ct_intermediateMap c) f) (om_find (ct_intermediateMap c') f)
         else om_find (ct_intermediateMap c') f = om_find (ct_intermediateMap c) f)"
  using assms
proof (induction fs arbitrary: c)
  case (Cons f fs)
  obtain c1 where 1: "on_channel_at f (op a) c = (Inr (), c1)" "ct_inv D c1"
    "ct_lost {a} (\<lambda>im im'. im' = im \<or> lost k im im') c c1"
    "\<And>g. g \<noteq> f \<Longrightarrow> om_find (ct_intermediateMap c1) g = om_find (ct_intermediateMap c) g"
    "rel_option (lost k) (om_find (ct_intermediateMap c) f) (om_find (ct_intermediateMap c1) f)"
    using one_ok [OF Cons.prems(1,2) Cons.prems(4), of f] by auto
  have own: "own k a (ct_heap c1)" using own_heap [OF Cons.prems(2)] ct_lost_fields(10) [OF 1(3)] by simp
  have ne: "om_find (ct_intermediateMap c1) g \<noteq> None" if "g \<in> set fs" for g
    using 1(4) [of g] Cons.prems(3,4) that by fastforce
  obtain c2 where 2: "ct_each (\<lambda>f. on_channel_at f (op a)) fs c1 = (Inr (), c2)" "ct_inv D c2" "ct_lost {a} (\<lambda>_ _. True) c1 c2"
    "\<forall>g. if g \<in> set fs then rel_option (lost k) (om_find (ct_intermediateMap c1) g) (om_find (ct_intermediateMap c2) g)
         else om_find (ct_intermediateMap c2) g = om_find (ct_intermediateMap c1) g"
    using Cons.IH [OF 1(2) own _ ne] Cons.prems(3) by auto
  have "ct_lost {a} (\<lambda>_ _. True) c c2" using ct_lost_trans [OF 1(3) 2(3), of "\<lambda>_ _. True"] by simp
  moreover have "if g \<in> set (f # fs) then rel_option (lost k) (om_find (ct_intermediateMap c) g) (om_find (ct_intermediateMap c2) g)
         else om_find (ct_intermediateMap c2) g = om_find (ct_intermediateMap c) g" for g
    using 1(4) [of g] 1(5) 2(4) [rule_format, of g] Cons.prems(3) by (cases "g = f") (auto split: if_splits)
  ultimately show ?case using 1(1) 2(1,2) by auto
qed (simp add: ct_lost_refl)

lemma all_ok:
  assumes i: "ct_inv D c" and o: "own k a (ct_heap c)"
  shows "\<exists>c'. ct_each (\<lambda>f. on_channel_at f (op a)) (om_keys (ct_intermediateMap c)) c = (Inr (), c') \<and> ct_inv D c' \<and> ct_lost {a} (lost k) c c'"
proof -
  have "distinct (om_keys (ct_intermediateMap c))" using om_wf_distinct [OF ct_inv_wf(2) [OF i]] by (simp add: om_keys_def)
  from each_ok [OF i o this] obtain c' where c': "ct_each (\<lambda>f. on_channel_at f (op a)) (om_keys (ct_intermediateMap c)) c = (Inr (), c')"
    "ct_inv D c'" "ct_lost {a} (\<lambda>_ _. True) c c'"
    "\<forall>f. if f \<in> set (om_keys (ct_intermediateMap c)) then rel_option (lost k) (om_find (ct_intermediateMap c) f) (om_find (ct_intermediateMap c') f)
         else om_find (ct_intermediateMap c') f = om_find (ct_intermediateMap c) f"
    by (auto simp: om_keys_iff)
  have "rel_option (lost k) (om_find (ct_intermediateMap c) f) (om_find (ct_intermediateMap c') f)" for f
    using c'(4) [rule_format, of f] by (auto simp: om_keys_iff split: if_splits)
  then show ?thesis using c' by (auto simp: ct_lost_def)
qed

end

interpretation det_dest: channel_detach "\<lambda>t h im. Some (snd (DetachDestination h t im))" tx_owned "\<lambda>k. without k True False"
proof
  show "\<exists>h' im'. Some (snd (DetachDestination h a im)) = Some (h', im') \<and> chan_inv h' im' \<and> heap_ids h h' \<and> heap_but {a} h h' \<and>
      without i True False im im'"
    if "chan_inv h im" "hp_pools h \<noteq> []" "tx_owned i a h" for h im i a
    using DetachDestination_chan [OF that(1), of a] that(3)
    by (cases "DetachDestination h a im") (auto simp: tx_owned_def)
qed (auto simp: downlink.owned_heap dest: without_keeps)

interpretation det_src: channel_detach "\<lambda>r h im. map_option snd (DetachSource h r im)" rx_owned "\<lambda>k. without k False True"
proof
  show "\<exists>h' im'. map_option snd (DetachSource h a im) = Some (h', im') \<and> chan_inv h' im' \<and> heap_ids h h' \<and> heap_but {a} h h' \<and>
      without i False True im im'"
    if "chan_inv h im" "hp_pools h \<noteq> []" "rx_owned i a h" for h im i a
    using DetachSource_chan [OF that(1,2), of a] that(3) by (auto simp: rx_owned_def)
qed (auto simp: uplink.owned_heap dest: without_keeps)

text \<open>The endpoints of a node, and what is left of every channel when both are detached.\<close>

definition endpoints :: "Node \<Rightarrow> nat set" where
  "endpoints n = set_option (nd_transmitter n) \<union> set_option (nd_receiver n)"

abbreviation left_by :: "string \<Rightarrow> Node \<Rightarrow> Intermediate \<Rightarrow> Intermediate \<Rightarrow> bool" where
  "left_by k n \<equiv> without k (nd_transmitter n \<noteq> None) (nd_receiver n \<noteq> None)"

lemma detach_tx_ok:
  assumes i: "ct_inv D c" and n: "om_find (ct_nodeMap c) k = Some n"
  shows "\<exists>c'. (case nd_transmitter n of None \<Rightarrow> (Inr (), c)
      | Some t \<Rightarrow> ct_each (detach_dest_at t) (om_keys (ct_intermediateMap c)) c) = (Inr (), c') \<and> ct_inv D c' \<and>
    ct_lost (set_option (nd_transmitter n)) (without k (nd_transmitter n \<noteq> None) False) c c'"
proof (cases "nd_transmitter n")
  case (Some t)
  have "tx_owned k t (ct_heap c)" using ct_inv_node [OF i n, unfolded node_ok_def] Some by (simp add: tx_owned_def)
  from det_dest.all_ok [OF i this] show ?thesis using Some by (simp add: detach_dest_at_def [abs_def])
qed (use i in \<open>simp add: ct_lost_refl without_refl\<close>)

lemma detach_rx_ok:
  assumes i: "ct_inv D c" and n: "om_find (ct_nodeMap c) k = Some n"
  shows "\<exists>c'. (case nd_receiver n of None \<Rightarrow> (Inr (), c)
      | Some r \<Rightarrow> ct_each (detach_src_at r) (om_keys (ct_intermediateMap c)) c) = (Inr (), c') \<and> ct_inv D c' \<and>
    ct_lost (set_option (nd_receiver n)) (without k False (nd_receiver n \<noteq> None)) c c'"
proof (cases "nd_receiver n")
  case (Some r)
  have "rx_owned k r (ct_heap c)" using ct_inv_node [OF i n, unfolded node_ok_def] Some by (simp add: rx_owned_def)
  from det_src.all_ok [OF i this] show ?thesis using Some by (simp add: detach_src_at_def [abs_def])
qed (use i in \<open>simp add: ct_lost_refl without_refl\<close>)

lemma detach_node_ok:
  assumes i: "ct_inv D c" and n: "om_find (ct_nodeMap c) k = Some n"
  shows "\<exists>c'. detach_node n c = (Inr (), c') \<and> ct_inv D c' \<and> ct_lost (endpoints n) (left_by k n) c c'"
proof -
  obtain c1 where 1: "(case nd_transmitter n of None \<Rightarrow> (Inr (), c)
      | Some t \<Rightarrow> ct_each (detach_dest_at t) (om_keys (ct_intermediateMap c)) c) = (Inr (), c1)" "ct_inv D c1"
    "ct_lost (set_option (nd_transmitter n)) (without k (nd_transmitter n \<noteq> None) False) c c1"
    using detach_tx_ok [OF i n] by blast
  have n1: "om_find (ct_nodeMap c1) k = Some n" using n ct_lost_fields(1) [OF 1(3)] by simp
  obtain c2 where 2: "(case nd_receiver n of None \<Rightarrow> (Inr (), c1)
      | Some r \<Rightarrow> ct_each (detach_src_at r) (om_keys (ct_intermediateMap c1)) c1) = (Inr (), c2)" "ct_inv D c2"
    "ct_lost (set_option (nd_receiver n)) (without k False (nd_receiver n \<noteq> None)) c1 c2"
    using detach_rx_ok [OF 1(2) n1] by blast
  have "detach_node n c = (Inr (), c2)" by (simp add: detach_node_def 1(1) 2(1))
  then show ?thesis using 2(2) ct_lost_trans [OF 1(3) 2(3) without_trans] by (auto simp: endpoints_def)
qed

text \<open>The controller when a node is gone, exactly. Every channel is left by the node, and it is gone if and only if
  nobody is left on it. Other nodes, vehicle handlers, endpoints, the ports, the defaults and the counter are as before; the
  statements sent to the database delete the channels that are gone and the node.\<close>

definition departed :: "string \<Rightarrow> Node \<Rightarrow> Controller \<Rightarrow> Controller \<Rightarrow> bool" where
  "departed k n c c' \<longleftrightarrow>
     (\<forall>i. om_find (ct_nodeMap c') i = (if i = k then None else om_find (ct_nodeMap c) i)) \<and>
     (\<forall>f. case om_find (ct_intermediateMap c) f of
            None \<Rightarrow> om_find (ct_intermediateMap c') f = None
          | Some im \<Rightarrow> (\<exists>im'. left_by k n im im' \<and>
              om_find (ct_intermediateMap c') f = (if isEmpty im' then None else Some im'))) \<and>
     (\<forall>i. om_find (ct_vehicleHandlers c') i = (if i = vehicle_key n then None else om_find (ct_vehicleHandlers c) i)) \<and>
     ct_txPortPool c' = ct_txPortPool c \<and> ct_rxPortPool c' = ct_rxPortPool c \<and>
     ct_propagationDefaults c' = ct_propagationDefaults c \<and> ct_numChannels c' = ct_numChannels c \<and>
     heap_but (endpoints n) (ct_heap c) (ct_heap c') \<and>
     (\<exists>fs. ct_db c' = ct_db c @ map DeleteChannel_sql fs @ [DeleteNode_sql n] \<and>
        set fs = {f. om_find (ct_intermediateMap c) f \<noteq> None \<and> om_find (ct_intermediateMap c') f = None})"

lemma departed_ok:
  assumes i: "ct_inv D c" and n: "om_find (ct_nodeMap c) k = Some n"
    and c1: "detach_node n c = (Inr (), c1)"
    and c2: "ct_nodeMap c2 = om_erase k (ct_nodeMap c1)" "ct_heap c2 = ct_heap c1" "ct_txPortPool c2 = ct_txPortPool c1"
      "ct_rxPortPool c2 = ct_rxPortPool c1" "ct_intermediateMap c2 = ct_intermediateMap (remove_empty c1)"
      "ct_vehicleHandlers c2 = om_erase (vehicle_key n) (ct_vehicleHandlers c1)"
      "ct_propagationDefaults c2 = ct_propagationDefaults c1" "ct_numChannels c2 = ct_numChannels c1"
      "ct_db c2 = ct_db (remove_empty c1) @ [DeleteNode_sql n]"
  shows "ct_inv (D - {k}) c2 \<and> departed k n c c2 \<and> (no_sandbox c \<longrightarrow> no_sandbox c2)"
proof -
  obtain i1: "ct_inv D c1" and l: "ct_lost (endpoints n) (left_by k n) c c1"
    using detach_node_ok [OF i n] c1 by auto
  note L = ct_lost_fields [OF l] and E = remove_empty_find [OF i1]
  have i2: "ct_inv D (remove_empty c1)" by (rule remove_empty_inv(1) [OF i1])
  have h: "ct_heap (remove_empty c1) = ct_heap c1" by (simp add: remove_empty_def Let_def)
  have "ct_inv (D - {k}) c2"
  proof (rule ct_invI)
    show "om_find (ct_nodeMap c2) j \<noteq> None \<longleftrightarrow> j \<in> D - {k}" for j
      using ct_inv_dom [OF i1, of j] by (simp add: c2(1) om_find_erase)
    show "node_ok (ct_heap c2) j m" if "om_find (ct_nodeMap c2) j = Some m" for j m
      using ct_inv_node [OF i1, of j m] that by (simp add: c2(1,2) om_find_erase split: if_splits)
  qed (use ct_inv_wf [OF i1] ct_inv_wf [OF i2] ct_inv_chan [OF i2] h in \<open>auto simp: c2 om_wf_erase\<close>)
  moreover have sb: "im_sandboxNodes im = []" if nos: "no_sandbox c" and c1f: "om_find (ct_intermediateMap c1) f = Some im" for f im
  proof -
    obtain im0 where "om_find (ct_intermediateMap c) f = Some im0" "left_by k n im0 im"
      using L(11) [of f] c1f by (auto simp: option_rel_Some2)
    then show ?thesis using without_keeps nos by (auto simp: no_sandbox_def)
  qed
  have "no_sandbox c2" if "no_sandbox c"
    using remove_empty_inv(2) [OF i1] sb [OF that] by (simp add: no_sandbox_def c2(5))
  moreover have F: "om_find (ct_intermediateMap c2) f = (case om_find (ct_intermediateMap c1) f of
      Some im \<Rightarrow> if isEmpty im then None else Some im | None \<Rightarrow> None)" for f by (simp add: c2(5) E)
  have "\<exists>fs. ct_db c2 = ct_db c @ map DeleteChannel_sql fs @ [DeleteNode_sql n] \<and>
      set fs = {f. om_find (ct_intermediateMap c) f \<noteq> None \<and> om_find (ct_intermediateMap c2) f = None}"
  proof (intro exI conjI)
    let ?fs = "map fst (filter (\<lambda>(_, im). isEmpty im) (ct_intermediateMap c1))"
    show "ct_db c2 = ct_db c @ map DeleteChannel_sql ?fs @ [DeleteNode_sql n]"
      by (simp add: c2(9) remove_empty_def Let_def L(6))
    have old: "om_find (ct_intermediateMap c) f = None \<longleftrightarrow> om_find (ct_intermediateMap c1) f = None" for f
      using L(11) [of f] by (cases "om_find (ct_intermediateMap c) f"; cases "om_find (ct_intermediateMap c1) f") simp_all
    have gone: "f \<in> set ?fs \<longleftrightarrow> (\<exists>im. (f, im) \<in> set (ct_intermediateMap c1) \<and> isEmpty im)" for f by force
    have "f \<in> set ?fs \<longleftrightarrow> om_find (ct_intermediateMap c) f \<noteq> None \<and> om_find (ct_intermediateMap c2) f = None" for f
      unfolding gone om_items_find [OF ct_inv_wf(2) [OF i1]] old F by (cases "om_find (ct_intermediateMap c1) f") simp_all
    then show "set ?fs = {f. om_find (ct_intermediateMap c) f \<noteq> None \<and> om_find (ct_intermediateMap c2) f = None}" by blast
  qed
  moreover have "case om_find (ct_intermediateMap c) f of
            None \<Rightarrow> om_find (ct_intermediateMap c2) f = None
          | Some im \<Rightarrow> (\<exists>im'. left_by k n im im' \<and>
              om_find (ct_intermediateMap c2) f = (if isEmpty im' then None else Some im'))" for f
    using L(11) [of f] by (cases "om_find (ct_intermediateMap c) f"; cases "om_find (ct_intermediateMap c1) f") (auto simp: F)
  ultimately show ?thesis using L(1-4,7-9) by (simp add: departed_def c2(1-4,6-8) om_find_erase)
qed


lemma disconnect_ok:
  assumes i: "ct_inv D c" and n: "om_find (ct_nodeMap c) k = Some n"
  shows "\<exists>c'. disconnect k n c = (Inr (), c') \<and> ct_inv (D - {k}) c' \<and> departed k n c c' \<and> (no_sandbox c \<longrightarrow> no_sandbox c') \<and>
    (\<forall>ip. ip \<noteq> nc_ipAddress (nd_config n) \<longrightarrow> om_find (ct_ipAddrMap c') ip = om_find (ct_ipAddrMap c) ip)"
proof -
  define c0 where "c0 = RestoreTXPort (nc_ipAddress (nd_config n)) c"
  have same: "ct_nodeMap c0 = ct_nodeMap c" "ct_intermediateMap c0 = ct_intermediateMap c" "ct_heap c0 = ct_heap c"
    "ct_txPortPool c0 = ct_txPortPool c" "ct_rxPortPool c0 = ct_rxPortPool c" "ct_vehicleHandlers c0 = ct_vehicleHandlers c"
    "ct_propagationDefaults c0 = ct_propagationDefaults c" "ct_numChannels c0 = ct_numChannels c" "ct_db c0 = ct_db c"
    by (simp_all add: c0_def RestoreTXPort_def split: option.split)
  have i0: "ct_inv D c0" using i same(1-3) by (rule ct_inv_cong)
  have n0: "om_find (ct_nodeMap c0) k = Some n" using n same by simp
  obtain c1 where c1: "detach_node n c0 = (Inr (), c1)" and l: "ct_lost (endpoints n) (left_by k n) c0 c1"
    using detach_node_ok [OF i0 n0] by blast
  have ip: "om_find (ct_ipAddrMap c1) ip = om_find (ct_ipAddrMap c) ip" if "ip \<noteq> nc_ipAddress (nd_config n)" for ip
    using that ct_lost_fields(5) [OF l] by (simp add: c0_def RestoreTXPort_def om_find_set om_find_erase split: option.split)
  let ?c2 = "db_exec (DeleteNode_sql n) (remove_empty (drop_vehicle n c1))"
  have e: "disconnect k n c = (Inr (), ?c2\<lparr>ct_nodeMap := om_erase k (ct_nodeMap ?c2)\<rparr>)"
    using c1 by (simp add: disconnect_def c0_def Let_def)
  have "ct_inv (D - {k}) (?c2\<lparr>ct_nodeMap := om_erase k (ct_nodeMap ?c2)\<rparr>) \<and>
    departed k n c0 (?c2\<lparr>ct_nodeMap := om_erase k (ct_nodeMap ?c2)\<rparr>) \<and> (no_sandbox c0 \<longrightarrow> no_sandbox (?c2\<lparr>ct_nodeMap := om_erase k (ct_nodeMap ?c2)\<rparr>))"
    by (rule departed_ok [OF i0 n0 c1]) (simp_all add: drop_vehicle_def remove_empty_def db_exec_def Let_def)
  moreover have "departed k n c0 = departed k n c" "no_sandbox c0 = no_sandbox c"
    by (simp_all add: fun_eq_iff departed_def same no_sandbox_def)
  ultimately show ?thesis using ip by (simp add: e remove_empty_def drop_vehicle_def db_exec_def Let_def)
qed

lemma timeout_node_ok:
  assumes i: "ct_inv D c" and n: "om_find (ct_nodeMap c) k = Some n" and a: "\<not> isAlive now 10 n"
  shows "\<exists>c'. timeout_node now k c = (Inr (), c') \<and> ct_inv (D - {k}) c' \<and> departed k n c c' \<and> (no_sandbox c \<longrightarrow> no_sandbox c')"
proof -
  obtain c1 where c1: "detach_node n c = (Inr (), c1)" using detach_node_ok [OF i n] by blast
  let ?c2 = "drop_vehicle n (db_exec (DeleteNode_sql n) (remove_empty c1))"
  have e: "timeout_node now k c = (Inr (), ?c2\<lparr>ct_nodeMap := om_erase k (ct_nodeMap ?c2)\<rparr>)"
    using c1 n a by (simp add: timeout_node_def Let_def)
  have "ct_inv (D - {k}) (?c2\<lparr>ct_nodeMap := om_erase k (ct_nodeMap ?c2)\<rparr>) \<and>
    departed k n c (?c2\<lparr>ct_nodeMap := om_erase k (ct_nodeMap ?c2)\<rparr>) \<and> (no_sandbox c \<longrightarrow> no_sandbox (?c2\<lparr>ct_nodeMap := om_erase k (ct_nodeMap ?c2)\<rparr>))"
    by (rule departed_ok [OF i n c1]) (simp_all add: drop_vehicle_def remove_empty_def db_exec_def Let_def)
  then show ?thesis by (simp add: e)
qed

definition dead :: "int \<Rightarrow> Controller \<Rightarrow> string \<Rightarrow> bool" where
  "dead now c k \<longleftrightarrow> (\<exists>n. om_find (ct_nodeMap c) k = Some n \<and> \<not> isAlive now 10 n)"

lemma timeouts_ok:
  assumes "ct_inv D c"
  shows "\<exists>c'. ct_each (timeout_node now) ks c = (Inr (), c') \<and> (\<exists>D'. ct_inv D' c') \<and> (no_sandbox c \<longrightarrow> no_sandbox c') \<and>
    (\<forall>k. om_find (ct_nodeMap c') k = (if k \<in> set ks \<and> dead now c k then None else om_find (ct_nodeMap c) k))"
  using assms
proof (induction ks arbitrary: D c)
  case (Cons k ks)
  have "\<exists>c1 D1. timeout_node now k c = (Inr (), c1) \<and> ct_inv D1 c1 \<and> (no_sandbox c \<longrightarrow> no_sandbox c1) \<and>
    (\<forall>i. om_find (ct_nodeMap c1) i = (if i = k \<and> dead now c k then None else om_find (ct_nodeMap c) i))"
  proof (cases "dead now c k")
    case True
    then obtain n where n: "om_find (ct_nodeMap c) k = Some n" "\<not> isAlive now 10 n" by (auto simp: dead_def)
    show ?thesis using timeout_node_ok [OF Cons.prems n] True by (auto simp: departed_def)
  next
    case False
    then show ?thesis using Cons.prems by (auto simp: timeout_node_def dead_def split: option.split)
  qed
  then obtain c1 D1 where 1: "timeout_node now k c = (Inr (), c1)" "ct_inv D1 c1" "no_sandbox c \<longrightarrow> no_sandbox c1"
    "\<And>i. om_find (ct_nodeMap c1) i = (if i = k \<and> dead now c k then None else om_find (ct_nodeMap c) i)" by blast
  have d: "dead now c1 i \<longleftrightarrow> dead now c i \<and> i \<noteq> k" for i by (auto simp: dead_def 1(4))
  obtain c2 where 2: "ct_each (timeout_node now) ks c1 = (Inr (), c2)" "\<exists>D'. ct_inv D' c2" "no_sandbox c1 \<longrightarrow> no_sandbox c2"
    "\<And>i. om_find (ct_nodeMap c2) i = (if i \<in> set ks \<and> dead now c1 i then None else om_find (ct_nodeMap c1) i)"
    using Cons.IH [OF 1(2)] by blast
  have "om_find (ct_nodeMap c2) i = (if i \<in> set (k # ks) \<and> dead now c i then None else om_find (ct_nodeMap c) i)" for i
    by (auto simp: 2(4) 1(4) d)
  then show ?case using 1 2 by simp
qed auto

lemma heartbeat_sound:
  assumes i: "ct_inv D c" and b: "b \<Longrightarrow> no_sandbox c"
  shows "sound b D (heartbeat_request env j c)"
  unfolding heartbeat_request_def
proof (rule sound_then [OF sound_lift [OF i b]])
  fix k c1 assume i1: "ct_inv D c1" and b1: "b \<Longrightarrow> no_sandbox c1"
  have "ct_inv D (on_node k (updateHeartbeat (ce_now env)) c1)"
    by (rule ct_inv_on_node [OF i1]) (use ct_inv_node [OF i1] in \<open>auto simp: updateHeartbeat_def node_ok_def\<close>)
  then show "sound b D (if om_find (ct_nodeMap c1) k \<noteq> None
      then (Inr (reply ''success''), on_node k (updateHeartbeat (ce_now env)) c1) else (Inr (reply ''fail''), c1))"
    using i1 b1 by (simp add: sound_ret)
qed simp_all

lemma disconnect_sound:
  assumes i: "ct_inv D c" and b: "b \<Longrightarrow> no_sandbox c"
  shows "\<exists>D'. sound b D' (disconnect_request j c)"
proof (cases "get_string (jmember j ''id'')")
  case (Inl x)
  then show ?thesis using i b by (auto simp: disconnect_request_def sound_def)
next
  case (Inr k)
  show ?thesis
  proof (cases "om_find (ct_nodeMap c) k")
    case None
    then show ?thesis using i b Inr by (auto simp: disconnect_request_def sound_def)
  next
    case (Some n)
    then show ?thesis using disconnect_ok [OF i Some] b Inr by (auto simp: disconnect_request_def sound_def)
  qed
qed

lemma requestHandler_sound:
  assumes i: "ct_inv D c" and b: "b \<Longrightarrow> no_sandbox c \<and> \<not> ce_sandbox env"
  shows "\<exists>D'. sound b D' (requestHandler env req c)"
proof -
  have b': "b \<Longrightarrow> no_sandbox c" using b by blast
  show ?thesis
  proof (cases req)
    case None
    then show ?thesis using i b' by (auto simp: requestHandler_def sound_def)
  next
    case (Some j)
    show ?thesis
    proof (cases "get_string (jmember j ''type'')")
      case (Inl x)
      then show ?thesis using Some i b' configure_sound [OF i b] by (auto simp: requestHandler_def sound_def)
    next
      case (Inr ty)
      then show ?thesis using Some heartbeat_sound [of D c b env j] disconnect_sound [of D c b j] configure_sound [of D c b env j] i b b'
        by (auto simp: requestHandler_def)
    qed
  qed
qed

section \<open>Runs of the controller\<close>

lemma pool_drop_length: "pool_drop k s h = Some h' \<Longrightarrow> \<exists>p. h' = h\<lparr>hp_pools := p\<rparr> \<and> length p = length (hp_pools h)"
  by (auto simp: pool_drop_def split: if_splits)

lemma worker_enqueue_chan:
  assumes i: "chan_inv h im" and s: "sig_iq sig \<noteq> None" and e: "worker_enqueue rid sig (h, im) = Some (h', im')"
  shows "chan_inv h' im' \<and> heap_ids h h' \<and> im_freq im' = im_freq im \<and> im_sandboxNodes im' = im_sandboxNodes im"
proof -
  have h: "heap_ids h h1" if "h1 = h \<or> pool_drop 0 x h = Some h1" for x h1
    using that pool_drop_length by (fastforce simp: heap_ids_def)
  have drop: "pool_drop 0 sig h = Some h' \<Longrightarrow> chan_inv h' im \<and> heap_ids h h'" using h chan_inv_heap [OF i] by blast
  have q: "chan_inv h (im\<lparr>im_workers := om_set rid (w\<lparr>wc_queue := q\<rparr>) (im_workers im)\<rparr>)"
    if "\<And>x. x \<in> set q \<Longrightarrow> sig_iq x \<noteq> None" for w q
  proof (rule chan_invI)
    fix s d c assume "om_find (im_channelMap (im\<lparr>im_workers := om_set rid (w\<lparr>wc_queue := q\<rparr>) (im_workers im)\<rparr>)) (s, d) = Some c"
    then have "om_find (im_channelMap im) (s, d) = Some c" by simp
    from chan_inv_link [OF i this] show "ch_source c = s \<and> ch_dest c = d \<and>
      (om_find (im_sourceMap (im\<lparr>im_workers := om_set rid (w\<lparr>wc_queue := q\<rparr>) (im_workers im)\<rparr>)) s \<noteq> None \<or>
       om_find (im_sandboxNodes (im\<lparr>im_workers := om_set rid (w\<lparr>wc_queue := q\<rparr>) (im_workers im)\<rparr>)) s \<noteq> None) \<and>
      (om_find (im_destinationMap (im\<lparr>im_workers := om_set rid (w\<lparr>wc_queue := q\<rparr>) (im_workers im)\<rparr>)) d \<noteq> None \<or>
       om_find (im_sandboxNodes (im\<lparr>im_workers := om_set rid (w\<lparr>wc_queue := q\<rparr>) (im_workers im)\<rparr>)) d \<noteq> None)" by simp
  qed (use chan_inv_wf [OF i] chan_inv_src [OF i] chan_inv_dest [OF i] chan_inv_queue [OF i] that in
      \<open>auto simp: om_find_set split: if_splits\<close>)
  show ?thesis
  proof (cases "om_find (im_workers im) rid")
    case None
    then show ?thesis using e drop by (auto simp: worker_enqueue_def)
  next
    case (Some w)
    have W: "sig_iq x \<noteq> None" if "x \<in> set (wc_queue w)" for x using chan_inv_queue [OF i Some that] .
    show ?thesis
    proof (cases "wc_running_flag w")
      case False
      then show ?thesis using e drop Some by (auto simp: worker_enqueue_def)
    next
      case True
      let ?X = "if QUEUE_CAP - 1 \<le> length (wc_queue w)
                       then (case wc_queue w of
                               [] \<Rightarrow> Some ([], h)
                             | s # q \<Rightarrow> map_option (\<lambda>h'. (q, h')) (pool_drop 0 s h))
                       else Some (wc_queue w, h)"
      obtain r h1 where X: "?X = Some (r, h1)"
        and k: "(if length r < QUEUE_CAP then Some (h1, im\<lparr>im_workers := om_set rid (w\<lparr>wc_queue := r @ [sig]\<rparr>) (im_workers im)\<rparr>)
           else map_option (\<lambda>h'. (h', im\<lparr>im_workers := om_set rid (w\<lparr>wc_queue := r\<rparr>) (im_workers im)\<rparr>)) (pool_drop 0 sig h1)) = Some (h', im')"
        using e Some True by (cases ?X) (auto simp: worker_enqueue_def)
      have r: "h1 = h \<or> (\<exists>x. pool_drop 0 x h = Some h1)" "set r \<subseteq> set (wc_queue w)"
        using X by (auto split: if_splits list.splits)
      have h1: "heap_ids h h1" using h r(1) by blast
      have h2: "heap_ids h1 h'" using k pool_drop_length by (fastforce simp: heap_ids_def split: if_splits)
      have "chan_inv h im' \<and> im_freq im' = im_freq im \<and> im_sandboxNodes im' = im_sandboxNodes im"
        using k q [of "r @ [sig]" w] q [of r w] W r(2) s by (auto split: if_splits)
      then show ?thesis using chan_inv_heap heap_ids_trans [OF h1 h2] by blast
    qed
  qed
qed

text \<open>Requests without sandbox mode, passes of the timeout loop, and signals that arrive at a worker. These
  states are more than those of the program: a request that ends in an exception ends the process, and here the
  state it leaves behind counts too. What holds in all of them holds in particular in the runs of the program, \<open>ct_run\<close> below.\<close>

inductive ct_reach :: "Controller \<Rightarrow> bool" where
  start: "ct_reach (Controller_new [] [] pd rx tx item False n)"
| request: "ct_reach c \<Longrightarrow> \<not> ce_sandbox env \<Longrightarrow> ct_reach (snd (requestHandler env req c))"
| timeout: "ct_reach c \<Longrightarrow> ct_reach (snd (CheckTimeouts_pass now c))"
| arrival: "ct_reach c \<Longrightarrow> om_find (ct_intermediateMap c) f = Some im \<Longrightarrow> sig_iq sig \<noteq> None \<Longrightarrow>
    worker_enqueue rid sig (ct_heap c, im) = Some (h', im') \<Longrightarrow>
    ct_reach (c\<lparr>ct_heap := h', ct_intermediateMap := om_set f im' (ct_intermediateMap c)\<rparr>)"

lemma ct_reach_inv:
  assumes "ct_reach c"
  shows "(\<exists>D. ct_inv D c) \<and> no_sandbox c"
  using assms
proof (induction rule: ct_reach.induct)
  case (start pd rx tx item n)
  have "ct_inv {} (Controller_new [] [] pd rx tx item False n)"
    by (simp add: ct_inv_def Controller_new_def Let_def om_find_Nil)
  moreover have "no_sandbox (Controller_new [] [] pd rx tx item False n)"
    by (simp add: no_sandbox_def Controller_new_def Let_def om_find_Nil)
  ultimately show ?case by blast
next
  case (request c env req)
  then show ?case using requestHandler_sound [of _ c True env req] by (fastforce simp: sound_def)
next
  case (timeout c now)
  then obtain D where "ct_inv D c" "no_sandbox c" by blast
  then show ?case using timeouts_ok [of D c now "om_keys (ct_nodeMap c)"] by (auto simp: CheckTimeouts_pass_def)
next
  case (arrival c f im sig rid h' im')
  then obtain D where i: "ct_inv D c" and b: "no_sandbox c" by blast
  have "sound True D (on_channel_at f (\<lambda>h im. worker_enqueue rid sig (h, im)) c)"
    by (rule sound_channel [OF i]) (use b arrival worker_enqueue_chan in \<open>auto simp: no_sandbox_def\<close>)
  moreover have "on_channel_at f (\<lambda>h im. worker_enqueue rid sig (h, im)) c =
      (Inr (), c\<lparr>ct_heap := h', ct_intermediateMap := om_set f im' (ct_intermediateMap c)\<rparr>)"
    using arrival by (simp add: on_channel_at_def)
  ultimately show ?case by (auto simp: sound_def)
qed

section \<open>Exceptions\<close>

text \<open>The runs of the program: an exception that leaves the request handler is caught by nobody and ends the
  process, so only a request that was answered has a state after it.\<close>

inductive ct_run :: "Controller \<Rightarrow> bool" where
  start: "ct_run (Controller_new [] [] pd rx tx item False n)"
| request: "ct_run c \<Longrightarrow> \<not> ce_sandbox env \<Longrightarrow> requestHandler env req c = (Inr resp, c') \<Longrightarrow> ct_run c'"
| timeout: "ct_run c \<Longrightarrow> CheckTimeouts_pass now c = (Inr (), c') \<Longrightarrow> ct_run c'"
| arrival: "ct_run c \<Longrightarrow> om_find (ct_intermediateMap c) f = Some im \<Longrightarrow> sig_iq sig \<noteq> None \<Longrightarrow>
    worker_enqueue rid sig (ct_heap c, im) = Some (h', im') \<Longrightarrow>
    ct_run (c\<lparr>ct_heap := h', ct_intermediateMap := om_set f im' (ct_intermediateMap c)\<rparr>)"

lemma ct_run_reach: "ct_run c \<Longrightarrow> ct_reach c"
proof (induction rule: ct_run.induct)
  case (request c env req resp c')
  then show ?case using ct_reach.request [of c env req] by simp
next
  case (timeout c now c')
  then show ?case using ct_reach.timeout [of c now] by simp
qed (auto intro: ct_reach.intros)

text \<open>In these runs every stored node has a channel, because a registration without one does not return.\<close>

definition tuned_nodes :: "Controller \<Rightarrow> bool" where
  "tuned_nodes c \<longleftrightarrow> (\<forall>i n. om_find (ct_nodeMap c) i = Some n \<longrightarrow> nc_channels (nd_config n) \<noteq> [])"

text \<open>A handler that does not throw and keeps that.\<close>

definition nothrow :: "'a ct_result \<Rightarrow> bool" where
  "nothrow r \<longleftrightarrow> (\<forall>ex. fst r \<noteq> Inl (Thrown ex)) \<and> tuned_nodes (snd r)"

lemma nothrow_then:
  assumes "nothrow r" "\<And>x c. r = (Inr x, c) \<Longrightarrow> tuned_nodes c \<Longrightarrow> nothrow (f x c)"
  shows "nothrow (ct_then r f)"
proof (cases r)
  case (Pair x c)
  then show ?thesis using assms by (cases x) (auto simp: nothrow_def)
qed

lemma nothrow_simps [simp]:
  "nothrow (Inr x, c) = tuned_nodes c" "nothrow (Inl Crash, c) = tuned_nodes c"
  "nothrow (ct_crash y c) = tuned_nodes c" "nothrow (ct_lift (Inr z) c) = tuned_nodes c"
  by (simp_all add: nothrow_def ct_crash_def split: option.split)

lemma ct_Inr [simp]: "ct_crash y c = (Inr x, c') \<longleftrightarrow> y = Some x \<and> c' = c" "ct_lift z c = (Inr x, c') \<longleftrightarrow> z = Inr x \<and> c' = c"
  by (auto simp: ct_crash_def ct_lift_def split: option.splits sum.splits)

lemma tuned_nodes_cong: "ct_nodeMap c' = ct_nodeMap c \<Longrightarrow> tuned_nodes c' = tuned_nodes c"
  by (simp add: tuned_nodes_def)

lemma tuned_nodes_frame [simp]:
  "tuned_nodes (on_rx r f c) = tuned_nodes c" "tuned_nodes (on_tx r g c) = tuned_nodes c" "tuned_nodes (db_exec q c) = tuned_nodes c"
  "tuned_nodes (CreateChannel x y c) = tuned_nodes c" "tuned_nodes (snd (AssignTXPort c)) = tuned_nodes c"
  "tuned_nodes (snd (AssignRXPort c)) = tuned_nodes c" "tuned_nodes (c\<lparr>ct_heap := h\<rparr>) = tuned_nodes c"
  "tuned_nodes (isChannelEmpty x c) = tuned_nodes c"
  by (rule tuned_nodes_cong; simp add: isChannelEmpty_def split: option.split)+

lemma tuned_on_node:
  "tuned_nodes c \<Longrightarrow> (\<And>n. nc_channels (nd_config n) \<noteq> [] \<Longrightarrow> nc_channels (nd_config (f n)) \<noteq> []) \<Longrightarrow> tuned_nodes (on_node i f c)"
  by (auto simp: tuned_nodes_def)

lemma tuned_on_config:
  "tuned_nodes c \<Longrightarrow> (\<And>m. nc_channels m \<noteq> [] \<Longrightarrow> nc_channels (f m) \<noteq> []) \<Longrightarrow> tuned_nodes (on_config i f c)"
  unfolding on_config_def by (rule tuned_on_node) auto

lemma tuned_config: "tuned_nodes c \<Longrightarrow> node_config i c = Some nc \<Longrightarrow> nc_channels nc \<noteq> []"
  by (auto simp: tuned_nodes_def node_config_def)

lemma nothrow_channel: "tuned_nodes c \<Longrightarrow> nothrow (on_channel_at f g c)"
  unfolding on_channel_at_def by (intro nothrow_then) (auto simp: tuned_nodes_def)

lemma nothrow_leave: "tuned_nodes c \<Longrightarrow> nothrow (leave_channel f g b c)"
  by (auto simp: leave_channel_def intro: nothrow_then nothrow_channel)

lemma nothrow_config:
  assumes "tuned_nodes c" "\<And>nc. nc_channels nc \<noteq> [] \<Longrightarrow> nothrow (f nc c)"
  shows "nothrow (ct_then (ct_crash (node_config i c) c) f)"
  using assms tuned_config [OF assms(1)] by (auto intro!: nothrow_then)

lemma CreateReceiver_nothrow: "tuned_nodes c \<Longrightarrow> nothrow (CreateReceiver env i c)"
  unfolding CreateReceiver_def Let_def split_beta
  by (rule nothrow_config) (auto simp: Receiver_new_def tuned_on_config neq_Nil_conv)

lemma CreateTransmitter_nothrow: "tuned_nodes c \<Longrightarrow> nothrow (CreateTransmitter i c)"
  unfolding CreateTransmitter_def Let_def split_beta
  by (rule nothrow_config) (auto simp: Transmitter_new_def tuned_on_config neq_Nil_conv)

lemma node_receiver_nothrow: "tuned_nodes c \<Longrightarrow> nothrow (node_receiver env i c)"
  unfolding node_receiver_def
  by (auto intro!: nothrow_then CreateReceiver_nothrow tuned_on_node simp: setReceiver_def split: option.split)

lemma node_transmitter_nothrow: "tuned_nodes c \<Longrightarrow> nothrow (node_transmitter env i c)"
  unfolding node_transmitter_def
  by (auto intro!: nothrow_then CreateTransmitter_nothrow tuned_on_node simp: setTransmitter_def split: option.split)

lemma retune_freq:
  "nc_channels m \<noteq> [] \<Longrightarrow> \<exists>m'. updateTxFreq f 0 m = Inr m' \<and> nc_channels m' \<noteq> []"
  "nc_channels m \<noteq> [] \<Longrightarrow> \<exists>m'. updateRxFreq f 0 m = Inr m' \<and> nc_channels m' \<noteq> []"
  by (auto simp: updateTxFreq_def updateRxFreq_def)

lemma join_nothrow:
  assumes "tuned_nodes c"
  shows "nothrow (join_UL env i nc r c)" "nothrow (join_DL env i nc t c)"
proof -
  show "nothrow (join_UL env i nc r c)" unfolding join_UL_def Let_def
  proof (rule nothrow_config [OF assms])
    fix m :: NodeConfig assume "nc_channels m \<noteq> []"
    then obtain m' where "updateTxFreq (first_freq uch_txTuneFreq nc) 0 m = Inr m'" "nc_channels m' \<noteq> []" using retune_freq(1) by blast
    then show "nothrow (ct_then (ct_lift (updateTxFreq (first_freq uch_txTuneFreq nc) 0 m) c) (\<lambda>nc' c.
        ct_then (on_channel_at (first_freq uch_txTuneFreq nc) (attach_src env i (nc_numChannels nc) r)
          (if ce_sandbox env then on_config i (\<lambda>_. nc') c
           else on_rx r (Receiver_setSampleRate (rate32 (sr_txRate (nc_sample_rate nc'))) \<circ> Receiver_updateFreq (first_freq uch_txTuneFreq nc)) (on_config i (\<lambda>_. nc') c)))
        (\<lambda>_ c. (Inr True, c))))"
      using assms by (auto intro!: nothrow_then nothrow_channel tuned_on_config)
  qed
  show "nothrow (join_DL env i nc t c)" unfolding join_DL_def Let_def
  proof (rule nothrow_config [OF assms])
    fix m :: NodeConfig assume "nc_channels m \<noteq> []"
    then obtain m' where "updateRxFreq (first_freq uch_rxTuneFreq nc) 0 m = Inr m'" "nc_channels m' \<noteq> []" using retune_freq(2) by blast
    then show "nothrow (ct_then (ct_lift (updateRxFreq (first_freq uch_rxTuneFreq nc) 0 m) c) (\<lambda>nc' c.
        ct_then (on_channel_at (first_freq uch_rxTuneFreq nc) (attach_dest env i (nc_numChannels nc) t)
          (if ce_sandbox env then on_config i (\<lambda>_. nc') c
           else on_tx t (Transmitter_setSampleRate (rate32 (sr_rxRate (nc_sample_rate nc'))) \<circ> Transmitter_updateFreq (first_freq uch_rxTuneFreq nc)) (on_config i (\<lambda>_. nc') c)))
        (\<lambda>_ c. (Inr True, c))))"
      using assms by (auto intro!: nothrow_then nothrow_channel tuned_on_config)
  qed
qed

lemma retune_nothrow:
  assumes "tuned_nodes c"
  shows "nothrow (retune_UL env i nc r f b c)" "nothrow (retune_DL env i nc r f b c)"
  unfolding retune_UL_def retune_DL_def Let_def
  by (auto intro!: nothrow_then [OF nothrow_leave [OF assms]] join_nothrow tuned_on_config)

lemma Assign_nothrow:
  assumes "tuned_nodes c"
  shows "nothrow (AssignULChannel env i nc c)" "nothrow (AssignDLChannel env i nc c)"
  unfolding AssignULChannel_def AssignDLChannel_def Let_def using assms
  by (auto intro!: nothrow_then node_receiver_nothrow node_transmitter_nothrow retune_nothrow)

lemma AddNode_nothrow: "tuned_nodes c \<Longrightarrow> nothrow (AddNode i c)"
  by (cases "om_find (ct_nodeMap c) i") (use AddNode_ok [of c i] in \<open>auto simp: tuned_nodes_def AddNode_def\<close>)

lemma serve_nothrow:
  assumes "tuned_nodes c"
  shows "nothrow (serve env nc new c)"
  unfolding serve_def
proof (rule nothrow_then)
  fix n c' assume "ct_crash (om_find (ct_nodeMap c) (nc_id nc)) c = (Inr n, c')" and t: "tuned_nodes c'"
  then have n: "om_find (ct_nodeMap c') (nc_id nc) = Some n" by simp
  obtain n1 nc1 hs where r: "refreshFromConfig (ce_now env) nc n (ct_vehicleHandlers c') = (n1, nc1, hs)" by (metis prod_cases3)
  have "nc_channels (nd_config n1) \<noteq> []" using refreshFromConfig_ok(1) [OF r] n t by (auto simp: nd_owned_def tuned_nodes_def)
  then have "tuned_nodes (c'\<lparr>ct_vehicleHandlers := hs, ct_nodeMap := om_set (nc_id nc) n1 (ct_nodeMap c')\<rparr>)"
    using t by (auto simp: tuned_nodes_def om_find_set split: if_splits)
  then show "nothrow (let ident = nc_id nc; (target', nodeConfig', hs) = refreshFromConfig (ce_now env) nc n (ct_vehicleHandlers c');
           c1 = c'\<lparr>ct_vehicleHandlers := hs, ct_nodeMap := om_set ident target' (ct_nodeMap c')\<rparr>
       in ct_then (AssignULChannel env ident nodeConfig' c1) (\<lambda>ul c.
          ct_then (AssignDLChannel env ident nodeConfig' c) (\<lambda>dl c.
          ct_then (ct_crash (om_find (ct_nodeMap c) ident) c) (\<lambda>target c.
            if \<not> (ul \<or> dl) \<and> \<not> new then
              (Inr (if compare nodeConfig' target then reply_ports (nd_config target) else reply ''fail''), c)
            else ct_then (AddNode ident c) (\<lambda>_ c. (Inr (reply_ports (nd_config target)), c))))))"
    by (simp add: Let_def r) (auto intro!: nothrow_then Assign_nothrow AddNode_nothrow)
qed (use assms in simp)

lemma configure_nothrow:
  assumes "tuned_nodes c" "nc_channels (request_config env j) \<noteq> [] \<or> om_find (ct_nodeMap c) (nc_id (request_config env j)) \<noteq> None"
  shows "nothrow (configure env j c)"
proof -
  let ?nc = "request_config env j"
  have "nothrow (GetOrCreateNode (Node_new (ce_now env) ?nc) c)"
  proof (cases "om_find (ct_nodeMap c) (nc_id ?nc)")
    case None
    have "tuned_nodes (c\<lparr>ct_nodeMap := om_insert (nc_id ?nc) (Node_new (ce_now env) ?nc) (ct_nodeMap c)\<rparr>)"
      using assms None by (auto simp: tuned_nodes_def om_find_insert Node_new_def split: option.splits if_splits)
    then show ?thesis using None unfolding GetOrCreateNode_def Let_def
      by (auto intro!: nothrow_then AddNode_nothrow simp: Node_new_def [of _ ?nc])
  next
    case (Some n)
    then show ?thesis using assms(1) by (simp add: GetOrCreateNode_def Node_new_def Let_def)
  qed
  then show ?thesis unfolding configure_def Let_def by (auto intro!: nothrow_then serve_nothrow)
qed

lemma configure_throws:
  assumes "nc_channels (request_config env j) = []" "om_find (ct_nodeMap c) (nc_id (request_config env j)) = None"
  shows "\<exists>ex c'. configure env j c = (Inl (Thrown ex), c')"
  using assms
  by (simp add: configure_def GetOrCreateNode_def AddNode_def AddNode_sql_def Node_new_def om_find_insert Let_def)

lemma ct_run_tuned: "ct_run c \<Longrightarrow> tuned_nodes c"
proof (induction rule: ct_run.induct)
  case (request c env req resp c')
  obtain D where i: "ct_inv D c" using ct_reach_inv [OF ct_run_reach [OF request.hyps(1)]] by blast
  show ?case
  proof (cases req)
    case None
    then show ?thesis using request by (auto simp: requestHandler_def)
  next
    case (Some j)
    have conf: "tuned_nodes c'" if "configure env j c = (Inr resp, c')"
      using that configure_throws [of env j c] configure_nothrow [OF request.IH, of env j] by (auto simp: nothrow_def)
    have beat: "tuned_nodes c'" if "heartbeat_request env j c = (Inr resp, c')"
      using that request.IH
      by (auto simp: heartbeat_request_def ct_then_Inr updateHeartbeat_def intro!: tuned_on_node split: if_splits)
    have "tuned_nodes c'" if d: "disconnect_request j c = (Inr resp, c')"
    proof -
      obtain k where k: "get_string (jmember j ''id'') = Inr k" using d by (auto simp: disconnect_request_def ct_then_Inr)
      show ?thesis
      proof (cases "om_find (ct_nodeMap c) k")
        case None
        then show ?thesis using d k request.IH by (simp add: disconnect_request_def)
      next
        case (Some n)
        then have "departed k n c c'" using disconnect_ok [OF i Some] d k by (auto simp: disconnect_request_def)
        then show ?thesis using request.IH by (simp add: departed_def tuned_nodes_def)
      qed
    qed
    then show ?thesis using request.hyps(3) Some conf beat
      by (auto simp: requestHandler_def ct_then_Inr split: if_splits)
  qed
next
  case (timeout c now c')
  obtain D where i: "ct_inv D c" using ct_reach_inv [OF ct_run_reach [OF timeout.hyps(1)]] by blast
  then show ?case using timeouts_ok [OF i, of now "om_keys (ct_nodeMap c)"] timeout
    by (auto simp: CheckTimeouts_pass_def tuned_nodes_def split: if_splits)
qed (auto simp: tuned_nodes_def Controller_new_def Let_def)

text \<open>The requests the controller has an answer for. Bytes that are not JSON are answered. The member \<open>type\<close> has to be a
  string if there is one, a heartbeat and a disconnect have to carry a string as \<open>id\<close>, and the registration of a node that
  is not known has to carry a channel.\<close>

definition acceptable :: "ct_env \<Rightarrow> json option \<Rightarrow> Controller \<Rightarrow> bool" where
  "acceptable env req c =
     (case req of
        None \<Rightarrow> True
      | Some j \<Rightarrow>
          let registers = (nc_channels (request_config env j) \<noteq> [] \<or> om_find (ct_nodeMap c) (nc_id (request_config env j)) \<noteq> None)
          in if contains j ''type''
             then (case jmember j ''type'' of
                     JStr ty \<Rightarrow> if ty = ''heartbeat'' \<or> ty = ''disconnect'' then is_string (jmember j ''id'') else registers
                   | _ \<Rightarrow> False)
             else registers)"

lemma get_string_iff: "(\<exists>s. get_string v = Inr s) \<longleftrightarrow> is_string v"
  by (cases v) simp_all

section \<open>Properties\<close>

text \<open>C2. Outside sandbox mode, in every run of the program (requests, well-formed or not, from any node, that were answered,
  timeout passes and signal arrivals, in any order): a request is answered if and only if it is \<open>acceptable\<close>, that is, not JSON
  at all, or its \<open>type\<close>, if there is one, is a string, a heartbeat or a disconnect carries a string as \<open>id\<close>, and the registration of
  a node that is not known lists a channel. Any other request ends in a C++ exception, which nothing catches, so it ends the process. No request
  and no timeout pass ever dereferences a missing endpoint or channel, and the next timeout pass always completes.\<close>

theorem controller_answers_acceptable:
  assumes "ct_run c" and "\<not> ce_sandbox env"
  shows "(if acceptable env req c then \<exists>resp c'. requestHandler env req c = (Inr resp, c')
      else \<exists>ex c'. requestHandler env req c = (Inl (Thrown ex), c')) \<and>
    (\<exists>c'. CheckTimeouts_pass now c = (Inr (), c'))"
proof -
  obtain D where i: "ct_inv D c" and b: "no_sandbox c" using ct_reach_inv [OF ct_run_reach [OF assms(1)]] by blast
  have t: "tuned_nodes c" by (rule ct_run_tuned [OF assms(1)])
  have "\<exists>D'. sound True D' (requestHandler env req c)" by (rule requestHandler_sound [OF i]) (use b assms(2) in auto)
  then have nc: "fst (requestHandler env req c) \<noteq> Inl Crash" by (auto simp: sound_def)
  have conf: "\<exists>ex c'. configure env j c = (Inl (Thrown ex), c')"
    if "\<not> (nc_channels (request_config env j) \<noteq> [] \<or> om_find (ct_nodeMap c) (nc_id (request_config env j)) \<noteq> None)" for j
    using that by (intro configure_throws) simp_all
  have beat: "\<exists>x. fst (heartbeat_request env j c) = Inr x" if "get_string (jmember j ''id'') = Inr k" for j k
    using that by (simp add: heartbeat_request_def)
  have disc: "\<exists>x. fst (disconnect_request j c) = Inr x" if "get_string (jmember j ''id'') = Inr k" for j k
    using that disconnect_ok [OF i, of k] by (cases "om_find (ct_nodeMap c) k") (fastforce simp: disconnect_request_def)+
  have "if acceptable env req c then (\<forall>ex. fst (requestHandler env req c) \<noteq> Inl (Thrown ex))
      else \<exists>ex c'. requestHandler env req c = (Inl (Thrown ex), c')"
  proof (cases req)
    case (Some j)
    show ?thesis
    proof (cases "contains j ''type''")
      case False
      then show ?thesis using Some configure_nothrow [OF t, of env j] conf [of j]
        by (auto simp: acceptable_def requestHandler_def nothrow_def)
    next
      case True
      show ?thesis
      proof (cases "jmember j ''type''")
        case (JStr ty)
        show ?thesis
        proof (cases "ty = ''heartbeat'' \<or> ty = ''disconnect''")
          case True
          then show ?thesis using Some JStr \<open>contains j ''type''\<close> beat [of j] disc [of j] get_string_iff [of "jmember j ''id''"]
            by (cases "get_string (jmember j ''id'')")
              (auto simp: acceptable_def requestHandler_def heartbeat_request_def [of env j] disconnect_request_def [of j])
        next
          case False
          then show ?thesis using Some JStr True configure_nothrow [OF t, of env j] conf [of j]
            by (auto simp: acceptable_def requestHandler_def nothrow_def)
        qed
      qed (use Some True in \<open>simp_all add: acceptable_def requestHandler_def\<close>)
    qed
  qed (simp add: acceptable_def requestHandler_def)
  moreover have "\<exists>resp c'. requestHandler env req c = (Inr resp, c')" if "\<forall>ex. fst (requestHandler env req c) \<noteq> Inl (Thrown ex)"
    using that nc by (metis ct_error.exhaust prod.collapse sum.exhaust)
  moreover have "\<exists>c'. CheckTimeouts_pass now c = (Inr (), c')"
    using timeouts_ok [OF i, of now "om_keys (ct_nodeMap c)"] by (auto simp: CheckTimeouts_pass_def)
  ultimately show ?thesis by (auto split: if_splits)
qed

definition fresh_controller :: Controller where
  "fresh_controller = Controller_new [] [] None (\<lambda>_. example_receiver) (\<lambda>_. example_transmitter) 0 False 1"

lemma fresh_reach: "ct_reach fresh_controller"
  unfolding fresh_controller_def by (rule ct_reach.start)

definition connected_controller :: Controller where
  "connected_controller = snd (requestHandler example_ct_env (Some (example_request ''a'' 3500000000)) fresh_controller)"

lemma connected_reach: "ct_reach connected_controller"
  unfolding connected_controller_def by (rule ct_reach.request [OF fresh_reach]) (simp add: example_ct_env_def)

lemma fresh_run: "ct_run fresh_controller"
  unfolding fresh_controller_def by (rule ct_run.start)

text \<open>A registration with a channel is answered, one with an empty list of channels ends the program.\<close>

theorem controller_answers_acceptable_witness:
  "(\<exists>resp c'. requestHandler example_ct_env (Some (example_request ''a'' 3500000000)) fresh_controller = (Inr resp, c')) \<and>
   (\<exists>ex c'. requestHandler example_ct_env (Some (JObj [(''channels'', JArr []), (''id'', JStr ''a'')])) fresh_controller = (Inl (Thrown ex), c'))"
proof
  have "acceptable example_ct_env (Some (example_request ''a'' 3500000000)) fresh_controller"
    by (simp add: acceptable_def example_request_config Let_def)
  then show "\<exists>resp c'. requestHandler example_ct_env (Some (example_request ''a'' 3500000000)) fresh_controller = (Inr resp, c')"
    using controller_answers_acceptable [OF fresh_run, of example_ct_env "Some (example_request ''a'' 3500000000)" 0]
    by (simp add: example_ct_env_def)
  have "\<not> acceptable example_ct_env (Some (JObj [(''channels'', JArr []), (''id'', JStr ''a'')])) fresh_controller"
    by (simp add: acceptable_def no_channels_config NodeConfig_new_def contains_def om_find_def fresh_controller_def Controller_new_def Let_def)
  then show "\<exists>ex c'. requestHandler example_ct_env (Some (JObj [(''channels'', JArr []), (''id'', JStr ''a'')])) fresh_controller = (Inl (Thrown ex), c')"
    using controller_answers_acceptable [OF fresh_run, of example_ct_env "Some (JObj [(''channels'', JArr []), (''id'', JStr ''a'')])" 0]
    by (simp add: example_ct_env_def)
qed




text \<open>C12. One pass of the timeout loop removes exactly the nodes whose last heartbeat is ten seconds old or
  older, and always completes.\<close>

theorem timeout_pass_exact:
  assumes "ct_reach c"
  shows "\<exists>c'. CheckTimeouts_pass now c = (Inr (), c') \<and>
    (\<forall>k. om_find (ct_nodeMap c') k =
       (case om_find (ct_nodeMap c) k of
          None \<Rightarrow> None
        | Some n \<Rightarrow> if now - nd_lastHeartbeat n < 10000000000 then Some n else None))"
proof -
  obtain D where i: "ct_inv D c" using ct_reach_inv [OF assms] by blast
  from timeouts_ok [OF i, of now "om_keys (ct_nodeMap c)"] obtain c' where
    "CheckTimeouts_pass now c = (Inr (), c')"
    "\<And>k. om_find (ct_nodeMap c') k = (if k \<in> set (om_keys (ct_nodeMap c)) \<and> dead now c k then None else om_find (ct_nodeMap c) k)"
    by (auto simp: CheckTimeouts_pass_def)
  then show ?thesis by (auto simp: dead_def om_keys_iff isAlive_iff split: option.split)
qed

theorem timeout_pass_exact_witness:
  "\<exists>c'. CheckTimeouts_pass 99000000000 connected_controller = (Inr (), c') \<and>
     (\<forall>n. om_find (ct_nodeMap c') ''a'' = Some n \<longrightarrow> 89000000000 < nd_lastHeartbeat n)"
  using timeout_pass_exact [OF connected_reach, of 99000000000] by (fastforce split: option.splits if_splits)

end
