(* ===== verification/Runtime_Config.thy ===== *)
theory Runtime_Config
  imports Node_Config
begin

text \<open>
  The settings of the program: the start-up configuration of \<open>src/chem/config.cpp\<close>, the
  values that can be changed while it runs (\<open>include/chem/runtime_config.h\<close>), and the
  copy-on-write store of node locations (\<open>include/chem/location_store.h\<close>).

  \<open>Config::read\<close> assigns field by field inside one \<open>try\<close> block from a configuration it
  subscripts with the non-constant \<open>operator[]\<close>: a missing key becomes a null member of the
  configuration, and an exception ends the block with the fields read so far.
\<close>

section \<open>Run-time values\<close>

record RuntimeConfig =
  rc_channel_update_rate_ms :: int
  rc_vehicle_poll_rate_ms :: int
  rc_cir_max_taps :: int
  rc_sandbox_enabled :: bool
  rc_sandbox_update_rate_ms :: int

definition CH_UPD_RATE :: int where
  "CH_UPD_RATE = 100"

definition RuntimeConfig_init :: RuntimeConfig where
  "RuntimeConfig_init = \<lparr>rc_channel_update_rate_ms = CH_UPD_RATE, rc_vehicle_poll_rate_ms = 100,
     rc_cir_max_taps = 64, rc_sandbox_enabled = False, rc_sandbox_update_rate_ms = 500\<rparr>"

section \<open>The configuration file\<close>

record Config =
  cf_configuration :: json
  cf_path :: string
  cf_controllerIpaddr :: string
  cf_controllerPort :: u16
  cf_coordIpaddress :: string
  cf_coordPort :: u16
  cf_maxNode :: byte
  cf_logDirectory :: string
  cf_logLevel :: string
  cf_cpuAffinity :: string
  cf_numaNode :: int
  cf_maxCores :: int
  cf_numaEnabled :: bool
  cf_extensionsConfig :: json
  cf_sandboxEnabled :: bool
  cf_sandboxMiddlemanUrl :: string
  cf_sandboxUpdateRateMs :: int

definition Config_new :: Config where
  "Config_new = \<lparr>cf_configuration = JNull, cf_path = '''', cf_controllerIpaddr = ''0.0.0.0'',
     cf_controllerPort = 10000, cf_coordIpaddress = ''0.0.0.0'', cf_coordPort = 5000, cf_maxNode = 2,
     cf_logDirectory = ''chem.log'', cf_logLevel = ''info'', cf_cpuAffinity = '''', cf_numaNode = - 1,
     cf_maxCores = 10, cf_numaEnabled = True, cf_extensionsConfig = JObj [], cf_sandboxEnabled = False,
     cf_sandboxMiddlemanUrl = ''http://localhost:8080'', cf_sandboxUpdateRateMs = 500\<rparr>"

text \<open>\<open>j[k]\<close> on a value that is not constant: the member, created as null when it is missing.\<close>

fun jindex :: "string \<Rightarrow> json \<Rightarrow> (json \<times> json) option" where
  "jindex k (JObj m) = (case om_find m k of Some v \<Rightarrow> Some (v, JObj m) | None \<Rightarrow> Some (JNull, JObj (om_set k JNull m)))"
| "jindex k JNull = Some (JNull, JObj [(k, JNull)])"
| "jindex k _ = None"

text \<open>A statement of the block: whether it completed, and the object it leaves.\<close>

type_synonym cfg_step = "Config \<Rightarrow> bool \<times> Config"

fun cfg_block :: "cfg_step list \<Rightarrow> cfg_step" where
  "cfg_block [] c = (True, c)"
| "cfg_block (f # fs) c = (case f c of (True, c') \<Rightarrow> cfg_block fs c' | (False, c') \<Rightarrow> (False, c'))"

definition cfg_assign :: "string \<Rightarrow> (json \<Rightarrow> 'a result) \<Rightarrow> ('a \<Rightarrow> Config \<Rightarrow> Config) \<Rightarrow> cfg_step" where
  "cfg_assign k conv put c =
     (case jindex k (cf_configuration c) of
        None \<Rightarrow> (False, c)
      | Some (v, j) \<Rightarrow>
          (case conv v of
             Inl _ \<Rightarrow> (False, c\<lparr>cf_configuration := j\<rparr>)
           | Inr x \<Rightarrow> (True, put x (c\<lparr>cf_configuration := j\<rparr>))))"

definition cfg_optional :: "string \<Rightarrow> (json \<Rightarrow> 'a result) \<Rightarrow> ('a \<Rightarrow> Config \<Rightarrow> Config) \<Rightarrow> cfg_step" where
  "cfg_optional k conv put c =
     (if contains (cf_configuration c) k then cfg_assign k conv put c else (True, c))"

text \<open>The member \<open>k\<close> of \<open>j\<close> when it is there and has the type \<open>p\<close>.\<close>

definition typed_member :: "(json \<Rightarrow> bool) \<Rightarrow> json \<Rightarrow> string \<Rightarrow> json option" where
  "typed_member p j k = (case om_find (jmembers j) k of Some v \<Rightarrow> if p v then Some v else None | None \<Rightarrow> None)"

definition to_str :: "json \<Rightarrow> string" where
  "to_str j = (case j of JStr s \<Rightarrow> s | _ \<Rightarrow> [])"

definition to_i :: "json \<Rightarrow> int" where
  "to_i j = (case get_int j of Inr i \<Rightarrow> i | Inl _ \<Rightarrow> 0)"

definition to_d :: "json \<Rightarrow> real" where
  "to_d j = (case get_double j of Inr r \<Rightarrow> r | Inl _ \<Rightarrow> 0)"

definition cfg_sandbox :: "json \<Rightarrow> Config \<Rightarrow> Config" where
  "cfg_sandbox sb c =
     (let c1 = (case typed_member is_boolean sb ''enabled'' of
                  Some v \<Rightarrow> c\<lparr>cf_sandboxEnabled := (v = JBool True)\<rparr> | None \<Rightarrow> c);
          c2 = (case typed_member is_string sb ''middlemanUrl'' of
                  Some v \<Rightarrow> c1\<lparr>cf_sandboxMiddlemanUrl := to_str v\<rparr> | None \<Rightarrow> c1)
      in case typed_member is_number sb ''updateRateMs'' of
           Some v \<Rightarrow> c2\<lparr>cf_sandboxUpdateRateMs := max 50 (to_i v)\<rparr> | None \<Rightarrow> c2)"

definition read_fields :: "cfg_step list" where
  "read_fields =
     [cfg_assign ''controllerIpAddress'' get_string (\<lambda>x c. c\<lparr>cf_controllerIpaddr := x\<rparr>),
      cfg_assign ''controllerPort'' get_uint16 (\<lambda>x c. c\<lparr>cf_controllerPort := x\<rparr>),
      cfg_assign ''coordIpaddress'' get_string (\<lambda>x c. c\<lparr>cf_coordIpaddress := x\<rparr>),
      cfg_assign ''coordPort'' get_uint16 (\<lambda>x c. c\<lparr>cf_coordPort := x\<rparr>),
      cfg_assign ''maxNode'' get_uint8 (\<lambda>x c. c\<lparr>cf_maxNode := x\<rparr>),
      cfg_assign ''logDirectory'' get_string (\<lambda>x c. c\<lparr>cf_logDirectory := x\<rparr>),
      cfg_assign ''logLevel'' get_string (\<lambda>x c. c\<lparr>cf_logLevel := x\<rparr>),
      cfg_optional ''cpuAffinity'' get_string (\<lambda>x c. c\<lparr>cf_cpuAffinity := x\<rparr>),
      cfg_optional ''numaNode'' get_int (\<lambda>x c. c\<lparr>cf_numaNode := x\<rparr>),
      cfg_optional ''maxCores'' get_int (\<lambda>x c. c\<lparr>cf_maxCores := max 1 x\<rparr>),
      cfg_optional ''numaEnabled'' get_bool (\<lambda>x c. c\<lparr>cf_numaEnabled := x\<rparr>),
      (\<lambda>c. (True, case typed_member is_object (cf_configuration c) ''extensions'' of
                    Some e \<Rightarrow> c\<lparr>cf_extensionsConfig := e\<rparr> | None \<Rightarrow> c)),
      (\<lambda>c. (True, case typed_member is_object (cf_configuration c) ''sandbox'' of
                    Some sb \<Rightarrow> cfg_sandbox sb c | None \<Rightarrow> c))]"

text \<open>The file is parsed outside the block, so a file that is missing or is not JSON is an
  exception of \<open>read\<close> itself.\<close>

definition Config_read :: "string \<Rightarrow> json option \<Rightarrow> Config \<Rightarrow> (bool \<times> Config) result" where
  "Config_read fpath file c =
     (case file of
        None \<Rightarrow> Inl (Runtime_error ''parse error'')
      | Some j \<Rightarrow> Inr (cfg_block read_fields (c\<lparr>cf_path := fpath, cf_configuration := j\<rparr>)))"

text \<open>\<open>save\<close> writes the configuration to a path, the one it was read from by default;
  \<open>disk\<close> says which paths can be written.\<close>

definition Config_save :: "(string \<Rightarrow> bool) \<Rightarrow> string \<Rightarrow> Config \<Rightarrow> (string \<times> json) option" where
  "Config_save disk path c =
     (let target = (if path = [] then cf_path c else path)
      in if target = [] \<or> \<not> disk target then None else Some (target, cf_configuration c))"

definition mergePatch :: "json \<Rightarrow> Config \<Rightarrow> Config" where
  "mergePatch patch c = c\<lparr>cf_configuration := merge_patch (cf_configuration c) patch\<rparr>"

section \<open>Locations\<close>

text \<open>A snapshot is the map at one moment; an update replaces the map and leaves the
  snapshots already taken alone.\<close>

type_synonym LocationMap = "(string, NodeLocation) omap"

record LocationStore =
  ls_locations :: LocationMap

definition LocationStore_new :: LocationStore where
  "LocationStore_new = \<lparr>ls_locations = []\<rparr>"

definition LocationStore_update :: "string \<Rightarrow> NodeLocation \<Rightarrow> LocationStore \<Rightarrow> LocationStore" where
  "LocationStore_update ident loc s = s\<lparr>ls_locations := om_set ident loc (ls_locations s)\<rparr>"

definition LocationStore_snapshot :: "LocationStore \<Rightarrow> LocationMap" where
  "LocationStore_snapshot s = ls_locations s"

definition LocationStore_get :: "string \<Rightarrow> LocationStore \<Rightarrow> NodeLocation option" where
  "LocationStore_get ident s = om_find (LocationStore_snapshot s) ident"

text \<open>Two threads that update at the same time: each loads the map, changes its copy and
  stores it, so the one that stores last can undo the other.\<close>

definition racing_updates :: "string \<Rightarrow> NodeLocation \<Rightarrow> string \<Rightarrow> NodeLocation \<Rightarrow> LocationStore \<Rightarrow> LocationStore" where
  "racing_updates i a j b s =
     (let loaded = LocationStore_snapshot s;
          first = s\<lparr>ls_locations := om_set i a loaded\<rparr>
      in first\<lparr>ls_locations := om_set j b loaded\<rparr>)"

lemma LocationStore_get_update:
  "LocationStore_get x (LocationStore_update i a s) = (if x = i then Some a else LocationStore_get x s)"
  by (simp add: LocationStore_get_def LocationStore_snapshot_def LocationStore_update_def om_find_set)

lemma racing_updates_lose:
  "i \<noteq> j \<Longrightarrow> LocationStore_get i (racing_updates i a j b s) = LocationStore_get i s"
  by (simp add: LocationStore_get_def LocationStore_snapshot_def racing_updates_def om_find_set)

section \<open>What a configuration can hold\<close>

text \<open>The limits hold for the defaults and for whatever a file says.\<close>

definition cfg_limits :: "Config \<Rightarrow> bool" where
  "cfg_limits c \<longleftrightarrow> 1 \<le> cf_maxCores c \<and> 50 \<le> cf_sandboxUpdateRateMs c"

definition keeps_limits :: "cfg_step \<Rightarrow> bool" where
  "keeps_limits f \<longleftrightarrow> (\<forall>c. cfg_limits c \<longrightarrow> cfg_limits (snd (f c)))"

lemma keeps_limits_assign [intro]:
  assumes "\<And>x c. cfg_limits c \<Longrightarrow> cfg_limits (put x c)"
  shows "keeps_limits (cfg_assign k conv put)" "keeps_limits (cfg_optional k conv put)"
proof -
  have *: "cfg_limits (snd (cfg_assign k conv put c))" if "cfg_limits c" for c
    using that assms by (auto simp: cfg_assign_def cfg_limits_def split: option.splits sum.splits prod.splits)
  then show "keeps_limits (cfg_assign k conv put)" by (simp add: keeps_limits_def)
  show "keeps_limits (cfg_optional k conv put)" using * by (simp add: keeps_limits_def cfg_optional_def)
qed

lemma keeps_limits_block: "list_all keeps_limits fs \<Longrightarrow> keeps_limits (cfg_block fs)"
proof (induction fs)
  case Nil
  then show ?case by (simp add: keeps_limits_def)
next
  case (Cons f fs)
  show ?case unfolding keeps_limits_def
  proof (intro allI impI)
    fix c assume c: "cfg_limits c"
    obtain b c' where f: "f c = (b, c')" by fastforce
    with Cons.prems c have "cfg_limits c'" by (fastforce simp: keeps_limits_def)
    with Cons show "cfg_limits (snd (cfg_block (f # fs) c))" by (cases b) (simp_all add: f keeps_limits_def)
  qed
qed

lemma read_fields_keep_limits: "list_all keeps_limits read_fields"
  unfolding read_fields_def list.pred_inject
  by (intro conjI keeps_limits_assign TrueI)
    (auto simp: keeps_limits_def cfg_limits_def cfg_sandbox_def Let_def split: option.splits)

lemma Config_read_limits:
  assumes "Config_read fpath file c = Inr (ok, c')" and "cfg_limits c"
  shows "cfg_limits c'"
proof -
  obtain j where "cfg_block read_fields (c\<lparr>cf_path := fpath, cf_configuration := j\<rparr>) = (ok, c')"
    using assms(1) by (auto simp: Config_read_def split: option.splits)
  moreover have "cfg_limits (c\<lparr>cf_path := fpath, cf_configuration := j\<rparr>)" using assms(2) by (simp add: cfg_limits_def)
  ultimately show ?thesis
    using keeps_limits_block [OF read_fields_keep_limits] unfolding keeps_limits_def by (metis snd_conv)
qed

lemma Config_new_limits [simp]: "cfg_limits Config_new"
  by (simp add: cfg_limits_def Config_new_def)

end
