(* ===== verification/Extensions.thy ===== *)
theory Extensions
  imports Controller Runtime_Config
begin

text \<open>
  The extensions that can take over the channel: the registry of
  \<open>src/chem/extensions/extension_registry.cpp\<close>, the sandbox client
  (\<open>extensions/sandbox/src/middleman_client.cpp\<close>) and the Sionna ray-tracing client
  (\<open>extensions/sionna/src/sionna_client.cpp\<close>). An extension is an object behind the virtual
  interface \<open>ChannelExtension\<close>; the two implementations are the constructors of one type and a
  virtual call is a case distinction. What an extension can change is the run-time configuration
  and the channels. The HTTP service is a parameter: its answer to a request may depend on all
  requests made before.
\<close>

section \<open>Addresses\<close>

text \<open>The regular expression \<open>https?://([^/:]+):?(\d*)\<close>, at the start of a string and anywhere
  in it. The host is as long as possible and the rest always matches.\<close>

definition url_scheme :: "string \<Rightarrow> string option" where
  "url_scheme s =
     (if take 7 s = ''http://'' then Some (drop 7 s)
      else if take 8 s = ''https://'' then Some (drop 8 s) else None)"

definition url_port :: "string \<Rightarrow> string" where
  "url_port rest = takeWhile is_digit (case rest of c # t \<Rightarrow> if c = CHR '':'' then t else rest | [] \<Rightarrow> [])"

definition url_at :: "string \<Rightarrow> (string \<times> string) option" where
  "url_at s =
     (case url_scheme s of
        None \<Rightarrow> None
      | Some r \<Rightarrow>
          let in_host = (\<lambda>c. c \<noteq> CHR ''/'' \<and> c \<noteq> CHR '':'')
          in if takeWhile in_host r = [] then None
             else Some (takeWhile in_host r, url_port (dropWhile in_host r)))"

fun url_search :: "string \<Rightarrow> (string \<times> string) option" where
  "url_search [] = None"
| "url_search (c # s) = (case url_at (c # s) of Some x \<Rightarrow> Some x | None \<Rightarrow> url_search s)"

definition parseUrl :: "string \<Rightarrow> string \<Rightarrow> string \<times> string" where
  "parseUrl default_port url =
     (case url_search url of
        Some (host, port) \<Rightarrow> (host, if port = [] then ''80'' else port)
      | None \<Rightarrow> (''localhost'', default_port))"

section \<open>Sandbox\<close>

record SandboxExtension =
  sx_serverUrl :: string
  sx_host :: string
  sx_port :: string
  sx_running :: bool

definition SandboxExtension_new :: SandboxExtension where
  "SandboxExtension_new = \<lparr>sx_serverUrl = '''', sx_host = '''', sx_port = '''', sx_running = False\<rparr>"

text \<open>A string member, or what was there before.\<close>

definition str_member :: "json \<Rightarrow> string \<Rightarrow> string \<Rightarrow> string" where
  "str_member j k old = (case typed_member is_string j k of Some v \<Rightarrow> to_str v | None \<Rightarrow> old)"

definition int_member :: "json \<Rightarrow> string \<Rightarrow> int \<Rightarrow> int \<Rightarrow> int" where
  "int_member j k lo old = (case typed_member is_number j k of Some v \<Rightarrow> max lo (to_i v) | None \<Rightarrow> old)"

definition num_member :: "json \<Rightarrow> string \<Rightarrow> real \<Rightarrow> real" where
  "num_member j k old = (case typed_member is_number j k of Some v \<Rightarrow> to_d v | None \<Rightarrow> old)"

definition Sandbox_onStart :: "json \<Rightarrow> SandboxExtension \<Rightarrow> RuntimeConfig \<Rightarrow> SandboxExtension \<times> RuntimeConfig" where
  "Sandbox_onStart config x rt =
     (if sx_running x then (x, rt)
      else
        let url = str_member config ''middlemanUrl'' (sx_serverUrl x);
            url' = (if url = [] then ''http://localhost:8080'' else url);
            (host, port) = parseUrl ''8080'' url'
        in (\<lparr>sx_serverUrl = url', sx_host = host, sx_port = port, sx_running = True\<rparr>,
            rt\<lparr>rc_sandbox_update_rate_ms := int_member config ''updateRateMs'' 50 (rc_sandbox_update_rate_ms rt),
               rc_sandbox_enabled := True\<rparr>))"

definition Sandbox_onStop :: "SandboxExtension \<Rightarrow> RuntimeConfig \<Rightarrow> SandboxExtension \<times> RuntimeConfig" where
  "Sandbox_onStop x rt =
     (if sx_running x then (x\<lparr>sx_running := False\<rparr>, rt\<lparr>rc_sandbox_enabled := False\<rparr>) else (x, rt))"

definition Sandbox_getStatus :: "SandboxExtension \<Rightarrow> RuntimeConfig \<Rightarrow> json" where
  "Sandbox_getStatus x rt =
     jobj [(''name'', JStr ''sandbox''), (''running'', JBool (sx_running x)),
           (''enabled'', JBool (rc_sandbox_enabled rt)), (''middlemanUrl'', JStr (sx_serverUrl x)),
           (''updateRateMs'', JInt (rc_sandbox_update_rate_ms rt))]"

definition Sandbox_getConfigSchema :: json where
  "Sandbox_getConfigSchema = jobj [(''middlemanUrl'', JStr ''http://localhost:8080''), (''updateRateMs'', JInt 500)]"

definition ext_reply :: "string \<Rightarrow> string \<Rightarrow> json" where
  "ext_reply status message = jobj [(''status'', JStr status), (''message'', JStr message)]"

definition Sandbox_handleCommand ::
  "string \<Rightarrow> json \<Rightarrow> SandboxExtension \<Rightarrow> RuntimeConfig \<Rightarrow> json \<times> SandboxExtension \<times> RuntimeConfig" where
  "Sandbox_handleCommand action params x rt =
     (if action = ''start'' then (ext_reply ''success'' ''Sandbox mode started'', Sandbox_onStart params x rt)
      else if action = ''stop'' then (ext_reply ''success'' ''Sandbox mode stopped'', Sandbox_onStop x rt)
      else if action = ''status'' then (Sandbox_getStatus x rt, x, rt)
      else (ext_reply ''fail'' (''Unknown action: '' @ action), x, rt))"

text \<open>The body of the POST that reports the path losses; there is none without links.\<close>

definition sandbox_name :: "(string, Node) omap \<Rightarrow> string \<Rightarrow> string" where
  "sandbox_name nodes i =
     (case om_find nodes i of
        Some n \<Rightarrow> if nc_name (nd_config n) \<noteq> [] then nc_name (nd_config n) else i
      | None \<Rightarrow> i)"

definition sandbox_entry :: "(string, Node) omap \<Rightarrow> real \<Rightarrow> Channel \<Rightarrow> json" where
  "sandbox_entry nodes freq ch =
     jobj [(''tx'', JStr (sandbox_name nodes (ch_source ch))), (''rx'', JStr (sandbox_name nodes (ch_dest ch))),
           (''freq_hz'', JFloat freq), (''pathloss_db'', json_of_fp (ch_plDb ch)),
           (''distance_m'', json_of_fp (getLinkDistance ch)),
           (''elevation_deg'', json_of_fp (nl_elevation (ch_linkInfo ch)))]"

definition pushPathLoss :: "(string, Node) omap \<Rightarrow> (real, Intermediate) omap \<Rightarrow> json option" where
  "pushPathLoss nodes ims =
     (let entries = concat (map (\<lambda>(freq, im).
            map (\<lambda>(_, ch). sandbox_entry nodes freq ch)
              (filter (\<lambda>(_, ch). ch_source ch \<noteq> ch_dest ch) (im_channelMap im))) ims)
      in if entries = [] then None else Some (jobj [(''channels'', JArr entries)]))"

section \<open>Sionna\<close>

record SionnaExtension =
  sn_serverUrl :: string
  sn_host :: string
  sn_port :: string
  sn_sceneConfig :: string
  sn_ref :: "real \<times> real \<times> real"
  sn_offset :: "real \<times> real \<times> real"
  sn_scale :: real
  sn_sceneAlignment :: json
  sn_updateRateMs :: int
  sn_maxDepth :: int
  sn_numSamples :: int
  sn_running :: bool
  sn_sceneId :: string
  sn_txMap :: "(string, string) omap"
  sn_rxMap :: "(string, string) omap"
  sn_txOrder :: "string list"
  sn_rxOrder :: "string list"
  sn_lastPositions :: "(string, Location) omap"
  sn_avgCirResponseMs :: real
  sn_cirResponseCount :: int

definition SionnaExtension_new :: SionnaExtension where
  "SionnaExtension_new = \<lparr>sn_serverUrl = '''', sn_host = '''', sn_port = '''', sn_sceneConfig = ''aerpaw'',
     sn_ref = (35.72750947, - 78.69595819, 112), sn_offset = (118.1, - 123.4, 0), sn_scale = 1,
     sn_sceneAlignment = JNull, sn_updateRateMs = 500, sn_maxDepth = 3, sn_numSamples = 100000,
     sn_running = False, sn_sceneId = '''', sn_txMap = [], sn_rxMap = [], sn_txOrder = [], sn_rxOrder = [],
     sn_lastPositions = [], sn_avgCirResponseMs = 0, sn_cirResponseCount = 0\<rparr>"

text \<open>The settings that \<open>onStart\<close> and the \<open>config\<close> action have in common.\<close>

definition triple_member :: "json \<Rightarrow> string \<Rightarrow> string \<Rightarrow> string \<Rightarrow> string \<Rightarrow> real \<times> real \<times> real \<Rightarrow> real \<times> real \<times> real" where
  "triple_member j k a b c old =
     (case typed_member is_object j k of
        None \<Rightarrow> old
      | Some o' \<Rightarrow> (case old of (x, y, z) \<Rightarrow> (num_member o' a x, num_member o' b y, num_member o' c z)))"

definition Sionna_settings :: "json \<Rightarrow> SionnaExtension \<Rightarrow> SionnaExtension" where
  "Sionna_settings j x =
     x\<lparr>sn_updateRateMs := int_member j ''updateRateMs'' 50 (sn_updateRateMs x),
       sn_maxDepth := int_member j ''maxDepth'' 1 (sn_maxDepth x),
       sn_numSamples := int_member j ''numSamples'' 1000 (sn_numSamples x),
       sn_sceneConfig := str_member j ''sceneConfig'' (sn_sceneConfig x),
       sn_ref := triple_member j ''referenceOrigin'' ''lat'' ''lon'' ''alt'' (sn_ref x),
       sn_offset := triple_member j ''sceneOffset'' ''x'' ''y'' ''z'' (sn_offset x),
       sn_scale := num_member j ''scale'' (sn_scale x)\<rparr>"

definition Sionna_onStart :: "json \<Rightarrow> SionnaExtension \<Rightarrow> SionnaExtension" where
  "Sionna_onStart config x =
     (if sn_running x then x
      else
        let x1 = Sionna_settings config x;
            url = str_member config ''serverUrl'' (sn_serverUrl x);
            url' = (if url = [] then ''http://localhost:8000'' else url);
            (host, port) = parseUrl ''8000'' url'
        in x1\<lparr>sn_serverUrl := url', sn_host := host, sn_port := port, sn_running := True\<rparr>)"

definition clearExtensionFlags :: "(real, Intermediate) omap \<Rightarrow> (real, Intermediate) omap" where
  "clearExtensionFlags ims =
     om_map_values (for_channels (\<lambda>ch. if ch_activeExtension ch = ''sionna'' then clearActiveExtension ch else ch)) ims"

definition Sionna_onStop ::
  "SionnaExtension \<Rightarrow> (real, Intermediate) omap \<Rightarrow> SionnaExtension \<times> (real, Intermediate) omap" where
  "Sionna_onStop x ims =
     (if sn_running x
      then (x\<lparr>sn_running := False, sn_sceneId := '''', sn_txMap := [], sn_rxMap := [], sn_txOrder := [],
              sn_rxOrder := [], sn_lastPositions := [], sn_avgCirResponseMs := 0, sn_cirResponseCount := 0\<rparr>,
            clearExtensionFlags ims)
      else (x, ims))"

definition json_triple :: "string \<Rightarrow> string \<Rightarrow> string \<Rightarrow> real \<times> real \<times> real \<Rightarrow> json" where
  "json_triple a b c t = (case t of (x, y, z) \<Rightarrow> jobj [(a, JFloat x), (b, JFloat y), (c, JFloat z)])"

definition Sionna_fields :: "SionnaExtension \<Rightarrow> (string \<times> json) list" where
  "Sionna_fields x =
     [(''updateRateMs'', JInt (sn_updateRateMs x)), (''maxDepth'', JInt (sn_maxDepth x)),
      (''numSamples'', JInt (sn_numSamples x)), (''sceneConfig'', JStr (sn_sceneConfig x)),
      (''referenceOrigin'', json_triple ''lat'' ''lon'' ''alt'' (sn_ref x)),
      (''sceneOffset'', json_triple ''x'' ''y'' ''z'' (sn_offset x)), (''scale'', JFloat (sn_scale x))]"

definition Sionna_getStatus :: "SionnaExtension \<Rightarrow> json" where
  "Sionna_getStatus x =
     jobj ([(''status'', JStr ''success''), (''name'', JStr ''sionna''), (''running'', JBool (sn_running x)),
            (''serverUrl'', JStr (sn_serverUrl x))] @
           (if sn_sceneId x \<noteq> [] then [(''sceneId'', JStr (sn_sceneId x))] else []) @ Sionna_fields x @
           (if sn_sceneAlignment x \<noteq> JNull then [(''sceneAlignment'', sn_sceneAlignment x)] else []) @
           (if 0 < sn_cirResponseCount x
            then [(''avgCirResponseMs'', JFloat (of_int (round_real (sn_avgCirResponseMs x * 10)) / 10))] else []))"

definition schema_entry :: "string \<Rightarrow> json \<Rightarrow> (string \<times> json) list \<Rightarrow> json" where
  "schema_entry ty dflt extra = jobj ([(''type'', JStr ty), (''default'', dflt)] @ extra)"

definition schema_object :: "(string \<times> real) list \<Rightarrow> json" where
  "schema_object ps = jobj [(''type'', JStr ''object''),
     (''properties'', jobj (map (\<lambda>(k, v). (k, schema_entry ''number'' (JFloat v) [])) ps))]"

definition Sionna_getConfigSchema :: json where
  "Sionna_getConfigSchema =
     jobj [(''serverUrl'', schema_entry ''string'' (JStr ''http://localhost:8000'') []),
           (''updateRateMs'', schema_entry ''integer'' (JInt 500) [(''min'', JInt 50)]),
           (''maxDepth'', schema_entry ''integer'' (JInt 3) [(''min'', JInt 1)]),
           (''numSamples'', schema_entry ''integer'' (JInt 100000) [(''min'', JInt 1000)]),
           (''sceneConfig'', schema_entry ''string'' (JStr ''aerpaw'') []),
           (''referenceOrigin'', schema_object [(''lat'', 35.72750947), (''lon'', - 78.69595819), (''alt'', 112)]),
           (''sceneOffset'', schema_object [(''x'', 118.1), (''y'', - 123.4), (''z'', 0)]),
           (''scale'', schema_entry ''number'' (JFloat 1) [])]"

text \<open>The \<open>config\<close> action also tells the service about a new origin; the answer is ignored.\<close>

definition Sionna_handleCommand ::
  "string \<Rightarrow> json \<Rightarrow> SionnaExtension \<Rightarrow> (real, Intermediate) omap \<Rightarrow> json \<times> SionnaExtension \<times> (real, Intermediate) omap" where
  "Sionna_handleCommand action params x ims =
     (if action = ''start'' then (ext_reply ''success'' ''Sionna extension started'', Sionna_onStart params x, ims)
      else if action = ''stop'' then (ext_reply ''success'' ''Sionna extension stopped'', Sionna_onStop x ims)
      else if action = ''status'' then (Sionna_getStatus x, x, ims)
      else if action = ''config'' then
        let x1 = Sionna_settings params x in (jobj ((''status'', JStr ''success'') # Sionna_fields x1), x1, ims)
      else (ext_reply ''fail'' (''Unknown action: '' @ action), x, ims))"

section \<open>Impulse response to taps\<close>

definition destSampleRate :: "(string, Node) omap \<Rightarrow> string \<Rightarrow> real \<Rightarrow> real" where
  "destSampleRate nodes destId fallback =
     (case om_find nodes destId of
        None \<Rightarrow> fallback
      | Some n \<Rightarrow>
          let rx = sr_rxRate (nc_sample_rate (nd_config n)) in if 0 < rx then rx else fallback)"

text \<open>The tap of a delay, a \<open>size_t\<close>; a negative delay becomes a huge index. Without a limit (\<open>cir_max_taps\<close> 0) the
  vector is as long as the longest delay says; that its allocation can fail is not modelled.\<close>

definition tap_index :: "real \<Rightarrow> real \<Rightarrow> nat" where
  "tap_index sampleRate delay = nat (round_real (delay * sampleRate) mod 2 ^ 64)"

definition kept_paths :: "int \<Rightarrow> real \<Rightarrow> (real \<times> complex) list \<Rightarrow> (nat \<times> complex) list" where
  "kept_paths max_taps sampleRate paths =
     filter (\<lambda>(i, _). \<not> (0 < max_taps \<and> max_taps \<le> int i)) (map (\<lambda>(d, g). (tap_index sampleRate d, g)) paths)"

definition cirToTaps :: "RuntimeConfig \<Rightarrow> real list \<Rightarrow> real list \<Rightarrow> real list \<Rightarrow> real \<Rightarrow> complex list" where
  "cirToTaps rt delays gains_re gains_im sampleRate =
     (let max_taps = max 0 (rc_cir_max_taps rt);
          kept = kept_paths max_taps sampleRate (zip delays (map (\<lambda>(a, b). Complex a b) (zip gains_re gains_im)));
          maxIdx = fold (\<lambda>(i, _). max i) kept 0
      in fold (\<lambda>(i, g) taps. if i < length taps then taps[i := taps ! i + g] else taps) kept (replicate (maxIdx + 1) 0))"

section \<open>The registry\<close>

datatype extension = Sandbox_ext SandboxExtension | Sionna_ext SionnaExtension

type_synonym registry = "(string, extension) omap"

text \<open>What a call of an extension can change besides the extension.\<close>

record ext_world =
  xw_rt :: RuntimeConfig
  xw_ims :: "(real, Intermediate) omap"

fun ext_name :: "extension \<Rightarrow> string" where
  "ext_name (Sandbox_ext _) = ''sandbox''"
| "ext_name (Sionna_ext _) = ''sionna''"

fun ext_isRunning :: "extension \<Rightarrow> bool" where
  "ext_isRunning (Sandbox_ext x) = sx_running x"
| "ext_isRunning (Sionna_ext x) = sn_running x"

fun ext_onStart :: "json \<Rightarrow> extension \<times> ext_world \<Rightarrow> extension \<times> ext_world" where
  "ext_onStart cfg (Sandbox_ext x, w) =
     (let (x', rt) = Sandbox_onStart cfg x (xw_rt w) in (Sandbox_ext x', w\<lparr>xw_rt := rt\<rparr>))"
| "ext_onStart cfg (Sionna_ext x, w) = (Sionna_ext (Sionna_onStart cfg x), w)"

fun ext_onStop :: "extension \<times> ext_world \<Rightarrow> extension \<times> ext_world" where
  "ext_onStop (Sandbox_ext x, w) = (let (x', rt) = Sandbox_onStop x (xw_rt w) in (Sandbox_ext x', w\<lparr>xw_rt := rt\<rparr>))"
| "ext_onStop (Sionna_ext x, w) = (let (x', ims) = Sionna_onStop x (xw_ims w) in (Sionna_ext x', w\<lparr>xw_ims := ims\<rparr>))"

fun ext_handleCommand :: "string \<Rightarrow> json \<Rightarrow> extension \<times> ext_world \<Rightarrow> json \<times> extension \<times> ext_world" where
  "ext_handleCommand action params (Sandbox_ext x, w) =
     (let (j, x', rt) = Sandbox_handleCommand action params x (xw_rt w) in (j, Sandbox_ext x', w\<lparr>xw_rt := rt\<rparr>))"
| "ext_handleCommand action params (Sionna_ext x, w) =
     (let (j, x', ims) = Sionna_handleCommand action params x (xw_ims w) in (j, Sionna_ext x', w\<lparr>xw_ims := ims\<rparr>))"

fun ext_getStatus :: "RuntimeConfig \<Rightarrow> extension \<Rightarrow> json" where
  "ext_getStatus rt (Sandbox_ext x) = Sandbox_getStatus x rt"
| "ext_getStatus rt (Sionna_ext x) = Sionna_getStatus x"

fun ext_getConfigSchema :: "extension \<Rightarrow> json" where
  "ext_getConfigSchema (Sandbox_ext x) = Sandbox_getConfigSchema"
| "ext_getConfigSchema (Sionna_ext x) = Sionna_getConfigSchema"

definition registerExtension :: "extension \<Rightarrow> registry \<Rightarrow> registry" where
  "registerExtension e reg = om_set (ext_name e) e reg"

definition registry_list :: "registry \<Rightarrow> string list" where
  "registry_list reg = om_keys reg"

definition enabled_in_config :: "json \<Rightarrow> bool" where
  "enabled_in_config cfg =
     (if is_object cfg then case typed_member is_boolean cfg ''enabled'' of Some v \<Rightarrow> v = JBool True | None \<Rightarrow> True
      else True)"

definition start_one :: "string \<times> json \<Rightarrow> registry \<times> ext_world \<Rightarrow> registry \<times> ext_world" where
  "start_one = (\<lambda>(name, cfg) (reg, w).
     case om_find reg name of
       None \<Rightarrow> (reg, w)
     | Some e \<Rightarrow>
         if enabled_in_config cfg then let (e', w') = ext_onStart cfg (e, w) in (om_set name e' reg, w') else (reg, w))"

definition startFromConfig :: "json \<Rightarrow> registry \<times> ext_world \<Rightarrow> registry \<times> ext_world" where
  "startFromConfig cfg rw = (if is_object cfg then fold start_one (jmembers cfg) rw else rw)"

definition stop_one :: "string \<Rightarrow> registry \<times> ext_world \<Rightarrow> registry \<times> ext_world" where
  "stop_one = (\<lambda>name (reg, w).
     case om_find reg name of
       None \<Rightarrow> (reg, w)
     | Some e \<Rightarrow> if ext_isRunning e then let (e', w') = ext_onStop (e, w) in (om_set name e' reg, w') else (reg, w))"

definition stopAll :: "registry \<times> ext_world \<Rightarrow> registry \<times> ext_world" where
  "stopAll rw = fold stop_one (om_keys (fst rw)) rw"

definition routeCommand :: "string \<Rightarrow> string \<Rightarrow> json \<Rightarrow> registry \<times> ext_world \<Rightarrow> json \<times> registry \<times> ext_world" where
  "routeCommand extensionName action params = (\<lambda>(reg, w).
     case om_find reg extensionName of
       None \<Rightarrow> (ext_reply ''fail'' (''Extension '' @ [CHR 0x27] @ extensionName @ [CHR 0x27] @ '' not found''), reg, w)
     | Some e \<Rightarrow>
         let (j, e', w') = ext_handleCommand action params (e, w) in (j, om_set extensionName e' reg, w'))"

definition getAllStatus :: "RuntimeConfig \<Rightarrow> registry \<Rightarrow> json" where
  "getAllStatus rt reg =
     jobj (map (\<lambda>(name, e). (name,
       let schema = ext_getConfigSchema e
       in if schema \<noteq> JObj [] then jset ''configSchema'' schema (ext_getStatus rt e) else ext_getStatus rt e)) reg)"

section \<open>Taps\<close>

definition tap_add :: "nat \<times> complex \<Rightarrow> complex list \<Rightarrow> complex list" where
  "tap_add = (\<lambda>(i, g) taps. if i < length taps then taps[i := taps ! i + g] else taps)"

lemma length_tap_add [simp]: "length (tap_add p taps) = length taps"
  by (simp add: tap_add_def split: prod.splits)

lemma length_tap_fold [simp]: "length (fold tap_add ps taps) = length taps"
  by (induction ps arbitrary: taps) auto

lemma tap_fold_nth:
  assumes "i < length taps"
  shows "fold tap_add ps taps ! i = taps ! i + sum_list (map snd (filter (\<lambda>p. fst p = i) ps))"
  using assms
proof (induction ps arbitrary: taps)
  case Nil
  then show ?case by simp
next
  case (Cons p ps)
  have "fold tap_add (p # ps) taps ! i = tap_add p taps ! i + sum_list (map snd (filter (\<lambda>p. fst p = i) ps))"
    using Cons by simp
  then show ?case using Cons.prems by (auto simp: tap_add_def nth_list_update split: prod.splits)
qed

lemma fold_max_ge: "(\<forall>p \<in> set ps. fst p \<le> fold (\<lambda>(i, _). max i) ps m) \<and> m \<le> fold (\<lambda>(i, _). max i) ps m" for m :: nat
proof (induction ps arbitrary: m)
  case Nil
  then show ?case by simp
next
  case (Cons p ps)
  obtain i g where p: "p = (i, g)" by fastforce
  have "max i m \<le> fold (\<lambda>(i, _). max i) ps (max i m)" using Cons by blast
  then show ?case using Cons [of "max i m"] by (auto simp: p)
qed

lemma fold_max_mem: "fold (\<lambda>(i, _). max i) ps m = m \<or> fold (\<lambda>(i, _). max i) ps m \<in> fst ` set ps" for m :: nat
proof (induction ps arbitrary: m)
  case (Cons p ps)
  obtain i g where p: "p = (i, g)" by fastforce
  have "max i m = i \<or> max i m = m" by linarith
  then show ?case using Cons [of "max i m"] by (simp add: p) metis
qed simp

lemma fold_max_less: "(\<forall>p \<in> set ps. fst p < b) \<Longrightarrow> m < b \<Longrightarrow> fold (\<lambda>(i, _). max i) ps m < b" for m :: nat
  by (induction ps arbitrary: m) auto

lemma cirToTaps_alt:
  "cirToTaps rt delays gains_re gains_im sampleRate =
     (let kept = kept_paths (max 0 (rc_cir_max_taps rt)) sampleRate
                   (zip delays (map (\<lambda>(a, b). Complex a b) (zip gains_re gains_im)))
      in fold tap_add kept (replicate (fold (\<lambda>(i, _). max i) kept 0 + 1) 0))"
  by (simp add: cirToTaps_def tap_add_def Let_def)

text \<open>Path \<open>p\<close> arrives in the sampling interval around sample \<open>i\<close>.\<close>

definition arrives_at :: "real \<Rightarrow> real list \<Rightarrow> nat \<Rightarrow> nat \<Rightarrow> bool" where
  "arrives_at sampleRate delays p i \<longleftrightarrow>
     real i - 1 / 2 \<le> delays ! p * sampleRate \<and> delays ! p * sampleRate < real i + 1 / 2"

lemma tap_index_iff:
  assumes "0 \<le> delays ! p * fs" "delays ! p * fs < 2 ^ 63"
  shows "tap_index fs (delays ! p) = i \<longleftrightarrow> arrives_at fs delays p i"
proof -
  define x where "x = delays ! p * fs"
  have x: "0 \<le> x" "x < 2 ^ 63" using assms by (simp_all add: x_def)
  have f: "0 \<le> \<lfloor>x + 1 / 2\<rfloor>" "\<lfloor>x + 1 / 2\<rfloor> < 2 ^ 64" using x by (auto simp: le_floor_iff floor_less_iff)
  have "tap_index fs (delays ! p) = nat \<lfloor>x + 1 / 2\<rfloor>" using x f by (simp add: tap_index_def round_real_def x_def)
  moreover have "nat \<lfloor>x + 1 / 2\<rfloor> = i \<longleftrightarrow> \<lfloor>x + 1 / 2\<rfloor> = int i" by (simp only: nat_eq_iff if_P [OF f(1)])
  moreover have "\<lfloor>x + 1 / 2\<rfloor> = int i \<longleftrightarrow> real i - 1 / 2 \<le> x \<and> x < real i + 1 / 2" by (auto simp: floor_eq_iff)
  ultimately show ?thesis unfolding arrives_at_def x_def by (simp only:)
qed

lemma zip_paths:
  "zip ds (map (\<lambda>(a, b). Complex a b) (zip re im)) =
     map (\<lambda>p. (ds ! p, Complex (re ! p) (im ! p))) [0..<min (length ds) (min (length re) (length im))]"
  by (rule nth_equalityI) auto

text \<open>C29. An impulse response becomes a filter: with delays that are not negative (and below \<open>2^63\<close> samples, so that the index fits),
  the tap of index \<open>i\<close> is the sum of the gains of exactly the paths that arrive in the sampling interval around
  sample \<open>i\<close>. There is at least one tap and not more than the limit, if there is one; every path within the limit
  has its tap, and the last tap, unless it is the only one, belongs to a path.\<close>

theorem cirToTaps_collects_gains:
  fixes delays gains_re gains_im sampleRate rt
  defines "n \<equiv> min (length delays) (min (length gains_re) (length gains_im))"
  defines "taps \<equiv> cirToTaps rt delays gains_re gains_im sampleRate"
  assumes "\<forall>p < n. 0 \<le> delays ! p * sampleRate \<and> delays ! p * sampleRate < 2 ^ 63"
  shows "taps \<noteq> [] \<and> (0 < rc_cir_max_taps rt \<longrightarrow> int (length taps) \<le> rc_cir_max_taps rt) \<and>
    (\<forall>i < length taps. taps ! i = (\<Sum>p \<in> {p. p < n \<and> arrives_at sampleRate delays p i}. Complex (gains_re ! p) (gains_im ! p))) \<and>
    (\<forall>p i. p < n \<and> arrives_at sampleRate delays p i \<and> (0 < rc_cir_max_taps rt \<longrightarrow> int i < rc_cir_max_taps rt) \<longrightarrow> i < length taps) \<and>
    (length taps = 1 \<or> (\<exists>p < n. arrives_at sampleRate delays p (length taps - 1)))"
proof -
  let ?T = "\<lambda>p. tap_index sampleRate (delays ! p)" and ?G = "\<lambda>p. Complex (gains_re ! p) (gains_im ! p)"
  define keep where "keep p \<longleftrightarrow> (0 < rc_cir_max_taps rt \<longrightarrow> int (?T p) < rc_cir_max_taps rt)" for p
  define kept where "kept = map (\<lambda>p. (?T p, ?G p)) (filter keep [0..<n])"
  define m where "m = fold (\<lambda>(i, _). max i) kept 0"
  have at: "?T p = i \<longleftrightarrow> arrives_at sampleRate delays p i" if "p < n" for p i using tap_index_iff assms(3) that by blast
  have k: "kept_paths (max 0 (rc_cir_max_taps rt)) sampleRate (zip delays (map (\<lambda>(a, b). Complex a b) (zip gains_re gains_im))) = kept"
    by (simp add: kept_paths_def zip_paths kept_def n_def keep_def [abs_def] filter_map comp_def not_le less_max_iff_disj)
  have taps: "taps = fold tap_add kept (replicate (m + 1) 0)"
    by (simp only: taps_def cirToTaps_alt k Let_def m_def)
  have len: "length taps = m + 1" by (simp add: taps)
  have mem: "p \<in> set kept \<longleftrightarrow> (\<exists>q < n. keep q \<and> p = (?T q, ?G q))" for p by (auto simp: kept_def)
  have lim: "int (length taps) \<le> rc_cir_max_taps rt" if "0 < rc_cir_max_taps rt"
  proof -
    have "\<forall>p \<in> set kept. fst p < nat (rc_cir_max_taps rt)" using that by (auto simp: mem keep_def)
    then have "m < nat (rc_cir_max_taps rt)" unfolding m_def using that by (intro fold_max_less) auto
    then show ?thesis by (simp add: len)
  qed
  have nth: "taps ! i = (\<Sum>p \<in> {p. p < n \<and> arrives_at sampleRate delays p i}. ?G p)" if i: "i < length taps" for i
  proof -
    have "taps ! i = replicate (m + 1) 0 ! i + sum_list (map snd (filter (\<lambda>p. fst p = i) kept))"
      unfolding taps using i by (intro tap_fold_nth) (simp add: len)
    also have "replicate (m + 1) (0 :: complex) ! i = 0" using i by (intro nth_replicate) (simp add: len)
    also have "map snd (filter (\<lambda>p. fst p = i) kept) = map ?G (filter (\<lambda>p. keep p \<and> ?T p = i) [0..<n])"
      by (simp add: kept_def filter_map comp_def conj_commute)
    also have "sum_list (map ?G (filter (\<lambda>p. keep p \<and> ?T p = i) [0..<n])) = (\<Sum>p \<in> {p. p < n \<and> keep p \<and> ?T p = i}. ?G p)"
      by (subst sum_list_distinct_conv_sum_set) (auto intro!: sum.cong)
    also have "{p. p < n \<and> keep p \<and> ?T p = i} = {p. p < n \<and> arrives_at sampleRate delays p i}"
    proof -
      have "keep p \<and> ?T p = i \<longleftrightarrow> arrives_at sampleRate delays p i" if "p < n" for p
        unfolding at [OF that, symmetric] using i lim by (auto simp: keep_def)
      then show ?thesis by blast
    qed
    finally show ?thesis by simp
  qed
  have "i < length taps"
    if "p < n" "arrives_at sampleRate delays p i" "0 < rc_cir_max_taps rt \<longrightarrow> int i < rc_cir_max_taps rt" for p i
  proof -
    have "(i, ?G p) \<in> set kept" using that at [of p i] by (auto simp: mem keep_def)
    then show ?thesis using fold_max_ge [of kept 0] by (fastforce simp: len m_def)
  qed
  moreover have "length taps = 1 \<or> (\<exists>p < n. arrives_at sampleRate delays p (length taps - 1))"
    using fold_max_mem [of kept 0] at by (force simp: len m_def [symmetric] mem)
  ultimately show ?thesis using nth lim len by auto
qed

text \<open>Three paths, the last one behind the limit of four taps: the filter ends at the second one.\<close>

theorem cirToTaps_collects_gains_witness:
  "length (cirToTaps (RuntimeConfig_init\<lparr>rc_cir_max_taps := 4\<rparr>) [0, 2, 7] [1, 1, 1] [0, 0, 0] 1) \<in> {3, 4}"
proof -
  let ?t = "cirToTaps (RuntimeConfig_init\<lparr>rc_cir_max_taps := 4\<rparr>) [0, 2, 7] [1, 1, 1] [0, 0, 0] 1"
  have "\<forall>p < min (length [0, 2, 7 :: real]) (min (length [1, 1, 1 :: real]) (length [0, 0, 0 :: real])).
      0 \<le> [0, 2, 7 :: real] ! p * 1 \<and> [0, 2, 7 :: real] ! p * 1 < 2 ^ 63"
    by (auto simp: less_Suc_eq numeral_3_eq_3)
  note T = cirToTaps_collects_gains [OF this, of "RuntimeConfig_init\<lparr>rc_cir_max_taps := 4\<rparr>"]
  have "arrives_at 1 [0, 2, 7] 1 2" by (simp add: arrives_at_def)
  then have "2 < length ?t"
    using T [THEN conjunct2, THEN conjunct2, THEN conjunct2, THEN conjunct1, rule_format, of 1 2] by simp
  moreover have "length ?t \<le> 4" using T [THEN conjunct2, THEN conjunct1] by simp
  ultimately show ?thesis by auto
qed

end
