(* ===== verification/Coordinator.thy ===== *)
theory Coordinator
  imports Extensions
begin

text \<open>
  The channel coordinator, \<open>src/chem/channel/coordinator.cpp\<close>: the geometry of the links
  (distance, azimuth, elevation, Doppler shift) that its update loop writes into every channel,
  and the commands of the user interface. The node map, the channel map, the propagation defaults
  and the database are shared with the controller, so the coordinator's state contains the
  controller's; the file-level variables, the run-time configuration and the extensions are its
  own. A command returns its reply or the exception that escapes it; the answers of SQLite, the
  file system, the log and the clock are arguments.
\<close>

section \<open>State\<close>

record Coordinator =
  co_ctl :: Controller
  co_rt :: RuntimeConfig
  co_config :: "Config option"
  co_extensions :: registry
  co_shadow_std :: real
  co_shadow_std_by_freq :: "(real, real) omap"

record co_env =
  cv_now_ns :: int
  cv_db_ok :: bool
  cv_nodes :: json
  cv_channels :: json
  cv_logs :: "string list option"
  cv_disk :: "string \<Rightarrow> bool"
  cv_patterns :: "string list"
  cv_status :: "(string \<times> json) list"
  cv_version :: string

type_synonym 'a co_result = "'a result \<times> Coordinator"

definition co_then :: "'a co_result \<Rightarrow> ('a \<Rightarrow> Coordinator \<Rightarrow> 'b co_result) \<Rightarrow> 'b co_result" where
  "co_then r f = (case r of (Inl e, c) \<Rightarrow> (Inl e, c) | (Inr x, c) \<Rightarrow> f x c)"

definition co_lift :: "'a result \<Rightarrow> Coordinator \<Rightarrow> 'a co_result" where
  "co_lift r c = (r, c)"

abbreviation co_nodes :: "Coordinator \<Rightarrow> (string, Node) omap" where
  "co_nodes c \<equiv> ct_nodeMap (co_ctl c)"

abbreviation co_ims :: "Coordinator \<Rightarrow> (real, Intermediate) omap" where
  "co_ims c \<equiv> ct_intermediateMap (co_ctl c)"

definition co_map_ctl :: "(Controller \<Rightarrow> Controller) \<Rightarrow> Coordinator \<Rightarrow> Coordinator" where
  "co_map_ctl f c = c\<lparr>co_ctl := f (co_ctl c)\<rparr>"

definition co_map_ims :: "((real, Intermediate) omap \<Rightarrow> (real, Intermediate) omap) \<Rightarrow> Coordinator \<Rightarrow> Coordinator" where
  "co_map_ims f = co_map_ctl (\<lambda>s. s\<lparr>ct_intermediateMap := f (ct_intermediateMap s)\<rparr>)"

text \<open>The constructor registers the two extensions; \<open>SHADOWING_STD\<close> is the first deviation.\<close>

definition SHADOWING_STD :: real where
  "SHADOWING_STD = 0"

definition Coordinator_new :: "Controller \<Rightarrow> Config option \<Rightarrow> Coordinator" where
  "Coordinator_new ctl cfg =
     \<lparr>co_ctl = ctl, co_rt = RuntimeConfig_init, co_config = cfg,
      co_extensions = registerExtension (Sandbox_ext SandboxExtension_new)
                        (registerExtension (Sionna_ext SionnaExtension_new) []),
      co_shadow_std = SHADOWING_STD, co_shadow_std_by_freq = []\<rparr>"

section \<open>Geometry\<close>

fun fp_sin :: "fp \<Rightarrow> fp" where
  "fp_sin (Fin a) = Fin (sin a)"
| "fp_sin _ = NaN"

fun fp_atan :: "fp \<Rightarrow> fp" where
  "fp_atan (Fin a) = Fin (arctan a)"
| "fp_atan PInf = Fin (pi / 2)"
| "fp_atan NInf = Fin (- pi / 2)"
| "fp_atan NaN = NaN"

fun fp_abs :: "fp \<Rightarrow> fp" where
  "fp_abs (Fin a) = Fin \<bar>a\<bar>"
| "fp_abs NInf = PInf"
| "fp_abs x = x"

text \<open>The angle of the point (x, y), between \<open>- pi\<close> and \<open>pi\<close>.\<close>

definition atan2 :: "real \<Rightarrow> real \<Rightarrow> real" where
  "atan2 y x =
     (if 0 < x then arctan (y / x)
      else if x < 0 then (if 0 \<le> y then arctan (y / x) + pi else arctan (y / x) - pi)
      else if 0 < y then pi / 2 else if y < 0 then - pi / 2 else 0)"

fun fp_atan2 :: "fp \<Rightarrow> fp \<Rightarrow> fp" where
  "fp_atan2 (Fin y) (Fin x) = Fin (atan2 y x)"
| "fp_atan2 _ _ = NaN"

definition rad_per_deg :: fp where
  "rad_per_deg = Fin (PI_C / 180)"

definition to_degrees :: "fp \<Rightarrow> fp" where
  "to_degrees x = fp_div (fp_mul x (Fin 180)) (Fin PI_C)"

definition calcAzimuth :: "fp \<Rightarrow> fp \<Rightarrow> fp \<Rightarrow> fp \<Rightarrow> fp" where
  "calcAzimuth lat1 lon1 lat2 lon2 =
     (let lat1_rad = fp_mul lat1 rad_per_deg;
          lat2_rad = fp_mul lat2 rad_per_deg;
          dlon_rad = fp_mul (fp_sub lon2 lon1) rad_per_deg
      in to_degrees (fp_atan2 (fp_mul (fp_sin dlon_rad) (fp_cos lat2_rad))
           (fp_sub (fp_mul (fp_cos lat1_rad) (fp_sin lat2_rad))
             (fp_mul (fp_mul (fp_sin lat1_rad) (fp_cos lat2_rad)) (fp_cos dlon_rad)))))"

text \<open>North and east of the second point seen from the first, in metres.\<close>

definition north_east :: "fp \<Rightarrow> fp \<Rightarrow> fp \<Rightarrow> fp \<Rightarrow> fp \<times> fp" where
  "north_east lat1 lon1 lat2 lon2 =
     (let lat_avg_rad = fp_mul (fp_mul (fp_add lat1 lat2) (Fin (1 / 2))) rad_per_deg
      in (fp_mul (fp_sub lat2 lat1) (Fin meters_per_deg),
          fp_mul (fp_mul (fp_sub lon2 lon1) (Fin meters_per_deg)) (fp_cos lat_avg_rad)))"

definition calcDistance :: "fp \<Rightarrow> fp \<Rightarrow> fp \<Rightarrow> fp \<Rightarrow> fp" where
  "calcDistance lat1 lon1 lat2 lon2 =
     (if fp_eq lat1 (Fin 0) \<or> fp_eq lat1 (Fin 0) \<or> fp_eq lon1 (Fin 0) \<or> fp_eq lon2 (Fin 0) then Fin 0
      else case north_east lat1 lon1 lat2 lon2 of (n, e) \<Rightarrow> fp_sqrt (fp_add (fp_mul n n) (fp_mul e e)))"

definition link_elevation :: "fp \<Rightarrow> fp \<Rightarrow> fp" where
  "link_elevation d_m d_alt = (if fp_less (Fin (1 / 100)) d_m then to_degrees (fp_atan (fp_div d_alt d_m)) else Fin 0)"

definition link_doppler :: "real \<Rightarrow> NodeLocation \<Rightarrow> NodeLocation \<Rightarrow> fp" where
  "link_doppler carrier_hz l1 l2 =
     (let p1 = nloc_position l1; p2 = nloc_position l2; v1 = nloc_velocity l1; v2 = nloc_velocity l2;
          (north_m, east_m) = north_east (loc_lat p1) (loc_lon p1) (loc_lat p2) (loc_lon p2);
          up_m = fp_sub (loc_alt p2) (loc_alt p1);
          range_m = fp_sqrt (fp_add (fp_add (fp_mul east_m east_m) (fp_mul north_m north_m)) (fp_mul up_m up_m))
      in if fp_less (Fin (1 / 100)) range_m then
           let ux = fp_div east_m range_m; uy = fp_div north_m range_m; uz = fp_div up_m range_m;
               range_rate = fp_add (fp_add (fp_mul (fp_sub (vel_east v2) (vel_east v1)) ux)
                                           (fp_mul (fp_sub (vel_north v2) (vel_north v1)) uy))
                                   (fp_mul (fp_sub (vel_up v2) (vel_up v1)) uz)
           in fp_mul (fp_neg (fp_div range_rate (Fin SPEED_OF_LIGHT))) (Fin carrier_hz)
         else Fin 0)"

section \<open>The update loop\<close>

definition findLoc :: "(string, Node) omap \<Rightarrow> string \<Rightarrow> NodeLocation option" where
  "findLoc nodes key =
     (case (case om_find nodes key of Some n \<Rightarrow> getLocation n | None \<Rightarrow> None) of
        Some l \<Rightarrow> Some l
      | None \<Rightarrow>
          (case List.find (\<lambda>(_, n). nc_name (nd_config n) = key \<and> getLocation n \<noteq> None) nodes of
             Some (_, n) \<Rightarrow> getLocation n
           | None \<Rightarrow> None))"

definition update_link :: "real \<Rightarrow> NodeLocation \<Rightarrow> NodeLocation \<Rightarrow> Channel \<Rightarrow> Channel" where
  "update_link carrier_hz l1 l2 ch =
     (let p1 = nloc_position l1; p2 = nloc_position l2;
          d_m = calcDistance (loc_lat p1) (loc_lon p1) (loc_lat p2) (loc_lon p2);
          azimuth = calcAzimuth (loc_lat p1) (loc_lon p1) (loc_lat p2) (loc_lon p2);
          d_alt = fp_sub (loc_alt p2) (loc_alt p1);
          ch1 = ch_updateAzimuth azimuth (ch_updateElevation (link_elevation d_m d_alt)
                  (updateHeights (loc_alt p1) (loc_alt p2)
                    (ch_updateAltitude (fp_abs d_alt) (ch_updateDistance d_m ch))))
      in if ch_dopplerEnabled ch1 then setDopplerHz (link_doppler carrier_hz l1 l2) ch1 else ch1)"

definition config_link :: "(string, Node) omap \<Rightarrow> real \<Rightarrow> Channel \<Rightarrow> Channel" where
  "config_link nodes carrier_hz ch =
     (case (findLoc nodes (ch_source ch), findLoc nodes (ch_dest ch)) of
        (Some l1, Some l2) \<Rightarrow> update_link carrier_hz l1 l2 ch
      | _ \<Rightarrow> ch)"

definition configChannels :: "Coordinator \<Rightarrow> Coordinator" where
  "configChannels c =
     co_map_ims (map (\<lambda>(freq, im). (freq, for_channels (config_link (co_nodes c) freq) im))) c"

section \<open>Looking up nodes\<close>

definition resolveNodeId :: "(string, Node) omap \<Rightarrow> string \<Rightarrow> string" where
  "resolveNodeId nodes raw =
     (if om_find nodes raw \<noteq> None then raw
      else case List.find (\<lambda>(_, n). nc_name (nd_config n) = raw) nodes of
             Some (_, n) \<Rightarrow> nc_id (nd_config n)
           | None \<Rightarrow> raw)"

definition collectTxActivity :: "(real, Intermediate) omap \<Rightarrow> (string, int) omap" where
  "collectTxActivity ims =
     fold (\<lambda>(src, t) m. case om_find m src of
              None \<Rightarrow> om_set src t m
            | Some t' \<Rightarrow> if t' < t then om_set src t m else m)
       (concat (map (\<lambda>(_, im). getTxActivity im) ims)) []"

definition TX_ACTIVE_WINDOW_NS :: int where
  "TX_ACTIVE_WINDOW_NS = 5 * 1000000000"

definition addTxActivityFields :: "int \<Rightarrow> int \<Rightarrow> json \<Rightarrow> json" where
  "addTxActivityFields last_tx_ns now_ns target =
     (if last_tx_ns \<le> 0 then jset ''txActive'' (JBool False) (jset ''msSinceLastTx'' JNull target)
      else
        let elapsed = max 0 (now_ns - last_tx_ns)
        in jset ''txActive'' (JBool (elapsed \<le> TX_ACTIVE_WINDOW_NS))
             (jset ''msSinceLastTx'' (JInt (elapsed div 1000000)) target))"

definition tx_time :: "(string, int) omap \<Rightarrow> string \<Rightarrow> int" where
  "tx_time act k = (case om_find act k of Some t \<Rightarrow> t | None \<Rightarrow> 0)"

end
