(* ===== verification/Coordinator_Commands.thy ===== *)
theory Coordinator_Commands
  imports Coordinator Antenna
begin

text \<open>
  The commands of the coordinator, \<open>Coordinator::requestHandler\<close> and the functions it calls. A
  member that is read with \<open>operator[]\<close> and converted is an exception when it is missing or has
  another type; one that is read with \<open>value\<close> has a default but still throws for another type;
  one that is tested first is ignored. Nothing between the handler and the event loop catches an
  exception.
\<close>

section \<open>Reading a request\<close>

definition value_string :: "json \<Rightarrow> string \<Rightarrow> string \<Rightarrow> string result" where
  "value_string j k dflt = (if contains j k then get_string (jmember j k) else Inr dflt)"

definition value_bool :: "json \<Rightarrow> string \<Rightarrow> bool \<Rightarrow> bool result" where
  "value_bool j k dflt = (if contains j k then get_bool (jmember j k) else Inr dflt)"

definition value_int :: "json \<Rightarrow> string \<Rightarrow> int \<Rightarrow> int result" where
  "value_int j k dflt = (if contains j k then get_int (jmember j k) else Inr dflt)"

text \<open>\<open>get<size_t>\<close> takes numbers only.\<close>

fun get_size :: "json \<Rightarrow> u64 result" where
  "get_size (JInt i) = Inr (of_int i)"
| "get_size (JFloat r) = Inr (of_int (trunc_real r))"
| "get_size _ = Inl (Type_error ''type must be number'')"

definition fp_member :: "json \<Rightarrow> string \<Rightarrow> fp \<Rightarrow> fp" where
  "fp_member j k old = (case typed_member is_number j k of Some v \<Rightarrow> Fin (to_d v) | None \<Rightarrow> old)"

definition zone_member :: "json \<Rightarrow> int" where
  "zone_member j = (case typed_member is_number j ''climateZone'' of Some v \<Rightarrow> to_i v | None \<Rightarrow> 5)"

text \<open>Frequencies come in MHz.\<close>

definition freq_of :: "json \<Rightarrow> real result" where
  "freq_of j = rmap (\<lambda>f. f * 1000000) (get_double (jmember j ''freq''))"

definition result_reply :: "bool \<Rightarrow> json" where
  "result_reply b = jobj [(''result'', JBool b)]"

section \<open>Configuration\<close>

definition config_reply :: "Coordinator \<Rightarrow> json" where
  "config_reply c =
     jobj [(''status'', JStr ''success''), (''vehiclePollRateMs'', JInt (rc_vehicle_poll_rate_ms (co_rt c))),
           (''channelUpdateRateMs'', JInt (rc_channel_update_rate_ms (co_rt c))),
           (''cirMaxTaps'', JInt (rc_cir_max_taps (co_rt c))),
           (''extensions'', getAllStatus (co_rt c) (co_extensions c))]"

definition clamp_ms :: "int \<Rightarrow> int \<Rightarrow> int \<Rightarrow> int" where
  "clamp_ms v lo hi = max lo (min hi v)"

definition clamp_member :: "json \<Rightarrow> string \<Rightarrow> int \<Rightarrow> int \<Rightarrow> int \<Rightarrow> int" where
  "clamp_member j k lo hi old = (case typed_member is_number j k of Some v \<Rightarrow> clamp_ms (to_i v) lo hi | None \<Rightarrow> old)"

definition set_config :: "json \<Rightarrow> RuntimeConfig \<Rightarrow> RuntimeConfig" where
  "set_config j rt =
     rt\<lparr>rc_vehicle_poll_rate_ms := clamp_member j ''vehiclePollRateMs'' 20 60000 (rc_vehicle_poll_rate_ms rt),
        rc_channel_update_rate_ms := clamp_member j ''channelUpdateRateMs'' 1 60000 (rc_channel_update_rate_ms rt),
        rc_cir_max_taps := clamp_member j ''cirMaxTaps'' 0 8192 (rc_cir_max_taps rt)\<rparr>"

definition SET_CONFIG :: "json \<Rightarrow> Coordinator \<Rightarrow> json co_result" where
  "SET_CONFIG j c = (let c1 = c\<lparr>co_rt := set_config j (co_rt c)\<rparr> in (Inr (config_reply c1), c1))"

definition GET_CONFIG_FILE :: "Coordinator \<Rightarrow> json" where
  "GET_CONFIG_FILE c =
     (case co_config c of
        Some f \<Rightarrow> jobj [(''status'', JStr ''success''), (''path'', JStr (cf_path f)), (''config'', cf_configuration f)]
      | None \<Rightarrow> jobj [(''status'', JStr ''fail''), (''message'', JStr ''Config file not available'')])"

definition SAVE_CONFIG_FILE :: "co_env \<Rightarrow> json \<Rightarrow> Coordinator \<Rightarrow> json co_result" where
  "SAVE_CONFIG_FILE env j c =
     (case co_config c of
        None \<Rightarrow> (Inr (jobj [(''status'', JStr ''fail''), (''message'', JStr ''Config file not available'')]), c)
      | Some f \<Rightarrow>
          let f1 = (case typed_member is_object j ''config'' of Some p \<Rightarrow> mergePatch p f | None \<Rightarrow> f);
              path = str_member j ''path'' '''';
              ok = (Config_save (cv_disk env) path f1 \<noteq> None)
          in (Inr (jobj ([(''status'', JStr (if ok then ''success'' else ''fail''))] @
                         (if ok then [] else [(''message'', JStr ''Failed to write config file'')]) @
                         [(''path'', JStr (if path = [] then cf_path f1 else path)), (''config'', cf_configuration f1)])),
              c\<lparr>co_config := Some f1\<rparr>))"

section \<open>Status and logs\<close>

definition getStatus :: "co_env \<Rightarrow> Coordinator \<Rightarrow> json" where
  "getStatus env c =
     jobj ([(''status'', JStr ''success''), (''nodesConnected'', JInt (int (length (co_nodes c)))),
            (''freqChannels'', JInt (int (length (co_ims c)))), (''version'', JStr (cv_version env)),
            (''sandboxEnabled'', JBool (rc_sandbox_enabled (co_rt c))),
            (''vehiclePollRateMs'', JInt (rc_vehicle_poll_rate_ms (co_rt c))),
            (''channelUpdateRateMs'', JInt (rc_channel_update_rate_ms (co_rt c)))] @ cv_status env)"

definition log_ringbuffer_capacity :: nat where
  "log_ringbuffer_capacity = 2048"

text \<open>The last lines of the log; the ring buffer takes a limit of zero for no limit.\<close>

definition last_formatted :: "nat \<Rightarrow> string list \<Rightarrow> string list" where
  "last_formatted k xs = (if k = 0 then xs else drop (length xs - k) xs)"

definition GET_LOGS :: "co_env \<Rightarrow> json \<Rightarrow> json" where
  "GET_LOGS env j =
     (let lines = (case typed_member is_number_integer j ''lines'' of
                     Some (JInt v) \<Rightarrow> nat (min (max 0 v) (int log_ringbuffer_capacity)) | _ \<Rightarrow> 500)
      in case cv_logs env of
           Some xs \<Rightarrow> jobj [(''status'', JStr ''success''), (''lines'', JArr (map JStr (last_formatted lines xs))),
                            (''capacity'', JInt (int log_ringbuffer_capacity))]
         | None \<Rightarrow> jobj [(''status'', JStr ''fail''), (''message'', JStr ''Log ring buffer not initialized''),
                         (''lines'', JArr [])])"

section \<open>Antennas and power\<close>

definition chg_antenna_nodes ::
  "string \<Rightarrow> string \<Rightarrow> string \<Rightarrow> string \<Rightarrow> (string, Node) omap \<Rightarrow> bool \<times> (string, Node) omap" where
  "chg_antenna_nodes node pattern tx rx nodes =
     (case List.find (\<lambda>(i, n). nc_name (nd_config n) = node \<or> i = node) nodes of
        Some (i, n) \<Rightarrow> (True, om_set i (n\<lparr>nd_config := apply_patterns pattern tx rx (nd_config n)\<rparr>) nodes)
      | None \<Rightarrow> (False, nodes))"

definition chg_antenna_ims ::
  "string \<Rightarrow> string \<Rightarrow> string \<Rightarrow> string \<Rightarrow> (real, Intermediate) omap \<Rightarrow> heap \<Rightarrow> bool \<times> heap" where
  "chg_antenna_ims node pattern tx rx ims h =
     fold (\<lambda>(_, im) (ok, h). let (b, h') = updateNodeAntenna node pattern tx rx im h in (ok \<or> b, h')) ims (False, h)"

definition change_antenna :: "co_env \<Rightarrow> string \<Rightarrow> string \<Rightarrow> string \<Rightarrow> string \<Rightarrow> Coordinator \<Rightarrow> json co_result" where
  "change_antenna env node pattern tx rx c =
     (let db_pattern = (if pattern \<noteq> [] then pattern else if tx = [] then rx else tx);
          s1 = db_exec (ChangeAntenna_sql node db_pattern) (co_ctl c);
          (mem_ok, nodes) = chg_antenna_nodes node pattern tx rx (ct_nodeMap s1);
          (interm_ok, h) = chg_antenna_ims node pattern tx rx (ct_intermediateMap s1) (ct_heap s1);
          db_ok = cv_db_ok env
      in (Inr (jobj ([(''status'', JStr (if db_ok \<and> mem_ok \<and> interm_ok then ''success''
                                          else if db_ok \<or> mem_ok \<or> interm_ok then ''partial'' else ''fail''))] @
                     (if \<not> mem_ok \<and> \<not> interm_ok
                      then [(''warning'', JStr ''Node not found in memory, only database updated'')] else []))),
          c\<lparr>co_ctl := s1\<lparr>ct_nodeMap := nodes, ct_heap := h\<rparr>\<rparr>))"

definition CHG_ANTENNA :: "co_env \<Rightarrow> json \<Rightarrow> Coordinator \<Rightarrow> json co_result" where
  "CHG_ANTENNA env j c =
     co_then (co_lift (value_string j ''node'' '''') c) (\<lambda>node c.
     co_then (co_lift (value_string j ''pattern'' '''') c) (\<lambda>pattern c.
     co_then (co_lift (value_string j ''tx_pattern'' '''') c) (\<lambda>tx c.
     co_then (co_lift (value_string j ''rx_pattern'' '''') c) (\<lambda>rx c.
       if node = [] \<or> pattern = [] \<and> tx = [] \<and> rx = []
       then (Inr (ext_reply ''fail'' (''Missing node or pattern (use '' @ [CHR 0x27] @ ''pattern'' @ [CHR 0x27] @
               '' for both, or '' @ [CHR 0x27] @ ''tx_pattern'' @ [CHR 0x27] @ ''/'' @ [CHR 0x27] @ ''rx_pattern'' @
               [CHR 0x27] @ '' separately)'')), c)
       else change_antenna env node pattern tx rx c))))"

definition source_power :: "json \<Rightarrow> fp" where
  "source_power j = (case typed_member is_number j ''sourcePowerDbfs'' of Some v \<Rightarrow> Fin (to_d v) | None \<Rightarrow> NaN)"

definition CHG_SOURCE_POWER :: "json \<Rightarrow> Coordinator \<Rightarrow> json co_result" where
  "CHG_SOURCE_POWER j c =
     co_then (co_lift (value_string j ''node'' '''') c) (\<lambda>node c.
       if node = [] then (Inr (ext_reply ''fail'' (''Missing '' @ [CHR 0x27] @ ''node'' @ [CHR 0x27] @ '' field'')), c)
       else
         let nodeId = resolveNodeId (co_nodes c) node
         in case om_find (co_nodes c) nodeId of
              None \<Rightarrow> (Inr (ext_reply ''fail'' ''Node not found''), c)
            | Some n \<Rightarrow>
                (case nc_characteristics (nd_config n) of
                   None \<Rightarrow> (Inr (ext_reply ''fail'' ''Node has no characteristics''), c)
                 | Some chars \<Rightarrow>
                     let cfg = (nd_config n)\<lparr>nc_characteristics := Some (chars\<lparr>ch_source_power_dbfs := source_power j\<rparr>)\<rparr>
                     in (Inr (jobj [(''status'', JStr ''success''), (''sourcePowerDbfs'', json_of_fp (source_power j))]),
                         co_map_ctl (\<lambda>s. s\<lparr>ct_nodeMap := om_set nodeId (n\<lparr>nd_config := cfg\<rparr>) (ct_nodeMap s)\<rparr>) c)))"

section \<open>Path loss\<close>

text \<open>What a command does to the channel of a frequency.\<close>

definition on_freq :: "real \<Rightarrow> (Intermediate \<Rightarrow> Intermediate) \<Rightarrow> Coordinator \<Rightarrow> Coordinator" where
  "on_freq freq f c =
     (case om_find (co_ims c) freq of
        None \<Rightarrow> c
      | Some im \<Rightarrow> co_map_ims (om_set freq (f im)) c)"

definition Coordinator_setPathLossMode :: "real \<Rightarrow> string \<Rightarrow> fp \<Rightarrow> string \<Rightarrow> Coordinator \<Rightarrow> json \<times> Coordinator" where
  "Coordinator_setPathLossMode freq plMode grCoeff scenario c =
     (if om_find (co_ims c) freq = None then (result_reply False, c)
      else (result_reply True,
            on_freq freq (\<lambda>im. let im1 = updatePathLoss_str plMode grCoeff im
                               in if PropagationModelFromString plMode = THREE_GPP_38_901
                                  then set3gppScenario scenario im1 else im1) c))"

text \<open>The parameters of one model.\<close>

definition model_params :: "PropagationModel \<Rightarrow> json \<Rightarrow> Intermediate \<Rightarrow> Intermediate" where
  "model_params model j im =
     (if model = OKUMURA_HATA then setHataEnvironment (str_member j ''environment'' ''URBAN'') im
      else if model = LONGLEY_RICE then
        setITMParams (fp_member j ''refractivity'' (Fin 301)) (fp_member j ''groundConductivity'' (Fin (5 / 1000)))
          (fp_member j ''groundPermittivity'' (Fin 15)) (zone_member j) im
      else im)"

definition CHG_PL :: "json \<Rightarrow> Coordinator \<Rightarrow> json co_result" where
  "CHG_PL j c =
     co_then (co_lift (freq_of j) c) (\<lambda>freq c.
     co_then (co_lift (get_string (jmember j ''plMode'')) c) (\<lambda>plMode c.
       let (resp, c1) = Coordinator_setPathLossMode freq plMode (fp_member j ''groundCoeff'' (Fin (- 1)))
                          (str_member j ''scenario'' ''UMa'') c
       in (Inr resp, on_freq freq (model_params (PropagationModelFromString plMode) j) c1)))"

definition default_pl :: "PropagationModel \<Rightarrow> json \<Rightarrow> PropagationDefaults" where
  "default_pl model j =
     \<lparr>pd_model = model, pd_groundCoeff = fp_member j ''groundCoeff'' (Fin (- 1)),
      pd_scenario = str_member j ''scenario'' ''UMa'', pd_hataEnvironment = str_member j ''environment'' ''URBAN'',
      pd_refractivity = fp_member j ''refractivity'' (Fin 301),
      pd_groundConductivity = fp_member j ''groundConductivity'' (Fin (5 / 1000)),
      pd_groundPermittivity = fp_member j ''groundPermittivity'' (Fin 15), pd_climateZone = zone_member j\<rparr>"

definition apply_default_pl :: "string \<Rightarrow> json \<Rightarrow> Intermediate \<Rightarrow> Intermediate" where
  "apply_default_pl plMode j im =
     (let model = PropagationModelFromString plMode;
          im1 = updatePathLoss_str plMode (fp_member j ''groundCoeff'' (Fin (- 1))) im;
          im2 = (if model = THREE_GPP_38_901 then set3gppScenario (str_member j ''scenario'' ''UMa'') im1 else im1)
      in model_params model j im2)"

definition SET_DEFAULT_PL :: "json \<Rightarrow> Coordinator \<Rightarrow> json co_result" where
  "SET_DEFAULT_PL j c =
     co_then (co_lift (value_string j ''plMode'' ''FREE_SPACE'') c) (\<lambda>plMode c.
       let model = PropagationModelFromString plMode in
       if model = PM_UNKNOWN then (Inr (ext_reply ''fail'' ''Unknown propagation model''), c)
       else
         (Inr (jobj [(''status'', JStr ''success''), (''model'', JStr (PropagationModelToString model))]),
          co_map_ctl (\<lambda>s. s\<lparr>ct_propagationDefaults := map_option (\<lambda>_. default_pl model j) (ct_propagationDefaults s),
                            ct_intermediateMap := om_map_values (apply_default_pl plMode j) (ct_intermediateMap s)\<rparr>) c))"

section \<open>One link\<close>

text \<open>The setters of a link name its ends by id or by name, and report whether it exists.\<close>

definition on_link ::
  "real \<Rightarrow> string \<Rightarrow> string \<Rightarrow> (string \<Rightarrow> string \<Rightarrow> Intermediate \<Rightarrow> bool \<times> Intermediate) \<Rightarrow> Coordinator \<Rightarrow> json co_result" where
  "on_link freq src dest f c =
     (case om_find (co_ims c) freq of
        None \<Rightarrow> (Inr (result_reply False), c)
      | Some im \<Rightarrow>
          let (ok, im') = f (resolveNodeId (co_nodes c) src) (resolveNodeId (co_nodes c) dest) im
          in (Inr (result_reply ok), co_map_ims (om_set freq im') c))"

text \<open>The frequency and the two ends of a link command, in the order they are read.\<close>

definition with_link :: "json \<Rightarrow> (real \<Rightarrow> string \<Rightarrow> string \<Rightarrow> Coordinator \<Rightarrow> json co_result) \<Rightarrow> Coordinator \<Rightarrow> json co_result" where
  "with_link j f c =
     co_then (co_lift (freq_of j) c) (\<lambda>freq c.
     co_then (co_lift (get_string (jmember j ''src'')) c) (\<lambda>src c.
     co_then (co_lift (get_string (jmember j ''dest'')) c) (f freq src)))"

definition CHG_COEFF :: "json \<Rightarrow> Coordinator \<Rightarrow> json co_result" where
  "CHG_COEFF j = with_link j (\<lambda>freq src dest c.
     co_then (co_lift (get_double (jmember j ''coeff'')) c) (\<lambda>coeff c.
     co_then (co_lift (get_size (jmember j ''p_src'')) c) (\<lambda>ps c.
     co_then (co_lift (get_size (jmember j ''p_dest'')) c) (\<lambda>pd c.
       on_link freq src dest (\<lambda>s d. updateChannelCoeff s d (ps, pd) (Fin coeff)) c))))"

definition CHG_NOISE_MDL :: "json \<Rightarrow> Coordinator \<Rightarrow> json co_result" where
  "CHG_NOISE_MDL j c =
     co_then (co_lift (freq_of j) c) (\<lambda>freq c.
     co_then (co_lift (get_string (jmember j ''noiseModel'')) c) (\<lambda>mdl c.
     co_then (co_lift (get_double (jmember j ''pwr'')) c) (\<lambda>snr c.
     co_then (co_lift (get_string (jmember j ''src'')) c) (\<lambda>src c.
     co_then (co_lift (get_string (jmember j ''dest'')) c) (\<lambda>dest c.
       on_link freq src dest (\<lambda>s d. updateAWGN s d (mdl = ''AWGN'') (Fin snr)) c)))))"

definition CHG_FREQ_OFFSET :: "json \<Rightarrow> Coordinator \<Rightarrow> json co_result" where
  "CHG_FREQ_OFFSET j = with_link j (\<lambda>freq src dest c.
     co_then (co_lift (get_double (jmember j ''offsetHz'')) c) (\<lambda>hz c.
       on_link freq src dest (\<lambda>s d. updateFrequencyOffset s d (Fin hz)) c))"

definition CHG_DOPPLER :: "json \<Rightarrow> Coordinator \<Rightarrow> json co_result" where
  "CHG_DOPPLER j = with_link j (\<lambda>freq src dest c.
     co_then (co_lift (value_bool j ''enabled'' False) c) (\<lambda>b c.
       on_link freq src dest (\<lambda>s d. updateDopplerEnabled s d b) c))"

text \<open>One entry of the list of taps: a number, a pair or an object; anything else is skipped.\<close>

definition num_at :: "json list \<Rightarrow> nat \<Rightarrow> real" where
  "num_at xs i = (if i < length xs \<and> is_number (xs ! i) then to_d (xs ! i) else 0)"

fun parse_tap :: "json \<Rightarrow> complex option" where
  "parse_tap (JArr xs) = Some (Complex (num_at xs 0) (num_at xs 1))"
| "parse_tap (JObj m) = Some (Complex (num_member (JObj m) ''re'' 0) (num_member (JObj m) ''im'' 0))"
| "parse_tap t = (if is_number t then Some (Complex (to_d t) 0) else None)"

fun parse_taps :: "int \<Rightarrow> json list \<Rightarrow> complex list \<Rightarrow> complex list" where
  "parse_taps max_taps [] taps = taps"
| "parse_taps max_taps (t # ts) taps =
     (if 0 < max_taps \<and> max_taps \<le> int (length taps) then taps
      else parse_taps max_taps ts (taps @ (case parse_tap t of Some z \<Rightarrow> [z] | None \<Rightarrow> [])))"

definition request_taps :: "RuntimeConfig \<Rightarrow> json \<Rightarrow> complex list" where
  "request_taps rt j =
     (case typed_member is_array j ''taps'' of
        Some (JArr ts) \<Rightarrow> parse_taps (max 0 (rc_cir_max_taps rt)) ts []
      | _ \<Rightarrow> [])"

definition CHG_CIR :: "json \<Rightarrow> Coordinator \<Rightarrow> json co_result" where
  "CHG_CIR j = with_link j (\<lambda>freq src dest c.
     co_then (co_lift (value_int j ''p_src'' 0) c) (\<lambda>ps c.
     co_then (co_lift (value_int j ''p_dest'' 0) c) (\<lambda>pd c.
       on_link freq src dest (\<lambda>s d. updateCIR s d (of_int ps, of_int pd) (request_taps (co_rt c) j)) c)))"

section \<open>Shadowing\<close>

definition Coordinator_setShadowingSTD :: "Coordinator \<Rightarrow> Coordinator" where
  "Coordinator_setShadowingSTD c = co_map_ims (om_map_values (setShadowingSTD (Fin (co_shadow_std c)))) c"

definition UPD_SHADOW_STD :: "json \<Rightarrow> Coordinator \<Rightarrow> json co_result" where
  "UPD_SHADOW_STD j c =
     co_then (co_lift (get_double (jmember j ''std'')) c) (\<lambda>s c.
       if contains j ''freq'' then
         co_then (co_lift (freq_of j) c) (\<lambda>freq c.
           (Inr (reply ''success''),
            on_freq freq (setShadowingSTD (Fin s)) (c\<lparr>co_shadow_std_by_freq := om_set freq s (co_shadow_std_by_freq c)\<rparr>)))
       else (Inr (reply ''success''), Coordinator_setShadowingSTD (c\<lparr>co_shadow_std := s\<rparr>)))"

definition GET_SHADOW_STD :: "json \<Rightarrow> Coordinator \<Rightarrow> json co_result" where
  "GET_SHADOW_STD j c =
     (if contains j ''freq'' then
        co_then (co_lift (freq_of j) c) (\<lambda>freq c.
          (Inr (jobj [(''status'', JStr ''success''),
             (''std'', JFloat (case om_find (co_shadow_std_by_freq c) freq of Some s \<Rightarrow> s | None \<Rightarrow> co_shadow_std c))]), c))
      else (Inr (jobj [(''status'', JStr ''success''), (''std'', JFloat (co_shadow_std c))]), c))"

section \<open>Extensions\<close>

text \<open>The members beside the four known ones are copied into the parameters; subscripting
  parameters that are neither an object nor null throws.\<close>

definition ext_params :: "json \<Rightarrow> json result" where
  "ext_params j =
     (let params = (if contains j ''params'' then jmember j ''params'' else JObj []);
          extra = filter (\<lambda>(k, _). k \<notin> {''CMD'', ''extension'', ''action'', ''params''}) (jmembers j)
      in if extra \<noteq> [] \<and> \<not> is_object params \<and> params \<noteq> JNull then Inl (Type_error ''cannot use operator[]'')
         else Inr (fold (\<lambda>(k, v). jset k v) extra params))"

definition with_extensions ::
  "(registry \<times> ext_world \<Rightarrow> 'a \<times> registry \<times> ext_world) \<Rightarrow> Coordinator \<Rightarrow> 'a \<times> Coordinator" where
  "with_extensions f c =
     (let (x, reg, w) = f (co_extensions c, \<lparr>xw_rt = co_rt c, xw_ims = co_ims c\<rparr>)
      in (x, co_map_ims (\<lambda>_. xw_ims w) (c\<lparr>co_extensions := reg, co_rt := xw_rt w\<rparr>)))"

definition EXT :: "json \<Rightarrow> Coordinator \<Rightarrow> json co_result" where
  "EXT j c =
     co_then (co_lift (value_string j ''extension'' '''') c) (\<lambda>extName c.
     co_then (co_lift (value_string j ''action'' '''') c) (\<lambda>action c.
     co_then (co_lift (ext_params j) c) (\<lambda>params c.
       let (resp, c1) = with_extensions (routeCommand extName action params) c in (Inr resp, c1))))"

section \<open>Reports\<close>

definition TX_GAIN :: real where "TX_GAIN = 15"
definition RX_GAIN :: real where "RX_GAIN = 10"

text \<open>The gain in use: the node's own when it has one that is not zero.\<close>

definition reported_gain :: "bool \<Rightarrow> real \<Rightarrow> real \<Rightarrow> real" where
  "reported_gain has gain dflt = (let raw = (if has then gain else 0) in if 1 / 10 ^ 12 < \<bar>raw\<bar> then raw else dflt)"

definition reported_pattern :: "bool \<Rightarrow> string \<Rightarrow> string list option \<Rightarrow> string option" where
  "reported_pattern has pattern antennas =
     (if has then Some pattern
      else case antennas of Some (a # _) \<Rightarrow> Some a | _ \<Rightarrow> None)"

definition set_opt :: "string \<Rightarrow> json option \<Rightarrow> json \<Rightarrow> json" where
  "set_opt k v j = (case v of Some x \<Rightarrow> jset k x j | None \<Rightarrow> j)"

definition node_entry :: "(string, int) omap \<Rightarrow> int \<Rightarrow> string \<Rightarrow> NodeConfig \<Rightarrow> json \<Rightarrow> json" where
  "node_entry act now_ns ident cfg j =
     (let chars = nc_characteristics cfg;
          j1 = jset ''rxGainDb'' (JFloat (reported_gain (nc_hasDeviceRxGain cfg) (nc_deviceRxGain cfg) RX_GAIN))
                 (jset ''txGainDb'' (JFloat (reported_gain (nc_hasDeviceTxGain cfg) (nc_deviceTxGain cfg) TX_GAIN)) j);
          j2 = set_opt ''txAntennaPattern'' (map_option JStr
                 (reported_pattern (nc_hasTxAntennaPattern cfg) (nc_txAntennaPattern cfg) (map_option ch_tx_antennas chars))) j1;
          j3 = set_opt ''rxAntennaPattern'' (map_option JStr
                 (reported_pattern (nc_hasRxAntennaPattern cfg) (nc_rxAntennaPattern cfg) (map_option ch_rx_antennas chars))) j2;
          j4 = set_opt ''sourcePowerDbfs''
                 (case chars of Some ch \<Rightarrow> if isfinite (ch_source_power_dbfs ch)
                                          then Some (json_of_fp (ch_source_power_dbfs ch)) else None
                  | None \<Rightarrow> None) j3;
          j5 = jset ''nodeType'' (JStr (NodeTypeToString (nc_nodeType cfg))) j4
      in addTxActivityFields (tx_time act ident) now_ns j5)"

definition getNodes :: "co_env \<Rightarrow> Coordinator \<Rightarrow> json" where
  "getNodes env c =
     (let act = collectTxActivity (co_ims c)
      in fold (\<lambda>(ident, n) resp.
           let name = nc_name (nd_config n) in
           if name = [] then resp
           else case typed_member is_object resp name of
                  Some j \<Rightarrow> jset name (node_entry act (cv_now_ns env) ident (nd_config n) j) resp
                | None \<Rightarrow> resp) (co_nodes c) (cv_nodes env))"

text \<open>The name of a node, or the id when it has none.\<close>

definition resolveName :: "(string, Node) omap \<Rightarrow> string \<Rightarrow> string" where
  "resolveName nodes i = (case om_find nodes i of
      Some n \<Rightarrow> if nc_name (nd_config n) \<noteq> [] then nc_name (nd_config n) else i
    | None \<Rightarrow> i)"

definition port_entry ::
  "(string, Node) omap \<Rightarrow> (string, int) omap \<Rightarrow> int \<Rightarrow> Intermediate \<Rightarrow> Channel \<Rightarrow> chId \<times> fp \<Rightarrow> json" where
  "port_entry nodes act now_ns im ch = (\<lambda>((ps, pd), coeff).
     addTxActivityFields (tx_time act (ch_source ch)) now_ns
       (jobj [(''src'', JStr (resolveName nodes (ch_source ch))), (''srcId'', JStr (ch_source ch)),
              (''dest'', JStr (resolveName nodes (ch_dest ch))), (''destId'', JStr (ch_dest ch)),
              (''p_src'', JInt (int (unat ps))), (''p_dest'', JInt (int (unat pd))), (''coeff'', json_of_fp coeff),
              (''noiseModel'', JStr (if ch_noiseType ch = AWGN then ''AWGN'' else ''NONE'')),
              (''snr'', json_of_fp (getSNR ch)), (''snrMeasuredDb'', json_of_fp (ch_snrMeasured ch)),
              (''snrOverrideDb'', if ch_snrOverride ch \<noteq> None then json_of_fp (getSNR ch) else JNull),
              (''distance'', json_of_fp (getLinkDistance ch)), (''altitude'', json_of_fp (nl_h_dist (ch_linkInfo ch))),
              (''elevation'', json_of_fp (nl_elevation (ch_linkInfo ch))),
              (''azimuth'', json_of_fp (nl_azimuth (ch_linkInfo ch))), (''plDb'', json_of_fp (ch_plDb ch)),
              (''freqOffsetHz'', JFloat (ch_freqOffsetHz ch)), (''dopplerEnabled'', JBool (ch_dopplerEnabled ch)),
              (''dopplerHz'', JFloat (ch_dopplerHz ch)),
              (''pathLoss'', JStr (PropagationModelToString (im_propagationModel im))),
              (''cirTapCount'', JInt (int (getChTapCount (ps, pd) ch))),
              (''extensionActive'', JBool (ch_activeExtension ch \<noteq> [])),
              (''activeExtension'', JStr (ch_activeExtension ch))]))"

definition channel_entries :: "(string, Node) omap \<Rightarrow> (string, int) omap \<Rightarrow> int \<Rightarrow> Intermediate \<Rightarrow> json list" where
  "channel_entries nodes act now_ns im =
     concat (map (\<lambda>(_, ch). map (port_entry nodes act now_ns im ch) (ch_portChCoeffs ch))
       (filter (\<lambda>(_, ch). resolveName nodes (ch_source ch) \<noteq> resolveName nodes (ch_dest ch)) (im_channelMap im)))"

definition getIndividualChannels :: "co_env \<Rightarrow> Coordinator \<Rightarrow> json" where
  "getIndividualChannels env c =
     (let act = collectTxActivity (co_ims c)
      in fold (\<lambda>(freq, im) j.
           let fr = to_string_double (freq / 1000000);
               old = (case typed_member is_array j fr of Some (JArr xs) \<Rightarrow> xs | _ \<Rightarrow> [])
           in jset fr (JArr (old @ channel_entries (co_nodes c) act (cv_now_ns env) im)) j) (co_ims c) JNull)"

definition getAntennaTypes :: json where
  "getAntennaTypes = JArr (map JStr AvailableAntennas)"

definition getAntennaPatterns :: "co_env \<Rightarrow> json" where
  "getAntennaPatterns env = JArr (map JStr (filter (\<lambda>n. n \<noteq> [] \<and> hd n \<noteq> CHR ''.'') (cv_patterns env)))"

section \<open>The handler\<close>

definition commands :: "co_env \<Rightarrow> json \<Rightarrow> (string \<times> (Coordinator \<Rightarrow> json co_result)) list" where
  "commands env j =
     [(''GET_NODES'', \<lambda>c. (Inr (getNodes env c), c)),
      (''GET_CHANNELS'', \<lambda>c. (Inr (cv_channels env), c)),
      (''GET_IND_CHANNELS'', \<lambda>c. (Inr (getIndividualChannels env c), c)),
      (''GET_ANTENNA_TYPES'', \<lambda>c. (Inr getAntennaTypes, c)),
      (''GET_CONFIG'', \<lambda>c. (Inr (config_reply c), c)),
      (''SET_CONFIG'', SET_CONFIG j),
      (''GET_CONFIG_FILE'', \<lambda>c. (Inr (GET_CONFIG_FILE c), c)),
      (''SAVE_CONFIG_FILE'', SAVE_CONFIG_FILE env j),
      (''GET_STATUS'', \<lambda>c. (Inr (getStatus env c), c)),
      (''GET_LOGS'', \<lambda>c. (Inr (GET_LOGS env j), c)),
      (''GET_ANTENNA_PATTERNS'', \<lambda>c. (Inr (getAntennaPatterns env), c)),
      (''CHG_ANTENNA'', CHG_ANTENNA env j),
      (''CHG_SOURCE_POWER'', CHG_SOURCE_POWER j),
      (''CHG_PL'', CHG_PL j),
      (''SET_DEFAULT_PL'', SET_DEFAULT_PL j),
      (''CHG_COEFF'', CHG_COEFF j),
      (''CHG_NOISE_MDL'', CHG_NOISE_MDL j),
      (''CHG_FREQ_OFFSET'', CHG_FREQ_OFFSET j),
      (''CHG_DOPPLER'', CHG_DOPPLER j),
      (''CHG_CIR'', CHG_CIR j),
      (''UPD_SHADOW_STD'', UPD_SHADOW_STD j),
      (''GET_SHADOW_STD'', GET_SHADOW_STD j),
      (''EXT'', EXT j),
      (''EXT_LIST'', \<lambda>c. (Inr (jobj [(''status'', JStr ''success''), (''extensions'', getAllStatus (co_rt c) (co_extensions c))]), c)),
      (''GET_VERSION'', \<lambda>c. (Inr (jobj [(''status'', JStr ''success''), (''version'', JStr (cv_version env))]), c))]"

text \<open>\<open>coord_info["CMD"]\<close> throws for a request that is neither an object nor null.\<close>

definition Coordinator_requestHandler :: "co_env \<Rightarrow> json option \<Rightarrow> Coordinator \<Rightarrow> json co_result" where
  "Coordinator_requestHandler env request c =
     (case request of
        None \<Rightarrow> (Inr (reply ''fail''), c)
      | Some j \<Rightarrow>
          if \<not> is_object j \<and> j \<noteq> JNull then (Inl (Type_error ''cannot use operator[]''), c)
          else case (case jmember j ''CMD'' of JStr s \<Rightarrow> map_of (commands env j) s | _ \<Rightarrow> None) of
                 Some f \<Rightarrow> f c
               | None \<Rightarrow> (Inr (ext_reply ''fail'' ''Invalid command!''), c))"

end
