(* ===== verification/Sionna_Sync.thy ===== *)
theory Sionna_Sync
  imports Extensions
begin

text \<open>
  The exchange of the Sionna extension with its server,
  \<open>extensions/sionna/src/sionna_client.cpp\<close>: creating the scene, registering the nodes and
  their positions, and fetching the impulse responses and installing them on the links. The server
  is a parameter: a function that answers the last of the requests sent so far. An answer is a
  failure of the transport, which the HTTP helpers report as an exception, or a status and a body;
  the helpers never look at the status. A body that is not JSON is \<open>None\<close>.
\<close>

section \<open>The server\<close>

datatype http_method = Http_get | Http_post | Http_put

record http_request =
  rq_method :: http_method
  rq_target :: string
  rq_body :: json

datatype http_answer = Http_failed | Http_reply nat "json option"

type_synonym http_log = "http_request list"

type_synonym http_server = "http_log \<Rightarrow> http_answer"

text \<open>\<open>httpGet\<close>, \<open>httpPost\<close> and \<open>httpPut\<close>: the body of the answer, or nothing when they throw.
  The log has the last request first.\<close>

definition http_send :: "http_server \<Rightarrow> http_method \<Rightarrow> string \<Rightarrow> json \<Rightarrow> http_log \<Rightarrow> json option option \<times> http_log" where
  "http_send srv m target body lg =
     (let lg' = \<lparr>rq_method = m, rq_target = target, rq_body = body\<rparr> # lg
      in (case srv lg' of Http_failed \<Rightarrow> None | Http_reply _ b \<Rightarrow> Some b, lg'))"

section \<open>The scene\<close>

definition scene_body :: "SionnaExtension \<Rightarrow> json" where
  "scene_body x =
     jobj [(''scene_config'', JStr (sn_sceneConfig x)),
           (''scene_origin'', json_triple ''lat'' ''lon'' ''alt'' (sn_ref x)),
           (''scene_offset'', json_triple ''x'' ''y'' ''z'' (sn_offset x)),
           (''scale'', JFloat (sn_scale x))]"

definition alignment_of :: "json \<Rightarrow> json" where
  "alignment_of info =
     fold (\<lambda>k a. if contains info k then jset k (jmember info k) a else a)
       [''scene_config'', ''scene_path'', ''offset'', ''scale'', ''units''] JNull"

definition fetchSceneAlignment :: "http_server \<Rightarrow> SionnaExtension \<times> http_log \<Rightarrow> SionnaExtension \<times> http_log" where
  "fetchSceneAlignment srv = (\<lambda>(x, lg).
     if sn_sceneId x = [] then (x, lg)
     else case http_send srv Http_get (''/scenes/'' @ sn_sceneId x) JNull lg of
            (Some (Some info), lg') \<Rightarrow> (x\<lparr>sn_sceneAlignment := alignment_of info\<rparr>, lg')
          | (_, lg') \<Rightarrow> (x, lg'))"

definition scene_id_of :: "json \<Rightarrow> string option" where
  "scene_id_of resp = (case om_find (jmembers resp) ''scene_id'' of Some (JStr s) \<Rightarrow> Some s | _ \<Rightarrow> None)"

definition createScene :: "http_server \<Rightarrow> SionnaExtension \<times> http_log \<Rightarrow> bool \<times> SionnaExtension \<times> http_log" where
  "createScene srv = (\<lambda>(x, lg).
     case http_send srv Http_post ''/scenes'' (scene_body x) lg of
       (Some (Some resp), lg') \<Rightarrow>
         (case scene_id_of resp of
            Some s \<Rightarrow> (True, fetchSceneAlignment srv (x\<lparr>sn_sceneId := s\<rparr>, lg'))
          | None \<Rightarrow> (False, x, lg'))
     | (_, lg') \<Rightarrow> (False, x, lg'))"

section \<open>Positions\<close>

definition same_position :: "Location \<Rightarrow> Location \<Rightarrow> bool" where
  "same_position c l \<longleftrightarrow> fp_eq (loc_lat c) (loc_lat l) \<and> fp_eq (loc_lon c) (loc_lon l) \<and> fp_eq (loc_alt c) (loc_alt l)"

text \<open>Altitudes are above ground; the server wants them above the ellipsoid.\<close>

definition pos_obj :: "SionnaExtension \<Rightarrow> Location \<Rightarrow> json" where
  "pos_obj x l =
     jobj [(''lat'', json_of_fp (loc_lat l)), (''lon'', json_of_fp (loc_lon l)),
           (''alt'', json_of_fp (fp_add (loc_alt l) (Fin (snd (snd (sn_ref x))))))]"

definition zero_velocity :: json where
  "zero_velocity = json_triple ''x'' ''y'' ''z'' (0, 0, 0)"

definition node_label :: "string \<times> Node \<Rightarrow> string" where
  "node_label = (\<lambda>(i, n). if nc_name (nd_config n) = [] then i else nc_name (nd_config n))"

definition txBase :: "SionnaExtension \<Rightarrow> string" where
  "txBase x = ''/scenes/'' @ sn_sceneId x @ ''/transmitters''"

definition rxBase :: "SionnaExtension \<Rightarrow> string" where
  "rxBase x = ''/scenes/'' @ sn_sceneId x @ ''/receivers''"

definition sync_tx :: "http_server \<Rightarrow> string \<Rightarrow> string \<Rightarrow> Location \<Rightarrow> SionnaExtension \<times> http_log \<Rightarrow> SionnaExtension \<times> http_log" where
  "sync_tx srv nodeId txName l = (\<lambda>(x, lg).
     case om_find (sn_txMap x) nodeId of
       None \<Rightarrow>
         (case http_send srv Http_post (txBase x)
                 (jobj [(''name'', JStr txName), (''position'', pos_obj x l), (''signal_power'', JFloat 0),
                        (''velocity'', zero_velocity)]) lg of
            (Some _, lg') \<Rightarrow> (x\<lparr>sn_txMap := om_set nodeId txName (sn_txMap x), sn_txOrder := sn_txOrder x @ [txName]\<rparr>, lg')
          | (None, lg') \<Rightarrow> (x, lg'))
     | Some name \<Rightarrow> (x, snd (http_send srv Http_put (txBase x @ ''/'' @ name) (jobj [(''position'', pos_obj x l)]) lg)))"

definition sync_rx :: "http_server \<Rightarrow> string \<Rightarrow> string \<Rightarrow> Location \<Rightarrow> SionnaExtension \<times> http_log \<Rightarrow> SionnaExtension \<times> http_log" where
  "sync_rx srv nodeId rxName l = (\<lambda>(x, lg).
     case om_find (sn_rxMap x) nodeId of
       None \<Rightarrow>
         (case http_send srv Http_post (rxBase x)
                 (jobj [(''name'', JStr rxName), (''position'', pos_obj x l), (''velocity'', zero_velocity)]) lg of
            (Some _, lg') \<Rightarrow> (x\<lparr>sn_rxMap := om_set nodeId rxName (sn_rxMap x), sn_rxOrder := sn_rxOrder x @ [rxName]\<rparr>, lg')
          | (None, lg') \<Rightarrow> (x, lg'))
     | Some name \<Rightarrow> (x, snd (http_send srv Http_put (rxBase x @ ''/'' @ name) (jobj [(''position'', pos_obj x l)]) lg)))"

definition unmoved :: "SionnaExtension \<Rightarrow> string \<Rightarrow> Location \<Rightarrow> bool" where
  "unmoved x nodeId l = (case om_find (sn_lastPositions x) nodeId of Some c \<Rightarrow> same_position c l | None \<Rightarrow> False)"

definition sync_node :: "http_server \<Rightarrow> string \<times> Node \<Rightarrow> SionnaExtension \<times> http_log \<Rightarrow> SionnaExtension \<times> http_log" where
  "sync_node srv e s =
     (case getLocation (snd e) of
        None \<Rightarrow> s
      | Some nl \<Rightarrow>
          let l = nloc_position nl in
          if unmoved (fst s) (fst e) l then s
          else
            let name = node_label e;
                (x, lg) = sync_rx srv (fst e) (name @ ''-rx'') l (sync_tx srv (fst e) (name @ ''-tx'') l s)
            in (x\<lparr>sn_lastPositions := om_set (fst e) l (sn_lastPositions x)\<rparr>, lg))"

definition syncPositions :: "http_server \<Rightarrow> (string, Node) omap \<Rightarrow> SionnaExtension \<times> http_log \<Rightarrow> SionnaExtension \<times> http_log" where
  "syncPositions srv nodes s = (if sn_sceneId (fst s) = [] then s else fold (sync_node srv) nodes s)"

section \<open>Reading an impulse response\<close>

text \<open>\<open>operator[]\<close> on a constant value: undefined for a key or an index that is not there, an
  exception for a value of another type.\<close>

definition const_key :: "json \<Rightarrow> string \<Rightarrow> ct_error + json" where
  "const_key j k =
     (case j of
        JObj m \<Rightarrow> (case om_find m k of Some v \<Rightarrow> Inr v | None \<Rightarrow> Inl Crash)
      | _ \<Rightarrow> Inl (Thrown (Type_error ''cannot use operator[] with a string argument'')))"

definition const_nth :: "json \<Rightarrow> nat \<Rightarrow> ct_error + json" where
  "const_nth j i =
     (case j of
        JArr xs \<Rightarrow> if i < length xs then Inr (xs ! i) else Inl Crash
      | _ \<Rightarrow> Inl (Thrown (Type_error ''cannot use operator[] with a numeric argument'')))"

definition jbind :: "'e + 'a \<Rightarrow> ('a \<Rightarrow> 'e + 'b) \<Rightarrow> 'e + 'b" where
  "jbind r f = (case r of Inl e \<Rightarrow> Inl e | Inr x \<Rightarrow> f x)"

definition thrown :: "'a result \<Rightarrow> ct_error + 'a" where
  "thrown r = (case r of Inl e \<Rightarrow> Inl (Thrown e) | Inr x \<Rightarrow> Inr x)"

fun const_path :: "nat list \<Rightarrow> json \<Rightarrow> ct_error + json" where
  "const_path [] j = Inr j"
| "const_path (i # ks) j = jbind (const_nth j i) (const_path ks)"

definition double_at :: "json \<Rightarrow> nat list \<Rightarrow> ct_error + real" where
  "double_at j ks = jbind (const_path ks j) (\<lambda>v. thrown (get_double v))"

text \<open>The delay and the gain of path \<open>p\<close>; a gain is a number or a list of numbers per time step.\<close>

definition path_at :: "json \<Rightarrow> json \<Rightarrow> json \<Rightarrow> nat \<Rightarrow> ct_error + (real \<times> real \<times> real)" where
  "path_at ds re im p =
     jbind (double_at ds [p]) (\<lambda>d.
     jbind (const_nth re p) (\<lambda>g.
       let ks = (if is_array g then [p, 0] else [p])
       in jbind (double_at re ks) (\<lambda>a. jbind (double_at im ks) (\<lambda>b. Inr (d, a, b)))))"

fun paths_from :: "json \<Rightarrow> json \<Rightarrow> json \<Rightarrow> nat list \<Rightarrow> ct_error + (real \<times> real \<times> real) list" where
  "paths_from ds re im [] = Inr []"
| "paths_from ds re im (p # ps) =
     jbind (path_at ds re im p) (\<lambda>x. jbind (paths_from ds re im ps) (\<lambda>xs. Inr (x # xs)))"

definition pair_paths :: "json \<Rightarrow> json \<Rightarrow> json \<Rightarrow> int \<Rightarrow> nat \<Rightarrow> nat \<Rightarrow> ct_error + (real \<times> real \<times> real) list" where
  "pair_paths delays gre gim numPaths rxIdx txIdx =
     jbind (const_path [rxIdx, txIdx] delays) (\<lambda>ds.
     jbind (const_path [rxIdx, 0, txIdx, 0] gre) (\<lambda>re.
     jbind (const_path [rxIdx, 0, txIdx, 0] gim) (\<lambda>im.
       paths_from ds re im [0..<nat numPaths])))"

section \<open>Installing the responses\<close>

text \<open>The reverse of a registration map: of two nodes with one name the later one stays.\<close>

definition name_to_id :: "(string, string) omap \<Rightarrow> (string, string) omap" where
  "name_to_id m = fold (\<lambda>(i, name). om_set name i) m []"

definition install_link :: "string \<Rightarrow> string \<Rightarrow> complex list \<Rightarrow> Intermediate \<Rightarrow> Intermediate" where
  "install_link src dest taps im =
     (if taps = [] then im
      else let (updated, im1) = updateCIR src dest (0, 0) taps im
           in if updated then snd (on_channel (setActiveExtension ''sionna'' True) src dest im1) else im1)"

definition apply_paths ::
  "RuntimeConfig \<Rightarrow> (string, Node) omap \<Rightarrow> string \<Rightarrow> string \<Rightarrow> (real \<times> real \<times> real) list \<Rightarrow>
   (real, Intermediate) omap \<Rightarrow> (real, Intermediate) omap" where
  "apply_paths rt nodes src dest ps ims =
     (if ps = [] then ims
      else om_map_values (install_link src dest
             (cirToTaps rt (map fst ps) (map (fst \<circ> snd) ps) (map (snd \<circ> snd) ps) (destSampleRate nodes dest 1000000))) ims)"

text \<open>The loop over the pairs of a receiver and a transmitter, by their registration order; a pair
  that cannot be read is skipped.\<close>

record cir_response =
  cr_delays :: json
  cr_re :: json
  cr_im :: json
  cr_numRx :: int
  cr_numTx :: int
  cr_numPaths :: int

definition apply_pair ::
  "RuntimeConfig \<Rightarrow> (string, Node) omap \<Rightarrow> SionnaExtension \<Rightarrow> cir_response \<Rightarrow> nat \<times> nat \<Rightarrow>
   (real, Intermediate) omap \<Rightarrow> ct_error + (real, Intermediate) omap" where
  "apply_pair rt nodes x r = (\<lambda>(rxIdx, txIdx) ims.
     case (om_find (name_to_id (sn_txMap x)) (sn_txOrder x ! txIdx), om_find (name_to_id (sn_rxMap x)) (sn_rxOrder x ! rxIdx)) of
       (Some src, Some dest) \<Rightarrow>
         if src = dest then Inr ims
         else (case pair_paths (cr_delays r) (cr_re r) (cr_im r) (cr_numPaths r) rxIdx txIdx of
                 Inr ps \<Rightarrow> Inr (apply_paths rt nodes src dest ps ims)
               | Inl (Thrown _) \<Rightarrow> Inr ims
               | Inl Crash \<Rightarrow> Inl Crash)
     | _ \<Rightarrow> Inr ims)"

definition cir_pairs :: "SionnaExtension \<Rightarrow> cir_response \<Rightarrow> (nat \<times> nat) list" where
  "cir_pairs x r =
     concat (map (\<lambda>i. map (Pair i) [0..<min (nat (cr_numTx r)) (length (sn_txOrder x))])
       [0..<min (nat (cr_numRx r)) (length (sn_rxOrder x))])"

fun try_fold :: "('a \<Rightarrow> 's \<Rightarrow> 'e + 's) \<Rightarrow> 'a list \<Rightarrow> 's \<Rightarrow> 'e + 's" where
  "try_fold f [] s = Inr s"
| "try_fold f (a # as) s = jbind (f a s) (try_fold f as)"

text \<open>The members of the response: nothing when one of the three is missing, an exception or
  undefined behaviour when the shape is not an object of numbers.\<close>

definition cir_response_of :: "json \<Rightarrow> ct_error + cir_response option" where
  "cir_response_of j =
     (if \<not> contains j ''delays'' \<or> \<not> contains j ''gains'' \<or> \<not> contains j ''shape'' then Inr None
      else
        let shape = jmember j ''shape''; gains = jmember j ''gains'' in
        jbind (jbind (const_key shape ''num_rx'') (\<lambda>v. thrown (get_int v))) (\<lambda>numRx.
        jbind (jbind (const_key shape ''num_tx'') (\<lambda>v. thrown (get_int v))) (\<lambda>numTx.
        jbind (jbind (const_key shape ''num_paths'') (\<lambda>v. thrown (get_int v))) (\<lambda>numPaths.
          if numPaths = 0 then Inr None
          else case jindex ''real'' gains of
                 None \<Rightarrow> Inl (Thrown (Type_error ''cannot use operator[] with a string argument''))
               | Some (re, _) \<Rightarrow>
                   Inr (Some \<lparr>cr_delays = jmember j ''delays'', cr_re = re, cr_im = jmember gains ''imag'',
                              cr_numRx = numRx, cr_numTx = numTx, cr_numPaths = numPaths\<rparr>)))))"

definition installCIR ::
  "RuntimeConfig \<Rightarrow> (string, Node) omap \<Rightarrow> SionnaExtension \<Rightarrow> cir_response \<Rightarrow> (real, Intermediate) omap \<Rightarrow>
   ct_error + (real, Intermediate) omap" where
  "installCIR rt nodes x r = try_fold (apply_pair rt nodes x r) (cir_pairs x r)"

definition hasLinks :: "(real, Intermediate) omap \<Rightarrow> bool" where
  "hasLinks ims = list_ex (\<lambda>(_, im). im_channelMap im \<noteq> []) ims"

definition count_response :: "real \<Rightarrow> SionnaExtension \<Rightarrow> SionnaExtension" where
  "count_response elapsedMs x =
     x\<lparr>sn_avgCirResponseMs := (if sn_cirResponseCount x = 0 then elapsedMs
                               else 8 / 10 * sn_avgCirResponseMs x + 2 / 10 * elapsedMs),
       sn_cirResponseCount := sn_cirResponseCount x + 1\<rparr>"

record sn_state =
  ss_ext :: SionnaExtension
  ss_log :: http_log
  ss_ims :: "(real, Intermediate) omap"

definition computeAndApplyCIR ::
  "http_server \<Rightarrow> RuntimeConfig \<Rightarrow> (string, Node) omap \<Rightarrow> real \<Rightarrow> sn_state \<Rightarrow> (ct_error option) \<times> sn_state" where
  "computeAndApplyCIR srv rt nodes elapsedMs s =
     (let x = ss_ext s; base = ''/scenes/'' @ sn_sceneId x @ ''/simulation/''
      in if sn_sceneId x = [] \<or> sn_txMap x = [] \<or> sn_rxMap x = [] \<or> \<not> hasLinks (ss_ims s) then (None, s)
         else
           case http_send srv Http_post (base @ ''paths'')
                  (jobj [(''max_depth'', JInt (sn_maxDepth x)), (''num_samples'', JInt (sn_numSamples x))]) (ss_log s) of
             (None, lg) \<Rightarrow> (None, s\<lparr>ss_log := lg\<rparr>)
           | (Some _, lg) \<Rightarrow>
               (case http_send srv Http_get (base @ ''cir'') JNull lg of
                  (None, lg') \<Rightarrow> (None, s\<lparr>ss_log := lg'\<rparr>)
                | (Some body, lg') \<Rightarrow>
                    let s1 = s\<lparr>ss_log := lg', ss_ext := count_response elapsedMs x\<rparr>
                    in case body of
                         None \<Rightarrow> (None, s1)
                       | Some j \<Rightarrow>
                           (case cir_response_of j of
                              Inl e \<Rightarrow> (Some e, s1)
                            | Inr None \<Rightarrow> (None, s1)
                            | Inr (Some r) \<Rightarrow>
                                (case installCIR rt nodes x r (ss_ims s) of
                                   Inl e \<Rightarrow> (Some e, s1)
                                 | Inr ims \<Rightarrow> (None, s1\<lparr>ss_ims := ims\<rparr>)))))"

section \<open>The poll loop\<close>

text \<open>One round; an exception is caught and the last responses stay. Undefined behaviour ends the
  program.\<close>

definition poll_round ::
  "http_server \<Rightarrow> RuntimeConfig \<Rightarrow> (string, Node) omap \<Rightarrow> real \<Rightarrow> sn_state \<Rightarrow> sn_state option" where
  "poll_round srv rt nodes elapsedMs s =
     (let (x, lg) = syncPositions srv nodes (ss_ext s, ss_log s)
      in case computeAndApplyCIR srv rt nodes elapsedMs (s\<lparr>ss_ext := x, ss_log := lg\<rparr>) of
           (Some Crash, _) \<Rightarrow> None
         | (_, s') \<Rightarrow> Some s')"

text \<open>The thread first creates the scene, again and again until the server accepts it, then polls.\<close>

datatype poll_phase = Creating | Polling

definition poll_step ::
  "http_server \<Rightarrow> RuntimeConfig \<Rightarrow> (string, Node) omap \<Rightarrow> real \<Rightarrow> poll_phase \<times> sn_state \<Rightarrow> (poll_phase \<times> sn_state) option" where
  "poll_step srv rt nodes elapsedMs = (\<lambda>(ph, s).
     case ph of
       Creating \<Rightarrow>
         if sn_sceneId (ss_ext s) \<noteq> [] then Some (Polling, s)
         else (case createScene srv (ss_ext s, ss_log s) of
                 (ok, x, lg) \<Rightarrow> Some (if ok then Polling else Creating, s\<lparr>ss_ext := x, ss_log := lg\<rparr>))
     | Polling \<Rightarrow> map_option (Pair Polling) (poll_round srv rt nodes elapsedMs s))"

text \<open>The \<open>config\<close> action, which another thread executes, tells the server about a new origin.\<close>

definition config_action :: "http_server \<Rightarrow> json \<Rightarrow> sn_state \<Rightarrow> sn_state" where
  "config_action srv j s =
     (let x = Sionna_settings j (ss_ext s)
      in s\<lparr>ss_ext := x,
           ss_log := (if typed_member is_object j ''referenceOrigin'' \<noteq> None \<and> sn_sceneId x \<noteq> []
                      then snd (http_send srv Http_put (''/scenes/'' @ sn_sceneId x @ ''/update_origin'')
                             (json_triple ''lat'' ''lon'' ''alt'' (sn_ref x)) (ss_log s))
                      else ss_log s)\<rparr>)"

text \<open>The states of one session: the thread and the command take turns in any order, and the nodes,
  the links and the run-time configuration are whatever the other threads make of them. Stopping the extension ends the
  session: it clears \<open>m_running\<close>, which the loops of the thread test between these steps, and waits for the thread.\<close>

inductive sn_reach :: "http_server \<Rightarrow> poll_phase \<Rightarrow> sn_state \<Rightarrow> bool" for srv where
  start: "sn_txMap x = [] \<Longrightarrow> sn_rxMap x = [] \<Longrightarrow> sn_txOrder x = [] \<Longrightarrow> sn_rxOrder x = [] \<Longrightarrow>
    sn_lastPositions x = [] \<Longrightarrow> sn_sceneId x = [] \<Longrightarrow>
    sn_reach srv Creating \<lparr>ss_ext = x, ss_log = [], ss_ims = ims\<rparr>"
| step: "sn_reach srv ph s \<Longrightarrow> poll_step srv rt nodes elapsedMs (ph, s) = Some (ph', s') \<Longrightarrow> sn_reach srv ph' s'"
| config: "sn_reach srv ph s \<Longrightarrow> sn_reach srv ph (config_action srv j s)"
| links: "sn_reach srv ph s \<Longrightarrow> sn_reach srv ph (s\<lparr>ss_ims := ims\<rparr>)"

section \<open>Registration order\<close>

text \<open>The names of the registrations the server answered, in the order they were sent.\<close>

definition posted_name :: "http_request \<Rightarrow> string" where
  "posted_name r = (case jmember (rq_body r) ''name'' of JStr s \<Rightarrow> s | _ \<Rightarrow> [])"

fun answered :: "http_server \<Rightarrow> string \<Rightarrow> http_log \<Rightarrow> string list" where
  "answered srv base [] = []"
| "answered srv base (r # lg) =
     answered srv base lg @
     (if rq_method r = Http_post \<and> rq_target r = base \<and> srv (r # lg) \<noteq> Http_failed then [posted_name r] else [])"

lemma http_send_log: "http_send srv m tgt b lg = (a, lg') \<Longrightarrow> lg' = \<lparr>rq_method = m, rq_target = tgt, rq_body = b\<rparr> # lg"
  by (simp add: http_send_def Let_def)

lemma answered_send:
  assumes "http_send srv m tgt b lg = (a, lg')"
  shows "answered srv base lg' = answered srv base lg @
    (if m = Http_post \<and> tgt = base \<and> a \<noteq> None then [case jmember b ''name'' of JStr s \<Rightarrow> s | _ \<Rightarrow> []] else [])"
  using assms by (auto simp: http_send_def Let_def posted_name_def split: http_answer.splits)

lemma bases_differ [simp]:
  "txBase x \<noteq> rxBase y" "rxBase y \<noteq> txBase x" if "sn_sceneId x = sn_sceneId y"
  using that by (simp_all add: txBase_def rxBase_def)

lemma posted_tx_name [simp]:
  "jmember (jobj [(''name'', JStr n), (''position'', p), (''signal_power'', q), (''velocity'', v)]) ''name'' = JStr n"
  "jmember (jobj [(''name'', JStr n), (''position'', p), (''velocity'', v)]) ''name'' = JStr n"
  by (simp_all add: jmember_def jobj_def om_find_def)

lemma mset_om_set_new: "om_find m k = None \<Longrightarrow> image_mset snd (mset (om_set k v m)) = add_mset v (image_mset snd (mset m))"
  by (induction k v m rule: om_set.induct) (auto simp: om_find_def split: if_splits)

definition in_order :: "http_server \<Rightarrow> SionnaExtension \<times> http_log \<Rightarrow> bool" where
  "in_order srv = (\<lambda>(x, lg).
     om_wf (sn_txMap x) \<and> om_wf (sn_rxMap x) \<and> sn_txOrder x = answered srv (txBase x) lg \<and> sn_rxOrder x = answered srv (rxBase x) lg \<and>
     mset (sn_txOrder x) = mset (map snd (sn_txMap x)) \<and> mset (sn_rxOrder x) = mset (map snd (sn_rxMap x)))"

text \<open>What a request that registers nobody keeps.\<close>

lemma in_order_send:
  assumes "in_order srv (x, lg)" and "http_send srv m tgt b lg = (a, lg')"
    and "m = Http_post \<Longrightarrow> tgt \<noteq> txBase x \<and> tgt \<noteq> rxBase x"
  shows "in_order srv (x, lg')"
  using assms by (auto simp: in_order_def answered_send)

lemma in_order_cong:
  assumes "in_order srv (x, lg)" and "sn_sceneId y = sn_sceneId x" and "sn_txOrder y = sn_txOrder x" and "sn_rxOrder y = sn_rxOrder x"
    and "sn_txMap y = sn_txMap x" and "sn_rxMap y = sn_rxMap x"
  shows "in_order srv (y, lg)"
proof -
  have "txBase y = txBase x" "rxBase y = rxBase x" using assms(2) by (simp_all add: txBase_def rxBase_def)
  then show ?thesis using assms by (auto simp: in_order_def)
qed

lemma sync_tx_order:
  assumes "in_order srv s"
  shows "in_order srv (sync_tx srv i name l s) \<and> sn_sceneId (fst (sync_tx srv i name l s)) = sn_sceneId (fst s)"
proof (cases s)
  case (Pair x lg)
  note I = assms [unfolded Pair]
  show ?thesis
  proof (cases "om_find (sn_txMap x) i")
    case None
    obtain a lg' where h: "http_send srv Http_post (txBase x) (jobj [(''name'', JStr name), (''position'', pos_obj x l),
        (''signal_power'', JFloat 0), (''velocity'', zero_velocity)]) lg = (a, lg')" by fastforce
    then show ?thesis using I None
      by (auto simp: Pair sync_tx_def in_order_def answered_send [OF h] mset_om_set_new om_wf_set txBase_def rxBase_def split: option.split)
  next
    case (Some n)
    obtain a lg' where h: "http_send srv Http_put (txBase x @ ''/'' @ n) (jobj [(''position'', pos_obj x l)]) lg = (a, lg')" by fastforce
    then show ?thesis using in_order_send [OF I h] Some by (simp add: Pair sync_tx_def)
  qed
qed

lemma sync_rx_order:
  assumes "in_order srv s"
  shows "in_order srv (sync_rx srv i name l s) \<and> sn_sceneId (fst (sync_rx srv i name l s)) = sn_sceneId (fst s)"
proof (cases s)
  case (Pair x lg)
  note I = assms [unfolded Pair]
  show ?thesis
  proof (cases "om_find (sn_rxMap x) i")
    case None
    obtain a lg' where h: "http_send srv Http_post (rxBase x) (jobj [(''name'', JStr name), (''position'', pos_obj x l),
        (''velocity'', zero_velocity)]) lg = (a, lg')" by fastforce
    then show ?thesis using I None
      by (auto simp: Pair sync_rx_def in_order_def answered_send [OF h] mset_om_set_new om_wf_set txBase_def rxBase_def split: option.split)
  next
    case (Some n)
    obtain a lg' where h: "http_send srv Http_put (rxBase x @ ''/'' @ n) (jobj [(''position'', pos_obj x l)]) lg = (a, lg')" by fastforce
    then show ?thesis using in_order_send [OF I h] Some by (simp add: Pair sync_rx_def)
  qed
qed

lemma sync_node_order:
  assumes "in_order srv s"
  shows "in_order srv (sync_node srv e s) \<and> sn_sceneId (fst (sync_node srv e s)) = sn_sceneId (fst s)"
proof (cases "getLocation (snd e)")
  case (Some nl)
  let ?n = "node_label e" let ?l = "nloc_position nl"
  obtain x lg where r: "sync_rx srv (fst e) (?n @ ''-rx'') ?l (sync_tx srv (fst e) (?n @ ''-tx'') ?l s) = (x, lg)" by fastforce
  have "in_order srv (x, lg)" "sn_sceneId x = sn_sceneId (fst s)"
    using sync_tx_order [OF assms, of "fst e" "?n @ ''-tx''" ?l] sync_rx_order [of srv _ "fst e" "?n @ ''-rx''" ?l] r
    by (metis fst_conv)+
  then show ?thesis using assms Some r by (auto simp: sync_node_def Let_def intro: in_order_cong)
qed (simp add: sync_node_def assms)

lemma syncPositions_order:
  assumes "in_order srv s"
  shows "in_order srv (syncPositions srv nodes s) \<and> sn_sceneId (fst (syncPositions srv nodes s)) = sn_sceneId (fst s)"
proof -
  have "in_order srv s \<Longrightarrow> in_order srv (fold (sync_node srv) es s) \<and> sn_sceneId (fst (fold (sync_node srv) es s)) = sn_sceneId (fst s)" for es
    by (induction es arbitrary: s) (simp_all add: sync_node_order)
  then show ?thesis using assms by (simp add: syncPositions_def)
qed

lemma computeAndApplyCIR_order:
  assumes "in_order srv (ss_ext s, ss_log s)" and "computeAndApplyCIR srv rt nodes elapsedMs s = (e, s')"
  shows "in_order srv (ss_ext s', ss_log s') \<and> sn_sceneId (ss_ext s') = sn_sceneId (ss_ext s)"
proof -
  let ?x = "ss_ext s" let ?base = "''/scenes/'' @ sn_sceneId ?x @ ''/simulation/''"
  obtain a lg where p: "http_send srv Http_post (?base @ ''paths'')
      (jobj [(''max_depth'', JInt (sn_maxDepth ?x)), (''num_samples'', JInt (sn_numSamples ?x))]) (ss_log s) = (a, lg)" by fastforce
  obtain b lg' where g: "http_send srv Http_get (?base @ ''cir'') JNull lg = (b, lg')" by fastforce
  have "?base @ ''paths'' \<noteq> txBase ?x" "?base @ ''paths'' \<noteq> rxBase ?x" by (simp_all add: txBase_def rxBase_def)
  then have 1: "in_order srv (?x, lg)" using in_order_send [OF assms(1) p] by blast
  then have 2: "in_order srv (?x, lg')" using in_order_send [OF 1 g] by blast
  then have 3: "in_order srv (count_response elapsedMs ?x, lg')"
    by (rule in_order_cong) (simp_all add: count_response_def)
  have "(ss_ext s', ss_log s') \<in> {(?x, ss_log s), (?x, lg), (?x, lg'), (count_response elapsedMs ?x, lg')}"
    using assms(2) unfolding computeAndApplyCIR_def Let_def p prod.case g
    by (auto split: if_splits option.splits sum.splits)
  then show ?thesis using assms(1) 1 2 3 by (auto simp: count_response_def)
qed

text \<open>Before there is a scene nothing is registered and nothing but scenes was posted.\<close>

definition sn_inv :: "http_server \<Rightarrow> SionnaExtension \<times> http_log \<Rightarrow> bool" where
  "sn_inv srv = (\<lambda>(x, lg).
     if sn_sceneId x = []
     then sn_txMap x = [] \<and> sn_rxMap x = [] \<and> sn_txOrder x = [] \<and> sn_rxOrder x = [] \<and>
          (\<forall>r \<in> set lg. rq_method r = Http_post \<longrightarrow> rq_target r = ''/scenes'')
     else in_order srv (x, lg))"

lemma answered_none: "\<forall>r \<in> set lg. rq_method r = Http_post \<longrightarrow> rq_target r \<noteq> base \<Longrightarrow> answered srv base lg = []"
  by (induction lg) auto

lemma createScene_inv:
  assumes "sn_inv srv (x, lg)" and "sn_sceneId x = []" and "createScene srv (x, lg) = (ok, x', lg')"
  shows "sn_inv srv (x', lg')"
proof -
  let ?posts = "\<lambda>lg. \<forall>r \<in> set lg. rq_method r = Http_post \<longrightarrow> rq_target r = ''/scenes''"
  have e: "sn_txMap x = [] \<and> sn_rxMap x = [] \<and> sn_txOrder x = [] \<and> sn_rxOrder x = []" and p: "?posts lg"
    using assms(1,2) by (auto simp: sn_inv_def)
  have "?posts lg' \<and> sn_txMap x' = [] \<and> sn_rxMap x' = [] \<and> sn_txOrder x' = [] \<and> sn_rxOrder x' = []"
    using assms(3) e p unfolding createScene_def fetchSceneAlignment_def http_send_def Let_def
    by (auto split: option.splits prod.splits if_splits http_answer.splits)
  then show ?thesis by (auto simp: sn_inv_def in_order_def txBase_def rxBase_def intro!: answered_none [symmetric])
qed

lemma poll_step_inv:
  assumes "sn_inv srv (ss_ext s, ss_log s)" and "poll_step srv rt nodes elapsedMs (ph, s) = Some (ph', s')"
  shows "sn_inv srv (ss_ext s', ss_log s')"
proof (cases "sn_sceneId (ss_ext s) = []")
  case True
  then have "poll_round srv rt nodes elapsedMs s = Some s"
    by (simp add: poll_round_def syncPositions_def computeAndApplyCIR_def Let_def)
  then show ?thesis using assms True createScene_inv
    by (cases ph) (auto simp: poll_step_def split: prod.splits)
next
  case False
  then have i: "in_order srv (ss_ext s, ss_log s)" using assms(1) by (simp add: sn_inv_def)
  obtain x lg where sp: "syncPositions srv nodes (ss_ext s, ss_log s) = (x, lg)" by fastforce
  obtain e s2 where c: "computeAndApplyCIR srv rt nodes elapsedMs (s\<lparr>ss_ext := x, ss_log := lg\<rparr>) = (e, s2)" by fastforce
  have 1: "in_order srv (x, lg)" "sn_sceneId x = sn_sceneId (ss_ext s)" using syncPositions_order [OF i, of nodes] sp by simp_all
  then have "in_order srv (ss_ext s2, ss_log s2) \<and> sn_sceneId (ss_ext s2) = sn_sceneId (ss_ext s)"
    using computeAndApplyCIR_order [OF _ c] by simp
  moreover have "s' = s \<or> s' = s2" using assms(2) False sp c
    by (cases ph) (auto simp: poll_step_def poll_round_def split: option.splits ct_error.splits)
  ultimately show ?thesis using assms(1) False by (auto simp: sn_inv_def)
qed

lemma sn_reach_inv: "sn_reach srv ph s \<Longrightarrow> sn_inv srv (ss_ext s, ss_log s)"
proof (induction rule: sn_reach.induct)
  case (config ph s j)
  let ?x = "Sionna_settings j (ss_ext s)"
  have f: "sn_sceneId ?x = sn_sceneId (ss_ext s)" "sn_txOrder ?x = sn_txOrder (ss_ext s)" "sn_rxOrder ?x = sn_rxOrder (ss_ext s)"
    "sn_txMap ?x = sn_txMap (ss_ext s)" "sn_rxMap ?x = sn_rxMap (ss_ext s)" by (simp_all add: Sionna_settings_def)
  show ?case
  proof (cases "sn_sceneId (ss_ext s) = []")
    case True
    then show ?thesis using config.IH f by (simp add: sn_inv_def config_action_def Let_def)
  next
    case False
    then have i: "in_order srv (?x, ss_log s)" using config.IH f in_order_cong by (simp add: sn_inv_def)
    then have "in_order srv (?x, snd (http_send srv Http_put tgt b (ss_log s)))" for tgt b
      using in_order_send by (metis http_method.distinct(5) prod.collapse)
    then show ?thesis using False f i by (auto simp: sn_inv_def config_action_def Let_def)
  qed
next
  case (step ph s rt nodes elapsedMs ph' s')
  then show ?case using poll_step_inv by blast
qed (simp_all add: sn_inv_def)

text \<open>C15. As long as the scene lives, the rows and columns of an impulse response can be told apart: the local
  order of transmitters and of receivers is exactly the order in which the server answered their
  registrations, whatever it answered, and every registered node stands in it once.\<close>

theorem sionna_order_is_registration_order:
  assumes "sn_reach srv ph s" and "sn_sceneId (ss_ext s) \<noteq> []"
  shows "sn_txOrder (ss_ext s) = answered srv (txBase (ss_ext s)) (ss_log s) \<and>
    sn_rxOrder (ss_ext s) = answered srv (rxBase (ss_ext s)) (ss_log s) \<and>
    mset (sn_txOrder (ss_ext s)) = mset (map snd (sn_txMap (ss_ext s))) \<and>
    mset (sn_rxOrder (ss_ext s)) = mset (map snd (sn_rxMap (ss_ext s)))"
proof -
  have "in_order srv (ss_ext s, ss_log s)" using sn_reach_inv [OF assms(1)] assms(2) by (simp add: sn_inv_def)
  then show ?thesis unfolding in_order_def case_prod_conv by blast
qed

section \<open>Repeated rounds\<close>

definition settled :: "SionnaExtension \<Rightarrow> string \<times> Node \<Rightarrow> bool" where
  "settled x e \<longleftrightarrow> (case getLocation (snd e) of None \<Rightarrow> True | Some nl \<Rightarrow> unmoved x (fst e) (nloc_position nl))"

lemma sync_node_settled: "settled (fst s) e \<Longrightarrow> sync_node srv e s = s"
  by (auto simp: settled_def sync_node_def Let_def split: option.splits)

lemma sync_positions_frame:
  "sn_lastPositions (fst (sync_tx srv i n l s)) = sn_lastPositions (fst s)"
  "sn_lastPositions (fst (sync_rx srv i n l s)) = sn_lastPositions (fst s)"
  by (cases s, simp add: sync_tx_def sync_rx_def split: option.split prod.split)+

lemma sync_node_lastPositions:
  "sn_lastPositions (fst (sync_node srv e s)) =
     (case getLocation (snd e) of
        None \<Rightarrow> sn_lastPositions (fst s)
      | Some nl \<Rightarrow> if unmoved (fst s) (fst e) (nloc_position nl) then sn_lastPositions (fst s)
                  else om_set (fst e) (nloc_position nl) (sn_lastPositions (fst s)))"
  by (simp add: sync_node_def Let_def case_prod_beta sync_positions_frame split: option.split)

definition no_nan :: "Location \<Rightarrow> bool" where
  "no_nan l \<longleftrightarrow> loc_lat l \<noteq> NaN \<and> loc_lon l \<noteq> NaN \<and> loc_alt l \<noteq> NaN"

lemma sync_node_settles:
  assumes "\<And>nl. getLocation (snd e) = Some nl \<Longrightarrow> no_nan (nloc_position nl)"
  shows "settled (fst (sync_node srv e s)) e"
  using assms
  by (auto simp: settled_def unmoved_def sync_node_lastPositions om_find_set same_position_def no_nan_def fp_eq_refl_iff
      split: option.split)

lemma sync_node_keeps_settled: "fst e \<noteq> fst e' \<Longrightarrow> settled (fst s) e \<Longrightarrow> settled (fst (sync_node srv e' s)) e"
  by (auto simp: settled_def unmoved_def sync_node_lastPositions om_find_set split: option.splits)

lemma sync_fold_settles:
  assumes "distinct (map fst es)" and "\<forall>e \<in> set es. \<forall>nl. getLocation (snd e) = Some nl \<longrightarrow> no_nan (nloc_position nl)"
  shows "\<forall>e \<in> set es. settled (fst (fold (sync_node srv) es s)) e"
proof -
  have keep: "settled (fst s) e \<Longrightarrow> \<forall>e' \<in> set fs. fst e' \<noteq> fst e \<Longrightarrow> settled (fst (fold (sync_node srv) fs s)) e" for e fs s
  proof (induction fs arbitrary: s)
    case (Cons f fs)
    have "settled (fst (sync_node srv f s)) e" using Cons.prems by (intro sync_node_keeps_settled) auto
    then show ?case using Cons.IH Cons.prems(2) by simp
  qed simp
  show ?thesis using assms
  proof (induction es arbitrary: s)
    case (Cons e es)
    have "settled (fst (fold (sync_node srv) es (sync_node srv e s))) e"
      by (rule keep) (use Cons.prems sync_node_settles in \<open>auto simp: image_iff\<close>)
    then show ?case using Cons.IH [of "sync_node srv e s"] Cons.prems by simp
  qed simp
qed

lemma sync_fold_fixed: "\<forall>e \<in> set es. settled (fst s) e \<Longrightarrow> fold (sync_node srv) es s = s"
  by (induction es) (simp_all add: sync_node_settled)

text \<open>A round in which no node moved sends nothing and changes nothing, so a registration that failed is not
  tried again: however often the positions are synchronised, everything stays as the first round
  left it, until the node moves.\<close>

theorem sync_round_is_final:
  assumes "om_wf nodes" and "\<forall>e \<in> set nodes. \<forall>nl. getLocation (snd e) = Some nl \<longrightarrow> no_nan (nloc_position nl)"
  shows "((syncPositions srv nodes) ^^ Suc k) s = syncPositions srv nodes s"
proof -
  let ?s = "syncPositions srv nodes s"
  have "syncPositions srv nodes ?s = ?s"
  proof (cases "sn_sceneId (fst s) = []")
    case False
    have "\<forall>e \<in> set nodes. settled (fst (fold (sync_node srv) nodes s)) e"
      using sync_fold_settles [OF om_wf_distinct [OF assms(1), unfolded om_keys_def] assms(2)] .
    then show ?thesis using False sync_fold_fixed by (simp add: syncPositions_def)
  qed (simp add: syncPositions_def)
  then have "((syncPositions srv nodes) ^^ k) ?s = ?s" by (induction k) simp_all
  then show ?thesis by (simp only: funpow_Suc_right comp_apply)
qed

section \<open>Routing of the responses\<close>

lemma name_to_id_fold:
  "distinct (map snd m) \<Longrightarrow>
    om_find (fold (\<lambda>(i, name). om_set name i) m acc) name = Some i \<longleftrightarrow>
      (i, name) \<in> set m \<or> name \<notin> snd ` set m \<and> om_find acc name = Some i"
  by (induction m arbitrary: acc) (auto simp: om_find_set image_iff split: if_splits prod.splits)

lemma name_to_id_find:
  assumes "om_wf m" and "distinct (map snd m)"
  shows "om_find (name_to_id m) name = Some i \<longleftrightarrow> om_find m i = Some name"
proof -
  have "om_find (name_to_id m) name = Some i \<longleftrightarrow> (i, name) \<in> set m"
    using name_to_id_fold [OF assms(2), of "[]"] by (simp add: name_to_id_def om_find_Nil)
  also have "\<dots> \<longleftrightarrow> om_find m i = Some name"
    using om_wf_distinct [OF assms(1)] by (simp add: om_find_def om_keys_def)
  finally show ?thesis .
qed

text \<open>What one pair does to one link.\<close>

definition pair_link :: "SionnaExtension \<Rightarrow> nat \<times> nat \<Rightarrow> (string \<times> string) option" where
  "pair_link x = (\<lambda>(i, j).
     case (om_find (name_to_id (sn_txMap x)) (sn_txOrder x ! j), om_find (name_to_id (sn_rxMap x)) (sn_rxOrder x ! i)) of
       (Some s, Some d) \<Rightarrow> if s = d then None else Some (s, d)
     | _ \<Rightarrow> None)"

definition installed ::
  "RuntimeConfig \<Rightarrow> (string, Node) omap \<Rightarrow> string \<Rightarrow> (real \<times> real \<times> real) list \<Rightarrow> Channel \<Rightarrow> Channel" where
  "installed rt nodes dest ps c =
     setActiveExtension ''sionna'' True (updateChTaps (0, 0)
       (cirToTaps rt (map fst ps) (map (fst \<circ> snd) ps) (map (snd \<circ> snd) ps) (destSampleRate nodes dest 1000000)) c)"

definition pair_effect ::
  "RuntimeConfig \<Rightarrow> (string, Node) omap \<Rightarrow> SionnaExtension \<Rightarrow> cir_response \<Rightarrow> nat \<times> nat \<Rightarrow> string \<times> string \<Rightarrow> Channel \<Rightarrow> Channel" where
  "pair_effect rt nodes x r p k c =
     (if pair_link x p = Some k
      then case pair_paths (cr_delays r) (cr_re r) (cr_im r) (cr_numPaths r) (fst p) (snd p) of
             Inr (q # qs) \<Rightarrow> installed rt nodes (snd k) (q # qs) c
           | _ \<Rightarrow> c
      else c)"

lemma cirToTaps_not_Nil: "cirToTaps rt ds re im fs \<noteq> []"
  by (metis cirToTaps_alt length_tap_fold length_replicate list.size(3) add_is_0 one_neq_zero)

lemma install_link_find:
  assumes "taps \<noteq> []"
  shows "om_find (im_channelMap (install_link s d taps im)) k =
    (if k = (s, d) then map_option (setActiveExtension ''sionna'' True \<circ> updateChTaps (0, 0) taps) (om_find (im_channelMap im) k)
     else om_find (im_channelMap im) k)"
  using assms by (auto simp: install_link_def updateCIR_def on_channel_def om_find_set Let_def split: option.split)

lemma apply_paths_find:
  assumes "om_find ims f = Some im"
  shows "\<exists>im'. om_find (apply_paths rt nodes s d ps ims) f = Some im' \<and>
    om_find (im_channelMap im') k =
      (if k = (s, d) \<and> ps \<noteq> [] then map_option (installed rt nodes d ps) (om_find (im_channelMap im) k)
       else om_find (im_channelMap im) k)"
  using assms cirToTaps_not_Nil
  by (auto simp: apply_paths_def om_find_map_values install_link_find installed_def [abs_def] comp_def)

lemma apply_pair_alt:
  "apply_pair rt nodes x r p ims =
     (case pair_link x p of
        None \<Rightarrow> Inr ims
      | Some (s, d) \<Rightarrow>
          (case pair_paths (cr_delays r) (cr_re r) (cr_im r) (cr_numPaths r) (fst p) (snd p) of
             Inr ps \<Rightarrow> Inr (apply_paths rt nodes s d ps ims)
           | Inl (Thrown _) \<Rightarrow> Inr ims
           | Inl Crash \<Rightarrow> Inl Crash))"
  by (cases p) (auto simp: apply_pair_def pair_link_def split: option.split)

lemma apply_pair_find:
  assumes "apply_pair rt nodes x r p ims = Inr ims'" and "om_find ims f = Some im"
  shows "\<exists>im'. om_find ims' f = Some im' \<and>
    om_find (im_channelMap im') k = map_option (pair_effect rt nodes x r p k) (om_find (im_channelMap im) k)"
proof -
  have id: "map_option (\<lambda>c. c) m = m" for m :: "Channel option" by (cases m) auto
  let ?pp = "pair_paths (cr_delays r) (cr_re r) (cr_im r) (cr_numPaths r) (fst p) (snd p)"
  show ?thesis
  proof (cases "pair_link x p")
    case None
    then show ?thesis using assms by (simp add: apply_pair_alt pair_effect_def [abs_def] id)
  next
    case (Some sd)
    obtain s d where sd: "sd = (s, d)" by fastforce
    show ?thesis
    proof (cases ?pp)
      case (Inl e)
      then have "pair_effect rt nodes x r p k = (\<lambda>c. c)" by (auto simp: pair_effect_def fun_eq_iff)
      then show ?thesis using assms Some sd Inl by (cases e) (auto simp: apply_pair_alt id)
    next
      case (Inr ps)
      then have "ims' = apply_paths rt nodes s d ps ims" using assms(1) Some sd by (simp add: apply_pair_alt)
      moreover have "pair_effect rt nodes x r p k = (if k = (s, d) \<and> ps \<noteq> [] then installed rt nodes d ps else (\<lambda>c. c))"
        using Inr Some sd by (auto simp: pair_effect_def fun_eq_iff split: list.split)
      ultimately show ?thesis using apply_paths_find [OF assms(2), of rt nodes s d ps k] by (auto simp: id)
    qed
  qed
qed

lemma apply_pairs_find:
  assumes "try_fold (apply_pair rt nodes x r) ps ims = Inr ims'" and "om_find ims f = Some im"
  shows "\<exists>im'. om_find ims' f = Some im' \<and>
    om_find (im_channelMap im') k = map_option (fold (\<lambda>p. pair_effect rt nodes x r p k) ps) (om_find (im_channelMap im) k)"
  using assms
proof (induction ps arbitrary: ims im)
  case (Cons p ps)
  obtain ims1 where a: "apply_pair rt nodes x r p ims = Inr ims1" "try_fold (apply_pair rt nodes x r) ps ims1 = Inr ims'"
    using Cons.prems(1) by (auto simp: jbind_def split: sum.splits)
  obtain im1 where 1: "om_find ims1 f = Some im1"
    "om_find (im_channelMap im1) k = map_option (pair_effect rt nodes x r p k) (om_find (im_channelMap im) k)"
    using apply_pair_find [OF a(1) Cons.prems(2)] by blast
  show ?case using Cons.IH [OF a(2) 1(1)] 1(2) by (auto simp: option.map_comp comp_def)
qed (simp add: option.map_id)

lemma fold_single:
  assumes "distinct ps" and "p0 \<in> set ps" and "\<And>p c. p \<in> set ps \<Longrightarrow> p \<noteq> p0 \<Longrightarrow> g p c = c"
  shows "fold g ps c = g p0 c"
proof -
  have none: "fold g qs c = c" if "\<And>p c. p \<in> set qs \<Longrightarrow> g p c = c" for qs c
    using that by (induction qs arbitrary: c) auto
  obtain as bs where s: "ps = as @ p0 # bs" "p0 \<notin> set as" using split_list_first [OF assms(2)] by blast
  then have "fold g as c = c" for c using assms(1,3) by (intro none) auto
  moreover have "fold g bs c = c" for c using assms(1,3) s by (intro none) auto
  ultimately show ?thesis by (simp add: s(1))
qed

lemma cir_pairs_distinct: "distinct (cir_pairs x r)"
  unfolding cir_pairs_def product_concat_map [symmetric] by (simp add: distinct_product)

lemma cir_pairs_mem:
  "(i, j) \<in> set (cir_pairs x r) \<longleftrightarrow> i < nat (cr_numRx r) \<and> i < length (sn_rxOrder x) \<and> j < nat (cr_numTx r) \<and> j < length (sn_txOrder x)"
  unfolding cir_pairs_def product_concat_map [symmetric] by auto

lemma distinct_order:
  assumes "mset xs = mset ys" and "distinct ys"
  shows "distinct xs"
  using assms by (metis mset_eq_imp_distinct_iff)

text \<open>C14. When no two registered nodes have the same name, an impulse response reaches the links it belongs to:
  the link from the node that was registered as the \<open>j\<close>-th transmitter to the one registered as the
  \<open>i\<close>-th receiver gets the taps made of row \<open>i\<close> and column \<open>j\<close> and is marked, on every frequency it
  exists on, and a link with an end that is not registered stays as it was.\<close>

theorem cir_rows_reach_their_links:
  assumes "sn_reach srv ph s" and "sn_sceneId (ss_ext s) \<noteq> []"
    and "distinct (map snd (sn_txMap (ss_ext s)))" and "distinct (map snd (sn_rxMap (ss_ext s)))"
    and "installCIR rt nodes (ss_ext s) r ims = Inr ims'"
    and "om_find ims f = Some im" and "om_find (im_channelMap im) (a, b) = Some c" and "a \<noteq> b"
  shows "\<exists>im' c'. om_find ims' f = Some im' \<and> om_find (im_channelMap im') (a, b) = Some c' \<and>
    (\<forall>i j q qs. i < nat (cr_numRx r) \<and> j < nat (cr_numTx r) \<and> i < length (sn_rxOrder (ss_ext s)) \<and>
        j < length (sn_txOrder (ss_ext s)) \<and> om_find (sn_txMap (ss_ext s)) a = Some (sn_txOrder (ss_ext s) ! j) \<and>
        om_find (sn_rxMap (ss_ext s)) b = Some (sn_rxOrder (ss_ext s) ! i) \<and>
        pair_paths (cr_delays r) (cr_re r) (cr_im r) (cr_numPaths r) i j = Inr (q # qs) \<longrightarrow>
      ch_activeExtension c' = ''sionna'' \<and> om_find (ch_chTaps c') (0, 0) =
        Some (cirToTaps rt (map fst (q # qs)) (map (fst \<circ> snd) (q # qs)) (map (snd \<circ> snd) (q # qs))
                (destSampleRate nodes b 1000000))) \<and>
    (om_find (sn_txMap (ss_ext s)) a = None \<or> om_find (sn_rxMap (ss_ext s)) b = None \<longrightarrow> c' = c)"
proof -
  let ?x = "ss_ext s" let ?g = "\<lambda>p. pair_effect rt nodes ?x r p (a, b)"
  have "in_order srv (?x, ss_log s)" using sn_reach_inv [OF assms(1)] assms(2) by (simp add: sn_inv_def)
  then have w: "om_wf (sn_txMap ?x)" "om_wf (sn_rxMap ?x)" and m: "mset (sn_txOrder ?x) = mset (map snd (sn_txMap ?x))"
    "mset (sn_rxOrder ?x) = mset (map snd (sn_rxMap ?x))" unfolding in_order_def case_prod_conv by blast+
  have dist: "distinct (sn_txOrder ?x)" "distinct (sn_rxOrder ?x)" using m assms(3,4) distinct_order by blast+
  have link: "pair_link ?x (i, j) = Some (a, b) \<longleftrightarrow>
      om_find (sn_txMap ?x) a = Some (sn_txOrder ?x ! j) \<and> om_find (sn_rxMap ?x) b = Some (sn_rxOrder ?x ! i)" for i j
    unfolding name_to_id_find [OF w(1) assms(3), symmetric] name_to_id_find [OF w(2) assms(4), symmetric]
    using assms(8) by (auto simp: pair_link_def split: option.splits)
  obtain im' where im': "om_find ims' f = Some im'"
    "om_find (im_channelMap im') (a, b) = Some (fold ?g (cir_pairs ?x r) c)"
    using apply_pairs_find [OF assms(5) [unfolded installCIR_def] assms(6), of "(a, b)"] assms(7) by auto
  have "fold ?g (cir_pairs ?x r) c = installed rt nodes b (q # qs) c"
    if "i < nat (cr_numRx r)" "j < nat (cr_numTx r)" "i < length (sn_rxOrder ?x)" "j < length (sn_txOrder ?x)"
      "om_find (sn_txMap ?x) a = Some (sn_txOrder ?x ! j)" "om_find (sn_rxMap ?x) b = Some (sn_rxOrder ?x ! i)"
      "pair_paths (cr_delays r) (cr_re r) (cr_im r) (cr_numPaths r) i j = Inr (q # qs)" for i j q qs
  proof -
    have "pair_link ?x (i', j') \<noteq> Some (a, b)" if "(i', j') \<in> set (cir_pairs ?x r)" "(i', j') \<noteq> (i, j)" for i' j'
      using that \<open>i < length (sn_rxOrder ?x)\<close> \<open>j < length (sn_txOrder ?x)\<close> dist
        \<open>om_find (sn_txMap ?x) a = _\<close> \<open>om_find (sn_rxMap ?x) b = _\<close>
      unfolding link by (auto simp: cir_pairs_mem nth_eq_iff_index_eq)
    then have "?g p c = c" if "p \<in> set (cir_pairs ?x r)" "p \<noteq> (i, j)" for p c
      using that by (cases p) (auto simp: pair_effect_def)
    moreover have "(i, j) \<in> set (cir_pairs ?x r)" using that by (simp add: cir_pairs_mem)
    ultimately have "fold ?g (cir_pairs ?x r) c = ?g (i, j) c" by (intro fold_single cir_pairs_distinct)
    then show ?thesis using that link [of i j] by (simp add: pair_effect_def)
  qed
  moreover have "fold ?g (cir_pairs ?x r) c = c"
    if n: "om_find (sn_txMap ?x) a = None \<or> om_find (sn_rxMap ?x) b = None"
  proof -
    have "?g p = (\<lambda>c. c)" for p using link [of "fst p" "snd p"] n by (auto simp: pair_effect_def fun_eq_iff)
    then have "fold ?g ps c = c" for ps by (induction ps) auto
    then show ?thesis .
  qed
  ultimately show ?thesis using im'
    by (auto simp: installed_def setActiveExtension_def updateChTaps_def om_find_set)
qed

section \<open>Stopping\<close>

text \<open>Stopping the extension hands its links back to their path loss model but leaves the impulse response
  on them: the samples go on being filtered with the taps of the last response, which carry the loss
  of the ray-traced paths, and the loss of the model is applied on top of it.\<close>

theorem sionna_stop_keeps_response:
  assumes "sn_running x" and "Sionna_onStop x ims = (x', ims')"
    and "om_find ims f = Some im" and "om_find (im_channelMap im) k = Some c" and "ch_activeExtension c = ''sionna''"
  shows "\<exists>im' c'. om_find ims' f = Some im' \<and> om_find (im_channelMap im') k = Some c' \<and> ch_activeExtension c' = '''' \<and>
    (\<forall>p. cir_taps p c' = cir_taps p c) \<and>
    (\<forall>d m freq g dr. computePathLoss d m freq g dr c' = computePathLoss d m freq g dr (c\<lparr>ch_extensionBypassesPathLoss := False\<rparr>)) \<and>
    \<not> sn_running x' \<and> sn_sceneId x' = [] \<and> sn_txMap x' = [] \<and> sn_rxMap x' = []"
proof -
  let ?f = "\<lambda>ch. if ch_activeExtension ch = ''sionna'' then clearActiveExtension ch else ch"
  have x: "\<not> sn_running x'" "sn_sceneId x' = []" "sn_txMap x' = []" "sn_rxMap x' = []" "ims' = clearExtensionFlags ims"
    using assms(1,2) by (auto simp: Sionna_onStop_def)
  let ?c = "clearActiveExtension c"
  have "om_find ims' f = Some (for_channels ?f im)"
    using assms(3) by (simp add: x(5) clearExtensionFlags_def om_find_map_values)
  moreover have "om_find (im_channelMap (for_channels ?f im)) k = Some ?c"
    using assms(4,5) by (simp add: for_channels_def om_find_map_values)
  moreover have "cir_taps p ?c = cir_taps p c" for p by (simp add: cir_taps_def clearActiveExtension_def split: option.split)
  moreover have "computePathLoss d m freq g dr ?c = computePathLoss d m freq g dr (c\<lparr>ch_extensionBypassesPathLoss := False\<rparr>)" for d m freq g dr
    by (cases m) (simp_all add: computePathLoss_def clearActiveExtension_def)
  moreover have "ch_activeExtension ?c = ''''" by (simp add: clearActiveExtension_def)
  ultimately show ?thesis using x by blast
qed

section \<open>The creation of the scene\<close>

text \<open>What other threads do to the extension meanwhile: the \<open>config\<close> action changes its settings (there is no scene to be updated
  yet), and stopping it clears \<open>m_running\<close> before it waits for the thread.\<close>

datatype sn_action = Act_config json | Act_stop

fun sn_act :: "sn_action \<Rightarrow> SionnaExtension \<Rightarrow> SionnaExtension" where
  "sn_act (Act_config j) x = Sionna_settings j x"
| "sn_act Act_stop x = x\<lparr>sn_running := False\<rparr>"

text \<open>The first loop of the thread as a whole, which runs until the server accepts the scene or the extension is
  stopped; \<open>acts n\<close> is what the other threads did before its condition is tested for the \<open>n\<close>-th time. Not ending is \<open>None\<close>.\<close>

partial_function (option) create_loop ::
  "http_server \<Rightarrow> (nat \<Rightarrow> sn_action list) \<Rightarrow> nat \<Rightarrow> SionnaExtension \<times> http_log \<Rightarrow> (SionnaExtension \<times> http_log) option" where
  "create_loop srv acts n s =
     (let x = fold sn_act (acts n) (fst s)
      in if sn_running x \<and> sn_sceneId x = []
         then (case createScene srv (x, snd s) of (ok, s') \<Rightarrow> if ok then Some s' else create_loop srv acts (Suc n) s')
         else Some (x, snd s))"

definition scene_request :: "SionnaExtension \<Rightarrow> http_request" where
  "scene_request x = \<lparr>rq_method = Http_post, rq_target = ''/scenes'', rq_body = scene_body x\<rparr>"

definition scene_answer :: "http_server \<Rightarrow> http_log \<Rightarrow> string option" where
  "scene_answer srv lg = (case srv lg of Http_reply _ (Some j) \<Rightarrow> scene_id_of j | _ \<Rightarrow> None)"

lemma createScene_answer:
  "createScene srv (x, lg) =
     (case scene_answer srv (scene_request x # lg) of
        Some i \<Rightarrow> (True, fetchSceneAlignment srv (x\<lparr>sn_sceneId := i\<rparr>, scene_request x # lg))
      | None \<Rightarrow> (False, x, scene_request x # lg))"
  by (auto simp: createScene_def http_send_def scene_request_def scene_answer_def Let_def split: http_answer.split option.split)

lemma acts_frame:
  "sn_sceneId (fold sn_act as x) = sn_sceneId x" "sn_running (fold sn_act as x) \<longleftrightarrow> sn_running x \<and> Act_stop \<notin> set as"
proof (induction as arbitrary: x)
  case (Cons a as)
  {
    case 1
    show ?case by (cases a) (simp_all add: Cons Sionna_settings_def)
  next
    case 2
    show ?case by (cases a) (auto simp: Cons Sionna_settings_def)
  }
qed simp_all

text \<open>The extension and the log when the condition is tested for the \<open>n\<close>-th time, and whether the server answers the attempt
  that follows.\<close>

fun attempt_state :: "(nat \<Rightarrow> sn_action list) \<Rightarrow> SionnaExtension \<times> http_log \<Rightarrow> nat \<Rightarrow> SionnaExtension \<times> http_log" where
  "attempt_state acts s 0 = (fold sn_act (acts 0) (fst s), snd s)"
| "attempt_state acts s (Suc n) =
     (let (x, lg) = attempt_state acts s n in (fold sn_act (acts (Suc n)) x, scene_request x # lg))"

definition attempt_answer :: "http_server \<Rightarrow> (nat \<Rightarrow> sn_action list) \<Rightarrow> SionnaExtension \<times> http_log \<Rightarrow> nat \<Rightarrow> string option" where
  "attempt_answer srv acts s n = (let (x, lg) = attempt_state acts s n in scene_answer srv (scene_request x # lg))"

lemma attempt_state_frame:
  "sn_sceneId (fst (attempt_state acts s n)) = sn_sceneId (fst s)"
  "sn_running (fst (attempt_state acts s n)) \<longleftrightarrow> sn_running (fst s) \<and> (\<forall>m \<le> n. Act_stop \<notin> set (acts m))"
  by (induction n) (auto simp: acts_frame split_beta le_Suc_eq)

text \<open>The loop from the \<open>n\<close>-th test on, given the state the attempt before left behind.\<close>

definition before_attempt :: "(nat \<Rightarrow> sn_action list) \<Rightarrow> SionnaExtension \<times> http_log \<Rightarrow> nat \<Rightarrow> SionnaExtension \<times> http_log" where
  "before_attempt acts s n = (case n of 0 \<Rightarrow> s | Suc m \<Rightarrow> (let (x, lg) = attempt_state acts s m in (x, scene_request x # lg)))"

definition loop_from :: "http_server \<Rightarrow> (nat \<Rightarrow> sn_action list) \<Rightarrow> SionnaExtension \<times> http_log \<Rightarrow> nat \<Rightarrow> (SionnaExtension \<times> http_log) option" where
  "loop_from srv acts s n = create_loop srv acts n (before_attempt acts s n)"

lemma before_attempt_state:
  assumes "attempt_state acts s n = (x, lg)"
  shows "fold sn_act (acts n) (fst (before_attempt acts s n)) = x" "snd (before_attempt acts s n) = lg"
    "before_attempt acts s (Suc n) = (x, scene_request x # lg)"
  using assms by (cases n; simp add: before_attempt_def split_beta)+

lemma loop_from_step:
  assumes "sn_sceneId (fst s) = []" "sn_running (fst s)" "\<forall>m < n. Act_stop \<notin> set (acts m)"
  shows "loop_from srv acts s n =
    (if Act_stop \<in> set (acts n) then Some (attempt_state acts s n)
     else case attempt_answer srv acts s n of
            Some i \<Rightarrow> (case attempt_state acts s n of (x, lg) \<Rightarrow> Some (fetchSceneAlignment srv (x\<lparr>sn_sceneId := i\<rparr>, scene_request x # lg)))
          | None \<Rightarrow> loop_from srv acts s (Suc n))"
proof -
  obtain x lg where a: "attempt_state acts s n = (x, lg)" by fastforce
  have r: "sn_sceneId x = []" "sn_running x \<longleftrightarrow> Act_stop \<notin> set (acts n)"
    using attempt_state_frame [of acts s n] assms by (auto simp: a le_less)
  have "loop_from srv acts s n = (if sn_running x \<and> sn_sceneId x = []
      then (case createScene srv (x, lg) of (ok, s') \<Rightarrow> if ok then Some s' else create_loop srv acts (Suc n) s') else Some (x, lg))"
    unfolding loop_from_def by (subst create_loop.simps) (simp only: before_attempt_state [OF a] Let_def)
  then show ?thesis using r
    by (auto simp: createScene_answer attempt_answer_def a loop_from_def before_attempt_state(3) [OF a] split: option.split)
qed

lemma loop_from_skip:
  assumes "sn_sceneId (fst s) = []" "sn_running (fst s)" "\<forall>m < n. Act_stop \<notin> set (acts m) \<and> attempt_answer srv acts s m = None"
  shows "create_loop srv acts 0 s = loop_from srv acts s n"
  using assms(3)
proof (induction n)
  case 0
  then show ?case by (simp add: loop_from_def before_attempt_def)
next
  case (Suc n)
  then show ?case using loop_from_step [OF assms(1,2), of n acts srv] by simp
qed

lemma create_loop_ends:
  assumes "create_loop srv acts n t = Some r" "t = before_attempt acts s n" "sn_sceneId (fst s) = []" "sn_running (fst s)"
  shows "\<exists>m. Act_stop \<in> set (acts m) \<or> attempt_answer srv acts s m \<noteq> None"
proof -
  have "t = before_attempt acts s n \<longrightarrow> (\<exists>m. Act_stop \<in> set (acts m) \<or> attempt_answer srv acts s m \<noteq> None)"
  proof (rule create_loop.raw_induct [OF _ assms(1), where P = "\<lambda>srv acts n t _. t = before_attempt acts s n \<longrightarrow>
      (\<exists>m. Act_stop \<in> set (acts m) \<or> attempt_answer srv acts s m \<noteq> None)"], goal_cases)
    case (1 loop srv acts n t r)
    show ?case
    proof (intro impI, rule ccontr)
      assume t: "t = before_attempt acts s n"
      assume none: "\<nexists>m. Act_stop \<in> set (acts m) \<or> attempt_answer srv acts s m \<noteq> None"
      obtain x lg where a: "attempt_state acts s n = (x, lg)" by fastforce
      have r: "sn_sceneId x = []" "sn_running x" using attempt_state_frame [of acts s n] none assms(3,4) by (auto simp: a)
      have "scene_answer srv (scene_request x # lg) = None" using none by (auto simp: attempt_answer_def a dest: spec [of _ n])
      then have "createScene srv (x, lg) = (False, x, scene_request x # lg)" by (simp add: createScene_answer)
      then have "loop srv acts (Suc n) (before_attempt acts s (Suc n)) = Some r"
        using 1(2) r by (simp add: t before_attempt_state [OF a])
      from 1(1) [OF this] none show False by blast
    qed
  qed
  then show ?thesis using assms(2) by blast
qed

text \<open>C30. The creation of the scene ends exactly when the server answers one of the attempts with a scene or the extension is
  stopped, whichever comes first; the other threads may change the settings, and with them the body of the requests,
  between the attempts. Each attempt before sends one request. When the extension was stopped, no scene is taken over;
  otherwise the scene of the first answer is, and its alignment is fetched. A server that never answers keeps
  the thread in this loop until the extension is stopped.\<close>

theorem scene_creation_terminates:
  assumes "sn_sceneId x = []" and "sn_running x"
  shows "(create_loop srv acts 0 (x, lg) \<noteq> None \<longleftrightarrow>
      (\<exists>n. Act_stop \<in> set (acts n) \<or> attempt_answer srv acts (x, lg) n \<noteq> None)) \<and>
    (\<forall>n. (\<forall>m < n. Act_stop \<notin> set (acts m) \<and> attempt_answer srv acts (x, lg) m = None) \<longrightarrow>
       (Act_stop \<in> set (acts n) \<longrightarrow> create_loop srv acts 0 (x, lg) = Some (attempt_state acts (x, lg) n)) \<and>
       (\<forall>i. Act_stop \<notin> set (acts n) \<and> attempt_answer srv acts (x, lg) n = Some i \<longrightarrow>
          (\<exists>x' lg'. attempt_state acts (x, lg) n = (x', lg') \<and>
             create_loop srv acts 0 (x, lg) = Some (fetchSceneAlignment srv (x'\<lparr>sn_sceneId := i\<rparr>, scene_request x' # lg')))))"
proof -
  let ?s = "(x, lg)" let ?stops = "\<lambda>n. Act_stop \<in> set (acts n) \<or> attempt_answer srv acts ?s n \<noteq> None"
  have s: "sn_sceneId (fst ?s) = []" "sn_running (fst ?s)" using assms by simp_all
  have at: "create_loop srv acts 0 ?s =
      (if Act_stop \<in> set (acts n) then Some (attempt_state acts ?s n)
       else case attempt_answer srv acts ?s n of
              Some i \<Rightarrow> (case attempt_state acts ?s n of (x, lg) \<Rightarrow> Some (fetchSceneAlignment srv (x\<lparr>sn_sceneId := i\<rparr>, scene_request x # lg)))
            | None \<Rightarrow> loop_from srv acts ?s (Suc n))"
    if "\<forall>m < n. Act_stop \<notin> set (acts m) \<and> attempt_answer srv acts ?s m = None" for n
    using loop_from_skip [OF s that] loop_from_step [OF s, of n acts srv] that by simp
  have "create_loop srv acts 0 ?s \<noteq> None" if stop: "?stops n" for n
  proof -
    obtain l where l: "?stops l" "\<forall>m < l. \<not> ?stops m" using exists_least_iff [of ?stops] stop by blast
    have "\<forall>m < l. Act_stop \<notin> set (acts m) \<and> attempt_answer srv acts ?s m = None" using l(2) by blast
    from at [OF this] l(1) show ?thesis
      by (cases "attempt_answer srv acts ?s l"; cases "attempt_state acts ?s l") simp_all
  qed
  moreover have "\<exists>n. ?stops n" if "create_loop srv acts 0 ?s \<noteq> None"
    using that create_loop_ends [of srv acts 0 ?s _ ?s] s by (auto simp: before_attempt_def)
  moreover have "(Act_stop \<in> set (acts n) \<longrightarrow> create_loop srv acts 0 ?s = Some (attempt_state acts ?s n)) \<and>
       (\<forall>i. Act_stop \<notin> set (acts n) \<and> attempt_answer srv acts ?s n = Some i \<longrightarrow>
          (\<exists>x' lg'. attempt_state acts ?s n = (x', lg') \<and>
             create_loop srv acts 0 ?s = Some (fetchSceneAlignment srv (x'\<lparr>sn_sceneId := i\<rparr>, scene_request x' # lg'))))"
    if "\<forall>m < n. Act_stop \<notin> set (acts m) \<and> attempt_answer srv acts ?s m = None" for n
    unfolding at [OF that] by (auto split: prod.split)
  ultimately show ?thesis by blast
qed

section \<open>An example session\<close>

text \<open>A server that answers everything with the same scene, and two nodes with a position.\<close>

definition example_http :: http_server where
  "example_http lg = Http_reply 200 (Some (JObj [(''scene_id'', JStr ''s'')]))"

definition example_node :: Node where
  "example_node = (Node_new 0 (NodeConfig_new 0 0))\<lparr>nd_hasLocation := True, nd_location := \<lparr>loc_lat = Fin 1, loc_lon = Fin 2, loc_alt = Fin 3\<rparr>\<rparr>"

definition example_nodes :: "(string, Node) omap" where
  "example_nodes = [(''a'', example_node), (''b'', example_node)]"

definition example_session :: "nat \<Rightarrow> poll_phase \<times> sn_state" where
  "example_session k =
     ((\<lambda>s. case poll_step example_http RuntimeConfig_init example_nodes 0 s of Some s' \<Rightarrow> s' | None \<Rightarrow> s) ^^ k)
       (Creating, \<lparr>ss_ext = SionnaExtension_new, ss_log = [], ss_ims = []\<rparr>)"

lemma example_session_reach: "sn_reach example_http (fst (example_session k)) (snd (example_session k))"
proof (induction k)
  case 0
  then show ?case by (simp add: example_session_def sn_reach.start SionnaExtension_new_def)
next
  case (Suc k)
  obtain ph s where s: "example_session k = (ph, s)" by fastforce
  have "example_session (Suc k) = (case poll_step example_http RuntimeConfig_init example_nodes 0 (ph, s) of Some s' \<Rightarrow> s' | None \<Rightarrow> (ph, s))"
    using s by (simp add: example_session_def split: option.split)
  then show ?case using Suc s by (auto split: option.split intro: sn_reach.step)
qed

lemma example_session_2:
  "sn_txMap (ss_ext (snd (example_session 2))) = [(''a'', ''a-tx''), (''b'', ''b-tx'')] \<and>
   sn_rxMap (ss_ext (snd (example_session 2))) = [(''a'', ''a-rx''), (''b'', ''b-rx'')] \<and>
   sn_txOrder (ss_ext (snd (example_session 2))) = [''a-tx'', ''b-tx''] \<and>
   sn_rxOrder (ss_ext (snd (example_session 2))) = [''a-rx'', ''b-rx''] \<and> sn_sceneId (ss_ext (snd (example_session 2))) = ''s''"
  by (simp add: example_session_def numeral_2_eq_2 poll_step_def poll_round_def createScene_def fetchSceneAlignment_def
      http_send_def example_http_def scene_id_of_def om_find_def syncPositions_def sync_node_def sync_tx_def sync_rx_def
      getLocation_def example_nodes_def example_node_def Node_new_def NodeConfig_new_def node_label_def unmoved_def
      computeAndApplyCIR_def hasLinks_def Let_def SionnaExtension_new_def)

text \<open>A server that is busy three times: the fourth attempt succeeds, unless the extension was stopped after the second.\<close>

theorem scene_creation_terminates_witness:
  "(\<exists>x lg. create_loop (\<lambda>lg. if length lg < 4 then Http_failed else Http_reply 200 (Some (JObj [(''scene_id'', JStr ''s'')])))
     (\<lambda>_. []) 0 (SionnaExtension_new\<lparr>sn_running := True\<rparr>, []) = Some (x, lg) \<and> sn_sceneId x = ''s'') \<and>
   (\<exists>x lg. create_loop (\<lambda>lg. if length lg < 4 then Http_failed else Http_reply 200 (Some (JObj [(''scene_id'', JStr ''s'')])))
     (\<lambda>n. if n = 2 then [Act_stop] else []) 0 (SionnaExtension_new\<lparr>sn_running := True\<rparr>, []) = Some (x, lg) \<and> sn_sceneId x = [] \<and> length lg = 2)"
proof -
  let ?srv = "\<lambda>lg. if length lg < 4 then Http_failed else Http_reply 200 (Some (JObj [(''scene_id'', JStr ''s'')]))"
  let ?x = "SionnaExtension_new\<lparr>sn_running := True\<rparr>"
  have n: "sn_sceneId ?x = []" "sn_running ?x" by (simp_all add: SionnaExtension_new_def)
  have len: "length (snd (attempt_state acts (?x, []) k)) = k" for acts k by (induction k) (simp_all add: split_beta)
  have ans: "attempt_answer ?srv acts (?x, []) k = (if k < 3 then None else Some ''s'')" for acts k
    using len [of acts k] by (auto simp: attempt_answer_def split_beta scene_answer_def scene_id_of_def om_find_def)
  note T = scene_creation_terminates [OF n, of ?srv _ "[]"]
  obtain x' lg' where "create_loop ?srv (\<lambda>_. []) 0 (?x, []) = Some (fetchSceneAlignment ?srv (x'\<lparr>sn_sceneId := ''s''\<rparr>, scene_request x' # lg'))"
    using T [of "\<lambda>_. []", THEN conjunct2, rule_format, of 3] by (auto simp: ans)
  then have "\<exists>x lg. create_loop ?srv (\<lambda>_. []) 0 (?x, []) = Some (x, lg) \<and> sn_sceneId x = ''s''"
    by (auto simp: fetchSceneAlignment_def split: prod.splits option.splits)
  moreover have "create_loop ?srv (\<lambda>n. if n = 2 then [Act_stop] else []) 0 (?x, []) =
      Some (attempt_state (\<lambda>n. if n = 2 then [Act_stop] else []) (?x, []) 2)"
    using T [of "\<lambda>n. if n = 2 then [Act_stop] else []", THEN conjunct2, rule_format, of 2] by (auto simp: ans)
  then have "\<exists>x lg. create_loop ?srv (\<lambda>n. if n = 2 then [Act_stop] else []) 0 (?x, []) = Some (x, lg) \<and> sn_sceneId x = [] \<and> length lg = 2"
    using len [of "\<lambda>n. if n = 2 then [Act_stop] else []" 2] attempt_state_frame(1) [of "\<lambda>n. if n = 2 then [Act_stop] else []" "(?x, [])" 2] n
    by (metis fst_conv prod.collapse)
  ultimately show ?thesis by blast
qed

theorem sionna_order_is_registration_order_witness:
  "answered example_http (txBase (ss_ext (snd (example_session 2)))) (ss_log (snd (example_session 2))) = [''a-tx'', ''b-tx'']"
  using sionna_order_is_registration_order [OF example_session_reach [of 2]] example_session_2 by simp

text \<open>A server that never answers.\<close>

theorem sync_round_is_final_witness:
  "\<forall>k. sn_txMap (fst (((syncPositions (\<lambda>_. Http_failed) example_nodes) ^^ Suc k) (SionnaExtension_new\<lparr>sn_sceneId := ''s''\<rparr>, []))) = []"
proof
  fix k
  let ?s = "(SionnaExtension_new\<lparr>sn_sceneId := ''s''\<rparr>, [])"
  have "((syncPositions (\<lambda>_. Http_failed) example_nodes) ^^ Suc k) ?s = syncPositions (\<lambda>_. Http_failed) example_nodes ?s"
    by (rule sync_round_is_final)
      (auto simp: example_nodes_def example_node_def om_wf_def getLocation_def no_nan_def)
  moreover have "sn_txMap (fst (syncPositions (\<lambda>_. Http_failed) example_nodes ?s)) = []"
    by (simp add: syncPositions_def sync_node_def sync_tx_def sync_rx_def getLocation_def example_nodes_def example_node_def
        Node_new_def NodeConfig_new_def node_label_def unmoved_def http_send_def om_find_def Let_def SionnaExtension_new_def)
  ultimately show "sn_txMap (fst (((syncPositions (\<lambda>_. Http_failed) example_nodes) ^^ Suc k) ?s)) = []" by simp
qed

definition example_response :: cir_response where
  "example_response =
     (let row = JArr [JArr [JFloat 0], JArr [JFloat 0]]; gain = JArr [JArr [JArr [JArr [JFloat 1]], JArr [JArr [JFloat 1]]]]
      in \<lparr>cr_delays = JArr [row, row], cr_re = JArr [gain, gain], cr_im = JArr [gain, gain],
          cr_numRx = 2, cr_numTx = 2, cr_numPaths = 1\<rparr>)"

definition example_links :: "(real, Intermediate) omap" where
  "example_links = [(1, (Intermediate_new 1 10)\<lparr>im_channelMap := [((''a'', ''b''), new_link ''a'' ''b'' 1 1 (Intermediate_new 1 10))]\<rparr>)]"

theorem sionna_stop_keeps_response_witness:
  "\<exists>x' ims' im' c'. Sionna_onStop (SionnaExtension_new\<lparr>sn_running := True\<rparr>)
      [(1, (Intermediate_new 1 10)\<lparr>im_channelMap := [((''a'', ''b''), installed RuntimeConfig_init [] ''b'' [(0, 1, 1)]
        (new_link ''a'' ''b'' 1 1 (Intermediate_new 1 10)))]\<rparr>)] = (x', ims') \<and>
     om_find ims' 1 = Some im' \<and> om_find (im_channelMap im') (''a'', ''b'') = Some c' \<and>
     (\<forall>p. cir_taps p c' = cir_taps p (installed RuntimeConfig_init [] ''b'' [(0, 1, 1)] (new_link ''a'' ''b'' 1 1 (Intermediate_new 1 10))))"
proof -
  let ?c = "installed RuntimeConfig_init [] ''b'' [(0, 1, 1)] (new_link ''a'' ''b'' 1 1 (Intermediate_new 1 10))"
  let ?im = "(Intermediate_new 1 10)\<lparr>im_channelMap := [((''a'', ''b''), ?c)]\<rparr>"
  let ?x = "SionnaExtension_new\<lparr>sn_running := True\<rparr>"
  obtain x' ims' where s: "Sionna_onStop ?x [(1, ?im)] = (x', ims')" by fastforce
  have h: "sn_running ?x" "om_find [(1, ?im)] 1 = Some ?im" "om_find (im_channelMap ?im) (''a'', ''b'') = Some ?c"
    "ch_activeExtension ?c = ''sionna''"
    by (simp_all add: om_find_def installed_def setActiveExtension_def)
  show ?thesis using sionna_stop_keeps_response [OF h(1) s h(2-4)] s by blast
qed

lemma example_pair: "pair_paths (cr_delays example_response) (cr_re example_response) (cr_im example_response)
    (cr_numPaths example_response) 1 0 = Inr [(0, 1, 1)]"
  by (simp add: example_response_def pair_paths_def const_nth_def jbind_def path_at_def double_at_def thrown_def Let_def)

lemma example_install:
  "\<exists>ims'. installCIR RuntimeConfig_init example_nodes (ss_ext (snd (example_session 2))) example_response example_links = Inr ims'"
  using example_session_2
  by (simp add: installCIR_def cir_pairs_def upt_rec apply_pair_def name_to_id_def om_find_def example_response_def
      pair_paths_def const_nth_def jbind_def path_at_def double_at_def thrown_def Let_def numeral_2_eq_2)

theorem cir_rows_reach_their_links_witness:
  "\<exists>ims' im' c'. installCIR RuntimeConfig_init example_nodes (ss_ext (snd (example_session 2))) example_response example_links = Inr ims' \<and>
     om_find ims' 1 = Some im' \<and> om_find (im_channelMap im') (''a'', ''b'') = Some c' \<and> ch_activeExtension c' = ''sionna''"
proof -
  obtain ims' where i: "installCIR RuntimeConfig_init example_nodes (ss_ext (snd (example_session 2))) example_response example_links = Inr ims'"
    using example_install by blast
  let ?x = "ss_ext (snd (example_session 2))"
  have p: "sn_sceneId ?x \<noteq> []" "distinct (map snd (sn_txMap ?x))" "distinct (map snd (sn_rxMap ?x))"
    using example_session_2 by simp_all
  obtain im c where f: "om_find example_links 1 = Some im" "om_find (im_channelMap im) (''a'', ''b'') = Some c"
    by (simp add: example_links_def om_find_def)
  have h: "1 < nat (cr_numRx example_response) \<and> 0 < nat (cr_numTx example_response) \<and> 1 < length (sn_rxOrder ?x) \<and>
      0 < length (sn_txOrder ?x) \<and> om_find (sn_txMap ?x) ''a'' = Some (sn_txOrder ?x ! 0) \<and>
      om_find (sn_rxMap ?x) ''b'' = Some (sn_rxOrder ?x ! 1) \<and> pair_paths (cr_delays example_response) (cr_re example_response)
        (cr_im example_response) (cr_numPaths example_response) 1 0 = Inr ((0, 1, 1) # [])"
    using example_session_2 example_pair by (simp add: om_find_def example_response_def Let_def)
  obtain im' c' where "om_find ims' 1 = Some im'" "om_find (im_channelMap im') (''a'', ''b'') = Some c'"
    "ch_activeExtension c' = ''sionna''"
    using cir_rows_reach_their_links [OF example_session_reach p i f] h by blast
  then show ?thesis using i by blast
qed

end
