(* ===== verification/Chem_System.thy ===== *)
theory Chem_System
  imports Coordinator_Commands Sionna_Sync
begin

text \<open>
  The program as a whole: the start-up of \<open>src/chem/main.cpp\<close>, and the system whose steps are the
  requests of the nodes, the passes of the timeout loop, the commands of the user interface, the
  passes of the channel update loop and the rounds of the ray-tracing extension, in any order, without
  the processing of signals. A locale
  states what every such step keeps of a property of the links; it is interpreted for the recorded
  path loss and for the phase accumulators.
\<close>

section \<open>Start-up\<close>

definition boot_runtime :: "bool \<Rightarrow> Config \<Rightarrow> RuntimeConfig" where
  "boot_runtime sandbox cfg =
     (if sandbox then RuntimeConfig_init\<lparr>rc_sandbox_enabled := True, rc_sandbox_update_rate_ms := cf_sandboxUpdateRateMs cfg\<rparr>
      else RuntimeConfig_init)"

text \<open>The sandbox extension is started with the configured address after the others.\<close>

definition boot_sandbox :: "Config \<Rightarrow> Coordinator \<Rightarrow> Coordinator" where
  "boot_sandbox cfg c =
     snd (with_extensions (routeCommand ''sandbox'' ''start''
       (jobj [(''middlemanUrl'', JStr (cf_sandboxMiddlemanUrl cfg)), (''updateRateMs'', JInt (cf_sandboxUpdateRateMs cfg))])) c)"

definition boot :: "bool \<Rightarrow> Config \<Rightarrow> Controller \<Rightarrow> Coordinator" where
  "boot sandboxEnv cfg ctl =
     (let sandbox = (sandboxEnv \<or> cf_sandboxEnabled cfg);
          c = (Coordinator_new ctl (Some cfg))\<lparr>co_rt := boot_runtime sandbox cfg\<rparr>;
          c1 = snd (with_extensions (\<lambda>rw. ((), startFromConfig (cf_extensionsConfig cfg) rw)) c)
      in if sandbox then boot_sandbox cfg c1 else c1)"

section \<open>Steps\<close>

text \<open>A request of a node is served in the mode the program is in.\<close>

definition node_request :: "ct_env \<Rightarrow> json option \<Rightarrow> Coordinator \<Rightarrow> Coordinator" where
  "node_request env req c =
     co_map_ctl (\<lambda>s. snd (requestHandler (env\<lparr>ce_sandbox := rc_sandbox_enabled (co_rt c)\<rparr>) req s)) c"

definition timeout_pass :: "int \<Rightarrow> Coordinator \<Rightarrow> Coordinator" where
  "timeout_pass now c = co_map_ctl (\<lambda>s. snd (CheckTimeouts_pass now s)) c"

text \<open>One turn of the thread of the Sionna extension. The state of the thread and the requests it has
  sent are not part of the coordinator.\<close>

definition sionna_turn ::
  "http_server \<Rightarrow> poll_phase \<Rightarrow> http_log \<Rightarrow> real \<Rightarrow> Coordinator \<Rightarrow> Coordinator option" where
  "sionna_turn srv ph lg elapsedMs c =
     (case om_find (co_extensions c) ''sionna'' of
        Some (Sionna_ext x) \<Rightarrow>
          if sn_running x
          then map_option
                 (\<lambda>(_, s). co_map_ims (\<lambda>_. ss_ims s) (c\<lparr>co_extensions := om_set ''sionna'' (Sionna_ext (ss_ext s)) (co_extensions c)\<rparr>))
                 (poll_step srv (co_rt c) (co_nodes c) elapsedMs (ph, \<lparr>ss_ext = x, ss_log = lg, ss_ims = co_ims c\<rparr>))
          else Some c
      | _ \<Rightarrow> Some c)"

inductive sys_reach :: "Coordinator \<Rightarrow> bool" where
  start: "Config_read path file Config_new = Inr (ok, cfg) \<Longrightarrow>
    sys_reach (boot sandboxEnv cfg (Controller_new [] [] defaults rx tx item numa n))"
| node: "sys_reach c \<Longrightarrow> sys_reach (node_request env req c)"
| timeout: "sys_reach c \<Longrightarrow> sys_reach (timeout_pass now c)"
| command: "sys_reach c \<Longrightarrow> sys_reach (snd (Coordinator_requestHandler cenv req c))"
| update: "sys_reach c \<Longrightarrow> sys_reach (configChannels c)"
| sionna: "sys_reach c \<Longrightarrow> sionna_turn srv ph lg elapsedMs c = Some c' \<Longrightarrow> sys_reach c'"

section \<open>Run-time limits\<close>

definition rt_limits :: "RuntimeConfig \<Rightarrow> bool" where
  "rt_limits rt \<longleftrightarrow> 20 \<le> rc_vehicle_poll_rate_ms rt \<and> rc_vehicle_poll_rate_ms rt \<le> 60000 \<and>
     1 \<le> rc_channel_update_rate_ms rt \<and> rc_channel_update_rate_ms rt \<le> 60000 \<and>
     0 \<le> rc_cir_max_taps rt \<and> rc_cir_max_taps rt \<le> 8192 \<and> 50 \<le> rc_sandbox_update_rate_ms rt"

lemma co_then_simps [simp]:
  "co_then (Inl e, c) f = (Inl e, c)" "co_then (Inr x, c) f = f x c" "co_lift r c = (r, c)"
  by (simp_all add: co_then_def co_lift_def)

lemma co_map_simps [simp]:
  "co_rt (co_map_ctl f c) = co_rt c" "co_ctl (co_map_ctl f c) = f (co_ctl c)"
  "co_rt (co_map_ims g c) = co_rt c" "co_ims (co_map_ims g c) = g (co_ims c)"
  "co_nodes (co_map_ims g c) = co_nodes c"
  by (simp_all add: co_map_ctl_def co_map_ims_def)

text \<open>A command either leaves through an exception or does its work; the state it leaves behind
  satisfies whatever its work keeps.\<close>

lemma co_then_cases:
  assumes "P (snd r)" and "\<And>x c. r = (Inr x, c) \<Longrightarrow> P (snd (f x c))"
  shows "P (snd (co_then r f))"
  using assms by (cases r; cases "fst r") (auto simp: co_then_def)

lemma co_lift_cases:
  assumes "P c" and "\<And>x. r = Inr x \<Longrightarrow> P (snd (f x c))"
  shows "P (snd (co_then (co_lift r c) f))"
  by (rule co_then_cases) (use assms in auto)

lemma set_config_limits: "rt_limits rt \<Longrightarrow> rt_limits (set_config j rt)"
  by (auto simp: rt_limits_def set_config_def clamp_member_def clamp_ms_def split: option.splits)

lemma ext_onStart_limits: "rt_limits (xw_rt w) \<Longrightarrow> rt_limits (xw_rt (snd (ext_onStart cfg (e, w))))"
  by (cases e) (auto simp: Sandbox_onStart_def rt_limits_def int_member_def Let_def split: prod.splits option.splits)

lemma ext_handleCommand_limits:
  "rt_limits (xw_rt w) \<Longrightarrow> rt_limits (xw_rt (snd (snd (ext_handleCommand action params (e, w)))))"
  by (cases e)
    (auto simp: Sandbox_handleCommand_def Sandbox_onStart_def Sandbox_onStop_def rt_limits_def int_member_def Let_def
      split: prod.splits option.splits)

text \<open>What the two operations of the extension interface keep of the world they act on, every
  operation of the registry keeps.\<close>

locale ext_invariant =
  fixes W :: "ext_world \<Rightarrow> bool"
  assumes onStart: "W w \<Longrightarrow> W (snd (ext_onStart cfg (e, w)))"
    and handleCommand: "W w \<Longrightarrow> W (snd (snd (ext_handleCommand action params (e, w))))"
begin

lemma routeCommand: "W w \<Longrightarrow> W (snd (snd (routeCommand name action params (reg, w))))"
  using handleCommand by (cases "om_find reg name") (auto simp: routeCommand_def case_prod_beta Let_def)

lemma start_one: "W (snd rw) \<Longrightarrow> W (snd (start_one x rw))"
  using onStart by (cases "om_find (fst rw) (fst x)") (auto simp: start_one_def case_prod_beta Let_def)

lemma startFromConfig: "W (snd rw) \<Longrightarrow> W (snd (startFromConfig cfg rw))"
proof -
  have "W (snd rw) \<Longrightarrow> W (snd (fold Extensions.start_one es rw))" for es
  proof (induction es arbitrary: rw)
    case (Cons x es)
    show ?case using Cons.IH [OF start_one [OF Cons.prems]] by simp
  qed simp
  then show "W (snd rw) \<Longrightarrow> ?thesis" by (simp add: startFromConfig_def)
qed

end

interpretation limits: ext_invariant "\<lambda>w. rt_limits (xw_rt w)"
  by unfold_locales (simp_all add: ext_onStart_limits ext_handleCommand_limits)

lemma with_extensions_rt:
  "co_rt (snd (with_extensions f c)) = xw_rt (snd (snd (f (co_extensions c, \<lparr>xw_rt = co_rt c, xw_ims = co_ims c\<rparr>))))"
  by (simp add: with_extensions_def split: prod.splits)

lemma EXT_limits: "rt_limits (co_rt c) \<Longrightarrow> rt_limits (co_rt (snd (EXT j c)))"
  unfolding EXT_def
  by (intro co_lift_cases [where P = "\<lambda>c. rt_limits (co_rt c)"])
    (simp_all add: case_prod_beta Let_def with_extensions_rt limits.routeCommand)

text \<open>The commands that do not touch the run-time configuration.\<close>

lemma on_link_rt [simp]: "co_rt (snd (on_link freq src dest f c)) = co_rt c"
  by (simp add: on_link_def case_prod_beta Let_def split: option.split)

lemma on_freq_rt [simp]: "co_rt (on_freq freq f c) = co_rt c"
  by (simp add: on_freq_def split: option.split)

lemma with_link_cases:
  assumes "P c" and "\<And>freq src dest. P (snd (f freq src dest c))"
  shows "P (snd (with_link j f c))"
  using assms by (auto simp: with_link_def co_then_def co_lift_def split: sum.split)

lemma link_commands_rt:
  "co_rt (snd (CHG_COEFF j c)) = co_rt c" "co_rt (snd (CHG_NOISE_MDL j c)) = co_rt c"
  "co_rt (snd (CHG_FREQ_OFFSET j c)) = co_rt c" "co_rt (snd (CHG_DOPPLER j c)) = co_rt c"
  "co_rt (snd (CHG_CIR j c)) = co_rt c"
  unfolding CHG_COEFF_def CHG_NOISE_MDL_def CHG_FREQ_OFFSET_def CHG_DOPPLER_def CHG_CIR_def
  by (intro with_link_cases [where P = "\<lambda>x. co_rt x = co_rt c"] co_lift_cases [where P = "\<lambda>x. co_rt x = co_rt c"];
      simp)+

lemma other_commands_rt:
  "co_rt (snd (CHG_ANTENNA env j c)) = co_rt c" "co_rt (snd (CHG_SOURCE_POWER j c)) = co_rt c"
  "co_rt (snd (CHG_PL j c)) = co_rt c" "co_rt (snd (SET_DEFAULT_PL j c)) = co_rt c"
  "co_rt (snd (UPD_SHADOW_STD j c)) = co_rt c" "co_rt (snd (GET_SHADOW_STD j c)) = co_rt c"
  "co_rt (snd (SAVE_CONFIG_FILE env j c)) = co_rt c"
  unfolding CHG_ANTENNA_def CHG_SOURCE_POWER_def CHG_PL_def SET_DEFAULT_PL_def UPD_SHADOW_STD_def GET_SHADOW_STD_def
    SAVE_CONFIG_FILE_def
  by (simp_all add: co_then_def co_lift_def change_antenna_def Coordinator_setPathLossMode_def Coordinator_setShadowingSTD_def
      case_prod_beta Let_def split: sum.split option.split)

lemma command_limits:
  assumes "rt_limits (co_rt c)"
  shows "rt_limits (co_rt (snd (Coordinator_requestHandler env req c)))"
proof -
  have "rt_limits (co_rt (snd (f c)))" if "map_of (commands env j) s = Some f" for f j s
    using map_of_SomeD [OF that] assms
    by (auto simp: commands_def SET_CONFIG_def Let_def set_config_limits EXT_limits link_commands_rt other_commands_rt)
  then show ?thesis using assms
    by (auto simp: Coordinator_requestHandler_def split: option.split json.splits)
qed

lemma boot_limits:
  assumes "cfg_limits cfg"
  shows "rt_limits (co_rt (boot b cfg ctl))"
proof -
  have "rt_limits (boot_runtime s cfg)" for s
    using assms by (simp add: boot_runtime_def rt_limits_def cfg_limits_def RuntimeConfig_init_def CH_UPD_RATE_def)
  then show ?thesis
    by (simp add: boot_def boot_sandbox_def Let_def with_extensions_rt limits.routeCommand limits.startFromConfig)
qed

lemma sionna_turn_rt: "sionna_turn srv ph lg ms c = Some c' \<Longrightarrow> co_rt c' = co_rt c"
  by (auto simp: sionna_turn_def split: option.splits extension.splits if_splits)

text \<open>C16. Whatever the configuration file says and whatever requests and commands arrive, in any order,
  the run-time values stay inside their limits: the poll interval between 20 ms and a minute, the
  update interval between 1 ms and a minute, at most 8192 taps, the sandbox interval at least 50 ms.\<close>

theorem runtime_values_bounded:
  assumes "sys_reach c"
  shows "20 \<le> rc_vehicle_poll_rate_ms (co_rt c) \<and> rc_vehicle_poll_rate_ms (co_rt c) \<le> 60000 \<and>
    1 \<le> rc_channel_update_rate_ms (co_rt c) \<and> rc_channel_update_rate_ms (co_rt c) \<le> 60000 \<and>
    0 \<le> rc_cir_max_taps (co_rt c) \<and> rc_cir_max_taps (co_rt c) \<le> 8192 \<and> 50 \<le> rc_sandbox_update_rate_ms (co_rt c)"
  using assms unfolding rt_limits_def [symmetric]
proof (induction rule: sys_reach.induct)
  case start
  then show ?case by (metis boot_limits Config_read_limits Config_new_limits)
next
  case (command c cenv req)
  then show ?case by (simp add: command_limits)
next
  case (sionna c srv ph lg ms c')
  then show ?case by (simp add: sionna_turn_rt [OF sionna.hyps(2)])
qed (simp_all add: node_request_def timeout_pass_def configChannels_def)

text \<open>A start in sandbox mode with a configuration file that sets nothing.\<close>

definition sandbox_config :: Config where
  "sandbox_config = Config_new\<lparr>cf_path := ''chem.json'', cf_configuration := JObj [(''controllerIpAddress'', JNull)]\<rparr>"

definition sandbox_start :: Coordinator where
  "sandbox_start = boot True sandbox_config (Controller_new [] [] None (\<lambda>_. example_receiver) (\<lambda>_. example_transmitter) 0 False 1)"

lemma sandbox_start_reach: "sys_reach sandbox_start"
  unfolding sandbox_start_def
  by (rule sys_reach.start [of "''chem.json''" "Some JNull" False])
    (simp add: Config_read_def read_fields_def cfg_assign_def sandbox_config_def)

lemma sandbox_boot: "rc_sandbox_enabled (co_rt (boot True sandbox_config ctl))" "co_ctl (boot True sandbox_config ctl) = ctl"
  by (simp_all add: boot_def boot_sandbox_def boot_runtime_def Let_def Coordinator_new_def sandbox_config_def Config_new_def
      with_extensions_def startFromConfig_def routeCommand_def registerExtension_def om_find_def om_insert_def
      Sandbox_handleCommand_def Sandbox_onStart_def SandboxExtension_new_def co_map_ims_def co_map_ctl_def case_prod_beta)

lemma sandbox_start_state: "rc_sandbox_enabled (co_rt sandbox_start)" "ct_nodeMap (co_ctl sandbox_start) = []"
  "ct_intermediateMap (co_ctl sandbox_start) = []" "ct_propagationDefaults (co_ctl sandbox_start) = None"
  by (simp_all add: sandbox_start_def sandbox_boot Controller_new_def Let_def)

theorem runtime_values_bounded_witness:
  "\<forall>env. rc_cir_max_taps (co_rt (snd (Coordinator_requestHandler env
     (Some (JObj [(''CMD'', JStr ''SET_CONFIG''), (''cirMaxTaps'', JInt 100000)])) sandbox_start))) \<le> 8192"
  using runtime_values_bounded [OF sys_reach.command [OF sandbox_start_reach]] by blast

end
