(* ===== verification/Link_Invariants.thy ===== *)
theory Link_Invariants
  imports Chem_System
begin

text \<open>
  What the system keeps of the links without processing signals. A property of a link that holds
  of new links and survives the setters holds of every link of the system. It is used for the
  recorded path loss, which only \<open>processChannel\<close> writes: in sandbox mode no signal is processed,
  so the loss reported to the middleman is the initial one.
\<close>

section \<open>Changes of a link\<close>

text \<open>A link after any number of calls of its setters.\<close>

inductive link_edit :: "Channel \<Rightarrow> Channel \<Rightarrow> bool" where
  same: "link_edit c c"
| distance: "link_edit c c' \<Longrightarrow> link_edit c (ch_updateDistance d c')"
| altitude: "link_edit c c' \<Longrightarrow> link_edit c (ch_updateAltitude a c')"
| elevation: "link_edit c c' \<Longrightarrow> link_edit c (ch_updateElevation e c')"
| azimuth: "link_edit c c' \<Longrightarrow> link_edit c (ch_updateAzimuth z c')"
| heights: "link_edit c c' \<Longrightarrow> link_edit c (updateHeights t r c')"
| noise: "link_edit c c' \<Longrightarrow> link_edit c (updateNoiseType n c')"
| pl_type: "link_edit c c' \<Longrightarrow> link_edit c (updatePlType p c')"
| scenario: "link_edit c c' \<Longrightarrow> link_edit c (update3gppScenario s c')"
| hata: "link_edit c c' \<Longrightarrow> link_edit c (updateHataEnvironment s c')"
| itm: "link_edit c c' \<Longrightarrow> link_edit c (updateITMParams n s e q c')"
| shadowing: "link_edit c c' \<Longrightarrow> link_edit c (ch_setShadowingSTD sd c')"
| active: "link_edit c c' \<Longrightarrow> link_edit c (setActiveExtension n b c')"
| inactive: "link_edit c c' \<Longrightarrow> link_edit c (clearActiveExtension c')"
| snr: "link_edit c c' \<Longrightarrow> link_edit c (updateSNR v c')"
| no_snr: "link_edit c c' \<Longrightarrow> link_edit c (clearSNROverride c')"
| coeff: "link_edit c c' \<Longrightarrow> link_edit c (updateChCoeff k v c')"
| taps: "link_edit c c' \<Longrightarrow> link_edit c (updateChTaps k ts c')"
| no_taps: "link_edit c c' \<Longrightarrow> link_edit c (clearChTaps k c')"
| offset: "link_edit c c' \<Longrightarrow> link_edit c (setFrequencyOffsetHz f c')"
| doppler: "link_edit c c' \<Longrightarrow> link_edit c (setDopplerEnabled b c')"
| doppler_hz: "link_edit c c' \<Longrightarrow> link_edit c (setDopplerHz f c')"

lemma link_edit_trans: "link_edit b c \<Longrightarrow> link_edit a b \<Longrightarrow> link_edit a c"
  by (induction rule: link_edit.induct) (auto intro: link_edit.intros)

lemma link_edit_config: "link_edit ch (config_link nodes carrier ch)"
  by (auto simp: config_link_def update_link_def Let_def intro!: link_edit.intros split: option.split)

lemma new_link_edit: "link_edit (Channel_new s d a b) (new_link s d a b im)"
  unfolding new_link_def by (intro link_edit.intros)

section \<open>Channels\<close>

definition im_links :: "(Channel \<Rightarrow> bool) \<Rightarrow> Intermediate \<Rightarrow> bool" where
  "im_links L im \<longleftrightarrow> (\<forall>e \<in> set (im_channelMap im). L (snd e))"

definition links :: "(Channel \<Rightarrow> bool) \<Rightarrow> (real, Intermediate) omap \<Rightarrow> bool" where
  "links L ims \<longleftrightarrow> (\<forall>e \<in> set ims. im_links L (snd e))"

lemma om_find_mem: "om_find m k = Some v \<Longrightarrow> (k, v) \<in> set m"
  by (simp add: om_find_def map_of_SomeD)

lemma om_set_subset: "set (om_set k v m) \<subseteq> insert (k, v) (set m)"
  by (induction k v m rule: om_set.induct) auto

lemma om_insert_subset: "set (om_insert k v m) \<subseteq> insert (k, v) (set m)"
  using om_set_subset [of k v m] by (auto simp: om_insert_def)

lemma links_Nil [simp]: "links L []"
  by (simp add: links_def)

lemma links_set: "links L ims \<Longrightarrow> im_links L im \<Longrightarrow> links L (om_set f im ims)"
  using om_set_subset [of f im ims] by (fastforce simp: links_def)

lemma links_insert: "links L ims \<Longrightarrow> im_links L im \<Longrightarrow> links L (om_insert f im ims)"
  using om_insert_subset [of f im ims] by (fastforce simp: links_def)

lemma links_erase: "links L ims \<Longrightarrow> links L (om_erase f ims)"
  by (auto simp: links_def om_erase_def)

lemma links_filter: "links L ims \<Longrightarrow> links L (om_filter p ims)"
  by (auto simp: links_def om_filter_def)

lemma links_map: "links L ims \<Longrightarrow> (\<And>f im. im_links L im \<Longrightarrow> im_links L (g f im)) \<Longrightarrow> links L (map (\<lambda>(f, im). (f, g f im)) ims)"
  by (fastforce simp: links_def)

lemma links_find: "links L ims \<Longrightarrow> om_find ims f = Some im \<Longrightarrow> im_links L im"
  by (fastforce simp: links_def dest: om_find_mem)

locale link_invariant =
  fixes L :: "Channel \<Rightarrow> bool"
  assumes new: "L (Channel_new s d a b)"
    and edit: "link_edit c c' \<Longrightarrow> L c \<Longrightarrow> L c'"
begin

lemma im_frame: "im_channelMap im' = im_channelMap im \<Longrightarrow> im_links L im' = im_links L im"
  by (simp add: im_links_def)

lemma for_channels: "(\<And>c. link_edit c (f c)) \<Longrightarrow> im_links L im \<Longrightarrow> im_links L (for_channels f im)"
  using edit by (fastforce simp: im_links_def for_channels_def om_map_values_def)

lemma on_channel: "(\<And>c. link_edit c (f c)) \<Longrightarrow> im_links L im \<Longrightarrow> im_links L (snd (on_channel f s d im))"
proof -
  assume f: "\<And>c. link_edit c (f c)" and im: "im_links L im"
  show "im_links L (snd (on_channel f s d im))"
  proof (cases "om_find (im_channelMap im) (s, d)")
    case (Some c)
    then have "L c" using im by (fastforce simp: im_links_def dest: om_find_mem)
    with f edit have "L (f c)" by blast
    then show ?thesis using im om_set_subset [of "(s, d)" "f c" "im_channelMap im"] Some
      by (fastforce simp: on_channel_def im_links_def)
  qed (use im in \<open>simp add: on_channel_def\<close>)
qed

lemma insertChannelIfMissing: "im_links L im \<Longrightarrow> im_links L (insertChannelIfMissing s d a b im)"
  using om_insert_subset [of "(s, d)" "new_link s d a b im" "im_channelMap im"] edit [OF new_link_edit new]
  by (fastforce simp: insertChannelIfMissing_def im_links_def)

lemma updateChannelMap: "im_links L im \<Longrightarrow> im_links L (updateChannelMap h im)"
proof -
  have "im_links L im \<Longrightarrow> im_links L (fold (\<lambda>(s, d, dn, sn). Intermediate_Channel.insertChannelIfMissing s d dn sn) ws im)" for ws
    by (induction ws arbitrary: im) (auto simp: insertChannelIfMissing)
  then show "im_links L im \<Longrightarrow> ?thesis" by (simp add: updateChannelMap_def)
qed

lemma removeChannel: "im_links L im \<Longrightarrow> im_links L (removeChannel n im)"
  by (auto simp: im_links_def removeChannel_def om_filter_def)

lemma bumps [simp]:
  "im_links L (bumpVersion im) = im_links L im" "im_links L (EmptyChannelChecker im) = im_links L im"
  "im_links L (im\<lparr>im_sourceMap := a\<rparr>) = im_links L im" "im_links L (im\<lparr>im_destinationMap := a\<rparr>) = im_links L im"
  "im_links L (im\<lparr>im_destCount := k\<rparr>) = im_links L im" "im_links L (im\<lparr>im_workers := w\<rparr>) = im_links L im"
  "im_links L (im\<lparr>im_sandboxNodes := n\<rparr>) = im_links L im" "im_links L (im\<lparr>im_sandboxNumChannels := m\<rparr>) = im_links L im"
  by (simp_all add: im_links_def bumpVersion_def EmptyChannelChecker_def)

lemma AttachDestination: "AttachDestination h t im = Some im' \<Longrightarrow> im_links L im \<Longrightarrow> im_links L im'"
  by (auto simp: AttachDestination_def printStatus_def Let_def updateChannelMap split: if_splits)

lemma AttachSource: "AttachSource h r im = Some (h', im') \<Longrightarrow> im_links L im \<Longrightarrow> im_links L im'"
  by (auto simp: AttachSource_def printStatus_def Let_def updateChannelMap split: if_splits)

lemma DetachDestination: "im_links L im \<Longrightarrow> im_links L (snd (snd (DetachDestination h t im)))"
  by (auto simp: DetachDestination_def Let_def removeChannel)

lemma DetachSource: "DetachSource h r im = Some (b, h', im') \<Longrightarrow> im_links L im \<Longrightarrow> im_links L im'"
  by (auto simp: DetachSource_def Let_def removeChannel split: if_splits option.splits bind_splits)

lemma addSandboxNode: "im_links L im \<Longrightarrow> im_links L (addSandboxNode h n k im)"
  by (simp add: addSandboxNode_def updateChannelMap)

lemma removeSandboxNode: "im_links L im \<Longrightarrow> im_links L (removeSandboxNode n im)"
  by (simp add: removeSandboxNode_def removeChannel)

text \<open>Parameter changes of a whole channel.\<close>

lemma params:
  assumes "im_links L im"
  shows "im_links L (updatePathLoss m g im)" "im_links L (updatePathLoss_str s g im)" "im_links L (set3gppScenario s im)"
    "im_links L (setHataEnvironment s im)" "im_links L (setITMParams n c e z im)" "im_links L (setShadowingSTD v im)"
proof -
  have f: "im_links L (im\<lparr>im_propagationModel := a\<rparr>)" "im_links L (im\<lparr>im_3gppScenario := b\<rparr>)" "im_links L (im\<lparr>im_hataEnvironment := b\<rparr>)"
    "im_links L (im\<lparr>im_itmRefractivity := n, im_itmGroundConductivity := c, im_itmGroundPermittivity := e, im_itmClimateZone := d\<rparr>)" for a b d
    using assms by (simp_all add: im_links_def)
  show u: "im_links L (updatePathLoss m g im)" for m
    unfolding updatePathLoss_def setPathLossMode_def
    by (subst im_frame) (auto intro!: for_channels link_edit.intros f)
  show "im_links L (updatePathLoss_str s g im)" by (simp add: updatePathLoss_str_def u)
  show "im_links L (set3gppScenario s im)" "im_links L (setHataEnvironment s im)" "im_links L (setITMParams n c e z im)"
    "im_links L (setShadowingSTD v im)"
    unfolding set3gppScenario_def setHataEnvironment_def setITMParams_def setShadowingSTD_def
    using assms by (auto intro!: for_channels link_edit.intros f)
qed

lemma apply_defaults: "im_links L im \<Longrightarrow> im_links L (apply_defaults pd im)"
  by (simp add: apply_defaults_def params Let_def split: option.split)

end

section \<open>The controller\<close>

definition ct_links :: "(Channel \<Rightarrow> bool) \<Rightarrow> Controller \<Rightarrow> bool" where
  "ct_links L c \<longleftrightarrow> links L (ct_intermediateMap c)"

lemma ct_then_links:
  assumes "ct_links L (snd r)" and "\<And>x c. ct_links L c \<Longrightarrow> ct_links L (snd (f x c))"
  shows "ct_links L (snd (ct_then r f))"
  using assms by (cases r; cases "fst r") (auto simp: ct_then_def)

lemma ct_links_frame [simp]:
  "ct_links L (db_exec s c) = ct_links L c" "ct_links L (on_node i f c) = ct_links L c"
  "ct_links L (on_config i g c) = ct_links L c" "ct_links L (on_rx r u c) = ct_links L c" "ct_links L (on_tx r v c) = ct_links L c"
  "ct_links L (RestoreTXPort ip c) = ct_links L c" "ct_links L (drop_vehicle n c) = ct_links L c"
  "ct_links L (snd (AssignTXPort c)) = ct_links L c" "ct_links L (snd (AssignRXPort c)) = ct_links L c"
  "ct_links L (snd (ct_crash o' c)) = ct_links L c" "ct_links L (snd (ct_lift x c)) = ct_links L c"
  "ct_links L (c\<lparr>ct_nodeMap := nm\<rparr>) = ct_links L c" "ct_links L (c\<lparr>ct_vehicleHandlers := vh\<rparr>) = ct_links L c"
  "ct_links L (c\<lparr>ct_heap := h\<rparr>) = ct_links L c" "ct_links L (c\<lparr>ct_numChannels := k\<rparr>) = ct_links L c"
  by (simp_all add: ct_links_def db_exec_def on_node_def on_config_def on_rx_def on_tx_def RestoreTXPort_def drop_vehicle_def
      AssignTXPort_def AssignRXPort_def ct_crash_def ct_lift_def split: option.split sum.split)

lemma AddNode_links: "ct_links L c \<Longrightarrow> ct_links L (snd (AddNode i c))"
  unfolding AddNode_def by (auto intro!: ct_then_links)

lemma ct_links_nodes:
  assumes "ct_links L c"
  shows "ct_links L (snd (GetOrCreateNode n c))" "ct_links L (snd (CreateReceiver env i c))" "ct_links L (snd (CreateTransmitter i c))"
proof -
  show "ct_links L (snd (GetOrCreateNode n c))"
    using assms by (auto simp: GetOrCreateNode_def Let_def intro!: ct_then_links AddNode_links)
  show "ct_links L (snd (CreateReceiver env i c))" "ct_links L (snd (CreateTransmitter i c))"
    unfolding CreateReceiver_def CreateTransmitter_def using assms
    by (auto simp: Let_def case_prod_beta intro!: ct_then_links)
qed

lemma ct_links_endpoint:
  assumes "ct_links L c"
  shows "ct_links L (snd (node_receiver env i c))" "ct_links L (snd (node_transmitter env i c))"
  unfolding node_receiver_def node_transmitter_def using assms
  by (auto intro!: ct_then_links ct_links_nodes split: option.split)

context link_invariant
begin

lemma on_channel_at:
  assumes "ct_links L c" and "\<And>h im h' im'. f h im = Some (h', im') \<Longrightarrow> im_links L im \<Longrightarrow> im_links L im'"
  shows "ct_links L (snd (on_channel_at freq f c))"
proof (cases "om_find (ct_intermediateMap c) freq")
  case (Some im)
  then have im: "im_links L im" using assms(1) links_find by (auto simp: ct_links_def)
  show ?thesis
  proof (cases "f (ct_heap c) im")
    case (Some x)
    obtain h' im' where "x = (h', im')" by fastforce
    then show ?thesis using assms im \<open>om_find _ _ = Some im\<close> Some
      by (auto simp: on_channel_at_def ct_links_def intro: links_set)
  qed (use assms \<open>om_find _ _ = Some im\<close> in \<open>simp add: on_channel_at_def\<close>)
qed (use assms in \<open>simp add: on_channel_at_def\<close>)

lemma isChannelEmpty: "ct_links L c \<Longrightarrow> ct_links L (isChannelEmpty f c)"
  by (simp add: isChannelEmpty_def ct_links_def db_exec_def links_erase split: option.split)

lemma CreateChannel: "ct_links L c \<Longrightarrow> ct_links L (CreateChannel f r c)"
proof -
  have "im_links L (Controller.apply_defaults pd (Intermediate_new f 10))" for pd
    by (rule apply_defaults) (simp add: im_links_def Intermediate_new_def)
  then show "ct_links L c \<Longrightarrow> ?thesis"
    by (simp add: CreateChannel_def ct_links_def db_exec_def Let_def links_insert)
qed

lemma endpoints:
  "release_src env i r h im = Some (h', im') \<Longrightarrow> im_links L im \<Longrightarrow> im_links L im'"
  "release_dest env i t h im = Some (h', im') \<Longrightarrow> im_links L im \<Longrightarrow> im_links L im'"
  "attach_src env i k r h im = Some (h', im') \<Longrightarrow> im_links L im \<Longrightarrow> im_links L im'"
  "attach_dest env i k t h im = Some (h', im') \<Longrightarrow> im_links L im \<Longrightarrow> im_links L im'"
  using DetachSource [of h r im] DetachDestination [of im h t] AttachSource [of h r im] AttachDestination [of h t im]
  by (auto simp: release_src_def release_dest_def attach_src_def attach_dest_def addSandboxNode removeSandboxNode split: if_splits)

lemma leave_channel:
  assumes "ct_links L c" and "\<And>h im h' im'. f h im = Some (h', im') \<Longrightarrow> im_links L im \<Longrightarrow> im_links L im'"
  shows "ct_links L (snd (leave_channel prev f b c))"
  unfolding leave_channel_def using assms by (auto intro!: ct_then_links on_channel_at isChannelEmpty)

lemma attach_at:
  "ct_links L c \<Longrightarrow> ct_links L (snd (on_channel_at f (attach_src env i k r) c))"
  "ct_links L c \<Longrightarrow> ct_links L (snd (on_channel_at f (attach_dest env i k r) c))"
  by (rule on_channel_at, assumption, erule endpoints, assumption)+

lemma leave_at:
  "ct_links L c \<Longrightarrow> ct_links L (snd (leave_channel f (release_src env i r) b c))"
  "ct_links L c \<Longrightarrow> ct_links L (snd (leave_channel f (release_dest env i r) b c))"
  by (rule leave_channel, assumption, erule endpoints, assumption)+

lemma join:
  assumes "ct_links L c"
  shows "ct_links L (snd (join_UL env i nc r c))" "ct_links L (snd (join_DL env i nc r c))"
  unfolding join_UL_def join_DL_def Let_def using assms by (auto intro!: ct_then_links attach_at)

lemma retune:
  assumes "ct_links L c"
  shows "ct_links L (snd (retune_UL env i nc r f b c))" "ct_links L (snd (retune_DL env i nc r f b c))"
  unfolding retune_UL_def retune_DL_def Let_def using assms by (auto intro!: ct_then_links leave_at join)

lemma assign:
  assumes "ct_links L c"
  shows "ct_links L (snd (AssignULChannel env i nc c))" "ct_links L (snd (AssignDLChannel env i nc c))"
  unfolding AssignULChannel_def AssignDLChannel_def Let_def using assms
  by (auto intro!: ct_then_links ct_links_endpoint retune CreateChannel)

lemma ct_each: "(\<And>x c. ct_links L c \<Longrightarrow> ct_links L (snd (f x c))) \<Longrightarrow> ct_links L c \<Longrightarrow> ct_links L (snd (ct_each f xs c))"
  by (induction xs arbitrary: c) (auto intro!: ct_then_links)

lemma detach_node: "ct_links L c \<Longrightarrow> ct_links L (snd (detach_node n c))"
proof -
  have "ct_links L c \<Longrightarrow> ct_links L (snd (detach_dest_at t f c))" "ct_links L c \<Longrightarrow> ct_links L (snd (detach_src_at r f c))" for t r f c
    unfolding detach_dest_at_def detach_src_at_def
    using DetachDestination DetachSource by (auto intro!: on_channel_at) (metis snd_conv)
  then show "ct_links L c \<Longrightarrow> ?thesis"
    unfolding detach_node_def by (auto intro!: ct_then_links ct_each split: option.split)
qed

lemma remove_empty: "ct_links L c \<Longrightarrow> ct_links L (remove_empty c)"
  by (simp add: remove_empty_def ct_links_def links_filter Let_def)

lemma disconnect: "ct_links L c \<Longrightarrow> ct_links L (snd (disconnect i n c))"
  unfolding disconnect_def Let_def by (auto intro!: ct_then_links detach_node remove_empty)

lemma timeouts: "ct_links L c \<Longrightarrow> ct_links L (snd (CheckTimeouts_pass now c))"
  unfolding CheckTimeouts_pass_def
  by (rule ct_each) (auto simp: timeout_node_def Let_def intro!: ct_then_links detach_node remove_empty split: option.split)

lemma configure: "ct_links L c \<Longrightarrow> ct_links L (snd (configure env j c))"
  unfolding configure_def serve_def Let_def case_prod_beta
  by (auto intro!: ct_then_links ct_links_nodes assign AddNode_links)

lemma heartbeat_request: "ct_links L c \<Longrightarrow> ct_links L (snd (heartbeat_request env j c))"
  unfolding heartbeat_request_def by (rule ct_then_links) auto

lemma disconnect_request: "ct_links L c \<Longrightarrow> ct_links L (snd (disconnect_request j c))"
  unfolding disconnect_request_def
  by (rule ct_then_links) (auto intro!: ct_then_links disconnect split: option.split)

lemma requestHandler: "ct_links L c \<Longrightarrow> ct_links L (snd (requestHandler env req c))"
proof (cases req)
  case (Some j)
  then show "ct_links L c \<Longrightarrow> ?thesis" unfolding requestHandler_def
    by (auto intro!: ct_then_links) (simp_all add: heartbeat_request disconnect_request configure)
qed (simp add: requestHandler_def)

end

section \<open>Extensions and commands\<close>

sublocale link_invariant \<subseteq> ext: ext_invariant "\<lambda>w. links L (xw_ims w)"
proof
  have clear: "links L (clearExtensionFlags ims)" if "links L ims" for ims
    unfolding clearExtensionFlags_def om_map_values_def
    by (rule links_map [OF that], rule for_channels) (auto intro: link_edit.intros)
  fix w :: ext_world and cfg e action params
  assume w: "links L (xw_ims w)"
  show "links L (xw_ims (snd (ext_onStart cfg (e, w))))" using w by (cases e) (simp_all add: case_prod_beta Let_def)
  show "links L (xw_ims (snd (snd (ext_handleCommand action params (e, w)))))"
    using w clear by (cases e) (auto simp: case_prod_beta Let_def Sionna_handleCommand_def Sionna_onStop_def)
qed

lemma with_extensions_ims:
  "co_ims (snd (with_extensions f c)) = xw_ims (snd (snd (f (co_extensions c, \<lparr>xw_rt = co_rt c, xw_ims = co_ims c\<rparr>))))"
  by (simp add: with_extensions_def split: prod.splits)

definition co_links :: "(Channel \<Rightarrow> bool) \<Rightarrow> Coordinator \<Rightarrow> bool" where
  "co_links L c \<longleftrightarrow> links L (co_ims c)"

lemma co_lift_links:
  assumes "co_links L c" and "\<And>x. co_links L (snd (f x c))"
  shows "co_links L (snd (co_then (r, c) f))"
  using assms by (cases r) auto

lemma with_link_links:
  assumes "co_links L c" and "\<And>freq src dest. co_links L (snd (f freq src dest c))"
  shows "co_links L (snd (with_link j f c))"
  unfolding with_link_def co_then_simps using assms by (intro co_lift_links)

context link_invariant
begin

lemma on_link:
  assumes "co_links L c" and "\<And>s d im. im_links L im \<Longrightarrow> im_links L (snd (f s d im))"
  shows "co_links L (snd (on_link freq src dest f c))"
  using assms links_find [of L "co_ims c" freq]
  by (auto simp: on_link_def co_links_def case_prod_beta Let_def intro!: links_set split: option.split)

lemma on_freq:
  assumes "co_links L c" and "\<And>im. im_links L im \<Longrightarrow> im_links L (f im)"
  shows "co_links L (on_freq freq f c)"
  using assms links_find [of L "co_ims c" freq]
  by (auto simp: on_freq_def co_links_def intro!: links_set split: option.split)

lemma setters:
  assumes "im_links L im"
  shows "im_links L (snd (updateChannelCoeff s d k v im))" "im_links L (snd (updateAWGN s d b x im))"
    "im_links L (snd (updateFrequencyOffset s d f im))" "im_links L (snd (updateDopplerEnabled s d b im))"
    "im_links L (snd (updateCIR s d k ts im))"
  unfolding updateChannelCoeff_def updateAWGN_def updateFrequencyOffset_def updateDopplerEnabled_def updateCIR_def
  using assms by (auto intro!: on_channel link_edit.intros)

lemma link_commands:
  assumes "co_links L c"
  shows "co_links L (snd (CHG_COEFF j c))" "co_links L (snd (CHG_NOISE_MDL j c))" "co_links L (snd (CHG_FREQ_OFFSET j c))"
    "co_links L (snd (CHG_DOPPLER j c))" "co_links L (snd (CHG_CIR j c))"
  unfolding CHG_COEFF_def CHG_NOISE_MDL_def CHG_FREQ_OFFSET_def CHG_DOPPLER_def CHG_CIR_def
  using assms by (auto intro!: with_link_links co_lift_links on_link setters)

lemma model_params: "im_links L im \<Longrightarrow> im_links L (model_params m j im)"
  by (simp add: model_params_def params)

lemma setPathLossMode: "co_links L c \<Longrightarrow> co_links L (snd (Coordinator_setPathLossMode freq m g s c))"
  by (auto simp: Coordinator_setPathLossMode_def Let_def intro!: on_freq params)

lemma CHG_PL: "co_links L c \<Longrightarrow> co_links L (snd (CHG_PL j c))"
  unfolding CHG_PL_def case_prod_beta Let_def
  by (auto intro!: co_lift_links on_freq model_params setPathLossMode)

lemma SET_DEFAULT_PL: "co_links L c \<Longrightarrow> co_links L (snd (SET_DEFAULT_PL j c))"
proof -
  have "links L ims \<Longrightarrow> links L (om_map_values (apply_default_pl p j) ims)" for p ims
    unfolding om_map_values_def
    by (rule links_map) (auto simp: apply_default_pl_def Let_def intro!: model_params params)
  then show "co_links L c \<Longrightarrow> ?thesis"
    by (simp add: SET_DEFAULT_PL_def Let_def co_links_def co_then_def split: sum.split)
qed

lemma shadow: "co_links L c \<Longrightarrow> co_links L (snd (UPD_SHADOW_STD j c))"
proof -
  have "links L ims \<Longrightarrow> links L (om_map_values (Intermediate_Channel.setShadowingSTD v) ims)" for v ims
    unfolding om_map_values_def by (rule links_map) (auto intro: params)
  then have "co_links L c \<Longrightarrow> co_links L (Coordinator_setShadowingSTD (c\<lparr>co_shadow_std := v\<rparr>))" for v
    by (simp add: Coordinator_setShadowingSTD_def co_links_def)
  moreover have "co_links L (c\<lparr>co_shadow_std_by_freq := m\<rparr>) = co_links L c" for m c by (simp add: co_links_def)
  ultimately show "co_links L c \<Longrightarrow> ?thesis"
    unfolding UPD_SHADOW_STD_def co_then_simps by (auto intro!: co_lift_links on_freq params)
qed

lemma EXT: "co_links L c \<Longrightarrow> co_links L (snd (EXT j c))"
  by (simp add: EXT_def case_prod_beta Let_def co_links_def with_extensions_ims ext.routeCommand co_then_def split: sum.split)

lemma other_commands:
  assumes "co_links L c"
  shows "co_links L (snd (CHG_ANTENNA env j c))" "co_links L (snd (CHG_SOURCE_POWER j c))"
    "co_links L (snd (SAVE_CONFIG_FILE env j c))" "co_links L (snd (GET_SHADOW_STD j c))" "co_links L (snd (SET_CONFIG j c))"
  unfolding CHG_ANTENNA_def CHG_SOURCE_POWER_def SAVE_CONFIG_FILE_def GET_SHADOW_STD_def SET_CONFIG_def
  using assms
  by (auto simp: co_links_def co_then_def co_lift_def change_antenna_def db_exec_def case_prod_beta Let_def
      split: sum.split option.split)

lemma command:
  assumes "co_links L c"
  shows "co_links L (snd (Coordinator_requestHandler env req c))"
proof -
  have "co_links L (snd (f c))" if "map_of (commands env j) s = Some f" for f j s
    using map_of_SomeD [OF that] assms
    by (auto simp: commands_def EXT CHG_PL SET_DEFAULT_PL shadow link_commands other_commands)
  then show ?thesis using assms
    by (auto simp: Coordinator_requestHandler_def split: option.split json.splits)
qed

lemma update: "co_links L c \<Longrightarrow> co_links L (configChannels c)"
  unfolding configChannels_def co_links_def co_map_simps
  by (rule links_map) (auto intro: for_channels link_edit_config)

lemma boot: "links L (ct_intermediateMap ctl) \<Longrightarrow> co_links L (boot b cfg ctl)"
  by (simp add: boot_def boot_sandbox_def Let_def co_links_def with_extensions_ims ext.routeCommand ext.startFromConfig
      Coordinator_new_def)

lemma install_link: "im_links L im \<Longrightarrow> im_links L (install_link s d taps im)"
  by (auto simp: install_link_def case_prod_beta Let_def intro!: on_channel link_edit.intros setters)

lemma apply_pair: "apply_pair rt nodes x r p ims = Inr ims' \<Longrightarrow> links L ims \<Longrightarrow> links L ims'"
  by (cases p) (auto simp: apply_pair_def apply_paths_def om_map_values_def intro!: links_map install_link
      split: option.splits if_splits sum.splits ct_error.splits)

lemma installCIR: "installCIR rt nodes x r ims = Inr ims' \<Longrightarrow> links L ims \<Longrightarrow> links L ims'"
proof -
  have "try_fold (Sionna_Sync.apply_pair rt nodes x r) ps ims = Inr ims' \<Longrightarrow> links L ims \<Longrightarrow> links L ims'" for ps
    by (induction ps arbitrary: ims) (auto simp: jbind_def dest: apply_pair split: sum.splits)
  then show "installCIR rt nodes x r ims = Inr ims' \<Longrightarrow> links L ims \<Longrightarrow> ?thesis" by (simp add: installCIR_def)
qed

lemma computeAndApplyCIR: "links L (ss_ims s) \<Longrightarrow> links L (ss_ims (snd (computeAndApplyCIR srv rt nodes ms s)))"
  by (auto simp: computeAndApplyCIR_def Let_def intro: installCIR split: prod.split option.split sum.split)

lemma poll_step:
  assumes "poll_step srv rt nodes ms (ph, s) = Some (ph', s')" and "links L (ss_ims s)"
  shows "links L (ss_ims s')"
proof (cases ph)
  case Polling
  then obtain r where r: "poll_round srv rt nodes ms s = Some s'" using assms(1) by (auto simp: poll_step_def)
  obtain x lg where "syncPositions srv nodes (ss_ext s, ss_log s) = (x, lg)" by fastforce
  then show ?thesis
    using r assms(2) computeAndApplyCIR [of "s\<lparr>ss_ext := x, ss_log := lg\<rparr>" srv rt nodes ms]
    by (auto simp: poll_round_def split: prod.splits option.splits ct_error.splits)
qed (use assms in \<open>auto simp: poll_step_def split: prod.splits if_splits\<close>)

lemma sionna_turn: "sionna_turn srv ph lg ms c = Some c' \<Longrightarrow> co_links L c \<Longrightarrow> co_links L c'"
  by (auto simp: sionna_turn_def co_links_def dest: poll_step split: option.splits extension.splits if_splits)

lemma reach: "sys_reach c \<Longrightarrow> co_links L c"
proof (induction rule: sys_reach.induct)
  case start
  show ?case by (rule boot) (simp add: Controller_new_def Let_def)
next
  case (node c env req)
  then show ?case using requestHandler by (simp add: node_request_def co_links_def ct_links_def)
next
  case (timeout c now)
  then show ?case using timeouts by (simp add: timeout_pass_def co_links_def ct_links_def)
next
  case (sionna c srv ph lg ms c')
  then show ?case using sionna_turn by blast
qed (simp_all add: command update)

end

section \<open>Interpretations\<close>

lemmas link_setter_defs = ch_updateDistance_def ch_updateAltitude_def ch_updateElevation_def ch_updateAzimuth_def
  updateHeights_def updateNoiseType_def updatePlType_def update3gppScenario_def updateHataEnvironment_def
  updateITMParams_def ch_setShadowingSTD_def setActiveExtension_def clearActiveExtension_def updateSNR_def clearSNROverride_def
  updateChCoeff_def updateChTaps_def clearChTaps_def setFrequencyOffsetHz_def setDopplerEnabled_def setDopplerHz_def

interpretation zero_loss: link_invariant "\<lambda>c. ch_plDb c = Fin 0"
proof
  show "link_edit c c' \<Longrightarrow> ch_plDb c = Fin 0 \<Longrightarrow> ch_plDb c' = Fin 0" for c c'
    by (induction rule: link_edit.induct) (simp_all add: link_setter_defs split: option.split)
qed (simp add: Channel_new_def)

text \<open>The shape of a link: a phase for every transmit port, a coefficient for exactly the pairs of
  ports, finite heights and ground parameters, a climate zone of the Longley-Rice model.\<close>

definition link_typed :: "Channel \<Rightarrow> bool" where
  "link_typed c \<longleftrightarrow> length (ch_freqOffsetPhase c) = unat (ch_txNumCh c) \<and>
     (\<forall>k. om_find (ch_portChCoeffs c) k \<noteq> None \<longleftrightarrow> unat (fst k) < unat (ch_txNumCh c) \<and> unat (snd k) < unat (ch_rxNumCh c)) \<and>
     (\<forall>x \<in> {ch_txHeight c, ch_rxHeight c, ch_itmRefractivity c, ch_itmGroundConductivity c, ch_itmGroundPermittivity c}. isfinite x) \<and>
     1 \<le> ch_itmClimateZone c \<and> ch_itmClimateZone c \<le> 7 \<and> ch_3gppScenario c \<noteq> [] \<and> ch_hataEnvironment c \<noteq> []"

interpretation typed: link_invariant link_typed
proof
  show "link_edit c c' \<Longrightarrow> link_typed c \<Longrightarrow> link_typed c'" for c c'
  proof (induction rule: link_edit.induct)
    case (coeff c c' k v)
    then show ?case by (auto simp: link_typed_def updateChCoeff_def om_find_set split: option.split)
  qed (simp_all add: link_typed_def link_setter_defs clamp_int_range)
  show "link_typed (Channel_new s d a b)" for s d a b
    by (simp add: link_typed_def Channel_new_def createPortCombinations_find)
qed

end
