(* ===== verification/Sandbox_Run.thy ===== *)
theory Sandbox_Run
  imports Link_Invariants
begin

text \<open>
  Sandbox mode: what the sandbox extension reports about the links, and a run of the whole system in
  which two sandbox nodes retune to the same frequency and are linked in both directions.
\<close>

section \<open>Sandbox reports\<close>

lemma sandbox_entry_loss: "ch_plDb ch = Fin 0 \<Longrightarrow> jmember (sandbox_entry nodes f ch) ''pathloss_db'' = JFloat 0"
  by (simp add: sandbox_entry_def jmember_def jobj_def om_find_def)

text \<open>As long as no signal is processed, which in sandbox mode is always, every link of the system
  has the recorded path loss it was created with, whatever the positions of its ends and whatever
  propagation model is set: everything the sandbox extension reports to the middleman says 0 dB.\<close>

theorem sandbox_reports_zero_loss:
  assumes "sys_reach c" and "pushPathLoss (co_nodes c) (co_ims c) = Some j"
  shows "\<exists>es. jmember j ''channels'' = JArr es \<and> es \<noteq> [] \<and> (\<forall>e \<in> set es. jmember e ''pathloss_db'' = JFloat 0)"
proof -
  have "links (\<lambda>c. ch_plDb c = Fin 0) (co_ims c)" using zero_loss.reach [OF assms(1)] by (simp add: co_links_def)
  moreover define es where "es = concat (map (\<lambda>(freq, im). map (\<lambda>(_, ch). sandbox_entry (co_nodes c) freq ch)
      (filter (\<lambda>(_, ch). ch_source ch \<noteq> ch_dest ch) (im_channelMap im))) (co_ims c))"
  ultimately have "\<forall>e \<in> set es. jmember e ''pathloss_db'' = JFloat 0"
    by (fastforce simp: links_def im_links_def intro!: sandbox_entry_loss)
  moreover have "es \<noteq> []" "j = jobj [(''channels'', JArr es)]"
    using assms(2) by (auto simp: pushPathLoss_def es_def Let_def split: if_splits)
  ultimately show ?thesis by (simp add: jmember_def jobj_def om_find_def)
qed

text \<open>A sandbox node at two frequencies, with the channels there are, and what a request that moves it to
  another frequency does.\<close>

section \<open>A sandbox run\<close>

definition sandbox_env :: ct_env where
  "sandbox_env = example_ct_env\<lparr>ce_sandbox := True\<rparr>"

definition sandbox_channel :: "real \<Rightarrow> real \<Rightarrow> usrp_Channel" where
  "sandbox_channel f g = usrp_Channel_new\<lparr>uch_txTuneFreq := f, uch_rxTuneFreq := g\<rparr>"

definition sandbox_at :: "string set \<Rightarrow> string \<Rightarrow> real \<Rightarrow> real \<Rightarrow> (real, Intermediate) omap \<Rightarrow> Controller \<Rightarrow> bool" where
  "sandbox_at N i f g ims c \<longleftrightarrow> (\<exists>n. om_find (ct_nodeMap c) i = Some n \<and> nc_id (nd_config n) = i \<and>
     nc_channels (nd_config n) = [sandbox_channel f g]) \<and>
     (\<forall>j. om_find (ct_nodeMap c) j \<noteq> None \<longrightarrow> j \<in> N) \<and> ct_intermediateMap c = ims \<and> ct_propagationDefaults c = None"

lemma freq_of_channel [simp]:
  "uch_txTuneFreq (sandbox_channel f g) = f" "uch_rxTuneFreq (sandbox_channel f g) = g"
  "(sandbox_channel f g)\<lparr>uch_txTuneFreq := f'\<rparr> = sandbox_channel f' g"
  "(sandbox_channel f g)\<lparr>uch_rxTuneFreq := g'\<rparr> = sandbox_channel f g'"
  by (simp_all add: sandbox_channel_def usrp_Channel_new_def)

lemma join_sandbox_UL:
  assumes "sandbox_at N i f0 g ims c" and "ce_sandbox env" and "om_find ims f = Some im" and "nc_channels k = [sandbox_channel f f]"
  shows "\<exists>c'. join_UL env i k r c = (Inr True, c') \<and>
    sandbox_at N i f g (om_set f (addSandboxNode (ct_heap c) i (unat (nc_numChannels k)) im) ims) c'"
  using assms
  by (auto simp: sandbox_at_def join_UL_def first_freq_def Let_def node_config_def updateTxFreq_def on_config_def on_node_def
      on_channel_at_def attach_src_def om_find_set)

lemma join_sandbox_DL:
  assumes "sandbox_at N i f g0 ims c" and "ce_sandbox env" and "om_find ims g = Some im" and "nc_channels k = [sandbox_channel g g]"
  shows "\<exists>c'. join_DL env i k r c = (Inr True, c') \<and>
    sandbox_at N i f g (om_set g (addSandboxNode (ct_heap c) i (unat (nc_numChannels k)) im) ims) c'"
  using assms
  by (auto simp: sandbox_at_def join_DL_def first_freq_def Let_def node_config_def updateRxFreq_def on_config_def on_node_def
      on_channel_at_def attach_dest_def om_find_set)

lemma leave_sandbox:
  assumes "sandbox_at N i f g ims c" and "ce_sandbox env" and "om_find ims f = Some im" and "isEmpty (removeSandboxNode i im)"
    and "im_freq im = f"
  shows "\<exists>c'. leave_channel f (release_src env i r) True c = (Inr (), c') \<and>
    sandbox_at N i f g (om_erase f (om_set f (removeSandboxNode i im) ims)) c'"
  using assms
  by (auto simp: sandbox_at_def leave_channel_def on_channel_at_def release_src_def isChannelEmpty_def om_find_set db_exec_def
      removeSandboxNode_def bumpVersion_def removeChannel_def)

definition with_channel :: "real \<Rightarrow> (real, Intermediate) omap \<Rightarrow> (real, Intermediate) omap" where
  "with_channel f ims = (if om_find ims f = None then om_insert f (Intermediate_new f 10) ims else ims)"

lemma create_sandbox:
  "sandbox_at N i f0 g ims c \<Longrightarrow> sandbox_at N i f0 g (with_channel f ims) (if FindChannel f c then c else CreateChannel f s c)"
  by (auto simp: sandbox_at_def FindChannel_def CreateChannel_def Let_def apply_defaults_def db_exec_def with_channel_def)

lemma sandbox_UL:
  assumes "sandbox_at N i f0 g ims c" and "ce_sandbox env" and "om_find ims f0 = Some im0" and "isEmpty (removeSandboxNode i im0)"
    and "im_freq im0 = f0" and "10000 \<le> \<bar>f0 - f\<bar>" and "nc_channels k = [sandbox_channel f f]"
    and "om_find (om_erase f0 (om_set f0 (removeSandboxNode i im0) (with_channel f ims))) f = Some im"
  shows "\<exists>h c'. AssignULChannel env i k c = (Inr True, c') \<and>
    sandbox_at N i f g (om_set f (addSandboxNode h i (unat (nc_numChannels k)) im)
      (om_erase f0 (om_set f0 (removeSandboxNode i im0) (with_channel f ims)))) c'"
proof -
  let ?c1 = "if FindChannel f c then c else CreateChannel f (sr_txRate (nc_sample_rate k)) c"
  have 1: "sandbox_at N i f0 g (with_channel f ims) ?c1" using create_sandbox [OF assms(1)] .
  have "om_find (with_channel f ims) f0 = Some im0" using assms(3,6) by (auto simp: with_channel_def om_find_insert)
  from leave_sandbox [OF 1 assms(2) this assms(4,5)] obtain c2 where 2: "leave_channel f0 (release_src env i 0) True ?c1 = (Inr (), c2)"
    "sandbox_at N i f0 g (om_erase f0 (om_set f0 (removeSandboxNode i im0) (with_channel f ims))) c2" by blast
  from join_sandbox_UL [OF 2(2) assms(2,8,7)] obtain c3 where 3: "join_UL env i k 0 c2 = (Inr True, c3)"
    "sandbox_at N i f g (om_set f (addSandboxNode (ct_heap c2) i (unat (nc_numChannels k)) im)
      (om_erase f0 (om_set f0 (removeSandboxNode i im0) (with_channel f ims)))) c3" by blast
  have "AssignULChannel env i k c = retune_UL env i k 0 f0 True ?c1"
    using assms by (auto simp: AssignULChannel_def sandbox_at_def FindChannel_def first_freq_def node_receiver_def compare_def
        usrp_Channel_compare_def Let_def)
  also have "\<dots> = (Inr True, c3)"
    using assms(6,7) 2(1) 3(1) by (simp add: retune_UL_def first_freq_def freqChanged_def)
  finally show ?thesis using 3(2) by blast
qed

lemma sandbox_DL:
  assumes "sandbox_at N i f g0 ims c" and "ce_sandbox env" and "om_find ims g0 = None"
    and "10000 \<le> \<bar>g0 - g\<bar>" and "nc_channels k = [sandbox_channel g g]" and "om_find ims g = Some im"
  shows "\<exists>h c'. AssignDLChannel env i k c = (Inr True, c') \<and>
    sandbox_at N i f g (om_set g (addSandboxNode h i (unat (nc_numChannels k)) im) ims) c'"
proof -
  from join_sandbox_DL [OF assms(1,2,6,5)] obtain c3 where 3: "join_DL env i k 0 c = (Inr True, c3)"
    "sandbox_at N i f g (om_set g (addSandboxNode (ct_heap c) i (unat (nc_numChannels k)) im) ims) c3" by blast
  have "AssignDLChannel env i k c = retune_DL env i k 0 g0 False c"
    using assms by (auto simp: AssignDLChannel_def sandbox_at_def FindChannel_def first_freq_def node_transmitter_def Let_def)
  also have "\<dots> = (Inr True, c3)"
    using assms(4,5) 3(1) by (simp add: retune_DL_def first_freq_def freqChanged_def leave_channel_def)
  finally show ?thesis using 3(2) by blast
qed

lemma rate_sandbox:
  "sandbox_at N i f g ims c \<Longrightarrow> sandbox_at N i f g ims (on_config i (\<lambda>m. m\<lparr>nc_sample_rate := s\<rparr>) c)"
  by (auto simp: sandbox_at_def on_config_def on_node_def om_find_set split: if_splits)

lemma sandbox_stay_UL:
  assumes "sandbox_at N i f g ims c" and "ce_sandbox env" and "nc_channels k = [sandbox_channel f f]"
  shows "\<exists>b c'. AssignULChannel env i k c = (Inr b, c') \<and> sandbox_at N i f g (with_channel f ims) c'"
proof -
  let ?c1 = "if FindChannel f c then c else CreateChannel f (sr_txRate (nc_sample_rate k)) c"
  have 1: "sandbox_at N i f g (with_channel f ims) ?c1" using create_sandbox [OF assms(1)] .
  have "\<exists>c'. retune_UL env i k 0 f p ?c1 = (Inr False, c') \<and> sandbox_at N i f g (with_channel f ims) c'" for p
    using rate_sandbox [OF 1] assms(2,3) by (auto simp: retune_UL_def first_freq_def freqChanged_def leave_channel_def Let_def)
  note stay = this
  obtain n where "om_find (ct_nodeMap c) i = Some n" "nc_channels (nd_config n) = [sandbox_channel f g]"
    using assms(1) by (auto simp: sandbox_at_def)
  then have "AssignULChannel env i k c = (if compare k n \<and> \<not> FindChannel f c then (Inr False, ?c1)
      else retune_UL env i k 0 f (FindChannel f c) ?c1)"
    using assms(2,3) by (simp add: AssignULChannel_def first_freq_def node_receiver_def Let_def)
  then have "AssignULChannel env i k c = (Inr False, ?c1) \<or>
      AssignULChannel env i k c = retune_UL env i k 0 f (FindChannel f c) ?c1"
    by presburger
  then show ?thesis using 1 stay [of "FindChannel f c"] by (elim disjE exE conjE) (metis, metis)
qed

lemma sandbox_stay_DL:
  assumes "sandbox_at N i f g ims c" and "ce_sandbox env" and "nc_channels k = [sandbox_channel g g]"
  shows "\<exists>b c'. AssignDLChannel env i k c = (Inr b, c') \<and> sandbox_at N i f g (with_channel g ims) c'"
proof -
  let ?c1 = "if FindChannel g c then c else CreateChannel g (sr_rxRate (nc_sample_rate k)) c"
  have 1: "sandbox_at N i f g (with_channel g ims) ?c1" using create_sandbox [OF assms(1)] .
  have "\<exists>c'. retune_DL env i k 0 g p ?c1 = (Inr False, c') \<and> sandbox_at N i f g (with_channel g ims) c'" for p
    using rate_sandbox [OF 1] assms(2,3) by (auto simp: retune_DL_def first_freq_def freqChanged_def leave_channel_def Let_def)
  note stay = this
  obtain n where "om_find (ct_nodeMap c) i = Some n" "nc_channels (nd_config n) = [sandbox_channel f g]"
    using assms(1) by (auto simp: sandbox_at_def)
  then have "AssignDLChannel env i k c = (if compare k n \<and> \<not> FindChannel g c then (Inr False, ?c1)
      else retune_DL env i k 0 g (FindChannel g c) ?c1)"
    using assms(2,3) by (simp add: AssignDLChannel_def first_freq_def node_transmitter_def Let_def)
  then have "AssignDLChannel env i k c = (Inr False, ?c1) \<or>
      AssignDLChannel env i k c = retune_DL env i k 0 g (FindChannel g c) ?c1"
    by presburger
  then show ?thesis using 1 stay [of "FindChannel g c"] by (elim disjE exE conjE) (metis, metis)
qed

lemma serve_sandbox:
  assumes "sandbox_at N i f g ims c" and "nc_id k = i"
    and "\<And>c1 k1. sandbox_at N i f g ims c1 \<Longrightarrow> nc_channels k1 = nc_channels k \<Longrightarrow> nc_numChannels k1 = nc_numChannels k \<Longrightarrow>
      \<exists>b c2 ims1. AssignULChannel env i k1 c1 = (Inr b, c2) \<and> sandbox_at N i f' g ims1 c2 \<and> P ims1"
    and "\<And>c2 k1 ims1. sandbox_at N i f' g ims1 c2 \<Longrightarrow> P ims1 \<Longrightarrow> nc_channels k1 = nc_channels k \<Longrightarrow> nc_numChannels k1 = nc_numChannels k \<Longrightarrow>
      \<exists>b c3 ims2. AssignDLChannel env i k1 c2 = (Inr b, c3) \<and> sandbox_at N i f' g' ims2 c3 \<and> Q ims2"
  shows "\<exists>ims2. sandbox_at N i f' g' ims2 (snd (serve env k new c)) \<and> Q ims2"
proof -
  obtain n where n: "om_find (ct_nodeMap c) i = Some n" "nc_channels (nd_config n) = [sandbox_channel f g]"
    using assms(1) by (auto simp: sandbox_at_def)
  obtain n1 k1 hs where r: "refreshFromConfig (ce_now env) k n (ct_vehicleHandlers c) = (n1, k1, hs)" by (metis prod_cases3)
  note R = refreshFromConfig_ok [OF r]
  have num: "nc_numChannels k1 = nc_numChannels k" using R(3) by (simp add: nc_identity_def)
  define c1 where "c1 = c\<lparr>ct_vehicleHandlers := hs, ct_nodeMap := om_set i n1 (ct_nodeMap c)\<rparr>"
  have "sandbox_at N i f g ims c1"
    using assms(1,2) R n by (auto simp: sandbox_at_def c1_def om_find_set nd_owned_def nc_identity_def)
  from assms(3) [OF this R(4) num] obtain ul c2 ims1 where 2: "AssignULChannel env i k1 c1 = (Inr ul, c2)"
    "sandbox_at N i f' g ims1 c2" "P ims1" by blast
  from assms(4) [OF this(2,3) R(4) num] obtain dl c3 ims2 where 3: "AssignDLChannel env i k1 c2 = (Inr dl, c3)"
    "sandbox_at N i f' g' ims2 c3" "Q ims2" by blast
  obtain n3 where f3: "om_find (ct_nodeMap c3) i = Some n3" "nc_channels (nd_config n3) \<noteq> []"
    using 3(2) by (auto simp: sandbox_at_def)
  obtain sql where "AddNode i c3 = (Inr (), db_exec sql c3)" using AddNode_ok [OF f3(1)] f3(2) by auto
  then show ?thesis using n(1) assms(2) r 2(1) 3 f3
    by (auto simp: serve_def Let_def c1_def [symmetric] sandbox_at_def db_exec_def)
qed

lemma sandbox_request_config:
  "request_config sandbox_env (example_request i f) = (NodeConfig_new 0 0)\<lparr>nc_id := i,
     nc_channels := [sandbox_channel f f], nc_ipAddress := ''10.0.0.2''\<rparr>"
  by (simp add: example_request_config sandbox_channel_def sandbox_env_def example_ct_env_def)

lemma sandbox_first:
  assumes "om_find (ct_nodeMap c) i = None" and "ct_propagationDefaults c = None"
    and "\<forall>j. om_find (ct_nodeMap c) j \<noteq> None \<longrightarrow> j \<in> N"
  shows "sandbox_at (insert i N) i f f (with_channel f (with_channel f (ct_intermediateMap c)))
    (snd (configure sandbox_env (example_request i f) c))"
proof -
  let ?k = "request_config sandbox_env (example_request i f)" let ?n = "Node_new 0 ?k"
  define c1 where "c1 = c\<lparr>ct_nodeMap := om_insert i ?n (ct_nodeMap c)\<rparr>"
  have k: "nc_id ?k = i" "nc_channels ?k = [sandbox_channel f f]" "nd_config ?n = ?k" "ce_now sandbox_env = 0" "ce_sandbox sandbox_env"
    by (simp_all add: sandbox_request_config NodeConfig_new_def Node_new_def) (simp_all add: sandbox_env_def example_ct_env_def)
  have f: "om_find (ct_nodeMap c1) i = Some ?n" using assms(1) by (simp add: c1_def om_find_insert)
  obtain sql where a: "AddNode i c1 = (Inr (), db_exec sql c1)" using AddNode_ok [OF f] k by auto
  have "sandbox_at (insert i N) i f f (ct_intermediateMap c) (db_exec sql c1)"
    using assms k by (auto simp: sandbox_at_def c1_def om_find_insert db_exec_def)
  moreover have "configure sandbox_env (example_request i f) c = serve sandbox_env ?k True (db_exec sql c1)"
    using assms(1) a k by (simp add: configure_def GetOrCreateNode_def Let_def c1_def [symmetric])
  moreover have "\<exists>x. sandbox_at (insert i N) i f f x (snd (serve sandbox_env ?k True (db_exec sql c1))) \<and>
      x = with_channel f (with_channel f (ct_intermediateMap c))"
    by (rule serve_sandbox [OF calculation(1) k(1), where P = "\<lambda>x. x = with_channel f (ct_intermediateMap c)"])
      (use sandbox_stay_UL [OF _ k(5)] sandbox_stay_DL [OF _ k(5)] k(2) in metis)+
  ultimately show ?thesis by simp
qed

lemma sandbox_retune:
  assumes "sandbox_at N i f0 f0 ims c" and "om_find ims f0 = Some im0" and "isEmpty (removeSandboxNode i im0)"
    and "im_freq im0 = f0" and "10000 \<le> \<bar>f0 - f\<bar>"
    and "om_find (om_erase f0 (om_set f0 (removeSandboxNode i im0) (with_channel f ims))) f = Some im"
  shows "\<exists>h h'. sandbox_at N i f f (om_set f (addSandboxNode h i 1 (addSandboxNode h' i 1 im))
      (om_set f (addSandboxNode h' i 1 im) (om_erase f0 (om_set f0 (removeSandboxNode i im0) (with_channel f ims)))))
    (snd (configure sandbox_env (example_request i f) c))"
proof -
  let ?k = "request_config sandbox_env (example_request i f)"
  let ?m = "om_erase f0 (om_set f0 (removeSandboxNode i im0) (with_channel f ims))"
  have k: "nc_id ?k = i" "nc_channels ?k = [sandbox_channel f f]" "ce_sandbox sandbox_env" "unat (nc_numChannels ?k) = 1"
    by (simp_all add: sandbox_request_config NodeConfig_new_def Node_new_def) (simp_all add: sandbox_env_def example_ct_env_def)
  have "f0 \<noteq> f" using assms(5) by auto
  obtain n where "om_find (ct_nodeMap c) i = Some n" using assms(1) by (auto simp: sandbox_at_def)
  then have "configure sandbox_env (example_request i f) c = serve sandbox_env ?k False c"
    using k by (simp add: configure_def GetOrCreateNode_def Node_new_def Let_def)
  moreover have "\<exists>x. sandbox_at N i f f x (snd (serve sandbox_env ?k False c)) \<and>
      (\<exists>h h'. x = om_set f (addSandboxNode h i 1 (addSandboxNode h' i 1 im)) (om_set f (addSandboxNode h' i 1 im) ?m))"
  proof (rule serve_sandbox [OF assms(1) k(1), where P = "\<lambda>x. \<exists>h. x = om_set f (addSandboxNode h i 1 im) ?m"])
    fix c1 :: Controller and k1 :: NodeConfig
    assume "sandbox_at N i f0 f0 ims c1" "nc_channels k1 = nc_channels ?k" "nc_numChannels k1 = nc_numChannels ?k"
    then show "\<exists>b c2 ims1. AssignULChannel sandbox_env i k1 c1 = (Inr b, c2) \<and> sandbox_at N i f f0 ims1 c2 \<and>
        (\<exists>h. ims1 = om_set f (addSandboxNode h i 1 im) ?m)"
      using sandbox_UL [OF _ k(3) assms(2-5) _ assms(6)] k(2,4) by metis
  next
    fix c2 :: Controller and k1 :: NodeConfig and ims1
    assume a: "sandbox_at N i f f0 ims1 c2" "\<exists>h. ims1 = om_set f (addSandboxNode h i 1 im) ?m"
      "nc_channels k1 = nc_channels ?k" "nc_numChannels k1 = nc_numChannels ?k"
    then obtain h' where h: "ims1 = om_set f (addSandboxNode h' i 1 im) ?m" by blast
    then have m: "om_find ims1 f0 = None" "om_find ims1 f = Some (addSandboxNode h' i 1 im)"
      using \<open>f0 \<noteq> f\<close> by (simp_all add: om_find_set om_find_erase)
    then show "\<exists>b c3 ims2. AssignDLChannel sandbox_env i k1 c2 = (Inr b, c3) \<and> sandbox_at N i f f ims2 c3 \<and>
        (\<exists>h h'. ims2 = om_set f (addSandboxNode h i 1 (addSandboxNode h' i 1 im)) (om_set f (addSandboxNode h' i 1 im) ?m))"
      using sandbox_DL [OF a(1) k(3) m(1) assms(5) _ m(2), of k1] a(3,4) k(2,4) h by metis
  qed
  ultimately show ?thesis by auto
qed

definition sandbox_request :: "string \<Rightarrow> real \<Rightarrow> Coordinator \<Rightarrow> Coordinator" where
  "sandbox_request i f = node_request sandbox_env (Some (example_request i f))"

definition sandbox_run :: Coordinator where
  "sandbox_run = sandbox_request ''b'' 20000 (sandbox_request ''b'' 1
     (sandbox_request ''a'' 20000 (sandbox_request ''a'' 1 sandbox_start)))"

lemma sandbox_run_reach: "sys_reach sandbox_run"
  unfolding sandbox_run_def sandbox_request_def by (intro sys_reach.node sandbox_start_reach)

lemma sandbox_mode: "rc_sandbox_enabled (co_rt c) \<Longrightarrow>
    rc_sandbox_enabled (co_rt (sandbox_request i f c)) \<and>
    co_ctl (sandbox_request i f c) = snd (configure sandbox_env (example_request i f) (co_ctl c))"
  by (simp add: sandbox_request_def node_request_def requestHandler_def) (simp add: sandbox_env_def)

lemma empty_channel [simp]: "isEmpty (removeSandboxNode i (Intermediate_new f s))" "im_freq (Intermediate_new f s) = f"
  by (simp_all add: isEmpty_def removeSandboxNode_def Intermediate_new_def Let_def bumpVersion_def removeChannel_def om_erase_def)

lemma sandbox_run_channels:
  "\<exists>h1 h2 h3 h4. ct_intermediateMap (co_ctl sandbox_run) =
     [(20000, addSandboxNode h1 ''b'' 1 (addSandboxNode h2 ''b'' 1
        (addSandboxNode h3 ''a'' 1 (addSandboxNode h4 ''a'' 1 (Intermediate_new 20000 10)))))]"
proof -
  let ?c1 = "sandbox_request ''a'' 1 sandbox_start" let ?c2 = "sandbox_request ''a'' 20000 ?c1"
  let ?c3 = "sandbox_request ''b'' 1 ?c2"
  note [simp] = with_channel_def om_find_def om_insert_def om_erase_def
  have m: "rc_sandbox_enabled (co_rt ?c1)" "rc_sandbox_enabled (co_rt ?c2)" "rc_sandbox_enabled (co_rt ?c3)"
    using sandbox_mode sandbox_start_state(1) by blast+
  have 1: "sandbox_at {''a''} ''a'' 1 1 [(1, Intermediate_new 1 10)] (co_ctl ?c1)"
    using sandbox_first [of "co_ctl sandbox_start" "''a''" "{}" 1] sandbox_mode [OF sandbox_start_state(1), of "''a''" 1]
    by (simp add: sandbox_start_state)
  obtain h3 h4 where 2: "sandbox_at {''a''} ''a'' 20000 20000
      [(20000, addSandboxNode h3 ''a'' 1 (addSandboxNode h4 ''a'' 1 (Intermediate_new 20000 10)))] (co_ctl ?c2)"
    using sandbox_retune [OF 1, of "Intermediate_new 1 10" 20000 "Intermediate_new 20000 10"] sandbox_mode [OF m(1), of "''a''" 20000] by auto
  let ?A = "addSandboxNode h3 ''a'' 1 (addSandboxNode h4 ''a'' 1 (Intermediate_new 20000 10))"
  have 3: "sandbox_at {''a'', ''b''} ''b'' 1 1 [(1, Intermediate_new 1 10), (20000, ?A)] (co_ctl ?c3)"
    using sandbox_first [of "co_ctl ?c2" "''b''" "{''a''}" 1] sandbox_mode [OF m(2), of "''b''" 1] 2
    by (auto simp: sandbox_at_def insert_commute)
  show ?thesis
    using sandbox_retune [OF 3, of "Intermediate_new 1 10" 20000 ?A] sandbox_mode [OF m(3), of "''b''" 20000]
    by (auto simp: sandbox_run_def sandbox_at_def)
qed

definition sandbox_only :: "string list \<Rightarrow> (string \<times> string) list \<Rightarrow> Intermediate \<Rightarrow> bool" where
  "sandbox_only ns ks im \<longleftrightarrow> im_sourceMap im = [] \<and> im_destinationMap im = [] \<and> om_keys (im_sandboxNodes im) = ns \<and>
     map (\<lambda>(k, ch). (k, ch_source ch, ch_dest ch)) (im_channelMap im) = map (\<lambda>(s, d). ((s, d), s, d)) ks"

lemma sandbox_only_steps:
  "sandbox_only [] [] (Intermediate_new f s)"
  "sandbox_only [] [] im \<Longrightarrow> sandbox_only [''a''] [] (addSandboxNode h ''a'' 1 im)"
  "sandbox_only [''a''] [] im \<Longrightarrow> sandbox_only [''a''] [] (addSandboxNode h ''a'' 1 im)"
  "sandbox_only [''a''] [] im \<Longrightarrow> sandbox_only [''a'', ''b''] [(''a'', ''b''), (''b'', ''a'')] (addSandboxNode h ''b'' 1 im)"
  "sandbox_only [''a'', ''b''] [(''a'', ''b''), (''b'', ''a'')] im \<Longrightarrow>
    sandbox_only [''a'', ''b''] [(''a'', ''b''), (''b'', ''a'')] (addSandboxNode h ''b'' 1 im)"
  by (auto simp: sandbox_only_def addSandboxNode_def bumpVersion_def updateChannelMap_def wanted_links_def Intermediate_new_def
      insertChannelIfMissing_def om_keys_def om_insert_def om_find_def Let_def)

lemma sandbox_run_reports: "\<exists>j. pushPathLoss (co_nodes sandbox_run) (co_ims sandbox_run) = Some j"
proof -
  obtain h1 h2 h3 h4 where c: "co_ims sandbox_run = [(20000, addSandboxNode h1 ''b'' 1 (addSandboxNode h2 ''b'' 1
      (addSandboxNode h3 ''a'' 1 (addSandboxNode h4 ''a'' 1 (Intermediate_new 20000 10)))))]"
    using sandbox_run_channels by blast
  let ?im = "addSandboxNode h1 ''b'' 1 (addSandboxNode h2 ''b'' 1
      (addSandboxNode h3 ''a'' 1 (addSandboxNode h4 ''a'' 1 (Intermediate_new 20000 10))))"
  have "sandbox_only [''a'', ''b''] [(''a'', ''b''), (''b'', ''a'')] ?im" using sandbox_only_steps by blast
  then obtain k ch rest where "im_channelMap ?im = (k, ch) # rest" "ch_source ch \<noteq> ch_dest ch"
    by (auto simp: sandbox_only_def)
  then show ?thesis by (simp add: pushPathLoss_def c)
qed

theorem sandbox_reports_zero_loss_witness:
  "\<exists>j es. sys_reach sandbox_run \<and> pushPathLoss (co_nodes sandbox_run) (co_ims sandbox_run) = Some j \<and>
     jmember j ''channels'' = JArr es \<and> es \<noteq> [] \<and> (\<forall>e \<in> set es. jmember e ''pathloss_db'' = JFloat 0)"
proof -
  obtain j where "pushPathLoss (co_nodes sandbox_run) (co_ims sandbox_run) = Some j"
    using sandbox_run_reports by blast
  then show ?thesis using sandbox_reports_zero_loss [OF sandbox_run_reach] sandbox_run_reach by blast
qed

text \<open>C13. Every link of the system keeps its shape, whatever requests, commands, updates and rounds of
  the extensions it has seen: a phase for every transmit port and a coefficient for exactly the pairs
  of ports of its ends, so that no lookup by a port misses, and finite heights and ground parameters
  with a climate zone from 1 to 7 for the path loss models.\<close>

theorem links_keep_their_shape:
  assumes "sys_reach c" and "om_find (co_ims c) f = Some im" and "om_find (im_channelMap im) k = Some ch"
  shows "length (ch_freqOffsetPhase ch) = unat (ch_txNumCh ch) \<and>
    (\<forall>i j. om_find (ch_portChCoeffs ch) (i, j) \<noteq> None \<longleftrightarrow> unat i < unat (ch_txNumCh ch) \<and> unat j < unat (ch_rxNumCh ch)) \<and>
    isfinite (ch_txHeight ch) \<and> isfinite (ch_rxHeight ch) \<and> isfinite (ch_itmRefractivity ch) \<and>
    isfinite (ch_itmGroundConductivity ch) \<and> isfinite (ch_itmGroundPermittivity ch) \<and>
    1 \<le> ch_itmClimateZone ch \<and> ch_itmClimateZone ch \<le> 7 \<and> ch_3gppScenario ch \<noteq> [] \<and> ch_hataEnvironment ch \<noteq> []"
proof -
  have "im_links link_typed im" using typed.reach [OF assms(1)] assms(2) by (auto simp: co_links_def dest: links_find)
  then have "link_typed ch" using om_find_mem [OF assms(3)] by (auto simp: im_links_def)
  then show ?thesis by (simp add: link_typed_def)
qed

lemma sandbox_run_link: "\<exists>f im k ch. om_find (co_ims sandbox_run) f = Some im \<and> om_find (im_channelMap im) k = Some ch"
proof -
  obtain h1 h2 h3 h4 where c: "co_ims sandbox_run = [(20000, addSandboxNode h1 ''b'' 1 (addSandboxNode h2 ''b'' 1
      (addSandboxNode h3 ''a'' 1 (addSandboxNode h4 ''a'' 1 (Intermediate_new 20000 10)))))]"
    using sandbox_run_channels by blast
  obtain im where im: "om_find (co_ims sandbox_run) 20000 = Some im"
    "sandbox_only [''a'', ''b''] [(''a'', ''b''), (''b'', ''a'')] im"
    using sandbox_only_steps by (simp add: c om_find_def)
  then obtain k ch rest where "im_channelMap im = (k, ch) # rest" by (auto simp: sandbox_only_def)
  then have "om_find (im_channelMap im) k = Some ch" by (simp add: om_find_def)
  with im show ?thesis by blast
qed

theorem links_keep_their_shape_witness:
  "\<exists>f im k ch. sys_reach sandbox_run \<and> om_find (co_ims sandbox_run) f = Some im \<and> om_find (im_channelMap im) k = Some ch \<and>
     length (ch_freqOffsetPhase ch) = unat (ch_txNumCh ch)"
  using sandbox_run_link sandbox_run_reach links_keep_their_shape [OF sandbox_run_reach] by metis

end
