(* ===== verification/Command_Effects.thy ===== *)
theory Command_Effects
  imports Chem_System
begin

text \<open>
  What the commands of the user interface do and do not change: the queries change nothing, the
  commands for one link change that link only, the path loss command reaches every link of its
  frequency, and the command for the power of a source reaches no link.
\<close>

section \<open>Dispatch\<close>

lemma dispatch:
  assumes "is_object j" and "jmember j ''CMD'' = JStr cmd"
  shows "Coordinator_requestHandler env (Some j) c =
    (case map_of (commands env j) cmd of Some f \<Rightarrow> f c | None \<Rightarrow> (Inr (ext_reply ''fail'' ''Invalid command!''), c))"
  using assms by (simp add: Coordinator_requestHandler_def)

definition queries :: "string list" where
  "queries = [''GET_NODES'', ''GET_CHANNELS'', ''GET_IND_CHANNELS'', ''GET_ANTENNA_TYPES'', ''GET_CONFIG'', ''GET_CONFIG_FILE'',
     ''GET_STATUS'', ''GET_LOGS'', ''GET_ANTENNA_PATTERNS'', ''GET_SHADOW_STD'', ''EXT_LIST'', ''GET_VERSION'']"

definition link_command_names :: "string list" where
  "link_command_names = [''CHG_COEFF'', ''CHG_NOISE_MDL'', ''CHG_FREQ_OFFSET'', ''CHG_DOPPLER'', ''CHG_CIR'']"

definition changing_command_names :: "string list" where
  "changing_command_names = link_command_names @
     [''SET_CONFIG'', ''SAVE_CONFIG_FILE'', ''CHG_ANTENNA'', ''CHG_SOURCE_POWER'', ''CHG_PL'', ''SET_DEFAULT_PL'', ''UPD_SHADOW_STD'', ''EXT'']"

lemma co_lift_pair:
  assumes "\<And>e. r = Inl e \<Longrightarrow> P (Inl e, c)" and "\<And>x. r = Inr x \<Longrightarrow> P (f x c)"
  shows "P (co_then (co_lift r c) f)"
  using assms by (cases r) auto

lemma GET_SHADOW_STD_state: "snd (GET_SHADOW_STD j c) = c"
  unfolding GET_SHADOW_STD_def by (auto simp del: co_then_simps intro!: co_lift_pair [where P = "\<lambda>r. snd r = c"])

lemma command_names: "map_of (commands env j) cmd \<noteq> None \<longleftrightarrow> cmd \<in> set queries \<union> set changing_command_names"
  by (simp add: map_of_eq_None_iff commands_def queries_def changing_command_names_def link_command_names_def)

text \<open>C27. A request changes the state of the program only when it names one of the thirteen commands that
  change something; every other request, the queries, unknown commands, requests that do not parse and
  requests of the wrong type, leaves the nodes, the channels, the run-time values and the extensions as they are.\<close>

theorem only_commands_change_state:
  assumes "snd (Coordinator_requestHandler env req c) \<noteq> c"
  shows "\<exists>j cmd. req = Some j \<and> is_object j \<and> jmember j ''CMD'' = JStr cmd \<and>
    cmd \<in> {''CHG_COEFF'', ''CHG_NOISE_MDL'', ''CHG_FREQ_OFFSET'', ''CHG_DOPPLER'', ''CHG_CIR'', ''SET_CONFIG'', ''SAVE_CONFIG_FILE'',
      ''CHG_ANTENNA'', ''CHG_SOURCE_POWER'', ''CHG_PL'', ''SET_DEFAULT_PL'', ''UPD_SHADOW_STD'', ''EXT''}"
proof -
  obtain j cmd f where j: "req = Some j" "is_object j \<or> j = JNull" "jmember j ''CMD'' = JStr cmd" "map_of (commands env j) cmd = Some f"
    "snd (f c) \<noteq> c"
    using assms by (auto simp: Coordinator_requestHandler_def split: option.splits if_splits json.splits)
  have "j \<noteq> JNull" using j(3) by (auto simp: jmember_def om_find_def)
  moreover have "cmd \<notin> set queries"
  proof
    assume "cmd \<in> set queries"
    then have "snd (f c) = c" using j(4) GET_SHADOW_STD_state by (auto simp: queries_def commands_def)
    with j(5) show False ..
  qed
  moreover have "cmd \<in> set queries \<union> set changing_command_names" using command_names [of env j cmd] j(4) by simp
  ultimately show ?thesis using j by (auto simp: changing_command_names_def link_command_names_def)
qed

section \<open>One link\<close>

definition link_exists :: "real \<Rightarrow> string \<times> string \<Rightarrow> Coordinator \<Rightarrow> bool" where
  "link_exists freq k c \<longleftrightarrow> (\<exists>im. om_find (co_ims c) freq = Some im \<and> om_find (im_channelMap im) k \<noteq> None)"

text \<open>Exactly the link \<open>k\<close> of a frequency is different, and it still joins the same nodes; without such a link nothing is different.\<close>

definition only_link :: "real \<Rightarrow> string \<times> string \<Rightarrow> Coordinator \<Rightarrow> Coordinator \<Rightarrow> bool" where
  "only_link freq k c c' \<longleftrightarrow>
     (if link_exists freq k c
      then \<exists>im ch ch'. om_find (co_ims c) freq = Some im \<and> om_find (im_channelMap im) k = Some ch \<and>
             ch_source ch' = ch_source ch \<and> ch_dest ch' = ch_dest ch \<and>
             c' = co_map_ims (om_set freq (im\<lparr>im_channelMap := om_set k ch' (im_channelMap im)\<rparr>)) c
      else c' = c)"

lemma om_set_same: "om_wf m \<Longrightarrow> om_find m k = Some v \<Longrightarrow> om_set k v m = m"
proof (induction k v m rule: om_set.induct)
  case (2 k v k' v' m)
  show ?case
  proof (cases "k = k'")
    case False
    then have f: "om_find m k = Some v" using "2.prems"(2) by (simp add: om_find_def)
    then have "k' < k" using "2.prems"(1) map_of_SomeD [of m k v] by (force simp: om_find_def om_wf_def)
    then show ?thesis using "2.IH" f "2.prems"(1) False by (auto simp: om_wf_def)
  qed (use "2.prems" in \<open>simp add: om_find_def\<close>)
qed (simp add: om_find_def)

lemma on_link_frame:
  assumes "om_wf (co_ims c)" and f: "\<And>s d. f s d = on_channel g s d" and g: "\<And>ch. ch_source (g ch) = ch_source ch \<and> ch_dest (g ch) = ch_dest ch"
    and k_def: "k = (resolveNodeId (co_nodes c) src, resolveNodeId (co_nodes c) dest)"
  shows "fst (on_link freq src dest f c) = Inr (result_reply (link_exists freq k c)) \<and> only_link freq k c (snd (on_link freq src dest f c))"
proof (cases "om_find (co_ims c) freq")
  case (Some im)
  show ?thesis
  proof (cases "om_find (im_channelMap im) k")
    case None
    then have "on_link freq src dest f c = (Inr (result_reply False), co_map_ims (om_set freq im) c)"
      using Some by (simp add: on_link_def f on_channel_def k_def)
    moreover have "co_map_ims (om_set freq im) c = c"
      using om_set_same [OF assms(1) Some] by (simp add: co_map_ims_def co_map_ctl_def)
    ultimately show ?thesis using Some None by (simp add: only_link_def link_exists_def)
  next
    case (Some ch)
    then have "on_link freq src dest f c =
        (Inr (result_reply True), co_map_ims (om_set freq (im\<lparr>im_channelMap := om_set k (g ch) (im_channelMap im)\<rparr>)) c)"
      using \<open>om_find (co_ims c) freq = Some im\<close> by (simp add: on_link_def f on_channel_def k_def)
    then show ?thesis using \<open>om_find (co_ims c) freq = Some im\<close> Some g by (auto simp: only_link_def link_exists_def)
  qed
qed (simp add: on_link_def only_link_def link_exists_def)

text \<open>What a link command leaves behind: nothing but an exception, or the change of one link.\<close>

definition link_outcome :: "json \<Rightarrow> Coordinator \<Rightarrow> json co_result \<Rightarrow> bool" where
  "link_outcome j c r \<longleftrightarrow> (\<exists>e. r = (Inl e, c)) \<or>
     (\<exists>freq src dest. freq_of j = Inr freq \<and> get_string (jmember j ''src'') = Inr src \<and> get_string (jmember j ''dest'') = Inr dest \<and>
        (let k = (resolveNodeId (co_nodes c) src, resolveNodeId (co_nodes c) dest)
         in fst r = Inr (result_reply (link_exists freq k c)) \<and> only_link freq k c (snd r)))"

lemma link_outcome_error: "link_outcome j c (Inl e, c)"
  by (simp add: link_outcome_def)

lemma on_link_outcome:
  assumes "om_wf (co_ims c)"
    and "freq_of j = Inr freq" "get_string (jmember j ''src'') = Inr src" "get_string (jmember j ''dest'') = Inr dest"
    and "\<And>ch. ch_source (g ch) = ch_source ch \<and> ch_dest (g ch) = ch_dest ch"
  shows "link_outcome j c (on_link freq src dest (on_channel g) c)"
  using on_link_frame [where f = "on_channel g", OF assms(1) refl assms(5) refl] assms(2-4) by (auto simp: link_outcome_def Let_def)

lemma with_link_outcome:
  assumes "\<And>freq src dest. freq_of j = Inr freq \<Longrightarrow> get_string (jmember j ''src'') = Inr src \<Longrightarrow>
      get_string (jmember j ''dest'') = Inr dest \<Longrightarrow> link_outcome j c (f freq src dest c)"
  shows "link_outcome j c (with_link j f c)"
  unfolding with_link_def
  by (intro co_lift_pair [where P = "link_outcome j c"] link_outcome_error assms)

lemma setters_ends:
  "ch_source (updateSNR x ch) = ch_source ch \<and> ch_dest (updateSNR x ch) = ch_dest ch"
  "ch_source (updateNoiseType t ch) = ch_source ch \<and> ch_dest (updateNoiseType t ch) = ch_dest ch"
  "ch_source (clearSNROverride ch) = ch_source ch \<and> ch_dest (clearSNROverride ch) = ch_dest ch"
  "ch_source (updateChCoeff k v ch) = ch_source ch \<and> ch_dest (updateChCoeff k v ch) = ch_dest ch"
  "ch_source (clearChTaps k ch) = ch_source ch \<and> ch_dest (clearChTaps k ch) = ch_dest ch"
  "ch_source (updateChTaps k ts ch) = ch_source ch \<and> ch_dest (updateChTaps k ts ch) = ch_dest ch"
  "ch_source (setFrequencyOffsetHz x ch) = ch_source ch \<and> ch_dest (setFrequencyOffsetHz x ch) = ch_dest ch"
  "ch_source (setDopplerEnabled b ch) = ch_source ch \<and> ch_dest (setDopplerEnabled b ch) = ch_dest ch"
  by (simp_all add: updateSNR_def updateNoiseType_def clearSNROverride_def updateChCoeff_def clearChTaps_def updateChTaps_def
      setFrequencyOffsetHz_def setDopplerEnabled_def split: option.split)

lemma link_commands_outcome:
  assumes "om_wf (co_ims c)"
  shows "link_outcome j c (CHG_COEFF j c)" "link_outcome j c (CHG_FREQ_OFFSET j c)" "link_outcome j c (CHG_DOPPLER j c)"
    "link_outcome j c (CHG_CIR j c)" "link_outcome j c (CHG_NOISE_MDL j c)"
  unfolding CHG_COEFF_def CHG_FREQ_OFFSET_def CHG_DOPPLER_def CHG_CIR_def CHG_NOISE_MDL_def
    updateChannelCoeff_def updateFrequencyOffset_def updateDopplerEnabled_def updateCIR_def updateAWGN_def
  by (auto simp: setters_ends simp del: co_then_simps
      intro!: with_link_outcome co_lift_pair [where P = "link_outcome j c"] link_outcome_error on_link_outcome [OF assms])

text \<open>C25. A command for one link changes exactly that link: when the link exists, the state afterwards is the state before with one
  entry of one channel map replaced, by a link between the same nodes, and when it does not exist, the state is
  the same; so no channel and no link is created, and the settings of the channel, the other links and frequencies, the
  nodes, the configuration, the shadowing and run-time values and the extensions stay as they are. A command that throws changes nothing at
  all, and the answer says whether the link exists. (\<open>om_wf\<close>: the ordered list of the channels represents a \<open>std::map\<close>.)\<close>

theorem link_command_changes_one_link:
  assumes "is_object j" and "jmember j ''CMD'' = JStr cmd"
    and "cmd \<in> {''CHG_COEFF'', ''CHG_NOISE_MDL'', ''CHG_FREQ_OFFSET'', ''CHG_DOPPLER'', ''CHG_CIR''}"
    and "om_wf (co_ims c)" and "Coordinator_requestHandler env (Some j) c = (r, c')"
  shows "(\<exists>e. r = Inl e \<and> c' = c) \<or>
    (\<exists>freq src dest. freq_of j = Inr freq \<and> get_string (jmember j ''src'') = Inr src \<and> get_string (jmember j ''dest'') = Inr dest \<and>
       (let k = (resolveNodeId (co_nodes c) src, resolveNodeId (co_nodes c) dest)
        in r = Inr (result_reply (link_exists freq k c)) \<and> only_link freq k c c'))"
proof -
  have "link_outcome j c (Coordinator_requestHandler env (Some j) c)"
    unfolding dispatch [OF assms(1,2)] using assms(3) link_commands_outcome [OF assms(4)] by (auto simp: commands_def)
  then show ?thesis using assms(5) by (auto simp: link_outcome_def Let_def)
qed

section \<open>Path loss\<close>

lemma setters_plType [simp]:
  "ch_plType (updateITMParams n s e z ch) = ch_plType ch" "ch_plType (updateHataEnvironment h ch) = ch_plType ch"
  "ch_plType (update3gppScenario h ch) = ch_plType ch" "ch_plType (updatePlType q ch) = q"
  by (simp_all add: updateITMParams_def updateHataEnvironment_def update3gppScenario_def updatePlType_def)

lemma for_channels_simps [simp]:
  "om_find (im_channelMap (for_channels f im)) k = map_option f (om_find (im_channelMap im) k)"
  "om_keys (im_channelMap (for_channels f im)) = om_keys (im_channelMap im)"
  "im_propagationModel (for_channels f im) = im_propagationModel im"
  by (simp_all add: for_channels_def om_find_map_values)

lemma model_params_frame:
  "im_propagationModel (model_params m j im) = im_propagationModel im"
  "om_keys (im_channelMap (model_params m j im)) = om_keys (im_channelMap im)"
  "map_option ch_plType (om_find (im_channelMap (model_params m j im)) k) = map_option ch_plType (om_find (im_channelMap im) k)"
  by (simp_all add: model_params_def setHataEnvironment_def setITMParams_def option.map_comp comp_def)

lemma new_link_plType: "ch_plType (new_link s d a b im) = currentPlType (im_propagationModel im)"
  by (simp add: new_link_def)

definition set_model :: "string \<Rightarrow> fp \<Rightarrow> string \<Rightarrow> Intermediate \<Rightarrow> Intermediate" where
  "set_model plMode g scenario im =
     (let im1 = updatePathLoss_str plMode g im
      in if PropagationModelFromString plMode = THREE_GPP_38_901 then set3gppScenario scenario im1 else im1)"

lemma set_model_frame:
  "im_propagationModel (set_model p g sc im) = PropagationModelFromString p"
  "om_keys (im_channelMap (set_model p g sc im)) = om_keys (im_channelMap im)"
  "map_option ch_plType (om_find (im_channelMap (set_model p g sc im)) k) =
     map_option (\<lambda>_. currentPlType (PropagationModelFromString p)) (om_find (im_channelMap im) k)"
  by (simp_all add: set_model_def updatePathLoss_str_def updatePathLoss_def setPathLossMode_def set3gppScenario_def Let_def
      option.map_comp comp_def)

lemma om_set_set: "om_set k v (om_set k w m) = om_set k v m"
  by (induction k w m rule: om_set.induct) auto

lemma CHG_PL_effect:
  assumes "freq_of j = Inr freq" and "get_string (jmember j ''plMode'') = Inr p"
  shows "CHG_PL j c = (Inr (result_reply (om_find (co_ims c) freq \<noteq> None)),
    on_freq freq (\<lambda>im. model_params (PropagationModelFromString p) j
      (set_model p (fp_member j ''groundCoeff'' (Fin (- 1))) (str_member j ''scenario'' ''UMa'') im)) c)"
  using assms
  by (auto simp: CHG_PL_def Coordinator_setPathLossMode_def on_freq_def set_model_def co_map_ims_def co_map_ctl_def om_find_set
      om_set_set Let_def split: option.split)

text \<open>C26. Changing the path loss model of a frequency reaches every link of it, those that exist and those made
  later, and no other frequency. An unknown name of a model is accepted like any other, and from then on
  the loss of the links of the frequency is 0 dB.\<close>

theorem chg_pl_reaches_every_link:
  assumes "is_object j" and "jmember j ''CMD'' = JStr ''CHG_PL''" and "freq_of j = Inr freq"
    and "get_string (jmember j ''plMode'') = Inr p" and "om_find (co_ims c) freq = Some im"
    and "Coordinator_requestHandler env (Some j) c = (r, c')"
  shows "r = Inr (result_reply True) \<and> (\<forall>f. f \<noteq> freq \<longrightarrow> om_find (co_ims c') f = om_find (co_ims c) f) \<and>
    (\<exists>im'. om_find (co_ims c') freq = Some im' \<and> om_keys (im_channelMap im') = om_keys (im_channelMap im) \<and>
       im_propagationModel im' = PropagationModelFromString p \<and>
       (\<forall>k ch. om_find (im_channelMap im') k = Some ch \<longrightarrow> ch_plType ch = currentPlType (PropagationModelFromString p)) \<and>
       (\<forall>s d a b. ch_plType (new_link s d a b im') = currentPlType (PropagationModelFromString p)) \<and>
       (PropagationModelFromString p = PM_UNKNOWN \<longrightarrow>
          (\<forall>d g dr ch. \<not> ch_extensionBypassesPathLoss ch \<longrightarrow> computePathLoss d (im_propagationModel im') freq g dr ch = Fin 0)))"
proof -
  let ?m = "PropagationModelFromString p"
  let ?im = "model_params ?m j (set_model p (fp_member j ''groundCoeff'' (Fin (- 1))) (str_member j ''scenario'' ''UMa'') im)"
  have e: "r = Inr (result_reply True)" "co_ims c' = om_set freq ?im (co_ims c)"
    using assms(6) unfolding dispatch [OF assms(1,2)]
    by (auto simp: commands_def CHG_PL_effect [OF assms(3,4)] on_freq_def assms(5) co_map_ims_def co_map_ctl_def)
  have "ch_plType ch = currentPlType ?m" if "om_find (im_channelMap ?im) k = Some ch" for k ch
  proof -
    have "map_option ch_plType (om_find (im_channelMap ?im) k) = map_option (\<lambda>_. currentPlType ?m) (om_find (im_channelMap im) k)"
      unfolding model_params_frame(3) set_model_frame(3) ..
    then show ?thesis unfolding that by (cases "om_find (im_channelMap im) k") simp_all
  qed
  moreover have "om_keys (im_channelMap ?im) = om_keys (im_channelMap im)" "im_propagationModel ?im = ?m"
    using model_params_frame(1,2) set_model_frame(1,2) by simp_all
  moreover have "om_find (co_ims c') freq = Some ?im" "\<forall>f. f \<noteq> freq \<longrightarrow> om_find (co_ims c') f = om_find (co_ims c) f"
    using e(2) by (simp_all add: om_find_set)
  moreover have "?m = PM_UNKNOWN \<longrightarrow> (\<forall>d g dr ch. \<not> ch_extensionBypassesPathLoss ch \<longrightarrow> computePathLoss d ?m freq g dr ch = Fin 0)"
    by (simp add: computePathLoss_def)
  moreover have "\<forall>s d a b. ch_plType (new_link s d a b ?im) = currentPlType ?m"
    using new_link_plType [of _ _ _ _ ?im] calculation(3) by simp
  ultimately show ?thesis using e(1) by auto
qed

section \<open>Source power\<close>

text \<open>The power of a source that the user sets is stored with the node and reported, but it does not
  reach the signal processing: the channels, their links and the receivers with their copies of the
  node configuration, from which the link budget is computed, stay as they are.\<close>

theorem source_power_reaches_no_link:
  assumes "is_object j" and "jmember j ''CMD'' = JStr ''CHG_SOURCE_POWER''"
    and "Coordinator_requestHandler env (Some j) c = (r, c')"
  shows "co_ims c' = co_ims c \<and> ct_heap (co_ctl c') = ct_heap (co_ctl c) \<and>
    (\<forall>gen cache i dst f ch. computeLinkBudget gen cache (rcv_node_config (hp_rx (ct_heap (co_ctl c')) i)) dst f ch =
       computeLinkBudget gen cache (rcv_node_config (hp_rx (ct_heap (co_ctl c)) i)) dst f ch) \<and>
    (\<forall>n node ch. value_string j ''node'' [] = Inr node \<longrightarrow> node \<noteq> [] \<longrightarrow>
       om_find (co_nodes c) (resolveNodeId (co_nodes c) node) = Some n \<longrightarrow> nc_characteristics (nd_config n) = Some ch \<longrightarrow>
       r = Inr (jobj [(''status'', JStr ''success''), (''sourcePowerDbfs'', json_of_fp (source_power j))]))"
proof -
  have d: "CHG_SOURCE_POWER j c = (r, c')" using assms(3) unfolding dispatch [OF assms(1,2)] by (simp add: commands_def)
  have "co_ims (snd (CHG_SOURCE_POWER j c)) = co_ims c \<and> ct_heap (co_ctl (snd (CHG_SOURCE_POWER j c))) = ct_heap (co_ctl c)"
    unfolding CHG_SOURCE_POWER_def
    by (rule co_lift_pair [where P = "\<lambda>r. co_ims (snd r) = co_ims c \<and> ct_heap (co_ctl (snd r)) = ct_heap (co_ctl c)"])
      (auto simp: Let_def co_map_ctl_def split: option.split)
  then show ?thesis using d by (auto simp: CHG_SOURCE_POWER_def Let_def)
qed

section \<open>An example\<close>

definition one_link :: Coordinator where
  "one_link = sandbox_start\<lparr>co_ctl := (co_ctl sandbox_start)\<lparr>ct_intermediateMap :=
     [(1000000, (Intermediate_new 1000000 10)\<lparr>im_channelMap := [((''a'', ''b''), Channel_new ''a'' ''b'' 1 1)]\<rparr>)]\<rparr>\<rparr>"

definition command :: "string \<Rightarrow> (string \<times> json) list \<Rightarrow> json" where
  "command cmd ms = JObj ((''CMD'', JStr cmd) # (''freq'', JInt 1) # ms)"

lemma command_simps [simp]:
  "is_object (command cmd ms)" "jmember (command cmd ms) ''CMD'' = JStr cmd" "freq_of (command cmd ms) = Inr 1000000"
  by (simp_all add: command_def jmember_def om_find_def freq_of_def rmap_def)

theorem chg_pl_reaches_every_link_witness:
  "\<forall>env. \<exists>r c' im'. Coordinator_requestHandler env (Some (command ''CHG_PL'' [(''plMode'', JStr ''TWO_RAY'')])) one_link = (r, c') \<and>
     om_find (co_ims c') 1000000 = Some im' \<and> im_propagationModel im' = PropagationModelFromString ''TWO_RAY''"
proof
  fix env
  let ?j = "command ''CHG_PL'' [(''plMode'', JStr ''TWO_RAY'')]"
  obtain r c' where h: "Coordinator_requestHandler env (Some ?j) one_link = (r, c')" by fastforce
  have p: "get_string (jmember ?j ''plMode'') = Inr ''TWO_RAY''"
    by (simp add: command_def jmember_def om_find_def)
  have "om_find (co_ims one_link) 1000000 =
      Some ((Intermediate_new 1000000 10)\<lparr>im_channelMap := [((''a'', ''b''), Channel_new ''a'' ''b'' 1 1)]\<rparr>)"
    by (simp add: one_link_def om_find_def)
  from chg_pl_reaches_every_link [OF command_simps p this h] h show "\<exists>r c' im'. Coordinator_requestHandler env (Some ?j) one_link = (r, c') \<and>
     om_find (co_ims c') 1000000 = Some im' \<and> im_propagationModel im' = PropagationModelFromString ''TWO_RAY''" by blast
qed

theorem link_command_changes_one_link_witness:
  "\<forall>env. Coordinator_requestHandler env (Some (command ''CHG_DOPPLER'' [(''src'', JStr ''a''), (''dest'', JStr ''c'')])) one_link =
     (Inr (result_reply False), one_link)"
proof
  fix env
  let ?j = "command ''CHG_DOPPLER'' [(''src'', JStr ''a''), (''dest'', JStr ''c'')]"
  obtain r c' where h: "Coordinator_requestHandler env (Some ?j) one_link = (r, c')" by fastforce
  have m: "get_string (jmember ?j ''src'') = Inr ''a''" "get_string (jmember ?j ''dest'') = Inr ''c''" "value_bool ?j ''enabled'' False = Inr False"
    by (simp_all add: command_def jmember_def om_find_def value_bool_def contains_def)
  have n: "co_nodes one_link = []" by (simp add: one_link_def sandbox_start_state)
  have ne: "\<not> (\<exists>e. r = Inl e \<and> c' = one_link)"
    using h m unfolding dispatch [OF command_simps(1,2)] by (auto simp: commands_def CHG_DOPPLER_def with_link_def on_link_def
        case_prod_beta Let_def split: option.splits)
  have "link_exists 1000000 (''a'', ''c'') one_link = False" by (simp add: link_exists_def one_link_def om_find_def)
  moreover have "om_wf (co_ims one_link)" by (simp add: one_link_def om_wf_def)
  ultimately show "Coordinator_requestHandler env (Some ?j) one_link = (Inr (result_reply False), one_link)"
    using link_command_changes_one_link [OF command_simps(1,2) _ _ h] ne m n h by (auto simp: Let_def resolveNodeId_def om_find_def only_link_def)
qed

theorem source_power_reaches_no_link_witness:
  "\<forall>env. co_ims (snd (Coordinator_requestHandler env (Some (command ''CHG_SOURCE_POWER'' [])) one_link)) = co_ims one_link"
  using source_power_reaches_no_link [OF command_simps(1,2)] by (metis prod.collapse)

theorem only_commands_change_state_witness:
  "\<forall>env. \<exists>j cmd. Some (command ''UPD_SHADOW_STD'' [(''std'', JInt 3)]) = Some j \<and> is_object j \<and> jmember j ''CMD'' = JStr cmd \<and> cmd \<noteq> ''GET_NODES''"
proof
  fix env
  let ?j = "command ''UPD_SHADOW_STD'' [(''std'', JInt 3)]"
  have s: "get_double (jmember ?j ''std'') = Inr 3" "contains ?j ''freq''"
    by (simp_all add: command_def jmember_def om_find_def contains_def)
  have "co_shadow_std_by_freq (snd (Coordinator_requestHandler env (Some ?j) one_link)) = om_set 1000000 3 (co_shadow_std_by_freq one_link)"
    unfolding dispatch [OF command_simps(1,2)] using s
    by (simp add: commands_def UPD_SHADOW_STD_def on_freq_def co_map_ims_def co_map_ctl_def split: option.split)
  moreover have "co_shadow_std_by_freq one_link = []" by (simp add: one_link_def sandbox_start_def boot_def boot_sandbox_def Let_def
        with_extensions_def Coordinator_new_def co_map_ims_def co_map_ctl_def case_prod_beta)
  ultimately have "snd (Coordinator_requestHandler env (Some ?j) one_link) \<noteq> one_link" by auto
  from only_commands_change_state [OF this] show
    "\<exists>j cmd. Some ?j = Some j \<and> is_object j \<and> jmember j ''CMD'' = JStr cmd \<and> cmd \<noteq> ''GET_NODES''" by auto
qed

end
