(* ===== verification/Link_Geometry.thy ===== *)
theory Link_Geometry
  imports Coordinator
begin

text \<open>
  The geometry the update loop of the coordinator writes into the links: the two directions of a
  link agree, away from the equator and the prime meridian, where the distance is taken to be 0.
\<close>

section \<open>Finite positions\<close>

definition at_point :: "real \<Rightarrow> real \<Rightarrow> real \<Rightarrow> NodeLocation \<Rightarrow> bool" where
  "at_point lat lon alt l \<longleftrightarrow> nloc_position l = \<lparr>loc_lat = Fin lat, loc_lon = Fin lon, loc_alt = Fin alt\<rparr>"

definition moves_at :: "real \<Rightarrow> real \<Rightarrow> real \<Rightarrow> NodeLocation \<Rightarrow> bool" where
  "moves_at e n u l \<longleftrightarrow> nloc_velocity l = \<lparr>vel_east = Fin e, vel_north = Fin n, vel_up = Fin u\<rparr>"

text \<open>The same in real numbers.\<close>

definition north :: "real \<Rightarrow> real \<Rightarrow> real" where
  "north lat1 lat2 = (lat2 - lat1) * meters_per_deg"

definition east :: "real \<Rightarrow> real \<Rightarrow> real \<Rightarrow> real \<Rightarrow> real" where
  "east lat1 lon1 lat2 lon2 = (lon2 - lon1) * meters_per_deg * cos ((lat1 + lat2) * (1 / 2) * (PI_C / 180))"

lemma north_east_Fin: "north_east (Fin lat1) (Fin lon1) (Fin lat2) (Fin lon2) = (Fin (north lat1 lat2), Fin (east lat1 lon1 lat2 lon2))"
  by (simp add: north_east_def north_def east_def rad_per_deg_def Let_def)

lemma north_swap: "north lat2 lat1 = - north lat1 lat2"
  by (simp add: north_def algebra_simps)

lemma east_swap: "east lat2 lon2 lat1 lon1 = - east lat1 lon1 lat2 lon2"
  by (simp add: east_def algebra_simps)

lemma calcDistance_Fin:
  "calcDistance (Fin lat1) (Fin lon1) (Fin lat2) (Fin lon2) =
     Fin (if lat1 = 0 \<or> lon1 = 0 \<or> lon2 = 0 then 0 else sqrt ((north lat1 lat2)\<^sup>2 + (east lat1 lon1 lat2 lon2)\<^sup>2))"
proof -
  have "\<not> x * x + y * y < 0" for x y :: real by (simp add: not_less)
  then show ?thesis by (auto simp: calcDistance_def north_east_Fin power2_eq_square)
qed

lemma calcDistance_sym:
  assumes "lat1 \<noteq> 0" "lat2 \<noteq> 0" "lon1 \<noteq> 0" "lon2 \<noteq> 0"
  shows "calcDistance (Fin lat2) (Fin lon2) (Fin lat1) (Fin lon1) = calcDistance (Fin lat1) (Fin lon1) (Fin lat2) (Fin lon2)"
  using assms by (simp add: calcDistance_Fin north_swap [of lat2 lat1] east_swap [of lat2 lon2 lat1 lon1])

text \<open>The guard tests the first latitude twice: a node on the equator is at no distance from any
  other, seen from the equator only.\<close>

lemma calcDistance_equator:
  assumes "lat2 \<noteq> 0" "lon1 \<noteq> 0" "lon2 \<noteq> 0"
  shows "calcDistance (Fin 0) (Fin lon1) (Fin lat2) (Fin lon2) = Fin 0"
    and "\<exists>d > 0. calcDistance (Fin lat2) (Fin lon2) (Fin 0) (Fin lon1) = Fin d"
  using assms by (auto simp: calcDistance_Fin north_def meters_per_deg_def sum_power2_gt_zero_iff)

lemma link_elevation_neg: "link_elevation (Fin d) (Fin (- a)) = fp_neg (link_elevation (Fin d) (Fin a))"
  by (simp add: link_elevation_def to_degrees_def PI_C_def arctan_minus)

lemma link_doppler_Fin:
  assumes "at_point lat1 lon1 alt1 l1" "at_point lat2 lon2 alt2 l2" "moves_at e1 n1 u1 l1" "moves_at e2 n2 u2 l2"
  shows "link_doppler f l1 l2 =
    (let N = north lat1 lat2; E = east lat1 lon1 lat2 lon2; U = alt2 - alt1; R = sqrt (E * E + N * N + U * U)
     in Fin (if 1 / 100 < R then - (((e2 - e1) * (E / R) + (n2 - n1) * (N / R) + (u2 - u1) * (U / R)) / SPEED_OF_LIGHT) * f else 0))"
proof -
  have s: "\<not> x * x + y * y + z * z < 0" for x y z :: real by (simp add: not_less)
  show ?thesis using assms s
    by (simp add: link_doppler_def at_point_def moves_at_def north_east_Fin Let_def SPEED_OF_LIGHT_def)
qed

lemma link_doppler_sym:
  assumes "at_point lat1 lon1 alt1 l1" "at_point lat2 lon2 alt2 l2" "moves_at e1 n1 u1 l1" "moves_at e2 n2 u2 l2"
  shows "link_doppler f l2 l1 = link_doppler f l1 l2"
proof -
  have up: "alt1 - alt2 = - (alt2 - alt1)" by simp
  have flip: "(a - b) * (- x / r) = (b - a) * (x / r)" for a b x r :: real
    by (metis minus_diff_eq minus_mult_commute minus_divide_left)
  show ?thesis
    unfolding link_doppler_Fin [OF assms] link_doppler_Fin [OF assms(2,1,4,3)] Let_def
      north_swap [of lat2 lat1] east_swap [of lat2 lon2 lat1 lon1] up flip by (simp only: minus_mult_minus)
qed

text \<open>C28. The update loop treats the two directions of a link alike: the link from the second node to the first
  gets the same distance, the same height difference, the opposite elevation and the same Doppler
  shift as the link from the first to the second, and the heights of sender and receiver change places. This
  is for all finite positions off the equator and the prime meridian (both nodes have a latitude and a longitude that is not
  zero: the guard of \<open>calcDistance\<close> treats zero as unknown, and only looks at one latitude) and all finite velocities; the Doppler
  shift is that of two links on which it is enabled.\<close>

theorem link_geometry_reciprocal:
  assumes "at_point lat1 lon1 alt1 l1" "at_point lat2 lon2 alt2 l2" "moves_at e1 n1 u1 l1" "moves_at e2 n2 u2 l2"
    and "lat1 \<noteq> 0" "lat2 \<noteq> 0" "lon1 \<noteq> 0" "lon2 \<noteq> 0"
    and "there = update_link f l1 l2 ch" and "back = update_link f l2 l1 ch'"
  shows "nl_dist (ch_linkInfo back) = nl_dist (ch_linkInfo there) \<and>
    nl_h_dist (ch_linkInfo back) = nl_h_dist (ch_linkInfo there) \<and>
    nl_elevation (ch_linkInfo back) = fp_neg (nl_elevation (ch_linkInfo there)) \<and>
    ch_txHeight back = ch_rxHeight there \<and> ch_rxHeight back = ch_txHeight there \<and>
    (ch_dopplerEnabled ch \<and> ch_dopplerEnabled ch' \<longrightarrow> ch_dopplerHz back = ch_dopplerHz there)"
proof -
  note pos = assms(1,2) [unfolded at_point_def]
  let ?d = "calcDistance (Fin lat1) (Fin lon1) (Fin lat2) (Fin lon2)"
  obtain d where d: "?d = Fin d" using calcDistance_Fin by blast
  have e: "link_elevation ?d (Fin (alt1 - alt2)) = fp_neg (link_elevation ?d (Fin (alt2 - alt1)))"
    using link_elevation_neg [of d "alt2 - alt1"] by (simp add: d)
  note defs = update_link_def ch_updateDistance_def ch_updateAltitude_def ch_updateElevation_def ch_updateAzimuth_def
    updateHeights_def setDopplerHz_def Let_def
  show ?thesis
    using pos e calcDistance_sym [OF assms(5-8)] link_doppler_sym [OF assms(1-4)]
    by (simp add: assms(9,10) defs abs_minus_commute)
qed

theorem link_geometry_reciprocal_witness:
  "\<forall>ch. nl_dist (ch_linkInfo (update_link 1000
       \<lparr>nloc_logicalNode = 0, nloc_position = \<lparr>loc_lat = Fin 35, loc_lon = Fin (- 78), loc_alt = Fin 10\<rparr>,
        nloc_velocity = \<lparr>vel_east = Fin 1, vel_north = Fin 2, vel_up = Fin 0\<rparr>, nloc_hasVelocity = True\<rparr>
       \<lparr>nloc_logicalNode = 1, nloc_position = \<lparr>loc_lat = Fin 36, loc_lon = Fin (- 79), loc_alt = Fin 30\<rparr>,
        nloc_velocity = \<lparr>vel_east = Fin 0, vel_north = Fin 0, vel_up = Fin 0\<rparr>, nloc_hasVelocity = False\<rparr> ch)) =
     nl_dist (ch_linkInfo (update_link 1000
       \<lparr>nloc_logicalNode = 1, nloc_position = \<lparr>loc_lat = Fin 36, loc_lon = Fin (- 79), loc_alt = Fin 30\<rparr>,
        nloc_velocity = \<lparr>vel_east = Fin 0, vel_north = Fin 0, vel_up = Fin 0\<rparr>, nloc_hasVelocity = False\<rparr>
       \<lparr>nloc_logicalNode = 0, nloc_position = \<lparr>loc_lat = Fin 35, loc_lon = Fin (- 78), loc_alt = Fin 10\<rparr>,
        nloc_velocity = \<lparr>vel_east = Fin 1, vel_north = Fin 2, vel_up = Fin 0\<rparr>, nloc_hasVelocity = True\<rparr> ch))"
  by (intro allI conjunct1 [OF link_geometry_reciprocal, symmetric]) (auto simp: at_point_def moves_at_def)

end
