(* ===== verification/Process_Stats.thy ===== *)
theory Process_Stats
  imports Coordinator_Commands
begin

text \<open>
  The process statistics of \<open>GET_STATUS\<close>, \<open>src/chem/channel/coordinator.cpp\<close>: reading
  \<open>/proc/self/stat\<close> and \<open>/proc/self/status\<close>. The text of the two files is an argument, \<open>None\<close>
  when a file cannot be opened.
\<close>

section \<open>Streams\<close>

text \<open>\<open>iss >> token\<close> repeated until it fails.\<close>

function tokens :: "string \<Rightarrow> string list" where
  "tokens s =
     (let s' = dropWhile is_space s
      in if s' = [] then [] else takeWhile (\<lambda>c. \<not> is_space c) s' # tokens (dropWhile (\<lambda>c. \<not> is_space c) s'))"
  by pat_completeness auto
termination
proof (relation "measure length", simp)
  fix s s' :: string
  assume "s' = dropWhile is_space s" "s' \<noteq> []"
  then obtain c t where "s' = c # t" "\<not> is_space c" by (metis hd_dropWhile list.exhaust_sel)
  moreover have "length s' \<le> length s" using \<open>s' = dropWhile is_space s\<close> by (simp add: length_dropWhile_le)
  moreover have "length (dropWhile (\<lambda>c. \<not> is_space c) t) \<le> length t" by (rule length_dropWhile_le)
  ultimately show "(dropWhile (\<lambda>c. \<not> is_space c) s', s) \<in> measure length" by simp
qed

declare tokens.simps [simp del]

definition stoll :: "string \<Rightarrow> int result" where
  "stoll s =
     (let (neg, body) = read_sign (dropWhile is_space s);
          ds = takeWhile is_digit body;
          v = (if neg then - int (read_digits ds) else int (read_digits ds))
      in if ds = [] then Inl (Invalid_argument ''stoll'')
         else if v < - (2 ^ 63) \<or> 2 ^ 63 \<le> v then Inl (Out_of_range ''stoll'')
         else Inr v)"

section \<open>Processor time\<close>

text \<open>The thirteenth and the twelfth token, zero when the line is shorter; every exception is caught.\<close>

definition cpu_fields :: "string list \<Rightarrow> int" where
  "cpu_fields ts =
     (case (if 12 \<le> length ts then stoll (ts ! 11) else Inr 0, if 13 \<le> length ts then stoll (ts ! 12) else Inr 0) of
        (Inr utime, Inr stime) \<Rightarrow> utime + stime
      | _ \<Rightarrow> - 1)"

text \<open>What follows the last closing parenthesis.\<close>

definition after_rparen :: "string \<Rightarrow> string" where
  "after_rparen line = rev (takeWhile (\<lambda>c. c \<noteq> CHR '')'') (rev line))"

definition read_proc_self_cpu_ticks :: "string option \<Rightarrow> int" where
  "read_proc_self_cpu_ticks stat =
     (case stat of
        None \<Rightarrow> - 1
      | Some line \<Rightarrow>
          if line = [] \<or> CHR '')'' \<notin> set line \<or> after_rparen line = [] then - 1
          else cpu_fields (tokens (drop 1 (after_rparen line))))"

section \<open>Memory\<close>

text \<open>\<open>label >> value_kb >> unit\<close> on a line.\<close>

definition kb_value :: "string \<Rightarrow> int option" where
  "kb_value line =
     (let s1 = dropWhile (\<lambda>c. \<not> is_space c) (dropWhile is_space line);
          (neg, body) = read_sign (dropWhile is_space s1);
          rest = dropWhile is_digit body
      in case stoll s1 of
           Inl _ \<Rightarrow> None
         | Inr v \<Rightarrow> if dropWhile is_space rest = [] then None else Some v)"

definition read_status_kb_field :: "string \<Rightarrow> string list option \<Rightarrow> int option" where
  "read_status_kb_field key status =
     (case status of
        None \<Rightarrow> None
      | Some lines \<Rightarrow>
          (case find (\<lambda>l. take (length key) l = key) lines of None \<Rightarrow> None | Some line \<Rightarrow> kb_value line))"

section \<open>The report\<close>

record proc_env =
  pe_uptime :: real
  pe_stat :: "string option"
  pe_status :: "string list option"
  pe_clk_tck :: int
  pe_cores :: nat

definition kb_entry :: "string \<Rightarrow> int option \<Rightarrow> (string \<times> json) list" where
  "kb_entry name v = (case v of None \<Rightarrow> [] | Some kb \<Rightarrow> [(name, JInt (kb * 1024))])"

definition status_fields :: "proc_env \<Rightarrow> (string \<times> json) list" where
  "status_fields e =
     (let ticks = read_proc_self_cpu_ticks (pe_stat e); tck = pe_clk_tck e
      in [(''uptimeSec'', JFloat (pe_uptime e)), (''cpuTicks'', JInt ticks), (''clkTck'', JInt tck)] @
         (if 0 \<le> ticks \<and> 0 < tck then
            let sec = of_int ticks / of_int tck; cores = max 1 (pe_cores e)
            in [(''cpuTimeSec'', JFloat sec), (''cpuCores'', JInt (int cores)),
                (''cpuPercentAvg'', JFloat (sec / max (1 / 1000000000) (pe_uptime e * real cores) * 100))]
          else []) @
         kb_entry ''rssBytes'' (read_status_kb_field ''VmRSS:'' (pe_status e)) @
         kb_entry ''vmSizeBytes'' (read_status_kb_field ''VmSize:'' (pe_status e)))"

definition GET_STATUS :: "co_env \<Rightarrow> proc_env \<Rightarrow> Coordinator \<Rightarrow> json" where
  "GET_STATUS env e = getStatus (env\<lparr>cv_status := status_fields e\<rparr>)"

section \<open>Numbers\<close>

lemma digit_of_char: "n < 10 \<Longrightarrow> is_digit (char_of (48 + n)) \<and> digit_val (char_of (48 + n)) = n"
  by (simp add: is_digit_def digit_val_def)

lemma decimal_digits: "decimal n \<noteq> [] \<and> list_all is_digit (decimal n) \<and> read_digits (decimal n) = n"
proof (induction n rule: decimal.induct)
  case (1 n)
  show ?case
  proof (cases "n < 10")
    case False
    then show ?thesis using "1.IH" digit_of_char [of "n mod 10"] by (simp add: decimal.simps [of n] read_digits_def)
  qed (use digit_of_char [of n] in \<open>simp add: decimal.simps [of n] read_digits_def\<close>)
qed

lemma digit_chars: "is_digit c \<Longrightarrow> \<not> is_space c \<and> c \<noteq> CHR ''-'' \<and> c \<noteq> CHR ''+'' \<and> c \<noteq> CHR '')''"
  by (auto simp: is_digit_def is_space_def Let_def)

lemma stoll_decimal: "n < 2 ^ 63 \<Longrightarrow> stoll (decimal n) = Inr (int n)"
proof -
  assume n: "n < 2 ^ 63"
  note D = decimal_digits [of n]
  have "dropWhile is_space (decimal n) = decimal n \<and> read_sign (decimal n) = (False, decimal n)"
    using D digit_chars [of "hd (decimal n)"] by (cases "decimal n") auto
  moreover have t: "takeWhile is_digit (decimal n) = decimal n" using D by (simp add: takeWhile_eq_all_conv list_all_iff)
  ultimately show ?thesis using n D by (simp add: stoll_def Let_def t del: takeWhile_eq_all_conv)
qed

section \<open>Any process name\<close>

text \<open>A list of fields, each after a space.\<close>

definition spaced :: "string list \<Rightarrow> string" where
  "spaced fs = concat (map (\<lambda>f. CHR '' '' # f) fs)"

definition is_field :: "string \<Rightarrow> bool" where
  "is_field f \<longleftrightarrow> f \<noteq> [] \<and> (\<forall>c \<in> set f. \<not> is_space c \<and> c \<noteq> CHR '')'')"

lemma space_char [simp]: "is_space (CHR '' '')"
  by (simp add: is_space_def)

lemma tokens_space: "tokens (CHR '' '' # s) = tokens s"
  by (simp add: tokens.simps [of "CHR '' '' # s"] tokens.simps [of s])

lemma tokens_spaced: "(\<forall>f \<in> set fs. is_field f) \<Longrightarrow> tokens (spaced fs) = fs"
proof (induction fs)
  case Nil
  then show ?case by (simp add: spaced_def tokens.simps)
next
  case (Cons f fs)
  have f: "f \<noteq> []" "\<forall>c \<in> set f. \<not> is_space c" using Cons.prems by (auto simp: is_field_def)
  then have d: "dropWhile is_space (f @ spaced fs) = f @ spaced fs" by (cases f) auto
  have "takeWhile (\<lambda>c. \<not> is_space c) (f @ spaced fs) = f \<and> dropWhile (\<lambda>c. \<not> is_space c) (f @ spaced fs) = spaced fs"
    using f(2) by (cases fs) (auto simp: spaced_def takeWhile_append dropWhile_append)
  then have "tokens (f @ spaced fs) = f # tokens (spaced fs)"
    using f(1) d by (simp add: tokens.simps [of "f @ spaced fs"])
  then show ?case using Cons by (simp add: spaced_def tokens_space)
qed

lemma after_rparen_spaced: "\<forall>f \<in> set fs. is_field f \<Longrightarrow> after_rparen (pre @ CHR '')'' # spaced fs) = spaced fs"
proof -
  assume "\<forall>f \<in> set fs. is_field f"
  then have "\<forall>c \<in> set (rev (spaced fs)). c \<noteq> CHR '')''" by (auto simp: spaced_def is_field_def)
  then have "takeWhile (\<lambda>c. c \<noteq> CHR '')'') (rev (spaced fs) @ CHR '')'' # rev pre) = rev (spaced fs)"
    by (simp add: takeWhile_append)
  then show ?thesis by (simp add: after_rparen_def)
qed

text \<open>The processor time is read correctly for every process name: the name in the second field may
  hold spaces, parentheses and numbers, and the fields for user and system time are still found.\<close>

theorem cpu_ticks_any_name:
  assumes "\<forall>f \<in> set fs. is_field f" and "13 \<le> length fs" and "fs ! 11 = decimal u" and "fs ! 12 = decimal s"
    and "u < 2 ^ 63" and "s < 2 ^ 63"
  shows "read_proc_self_cpu_ticks (Some (pid @ '' ('' @ name @ '')'' @ spaced fs)) = int u + int s"
proof -
  let ?line = "pid @ '' ('' @ name @ '')'' @ spaced fs"
  obtain f gs where fs: "fs = f # gs" using assms(2) by (cases fs) auto
  have a: "after_rparen ?line = spaced fs" using after_rparen_spaced [OF assms(1), of "pid @ '' ('' @ name"] by simp
  have s: "spaced fs = CHR '' '' # drop 1 (spaced fs)" "spaced fs \<noteq> []" by (simp_all add: fs spaced_def)
  have "tokens (drop 1 (spaced fs)) = fs"
    using tokens_spaced [OF assms(1)] tokens_space [of "drop 1 (spaced fs)"] s(1) by metis
  then show ?thesis
    using assms(2-6) stoll_decimal a s(2) by (simp add: read_proc_self_cpu_ticks_def cpu_fields_def)
qed

theorem cpu_ticks_any_name_witness:
  "read_proc_self_cpu_ticks (Some (''12 (a) 7 (b) R 1'' @ '')'' @ spaced (''S'' # replicate 10 ''1'' @ [decimal 250, decimal 40]))) = 290"
proof -
  have f: "\<forall>f \<in> set (''S'' # replicate 10 ''1'' @ [decimal 250, decimal 40]). is_field f"
    using decimal_digits [of 250] decimal_digits [of 40] digit_chars by (auto simp: is_field_def list_all_iff is_space_def)
  have l: "13 \<le> length (''S'' # replicate 10 ''1'' @ [decimal 250, decimal 40])" by simp
  have "read_proc_self_cpu_ticks (Some (''12'' @ '' ('' @ ''a) 7 (b) R 1'' @ '')'' @
      spaced (''S'' # replicate 10 ''1'' @ [decimal 250, decimal 40]))) = int 250 + int 40"
    by (rule cpu_ticks_any_name [OF f l]) (simp_all add: nth_append)
  then show ?thesis by simp
qed

end
