(* ===== verification/Tcp_Server.thy ===== *)
theory Tcp_Server
  imports Controller
begin

text \<open>
  The TCP front end of the two request handlers, \<open>src/chem/net/tcp_server.cpp\<close>. The completions of
  the asynchronous operations are events: a connection was accepted, a line was read, a connection
  was closed. What the asynchronous layer puts into the buffer of a read is the argument of the event:
  at least one line, and whatever else had arrived by then. The address of the peer is taken to be
  known whenever it is asked for.
\<close>

section \<open>The server\<close>

definition UNTIL :: string where
  "UNTIL = [char_of (10 :: nat)]"

text \<open>The connections a read is pending on, with the address of their peer, and the responses handed
  to the sockets.\<close>

record TCPServer =
  ts_remote_ip :: string
  ts_open :: "(nat, string) omap"
  ts_written :: "(nat \<times> string) list"

definition TCPServer_new :: TCPServer where
  "TCPServer_new = \<lparr>ts_remote_ip = '''', ts_open = [], ts_written = []\<rparr>"

text \<open>A handler gets the request and can ask the server for the remote address.\<close>

type_synonym 's tcp_handler = "string \<Rightarrow> string \<Rightarrow> 's \<Rightarrow> (ct_error + string) \<times> 's"

definition handle_connection :: "nat \<Rightarrow> string \<Rightarrow> TCPServer \<Rightarrow> TCPServer" where
  "handle_connection s addr srv = srv\<lparr>ts_remote_ip := addr, ts_open := om_set s addr (ts_open srv)\<rparr>"

text \<open>\<open>getline\<close> on the buffer, which is thrown away afterwards.\<close>

definition first_line :: "string \<Rightarrow> string" where
  "first_line buf = takeWhile (\<lambda>c. [c] \<noteq> UNTIL) buf"

text \<open>A served request: what is handed to the socket is the response with the newline. The source hands over a buffer
  on a string that is destroyed when the handler returns, so what is sent can differ; here the response counts as written.\<close>

definition read_completed ::
  "'s tcp_handler \<Rightarrow> nat \<Rightarrow> string \<Rightarrow> string \<Rightarrow> TCPServer \<times> 's \<Rightarrow> ct_error option \<times> TCPServer \<times> 's" where
  "read_completed h s addr buf = (\<lambda>(srv, st).
     case h (ts_remote_ip srv) (first_line buf) st of
       (Inl e, st') \<Rightarrow> (Some e, srv\<lparr>ts_open := om_erase s (ts_open srv)\<rparr>, st')
     | (Inr response, st') \<Rightarrow>
         (None, handle_connection s addr (srv\<lparr>ts_written := ts_written srv @ [(s, response @ UNTIL)]\<rparr>), st'))"

datatype tcp_event = Accepted nat string | Accept_failed | Read nat string | Read_failed nat

fun tcp_step :: "'s tcp_handler \<Rightarrow> tcp_event \<Rightarrow> TCPServer \<times> 's \<Rightarrow> ct_error option \<times> TCPServer \<times> 's" where
  "tcp_step h (Accepted s addr) (srv, st) = (None, handle_connection s addr srv, st)"
| "tcp_step h Accept_failed (srv, st) = (None, srv, st)"
| "tcp_step h (Read s buf) (srv, st) =
     (case om_find (ts_open srv) s of None \<Rightarrow> (None, srv, st) | Some addr \<Rightarrow> read_completed h s addr buf (srv, st))"
| "tcp_step h (Read_failed s) (srv, st) = (None, srv\<lparr>ts_open := om_erase s (ts_open srv)\<rparr>, st)"

text \<open>\<open>run\<close>: an exception of a handler leaves the event loop.\<close>

fun tcp_run :: "'s tcp_handler \<Rightarrow> tcp_event list \<Rightarrow> TCPServer \<times> 's \<Rightarrow> ct_error option \<times> TCPServer \<times> 's" where
  "tcp_run h [] x = (None, x)"
| "tcp_run h (e # es) x = (case tcp_step h e x of (Some err, y) \<Rightarrow> (Some err, y) | (None, y) \<Rightarrow> tcp_run h es y)"

text \<open>The handler \<open>Controller::Start\<close> binds; parsing and printing JSON text are parameters.\<close>

definition controller_handler :: "(string \<Rightarrow> json option) \<Rightarrow> (json \<Rightarrow> string) \<Rightarrow> ct_env \<Rightarrow> Controller tcp_handler" where
  "controller_handler parse dump env ip request c =
     (case requestHandler (env\<lparr>ce_remoteIp := ip\<rparr>) (parse request) c of
        (Inl e, c') \<Rightarrow> (Inl e, c')
      | (Inr resp, c') \<Rightarrow> (Inr (dump resp), c'))"

text \<open>The same along a session: the environment of the \<open>k\<close>-th request is its own.\<close>

definition controller_session ::
  "(string \<Rightarrow> json option) \<Rightarrow> (json \<Rightarrow> string) \<Rightarrow> (nat \<Rightarrow> ct_env) \<Rightarrow> (nat \<times> Controller) tcp_handler" where
  "controller_session parse dump envs ip request = (\<lambda>(k, c).
     case controller_handler parse dump (envs k) ip request c of (r, c') \<Rightarrow> (r, Suc k, c'))"

section \<open>Lines\<close>

lemma first_line_until: "char_of (10 :: nat) \<notin> set l \<Longrightarrow> first_line (l @ UNTIL @ rest) = l"
  by (induction l) (auto simp: first_line_def UNTIL_def)

text \<open>Lines that arrive together with the first one are lost: each read serves one request.\<close>

lemma pipelined_lines_lost:
  assumes "char_of (10 :: nat) \<notin> set l"
  shows "tcp_step h (Read s (l @ UNTIL @ rest)) x = tcp_step h (Read s (l @ UNTIL)) x"
proof -
  have "first_line (l @ UNTIL @ rest) = first_line (l @ UNTIL)"
    using first_line_until [OF assms, of rest] first_line_until [OF assms, of "[]"] by simp
  then show ?thesis by (cases x) (simp add: read_completed_def split: option.split)
qed

section \<open>The address of a node\<close>

definition has_ip :: "string \<Rightarrow> string \<Rightarrow> Controller \<Rightarrow> bool" where
  "has_ip i a c \<longleftrightarrow> (\<exists>n. om_find (ct_nodeMap c) i = Some n \<and> nc_ipAddress (nd_config n) = a)"

lemma ct_then_ip:
  assumes "has_ip i a (snd r)" and "\<And>x c. has_ip i a c \<Longrightarrow> has_ip i a (snd (f x c))"
  shows "has_ip i a (snd (ct_then r f))"
  using assms by (cases r; cases "fst r") (auto simp: ct_then_def)

lemma has_ip_frame [simp]:
  "has_ip i a (db_exec s c) = has_ip i a c" "has_ip i a (on_rx r u c) = has_ip i a c" "has_ip i a (on_tx r v c) = has_ip i a c"
  "has_ip i a (snd (AssignTXPort c)) = has_ip i a c" "has_ip i a (snd (AssignRXPort c)) = has_ip i a c"
  "has_ip i a (snd (ct_crash o' c)) = has_ip i a c" "has_ip i a (snd (ct_lift x c)) = has_ip i a c"
  "has_ip i a (c\<lparr>ct_heap := h\<rparr>) = has_ip i a c" "has_ip i a (c\<lparr>ct_numChannels := k\<rparr>) = has_ip i a c"
  "has_ip i a (c\<lparr>ct_intermediateMap := m\<rparr>) = has_ip i a c"
  "has_ip i a (CreateChannel f sr c) = has_ip i a c" "has_ip i a (isChannelEmpty f c) = has_ip i a c"
  by (simp_all add: has_ip_def db_exec_def on_rx_def on_tx_def AssignTXPort_def AssignRXPort_def ct_crash_def ct_lift_def
      CreateChannel_def isChannelEmpty_def Let_def split: option.split sum.split)

lemma on_node_ip:
  assumes "has_ip i a c" and "\<And>n. nc_ipAddress (nd_config n) = a \<Longrightarrow> nc_ipAddress (nd_config (f n)) = a"
  shows "has_ip i a (on_node k f c)"
  using assms by (auto simp: has_ip_def on_node_def om_find_set split: option.split)

lemma on_config_ip:
  assumes "has_ip i a c" and "\<And>m. nc_ipAddress m = a \<Longrightarrow> nc_ipAddress (f m) = a"
  shows "has_ip i a (on_config k f c)"
  unfolding on_config_def using assms by (auto intro: on_node_ip)

lemma AddNode_ip: "has_ip i a c \<Longrightarrow> has_ip i a (snd (AddNode k c))"
  unfolding AddNode_def by (auto intro!: ct_then_ip)

lemma on_channel_at_ip: "has_ip i a c \<Longrightarrow> has_ip i a (snd (on_channel_at f g c))"
  unfolding on_channel_at_def by (auto intro!: ct_then_ip split: prod.split)

lemma create_ip:
  assumes "has_ip i a c"
  shows "has_ip i a (snd (CreateReceiver env k c))" "has_ip i a (snd (CreateTransmitter k c))"
  unfolding CreateReceiver_def CreateTransmitter_def using assms
  by (auto simp: Let_def case_prod_beta intro!: ct_then_ip on_config_ip)

lemma endpoint_ip:
  assumes "has_ip i a c"
  shows "has_ip i a (snd (node_receiver env k c))" "has_ip i a (snd (node_transmitter env k c))"
  unfolding node_receiver_def node_transmitter_def using assms
  by (auto simp: setReceiver_def setTransmitter_def intro!: ct_then_ip create_ip on_node_ip split: option.split)

lemma join_ip:
  assumes "has_ip i a c"
  shows "has_ip i a (snd (join_UL env i nc r c))" "has_ip i a (snd (join_DL env i nc r c))"
proof -
  obtain n where n: "om_find (ct_nodeMap c) i = Some n" "nc_ipAddress (nd_config n) = a" using assms by (auto simp: has_ip_def)
  have u: "updateTxFreq f k (nd_config n) = Inr nc' \<Longrightarrow> has_ip i a (on_config i (\<lambda>_. nc') c)"
    "updateRxFreq f k (nd_config n) = Inr nc' \<Longrightarrow> has_ip i a (on_config i (\<lambda>_. nc') c)" for f k nc'
    using n by (auto simp: has_ip_def on_config_def on_node_def om_find_set updateTxFreq_def updateRxFreq_def split: if_splits)
  show "has_ip i a (snd (join_UL env i nc r c))"
    using n u assms by (cases "updateTxFreq (first_freq uch_txTuneFreq nc) 0 (nd_config n)")
      (auto simp: join_UL_def node_config_def Let_def intro!: ct_then_ip on_channel_at_ip)
  show "has_ip i a (snd (join_DL env i nc r c))"
    using n u assms by (cases "updateRxFreq (first_freq uch_rxTuneFreq nc) 0 (nd_config n)")
      (auto simp: join_DL_def node_config_def Let_def intro!: ct_then_ip on_channel_at_ip)
qed

lemma assign_ip:
  assumes "has_ip i a c"
  shows "has_ip i a (snd (AssignULChannel env i nc c))" "has_ip i a (snd (AssignDLChannel env i nc c))"
  unfolding AssignULChannel_def AssignDLChannel_def retune_UL_def retune_DL_def leave_channel_def Let_def using assms
  by (auto intro!: ct_then_ip endpoint_ip join_ip on_channel_at_ip on_config_ip)

lemma serve_ip:
  assumes "om_find (ct_nodeMap c) (nc_id nc) = Some n"
  shows "has_ip (nc_id nc) (nc_ipAddress nc) (snd (serve env nc new c))"
proof -
  let ?i = "nc_id nc" let ?a = "nc_ipAddress nc"
  obtain n1 nc1 hs where r: "refreshFromConfig (ce_now env) nc n (ct_vehicleHandlers c) = (n1, nc1, hs)" by (metis prod_cases3)
  let ?c = "c\<lparr>ct_vehicleHandlers := hs, ct_nodeMap := om_set ?i n1 (ct_nodeMap c)\<rparr>"
  have "has_ip ?i ?a ?c"
    using refreshFromConfig_ok(2) [OF r] by (simp add: has_ip_def om_find_set nc_identity_def)
  then have "has_ip ?i ?a (snd (ct_then (AssignULChannel env ?i nc1 ?c) (\<lambda>ul c.
      ct_then (AssignDLChannel env ?i nc1 c) (\<lambda>dl c.
      ct_then (ct_crash (om_find (ct_nodeMap c) ?i) c) (\<lambda>target c.
        if \<not> (ul \<or> dl) \<and> \<not> new
        then (Inr (if compare nc1 target then reply_ports (nd_config target) else reply ''fail''), c)
        else ct_then (AddNode ?i c) (\<lambda>_ c. (Inr (reply_ports (nd_config target)), c)))))))"
    by (auto intro!: ct_then_ip assign_ip AddNode_ip)
  then show ?thesis using assms r by (simp add: serve_def Let_def)
qed

text \<open>A registration leaves the node with the address the server reported, whatever else happens.\<close>

lemma configure_ip: "has_ip (nc_id (request_config env j)) (ce_remoteIp env) (snd (configure env j c))"
proof -
  let ?nc = "request_config env j" let ?n = "Node_new (ce_now env) ?nc"
  let ?c = "c\<lparr>ct_nodeMap := om_insert (nc_id ?nc) ?n (ct_nodeMap c)\<rparr>"
  have s: "has_ip (nc_id ?nc) (ce_remoteIp env) (snd (serve env ?nc b d))" if "om_find (ct_nodeMap d) (nc_id ?nc) = Some n" for b d n
    using serve_ip [OF that, of env b] by (simp add: request_config_def)
  show ?thesis
  proof (cases "om_find (ct_nodeMap c) (nc_id ?nc)")
    case None
    then have "has_ip (nc_id ?nc) (ce_remoteIp env) ?c"
      by (simp add: has_ip_def om_find_insert Node_new_def request_config_def)
    then have a: "has_ip (nc_id ?nc) (ce_remoteIp env) (snd (AddNode (nc_id ?nc) ?c))" by (rule AddNode_ip)
    have "has_ip (nc_id ?nc) (ce_remoteIp env) (snd (ct_then (ct_then (AddNode (nc_id ?nc) ?c) (\<lambda>_ c. (Inr True, c))) (serve env ?nc)))"
      by (intro ct_then_ip) (use a s in \<open>auto simp: has_ip_def\<close>)
    then show ?thesis using None by (simp add: configure_def GetOrCreateNode_def Node_new_def Let_def)
  qed (use s in \<open>simp add: configure_def GetOrCreateNode_def Node_new_def Let_def\<close>)
qed

section \<open>The remote address along a run\<close>

text \<open>Over the events so far, newest first: the peer of an open connection, and the peer of the connection a read was
  started on last, which is one just accepted or one that just had a request served.\<close>

fun peer :: "nat \<Rightarrow> tcp_event list \<Rightarrow> string option" where
  "peer s [] = None"
| "peer s (Accepted t addr # past) = (if t = s then Some addr else peer s past)"
| "peer s (Read_failed t # past) = (if t = s then None else peer s past)"
| "peer s (_ # past) = peer s past"

fun last_armed :: "tcp_event list \<Rightarrow> string" where
  "last_armed [] = ''''"
| "last_armed (Accepted t addr # past) = addr"
| "last_armed (Read t buf # past) = (case peer t past of Some addr \<Rightarrow> addr | None \<Rightarrow> last_armed past)"
| "last_armed (_ # past) = last_armed past"

definition tracks :: "tcp_event list \<Rightarrow> TCPServer \<Rightarrow> bool" where
  "tracks past srv \<longleftrightarrow> ts_remote_ip srv = last_armed past \<and> (\<forall>s. om_find (ts_open srv) s = peer s past)"

lemma tracks_step:
  assumes "tracks past srv" and "tcp_step h e (srv, st) = (None, srv', st')"
  shows "tracks (e # past) srv'"
proof (cases e)
  case (Read s buf)
  then show ?thesis using assms
    by (cases "peer s past") (auto simp: tracks_def read_completed_def handle_connection_def om_find_set fun_eq_iff
        split: prod.splits sum.splits)
qed (use assms in \<open>auto simp: tracks_def handle_connection_def om_find_set om_find_erase\<close>)

lemma tracks_run:
  "tracks past srv \<Longrightarrow> tcp_run h es (srv, st) = (None, srv', st') \<Longrightarrow> tracks (rev es @ past) srv'"
proof (induction es arbitrary: past srv st)
  case (Cons e es)
  obtain x srv1 st1 where 1: "tcp_step h e (srv, st) = (x, srv1, st1)" by (metis prod_cases3)
  with Cons.prems(2) have x: "x = None" and 2: "tcp_run h es (srv1, st1) = (None, srv', st')" by (auto split: option.splits)
  show ?case using Cons.IH [OF tracks_step [OF Cons.prems(1)] 2] 1 x by simp
qed simp

lemma tracks_new: "tracks [] TCPServer_new"
  by (simp add: tracks_def TCPServer_new_def)

text \<open>C33. The server keeps one remote address for all its connections, and a registration is filed under it. In every
  run that has not ended in an exception, with any requests over any connections before, the node of a registration, and
  with it the stream of samples sent to it, gets the address of the peer of the connection a read was started on last:
  the connection accepted last, unless another one had a request served since. The connection the registration itself
  arrives on does not count, although its peer is known and is the address kept once the request is served. This
  holds whatever the request answers.\<close>

theorem registration_takes_last_armed_address:
  assumes "tcp_run (controller_session parse dump envs) es (TCPServer_new, 0, c0) = (None, srv, k, c)"
    and "peer s (rev es) = Some own" and "parse (first_line buf) = Some j" and "\<not> contains j ''type''"
    and "tcp_step (controller_session parse dump envs) (Read s buf) (srv, k, c) = (r, srv', k', c')"
  shows "(\<exists>n. om_find (ct_nodeMap c') (nc_id (request_config (envs k) j)) = Some n \<and>
           nc_ipAddress (nd_config n) = last_armed (rev es)) \<and>
         (r = None \<longrightarrow> ts_remote_ip srv' = own)"
proof -
  let ?env = "(envs k)\<lparr>ce_remoteIp := last_armed (rev es)\<rparr>"
  have t: "ts_remote_ip srv = last_armed (rev es)" "om_find (ts_open srv) s = Some own"
    using tracks_run [OF tracks_new assms(1)] assms(2) by (simp_all add: tracks_def)
  have q: "requestHandler ?env (Some j) c = configure ?env j c" using assms(4) by (simp add: requestHandler_def)
  have "c' = snd (configure ?env j c) \<and> (r = None \<longrightarrow> ts_remote_ip srv' = own)"
    using assms(5) q t by (auto simp: read_completed_def controller_session_def controller_handler_def assms(3) handle_connection_def
        split: prod.splits sum.splits)
  moreover have "nc_id (request_config ?env j) = nc_id (request_config (envs k) j)" by (simp add: request_config_def)
  ultimately show ?thesis using configure_ip [of ?env j c] by (simp add: has_ip_def)
qed

text \<open>A second client connects before the first one has sent its registration.\<close>

theorem registration_takes_last_armed_address_witness:
  "\<exists>r srv' k' c' n. tcp_step (controller_session (\<lambda>_. Some (example_request ''a'' 3500000000)) (\<lambda>_. '''') (\<lambda>_. example_ct_env)) (Read 1 UNTIL)
      (handle_connection 2 ''10.0.0.3'' (handle_connection 1 ''10.0.0.2'' TCPServer_new), 0, example_controller) = (r, srv', k', c') \<and>
     om_find (ct_nodeMap c') ''a'' = Some n \<and> nc_ipAddress (nd_config n) = ''10.0.0.3''"
proof -
  let ?h = "controller_session (\<lambda>_. Some (example_request ''a'' 3500000000)) (\<lambda>_. '''') (\<lambda>_. example_ct_env)"
  let ?srv = "handle_connection 2 ''10.0.0.3'' (handle_connection 1 ''10.0.0.2'' TCPServer_new)"
  obtain r srv' k' c' where 5: "tcp_step ?h (Read 1 UNTIL) (?srv, 0, example_controller) = (r, srv', k', c')"
    by (metis prod_cases4)
  have 1: "tcp_run ?h [Accepted 1 ''10.0.0.2'', Accepted 2 ''10.0.0.3''] (TCPServer_new, 0, example_controller) = (None, ?srv, 0, example_controller)"
    by simp
  have 2: "peer 1 (rev [Accepted 1 ''10.0.0.2'', Accepted 2 ''10.0.0.3'']) = Some ''10.0.0.2''" by simp
  have 4: "\<not> contains (example_request ''a'' 3500000000) ''type''" by simp
  have i: "nc_id (request_config example_ct_env (example_request ''a'' 3500000000)) = ''a''"
    by (simp add: example_request_config)
  show ?thesis using registration_takes_last_armed_address [OF 1 2 refl 4 5] 5 i by auto
qed

end
