(* ===== verification/Vehicle_Handler.thy ===== *)
theory Vehicle_Handler
  imports Node_Entity
begin

text \<open>
  The thread of a vehicle handler, \<open>Handler::Start\<close> of \<open>src/chem/vehicle/handler.cpp\<close>: connecting,
  waiting for a system, the fallback location, the throttled telemetry callbacks and the loop that
  follows the configured rate. MAVSDK is a parameter: whether the connection succeeds and how many
  systems are known after every second. Times are nanoseconds.
\<close>

section \<open>Start\<close>

definition to_rate_hz :: "int \<Rightarrow> real" where
  "to_rate_hz poll_ms = 1000 / of_int (max 20 poll_ms)"

text \<open>The seconds waited until a system is known, six at most.\<close>

function wait_systems :: "(nat \<Rightarrow> nat) \<Rightarrow> nat \<Rightarrow> nat" where
  "wait_systems systems cnt = (if systems cnt = 0 \<and> cnt < 6 then wait_systems systems (Suc cnt) else cnt)"
  by pat_completeness auto
termination
  by (relation "measure (\<lambda>(_, cnt). 6 - cnt)") auto

declare wait_systems.simps [simp del]

datatype start_outcome = Connection_failed | No_systems | Gave_up | Subscribed

definition start_outcome_of :: "bool \<Rightarrow> (nat \<Rightarrow> nat) \<Rightarrow> start_outcome" where
  "start_outcome_of linked systems =
     (if \<not> linked then Connection_failed
      else let cnt = wait_systems systems 0
           in if systems cnt = 0 then No_systems else if 5 \<le> cnt then Gave_up else Subscribed)"

text \<open>The handler with the node it points to, whether its \<open>telemetry\<close> object lives (a local of \<open>Start\<close>), the
  times of the last accepted updates, the last requested rate and the rates requested so far.\<close>

record vehicle =
  vs_handler :: Handler
  vs_node :: Node
  vs_subscribed :: bool
  vs_lastPositionUpdate :: int
  vs_lastVelocityUpdate :: int
  vs_last_rate_hz :: real
  vs_rates :: "real list"

definition Handler_Start :: "bool \<Rightarrow> (nat \<Rightarrow> nat) \<Rightarrow> int \<Rightarrow> int \<Rightarrow> vehicle \<Rightarrow> vehicle" where
  "Handler_Start linked systems now poll_ms v =
     (case start_outcome_of linked systems of
        Connection_failed \<Rightarrow> v\<lparr>vs_node := setFallbackLocation now (vs_node v)\<rparr>
      | No_systems \<Rightarrow> v\<lparr>vs_node := setFallbackLocation now (vs_node v)\<rparr>
      | Gave_up \<Rightarrow> v
      | Subscribed \<Rightarrow>
          v\<lparr>vs_last_rate_hz := to_rate_hz poll_ms, vs_rates := vs_rates v @ [to_rate_hz poll_ms],
            vs_handler := (vs_handler v)\<lparr>vh_running := True\<rparr>, vs_subscribed := True\<rparr>)"

section \<open>Telemetry\<close>

text \<open>What happens to a handler: the connection phase of its thread ends, a position or a velocity
  arrives, the loop takes a turn, another thread calls \<open>Stop\<close>. A stop can come before the connection phase has
  ended, which then sets the flag again. The callbacks are only called while the subscription lives: from the end
  of the connection phase until the loop finds the flag cleared and \<open>Start\<close> returns. The poll interval is read anew
  every time.\<close>

datatype vehicle_event =
    Connect_phase bool "nat \<Rightarrow> nat" int int
  | Position int int Location
  | Velocity_ned int int "fp \<times> fp \<times> fp"
  | Rate_turn int
  | Stop_call

definition rate_turn :: "int \<Rightarrow> vehicle \<Rightarrow> vehicle" where
  "rate_turn poll_ms v =
     (let desired = to_rate_hz poll_ms
      in if \<not> vh_running (vs_handler v) then v\<lparr>vs_subscribed := False\<rparr>
         else if 1 / 1000000 < \<bar>desired - vs_last_rate_hz v\<bar>
         then v\<lparr>vs_rates := vs_rates v @ [desired], vs_last_rate_hz := desired\<rparr>
         else v)"

fun vehicle_step :: "vehicle_event \<Rightarrow> vehicle \<Rightarrow> vehicle" where
  "vehicle_step (Connect_phase linked systems now poll) v = Handler_Start linked systems now poll v"
| "vehicle_step (Position now poll pos) v =
     (if vs_subscribed v
      then let (t, n) = on_position poll now (vs_lastPositionUpdate v) pos (vs_handler v) (vs_node v)
           in v\<lparr>vs_lastPositionUpdate := t, vs_node := n\<rparr>
      else v)"
| "vehicle_step (Velocity_ned now poll ned) v =
     (if vs_subscribed v
      then let (t, n) = on_velocity poll now (vs_lastVelocityUpdate v) ned (vs_handler v) (vs_node v)
           in v\<lparr>vs_lastVelocityUpdate := t, vs_node := n\<rparr>
      else v)"
| "vehicle_step (Rate_turn poll) v = (if vs_subscribed v then rate_turn poll v else v)"
| "vehicle_step Stop_call v = v\<lparr>vs_handler := Handler_Stop (vs_handler v)\<rparr>"

section \<open>Outcomes of a start\<close>

lemma wait_systems_bounds:
  assumes "cnt \<le> 6"
  shows "cnt \<le> wait_systems systems cnt \<and> wait_systems systems cnt \<le> 6 \<and>
    (\<forall>k. cnt \<le> k \<and> k < wait_systems systems cnt \<longrightarrow> systems k = 0) \<and>
    (systems (wait_systems systems cnt) = 0 \<longrightarrow> wait_systems systems cnt = 6)"
  using assms
proof (induction systems cnt rule: wait_systems.induct)
  case (1 systems cnt)
  show ?case
  proof (cases "systems cnt = 0 \<and> cnt < 6")
    case True
    then have IH: "Suc cnt \<le> wait_systems systems (Suc cnt) \<and> wait_systems systems (Suc cnt) \<le> 6 \<and>
      (\<forall>k. Suc cnt \<le> k \<and> k < wait_systems systems (Suc cnt) \<longrightarrow> systems k = 0) \<and>
      (systems (wait_systems systems (Suc cnt)) = 0 \<longrightarrow> wait_systems systems (Suc cnt) = 6)"
      using "1.IH" by simp
    have "wait_systems systems cnt = wait_systems systems (Suc cnt)" using True by (simp add: wait_systems.simps [of systems cnt])
    then show ?thesis using IH True by (metis Suc_leI Suc_le_lessD less_imp_le_nat nat_less_le)
  qed (use "1.prems" in \<open>auto simp: wait_systems.simps [of systems cnt]\<close>)
qed

lemma wait_systems_iff:
  "systems (wait_systems systems 0) = 0 \<longleftrightarrow> (\<forall>k \<le> 6. systems k = 0)"
  "systems (wait_systems systems 0) \<noteq> 0 \<and> wait_systems systems 0 < 5 \<longleftrightarrow> (\<exists>k < 5. systems k \<noteq> 0)"
proof -
  note B = wait_systems_bounds [of 0 systems, simplified]
  show "systems (wait_systems systems 0) = 0 \<longleftrightarrow> (\<forall>k \<le> 6. systems k = 0)"
    using B by (metis le_neq_implies_less)
  show "systems (wait_systems systems 0) \<noteq> 0 \<and> wait_systems systems 0 < 5 \<longleftrightarrow> (\<exists>k < 5. systems k \<noteq> 0)"
    using B by (metis less_le_trans linorder_not_less order_le_less_trans not_less_iff_gr_or_eq numeral_less_iff semiring_norm)
qed

text \<open>What a start leads to, for every behaviour of the vehicle. The wait always ends. The handler
  subscribes exactly when it can connect and a system is known within four seconds; the node gets the
  fallback location exactly when it cannot connect or no system is known for six seconds; in the gap
  between, when a system appears in the fifth or sixth second, it returns and leaves everything as it
  was: no telemetry and no location.\<close>

theorem vehicle_start_outcomes:
  "vh_running (vs_handler (Handler_Start linked systems now poll v)) =
     (vh_running (vs_handler v) \<or> linked \<and> (\<exists>k < 5. systems k \<noteq> 0)) \<and>
   (if linked \<and> (\<exists>k \<le> 6. systems k \<noteq> 0) then vs_node (Handler_Start linked systems now poll v) = vs_node v
    else vs_node (Handler_Start linked systems now poll v) = setFallbackLocation now (vs_node v)) \<and>
   (linked \<and> (\<forall>k < 5. systems k = 0) \<and> (systems 5 \<noteq> 0 \<or> systems 6 \<noteq> 0) \<longrightarrow> Handler_Start linked systems now poll v = v)"
proof -
  let ?o = "start_outcome_of linked systems"
  have o: "?o = Connection_failed \<longleftrightarrow> \<not> linked" "?o = No_systems \<longleftrightarrow> linked \<and> (\<forall>k \<le> 6. systems k = 0)"
    "?o = Subscribed \<longleftrightarrow> linked \<and> (\<exists>k < 5. systems k \<noteq> 0)"
    using wait_systems_iff [of systems] by (auto simp: start_outcome_of_def Let_def)
  have six: "(\<exists>k \<le> 6. systems k \<noteq> 0) \<longleftrightarrow> (\<exists>k < 5. systems k \<noteq> 0) \<or> systems 5 \<noteq> 0 \<or> systems 6 \<noteq> 0"
  proof -
    have "k \<le> 6 \<longleftrightarrow> k < 5 \<or> k = 5 \<or> k = 6" for k :: nat by auto
    then show ?thesis by auto
  qed
  define early where "early \<longleftrightarrow> (\<exists>k < 5. systems k \<noteq> 0)"
  define late where "late \<longleftrightarrow> systems 5 \<noteq> 0 \<or> systems 6 \<noteq> 0"
  have e: "(\<forall>k < 5. systems k = 0) \<longleftrightarrow> \<not> early" "(\<forall>k \<le> 6. systems k = 0) \<longleftrightarrow> \<not> early \<and> \<not> late"
    using six by (auto simp: early_def late_def)
  note o' = o [unfolded e, folded early_def]
  show ?thesis unfolding e six early_def [symmetric] late_def [symmetric]
    using o' by (cases ?o) (simp_all add: Handler_Start_def)
qed

text \<open>The connection phase ends with the fallback location, or with the subscription.\<close>

fun falls_back :: "vehicle_event \<Rightarrow> bool" where
  "falls_back (Connect_phase linked systems now poll) = (\<not> linked \<or> (\<forall>k \<le> 6. systems k = 0))"
| "falls_back _ = False"

fun subscribes :: "vehicle_event \<Rightarrow> bool" where
  "subscribes (Connect_phase linked systems now poll) = (linked \<and> (\<exists>k < 5. systems k \<noteq> 0))"
| "subscribes _ = False"

lemma Handler_Start_frame [simp]:
  "vs_lastPositionUpdate (Handler_Start linked systems now poll v) = vs_lastPositionUpdate v"
  by (simp add: Handler_Start_def split: start_outcome.split)

text \<open>A stop while the handler still connects is overwritten.\<close>

lemma early_stop_lost:
  assumes "subscribes e"
  shows "vh_running (vs_handler (vehicle_step e v)) \<and> vs_subscribed (vehicle_step e v)"
  using assms wait_systems_iff [of "case e of Connect_phase _ systems _ _ \<Rightarrow> systems"]
  by (cases e) (auto simp: Handler_Start_def start_outcome_of_def Let_def)

section \<open>Throttling\<close>

text \<open>The times at which positions were accepted.\<close>

fun accepted_positions :: "vehicle_event list \<Rightarrow> vehicle \<Rightarrow> int list" where
  "accepted_positions [] v = []"
| "accepted_positions (e # es) v =
     (let v' = vehicle_step e v
      in (if vs_lastPositionUpdate v' \<noteq> vs_lastPositionUpdate v then [vs_lastPositionUpdate v'] else []) @ accepted_positions es v')"

lemma position_step:
  assumes "\<not> falls_back e"
  shows "vs_lastPositionUpdate (vehicle_step e v) = vs_lastPositionUpdate v \<and> nd_location (vs_node (vehicle_step e v)) = nd_location (vs_node v) \<or>
   (\<exists>poll pos. e = Position (vs_lastPositionUpdate (vehicle_step e v)) poll pos \<and> vh_running (vs_handler v) \<and>
      vs_lastPositionUpdate v + minUpdateInterval poll \<le> vs_lastPositionUpdate (vehicle_step e v) \<and>
      nd_location (vs_node (vehicle_step e v)) = pos)"
proof (cases e)
  case (Position now poll pos)
  then show ?thesis by (auto simp: on_position_def setLocation_def Let_def)
next
  case (Connect_phase linked systems now poll)
  then show ?thesis using assms vehicle_start_outcomes [of linked systems now poll v] by auto
qed (auto simp: on_velocity_def setVelocity_def rate_turn_def Let_def split: prod.split)

lemma interval_positive: "20000000 \<le> minUpdateInterval poll"
  by (simp add: minUpdateInterval_def)

lemma position_time:
  "vs_lastPositionUpdate (vehicle_step e v) = vs_lastPositionUpdate v \<or>
   vs_lastPositionUpdate v + 20000000 \<le> vs_lastPositionUpdate (vehicle_step e v)"
proof (cases "falls_back e")
  case True
  then show ?thesis by (cases e) simp_all
next
  case False
  then show ?thesis using position_step [OF False, of v] interval_positive by (meson add_left_mono order_trans)
qed

lemma accepted_spaced: "successively (\<lambda>a b. a + 20000000 \<le> b) (vs_lastPositionUpdate v # accepted_positions es v)"
proof (induction es arbitrary: v)
  case (Cons e es)
  show ?case using Cons.IH [of "vehicle_step e v"] position_time [of e v] by (auto simp: Let_def)
qed simp

lemma stopped_step:
  assumes "\<not> vh_running (vs_handler v)" and "\<not> falls_back e" and "\<not> subscribes e"
  shows "vs_node (vehicle_step e v) = vs_node v \<and> \<not> vh_running (vs_handler (vehicle_step e v))"
proof (cases e)
  case (Connect_phase linked systems now poll)
  then show ?thesis using assms vehicle_start_outcomes [of linked systems now poll v] by auto
qed (use assms in \<open>auto simp: on_position_def on_velocity_def rate_turn_def Handler_Stop_def Let_def split: prod.split\<close>)

lemma stopped_node:
  assumes "\<not> vh_running (vs_handler v)" and "\<forall>e \<in> set es. \<not> falls_back e \<and> \<not> subscribes e"
  shows "vs_node (fold vehicle_step es v) = vs_node v"
  using assms
proof (induction es arbitrary: v)
  case (Cons e es)
  then show ?case using stopped_step [of v e] by simp
qed simp

lemma unaccepted_location:
  "accepted_positions es v = [] \<Longrightarrow> \<forall>e \<in> set es. \<not> falls_back e \<Longrightarrow>
   nd_location (vs_node (fold vehicle_step es v)) = nd_location (vs_node v)"
proof (induction es arbitrary: v)
  case (Cons e es)
  then have "vs_lastPositionUpdate (vehicle_step e v) = vs_lastPositionUpdate v" by (simp add: Let_def split: if_splits)
  then have "nd_location (vs_node (vehicle_step e v)) = nd_location (vs_node v)"
    using position_step [of e v] Cons.prems interval_positive by (smt (verit) list.set_intros(1))
  then show ?case using Cons by (simp add: Let_def split: if_splits)
qed simp

text \<open>C32. However fast a vehicle reports, its node takes a position at most every 20 ms, in every run of the
  handler: the times at which positions are accepted are at least that far apart, the first also from the last one
  before. The location changes only with an accepted position or when the connection phase ends with the fallback
  location. A stop that comes when the connection phase has ended is final: nothing the vehicle sends afterwards changes
  the node. A stop that comes before is lost when the handler goes on to subscribe: it runs, and the next position that
  is not too early is accepted.\<close>

theorem telemetry_throttled:
  "successively (\<lambda>a b. a + 20000000 \<le> b) (vs_lastPositionUpdate v # accepted_positions es v) \<and>
   (accepted_positions es v = [] \<and> (\<forall>e \<in> set es. \<not> falls_back e) \<longrightarrow>
      nd_location (vs_node (fold vehicle_step es v)) = nd_location (vs_node v)) \<and>
   ((\<forall>e \<in> set es. \<not> falls_back e \<and> \<not> subscribes e) \<longrightarrow>
      vs_node (fold vehicle_step es (vehicle_step Stop_call v)) = vs_node v) \<and>
   (linked \<and> (\<exists>k < 5. systems k \<noteq> 0) \<longrightarrow>
      (let w = fold vehicle_step [Stop_call, Connect_phase linked systems start poll] v
       in vh_running (vs_handler w) \<and>
          (vs_lastPositionUpdate v + minUpdateInterval poll' \<le> now \<longrightarrow>
             nd_location (vs_node (vehicle_step (Position now poll' pos) w)) = pos)))"
proof -
  let ?s = "vehicle_step Stop_call v" and ?c = "Connect_phase linked systems start poll"
  have "vs_node (fold vehicle_step es ?s) = vs_node v" if "\<forall>e \<in> set es. \<not> falls_back e \<and> \<not> subscribes e"
    using stopped_node [OF _ that, of ?s] by (simp add: Handler_Stop_def)
  moreover have "vh_running (vs_handler (vehicle_step ?c ?s)) \<and>
      (vs_lastPositionUpdate v + minUpdateInterval poll' \<le> now \<longrightarrow>
         nd_location (vs_node (vehicle_step (Position now poll' pos) (vehicle_step ?c ?s))) = pos)"
    if "linked \<and> (\<exists>k < 5. systems k \<noteq> 0)"
    using early_stop_lost [of ?c ?s] that by (auto simp: on_position_def setLocation_def Let_def)
  ultimately show ?thesis using accepted_spaced unaccepted_location by (simp add: Let_def)
qed

text \<open>A node that reports at 0, 10 and 30 ms.\<close>

definition example_vehicle :: vehicle where
  "example_vehicle = \<lparr>vs_handler = \<lparr>vh_connection = '''', vh_nodeId = '''', vh_node = '''', vh_running = True\<rparr>,
     vs_node = Node_new 0 (NodeConfig_new 0 0), vs_subscribed = True, vs_lastPositionUpdate = - 1000000000, vs_lastVelocityUpdate = - 1000000000,
     vs_last_rate_hz = to_rate_hz 20, vs_rates = []\<rparr>"

lemma example_accepted:
  "accepted_positions (map (\<lambda>ms. Position (1000000 * ms) 20 \<lparr>loc_lat = Fin 1, loc_lon = Fin 1, loc_alt = Fin 1\<rparr>) [0, 10, 30]) example_vehicle =
   [0, 30000000]"
  by (simp add: example_vehicle_def on_position_def minUpdateInterval_def Let_def)

text \<open>The same node stopped for good, and stopped while it connects.\<close>

definition example_position :: "int \<Rightarrow> vehicle_event" where
  "example_position now = Position now 20 \<lparr>loc_lat = Fin 1, loc_lon = Fin 1, loc_alt = Fin 1\<rparr>"

theorem telemetry_throttled_witness:
  "vs_node (fold vehicle_step [example_position 0] (vehicle_step Stop_call example_vehicle)) = vs_node example_vehicle \<and>
   accepted_positions [Stop_call, example_position 0] example_vehicle = [] \<and>
   nd_location (vs_node (fold vehicle_step [Stop_call, example_position 0] example_vehicle)) = nd_location (vs_node example_vehicle) \<and>
   nd_location (vs_node (fold vehicle_step [Stop_call, Connect_phase True (\<lambda>_. 1) 0 20, example_position 0] example_vehicle)) =
     \<lparr>loc_lat = Fin 1, loc_lon = Fin 1, loc_alt = Fin 1\<rparr>"
proof -
  have a: "accepted_positions [Stop_call, example_position 0] example_vehicle = []"
    by (simp add: example_position_def example_vehicle_def on_position_def Handler_Stop_def Let_def)
  have e: "vs_lastPositionUpdate example_vehicle + minUpdateInterval 20 \<le> 0"
    by (simp add: example_vehicle_def minUpdateInterval_def)
  note T = telemetry_throttled [of example_vehicle _ True "\<lambda>_. 1" 0 20 20 0 "\<lparr>loc_lat = Fin 1, loc_lon = Fin 1, loc_alt = Fin 1\<rparr>"]
  have "vs_node (fold vehicle_step [example_position 0] (vehicle_step Stop_call example_vehicle)) = vs_node example_vehicle"
    using T [of "[example_position 0]"] by (simp add: example_position_def del: fold_simps vehicle_step.simps)
  moreover have "nd_location (vs_node (fold vehicle_step [Stop_call, example_position 0] example_vehicle)) = nd_location (vs_node example_vehicle)"
    using T [of "[Stop_call, example_position 0]"] a by (simp add: example_position_def del: fold_simps vehicle_step.simps)
  moreover have "nd_location (vs_node (fold vehicle_step [Stop_call, Connect_phase True (\<lambda>_. 1) 0 20, example_position 0] example_vehicle)) =
     \<lparr>loc_lat = Fin 1, loc_lon = Fin 1, loc_alt = Fin 1\<rparr>"
    using T [of "[]"] e exI [of "\<lambda>k. k < (5 :: nat)" 0] by (simp add: example_position_def Let_def del: vehicle_step.simps)
  ultimately show ?thesis using a by blast
qed

text \<open>A system that appears in the sixth second.\<close>

theorem vehicle_start_outcomes_witness:
  "Handler_Start True (\<lambda>k. if k < 6 then 0 else 1) 0 20 example_vehicle = example_vehicle"
  using vehicle_start_outcomes [of True "\<lambda>k. if k < 6 then 0 else 1" 0 20 example_vehicle] by simp

end
