(* ===== verification/Benchmark.thy ===== *)
theory Benchmark
  imports Intermediate_Channel Process_Stats
begin

text \<open>
  The load generator, \<open>src/chem/benchmark/achem_benchmark.cpp\<close>: the command line, the latency statistics, the
  accounting of a scenario, the generator of signals, the transmitter that collects them, and the
  loops over the scenarios. What a scenario measures is a parameter: it runs the threads of the emulator
  against the clock. Printing and the CSV file are not modelled.
\<close>

section \<open>Configuration\<close>

record BenchmarkConfig =
  bc_max_connections :: nat
  bc_benchmark_duration_s :: fp
  bc_warmup_duration_s :: real
  bc_frequency_hz :: fp
  bc_sample_rate :: nat
  bc_num_channels :: nat
  bc_signal_duration_us :: nat
  bc_max_latency_ms :: int
  bc_drop_threshold :: fp
  bc_output_file :: string
  bc_verbose :: bool
  bc_max_mode :: bool
  bc_detailed_timing :: bool
  bc_cir_taps :: nat
  bc_runs :: nat
  bc_numa_node :: int

definition BenchmarkConfig_new :: BenchmarkConfig where
  "BenchmarkConfig_new =
     \<lparr>bc_max_connections = 8, bc_benchmark_duration_s = Fin 10, bc_warmup_duration_s = 1, bc_frequency_hz = Fin 2680000000,
      bc_sample_rate = 11520000, bc_num_channels = 1, bc_signal_duration_us = 1000, bc_max_latency_ms = 5,
      bc_drop_threshold = Fin (1 / 10), bc_output_file = ''achem_benchmark_results.csv'', bc_verbose = False,
      bc_max_mode = False, bc_detailed_timing = False, bc_cir_taps = 0, bc_runs = 1, bc_numa_node = - 1\<rparr>"

definition N_CH :: nat where
  "N_CH = 4"

text \<open>\<open>std::stoul\<close>: a minus sign negates modulo \<open>2 ^ 64\<close>.\<close>

definition stoul :: "string \<Rightarrow> nat result" where
  "stoul s =
     (let (neg, body) = read_sign (dropWhile is_space s); ds = takeWhile is_digit body; v = read_digits ds
      in if ds = [] then Inl (Invalid_argument ''stoul'')
         else if 2 ^ 64 \<le> v then Inl (Out_of_range ''stoul'')
         else Inr (if neg then (2 ^ 64 - v) mod 2 ^ 64 else v))"

text \<open>The ways \<open>parseArgs\<close> ends other than with a configuration; an exception is not caught.\<close>

datatype stop = Exit int | Threw cpp_exn

definition lift_arg :: "'a result \<Rightarrow> ('a \<Rightarrow> stop + BenchmarkConfig) \<Rightarrow> stop + BenchmarkConfig" where
  "lift_arg r f = (case r of Inl e \<Rightarrow> Inl (Threw e) | Inr x \<Rightarrow> f x)"

text \<open>The options that take a value.\<close>

definition value_option :: "string \<Rightarrow> (string \<Rightarrow> BenchmarkConfig \<Rightarrow> stop + BenchmarkConfig) option" where
  "value_option arg =
     (if arg = ''-m'' \<or> arg = ''--max-connections'' then Some (\<lambda>v cfg. lift_arg (stoul v) (\<lambda>n. Inr (cfg\<lparr>bc_max_connections := n\<rparr>)))
      else if arg = ''-s'' \<or> arg = ''--duration'' then Some (\<lambda>v cfg. lift_arg (stod v) (\<lambda>x. Inr (cfg\<lparr>bc_benchmark_duration_s := x\<rparr>)))
      else if arg = ''-C'' \<or> arg = ''--cir-taps'' then Some (\<lambda>v cfg. lift_arg (stoul v) (\<lambda>n. Inr (cfg\<lparr>bc_cir_taps := n\<rparr>)))
      else if arg = ''-f'' \<or> arg = ''--frequency'' then Some (\<lambda>v cfg. lift_arg (stod v) (\<lambda>x. Inr (cfg\<lparr>bc_frequency_hz := x\<rparr>)))
      else if arg = ''-r'' \<or> arg = ''--sample-rate'' then Some (\<lambda>v cfg. lift_arg (stoul v) (\<lambda>n. Inr (cfg\<lparr>bc_sample_rate := n mod 2 ^ 32\<rparr>)))
      else if arg = ''-c'' \<or> arg = ''--channels'' then
        Some (\<lambda>v cfg. lift_arg (stoi v) (\<lambda>ch. if ch < 1 \<or> int N_CH < ch then Inl (Exit 1) else Inr (cfg\<lparr>bc_num_channels := nat ch\<rparr>)))
      else if arg = ''-D'' \<or> arg = ''--signal-duration'' then Some (\<lambda>v cfg. lift_arg (stoul v) (\<lambda>n. Inr (cfg\<lparr>bc_signal_duration_us := n\<rparr>)))
      else if arg = ''-l'' \<or> arg = ''--max-latency'' then Some (\<lambda>v cfg. lift_arg (stoll v) (\<lambda>i. Inr (cfg\<lparr>bc_max_latency_ms := i\<rparr>)))
      else if arg = ''-t'' \<or> arg = ''--threshold'' then
        Some (\<lambda>v cfg. lift_arg (stod v) (\<lambda>x. Inr (cfg\<lparr>bc_drop_threshold := fp_div x (Fin 100)\<rparr>)))
      else if arg = ''-o'' \<or> arg = ''--output'' then Some (\<lambda>v cfg. Inr (cfg\<lparr>bc_output_file := v\<rparr>))
      else if arg = ''-R'' \<or> arg = ''--runs'' then Some (\<lambda>v cfg. lift_arg (stoul v) (\<lambda>n. Inr (cfg\<lparr>bc_runs := n\<rparr>)))
      else if arg = ''-N'' \<or> arg = ''--numa-node'' then Some (\<lambda>v cfg. lift_arg (stoi v) (\<lambda>i. Inr (cfg\<lparr>bc_numa_node := i\<rparr>)))
      else None)"

definition flag_option :: "string \<Rightarrow> BenchmarkConfig \<Rightarrow> BenchmarkConfig option" where
  "flag_option arg cfg =
     (if arg = ''-M'' \<or> arg = ''--max-mode'' then Some (cfg\<lparr>bc_max_mode := True\<rparr>)
      else if arg = ''-d'' \<or> arg = ''--detailed-timing'' then Some (cfg\<lparr>bc_detailed_timing := True\<rparr>)
      else if arg = ''-v'' \<or> arg = ''--verbose'' then Some (cfg\<lparr>bc_verbose := True\<rparr>)
      else None)"

fun parse_options :: "string list \<Rightarrow> BenchmarkConfig \<Rightarrow> stop + BenchmarkConfig" where
  "parse_options [] cfg = Inr cfg"
| "parse_options [arg] cfg =
     (if arg = ''-h'' \<or> arg = ''--help'' then Inl (Exit 0)
      else case flag_option arg cfg of Some c \<Rightarrow> Inr c | None \<Rightarrow> Inl (Exit 1))"
| "parse_options (arg # v # rest) cfg =
     (if arg = ''-h'' \<or> arg = ''--help'' then Inl (Exit 0)
      else case value_option arg of
             Some f \<Rightarrow> (case f v cfg of Inl e \<Rightarrow> Inl e | Inr c \<Rightarrow> parse_options rest c)
           | None \<Rightarrow> (case flag_option arg cfg of Some c \<Rightarrow> parse_options (v # rest) c | None \<Rightarrow> Inl (Exit 1)))"

text \<open>The checks behind the loop; the sizes are computed in \<open>long double\<close>.\<close>

definition config_samples :: "BenchmarkConfig \<Rightarrow> real" where
  "config_samples cfg = real (bc_signal_duration_us cfg) * real (bc_sample_rate cfg) / 1000000"

definition check_config :: "BenchmarkConfig \<Rightarrow> bool" where
  "check_config cfg \<longleftrightarrow> bc_max_connections cfg \<noteq> 0 \<and> \<not> fp_le (bc_benchmark_duration_s cfg) (Fin 0) \<and>
     \<not> fp_less (bc_drop_threshold cfg) (Fin 0) \<and> \<not> fp_less (Fin 1) (bc_drop_threshold cfg) \<and> 0 < bc_max_latency_ms cfg \<and>
     bc_signal_duration_us cfg \<noteq> 0 \<and> bc_runs cfg \<noteq> 0 \<and>
     \<not> real IQ_SIZE < config_samples cfg * 4 * real (bc_num_channels cfg) \<and> \<not> real MAX_NUM_SAMPLES < config_samples cfg"

definition parseArgs :: "string list \<Rightarrow> stop + BenchmarkConfig" where
  "parseArgs args =
     (case parse_options args BenchmarkConfig_new of
        Inl e \<Rightarrow> Inl e
      | Inr cfg \<Rightarrow> if check_config cfg then Inr cfg else Inl (Exit 1))"

section \<open>Latencies\<close>

record LatencyResult =
  lr_min_us :: real
  lr_avg_us :: real
  lr_p50_us :: real
  lr_p90_us :: real
  lr_p95_us :: real
  lr_p99_us :: real
  lr_p999_us :: real
  lr_max_us :: real
  lr_count :: nat

definition LatencyResult_new :: LatencyResult where
  "LatencyResult_new = \<lparr>lr_min_us = 0, lr_avg_us = 0, lr_p50_us = 0, lr_p90_us = 0, lr_p95_us = 0, lr_p99_us = 0,
     lr_p999_us = 0, lr_max_us = 0, lr_count = 0\<rparr>"

definition percentile :: "int list \<Rightarrow> real \<Rightarrow> real" where
  "percentile xs p =
     (if xs = [] then 0
      else let idx = p * real (length xs - 1); lo = nat \<lfloor>idx\<rfloor>; hi = min (lo + 1) (length xs - 1); frac = idx - real lo
           in (of_int (xs ! lo) * (1 - frac) + of_int (xs ! hi) * frac) / 1000)"

text \<open>\<open>compute\<close> sorts the recorded samples in place.\<close>

definition compute :: "int list \<Rightarrow> LatencyResult \<times> int list" where
  "compute samples =
     (if samples = [] then (LatencyResult_new, samples)
      else let xs = sort samples; n = length xs
           in (\<lparr>lr_min_us = of_int (xs ! 0) / 1000, lr_avg_us = of_int (sum_list xs) / real n / 1000,
                lr_p50_us = percentile xs (50 / 100), lr_p90_us = percentile xs (90 / 100), lr_p95_us = percentile xs (95 / 100),
                lr_p99_us = percentile xs (99 / 100), lr_p999_us = percentile xs (999 / 1000),
                lr_max_us = of_int (last xs) / 1000, lr_count = n\<rparr>, xs))"

text \<open>The samples of the nine recorders of a scenario.\<close>

record BenchmarkRecorders =
  br_recv_to_proc_start :: "int list"
  br_proc_start_to_end :: "int list"
  br_proc_end_to_send :: "int list"
  br_total_latency :: "int list"
  br_latency_resample :: "int list"
  br_latency_cir :: "int list"
  br_latency_pathloss :: "int list"
  br_latency_noise :: "int list"
  br_latency_freq_offset :: "int list"

definition recorders_reset :: BenchmarkRecorders where
  "recorders_reset = \<lparr>br_recv_to_proc_start = [], br_proc_start_to_end = [], br_proc_end_to_send = [], br_total_latency = [],
     br_latency_resample = [], br_latency_cir = [], br_latency_pathloss = [], br_latency_noise = [], br_latency_freq_offset = []\<rparr>"

section \<open>A scenario\<close>

record ScenarioStats =
  st_tx_count :: nat
  st_rx_count :: nat
  st_signals_generated :: nat
  st_signals_intended :: nat
  st_signals_received :: nat
  st_dropped_old :: nat
  st_dropped_pool :: nat
  st_dropped_age :: nat
  st_measuring :: bool
  st_recv_to_proc_start :: LatencyResult
  st_proc_start_to_end :: LatencyResult
  st_proc_end_to_send :: LatencyResult
  st_total_latency :: LatencyResult
  st_latency_resample :: LatencyResult
  st_latency_cir :: LatencyResult
  st_latency_pathloss :: LatencyResult
  st_latency_noise :: LatencyResult
  st_latency_freq_offset :: LatencyResult
  st_cpu_user_time_ms :: real
  st_cpu_system_time_ms :: real
  st_peak_memory_kb :: nat
  st_start_ms :: int
  st_end_ms :: int

definition expected :: "ScenarioStats \<Rightarrow> nat" where
  "expected s = (st_signals_generated s * st_tx_count s) mod 2 ^ 64"

definition pool_exhausted :: "ScenarioStats \<Rightarrow> nat" where
  "pool_exhausted s = size_sub (st_signals_intended s) (st_signals_generated s)"

definition unaccounted_drops :: "ScenarioStats \<Rightarrow> nat" where
  "unaccounted_drops s =
     (let known = st_dropped_old s + st_dropped_pool s + st_dropped_age s * st_tx_count s
      in if expected s \<le> st_signals_received s + known then 0 else expected s - st_signals_received s - known)"

definition drop_rate :: "ScenarioStats \<Rightarrow> real" where
  "drop_rate s = (if expected s = 0 then 0 else 1 - real (st_signals_received s) / real (expected s))"

definition throughput :: "ScenarioStats \<Rightarrow> real" where
  "throughput s = (let ms = st_end_ms s - st_start_ms s in if ms = 0 then 0 else real (st_signals_received s) / of_int ms * 1000)"

definition stats_reset :: "ScenarioStats \<Rightarrow> ScenarioStats" where
  "stats_reset s = s\<lparr>st_signals_generated := 0, st_signals_intended := 0, st_signals_received := 0, st_dropped_old := 0,
     st_dropped_pool := 0, st_dropped_age := 0, st_cpu_user_time_ms := 0, st_cpu_system_time_ms := 0, st_peak_memory_kb := 0\<rparr>"

definition computeAll :: "BenchmarkRecorders \<Rightarrow> ScenarioStats \<Rightarrow> ScenarioStats" where
  "computeAll r s = s\<lparr>st_recv_to_proc_start := fst (compute (br_recv_to_proc_start r)),
     st_proc_start_to_end := fst (compute (br_proc_start_to_end r)), st_proc_end_to_send := fst (compute (br_proc_end_to_send r)),
     st_total_latency := fst (compute (br_total_latency r)), st_latency_resample := fst (compute (br_latency_resample r)),
     st_latency_cir := fst (compute (br_latency_cir r)), st_latency_pathloss := fst (compute (br_latency_pathloss r)),
     st_latency_noise := fst (compute (br_latency_noise r)), st_latency_freq_offset := fst (compute (br_latency_freq_offset r))\<rparr>"

text \<open>A scenario passes when its drop rate is below the threshold.\<close>

definition passes :: "BenchmarkConfig \<Rightarrow> ScenarioStats \<Rightarrow> bool" where
  "passes cfg s = fp_less (Fin (drop_rate s)) (bc_drop_threshold cfg)"

section \<open>Signals\<close>

text \<open>The product of duration and rate is a \<open>size_t\<close>.\<close>

definition gen_samples :: "BenchmarkConfig \<Rightarrow> nat" where
  "gen_samples cfg = nat \<lfloor>real ((bc_signal_duration_us cfg * bc_sample_rate cfg) mod 2 ^ 64) / 1000000\<rfloor>"

definition computeTotalBytes :: "BenchmarkConfig \<Rightarrow> nat result" where
  "computeTotalBytes cfg =
     (let samples = gen_samples cfg; bytes = samples * 4 * bc_num_channels cfg
      in if samples = 0 then Inl (Runtime_error ''samples per signal is 0'')
         else if MAX_NUM_SAMPLES < samples then Inl (Runtime_error ''samples exceeds MAX_NUM_SAMPLES'')
         else if IQ_SIZE < bytes then Inl (Runtime_error ''signal size exceeds IQ_SIZE'')
         else Inr bytes)"

definition signalBufferSize :: "BenchmarkConfig \<Rightarrow> nat" where
  "signalBufferSize cfg = gen_samples cfg * 4 * bc_num_channels cfg + HEADER_SIZE"

definition BENCH_QUEUE_DEPTH :: nat where
  "BENCH_QUEUE_DEPTH = 64"

definition poolSize :: "nat \<Rightarrow> nat \<Rightarrow> nat" where
  "poolSize tx_count rx_count = rx_count * (min QUEUE_CAP BENCH_QUEUE_DEPTH + tx_count) + rx_count * 32"

definition gen_header :: "BenchmarkConfig \<Rightarrow> Header result" where
  "gen_header cfg = rmap (\<lambda>bytes. zero_Header\<lparr>hdr_size := of_nat bytes, hdr_sample_rate := of_nat (bc_sample_rate cfg),
     hdr_number_of_samples := of_nat (gen_samples cfg), hdr_total_frags := 1, hdr_number_of_channels := of_nat (bc_num_channels cfg)\<rparr>)
     (computeTotalBytes cfg)"

definition generate :: "Header \<Rightarrow> string \<Rightarrow> real \<Rightarrow> iq_pool \<Rightarrow> Signal option \<times> iq_pool" where
  "generate hdr src_id freq pool =
     (if available pool = 0 then (None, pool)
      else case acquire pool of
             Inl _ \<Rightarrow> (None, pool)
           | Inr (buffer, pool') \<Rightarrow> (Some (Signal_new (0, 0, 0) (Some buffer) hdr freq src_id), pool'))"

definition stampSignal :: "BenchmarkConfig \<Rightarrow> int \<Rightarrow> Signal \<Rightarrow> Signal" where
  "stampSignal cfg now_ns sig =
     sig\<lparr>sig_header := (sig_header sig)\<lparr>hdr_start := of_int now_ns,
       hdr_end := of_int (now_ns + int (bc_signal_duration_us cfg * 1000)), hdr_rt_tx_time := of_int now_ns\<rparr>\<rparr>"

text \<open>One injection: counted as intended in any case, generated when the pool has a buffer.\<close>

definition inject :: "BenchmarkConfig \<Rightarrow> Header \<Rightarrow> real \<Rightarrow> int \<times> string \<Rightarrow> ScenarioStats \<times> iq_pool \<Rightarrow> Signal option \<times> ScenarioStats \<times> iq_pool" where
  "inject cfg hdr freq = (\<lambda>(now_ns, src_id) (s, pool).
     let s1 = s\<lparr>st_signals_intended := st_signals_intended s + 1\<rparr>
     in case generate hdr src_id freq pool of
          (None, pool') \<Rightarrow> (None, s1, pool')
        | (Some sig, pool') \<Rightarrow> (Some (stampSignal cfg now_ns sig), s1\<lparr>st_signals_generated := st_signals_generated s1 + 1\<rparr>, pool'))"

text \<open>\<open>MockTransmitter::Add2Buff\<close>: a signal of the measurement is counted as old or as received, and its
  buffer goes back to the pool. The bound of the latency is a \<open>float\<close> product. The
  times of reception and of the start and end of the processing, which the signal carries, are an argument.\<close>

definition max_latency_ns :: "int \<Rightarrow> int" where
  "max_latency_ns ms = f32 (f32 ms * 1000000)"

definition Mock_Add2Buff ::
  "BenchmarkConfig \<Rightarrow> int \<Rightarrow> int \<times> int \<times> int \<Rightarrow> Signal \<Rightarrow> ScenarioStats \<times> BenchmarkRecorders \<times> iq_pool \<Rightarrow>
   (ScenarioStats \<times> BenchmarkRecorders \<times> iq_pool) result" where
  "Mock_Add2Buff cfg now_ns = (\<lambda>(t_recv, t_ps, t_pe) sig (s, r, pool).
     let (s', r') =
       (if \<not> st_measuring s then (s, r)
        else if start_time sig < now_ns - max_latency_ns (bc_max_latency_ms cfg)
        then (s\<lparr>st_dropped_old := st_dropped_old s + 1\<rparr>, r)
        else let r1 = (if 0 < t_recv \<and> 0 < t_ps then r\<lparr>br_recv_to_proc_start := br_recv_to_proc_start r @ [t_ps - t_recv]\<rparr> else r);
                 r2 = (if 0 < t_pe then r1\<lparr>br_proc_end_to_send := br_proc_end_to_send r1 @ [now_ns - t_pe]\<rparr> else r1);
                 r3 = (if 0 < t_recv then r2\<lparr>br_total_latency := br_total_latency r2 @ [now_ns - t_recv]\<rparr> else r2)
             in (s\<lparr>st_signals_received := st_signals_received s + 1\<rparr>, r3))
     in rmap (\<lambda>p. (s', r', p)) (release 0 (sig_iq sig) pool))"

text \<open>The callbacks a scenario installs in the channel: the duration of the processing of a signal, and the
  times at which a link finished its steps.\<close>

definition signal_processing_callback :: "int \<Rightarrow> ScenarioStats \<Rightarrow> BenchmarkRecorders \<Rightarrow> BenchmarkRecorders" where
  "signal_processing_callback duration_ns s r =
     (if \<not> st_measuring s then r else r\<lparr>br_proc_start_to_end := br_proc_start_to_end r @ [duration_ns]\<rparr>)"

record ChannelProcessTiming =
  cpt_t_start :: int
  cpt_t_resample :: int
  cpt_t_cir :: int
  cpt_t_pathloss :: int
  cpt_t_noise :: int
  cpt_t_freq_offset :: int
  cpt_t_end :: int

definition step_latency :: "int \<Rightarrow> int \<Rightarrow> int list \<Rightarrow> int list" where
  "step_latency before after xs = (if before < after then xs @ [after - before] else xs)"

definition timing_callback :: "ChannelProcessTiming \<Rightarrow> ScenarioStats \<Rightarrow> BenchmarkRecorders \<Rightarrow> BenchmarkRecorders" where
  "timing_callback t s r =
     (if \<not> st_measuring s then r
      else r\<lparr>br_latency_resample := step_latency (cpt_t_start t) (cpt_t_resample t) (br_latency_resample r),
             br_latency_cir := step_latency (cpt_t_resample t) (cpt_t_cir t) (br_latency_cir r),
             br_latency_pathloss := step_latency (cpt_t_cir t) (cpt_t_pathloss t) (br_latency_pathloss r),
             br_latency_noise := step_latency (cpt_t_pathloss t) (cpt_t_noise t) (br_latency_noise r),
             br_latency_freq_offset := step_latency (cpt_t_noise t) (cpt_t_freq_offset t) (br_latency_freq_offset r)\<rparr>)"

section \<open>The scenarios\<close>

text \<open>The run with the median drop rate of the runs of a scenario. \<open>std::sort\<close> may order runs of one drop rate
  differently: the drop rate of the chosen run, and with it the verdict, is the same. The
  copy that is returned does not take over the flag of the measurement.\<close>

definition runWithMedian :: "(nat \<Rightarrow> ScenarioStats) \<Rightarrow> nat \<Rightarrow> ScenarioStats" where
  "runWithMedian run R = (run (sort_key (\<lambda>r. drop_rate (run r)) [0..<R] ! (R div 2)))\<lparr>st_measuring := False\<rparr>"

definition maxPassedNodes :: "BenchmarkConfig \<Rightarrow> ScenarioStats list \<Rightarrow> nat" where
  "maxPassedNodes cfg results = fold (\<lambda>s m. if passes cfg s then max m (st_tx_count s) else m) results 0"

definition runFullMode :: "BenchmarkConfig \<Rightarrow> (nat \<Rightarrow> nat \<Rightarrow> ScenarioStats) \<Rightarrow> bool \<times> nat" where
  "runFullMode cfg run =
     (let results = map (\<lambda>n. runWithMedian (run n) (bc_runs cfg)) [1..<bc_max_connections cfg + 1]
      in (list_all (passes cfg) results, maxPassedNodes cfg results))"

text \<open>The number of nodes doubles until a scenario fails; it is a \<open>size_t\<close>, so the loop need not end
  for a limit of \<open>2 ^ 63\<close> nodes or more.\<close>

partial_function (option) max_loop :: "BenchmarkConfig \<Rightarrow> (nat \<Rightarrow> ScenarioStats) \<Rightarrow> nat \<Rightarrow> nat \<Rightarrow> (bool \<times> nat) option" where
  "max_loop cfg scenario n last_passed =
     (if n \<le> bc_max_connections cfg
      then if passes cfg (scenario n) then max_loop cfg scenario (2 * n mod 2 ^ 64) n else Some (False, last_passed)
      else Some (True, last_passed))"

definition runMaxMode :: "BenchmarkConfig \<Rightarrow> (nat \<Rightarrow> nat \<Rightarrow> ScenarioStats) \<Rightarrow> (bool \<times> nat) option" where
  "runMaxMode cfg run = max_loop cfg (\<lambda>n. runWithMedian (run n) (bc_runs cfg)) 1 0"

definition runAllScenarios :: "BenchmarkConfig \<Rightarrow> (nat \<Rightarrow> nat \<Rightarrow> ScenarioStats) \<Rightarrow> bool option" where
  "runAllScenarios cfg run =
     (if bc_max_mode cfg then map_option fst (runMaxMode cfg run) else Some (fst (runFullMode cfg run)))"

section \<open>Percentiles\<close>

text \<open>The value between the elements of a list at a position.\<close>

definition interp :: "int list \<Rightarrow> real \<Rightarrow> real" where
  "interp xs t =
     of_int (xs ! nat \<lfloor>t\<rfloor>) * (1 - (t - real (nat \<lfloor>t\<rfloor>))) + of_int (xs ! min (nat \<lfloor>t\<rfloor> + 1) (length xs - 1)) * (t - real (nat \<lfloor>t\<rfloor>))"

lemma percentile_interp: "xs \<noteq> [] \<Longrightarrow> percentile xs p = interp xs (p * real (length xs - 1)) / 1000"
  by (simp add: percentile_def interp_def Let_def)

lemma floor_pos:
  assumes "0 \<le> t" "t \<le> real m"
  shows "nat \<lfloor>t\<rfloor> \<le> m" "real (nat \<lfloor>t\<rfloor>) \<le> t" "t < real (nat \<lfloor>t\<rfloor>) + 1"
  using assms by (simp_all add: nat_le_iff floor_le_iff)

lemma mix_bounds:
  fixes a b f :: real
  assumes "a \<le> b" "0 \<le> f" "f \<le> 1"
  shows "a \<le> a * (1 - f) + b * f" "a * (1 - f) + b * f \<le> b"
proof -
  have "0 \<le> (b - a) * f" "0 \<le> (b - a) * (1 - f)" using assms by simp_all
  then show "a \<le> a * (1 - f) + b * f" "a * (1 - f) + b * f \<le> b" by (simp_all add: algebra_simps)
qed

lemma interp_bounds:
  assumes "sorted xs" "xs \<noteq> []" "0 \<le> t" "t \<le> real (length xs - 1)"
  shows "of_int (xs ! nat \<lfloor>t\<rfloor>) \<le> interp xs t" "interp xs t \<le> of_int (xs ! min (nat \<lfloor>t\<rfloor> + 1) (length xs - 1))"
proof -
  note F = floor_pos [OF assms(3,4)]
  have f: "0 \<le> t - real (nat \<lfloor>t\<rfloor>)" "t - real (nat \<lfloor>t\<rfloor>) \<le> 1" using F(2,3) by linarith+
  have len: "length xs - 1 < length xs" using assms(2) by (cases xs) auto
  then have m: "xs ! nat \<lfloor>t\<rfloor> \<le> xs ! min (nat \<lfloor>t\<rfloor> + 1) (length xs - 1)"
    using F(1) by (intro sorted_nth_mono [OF assms(1)]) (auto simp: min_def)
  then have "real_of_int (xs ! nat \<lfloor>t\<rfloor>) \<le> of_int (xs ! min (nat \<lfloor>t\<rfloor> + 1) (length xs - 1))" by simp
  then show "of_int (xs ! nat \<lfloor>t\<rfloor>) \<le> interp xs t" "interp xs t \<le> of_int (xs ! min (nat \<lfloor>t\<rfloor> + 1) (length xs - 1))"
    unfolding interp_def using mix_bounds [of _ _ "t - real (nat \<lfloor>t\<rfloor>)"] f by blast+
qed

lemma interp_mono:
  assumes "sorted xs" "xs \<noteq> []" "0 \<le> s" "s \<le> t" "t \<le> real (length xs - 1)"
  shows "interp xs s \<le> interp xs t"
proof -
  have len: "length xs - 1 < length xs" using assms(2) by (cases xs) auto
  have st: "0 \<le> t" "s \<le> real (length xs - 1)" using assms by simp_all
  note Fs = floor_pos [OF assms(3) st(2)] and Ft = floor_pos [OF st(1) assms(5)]
  have le: "nat \<lfloor>s\<rfloor> \<le> nat \<lfloor>t\<rfloor>" using assms(4) by (simp add: floor_mono nat_mono)
  show ?thesis
  proof (cases "nat \<lfloor>s\<rfloor> = nat \<lfloor>t\<rfloor>")
    case True
    let ?a = "real_of_int (xs ! nat \<lfloor>t\<rfloor>)" and ?b = "real_of_int (xs ! min (nat \<lfloor>t\<rfloor> + 1) (length xs - 1))"
    have "xs ! nat \<lfloor>t\<rfloor> \<le> xs ! min (nat \<lfloor>t\<rfloor> + 1) (length xs - 1)"
      using Ft(1) len by (intro sorted_nth_mono [OF assms(1)]) (auto simp: min_def)
    then have "0 \<le> (?b - ?a) * (t - s)" using assms(4) by simp
    moreover have "interp xs t - interp xs s = (?b - ?a) * (t - s)" unfolding interp_def True by (simp add: algebra_simps)
    ultimately show ?thesis by simp
  next
    case False
    then have "min (nat \<lfloor>s\<rfloor> + 1) (length xs - 1) \<le> nat \<lfloor>t\<rfloor>" using le by auto
    then have "xs ! min (nat \<lfloor>s\<rfloor> + 1) (length xs - 1) \<le> xs ! nat \<lfloor>t\<rfloor>"
      using Ft(1) len by (intro sorted_nth_mono [OF assms(1)]) auto
    then show ?thesis
      using interp_bounds(2) [OF assms(1-3) st(2)] interp_bounds(1) [OF assms(1,2) st(1) assms(5)]
      by (meson of_int_le_iff order_trans)
  qed
qed

lemma interp_ends:
  assumes "sorted xs" "xs \<noteq> []"
  shows "interp xs 0 = of_int (xs ! 0)" "interp xs (real (length xs - 1)) = of_int (last xs)"
  using assms(2) by (simp_all add: interp_def last_conv_nth)

lemma sum_list_bounds:
  assumes "\<forall>x \<in> set xs. a \<le> x \<and> x \<le> (b :: int)"
  shows "int (length xs) * a \<le> sum_list xs \<and> sum_list xs \<le> int (length xs) * b"
  using assms by (induction xs) (auto simp: algebra_simps)

text \<open>The statistics of any recorded latencies are consistent: the minimum, the five percentiles and the
  maximum are in ascending order, the average lies between minimum and maximum, and the samples
  are kept, only reordered.\<close>

theorem latency_statistics_consistent:
  assumes "samples \<noteq> []" and "compute samples = (r, xs)"
  shows "lr_min_us r \<le> lr_p50_us r \<and> lr_p50_us r \<le> lr_p90_us r \<and> lr_p90_us r \<le> lr_p95_us r \<and> lr_p95_us r \<le> lr_p99_us r \<and>
    lr_p99_us r \<le> lr_p999_us r \<and> lr_p999_us r \<le> lr_max_us r \<and> lr_min_us r \<le> lr_avg_us r \<and> lr_avg_us r \<le> lr_max_us r \<and>
    lr_count r = length samples \<and> mset xs = mset samples \<and>
    (\<forall>x \<in> set samples. lr_min_us r \<le> of_int x / 1000 \<and> of_int x / 1000 \<le> lr_max_us r)"
proof -
  define n where "n = real (length xs - 1)"
  have xs: "xs = sort samples" using assms by (auto simp: compute_def Let_def)
  have srt: "sorted xs" "xs \<noteq> []" using assms(1) by (simp_all add: xs flip: length_greater_0_conv)
  have r: "r = \<lparr>lr_min_us = of_int (xs ! 0) / 1000, lr_avg_us = of_int (sum_list xs) / real (length xs) / 1000,
      lr_p50_us = interp xs (50 / 100 * n) / 1000, lr_p90_us = interp xs (90 / 100 * n) / 1000, lr_p95_us = interp xs (95 / 100 * n) / 1000,
      lr_p99_us = interp xs (99 / 100 * n) / 1000, lr_p999_us = interp xs (999 / 1000 * n) / 1000,
      lr_max_us = of_int (last xs) / 1000, lr_count = length xs\<rparr>"
    using assms srt by (simp add: compute_def Let_def percentile_interp n_def xs)
  have n: "0 \<le> n" "n \<le> real (length xs - 1)" by (simp_all add: n_def)
  have le: "interp xs (a * n) \<le> interp xs (b * n)" if "0 \<le> a" "a \<le> b" "b \<le> 1" for a b
    using that n mult_right_mono [of b 1 n] by (intro interp_mono [OF srt]) (auto intro: mult_right_mono)
  have ends: "of_int (xs ! 0) = interp xs (0 * n)" "of_int (last xs) = interp xs (1 * n)"
    using interp_ends [OF srt] by (simp_all add: n_def)
  have mem: "xs ! 0 \<le> x \<and> x \<le> last xs" if mx: "x \<in> set xs" for x
  proof -
    obtain i where "i < length xs" "x = xs ! i" using mx by (metis in_set_conv_nth)
    then show ?thesis using sorted_nth_mono [OF srt(1), of 0 i] sorted_nth_mono [OF srt(1), of i "length xs - 1"] srt(2)
      by (simp add: last_conv_nth)
  qed
  then have avg: "int (length xs) * (xs ! 0) \<le> sum_list xs" "sum_list xs \<le> int (length xs) * last xs"
    using sum_list_bounds [of xs "xs ! 0" "last xs"] by blast+
  have pos: "0 < real (length xs)" using srt(2) by simp
  have "real_of_int (xs ! 0) \<le> of_int (sum_list xs) / real (length xs) \<and> of_int (sum_list xs) / real (length xs) \<le> real_of_int (last xs)"
    unfolding pos_le_divide_eq [OF pos] pos_divide_le_eq [OF pos]
    using avg by (metis mult.commute of_int_le_iff of_int_mult of_int_of_nat_eq)
  moreover have "lr_min_us r \<le> lr_p50_us r" "lr_p50_us r \<le> lr_p90_us r" "lr_p90_us r \<le> lr_p95_us r" "lr_p95_us r \<le> lr_p99_us r"
    "lr_p99_us r \<le> lr_p999_us r" "lr_p999_us r \<le> lr_max_us r"
    unfolding r LatencyResult.simps ends by (intro divide_right_mono le; simp)+
  ultimately show ?thesis using mem xs by (simp add: r divide_right_mono)
qed

theorem latency_statistics_consistent_witness:
  "lr_p50_us (fst (compute [3000, 1000, 2000])) \<le> lr_p90_us (fst (compute [3000, 1000, 2000]))"
  using latency_statistics_consistent [of "[3000, 1000, 2000]"] by (metis list.distinct(1) prod.collapse)

section \<open>Accepted configurations\<close>

definition sane_config :: "BenchmarkConfig \<Rightarrow> bool" where
  "sane_config cfg \<longleftrightarrow> 1 \<le> bc_num_channels cfg \<and> bc_num_channels cfg \<le> N_CH"

text \<open>What an option makes of a configuration keeps the number of channels in its bounds.\<close>

definition keeps_sane :: "(string \<Rightarrow> BenchmarkConfig \<Rightarrow> stop + BenchmarkConfig) \<Rightarrow> bool" where
  "keeps_sane f \<longleftrightarrow> (\<forall>v cfg c. f v cfg = Inr c \<longrightarrow> sane_config cfg \<longrightarrow> sane_config c)"

lemma pred_option_if: "pred_option P x \<Longrightarrow> pred_option P y \<Longrightarrow> pred_option P (if b then x else y)"
  by simp

lemma keeps_saneI: "(\<And>v cfg c. f v cfg = Inr c \<Longrightarrow> sane_config cfg \<Longrightarrow> sane_config c) \<Longrightarrow> pred_option keeps_sane (Some f)"
  by (auto simp: keeps_sane_def)

lemma value_option_keeps: "pred_option keeps_sane (value_option arg)"
  unfolding value_option_def
  by (intro pred_option_if keeps_saneI) (auto simp: lift_arg_def sane_config_def N_CH_def split: sum.splits if_splits)

lemma value_option_sane: "value_option arg = Some f \<Longrightarrow> f v cfg = Inr c \<Longrightarrow> sane_config cfg \<Longrightarrow> sane_config c"
  using value_option_keeps [of arg] by (simp add: keeps_sane_def)

lemma flag_option_keeps: "sane_config cfg \<Longrightarrow> pred_option sane_config (flag_option arg cfg)"
  unfolding flag_option_def by (intro pred_option_if) (simp_all add: sane_config_def)

lemma flag_option_sane: "flag_option arg cfg = Some c \<Longrightarrow> sane_config cfg \<Longrightarrow> sane_config c"
  using flag_option_keeps [of cfg arg] by simp

lemma parse_options_sane: "parse_options args cfg = Inr c \<Longrightarrow> sane_config cfg \<Longrightarrow> sane_config c"
proof (induction args cfg arbitrary: c rule: parse_options.induct)
  case (2 arg cfg)
  then show ?case by (auto dest: flag_option_sane split: if_split_asm option.split_asm)
next
  case (3 arg v rest cfg)
  show ?case
  proof (cases "value_option arg")
    case None
    then obtain d where "flag_option arg cfg = Some d" "parse_options (v # rest) d = Inr c"
      using "3.prems"(1) by (simp split: if_split_asm option.split_asm)
    then show ?thesis using "3.IH"(1) [OF _ None] "3.prems" None by (simp add: flag_option_sane split: if_split_asm)
  next
    case (Some f)
    then obtain d where "f v cfg = Inr d" "parse_options rest d = Inr c"
      using "3.prems"(1) by (simp split: if_split_asm sum.split_asm)
    then show ?thesis using "3.IH"(2) [OF _ Some] "3.prems" value_option_sane [OF Some] by (simp split: if_split_asm)
  qed
qed simp

lemma product_bounded:
  assumes "config_samples cfg \<le> real MAX_NUM_SAMPLES"
  shows "bc_signal_duration_us cfg * bc_sample_rate cfg < 2 ^ 64"
proof -
  have "real (bc_signal_duration_us cfg * bc_sample_rate cfg) \<le> real (100000000000 :: nat)"
    using assms by (simp add: config_samples_def MAX_NUM_SAMPLES_def)
  then have "bc_signal_duration_us cfg * bc_sample_rate cfg \<le> 100000000000" by (simp only: of_nat_le_iff)
  then show ?thesis by simp
qed

lemma gen_samples_exact:
  assumes "config_samples cfg \<le> real MAX_NUM_SAMPLES"
  shows "gen_samples cfg = nat \<lfloor>config_samples cfg\<rfloor>"
  using product_bounded [OF assms] by (simp add: gen_samples_def config_samples_def)

text \<open>The command line accepts only configurations the generator can work with: the buffer a scenario
  allocates holds the signal the generator makes, the products of sizes do not wrap around, and there
  are between one and four channels, at least one node and one run. One case is missed: a signal of less
  than one sample is accepted and makes the generator throw.\<close>

theorem accepted_config_fits:
  assumes "parseArgs args = Inr cfg"
  shows "1 \<le> bc_num_channels cfg \<and> bc_num_channels cfg \<le> 4 \<and> bc_max_connections cfg \<noteq> 0 \<and> bc_runs cfg \<noteq> 0 \<and>
    bc_signal_duration_us cfg * bc_sample_rate cfg < 2 ^ 64 \<and>
    (if config_samples cfg < 1 then computeTotalBytes cfg = Inl (Runtime_error ''samples per signal is 0'')
     else \<exists>bytes. computeTotalBytes cfg = Inr bytes \<and> bytes \<le> IQ_SIZE \<and> bytes + HEADER_SIZE = signalBufferSize cfg \<and>
       gen_samples cfg \<le> MAX_NUM_SAMPLES)"
proof -
  have init: "sane_config BenchmarkConfig_new" by (simp add: sane_config_def BenchmarkConfig_new_def N_CH_def)
  have c: "check_config cfg" and s: "sane_config cfg"
    using assms parse_options_sane [OF _ init, of args] by (auto simp: parseArgs_def split: sum.split_asm if_split_asm)
  have m: "config_samples cfg \<le> real MAX_NUM_SAMPLES" and b: "config_samples cfg * 4 * real (bc_num_channels cfg) \<le> real IQ_SIZE"
    using c by (simp_all add: check_config_def)
  have pos: "0 \<le> config_samples cfg" by (simp add: config_samples_def)
  note g = gen_samples_exact [OF m]
  have gs: "real (gen_samples cfg) \<le> config_samples cfg" using pos by (simp add: g)
  have zero: "gen_samples cfg = 0 \<longleftrightarrow> config_samples cfg < 1" unfolding g using pos by linarith
  have max: "gen_samples cfg \<le> MAX_NUM_SAMPLES" using gs m by linarith
  have "real (gen_samples cfg) * 4 * real (bc_num_channels cfg) \<le> config_samples cfg * 4 * real (bc_num_channels cfg)"
    using gs by (simp add: mult_right_mono)
  then have "real (gen_samples cfg * 4 * bc_num_channels cfg) \<le> real IQ_SIZE" using b by simp
  then have "gen_samples cfg * 4 * bc_num_channels cfg \<le> IQ_SIZE" by (simp only: of_nat_le_iff)
  then show ?thesis using c s product_bounded [OF m] zero max
    by (simp add: computeTotalBytes_def signalBufferSize_def check_config_def sane_config_def N_CH_def Let_def)
qed

text \<open>The options \<open>-D 1 -r 1000\<close>.\<close>

lemma short_signal_accepted:
  "\<exists>cfg. parseArgs [''-D'', ''1'', ''-r'', ''1000''] = Inr cfg \<and> config_samples cfg < 1"
proof -
  have "stoul ''1'' = Inr 1" "stoul ''1000'' = Inr 1000"
    by (simp_all add: stoul_def is_space_def is_digit_def read_digits_def digit_val_def)
  then show ?thesis
    by (simp add: parseArgs_def value_option_def lift_arg_def check_config_def config_samples_def BenchmarkConfig_new_def
        size_consts MAX_NUM_SAMPLES_def fp_le_def)
qed

theorem accepted_config_fits_witness:
  "\<exists>cfg. parseArgs [''-D'', ''1'', ''-r'', ''1000''] = Inr cfg \<and> computeTotalBytes cfg = Inl (Runtime_error ''samples per signal is 0'')"
  using short_signal_accepted accepted_config_fits by (metis (no_types, lifting))

section \<open>Verdicts\<close>

text \<open>A scenario in which no signal could be generated passes with a drop rate of zero.\<close>

lemma nothing_generated_passes:
  "st_signals_generated s = 0 \<Longrightarrow> fp_less (Fin 0) (bc_drop_threshold cfg) \<Longrightarrow> drop_rate s = 0 \<and> passes cfg s"
  by (simp add: drop_rate_def expected_def passes_def)

lemma drop_rate_copy [simp]: "drop_rate (s\<lparr>st_measuring := b\<rparr>) = drop_rate s"
  by (simp add: drop_rate_def expected_def)

text \<open>At least half of the runs drop no more than the chosen one, and at least half drop no less.\<close>

lemma filter_sorted_prefix:
  assumes "sorted (map f xs)" "i < length xs"
  shows "i + 1 \<le> length (filter (\<lambda>x. f x \<le> f (xs ! i)) xs)" "length xs - i \<le> length (filter (\<lambda>x. f (xs ! i) \<le> f x) xs)"
proof -
  have le: "f (xs ! j) \<le> f (xs ! k)" if "j \<le> k" "k < length xs" for j k
    using sorted_nth_mono [OF assms(1) that(1)] that by simp
  have "filter (\<lambda>x. f x \<le> f (xs ! i)) (take (i + 1) xs) = take (i + 1) xs"
    using le assms(2) by (auto simp: filter_id_conv in_set_conv_nth)
  then have "length (filter (\<lambda>x. f x \<le> f (xs ! i)) (take (i + 1) xs @ drop (i + 1) xs)) \<ge> i + 1"
    unfolding filter_append length_append using assms(2) by simp
  then show "i + 1 \<le> length (filter (\<lambda>x. f x \<le> f (xs ! i)) xs)" by simp
  have "filter (\<lambda>x. f (xs ! i) \<le> f x) (drop i xs) = drop i xs"
    using le by (auto simp: filter_id_conv in_set_conv_nth)
  then have "length (filter (\<lambda>x. f (xs ! i) \<le> f x) (take i xs @ drop i xs)) \<ge> length xs - i"
    unfolding filter_append length_append by simp
  then show "length xs - i \<le> length (filter (\<lambda>x. f (xs ! i) \<le> f x) xs)" by simp
qed

lemma length_filter_mset: "mset xs = mset ys \<Longrightarrow> length (filter P xs) = length (filter P ys)"
  by (metis mset_filter size_mset)

lemma median_run:
  assumes "R \<noteq> 0"
  shows "R div 2 + 1 \<le> length (filter (\<lambda>r. drop_rate (run r) \<le> drop_rate (runWithMedian run R)) [0..<R]) \<and>
    R - R div 2 \<le> length (filter (\<lambda>r. drop_rate (runWithMedian run R) \<le> drop_rate (run r)) [0..<R])"
proof -
  let ?xs = "sort_key (\<lambda>r. drop_rate (run r)) [0..<R]"
  have m: "mset ?xs = mset [0..<R]" by simp
  have "R div 2 < length ?xs" using assms by simp
  from filter_sorted_prefix [OF sorted_sort_key this] show ?thesis
    by (simp add: runWithMedian_def length_filter_mset [OF m])
qed

text \<open>One turn of the search.\<close>

lemma max_loop_pass:
  "n \<le> bc_max_connections cfg \<Longrightarrow> passes cfg (scenario n) \<Longrightarrow> max_loop cfg scenario n p = max_loop cfg scenario (2 * n mod 2 ^ 64) n"
  by (subst max_loop.simps) (simp only: if_True)

lemma max_loop_fail: "n \<le> bc_max_connections cfg \<Longrightarrow> \<not> passes cfg (scenario n) \<Longrightarrow> max_loop cfg scenario n p = Some (False, p)"
  by (subst max_loop.simps) (simp only: if_True if_False simp_thms)

lemma max_loop_limit: "\<not> n \<le> bc_max_connections cfg \<Longrightarrow> max_loop cfg scenario n p = Some (True, p)"
  by (subst max_loop.simps) (simp only: if_False)

text \<open>The outcome of a search in which the scenarios of sizes \<open>1, 2, \<dots>, 2 ^ (k - 1)\<close> passed.\<close>

definition search_outcome :: "BenchmarkConfig \<Rightarrow> (nat \<Rightarrow> ScenarioStats) \<Rightarrow> nat \<Rightarrow> bool \<times> nat \<Rightarrow> bool" where
  "search_outcome cfg scenario k = (\<lambda>(ok, best).
     (\<forall>l < k. 2 ^ l \<le> bc_max_connections cfg \<and> passes cfg (scenario (2 ^ l))) \<and> best = (if k = 0 then 0 else 2 ^ (k - 1)) \<and>
     (if ok then bc_max_connections cfg < 2 ^ k else 2 ^ k \<le> bc_max_connections cfg \<and> \<not> passes cfg (scenario (2 ^ k))))"

lemma max_loop_result:
  assumes "bc_max_connections cfg < 2 ^ 63" and "bc_max_connections cfg < 2 ^ (i + d)"
    and "\<forall>l < i. 2 ^ l \<le> bc_max_connections cfg \<and> passes cfg (scenario (2 ^ l))"
  shows "\<exists>k r. max_loop cfg scenario (2 ^ i) (if i = 0 then 0 else 2 ^ (i - 1)) = Some r \<and> search_outcome cfg scenario k r"
  using assms(2,3)
proof (induction d arbitrary: i)
  case 0
  then have "\<not> 2 ^ i \<le> bc_max_connections cfg" by simp
  from max_loop_limit [OF this] show ?case using 0 by (intro exI [of _ i]) (simp add: search_outcome_def)
next
  case (Suc d)
  consider (limit) "\<not> 2 ^ i \<le> bc_max_connections cfg"
    | (fail) "2 ^ i \<le> bc_max_connections cfg" "\<not> passes cfg (scenario (2 ^ i))"
    | (pass) "2 ^ i \<le> bc_max_connections cfg" "passes cfg (scenario (2 ^ i))" by blast
  then show ?case
  proof cases
    case limit
    from max_loop_limit [OF this] show ?thesis using Suc.prems(2) limit by (intro exI [of _ i]) (simp add: search_outcome_def)
  next
    case fail
    from max_loop_fail [of _ cfg scenario, OF this] show ?thesis using Suc.prems(2) fail by (intro exI [of _ i]) (simp add: search_outcome_def)
  next
    case pass
    have "(2 :: nat) ^ i < 2 ^ 63" using pass(1) assms(1) by (rule le_less_trans)
    then have "Suc i < 64" using power_strict_increasing_iff [of "2 :: nat" i 63] by simp
    then have "(2 :: nat) ^ Suc i < 2 ^ 64" by (rule power_strict_increasing) simp
    then have "2 * 2 ^ i mod (2 :: nat) ^ 64 = 2 ^ Suc i" unfolding power_Suc by (rule mod_less)
    then have "max_loop cfg scenario (2 ^ i) p = max_loop cfg scenario (2 ^ Suc i) (2 ^ i)" for p
      using max_loop_pass [of _ cfg scenario, OF pass] by (simp only:)
    moreover have "\<forall>l < Suc i. 2 ^ l \<le> bc_max_connections cfg \<and> passes cfg (scenario (2 ^ l))"
      using Suc.prems(2) pass by (simp add: less_Suc_eq)
    ultimately show ?thesis using Suc.IH [of "Suc i"] Suc.prems(1) by simp
  qed
qed

text \<open>The search for the largest load ends for every limit below \<open>2 ^ 63\<close> and reports what it found: the
  first \<open>k\<close> scenarios, of doubled size, passed, the largest of them is reported, and the search was stopped by
  the limit, which is a pass, or by the first scenario that failed.\<close>

theorem max_mode_ends:
  assumes "bc_max_connections cfg < 2 ^ 63"
  shows "\<exists>k ok best. runMaxMode cfg run = Some (ok, best) \<and>
    (\<forall>l < k. 2 ^ l \<le> bc_max_connections cfg \<and> passes cfg (runWithMedian (run (2 ^ l)) (bc_runs cfg))) \<and>
    best = (if k = 0 then 0 else 2 ^ (k - 1)) \<and>
    (if ok then bc_max_connections cfg < 2 ^ k
     else 2 ^ k \<le> bc_max_connections cfg \<and> \<not> passes cfg (runWithMedian (run (2 ^ k)) (bc_runs cfg)))"
proof -
  have "bc_max_connections cfg < 2 ^ (0 + 63)" using assms by (simp only: add_0)
  from max_loop_result [OF assms this, of "\<lambda>n. runWithMedian (run n) (bc_runs cfg)"] obtain k r where
    "runMaxMode cfg run = Some r" and o: "search_outcome cfg (\<lambda>n. runWithMedian (run n) (bc_runs cfg)) k r"
    by (auto simp: runMaxMode_def)
  then show ?thesis by (cases r) (auto simp: search_outcome_def)
qed

theorem max_mode_ends_witness:
  "\<forall>run. \<exists>r. runMaxMode BenchmarkConfig_new run = Some r"
proof
  fix run
  have "bc_max_connections BenchmarkConfig_new < 2 ^ 63" by (simp add: BenchmarkConfig_new_def)
  from max_mode_ends [OF this, of run] show "\<exists>r. runMaxMode BenchmarkConfig_new run = Some r" by blast
qed

text \<open>A signal that reaches the transmitter while the scenario measures is counted once.\<close>

lemma mock_counts_once:
  assumes "Mock_Add2Buff cfg now_ns ts sig (s, r, pool) = Inr (s', r', pool')"
  shows "st_signals_received s' + st_dropped_old s' = st_signals_received s + st_dropped_old s + (if st_measuring s then 1 else 0) \<and>
    length (br_total_latency r') - length (br_total_latency r) \<le> st_signals_received s' - st_signals_received s"
  using assms by (cases ts) (auto simp: Mock_Add2Buff_def rmap_def Let_def split: if_split_asm sum.split_asm)

end
