(* ===== verification/Burst_Routing.thy ===== *)
theory Burst_Routing
  imports Intermediate_Channel
begin

text \<open>
  How the ports of a burst and the two roles of a node are routed through a channel
  (\<open>src/chem/channel/intermediate.cpp\<close>): what the transmit ports contribute to a receive port, where the sender
  finds the ports in the buffer, and what is left of a node when one of its roles is detached.
\<close>

section \<open>Transmit ports\<close>

text \<open>The environment the kernels and random sources are assumed to be.\<close>

definition dsp_ok :: "dsp_env \<Rightarrow> bool" where
  "dsp_ok env \<longleftrightarrow> volk_ok (de_volk env) \<and> (\<forall>s k. length (de_gauss env s k) = k) \<and> (\<forall>xs. length (de_shuf env xs) = length xs)"

text \<open>Scaling overwrites the burst in the destination, so of the old contents only the part behind it matters.\<close>

lemma process_scale_overwrites:
  assumes "volk_ok V" "cp_sample_ratio p = 1" "cp_s_perBuff p \<le> length src"
    and "length dest' = length dest" "drop (cp_s_perBuff p) dest' = drop (cp_s_perBuff p) dest"
  shows "process_scale V src dest' p = process_scale V src dest p"
  using assms by (simp add: process_scale_def fc32_mul_scalar_def volk_s_multiply buf_write_def Let_def min_def)

lemma processChannel_overwrites:
  assumes "volk_ok (de_volk env)" "cp_sample_ratio p = 1" "cp_s_perBuff p \<le> length src"
    and "cp_src_config p = Some sc" "cp_dest_config p = Some dc"
    and "length dest' = length dest" "drop (cp_s_perBuff p) dest' = drop (cp_s_perBuff p) dest"
  shows "processChannel env src dest' p ts c = processChannel env src dest p ts c"
  using process_scale_overwrites [OF assms(1-3,6,7)] assms(4,5) by (simp add: processChannel_def)

text \<open>What holds before and after every transmit port of the inner loop.\<close>

definition port_inv :: "nat \<Rightarrow> complex list \<Rightarrow> Channel \<Rightarrow> complex list \<times> thread_state \<times> Channel \<Rightarrow> bool" where
  "port_inv n dest c = (\<lambda>(dest', _, c').
     length dest' = length dest \<and> drop n dest' = drop n dest \<and>
     ch_portChCoeffs c' = ch_portChCoeffs c \<and> ch_cirApplyMethod c' = ch_cirApplyMethod c)"

lemma link_step_inv:
  assumes "dsp_ok (ie_dsp env)" "cp_sample_ratio p = 1" "cp_src_config p = Some sc" "cp_dest_config p = Some dc"
    and "cp_s_perBuff p \<le> length (srcs ! s)" "cp_s_perBuff p \<le> length dest" "ch_cirApplyMethod c \<noteq> FIR_CENTERED"
    and "port_inv (cp_s_perBuff p) dest c x"
  shows "\<exists>y. link_step env srcs p c_dest s x = Some y \<and> port_inv (cp_s_perBuff p) dest c y"
proof -
  obtain d1 ts1 c1 where x: "x = (d1, ts1, c1)" by (cases x)
  define co where "co = getChCoeffs (of_nat c_dest) (of_nat s) c1"
  define q where "q = p\<lparr>cp_coeff := co, cp_src_channel_index := s, cp_dest_channel_index := c_dest\<rparr>"
  have q: "cp_src_config q = Some sc" "cp_dest_config q = Some dc" "cp_sample_ratio q = 1" "cp_s_perBuff q = cp_s_perBuff p"
    using assms(2-4) by (simp_all add: q_def)
  have I: "length d1 = length dest" "drop (cp_s_perBuff p) d1 = drop (cp_s_perBuff p) dest" "ch_portChCoeffs c1 = ch_portChCoeffs c"
    "ch_cirApplyMethod c1 = ch_cirApplyMethod c"
    using assms(8) by (simp_all add: x port_inv_def)
  have "\<exists>d2 ts2 c2. processChannel (ie_dsp env) (srcs ! s) d1 q ts1 c1 = Some (d2, ts2, c2) \<and> length d2 = length d1 \<and>
      drop (cp_s_perBuff q) d2 = drop (cp_s_perBuff q) d1 \<and> ch_portChCoeffs c2 = ch_portChCoeffs c1 \<and>
      ch_cirApplyMethod c2 = ch_cirApplyMethod c1"
    using processChannel_result [of "ie_dsp env" q sc dc "srcs ! s" d1 ts1 c1] assms(1,5-7) q I(1,4)
    by (auto simp: dsp_ok_def)
  then show ?thesis using I assms(8)
    by (auto simp: x link_step_def Let_def q(4) port_inv_def simp flip: co_def q_def)
qed

lemma fold_opt_keeps:
  "(\<And>s x. s \<in> set ss \<Longrightarrow> P x \<Longrightarrow> \<exists>y. f s x = Some y \<and> P y) \<Longrightarrow> P x \<Longrightarrow> \<exists>y. fold_opt f ss x = Some y \<and> P y"
proof (induction ss arbitrary: x)
  case (Cons s ss)
  then obtain y where "f s x = Some y" "P y" by (meson list.set_intros(1))
  then show ?case using Cons.IH [of y] Cons.prems(1) by simp
qed simp

lemma fold_opt_append: "fold_opt f (xs @ ys) x = Option.bind (fold_opt f xs x) (fold_opt f ys)"
  by (induction xs arbitrary: x) (simp_all split: option.split)

text \<open>Ports without a coefficient are passed over.\<close>

lemma link_steps_skip:
  assumes "\<And>s. s \<in> set ss \<Longrightarrow> fp_eq (getChCoeffs (of_nat c_dest) (of_nat s) c) (Fin 0)" "port_inv n dest c x"
  shows "fold_opt (link_step env srcs p c_dest) ss x = Some x"
  using assms by (induction ss) (auto simp: link_step_def port_inv_def getChCoeffs_def)

text \<open>C10. A receive port gets one transmit port only. For a burst that is not resampled (sample ratio one), node
  configurations that are present, transmit ports and a destination that hold the burst and a filter that is not the
  centered one (which rewrites the whole buffer): the loop over the \<open>n\<close> transmit ports does not fault, and if port \<open>k\<close> is
  the last one whose coefficient is not zero, the result is what this port alone gives. The
  ports processed before it leave their marks in the power and noise state, but none of their samples are left in the
  destination, and the ports behind it do nothing at all.\<close>

theorem last_transmit_port_wins:
  assumes "dsp_ok (ie_dsp env)" "cp_sample_ratio p = 1" "cp_src_config p = Some sc" "cp_dest_config p = Some dc"
    and "\<forall>s \<le> k. cp_s_perBuff p \<le> length (srcs ! s)" "cp_s_perBuff p \<le> length dest" "ch_cirApplyMethod c \<noteq> FIR_CENTERED"
    and "\<not> fp_eq (getChCoeffs (of_nat c_dest) (of_nat k) c) (Fin 0)"
    and "k < n" "\<forall>s. k < s \<and> s < n \<longrightarrow> fp_eq (getChCoeffs (of_nat c_dest) (of_nat s) c) (Fin 0)"
  shows "\<exists>dest1 ts1 c1 r. fold_opt (link_step env srcs p c_dest) [0..<k] (dest, ts, c) = Some (dest1, ts1, c1) \<and>
    fold_opt (link_step env srcs p c_dest) [0..<n] (dest, ts, c) = Some r \<and>
    link_step env srcs p c_dest k (dest, ts1, c1) = Some r"
proof -
  let ?n = "cp_s_perBuff p" and ?f = "link_step env srcs p c_dest"
  have step: "\<exists>y. ?f s x = Some y \<and> port_inv ?n dest c y" if "s \<le> k" "port_inv ?n dest c x" for s x
    using link_step_inv [OF assms(1-4) _ assms(6,7) that(2)] assms(5) that(1) by blast
  have start: "port_inv ?n dest c (dest, ts, c)" by (simp add: port_inv_def)
  obtain dest1 ts1 c1 where before: "fold_opt ?f [0..<k] (dest, ts, c) = Some (dest1, ts1, c1)" and
    I: "port_inv ?n dest c (dest1, ts1, c1)"
    using fold_opt_keeps [of "[0..<k]" "port_inv ?n dest c" ?f, OF step start] by fastforce
  obtain r where r: "?f k (dest1, ts1, c1) = Some r" and Ir: "port_inv ?n dest c r" using step [OF le_refl I] by blast
  have behind: "fold_opt ?f [Suc k..<n] r = Some r"
    by (rule link_steps_skip [OF _ Ir]) (use assms(10) in auto)
  have "[0..<n] = [0..<k] @ k # [Suc k..<n]"
    using assms(9) by (metis le0 less_or_eq_imp_le upt_add_eq_append upt_conv_Cons le_Suc_ex)
  then have full: "fold_opt ?f [0..<n] (dest, ts, c) = Some r" using before r behind by (simp add: fold_opt_append)
  define q where "q = p\<lparr>cp_coeff := getChCoeffs (of_nat c_dest) (of_nat k) c, cp_src_channel_index := k, cp_dest_channel_index := c_dest\<rparr>"
  have co: "getChCoeffs (of_nat c_dest) (of_nat k) c1 = getChCoeffs (of_nat c_dest) (of_nat k) c"
    using I by (simp add: port_inv_def getChCoeffs_def)
  have "processChannel (ie_dsp env) (srcs ! k) dest1 q ts1 c1 = processChannel (ie_dsp env) (srcs ! k) dest q ts1 c1"
    using assms(1-5) I by (intro processChannel_overwrites) (auto simp: q_def dsp_ok_def port_inv_def)
  then have "?f k (dest1, ts1, c1) = ?f k (dest, ts1, c1)" using assms(8) by (simp add: link_step_def co Let_def flip: q_def)
  with full before r show ?thesis by (metis (no_types))
qed

definition example_im_env :: im_env where
  "example_im_env = \<lparr>ie_conv_rx = (\<lambda>_. []), ie_conv_tx = (\<lambda>_. []), ie_dsp = example_dsp_env, ie_home = 0, ie_unset = (0, 0, 0), ie_try_pop = pq_pop\<rparr>"

text \<open>Three transmit ports, the last of which a command has silenced: the second one wins.\<close>

theorem last_transmit_port_wins_witness:
  "\<exists>dest1 ts1 c1 r.
     fold_opt (link_step example_im_env [[1, \<i>], [2, 3], [4, 5]] example_params 0) [0..<1]
       ([0, 0, 5], \<lparr>ts_antennas = [], ts_noise = noise_init\<rparr>, updateChCoeff (0, 2) (Fin 0) (Channel_new ''a'' ''b'' 1 3)) = Some (dest1, ts1, c1) \<and>
     fold_opt (link_step example_im_env [[1, \<i>], [2, 3], [4, 5]] example_params 0) [0..<3]
       ([0, 0, 5], \<lparr>ts_antennas = [], ts_noise = noise_init\<rparr>, updateChCoeff (0, 2) (Fin 0) (Channel_new ''a'' ''b'' 1 3)) = Some r \<and>
     link_step example_im_env [[1, \<i>], [2, 3], [4, 5]] example_params 0 1 ([0, 0, 5], ts1, c1) = Some r"
proof (rule last_transmit_port_wins [where k = 1])
  have "fp_eq (getChCoeffs (of_nat 0) (of_nat 2) (updateChCoeff (0, 2) (Fin 0) (Channel_new ''a'' ''b'' 1 3))) (Fin 0)"
    by (simp add: updateChCoeff_def getChCoeffs_def Channel_new_def createPortCombinations_find om_find_set)
  moreover have "s = 2" if "1 < s \<and> s < 3" for s :: nat using that by simp
  ultimately show "\<forall>s. 1 < s \<and> s < 3 \<longrightarrow>
      fp_eq (getChCoeffs (of_nat 0) (of_nat s) (updateChCoeff (0, 2) (Fin 0) (Channel_new ''a'' ''b'' 1 3))) (Fin 0)" by blast
qed (auto simp: dsp_ok_def example_im_env_def example_dsp_env_def example_params_def volk_ok_exact le_Suc_eq Channel_new_def
      getChCoeffs_def createPortCombinations_find updateChCoeff_def om_find_set)

section \<open>The ports in the buffer\<close>

lemma delay_header_sizes [simp]:
  "hdr_size (delay_header c d hdr) = hdr_size hdr" "hdr_number_of_channels (delay_header c d hdr) = hdr_number_of_channels hdr"
  by (simp_all add: delay_header_def apply_propagation_delay_def Let_def split: fp.split)



section \<open>Roles\<close>

lemma im_inv_worker:
  "im_inv h im \<Longrightarrow> om_find (im_workers im) k = Some w \<Longrightarrow> om_find (im_sourceMap im) k \<noteq> None \<and> cache_ok h im w"
  unfolding im_inv_def by (metis option.distinct(1))

text \<open>C40. Detaching one role of a node silences the other. When a node that is source and destination of the
  channel is detached as a destination, as on a change of its receive frequency, it stays attached as a source
  with its worker, but all links that start at it are gone and its worker finds no destination.\<close>

theorem detach_silences_other_role:
  assumes "im_reach n (h, im)" and "n < 2 ^ 64 - 1" and "ident = tr_NodeId (hp_tx h t)" and "om_find (im_destinationMap im) ident \<noteq> None"
    and "om_find (im_workers im) ident = Some w" and "wc_src_node_id w = ident"
    and "DetachDestination h t im = (b, h', im')"
  shows "b \<and> im_sourceMap im' = im_sourceMap im \<and> om_find (im_sourceMap im') ident \<noteq> None \<and> om_find (im_workers im') ident = Some w \<and>
    (\<forall>d. om_find (im_channelMap im') (ident, d) = None) \<and> fst (get_destinations h' im' w) = []"
proof -
  have inv: "im_inv h im" and v: "fresh_version im"
    using im_reach_inv [OF assms(1)] assms(2) by (simp_all add: fresh_version_def)
  note wf = im_inv_wf(3) [OF inv]
  have im': "b" "im_sourceMap im' = im_sourceMap im" "im_workers im' = im_workers im"
    "im_channelMap im' = im_channelMap (removeChannel ident im)" "im_destVersion im' = im_destVersion im + 1"
    using assms(3,4,7) by (auto simp: DetachDestination_def Let_def bumpVersion_def removeChannel_def)
  have w: "om_find (im_sourceMap im) ident \<noteq> None" "cache_ok h im w" using im_inv_worker [OF inv assms(5)] by simp_all
  have gone: "om_find (im_channelMap im') (ident, d) = None" for d
    using im_inv_ends [OF inv] by (auto simp: im'(4) removeChannel_find [OF wf] split: option.split)
  have "wc_cached_dest_version w \<noteq> im_destVersion im'"
    using v w(2) by (auto simp: cache_ok_def im'(5) fresh_version_def version_bump)
  then have "fst (get_destinations h' im' w) = snapshot h' im' ident" by (simp add: get_destinations_def Let_def assms(6))
  moreover have "snapshot h' im' ident = []" using gone by (simp add: snapshot_def)
  ultimately show ?thesis using im' w(1) gone assms(5) by simp
qed

text \<open>Node \<open>a\<close> sends and receives, node \<open>b\<close> receives.\<close>

definition duplex_heap :: heap where
  "duplex_heap = example_heap\<lparr>hp_tx := (\<lambda>k. (hp_tx example_heap k)\<lparr>tr_NodeId := (if k = 0 then ''b'' else ''a''),
     tr_node_config := (NodeConfig_new 0 0)\<lparr>nc_id := (if k = 0 then ''b'' else ''a'')\<rparr>\<rparr>)\<rparr>"

definition duplex_channel :: "(heap \<times> Intermediate) option" where
  "duplex_channel = (case AttachSource duplex_heap 0 (Intermediate_new 1000 10) of
     None \<Rightarrow> None
   | Some (h, im) \<Rightarrow> (case AttachDestination h 0 im of
       None \<Rightarrow> None | Some im1 \<Rightarrow> map_option (Pair h) (AttachDestination h 1 im1)))"

lemma duplex_channel_reach:
  assumes "duplex_channel = Some s"
  shows "im_reach 3 s"
proof -
  obtain h im im1 im2 where a: "AttachSource duplex_heap 0 (Intermediate_new 1000 10) = Some (h, im)"
    and d: "AttachDestination h 0 im = Some im1" "AttachDestination h 1 im1 = Some im2" and s: "s = (h, im2)"
    using assms by (auto simp: duplex_channel_def split: option.splits)
  have tx: "hp_tx h = hp_tx duplex_heap" using a by (auto simp: AttachSource_def Let_def split: if_splits)
  have own: "tr_NodeId (hp_tx h t) = nc_id (tr_node_config (hp_tx h t))" for t by (simp add: tx duplex_heap_def)
  have "im_reach (Suc 0) (h, im)" by (rule im_reach.step [OF im_reach.start im_step.attach_src [OF a]])
  then have "im_reach (Suc (Suc 0)) (h, im1)" by (rule im_reach.step) (rule im_step.attach_dest [OF own d(1)])
  then have "im_reach (Suc (Suc (Suc 0))) (h, im2)" by (rule im_reach.step) (rule im_step.attach_dest [OF own d(2)])
  then show ?thesis by (simp add: s numeral_3_eq_3)
qed

lemma duplex_channel_Some:
  "\<exists>h im w. duplex_channel = Some (h, im) \<and> tr_NodeId (hp_tx h 1) = ''a'' \<and> om_find (im_destinationMap im) ''a'' \<noteq> None \<and>
     om_find (im_workers im) ''a'' = Some w \<and> wc_src_node_id w = ''a'' \<and> map di_dest_id (snapshot h im ''a'') = [''b'']"
  by (simp add: duplex_channel_def AttachSource_def AttachDestination_def duplex_heap_def example_heap_def example_receiver_def
      example_transmitter_def Intermediate_new_def Let_def updateChannelMap_def wanted_links_def om_insert_def
      insertChannelIfMissing_def printStatus_def bumpVersion_def om_keys_def om_find_def setAddQueFnc_def
      Receiver_setAttachState_def WorkerContext_new_def snapshot_def NodeConfig_new_def)

theorem detach_silences_other_role_witness:
  "\<exists>h im w h' im'. duplex_channel = Some (h, im) \<and> om_find (im_workers im) ''a'' = Some w \<and>
     map di_dest_id (snapshot h im ''a'') = [''b''] \<and> DetachDestination h 1 im = (True, h', im') \<and>
     om_find (im_sourceMap im') ''a'' \<noteq> None \<and> fst (get_destinations h' im' w) = []"
proof -
  obtain h im w where e: "duplex_channel = Some (h, im)" "tr_NodeId (hp_tx h 1) = ''a''" "om_find (im_destinationMap im) ''a'' \<noteq> None"
    "om_find (im_workers im) ''a'' = Some w" "wc_src_node_id w = ''a''" "map di_dest_id (snapshot h im ''a'') = [''b'']"
    using duplex_channel_Some by (elim exE conjE)
  obtain b h' im' where d: "DetachDestination h 1 im = (b, h', im')" by (cases "DetachDestination h 1 im")
  have "b \<and> im_sourceMap im' = im_sourceMap im \<and> om_find (im_sourceMap im') ''a'' \<noteq> None \<and> om_find (im_workers im') ''a'' = Some w \<and>
    (\<forall>d. om_find (im_channelMap im') (''a'', d) = None) \<and> fst (get_destinations h' im' w) = []"
    by (rule detach_silences_other_role [OF duplex_channel_reach [OF e(1)] _ e(2) [symmetric] e(3-5) d]) simp
  then have "b" and r: "om_find (im_sourceMap im') ''a'' \<noteq> None" "fst (get_destinations h' im' w) = []" by blast+
  then have "DetachDestination h 1 im = (True, h', im')" using d by simp
  with r e(1,4,6) show ?thesis by (intro exI conjI)
qed

end
