(* ===== verification/Json_Text.thy ===== *)
theory Json_Text
  imports Json "HOL-Library.Monad_Syntax"
begin

text \<open>
  The text side of \<open>nlohmann::json\<close>, \<open>include/chem/nlohmann/json.hpp\<close>, with which every message of the program is
  read and written: the lexer, the parser that builds a value from the tokens, and the
  serializer. A text is a list of bytes; the state of the lexer is the text that is left, which already
  gives back the character that \<open>unget\<close> returns. The line and column that error messages carry,
  and the name of a control character in them, are not modelled. A \<open>double\<close> is a real, so the digits of a floating-point number (the Grisu2 routine) are an
  argument of the serializer; the layout of the digits is modelled.
\<close>

section \<open>Lexer\<close>

abbreviation code :: "char \<Rightarrow> nat" where
  "code \<equiv> of_char"

datatype token =
    Begin_array | End_array | Begin_object | End_object | Name_separator | Value_separator
  | Literal_true | Literal_false | Literal_null
  | Value_string string | Value_unsigned nat | Value_integer int | Value_float fp
  | Parse_error string | End_of_input

text \<open>A scanner returns an error message, or what it has put into the token buffer and the rest.\<close>

type_synonym 'a scanned = "string + 'a \<times> string"

subsection \<open>Strings\<close>

definition hex_digit :: "char \<Rightarrow> nat option" where
  "hex_digit c =
     (if 48 \<le> code c \<and> code c \<le> 57 then Some (code c - 48)
      else if 65 \<le> code c \<and> code c \<le> 70 then Some (code c - 55)
      else if 97 \<le> code c \<and> code c \<le> 102 then Some (code c - 87)
      else None)"

text \<open>Four hexadecimal digits.\<close>

fun get_codepoint :: "string \<Rightarrow> (nat \<times> string) option" where
  "get_codepoint (a # b # c # d # r) =
     do { w \<leftarrow> hex_digit a; x \<leftarrow> hex_digit b; y \<leftarrow> hex_digit c; z \<leftarrow> hex_digit d;
          Some (w * 4096 + x * 256 + y * 16 + z, r) }"
| "get_codepoint _ = None"

text \<open>The bytes of a code point. The operands of the bitwise operators share no bits, so they are sums,
  quotients and remainders.\<close>

definition utf8_bytes :: "nat \<Rightarrow> string" where
  "utf8_bytes cp =
     (if cp < 128 then [char_of cp]
      else if cp \<le> 2047 then [char_of (192 + cp div 64), char_of (128 + cp mod 64)]
      else if cp \<le> 65535 then [char_of (224 + cp div 4096), char_of (128 + cp div 64 mod 64), char_of (128 + cp mod 64)]
      else [char_of (240 + cp div 262144), char_of (128 + cp div 4096 mod 64), char_of (128 + cp div 64 mod 64),
            char_of (128 + cp mod 64)])"

definition SURROGATE :: string where
  "SURROGATE = ''invalid string: surrogate U+D800..U+DBFF must be followed by U+DC00..U+DFFF''"

definition HEX4 :: string where
  "HEX4 = ''invalid string: u must be followed by 4 hex digits''"

definition scan_unicode :: "string \<Rightarrow> string scanned" where
  "scan_unicode r =
     (case get_codepoint r of
        None \<Rightarrow> Inl HEX4
      | Some (cp1, r1) \<Rightarrow>
          if 55296 \<le> cp1 \<and> cp1 \<le> 56319 then
            (case r1 of
               a # b # r2 \<Rightarrow>
                 if code a = 92 \<and> b = CHR ''u'' then
                   (case get_codepoint r2 of
                      None \<Rightarrow> Inl HEX4
                    | Some (cp2, r3) \<Rightarrow>
                        if 56320 \<le> cp2 \<and> cp2 \<le> 57343 then Inr (utf8_bytes (cp1 * 1024 + cp2 - 56613888), r3)
                        else Inl SURROGATE)
                 else Inl SURROGATE
             | _ \<Rightarrow> Inl SURROGATE)
          else if 56320 \<le> cp1 \<and> cp1 \<le> 57343 then Inl ''invalid string: surrogate U+DC00..U+DFFF must follow U+D800..U+DBFF''
          else Inr (utf8_bytes cp1, r1))"

text \<open>What follows a backslash.\<close>

fun scan_escape :: "string \<Rightarrow> string scanned" where
  "scan_escape [] = Inl ''invalid string: forbidden character after backslash''"
| "scan_escape (c # r) =
     (if code c = 34 \<or> code c = 92 \<or> code c = 47 then Inr ([c], r)
      else if c = CHR ''b'' then Inr ([char_of (8 :: nat)], r)
      else if c = CHR ''f'' then Inr ([char_of (12 :: nat)], r)
      else if c = CHR ''n'' then Inr ([char_of (10 :: nat)], r)
      else if c = CHR ''r'' then Inr ([char_of (13 :: nat)], r)
      else if c = CHR ''t'' then Inr ([char_of (9 :: nat)], r)
      else if c = CHR ''u'' then scan_unicode r
      else Inl ''invalid string: forbidden character after backslash'')"

fun next_byte_in_range :: "(nat \<times> nat) list \<Rightarrow> string \<Rightarrow> (string \<times> string) option" where
  "next_byte_in_range [] r = Some ([], r)"
| "next_byte_in_range (b # bs) [] = None"
| "next_byte_in_range ((lo, hi) # bs) (c # r) =
     (if lo \<le> code c \<and> code c \<le> hi then map_option (\<lambda>(cs, r'). (c # cs, r')) (next_byte_in_range bs r) else None)"

text \<open>The ranges of the bytes that follow a lead byte.\<close>

definition lead_ranges :: "nat \<Rightarrow> (nat \<times> nat) list option" where
  "lead_ranges b =
     (if 194 \<le> b \<and> b \<le> 223 then Some [(128, 191)]
      else if b = 224 then Some [(160, 191), (128, 191)]
      else if 225 \<le> b \<and> b \<le> 236 \<or> b = 238 \<or> b = 239 then Some [(128, 191), (128, 191)]
      else if b = 237 then Some [(128, 159), (128, 191)]
      else if b = 240 then Some [(144, 191), (128, 191), (128, 191)]
      else if 241 \<le> b \<and> b \<le> 243 then Some [(128, 191), (128, 191), (128, 191)]
      else if b = 244 then Some [(128, 143), (128, 191), (128, 191)]
      else None)"

text \<open>One turn of the loop of \<open>scan_string\<close>: the string ends, or bytes are added.\<close>

datatype string_step = Str_error string | Str_end string | Str_add string string

fun scan_char :: "string \<Rightarrow> string_step" where
  "scan_char [] = Str_error ''invalid string: missing closing quote''"
| "scan_char (c # r) =
     (if code c = 34 then Str_end r
      else if code c = 92 then (case scan_escape r of Inl e \<Rightarrow> Str_error e | Inr (bs, r') \<Rightarrow> Str_add bs r')
      else if code c < 32 then Str_error ''invalid string: control character must be escaped''
      else if code c < 128 then Str_add [c] r
      else case lead_ranges (code c) of
             None \<Rightarrow> Str_error ''invalid string: ill-formed UTF-8 byte''
           | Some bs \<Rightarrow> (case next_byte_in_range bs r of
                           None \<Rightarrow> Str_error ''invalid string: ill-formed UTF-8 byte''
                         | Some (cs, r') \<Rightarrow> Str_add (c # cs) r'))"

lemma next_byte_length: "next_byte_in_range bs r = Some (cs, r') \<Longrightarrow> r = cs @ r'"
  by (induction bs r arbitrary: cs r' rule: next_byte_in_range.induct) (auto split: if_split_asm)

lemma get_codepoint_length: "get_codepoint r = Some (cp, r') \<Longrightarrow> length r = length r' + 4"
  by (cases r rule: get_codepoint.cases) (auto split: bind_splits)

lemma scan_escape_length: "scan_escape r = Inr (bs, r') \<Longrightarrow> length r' < length r"
proof (cases r)
  case (Cons c s)
  have "scan_unicode s = Inr (bs, r') \<Longrightarrow> length r' \<le> length s"
    by (auto simp: scan_unicode_def dest!: get_codepoint_length split: option.splits if_splits list.splits)
  then show "scan_escape r = Inr (bs, r') \<Longrightarrow> length r' < length r" using Cons by (auto split: if_splits)
qed simp

lemma scan_char_length: "scan_char s = Str_add bs r \<Longrightarrow> length r < length s" "scan_char s = Str_end r \<Longrightarrow> length r < length s"
  by (cases s; auto dest: scan_escape_length next_byte_length split: if_splits sum.splits option.splits)+

function scan_string :: "string \<Rightarrow> string scanned" where
  "scan_string s =
     (case scan_char s of
        Str_error e \<Rightarrow> Inl e
      | Str_end r \<Rightarrow> Inr ([], r)
      | Str_add bs r \<Rightarrow> map_sum id (\<lambda>(t, r'). (bs @ t, r')) (scan_string r))"
  by pat_completeness auto
termination
  by (relation "measure length") (simp_all add: scan_char_length)

declare scan_string.simps [simp del]

subsection \<open>Numbers\<close>

text \<open>The states of the automaton behind the first character, and the number type that entering a state sets.\<close>

datatype num_state = N_minus | N_zero | N_any1 | N_decimal1 | N_decimal2 | N_exponent | N_sign | N_any2

datatype num_type = N_unsigned | N_integer | N_float

definition is_19 :: "char \<Rightarrow> bool" where
  "is_19 c = (is_digit c \<and> c \<noteq> CHR ''0'')"

fun num_next :: "num_state \<Rightarrow> char \<Rightarrow> num_state option" where
  "num_next N_minus c = (if c = CHR ''0'' then Some N_zero else if is_19 c then Some N_any1 else None)"
| "num_next N_zero c = (if c = CHR ''.'' then Some N_decimal1 else if c = CHR ''e'' \<or> c = CHR ''E'' then Some N_exponent else None)"
| "num_next N_any1 c =
     (if is_digit c then Some N_any1 else if c = CHR ''.'' then Some N_decimal1
      else if c = CHR ''e'' \<or> c = CHR ''E'' then Some N_exponent else None)"
| "num_next N_decimal1 c = (if is_digit c then Some N_decimal2 else None)"
| "num_next N_decimal2 c =
     (if is_digit c then Some N_decimal2 else if c = CHR ''e'' \<or> c = CHR ''E'' then Some N_exponent else None)"
| "num_next N_exponent c =
     (if c = CHR ''+'' \<or> c = CHR ''-'' then Some N_sign else if is_digit c then Some N_any2 else None)"
| "num_next N_sign c = (if is_digit c then Some N_any2 else None)"
| "num_next N_any2 c = (if is_digit c then Some N_any2 else None)"

fun num_enter :: "num_state \<Rightarrow> num_type \<Rightarrow> num_type" where
  "num_enter N_minus _ = N_integer"
| "num_enter N_decimal1 _ = N_float"
| "num_enter N_exponent _ = N_float"
| "num_enter _ ty = ty"

fun num_error :: "num_state \<Rightarrow> string option" where
  "num_error N_minus = Some ''invalid number; expected digit after minus''"
| "num_error N_decimal1 = Some ''invalid number; expected digit after point''"
| "num_error N_exponent = Some ''invalid number; expected plus, minus, or digit after exponent''"
| "num_error N_sign = Some ''invalid number; expected digit after exponent sign''"
| "num_error _ = None"

fun scan_digits :: "num_state \<Rightarrow> num_type \<Rightarrow> string \<Rightarrow> (string \<times> num_type) scanned" where
  "scan_digits st ty [] = (case num_error st of Some e \<Rightarrow> Inl e | None \<Rightarrow> Inr (([], ty), []))"
| "scan_digits st ty (c # r) =
     (case num_next st c of
        Some st' \<Rightarrow> map_sum id (\<lambda>((buf, ty'), r'). ((c # buf, ty'), r')) (scan_digits st' (num_enter st' ty) r)
      | None \<Rightarrow> (case num_error st of Some e \<Rightarrow> Inl e | None \<Rightarrow> Inr (([], ty), c # r)))"

text \<open>The conversion of the token buffer with \<open>strtoull\<close>, \<open>strtoll\<close> or, for everything they cannot hold, \<open>strtod\<close>.\<close>

definition strtof :: "string \<Rightarrow> fp" where
  "strtof buf =
     (case strtod buf of
        Some (Fin r) \<Rightarrow> if 2 powi 1024 \<le> r then PInf else if 2 powi 1024 \<le> - r then NInf else Fin r
      | Some x \<Rightarrow> x
      | None \<Rightarrow> Fin 0)"

definition convert_number :: "num_type \<Rightarrow> string \<Rightarrow> token" where
  "convert_number ty buf =
     (case ty of
        N_unsigned \<Rightarrow> if read_digits buf < 2 ^ 64 then Value_unsigned (read_digits buf) else Value_float (strtof buf)
      | N_integer \<Rightarrow> if read_digits (tl buf) \<le> 2 ^ 63 then Value_integer (- int (read_digits (tl buf))) else Value_float (strtof buf)
      | N_float \<Rightarrow> Value_float (strtof buf))"

text \<open>\<open>scan_number\<close> is entered with a minus sign or a digit as the current character.\<close>

definition scan_number :: "char \<Rightarrow> string \<Rightarrow> token \<times> string" where
  "scan_number c r =
     (let st = (if c = CHR ''-'' then N_minus else if c = CHR ''0'' then N_zero else N_any1)
      in case scan_digits st (num_enter st N_unsigned) r of
           Inl e \<Rightarrow> (Parse_error e, r)
         | Inr ((buf, ty), r') \<Rightarrow> (convert_number ty (c # buf), r'))"

subsection \<open>Tokens\<close>

definition is_ws :: "char \<Rightarrow> bool" where
  "is_ws c = (code c = 32 \<or> code c = 9 \<or> code c = 10 \<or> code c = 13)"

definition scan_literal :: "string \<Rightarrow> token \<Rightarrow> string \<Rightarrow> token \<times> string" where
  "scan_literal tail tok r =
     (if take (length tail) r = tail then (tok, drop (length tail) r) else (Parse_error ''invalid literal'', r))"

definition scan :: "string \<Rightarrow> token \<times> string" where
  "scan s =
     (case dropWhile is_ws s of
        [] \<Rightarrow> (End_of_input, [])
      | c # r \<Rightarrow>
          if c = CHR ''['' then (Begin_array, r)
          else if c = CHR '']'' then (End_array, r)
          else if c = CHR ''{'' then (Begin_object, r)
          else if c = CHR ''}'' then (End_object, r)
          else if c = CHR '':'' then (Name_separator, r)
          else if c = CHR '','' then (Value_separator, r)
          else if c = CHR ''t'' then scan_literal ''rue'' Literal_true r
          else if c = CHR ''f'' then scan_literal ''alse'' Literal_false r
          else if c = CHR ''n'' then scan_literal ''ull'' Literal_null r
          else if code c = 34 then (case scan_string r of Inl e \<Rightarrow> (Parse_error e, r) | Inr (str, r') \<Rightarrow> (Value_string str, r'))
          else if c = CHR ''-'' \<or> is_digit c then scan_number c r
          else if code c = 0 then (End_of_input, r)
          else (Parse_error ''invalid literal'', r))"

text \<open>The byte order mark is skipped before the first token.\<close>

definition skip_bom :: "string \<Rightarrow> string option" where
  "skip_bom s =
     (case s of
        c # r \<Rightarrow> if code c = 239 then (case r of a # b # r' \<Rightarrow> if code a = 187 \<and> code b = 191 then Some r' else None | _ \<Rightarrow> None)
                 else Some s
      | [] \<Rightarrow> Some s)"

section \<open>Parser\<close>

datatype parse_exn = Syntax_error string | Number_overflow

text \<open>The stack of the arrays and objects being built, which \<open>states\<close> and \<open>ref_stack\<close> hold together: an array with
  its elements so far, an object with its members so far and the key of the next value. A
  container is stored in its parent when it is closed.\<close>

datatype frame = In_array "json list" | In_object "(string, json) omap" string

lemma scan_string_length: "scan_string s = Inr (t, r) \<Longrightarrow> length r < length s"
proof (induction s arbitrary: t rule: scan_string.induct)
  case (1 s)
  show ?case
  proof (cases "scan_char s")
    case (Str_add bs r1)
    then obtain t' where "scan_string r1 = Inr (t', r)"
      using "1.prems" by (subst (asm) scan_string.simps) (auto simp: map_sum_def split: sum.splits)
    then show ?thesis using "1.IH" [OF Str_add] scan_char_length(1) [OF Str_add] by fastforce
  qed (use "1.prems" in \<open>auto simp: scan_string.simps [of s] scan_char_length\<close>)
qed

lemma scan_digits_length: "scan_digits st ty s = Inr (b, r) \<Longrightarrow> length r \<le> length s"
  by (induction st ty s arbitrary: b rule: scan_digits.induct) (fastforce simp: map_sum_def split: option.splits sum.splits)+

definition ends_input :: "token \<Rightarrow> bool" where
  "ends_input tok \<longleftrightarrow> tok = End_of_input \<or> (\<exists>e. tok = Parse_error e)"

lemma scan_length: "scan s = (tok, r) \<Longrightarrow> length r \<le> length s \<and> (ends_input tok \<or> length r < length s)"
proof -
  assume a: "scan s = (tok, r)"
  show ?thesis
  proof (cases "dropWhile is_ws s")
    case Nil
    show ?thesis using a unfolding scan_def Nil by (simp add: ends_input_def)
  next
    case (Cons c t)
    have "length (c # t) \<le> length s" using length_dropWhile_le [of is_ws s] Cons by simp
    moreover have "length r \<le> length t" using a Cons
      by (auto simp: scan_def scan_literal_def scan_number_def Let_def dest: scan_string_length scan_digits_length
          split: if_split_asm sum.split_asm prod.split_asm)
    ultimately show ?thesis by simp
  qed
qed

text \<open>For termination: every turn of the parser takes a token from the text, except that the end of the text is met with an error.\<close>

definition token_weight :: "token \<Rightarrow> nat" where
  "token_weight tok = (if ends_input tok then 0 else 2)"

lemma scan_weight: "scan s = (tok, r) \<Longrightarrow> 3 * length r + token_weight tok \<le> 3 * length s"
  using scan_length [of s tok r] by (auto simp: token_weight_def)

lemma scan_shorter: "scan s = (tok, r) \<Longrightarrow> \<not> ends_input tok \<Longrightarrow> length r < length s"
  using scan_length [of s tok r] by auto

lemma token_weights [simp]:
  "token_weight Begin_object = 2" "token_weight Begin_array = 2" "token_weight (Value_float x) = 2" "token_weight Literal_false = 2"
  "token_weight Literal_null = 2" "token_weight Literal_true = 2" "token_weight (Value_integer i) = 2"
  "token_weight (Value_string str) = 2" "token_weight (Value_unsigned n) = 2" "token_weight Value_separator = 2"
  "token_weight Name_separator = 2" "token_weight End_array = 2" "token_weight End_object = 2"
  by (simp_all add: token_weight_def ends_input_def)

text \<open>The loop of \<open>sax_parse_internal\<close>: \<open>parse_value\<close> evaluates the last token, \<open>value_done\<close> is the state evaluation
  behind it, with the value that was completed.\<close>

function (sequential) parse_value :: "token \<Rightarrow> string \<Rightarrow> frame list \<Rightarrow> parse_exn + json \<times> string"
  and value_done :: "json \<Rightarrow> string \<Rightarrow> frame list \<Rightarrow> parse_exn + json \<times> string" where
  "parse_value Begin_object r fs =
     (case scan r of
        (End_object, r1) \<Rightarrow> value_done (JObj []) r1 fs
      | (Value_string k, r1) \<Rightarrow>
          (case scan r1 of
             (Name_separator, r2) \<Rightarrow> (case scan r2 of (tok, r3) \<Rightarrow> parse_value tok r3 (In_object [] k # fs))
           | _ \<Rightarrow> Inl (Syntax_error ''object separator''))
      | _ \<Rightarrow> Inl (Syntax_error ''object key''))"
| "parse_value Begin_array r fs =
     (case scan r of
        (End_array, r1) \<Rightarrow> value_done (JArr []) r1 fs
      | (tok, r1) \<Rightarrow> parse_value tok r1 (In_array [] # fs))"
| "parse_value (Value_float x) r fs = (case x of Fin v \<Rightarrow> value_done (JFloat v) r fs | _ \<Rightarrow> Inl Number_overflow)"
| "parse_value Literal_false r fs = value_done (JBool False) r fs"
| "parse_value Literal_null r fs = value_done JNull r fs"
| "parse_value Literal_true r fs = value_done (JBool True) r fs"
| "parse_value (Value_integer i) r fs = value_done (JInt i) r fs"
| "parse_value (Value_string str) r fs = value_done (JStr str) r fs"
| "parse_value (Value_unsigned n) r fs = value_done (JInt (int n)) r fs"
| "parse_value (Parse_error e) r fs = Inl (Syntax_error e)"
| "parse_value _ r fs = Inl (Syntax_error ''value'')"
| "value_done v r [] = Inr (v, r)"
| "value_done v r (In_array vs # fs) =
     (case scan r of
        (Value_separator, r1) \<Rightarrow> (case scan r1 of (tok, r2) \<Rightarrow> parse_value tok r2 (In_array (vs @ [v]) # fs))
      | (End_array, r1) \<Rightarrow> value_done (JArr (vs @ [v])) r1 fs
      | _ \<Rightarrow> Inl (Syntax_error ''array''))"
| "value_done v r (In_object m k # fs) =
     (case scan r of
        (Value_separator, r1) \<Rightarrow>
          (case scan r1 of
             (Value_string k', r2) \<Rightarrow>
               (case scan r2 of
                  (Name_separator, r3) \<Rightarrow> (case scan r3 of (tok, r4) \<Rightarrow> parse_value tok r4 (In_object (om_set k v m) k' # fs))
                | _ \<Rightarrow> Inl (Syntax_error ''object separator''))
           | _ \<Rightarrow> Inl (Syntax_error ''object key''))
      | (End_object, r1) \<Rightarrow> value_done (JObj (om_set k v m)) r1 fs
      | _ \<Rightarrow> Inl (Syntax_error ''object''))"
  by pat_completeness auto

termination
  by (relation "measure (case_sum (\<lambda>(tok, r, fs). 3 * length r + token_weight tok) (\<lambda>(v, r, fs). 3 * length r + 1))")
    (auto dest!: scan_weight [OF sym])

text \<open>\<open>json::parse\<close> of a whole text: behind the value only white space is allowed, up to the end or a NUL byte.\<close>

definition parse_json :: "string \<Rightarrow> parse_exn + json" where
  "parse_json s =
     (case skip_bom s of
        None \<Rightarrow> Inl (Syntax_error ''invalid BOM'')
      | Some s' \<Rightarrow>
          (case scan s' of (tok, r) \<Rightarrow>
             (case parse_value tok r [] of
                Inl e \<Rightarrow> Inl e
              | Inr (v, r') \<Rightarrow> if fst (scan r') = End_of_input then Inr v else Inl (Syntax_error ''value''))))"

section \<open>Serializer\<close>

subsection \<open>Strings\<close>

text \<open>The table of the UTF-8 automaton: the type of a byte, then a row of successors for each of the nine states.\<close>

definition utf8_types :: "nat list" where
  "utf8_types =
     replicate 128 0 @ replicate 16 1 @ replicate 16 9 @ replicate 32 7 @ replicate 2 8 @ replicate 30 2 @
     [10] @ replicate 12 3 @ [4] @ replicate 2 3 @ [11] @ replicate 3 6 @ [5] @ replicate 11 8"

definition utf8_rows :: "nat list" where
  "utf8_rows =
     [0, 1, 2, 3, 5, 8, 7, 1, 1, 1, 4, 6, 1, 1, 1, 1,
      1, 1, 1, 1, 1, 1, 1, 1, 1, 1, 1, 1, 1, 1, 1, 1, 1, 0, 1, 1, 1, 1, 1, 0, 1, 0, 1, 1, 1, 1, 1, 1,
      1, 2, 1, 1, 1, 1, 1, 2, 1, 2, 1, 1, 1, 1, 1, 1, 1, 1, 1, 1, 1, 1, 1, 2, 1, 1, 1, 1, 1, 1, 1, 1,
      1, 2, 1, 1, 1, 1, 1, 1, 1, 2, 1, 1, 1, 1, 1, 1, 1, 1, 1, 1, 1, 1, 1, 3, 1, 3, 1, 1, 1, 1, 1, 1,
      1, 3, 1, 1, 1, 1, 1, 3, 1, 3, 1, 1, 1, 1, 1, 1, 1, 3, 1, 1, 1, 1, 1, 1, 1, 1, 1, 1, 1, 1, 1, 1]"

definition utf8d :: "nat list" where
  "utf8d = utf8_types @ utf8_rows"

definition UTF8_ACCEPT :: nat where
  "UTF8_ACCEPT = 0"

definition UTF8_REJECT :: nat where
  "UTF8_REJECT = 1"

text \<open>The mask \<open>0xFF >> type\<close> keeps the low bits of the lead byte.\<close>

definition decode :: "nat \<Rightarrow> nat \<Rightarrow> nat \<Rightarrow> nat \<times> nat" where
  "decode state codep byte =
     (let ty = utf8d ! byte;
          codep' = (if state \<noteq> UTF8_ACCEPT then byte mod 64 + codep * 64 else byte mod 2 ^ (8 - ty))
      in (utf8d ! (256 + state * 16 + ty), codep'))"

definition hex_char :: "nat \<Rightarrow> char" where
  "hex_char n = char_of (if n < 10 then 48 + n else 87 + n)"

text \<open>What is written when a code point is complete, its earlier bytes being written already.\<close>

definition dump_codepoint :: "nat \<Rightarrow> char \<Rightarrow> string" where
  "dump_codepoint cp c =
     (let esc = char_of (92 :: nat)
      in if cp = 8 then [esc, CHR ''b''] else if cp = 9 then [esc, CHR ''t''] else if cp = 10 then [esc, CHR ''n'']
         else if cp = 12 then [esc, CHR ''f''] else if cp = 13 then [esc, CHR ''r'']
         else if cp = 34 then [esc, char_of (34 :: nat)] else if cp = 92 then [esc, esc]
         else if cp \<le> 31 then [esc, CHR ''u'', CHR ''0'', CHR ''0'', hex_char (cp div 16), hex_char (cp mod 16)]
         else [c])"

text \<open>\<open>dump_escaped\<close> without \<open>ensure_ascii\<close> and with the strict error handler, which is how the program calls it. The
  buffer of 512 bytes is written out whenever it fills up; only what is written counts here.\<close>

fun dump_loop :: "nat \<Rightarrow> nat \<Rightarrow> string \<Rightarrow> string result" where
  "dump_loop state codep [] =
     (if state = UTF8_ACCEPT then Inr [] else Inl (Type_error ''incomplete UTF-8 string''))"
| "dump_loop state codep (c # s) =
     (case decode state codep (code c) of
        (state', codep') \<Rightarrow>
          if state' = UTF8_ACCEPT then map_sum id (append (dump_codepoint codep' c)) (dump_loop state' codep' s)
          else if state' = UTF8_REJECT then Inl (Type_error ''invalid UTF-8 byte'')
          else map_sum id (append [c]) (dump_loop state' codep' s))"

definition dump_escaped :: "string \<Rightarrow> string result" where
  "dump_escaped s = dump_loop UTF8_ACCEPT 0 s"

subsection \<open>Numbers\<close>

function count_digits :: "nat \<Rightarrow> nat" where
  "count_digits x =
     (if x < 10 then 1 else if x < 100 then 2 else if x < 1000 then 3 else if x < 10000 then 4
      else count_digits (x div 10000) + 4)"
  by pat_completeness auto
termination
  by (relation "measure id") auto

declare count_digits.simps [simp del]

definition digit_char :: "nat \<Rightarrow> char" where
  "digit_char d = char_of (48 + d)"

text \<open>The digits are written from the end of the buffer, two at a time.\<close>

function fill_digits :: "nat \<Rightarrow> nat \<Rightarrow> string \<Rightarrow> string" where
  "fill_digits v pos buf =
     (if 100 \<le> v
      then fill_digits (v div 100) (pos - 2) (buf[pos - 1 := digit_char (v mod 10), pos - 2 := digit_char (v div 10 mod 10)])
      else if 10 \<le> v then buf[pos - 1 := digit_char (v mod 10), pos - 2 := digit_char (v div 10)]
      else buf[pos - 1 := digit_char v])"
  by pat_completeness auto
termination
  by (relation "measure (\<lambda>(v, _, _). v)") auto

declare fill_digits.simps [simp del]

text \<open>\<open>remove_sign\<close> computes the absolute value without overflow; \<open>number_buffer\<close> has 64 bytes.\<close>

definition dump_integer :: "int \<Rightarrow> string" where
  "dump_integer x =
     (if x = 0 then ''0''
      else
        let abs_value = (if x < 0 then nat (- (x + 1)) + 1 else nat x);
            n_chars = (if x < 0 then 1 + count_digits abs_value else count_digits abs_value);
            buf = replicate 64 (char_of (0 :: nat));
            buf1 = (if x < 0 then buf[0 := CHR ''-''] else buf)
        in take n_chars (fill_digits abs_value n_chars buf1))"

definition append_exponent :: "int \<Rightarrow> string" where
  "append_exponent e =
     (let k = nat \<bar>e\<bar>
      in (if e < 0 then ''-'' else ''+'') @
         (if k < 10 then [CHR ''0'', digit_char k]
          else if k < 100 then [digit_char (k div 10), digit_char (k mod 10)]
          else [digit_char (k div 100), digit_char (k mod 100 div 10), digit_char (k mod 100 mod 10)]))"

definition format_buffer :: "string \<Rightarrow> int \<Rightarrow> int \<Rightarrow> int \<Rightarrow> string" where
  "format_buffer buf decimal_exponent min_exp max_exp =
     (let k = int (length buf); n = k + decimal_exponent
      in if k \<le> n \<and> n \<le> max_exp then buf @ replicate (nat (n - k)) (CHR ''0'') @ ''.0''
         else if 0 < n \<and> n \<le> max_exp then take (nat n) buf @ ''.'' @ drop (nat n) buf
         else if min_exp < n \<and> n \<le> 0 then ''0.'' @ replicate (nat (- n)) (CHR ''0'') @ buf
         else (if k = 1 then buf else take 1 buf @ ''.'' @ drop 1 buf) @ ''e'' @ append_exponent (n - 1))"

text \<open>\<open>grisu2\<close> gives the digits of a positive number and the power of ten of the last one.\<close>

definition to_chars :: "(real \<Rightarrow> string \<times> int) \<Rightarrow> real \<Rightarrow> string" where
  "to_chars grisu2 x =
     (if x < 0 then ''-'' else []) @
     (if x = 0 then ''0.0'' else case grisu2 \<bar>x\<bar> of (buf, e) \<Rightarrow> format_buffer buf e (- 4) 15)"

subsection \<open>Values\<close>

definition quoted :: "string \<Rightarrow> string result" where
  "quoted s = map_sum id (\<lambda>t. [char_of (34 :: nat)] @ t @ [char_of (34 :: nat)]) (dump_escaped s)"

text \<open>The parts of a container, each behind its indentation, with separators between them.\<close>

fun join :: "string \<Rightarrow> string result list \<Rightarrow> string result" where
  "join sep [] = Inr []"
| "join sep [r] = r"
| "join sep (r # rs) = (case r of Inl e \<Rightarrow> Inl e | Inr t \<Rightarrow> map_sum id (\<lambda>u. t @ sep @ u) (join sep rs))"

definition NL :: string where
  "NL = [char_of (10 :: nat)]"

definition indentation :: "nat \<Rightarrow> string" where
  "indentation n = replicate n (CHR '' '')"

definition container :: "string \<Rightarrow> string \<Rightarrow> bool \<Rightarrow> nat \<Rightarrow> nat \<Rightarrow> string result list \<Rightarrow> string result" where
  "container op cl pretty new_indent current_indent parts =
     (if parts = [] then Inr (op @ cl)
      else if pretty
      then map_sum id (\<lambda>t. op @ NL @ t @ NL @ indentation current_indent @ cl) (join ('','' @ NL) (map (map_sum id (append (indentation new_indent))) parts))
      else map_sum id (\<lambda>t. op @ t @ cl) (join '','' parts))"

definition member :: "bool \<Rightarrow> string \<Rightarrow> string result \<Rightarrow> string result" where
  "member pretty k r =
     (case quoted k of Inl e \<Rightarrow> Inl e | Inr q \<Rightarrow> map_sum id (\<lambda>t. q @ (if pretty then '': '' else '':'') @ t) r)"

fun dump_json :: "(real \<Rightarrow> string \<times> int) \<Rightarrow> bool \<Rightarrow> nat \<Rightarrow> nat \<Rightarrow> json \<Rightarrow> string result" where
  "dump_json g pretty indent_step cur (JObj m) =
     container ''{'' ''}'' pretty (cur + indent_step) cur
       (map (\<lambda>(k, v). member pretty k (dump_json g pretty indent_step (if pretty then cur + indent_step else cur) v)) m)"
| "dump_json g pretty indent_step cur (JArr vs) =
     container ''['' '']'' pretty (cur + indent_step) cur
       (map (dump_json g pretty indent_step (if pretty then cur + indent_step else cur)) vs)"
| "dump_json g pretty indent_step cur (JStr s) = quoted s"
| "dump_json g pretty indent_step cur (JBool b) = Inr (if b then ''true'' else ''false'')"
| "dump_json g pretty indent_step cur (JInt i) = Inr (dump_integer i)"
| "dump_json g pretty indent_step cur (JFloat x) = Inr (to_chars g x)"
| "dump_json g pretty indent_step cur JNull = Inr ''null''"

text \<open>\<open>json::dump\<close>: a negative indentation means one line. \<open>indent_string\<close> starts with 512 spaces and is doubled when
  it is too short, which is enough for indentations of up to 512 spaces.\<close>

definition dump_text :: "(real \<Rightarrow> string \<times> int) \<Rightarrow> int \<Rightarrow> json \<Rightarrow> string result" where
  "dump_text g indent j = (if 0 \<le> indent then dump_json g True (nat indent) 0 j else dump_json g False 0 0 j)"

end
