(* ===== verification/Json_Utf8.thy ===== *)
theory Json_Utf8
  imports Json_Text
begin

text \<open>
  Strings in JSON text. The UTF-8 automaton of the serializer accepts the strings the lexer produces and no others,
  and what the serializer writes for a string the lexer reads back.
\<close>

section \<open>UTF-8\<close>

text \<open>Well-formed UTF-8, with the ranges of the lexer.\<close>

fun in_ranges :: "(nat \<times> nat) list \<Rightarrow> string \<Rightarrow> bool" where
  "in_ranges [] cs = (cs = [])"
| "in_ranges ((lo, hi) # bs) (c # cs) = (lo \<le> code c \<and> code c \<le> hi \<and> in_ranges bs cs)"
| "in_ranges (b # bs) [] = False"

inductive utf8 :: "string \<Rightarrow> bool" where
  empty: "utf8 []"
| ascii: "code c < 128 \<Longrightarrow> utf8 s \<Longrightarrow> utf8 (c # s)"
| multi: "lead_ranges (code c) = Some bs \<Longrightarrow> in_ranges bs cs \<Longrightarrow> utf8 s \<Longrightarrow> utf8 (c # cs @ s)"

lemma code_less: "code c < 256"
  by simp

text \<open>The classes of bytes that lexer and table distinguish.\<close>

lemma byte_cases:
  fixes b :: nat
  assumes "b < 256"
  obtains "b < 128" | "128 \<le> b" "b < 144" | "144 \<le> b" "b < 160" | "160 \<le> b" "b < 192" | "192 \<le> b" "b < 194"
    | "194 \<le> b" "b < 224" | "b = 224" | "225 \<le> b" "b < 237" | "b = 237" | "238 \<le> b" "b < 240" | "b = 240"
    | "241 \<le> b" "b < 244" | "b = 244" | "245 \<le> b" "b < 256"
proof -
  have "b < 128 \<or> 128 \<le> b \<and> b < 144 \<or> 144 \<le> b \<and> b < 160 \<or> 160 \<le> b \<and> b < 192 \<or> 192 \<le> b \<and> b < 194 \<or>
    194 \<le> b \<and> b < 224 \<or> b = 224 \<or> 225 \<le> b \<and> b < 237 \<or> b = 237 \<or> 238 \<le> b \<and> b < 240 \<or> b = 240 \<or> 241 \<le> b \<and> b < 244 \<or>
    b = 244 \<or> 245 \<le> b \<and> b < 256"
    using assms by auto
  then show ?thesis using that by blast
qed

lemma utf8d_type:
  "b < 128 \<Longrightarrow> utf8d ! b = 0" "128 \<le> b \<Longrightarrow> b < 144 \<Longrightarrow> utf8d ! b = 1" "144 \<le> b \<Longrightarrow> b < 160 \<Longrightarrow> utf8d ! b = 9"
  "160 \<le> b \<Longrightarrow> b < 192 \<Longrightarrow> utf8d ! b = 7" "192 \<le> b \<Longrightarrow> b < 194 \<Longrightarrow> utf8d ! b = 8" "194 \<le> b \<Longrightarrow> b < 224 \<Longrightarrow> utf8d ! b = 2"
  "utf8d ! 224 = 10" "225 \<le> b \<Longrightarrow> b < 237 \<Longrightarrow> utf8d ! b = 3" "utf8d ! 237 = 4" "238 \<le> b \<Longrightarrow> b < 240 \<Longrightarrow> utf8d ! b = 3"
  "utf8d ! 240 = 11" "241 \<le> b \<Longrightarrow> b < 244 \<Longrightarrow> utf8d ! b = 6" "utf8d ! 244 = 5" "245 \<le> b \<Longrightarrow> b < 256 \<Longrightarrow> utf8d ! b = 8"
  by (simp_all add: utf8d_def utf8_types_def nth_append less_diff_conv2)

lemma utf8d_row: "utf8d ! (256 + i) = utf8_rows ! i"
  by (simp add: utf8d_def nth_append utf8_types_def)

text \<open>What a state still expects.\<close>

definition state_ranges :: "nat \<Rightarrow> (nat \<times> nat) list" where
  "state_ranges st =
     (if st = 2 then [(128, 191)] else if st = 3 then [(128, 191), (128, 191)]
      else if st = 4 then [(160, 191), (128, 191)] else if st = 5 then [(128, 159), (128, 191)]
      else if st = 6 then [(144, 191), (128, 191), (128, 191)] else if st = 7 then [(128, 191), (128, 191), (128, 191)]
      else if st = 8 then [(128, 143), (128, 191), (128, 191)] else [])"

lemma decode_state: "fst (decode st cp b) = utf8_rows ! (st * 16 + utf8d ! b)"
  using utf8d_row [of "st * 16 + utf8d ! b"] by (simp add: decode_def Let_def add.assoc)

lemma decode_first:
  assumes "b < 256"
  shows "if b < 128 then fst (decode 0 cp b) = 0
    else case lead_ranges b of None \<Rightarrow> fst (decode 0 cp b) = 1
       | Some bs \<Rightarrow> 2 \<le> fst (decode 0 cp b) \<and> fst (decode 0 cp b) \<le> 8 \<and> bs = state_ranges (fst (decode 0 cp b))"
  unfolding decode_state using assms
  by (cases b rule: byte_cases) (auto simp: utf8d_type lead_ranges_def state_ranges_def utf8_rows_def)

lemma decode_next:
  assumes "b < 256" "2 \<le> st" "st \<le> 8"
  shows "\<exists>lo hi bs. state_ranges st = (lo, hi) # bs \<and>
    (if lo \<le> b \<and> b \<le> hi then bs = state_ranges (fst (decode st cp b)) \<and> fst (decode st cp b) < st \<and> fst (decode st cp b) \<noteq> 1
     else fst (decode st cp b) = 1)"
proof -
  consider "st = 2" | "st = 3" | "st = 4" | "st = 5" | "st = 6" | "st = 7" | "st = 8" using assms(2,3) by linarith
  then show ?thesis unfolding decode_state
    by cases (use assms(1) in \<open>cases b rule: byte_cases; simp add: utf8d_type state_ranges_def utf8_rows_def\<close>)+
qed

text \<open>The code point that is being put together is large enough not to be taken for a character that is escaped.\<close>

definition large_code :: "nat \<Rightarrow> nat \<Rightarrow> bool" where
  "large_code st cp \<longleftrightarrow> (st = 0 \<longrightarrow> 128 \<le> cp) \<and> (st = 2 \<longrightarrow> 2 \<le> cp) \<and> (st = 3 \<or> st = 5 \<or> st = 7 \<or> st = 8 \<longrightarrow> 1 \<le> cp)"

lemma decode_code: "snd (decode st cp b) = (if st = 0 then b mod 2 ^ (8 - utf8d ! b) else b mod 64 + cp * 64)"
  by (simp add: decode_def Let_def UTF8_ACCEPT_def)

lemma mod_range:
  fixes b :: nat
  assumes "k * n \<le> b" "b < k * n + n"
  shows "b mod n = b - k * n"
proof -
  define i where "i = b - k * n"
  have "b = i + k * n" "i < n" using assms by (simp_all add: i_def less_diff_conv2)
  then show ?thesis by simp
qed

lemma decode_first_large:
  assumes "b < 256" "lead_ranges b = Some bs"
  shows "large_code (fst (decode 0 cp b)) (snd (decode 0 cp b))"
proof -
  have m: "241 \<le> b \<and> b < 244 \<longrightarrow> b mod 4 = b - 240" "194 \<le> b \<and> b < 224 \<longrightarrow> b mod 64 = b - 192"
    "225 \<le> b \<and> b < 240 \<longrightarrow> b mod 32 = b - 224"
    using mod_range [of 60 4 b] mod_range [of 3 64 b] mod_range [of 7 32 b] by simp_all
  show ?thesis
    unfolding decode_state decode_code
    by (rule byte_cases [OF assms(1)])
      (use assms(2) m in \<open>simp_all add: utf8d_type lead_ranges_def large_code_def utf8_rows_def\<close>)
qed

lemma state_ranges_Cons: "2 \<le> st \<Longrightarrow> st \<le> 8 \<Longrightarrow> \<exists>lo hi bs. state_ranges st = (lo, hi) # bs"
  by (auto simp: state_ranges_def)

lemma next_state:
  assumes "b < 256" "2 \<le> st" "st \<le> 8" "state_ranges st = (lo, hi) # bs" "lo \<le> b" "b \<le> hi"
  shows "fst (decode st cp b) = (if st = 2 then 0 else if st < 6 then 2 else 3)"
proof -
  consider "st = 2" | "st = 3" | "st = 4" | "st = 5" | "st = 6" | "st = 7" | "st = 8" using assms(2,3) by linarith
  then show ?thesis unfolding decode_state
    by cases (rule byte_cases [OF assms(1)]; use assms(4-) in \<open>simp add: utf8d_type state_ranges_def utf8_rows_def\<close>)+
qed

lemma decode_next_large:
  assumes "b < 256" "2 \<le> st" "st \<le> 8" "state_ranges st = (lo, hi) # bs" "lo \<le> b" "b \<le> hi" "large_code st cp"
  shows "large_code (fst (decode st cp b)) (snd (decode st cp b))"
proof -
  have m: "128 \<le> b \<and> b < 192 \<longrightarrow> b mod 64 = b - 128" using mod_range [of 2 64 b] by simp
  consider "st = 2" | "st = 3" | "st = 4" | "st = 5" | "st = 6" | "st = 7" | "st = 8" using assms(2,3) by linarith
  then show ?thesis unfolding next_state [OF assms(1-6)] decode_code
    by cases (use assms(4-) m in \<open>simp_all add: state_ranges_def large_code_def\<close>)
qed

section \<open>Strings\<close>

lemma dump_loop_start: "dump_loop 0 cp s = dump_loop 0 cp' s"
  by (cases s) (simp_all add: decode_def Let_def UTF8_ACCEPT_def)

lemma dump_ascii:
  assumes "code c < 128"
  shows "dump_loop 0 cp (c # s) = map_sum id (append (dump_codepoint (code c) c)) (dump_loop 0 0 s)"
proof -
  have "decode 0 cp (code c) = (0, code c)"
    using decode_first [of "code c" cp] decode_code [of 0 cp "code c"] assms by (simp add: prod_eq_iff utf8d_type)
  then show ?thesis by (simp add: UTF8_ACCEPT_def dump_loop_start [of "code c" s 0])
qed

lemma dump_continuation:
  assumes "2 \<le> st" "st \<le> 8" "large_code st cp" "in_ranges (state_ranges st) cs"
  shows "dump_loop st cp (cs @ s) = map_sum id (append cs) (dump_loop 0 0 s)"
  using assms
proof (induction cs arbitrary: st cp)
  case Nil
  obtain lo hi bs where "state_ranges st = (lo, hi) # bs" using state_ranges_Cons Nil.prems by blast
  then show ?case using Nil.prems by simp
next
  case (Cons c cs)
  obtain lo hi bs where r: "state_ranges st = (lo, hi) # bs" using state_ranges_Cons Cons.prems by blast
  then have in_r: "lo \<le> code c" "code c \<le> hi" "in_ranges bs cs" using Cons.prems(4) by simp_all
  obtain st' cp' where d: "decode st cp (code c) = (st', cp')" by (cases "decode st cp (code c)")
  have next_st: "bs = state_ranges st'" "st' < st" "st' \<noteq> 1"
    using decode_next [of "code c" st cp] Cons.prems(1,2) r in_r d by auto
  have large: "large_code st' cp'"
    using decode_next_large [OF code_less Cons.prems(1,2) r in_r(1,2) Cons.prems(3)] d by simp
  show ?case
  proof (cases "st' = 0")
    case True
    then have "cs = []" using next_st(1) in_r(3) by (simp add: state_ranges_def)
    then show ?thesis using True large d
      by (cases "dump_loop 0 0 s")
        (simp_all add: UTF8_ACCEPT_def dump_codepoint_def Let_def large_code_def dump_loop_start [of cp' s 0])
  next
    case False
    then have "2 \<le> st'" "st' \<le> 8" using next_st(2,3) Cons.prems(2) by linarith+
    then show ?thesis using Cons.IH [OF _ _ large] d False next_st in_r(3)
      by (cases "dump_loop 0 0 s") (simp_all add: UTF8_ACCEPT_def UTF8_REJECT_def)
  qed
qed

lemma dump_multi:
  assumes "lead_ranges (code c) = Some bs" "in_ranges bs cs"
  shows "dump_loop 0 cp (c # cs @ s) = map_sum id (append (c # cs)) (dump_loop 0 0 s)"
proof -
  obtain st' cp' where d: "decode 0 cp (code c) = (st', cp')" by (cases "decode 0 cp (code c)")
  have ge: "\<not> code c < 128" using assms(1) by (auto simp: lead_ranges_def split: if_split_asm)
  have st: "2 \<le> st'" "st' \<le> 8" "bs = state_ranges st'"
    using decode_first [of "code c" cp] assms(1) d ge by auto
  have "large_code st' cp'" using decode_first_large [OF code_less assms(1), of cp] d by simp
  from dump_continuation [OF st(1,2) this] assms(2) st show ?thesis
    by (cases "dump_loop 0 0 s") (simp_all add: d UTF8_ACCEPT_def UTF8_REJECT_def)
qed

lemma dump_loop_utf8:
  assumes "dump_loop st cp s = Inr t" "st = 0 \<or> 2 \<le> st \<and> st \<le> 8"
  shows "\<exists>cs s'. s = cs @ s' \<and> in_ranges (state_ranges st) cs \<and> utf8 s'"
  using assms
proof (induction s arbitrary: st cp t)
  case Nil
  then show ?case by (auto simp: UTF8_ACCEPT_def state_ranges_def intro: utf8.empty split: if_split_asm)
next
  case (Cons c s)
  obtain st' cp' where d: "decode st cp (code c) = (st', cp')" by (cases "decode st cp (code c)")
  have ok: "st' \<noteq> 1" and "\<exists>t'. dump_loop st' cp' s = Inr t'"
    using Cons.prems(1) d by (auto simp: UTF8_ACCEPT_def UTF8_REJECT_def map_sum_def split: if_split_asm sum.split_asm)
  then obtain t' where t': "dump_loop st' cp' s = Inr t'" by blast
  show ?case
  proof (cases "st = 0")
    case True
    show ?thesis
    proof (cases "code c < 128")
      case less: True
      then have "st' = 0" using decode_first [of "code c" cp] d True by simp
      then obtain cs s' where "s = cs @ s'" "cs = []" "utf8 s'" using Cons.IH [OF t'] by (auto simp: state_ranges_def)
      then show ?thesis using less True by (auto intro!: exI [of _ "[]"] utf8.ascii simp: state_ranges_def)
    next
      case False
      then obtain bs where l: "lead_ranges (code c) = Some bs" using decode_first [of "code c" cp] d True ok by (cases "lead_ranges (code c)") auto
      then have "2 \<le> st'" "st' \<le> 8" "bs = state_ranges st'" using decode_first [of "code c" cp] d True False by auto
      then obtain cs s' where "s = cs @ s'" "in_ranges bs cs" "utf8 s'" using Cons.IH [OF t'] by blast
      then show ?thesis using utf8.multi [OF l] True by (auto intro!: exI [of _ "[]"] simp: state_ranges_def)
    qed
  next
    case False
    then have st: "2 \<le> st" "st \<le> 8" using Cons.prems(2) by auto
    obtain lo hi bs where r: "state_ranges st = (lo, hi) # bs" using state_ranges_Cons st by blast
    have n: "lo \<le> code c" "code c \<le> hi" "bs = state_ranges st'" "st' < st"
      using decode_next [of "code c" st cp] st r d ok by (auto split: if_split_asm)
    have range: "st' = 0 \<or> 2 \<le> st' \<and> st' \<le> 8" using n(4) st ok by linarith
    obtain cs s' where "s = cs @ s'" "in_ranges bs cs" "utf8 s'" using Cons.IH [OF t'] range n(3) by blast
    then show ?thesis using r n by (rule_tac x = "c # cs" in exI, rule_tac x = s' in exI) auto
  qed
qed

abbreviation quote :: char where
  "quote \<equiv> char_of (34 :: nat)"

lemma code_char_of [simp]: "n < 256 \<Longrightarrow> code (char_of n) = n"
  by simp

lemma char_eqI: "code c = code d \<Longrightarrow> c = d"
  by simp

lemma scan_string_add: "scan_char s = Str_add bs r \<Longrightarrow> scan_string s = map_sum id (\<lambda>(t, r'). (bs @ t, r')) (scan_string r)"
  by (subst scan_string.simps) simp

text \<open>A character below 128 is read back as it was written, whether it was escaped or not.\<close>

lemma scan_dumped_ascii:
  assumes "code c < 128"
  shows "scan_char (dump_codepoint (code c) c @ r) = Str_add [c] r"
proof -
  have ctl: "get_codepoint (CHR ''0'' # CHR ''0'' # hex_char (n div 16) # hex_char (n mod 16) # r) = Some (n, r)" if "n < 32" for n
  proof -
    have "hex_digit (hex_char k) = Some k" if "k < 16" for k using that by (auto simp: hex_digit_def hex_char_def)
    moreover have "hex_digit (CHR ''0'') = Some 0" by (simp add: hex_digit_def)
    moreover have "n div 16 < 16" "n mod 16 < 16" using that by auto
    ultimately show ?thesis by simp
  qed
  show ?thesis
  proof (cases "code c = 8 \<or> code c = 9 \<or> code c = 10 \<or> code c = 12 \<or> code c = 13 \<or> code c = 34 \<or> code c = 92")
    case True
    then show ?thesis by (auto simp: dump_codepoint_def Let_def intro!: char_eqI)
  next
    case False
    then show ?thesis using assms ctl [of "code c"]
      by (auto simp: dump_codepoint_def Let_def scan_unicode_def utf8_bytes_def split: option.split)
  qed
qed

lemma next_byte_ranges: "in_ranges bs cs \<Longrightarrow> next_byte_in_range bs (cs @ r) = Some (cs, r)"
  by (induction bs cs rule: in_ranges.induct) auto

lemma next_byte_in: "next_byte_in_range bs r = Some (cs, r') \<Longrightarrow> in_ranges bs cs"
  by (induction bs r arbitrary: cs r' rule: next_byte_in_range.induct) (auto split: if_split_asm)

lemma lead_ranges_ge: "lead_ranges b = Some bs \<Longrightarrow> 194 \<le> b"
  by (auto simp: lead_ranges_def split: if_split_asm)

lemma in_ranges_ge: "in_ranges bs cs \<Longrightarrow> \<forall>(lo, hi) \<in> set bs. 128 \<le> lo \<Longrightarrow> \<forall>c \<in> set cs. 32 \<le> code c"
  by (induction bs cs rule: in_ranges.induct) auto

lemma scan_multi:
  assumes "lead_ranges (code c) = Some bs" "in_ranges bs cs"
  shows "scan_char (c # cs @ r) = Str_add (c # cs) r"
  using assms lead_ranges_ge [OF assms(1)] next_byte_ranges [of bs cs r] by simp

text \<open>The text that stands for a string between the quotes is read back, and holds no control characters.\<close>

lemma dump_escaped_utf8:
  assumes "utf8 s"
  shows "\<exists>t. dump_escaped s = Inr t \<and> (\<forall>r. scan_string (t @ quote # r) = Inr (s, r)) \<and> (\<forall>c \<in> set t. 32 \<le> code c)"
  using assms
proof (induction rule: utf8.induct)
  case empty
  show ?case by (simp add: dump_escaped_def UTF8_ACCEPT_def scan_string.simps)
next
  case (ascii c s)
  then obtain t where t: "dump_escaped s = Inr t" "\<And>r. scan_string (t @ quote # r) = Inr (s, r)" "\<forall>c \<in> set t. 32 \<le> code c" by blast
  have "dump_escaped (c # s) = Inr (dump_codepoint (code c) c @ t)"
    using t(1) dump_ascii [OF ascii.hyps(1)] by (simp add: dump_escaped_def UTF8_ACCEPT_def)
  moreover have "scan_string ((dump_codepoint (code c) c @ t) @ quote # r) = Inr (c # s, r)" for r
    using scan_string_add [OF scan_dumped_ascii [OF ascii.hyps(1)], of "t @ quote # r"] t(2) by simp
  moreover have "\<forall>d \<in> set (dump_codepoint (code c) c). 32 \<le> code d"
    using ascii.hyps(1) by (auto simp: dump_codepoint_def Let_def hex_char_def)
  ultimately show ?case using t(3) by (metis Un_iff set_append)
next
  case (multi c bs cs s)
  then obtain t where t: "dump_escaped s = Inr t" "\<And>r. scan_string (t @ quote # r) = Inr (s, r)" "\<forall>c \<in> set t. 32 \<le> code c" by blast
  have "dump_escaped (c # cs @ s) = Inr (c # cs @ t)"
    using t(1) dump_multi [OF multi.hyps(1,2)] by (simp add: dump_escaped_def UTF8_ACCEPT_def)
  moreover have "scan_string ((c # cs @ t) @ quote # r) = Inr (c # cs @ s, r)" for r
    using scan_string_add [OF scan_multi [OF multi.hyps(1,2)], of "t @ quote # r"] t(2) by simp
  moreover have "\<forall>d \<in> set (c # cs). 32 \<le> code d"
    using in_ranges_ge [OF multi.hyps(2)] lead_ranges_ge [OF multi.hyps(1)] multi.hyps(1) by (auto simp: lead_ranges_def split: if_split_asm)
  ultimately show ?case using t(3) by (metis Un_iff append_Cons set_append)
qed

text \<open>The serializer accepts the strings in well-formed UTF-8 and no others.\<close>

lemma dump_escaped_iff: "(\<exists>t. dump_escaped s = Inr t) \<longleftrightarrow> utf8 s"
proof
  assume "\<exists>t. dump_escaped s = Inr t"
  then show "utf8 s" using dump_loop_utf8 [of 0 0 s] by (auto simp: dump_escaped_def UTF8_ACCEPT_def state_ranges_def)
qed (use dump_escaped_utf8 in blast)

text \<open>So does the lexer: every string it produces is well formed.\<close>

lemma utf8_append: "utf8 s \<Longrightarrow> utf8 t \<Longrightarrow> utf8 (s @ t)"
  by (induction rule: utf8.induct) (auto intro: utf8.intros)

lemma utf8_multi1: "lead_ranges (code c) = Some bs \<Longrightarrow> in_ranges bs cs \<Longrightarrow> utf8 (c # cs)"
  using utf8.multi [OF _ _ utf8.empty, of c bs cs] by simp

lemma utf8_utf8_bytes:
  assumes "cp < 1114112" "\<not> (55296 \<le> cp \<and> cp \<le> 57343)"
  shows "utf8 (utf8_bytes cp)"
proof -
  consider "cp < 128" | "128 \<le> cp" "cp \<le> 2047" | "2048 \<le> cp" "cp \<le> 65535" | "65536 \<le> cp" using assms(1) by linarith
  then show ?thesis
  proof cases
    case 1
    then show ?thesis by (auto simp: utf8_bytes_def intro: utf8.intros)
  next
    case 2
    then have "2 \<le> cp div 64" "cp div 64 < 32" by (simp_all add: less_eq_div_iff_mult_less_eq div_less_iff_less_mult)
    then show ?thesis using 2 by (auto simp: utf8_bytes_def lead_ranges_def less_imp_le intro!: utf8_multi1)
  next
    case 3
    define u where "u = cp div 64"
    define v w where "v = u div 64" and "w = u mod 64"
    have u: "cp div 4096 = v" "u = 64 * v + w" "w < 64" by (simp add: v_def u_def flip: div_mult2_eq) (simp_all add: v_def w_def)
    have "32 \<le> u" "u < 1024" using 3 by (simp_all add: u_def less_eq_div_iff_mult_less_eq div_less_iff_less_mult)
    moreover have "u < 864 \<or> 896 \<le> u" using assms(2)
      by (auto simp: u_def less_eq_div_iff_mult_less_eq div_less_iff_less_mult not_le)
    ultimately have "v < 16" "v = 0 \<longrightarrow> 32 \<le> w" "v = 13 \<longrightarrow> w < 32" using u(2,3) by auto
    then have "\<exists>bs. lead_ranges (224 + v) = Some bs \<and> in_ranges bs [char_of (128 + w), char_of (128 + cp mod 64)]"
      using u(3) by (auto simp: lead_ranges_def less_imp_le)
    then show ?thesis using 3 \<open>v < 16\<close>
      by (auto simp: utf8_bytes_def u(1) intro!: utf8_multi1 simp flip: u_def w_def)
  next
    case 4
    define u where "u = cp div 4096"
    define v w where "v = u div 64" and "w = u mod 64"
    have u: "cp div 262144 = v" "u = 64 * v + w" "w < 64" by (simp add: v_def u_def flip: div_mult2_eq) (simp_all add: v_def w_def)
    have "16 \<le> u" "u < 272" using 4 assms(1) by (simp_all add: u_def less_eq_div_iff_mult_less_eq div_less_iff_less_mult)
    then have "v < 5" "v = 0 \<longrightarrow> 16 \<le> w" "v = 4 \<longrightarrow> w < 16" using u(2,3) by auto
    then have "\<exists>bs. lead_ranges (240 + v) = Some bs \<and>
        in_ranges bs [char_of (128 + w), char_of (128 + cp div 64 mod 64), char_of (128 + cp mod 64)]"
      using u(3) by (auto simp: lead_ranges_def less_imp_le)
    then show ?thesis using 4 \<open>v < 5\<close>
      by (auto simp: utf8_bytes_def u(1) intro!: utf8_multi1 simp flip: u_def w_def)
  qed
qed

lemma hex_digit_less: "hex_digit c = Some k \<Longrightarrow> k < 16"
  by (auto simp: hex_digit_def split: if_split_asm)

lemma get_codepoint_less: "get_codepoint r = Some (cp, r') \<Longrightarrow> cp < 65536"
  by (cases r rule: get_codepoint.cases) (auto dest!: hex_digit_less split: bind_splits)

lemma scan_unicode_utf8:
  assumes "scan_unicode r = Inr (bs, r')"
  shows "utf8 bs"
proof -
  obtain cp1 r1 where g: "get_codepoint r = Some (cp1, r1)" using assms by (auto simp: scan_unicode_def split: option.split_asm)
  show ?thesis
  proof (cases "55296 \<le> cp1 \<and> cp1 \<le> 56319")
    case True
    then obtain cp2 where "56320 \<le> cp2" "cp2 \<le> 57343" "bs = utf8_bytes (cp1 * 1024 + cp2 - 56613888)"
      using assms g by (auto simp: scan_unicode_def split: list.split_asm if_split_asm option.split_asm)
    moreover then have "65536 \<le> cp1 * 1024 + cp2 - 56613888" "cp1 * 1024 + cp2 - 56613888 < 1114112" using True by linarith+
    ultimately show ?thesis by (auto intro!: utf8_utf8_bytes)
  next
    case False
    then have "bs = utf8_bytes cp1" "\<not> (55296 \<le> cp1 \<and> cp1 \<le> 57343)" using assms g by (auto simp: scan_unicode_def split: if_split_asm)
    then show ?thesis using get_codepoint_less [OF g] by (auto intro!: utf8_utf8_bytes)
  qed
qed

lemma scan_char_utf8:
  assumes "scan_char s = Str_add bs r"
  shows "utf8 bs"
proof (cases s)
  case (Cons c s1)
  have one: "utf8 [d]" if "code d < 128" for d using that by (auto intro: utf8.intros)
  have esc: "scan_escape s1 = Inr (bs, r) \<Longrightarrow> utf8 bs"
    by (cases s1) (auto simp: one scan_unicode_utf8 split: if_split_asm)
  show ?thesis using assms Cons esc
    by (auto simp: one split: if_split_asm sum.split_asm option.split_asm intro: utf8_multi1 dest: next_byte_in)
qed (use assms in simp)

lemma scan_string_utf8: "scan_string s = Inr (t, r) \<Longrightarrow> utf8 t"
proof (induction s arbitrary: t rule: scan_string.induct)
  case (1 s)
  show ?case
  proof (cases "scan_char s")
    case (Str_add bs r1)
    then obtain t' where "scan_string r1 = Inr (t', r)" "t = bs @ t'"
      using "1.prems" by (subst (asm) scan_string.simps) (auto simp: map_sum_def split: sum.split_asm)
    then show ?thesis using "1.IH" [OF Str_add] scan_char_utf8 [OF Str_add] utf8_append by blast
  qed (use "1.prems" in \<open>auto simp: scan_string.simps [of s] intro: utf8.empty\<close>)
qed

end
