(* ===== verification/Json_Numbers.thy ===== *)
theory Json_Numbers
  imports Json_Text
begin

text \<open>
  Numbers in JSON text: the serializer's integers, written two digits at a time from the end of a buffer, are the decimal
  numerals, and the lexer reads integers and floating-point numbers back as they were written.
\<close>

section \<open>Decimal numerals\<close>

fun numeral_text :: "nat \<Rightarrow> string" where
  "numeral_text n = (if n < 10 then [digit_char n] else numeral_text (n div 10) @ [digit_char (n mod 10)])"

declare numeral_text.simps [simp del]

lemma decimal_small: "n < 10 \<Longrightarrow> numeral_text n = [digit_char n]"
  by (simp add: numeral_text.simps)

lemma decimal_step: "10 \<le> n \<Longrightarrow> numeral_text n = numeral_text (n div 10) @ [digit_char (n mod 10)]"
  by (subst numeral_text.simps) simp

lemma decimal_step2: "100 \<le> n \<Longrightarrow> numeral_text n = numeral_text (n div 100) @ [digit_char (n div 10 mod 10), digit_char (n mod 10)]"
  using decimal_step [of n] decimal_step [of "n div 10"] by (simp flip: div_mult2_eq)

lemma char_48: "char_of (48 :: nat) = CHR ''0''"
  using char_of_char [of "CHR ''0''", where 'a = nat] by simp

lemma digit_char_simps [simp]:
  assumes "d < 10"
  shows "is_digit (digit_char d)" "digit_val (digit_char d) = d" "digit_char d = CHR ''0'' \<longleftrightarrow> d = 0"
proof -
  have c: "of_char (digit_char d) = 48 + d" using assms by (simp add: digit_char_def)
  then show "is_digit (digit_char d)" "digit_val (digit_char d) = d" using assms by (simp_all add: is_digit_def digit_val_def)
  show "digit_char d = CHR ''0'' \<longleftrightarrow> d = 0" 
  proof -
    have "digit_char d = CHR ''0'' \<longleftrightarrow> of_char (digit_char d) = (of_char (CHR ''0'') :: nat)" by (simp only: of_char_eq_iff)
    then show ?thesis unfolding c by simp
  qed
qed

lemma numeral_text_digits: "list_all is_digit (numeral_text n) \<and> numeral_text n \<noteq> []"
proof (induction n rule: numeral_text.induct)
  case (1 n)
  then show ?case by (cases "n < 10") (simp_all add: decimal_small decimal_step [of n])
qed

lemma read_digits_append: "read_digits (xs @ ys) = read_digits xs * 10 ^ length ys + read_digits ys"
proof -
  have H: "foldl (\<lambda>a d. 10 * a + digit_val d) a ys = a * 10 ^ length ys + read_digits ys" for a ys
  proof (induction ys arbitrary: a)
    case (Cons y ys)
    show ?case using Cons [of "10 * a + digit_val y"] Cons [of "digit_val y"] by (simp add: read_digits_def algebra_simps)
  qed (simp add: read_digits_def)
  have "read_digits (xs @ ys) = foldl (\<lambda>a d. 10 * a + digit_val d) (read_digits xs) ys" by (simp add: read_digits_def)
  then show ?thesis using H [of "read_digits xs" ys] by (rule trans)
qed

lemma read_digits_decimal: "read_digits (numeral_text n) = n"
proof (induction n rule: numeral_text.induct)
  case (1 n)
  have one: "read_digits [digit_char d] = d" if "d < 10" for d using that by (simp add: read_digits_def)
  show ?case
  proof (cases "n < 10")
    case False
    then show ?thesis using 1 one [of "n mod 10"] by (simp add: decimal_step read_digits_append)
  qed (simp add: decimal_small one)
qed

lemma decimal_first:
  assumes "0 < n"
  shows "\<exists>c ds. numeral_text n = c # ds \<and> is_19 c \<and> list_all is_digit ds"
  using assms
proof (induction n rule: numeral_text.induct)
  case (1 n)
  show ?case
  proof (cases "n < 10")
    case False
    then obtain c ds where "numeral_text (n div 10) = c # ds" "is_19 c" "list_all is_digit ds" using 1 by (auto simp: div_greater_zero_iff)
    then show ?thesis using False by (simp add: decimal_step)
  qed (use "1.prems" in \<open>simp add: decimal_small is_19_def\<close>)
qed

lemma decimal_length: "n < 10 ^ Suc k \<Longrightarrow> length (numeral_text n) \<le> Suc k"
proof (induction k arbitrary: n)
  case (Suc k)
  show ?case
  proof (cases "n < 10")
    case False
    have "n div 10 < 10 ^ Suc k" using Suc.prems by (simp add: div_less_iff_less_mult mult.commute)
    then show ?thesis using Suc.IH [of "n div 10"] False by (simp add: decimal_step)
  qed (simp add: decimal_small)
qed (simp add: decimal_small)

section \<open>Integers\<close>

lemma count_digits_length: "count_digits n = length (numeral_text n)"
proof (induction n rule: count_digits.induct)
  case (1 n)
  have up: "length (numeral_text m) = Suc (length (numeral_text (m div 10)))" if "10 \<le> m" for m using decimal_step [OF that] by simp
  have small: "length (numeral_text m) = 1" if "m < 10" for m using decimal_small [OF that] by simp
  consider "n < 10" | "10 \<le> n" "n < 100" | "100 \<le> n" "n < 1000" | "1000 \<le> n" "n < 10000" | "10000 \<le> n" by linarith
  then show ?case
  proof cases
    case 5
    have "length (numeral_text n) = length (numeral_text (n div 10000)) + 4"
      using up [of n] up [of "n div 10"] up [of "n div 100"] up [of "n div 1000"] 5 by (simp flip: div_mult2_eq)
    then show ?thesis using 5 1 by (subst count_digits.simps) simp
  qed (simp_all add: count_digits.simps [of n] small up flip: div_mult2_eq)
qed

text \<open>Writing two characters from the end of the buffer.\<close>

lemma list_update_two:
  assumes "2 \<le> pos" "pos \<le> length buf"
  shows "buf[pos - 1 := b, pos - 2 := a] = take (pos - 2) buf @ [a, b] @ drop pos buf"
proof (rule nth_equalityI)
  show "length (buf[pos - 1 := b, pos - 2 := a]) = length (take (pos - 2) buf @ [a, b] @ drop pos buf)" using assms by simp
  fix i
  assume "i < length (buf[pos - 1 := b, pos - 2 := a])"
  then show "buf[pos - 1 := b, pos - 2 := a] ! i = (take (pos - 2) buf @ [a, b] @ drop pos buf) ! i"
    using assms by (auto simp: nth_append nth_list_update nth_Cons' min_def)
qed

lemma fill_digits_eq:
  assumes "length (numeral_text v) \<le> pos" "pos \<le> length buf"
  shows "fill_digits v pos buf = take (pos - length (numeral_text v)) buf @ numeral_text v @ drop pos buf"
  using assms
proof (induction v pos buf rule: fill_digits.induct)
  case (1 v pos buf)
  consider "v < 10" | "10 \<le> v" "v < 100" | "100 \<le> v" by linarith
  then show ?case
  proof cases
    case 1
    then show ?thesis using "1.prems" by (simp add: fill_digits.simps decimal_small upd_conv_take_nth_drop Suc_diff_le)
  next
    case 2
    then have "numeral_text v = [digit_char (v div 10), digit_char (v mod 10)]" by (simp add: decimal_step decimal_small div_less_iff_less_mult)
    then show ?thesis using 2 "1.prems" list_update_two [of pos buf] by (simp add: fill_digits.simps numeral_2_eq_2)
  next
    case 3
    let ?buf = "buf[pos - 1 := digit_char (v mod 10), pos - 2 := digit_char (v div 10 mod 10)]"
    note d = decimal_step2 [OF 3]
    have "fill_digits v pos buf = fill_digits (v div 100) (pos - 2) ?buf" using 3 by (subst fill_digits.simps) simp
    also have "\<dots> = take (pos - 2 - length (numeral_text (v div 100))) ?buf @ numeral_text (v div 100) @ drop (pos - 2) ?buf"
      using "1.IH" [OF 3] "1.prems" d by simp
    also have "\<dots> = take (pos - length (numeral_text v)) buf @ numeral_text v @ drop pos buf"
    proof -
      have two: "2 \<le> pos" using "1.prems"(1) d by simp
      have "take (pos - 2 - k) ?buf = take (pos - 2 - k) buf" for k
        unfolding list_update_two [OF two "1.prems"(2)] using two "1.prems"(2) by simp
      moreover have "drop (pos - 2) ?buf = [digit_char (v div 10 mod 10), digit_char (v mod 10)] @ drop pos buf"
        unfolding list_update_two [OF two "1.prems"(2)] using two "1.prems"(2) by simp
      moreover have "pos - 2 - length (numeral_text (v div 100)) = pos - length (numeral_text v)" using d by simp
      ultimately show ?thesis using d by (metis append.assoc)
    qed
    finally show ?thesis .
  qed
qed

lemma dump_integer_digits:
  assumes "- (2 ^ 63) \<le> x" "x < 2 ^ 64"
  shows "dump_integer x = (if x < 0 then ''-'' else []) @ numeral_text (nat \<bar>x\<bar>)"
proof (cases "x = 0")
  case True
  then show ?thesis by (simp add: dump_integer_def decimal_small digit_char_def char_48)
next
  case False
  define v where "v = nat \<bar>x\<bar>"
  have v: "(if x < 0 then nat (- (x + 1)) + 1 else nat x) = v" using False by (auto simp: v_def)
  have "v < 10 ^ Suc 19" using assms by (auto simp: v_def nat_less_iff abs_if)
  then have len: "length (numeral_text v) \<le> 20" using decimal_length [of v 19] by simp
  let ?buf = "replicate 64 (char_of (0 :: nat))"
  show ?thesis
  proof (cases "x < 0")
    case True
    have "take (1 + length (numeral_text v)) (fill_digits v (1 + length (numeral_text v)) (?buf[0 := CHR ''-''])) = ''-'' @ numeral_text v"
      using len by (subst fill_digits_eq) (simp_all add: take_Cons' numeral_eq_Suc)
    then show ?thesis using True False v by (simp add: dump_integer_def Let_def count_digits_length v_def)
  next
    case pos: False
    have "take (length (numeral_text v)) (fill_digits v (length (numeral_text v)) ?buf) = numeral_text v"
      using len by (subst fill_digits_eq) simp_all
    then show ?thesis using pos False v by (simp add: dump_integer_def Let_def count_digits_length v_def)
  qed
qed

section \<open>Scanning\<close>

text \<open>What may follow a number in the text.\<close>

fun num_end :: "string \<Rightarrow> bool" where
  "num_end [] = True"
| "num_end (c # _) = (\<not> is_digit c \<and> c \<noteq> CHR ''.'' \<and> c \<noteq> CHR ''e'' \<and> c \<noteq> CHR ''E'')"

abbreviation prepend :: "string \<Rightarrow> (string \<times> num_type) scanned \<Rightarrow> (string \<times> num_type) scanned" where
  "prepend ds \<equiv> map_sum id (\<lambda>((b, ty), r). ((ds @ b, ty), r))"

lemma scan_digits_run:
  "list_all is_digit ds \<Longrightarrow> st = N_any1 \<or> st = N_decimal2 \<or> st = N_any2 \<Longrightarrow>
     scan_digits st ty (ds @ r) = prepend ds (scan_digits st ty r)"
proof (induction ds)
  case (Cons d ds)
  then show ?case by (cases "scan_digits st ty r") auto
qed (cases "scan_digits st ty r"; auto)

lemma scan_digits_end:
  "num_end r \<Longrightarrow> st = N_zero \<or> st = N_any1 \<or> st = N_decimal2 \<or> st = N_any2 \<Longrightarrow> scan_digits st ty r = Inr (([], ty), r)"
  by (cases r) auto

lemma not_sign_digit: "is_digit c \<Longrightarrow> c \<noteq> CHR ''-'' \<and> c \<noteq> CHR ''+'' \<and> c \<noteq> CHR ''.'' \<and> c \<noteq> CHR ''e'' \<and> c \<noteq> CHR ''E''"
  by (auto simp: is_digit_def)

text \<open>An integer part: zero, or a numeral without leading zeros.\<close>

definition int_part :: "string \<Rightarrow> bool" where
  "int_part ds \<longleftrightarrow> ds = ''0'' \<or> (\<exists>c cs. ds = c # cs \<and> is_19 c \<and> list_all is_digit cs)"

lemma int_part_decimal: "int_part (numeral_text n)"
  using decimal_first [of n] by (cases "n = 0") (auto simp: int_part_def decimal_small digit_char_def char_48)

lemma int_part_digits: "int_part ds \<Longrightarrow> list_all is_digit ds \<and> ds \<noteq> []"
  by (auto simp: int_part_def is_19_def is_digit_def)

text \<open>The state behind the first character of an integer part.\<close>

definition first_state :: "char \<Rightarrow> num_state" where
  "first_state c = (if c = CHR ''0'' then N_zero else N_any1)"

lemma scan_int_part:
  assumes "int_part (c # cs)"
  shows "scan_digits (first_state c) ty (cs @ r) = prepend cs (scan_digits (first_state c) ty r)"
proof (cases "c = CHR ''0''")
  case True
  then have "cs = []" using assms by (auto simp: int_part_def is_19_def)
  then show ?thesis by (cases "scan_digits (first_state c) ty r") auto
next
  case False
  then show ?thesis using assms scan_digits_run [of cs N_any1 ty r] by (auto simp: int_part_def first_state_def)
qed

lemma scan_integer:
  assumes "- (2 ^ 63) \<le> x" "x < 2 ^ 64" "num_end r"
  shows "\<exists>c cs. dump_integer x = c # cs \<and> (c = CHR ''-'' \<or> is_digit c) \<and>
    scan_number c (cs @ r) = (if x < 0 then Value_integer x else Value_unsigned (nat x), r)"
proof -
  obtain d ds where d: "numeral_text (nat \<bar>x\<bar>) = d # ds" using numeral_text_digits [of "nat \<bar>x\<bar>"] by (cases "numeral_text (nat \<bar>x\<bar>)") auto
  have i: "int_part (d # ds)" using int_part_decimal [of "nat \<bar>x\<bar>"] d by simp
  have dd: "is_digit d" using int_part_digits [OF i] by simp
  have v: "read_digits (d # ds) = nat \<bar>x\<bar>" using read_digits_decimal [of "nat \<bar>x\<bar>"] d by simp
  have sc: "scan_digits (first_state d) ty (ds @ r) = Inr ((ds, ty), r)" for ty
    unfolding scan_int_part [OF i] using scan_digits_end [OF assms(3)] by (simp add: first_state_def)
  show ?thesis
  proof (cases "x < 0")
    case True
    have "num_next N_minus d = Some (first_state d)" using i by (auto simp: int_part_def first_state_def is_19_def)
    moreover have "num_enter (first_state d) N_integer = N_integer" by (simp add: first_state_def)
    ultimately have "scan_number (CHR ''-'') ((d # ds) @ r) = (convert_number N_integer (CHR ''-'' # d # ds), r)"
      using sc by (simp add: scan_number_def Let_def)
    moreover have "nat \<bar>x\<bar> \<le> 2 ^ 63" "- int (nat \<bar>x\<bar>) = x" using assms(1) True by auto
    ultimately show ?thesis using dump_integer_digits [OF assms(1,2)] True d v by (simp add: convert_number_def)
  next
    case False
    have "scan_number d (ds @ r) = (convert_number N_unsigned (d # ds), r)"
      using sc not_sign_digit [OF dd] by (simp add: scan_number_def Let_def first_state_def)
    moreover have "nat \<bar>x\<bar> < 2 ^ 64" using assms(2) False by (simp add: nat_less_iff)
    ultimately show ?thesis using dump_integer_digits [OF assms(1,2)] False d v dd by (simp add: convert_number_def)
  qed
qed

section \<open>Floating-point numbers\<close>

text \<open>An integer part, digits behind the point, and an exponent, of which one of the last two may be missing.\<close>

definition float_text :: "string \<Rightarrow> string \<Rightarrow> string \<Rightarrow> string" where
  "float_text ds fr ex = ds @ (if fr = [] then [] else CHR ''.'' # fr) @ ex"

definition exp_text :: "string \<Rightarrow> int \<Rightarrow> bool" where
  "exp_text ex e \<longleftrightarrow> ex = [] \<and> e = 0 \<or> ex = CHR ''e'' # append_exponent e \<and> \<bar>e\<bar> < 1000"

lemma append_exponent_shape:
  assumes "\<bar>e\<bar> < 1000"
  shows "\<exists>ds. append_exponent e = (if e < 0 then CHR ''-'' else CHR ''+'') # ds \<and> list_all is_digit ds \<and> ds \<noteq> [] \<and>
    read_digits ds = nat \<bar>e\<bar>"
proof -
  define k where "k = nat \<bar>e\<bar>"
  have k: "k < 1000" using assms by (auto simp: k_def)
  have zero: "is_digit (CHR ''0'')" "digit_val (CHR ''0'') = 0" by (simp_all add: is_digit_def digit_val_def)
  have "k div 100 < 10" "k mod 100 div 10 < 10" "k < 100 \<Longrightarrow> k div 10 < 10" using k by (auto simp: div_less_iff_less_mult)
  moreover have "100 * (k div 100) + (10 * (k mod 100 div 10) + k mod 100 mod 10) = k" by simp
  ultimately show ?thesis using zero
    by (auto simp: append_exponent_def Let_def read_digits_def simp flip: k_def)
qed

lemma scan_exponent:
  assumes "exp_text ex e" "ex \<noteq> []" "num_end r" "st = N_zero \<or> st = N_any1 \<or> st = N_decimal2"
  shows "scan_digits st ty (ex @ r) = Inr ((ex, N_float), r)"
proof -
  obtain ds where ds: "append_exponent e = (if e < 0 then CHR ''-'' else CHR ''+'') # ds" "list_all is_digit ds" "ds \<noteq> []"
    using append_exponent_shape assms(1,2) by (auto simp: exp_text_def)
  then obtain d ds' where d: "ds = d # ds'" "is_digit d" "list_all is_digit ds'" by (cases ds) auto
  have "num_next st (CHR ''e'') = Some N_exponent" using assms(4) by (auto simp: is_digit_def)
  moreover have "scan_digits N_any2 N_float (ds' @ r) = Inr ((ds', N_float), r)"
    using scan_digits_run [OF d(3), of N_any2] scan_digits_end [OF assms(3), of N_any2] by simp
  ultimately show ?thesis using assms(1,2) ds(1) d(1,2) by (auto simp: exp_text_def)
qed

lemma scan_float:
  assumes "int_part (c # cs)" "list_all is_digit fr" "exp_text ex e" "fr \<noteq> [] \<or> ex \<noteq> []" "num_end r"
  shows "scan_digits (first_state c) ty (tl (float_text (c # cs) fr ex) @ r) = Inr ((tl (float_text (c # cs) fr ex), N_float), r)"
proof (cases "fr = []")
  case True
  then have "scan_digits (first_state c) ty (ex @ r) = Inr ((ex, N_float), r)"
    using scan_exponent [OF assms(3) _ assms(5)] assms(4) by (simp add: first_state_def)
  then show ?thesis using True by (simp add: float_text_def scan_int_part [OF assms(1)])
next
  case False
  then obtain f fs where f: "fr = f # fs" "is_digit f" "list_all is_digit fs" using assms(2) by (cases fr) auto
  have "scan_digits N_decimal2 N_float (ex @ r) = Inr ((ex, N_float), r)"
  proof (cases "ex = []")
    case True
    then show ?thesis using scan_digits_end [OF assms(5), of N_decimal2] by simp
  next
    case False
    then show ?thesis using scan_exponent [OF assms(3) _ assms(5), of N_decimal2] by simp
  qed
  then have "scan_digits N_decimal2 N_float (fs @ ex @ r) = Inr ((fs @ ex, N_float), r)"
    using scan_digits_run [OF f(3), of N_decimal2] by simp
  moreover have "num_next (first_state c) (CHR ''.'') = Some N_decimal1" by (simp add: first_state_def is_digit_def)
  ultimately have "scan_digits (first_state c) ty ((CHR ''.'' # f # fs @ ex) @ r) = Inr ((CHR ''.'' # f # fs @ ex, N_float), r)"
    using f(2) by simp
  then show ?thesis using f(1) scan_int_part [OF assms(1), of ty "(CHR ''.'' # f # fs @ ex) @ r"] by (simp add: float_text_def)
qed

lemma takeWhile_digits: "list_all is_digit ds \<Longrightarrow> \<not> is_digit c \<Longrightarrow> takeWhile is_digit (ds @ c # r) = ds \<and> dropWhile is_digit (ds @ c # r) = c # r"
  by (induction ds) auto

lemma takeWhile_all_digits: "list_all is_digit ds \<Longrightarrow> takeWhile is_digit ds = ds \<and> dropWhile is_digit ds = []"
  by (induction ds) auto

lemma exp_text_split:
  assumes "exp_text ex e" "list_all is_digit ds"
  shows "takeWhile is_digit (ds @ ex) = ds" "dropWhile is_digit (ds @ ex) = ex"
  using assms takeWhile_digits [of ds "CHR ''e''"] takeWhile_all_digits [of ds] by (auto simp: exp_text_def is_digit_def)

lemma read_exponent_text:
  assumes "exp_text ex e"
  shows "read_exponent (CHR ''e'') ex = e"
proof (cases "ex = []")
  case True
  then show ?thesis using assms by (auto simp: exp_text_def read_exponent_def)
next
  case False
  then obtain ds where ds: "ex = CHR ''e'' # (if e < 0 then CHR ''-'' else CHR ''+'') # ds" "list_all is_digit ds"
    "read_digits ds = nat \<bar>e\<bar>"
    using append_exponent_shape assms by (auto simp: exp_text_def)
  have tw: "takeWhile is_digit ds = ds" using takeWhile_all_digits ds(2) by blast
  show ?thesis unfolding ds(1) using ds(3) by (simp add: read_exponent_def char_tolower_def tw del: takeWhile_eq_all_conv)
qed

lemma read_mantissa_float:
  assumes "list_all is_digit ds" "ds \<noteq> []" "list_all is_digit fr" "exp_text ex e"
  shows "read_mantissa is_digit (float_text ds fr ex) = (ds @ fr, length fr, ex)"
proof (cases "fr = []")
  case True
  have "ex \<noteq> [] \<Longrightarrow> \<exists>r. ex = CHR ''e'' # r" using assms(4) by (auto simp: exp_text_def)
  then show ?thesis using True exp_text_split [OF assms(4,1)]
    by (auto simp: read_mantissa_def float_text_def Let_def split: list.split)
next
  case False
  have "\<not> is_digit (CHR ''.'')" by (simp add: is_digit_def)
  then show ?thesis using False takeWhile_digits [OF assms(1)] assms(2) exp_text_split [OF assms(4,3)]
    by (simp add: read_mantissa_def float_text_def Let_def)
qed

lemma digit_not_special:
  assumes "is_digit d"
  shows "\<not> is_space d" "d \<noteq> CHR ''-''" "d \<noteq> CHR ''+''" "char_tolower d = d" "d \<noteq> CHR ''i''" "d \<noteq> CHR ''n''" "d \<noteq> CHR ''x''"
  using assms by (auto simp: is_digit_def is_space_def char_tolower_def Let_def)

lemma strtod_float:
  assumes "int_part ds" "list_all is_digit fr" "exp_text ex e"
  shows "strtod ((if neg then ''-'' else []) @ float_text ds fr ex) =
    Some (Fin ((if neg then - 1 else 1) * (real (read_digits (ds @ fr)) * 10 powi (e - int (length fr)))))"
proof -
  obtain d ds' where d: "ds = d # ds'" "is_digit d" "list_all is_digit ds'" "d = CHR ''0'' \<Longrightarrow> ds' = []"
    using assms(1) by (cases ds) (auto simp: int_part_def is_19_def is_digit_def)
  define body where "body = float_text ds fr ex"
  have body: "body = d # ds' @ (if fr = [] then [] else CHR ''.'' # fr) @ ex" by (simp add: body_def float_text_def d(1))
  have sgn: "read_sign (dropWhile is_space ((if neg then ''-'' else []) @ body)) = (neg, body)"
    using digit_not_special [OF d(2)] by (auto simp: body is_space_def)
  have "take 2 (str_tolower body) \<noteq> ''0x''"
  proof
    assume *: "take 2 (str_tolower body) = ''0x''"
    then have "d = CHR ''0''" using digit_not_special(4) [OF d(2)] by (simp add: body str_tolower_def)
    then have "take 1 (map char_tolower ((if fr = [] then [] else CHR ''.'' # fr) @ ex)) = ''x''"
      using * d(4) by (simp add: body str_tolower_def numeral_2_eq_2)
    then show False using assms(3) by (cases "fr = []") (auto simp: exp_text_def char_tolower_def)
  qed
  moreover have "take 3 (str_tolower body) \<noteq> ''inf''" "take 3 (str_tolower body) \<noteq> ''nan''"
    using digit_not_special [OF d(2)] by (auto simp: body str_tolower_def)
  moreover have "read_mantissa is_digit body = (ds @ fr, length fr, ex)" "read_exponent (CHR ''e'') ex = e"
    using read_mantissa_float [of ds fr ex e] read_exponent_text [OF assms(3)] assms d by (auto simp: body_def)
  ultimately show ?thesis unfolding strtod_def body_def [symmetric] sgn using d(1) by simp
qed

text \<open>What the digits of a positive number have to be for its text to have exactly its value: a first digit that is not
  zero, and a power of ten that the three digits of an exponent can hold.\<close>

definition exact_digits :: "string \<times> int \<Rightarrow> real \<Rightarrow> bool" where
  "exact_digits p x =
     (case p of (buf, e) \<Rightarrow>
        buf \<noteq> [] \<and> is_19 (hd buf) \<and> list_all is_digit buf \<and> \<bar>int (length buf) + e - 1\<bar> < 1000 \<and>
        real (read_digits buf) * 10 powi e = x)"

lemma read_digits_zeros: "read_digits (replicate n (CHR ''0'')) = 0"
  by (induction n) (simp_all add: read_digits_def digit_val_def)

lemma zeros_digits: "list_all is_digit (replicate n (CHR ''0''))"
  by (simp add: list_all_length is_digit_def)

text \<open>The four layouts of \<open>format_buffer\<close>.\<close>

lemma format_buffer_float:
  assumes "exact_digits (buf, e) x"
  obtains ds fr ex e' where "format_buffer buf e (- 4) 15 = float_text ds fr ex" "int_part ds" "list_all is_digit fr"
    "exp_text ex e'" "fr \<noteq> [] \<or> ex \<noteq> []" "real (read_digits (ds @ fr)) * 10 powi (e' - int (length fr)) = x"
proof -
  define k where "k = int (length buf)"
  define n where "n = k + e"
  have buf: "buf \<noteq> []" "is_19 (hd buf)" "list_all is_digit buf" "real (read_digits buf) * 10 powi e = x" "\<bar>n - 1\<bar> < 1000"
    using assms by (auto simp: exact_digits_def n_def k_def)
  then obtain b bs where b: "buf = b # bs" "is_19 b" "list_all is_digit bs" by (cases buf) auto
  have k: "0 < k" using buf(1) by (simp add: k_def)
  have fb: "format_buffer buf e (- 4) 15 =
     (if k \<le> n \<and> n \<le> 15 then buf @ replicate (nat (n - k)) (CHR ''0'') @ ''.0''
      else if 0 < n \<and> n \<le> 15 then take (nat n) buf @ ''.'' @ drop (nat n) buf
      else if - 4 < n \<and> n \<le> 0 then ''0.'' @ replicate (nat (- n)) (CHR ''0'') @ buf
      else (if k = 1 then buf else take 1 buf @ ''.'' @ drop 1 buf) @ ''e'' @ append_exponent (n - 1))"
    by (simp add: format_buffer_def Let_def k_def n_def)
  have digits: "list_all is_digit (take m buf)" "list_all is_digit (drop m buf)" for m
    using buf(3) by (auto simp: list_all_iff dest: in_set_takeD in_set_dropD)
  have zero: "is_digit (CHR ''0'')" "digit_val (CHR ''0'') = 0" by (simp_all add: is_digit_def digit_val_def)
  consider (a) "k \<le> n" "n \<le> 15" | (b) "0 < n" "n < k" "n \<le> 15" | (c) "- 4 < n" "n \<le> 0" | (d) "n \<le> - 4 \<or> 15 < n" by linarith
  then show thesis
  proof cases
    case a
    have "real (read_digits ((buf @ replicate (nat (n - k)) (CHR ''0'')) @ ''0'')) * 10 powi (0 - 1) = x"
    proof -
      have "real (read_digits ((buf @ replicate (nat (n - k)) (CHR ''0'')) @ ''0'')) = real (read_digits buf) * 10 powi (e + 1)"
        using a(1) zero by (simp add: read_digits_append read_digits_zeros n_def power_int_def nat_add_distrib)
          (simp add: read_digits_def)
      then show ?thesis using buf(4) by (simp add: power_int_add power_int_minus)
    qed
    then show thesis
      using that [of "buf @ replicate (nat (n - k)) (CHR ''0'')" "''0''" "[]" 0] a b zero zeros_digits fb
      by (simp add: float_text_def exp_text_def int_part_def)
  next
    case b2: b
    have "int_part (take (nat n) buf)" using b b2(1) digits(1) [of "nat n"] by (cases "nat n") (auto simp: int_part_def)
    moreover have "0 - int (length (drop (nat n) buf)) = e" using b2 by (simp add: n_def k_def)
    ultimately show thesis
      using that [of "take (nat n) buf" "drop (nat n) buf" "[]" 0] b2 fb buf(4) digits by (simp add: float_text_def exp_text_def k_def)
  next
    case c
    have "read_digits (''0'' @ replicate (nat (- n)) (CHR ''0'') @ buf) = read_digits buf"
      unfolding append_assoc [symmetric] read_digits_append [of _ buf] using read_digits_zeros [of "Suc (nat (- n))"] by simp
    moreover have "0 - int (length (replicate (nat (- n)) (CHR ''0'') @ buf)) = e" using c by (simp add: n_def k_def)
    ultimately show thesis
      using that [of "''0''" "replicate (nat (- n)) (CHR ''0'') @ buf" "[]" 0] c fb buf k zeros_digits
      by (simp add: float_text_def exp_text_def int_part_def)
  next
    case d
    have "n - 1 - int (length bs) = e" using b by (simp add: n_def k_def)
    moreover have "format_buffer buf e (- 4) 15 = float_text [b] bs (CHR ''e'' # append_exponent (n - 1))"
      unfolding fb using d k b(1) by (auto simp: float_text_def k_def)
    moreover have "exp_text (CHR ''e'' # append_exponent (n - 1)) (n - 1)" using buf(5) by (simp add: exp_text_def)
    ultimately show thesis using that [of "[b]" bs "CHR ''e'' # append_exponent (n - 1)" "n - 1"] b buf(4) by (simp add: int_part_def)
  qed
qed

lemma strtof_finite: "\<bar>x\<bar> < 2 powi 1024 \<Longrightarrow> strtod buf = Some (Fin x) \<Longrightarrow> strtof buf = Fin x"
  by (auto simp: strtof_def abs_less_iff)

lemma scan_number_float:
  assumes "int_part ds" "list_all is_digit fr" "exp_text ex e" "fr \<noteq> [] \<or> ex \<noteq> []" "num_end r"
    "x = (if neg then - 1 else 1) * (real (read_digits (ds @ fr)) * 10 powi (e - int (length fr)))" "\<bar>x\<bar> < 2 powi 1024"
  shows "\<exists>c t. (if neg then ''-'' else []) @ float_text ds fr ex = c # t \<and> (c = CHR ''-'' \<or> is_digit c) \<and>
    scan_number c (t @ r) = (Value_float (Fin x), r)"
proof -
  obtain d ds' where d: "ds = d # ds'" "is_digit d" using int_part_digits [OF assms(1)] by (cases ds) auto
  define t where "t = tl (float_text ds fr ex)"
  have t: "float_text ds fr ex = d # t" by (simp add: t_def float_text_def d(1))
  have sd: "scan_digits (first_state d) ty (t @ r) = Inr ((t, N_float), r)" for ty
    unfolding t_def d(1) using scan_float [OF assms(1) [unfolded d(1)] assms(2-5)] .
  have "strtof ((if neg then ''-'' else []) @ d # t) = Fin x"
    using strtof_finite [OF assms(7)] strtod_float [OF assms(1-3), of neg] assms(6) t by simp
  moreover have "num_next N_minus d = Some (first_state d)"
    using d(2) by (auto simp: first_state_def is_19_def)
  ultimately show ?thesis
    using sd not_sign_digit [OF d(2)] d(2) t
    by (cases neg) (auto simp: scan_number_def Let_def convert_number_def first_state_def)
qed

lemma scan_to_chars:
  assumes "x = 0 \<or> exact_digits (g \<bar>x\<bar>) \<bar>x\<bar>" "\<bar>x\<bar> < 2 powi 1024" "num_end r"
  shows "\<exists>c t. to_chars g x = c # t \<and> (c = CHR ''-'' \<or> is_digit c) \<and> scan_number c (t @ r) = (Value_float (Fin x), r)"
proof (cases "x = 0")
  case True
  have "int_part ''0''" "list_all is_digit ''0''" "exp_text [] 0" by (simp_all add: int_part_def is_digit_def exp_text_def)
  moreover have "read_digits ''00'' = 0" by (simp add: read_digits_def digit_val_def)
  moreover have "float_text ''0'' ''0'' [] = ''0.0''" by (simp add: float_text_def)
  ultimately show ?thesis using scan_number_float [of "''0''" "''0''" "[]" 0 r x False] True assms by (simp add: to_chars_def)
next
  case False
  obtain buf e where g: "g \<bar>x\<bar> = (buf, e)" by fastforce
  then have "exact_digits (buf, e) \<bar>x\<bar>" using assms(1) False by simp
  then obtain ds fr ex e' where f: "format_buffer buf e (- 4) 15 = float_text ds fr ex" "int_part ds" "list_all is_digit fr"
    "exp_text ex e'" "fr \<noteq> [] \<or> ex \<noteq> []" "real (read_digits (ds @ fr)) * 10 powi (e' - int (length fr)) = \<bar>x\<bar>"
    by (rule format_buffer_float)
  have "to_chars g x = (if x < 0 then ''-'' else []) @ float_text ds fr ex" using False g f(1) by (simp add: to_chars_def)
  then show ?thesis using scan_number_float [OF f(2-5) assms(3), of x "x < 0"] f(6) assms(2) by simp
qed

end
