(* ===== verification/Json_Roundtrip.thy ===== *)
theory Json_Roundtrip
  imports Json_Utf8 Json_Numbers
begin

text \<open>
  JSON text and values: the text the serializer writes for a value, on one line or indented, is read back by the parser
  as that value; what the parser returns is a value the serializer can write; and the only values it cannot write are
  those with a string that is not UTF-8.
\<close>

section \<open>Values\<close>

fun all_utf8 :: "json \<Rightarrow> bool" where
  "all_utf8 (JStr s) = utf8 s"
| "all_utf8 (JArr vs) = list_all all_utf8 vs"
| "all_utf8 (JObj m) = list_all (\<lambda>(k, v). utf8 k \<and> all_utf8 v) m"
| "all_utf8 _ = True"

text \<open>Numbers in the range of the number types, objects in the order of \<open>std::map\<close>.\<close>

fun storable :: "json \<Rightarrow> bool" where
  "storable (JInt i) = (- (2 ^ 63) \<le> i \<and> i < 2 ^ 64)"
| "storable (JFloat x) = (\<bar>x\<bar> < 2 powi 1024)"
| "storable (JArr vs) = list_all storable vs"
| "storable (JObj m) = (om_wf m \<and> list_all (\<lambda>(k, v). storable v) m)"
| "storable _ = True"

text \<open>The digits of every floating-point number of a value are its exact decimal digits.\<close>

fun exact_floats :: "(real \<Rightarrow> string \<times> int) \<Rightarrow> json \<Rightarrow> bool" where
  "exact_floats g (JFloat x) = (x = 0 \<or> exact_digits (g \<bar>x\<bar>) \<bar>x\<bar>)"
| "exact_floats g (JArr vs) = list_all (exact_floats g) vs"
| "exact_floats g (JObj m) = list_all (\<lambda>(k, v). exact_floats g v) m"
| "exact_floats g _ = True"

section \<open>Separators\<close>

lemma join_Inr: "join sep (map Inr (t # ts)) = Inr (t @ concat (map (append sep) ts))"
  by (induction ts arbitrary: t) simp_all

lemma join_Inl: "(\<exists>t. join sep rs = Inr t) \<longleftrightarrow> (\<forall>r \<in> set rs. \<exists>t. r = Inr t)"
proof (induction sep rs rule: join.induct)
  case (3 sep r r' rs)
  then show ?case by (cases r; cases "join sep (r' # rs)") auto
qed auto

text \<open>The parts of a container: white space \<open>p\<close> before each part and \<open>q\<close> before the closing bracket.\<close>

fun items :: "string \<Rightarrow> string \<Rightarrow> string list \<Rightarrow> string" where
  "items p q [] = []"
| "items p q (t # ts) = p @ t @ concat (map (\<lambda>u. '','' @ p @ u) ts) @ q"

definition lead :: "bool \<Rightarrow> nat \<Rightarrow> string" where
  "lead pretty n = (if pretty then NL @ indentation n else [])"

lemma lead_ws: "list_all is_ws (lead pretty n)"
  by (auto simp: lead_def NL_def indentation_def is_ws_def list_all_iff)

lemma container_Inr: "container op cl pretty ni ci (map Inr ts) = Inr (op @ items (lead pretty ni) (lead pretty ci) ts @ cl)"
proof (cases ts)
  case (Cons u us)
  have "map (map_sum id (append (indentation ni))) (map Inr (u # us)) =
      map Inr ((indentation ni @ u) # map (append (indentation ni)) us)" by simp
  moreover have "append '','' = Cons (CHR '','')" by (rule ext) simp
  ultimately show ?thesis using join_Inr [of "'','' @ NL" "indentation ni @ u" "map (append (indentation ni)) us"] join_Inr [of "'',''" u us] Cons
    by (simp add: container_def lead_def comp_def)
qed (simp add: container_def)

section \<open>Tokens of a text\<close>

lemma dropWhile_ws: "list_all is_ws ws \<Longrightarrow> dropWhile is_ws (ws @ t) = dropWhile is_ws t"
  by (induction ws) simp_all

lemma scan_ws: "list_all is_ws ws \<Longrightarrow> scan (ws @ t) = scan t"
  by (simp add: scan_def dropWhile_ws)

lemma scan_marks [simp]:
  "scan (CHR ''['' # r) = (Begin_array, r)" "scan (CHR '']'' # r) = (End_array, r)" "scan (CHR ''{'' # r) = (Begin_object, r)"
  "scan (CHR ''}'' # r) = (End_object, r)" "scan (CHR '':'' # r) = (Name_separator, r)" "scan (CHR '','' # r) = (Value_separator, r)"
  "scan (CHR ''t'' # CHR ''r'' # CHR ''u'' # CHR ''e'' # r) = (Literal_true, r)"
  "scan (CHR ''f'' # CHR ''a'' # CHR ''l'' # CHR ''s'' # CHR ''e'' # r) = (Literal_false, r)"
  "scan (CHR ''n'' # CHR ''u'' # CHR ''l'' # CHR ''l'' # r) = (Literal_null, r)"
  by (simp_all add: scan_def is_ws_def scan_literal_def)

lemma scan_numeral:
  assumes "c = CHR ''-'' \<or> is_digit c"
  shows "scan (c # r) = scan_number c r"
proof -
  have "\<not> is_ws c \<and> (\<forall>d \<in> set ''[]{}:,tfn''. c \<noteq> d) \<and> code c \<noteq> 34"
    using assms by (auto simp: is_digit_def is_ws_def Let_def)
  then show ?thesis using assms by (simp add: scan_def)
qed

lemma scan_quoted:
  assumes "utf8 s" "quoted s = Inr t"
  shows "scan (t @ r) = (Value_string s, r)"
proof -
  obtain u where u: "dump_escaped s = Inr u" "scan_string (u @ quote # r) = Inr (s, r)" using dump_escaped_utf8 [OF assms(1)] by blast
  then have "t = quote # u @ [quote]" using assms(2) by (simp add: quoted_def)
  moreover have "code d \<noteq> 34 \<Longrightarrow> quote \<noteq> d" for d by auto
  then have "\<forall>d \<in> set ''[]{}:,tfn''. quote \<noteq> d" by simp
  moreover have "\<not> is_ws quote" by (simp add: is_ws_def)
  ultimately show ?thesis using u(2) by (simp add: scan_def)
qed

section \<open>Reading back\<close>

text \<open>A text stands for a value: behind white space, and before anything that does not go on with a number, its first
  token starts the value and the parser goes on behind the text with the value done.\<close>

definition reads :: "string \<Rightarrow> json \<Rightarrow> bool" where
  "reads t j \<longleftrightarrow> (\<forall>rest. num_end rest \<longrightarrow>
     (\<exists>tok r. scan (t @ rest) = (tok, r) \<and> tok \<noteq> End_array \<and> (\<forall>fs. parse_value tok r fs = value_done j rest fs)))"

lemma readsI:
  assumes "\<And>rest. num_end rest \<Longrightarrow> scan (t @ rest) = (tok, f rest)" "tok \<noteq> End_array"
    "\<And>rest fs. parse_value tok (f rest) fs = value_done j rest fs"
  shows "reads t j"
  using assms by (auto simp: reads_def)

lemma readsD:
  assumes "reads t j" "num_end rest" "list_all is_ws ws"
  obtains tok r where "scan (ws @ t @ rest) = (tok, r)" "tok \<noteq> End_array" "\<And>fs. parse_value tok r fs = value_done j rest fs"
  using assms unfolding reads_def scan_ws [OF assms(3)] by blast

lemma parse_numeral_tokens: "0 \<le> x \<Longrightarrow> parse_value (Value_unsigned (nat x)) r fs = value_done (JInt x) r fs"
  by simp

lemma reads_int:
  assumes "- (2 ^ 63) \<le> x" "x < 2 ^ 64"
  shows "reads (dump_integer x) (JInt x)"
  unfolding reads_def
proof (intro allI impI)
  fix rest assume "num_end rest"
  then obtain c cs where c: "dump_integer x = c # cs" "c = CHR ''-'' \<or> is_digit c"
    "scan_number c (cs @ rest) = (if x < 0 then Value_integer x else Value_unsigned (nat x), rest)"
    using scan_integer [OF assms] by blast
  then show "\<exists>tok r. scan (dump_integer x @ rest) = (tok, r) \<and> tok \<noteq> End_array \<and>
      (\<forall>fs. parse_value tok r fs = value_done (JInt x) rest fs)"
    using scan_numeral [OF c(2), of "cs @ rest"] by (cases "x < 0") simp_all
qed

lemma reads_float:
  assumes "x = 0 \<or> exact_digits (g \<bar>x\<bar>) \<bar>x\<bar>" "\<bar>x\<bar> < 2 powi 1024"
  shows "reads (to_chars g x) (JFloat x)"
  unfolding reads_def
proof (intro allI impI)
  fix rest assume "num_end rest"
  then obtain c cs where c: "to_chars g x = c # cs" "c = CHR ''-'' \<or> is_digit c"
    "scan_number c (cs @ rest) = (Value_float (Fin x), rest)"
    using scan_to_chars [of x g, OF assms] by blast
  then show "\<exists>tok r. scan (to_chars g x @ rest) = (tok, r) \<and> tok \<noteq> End_array \<and>
      (\<forall>fs. parse_value tok r fs = value_done (JFloat x) rest fs)"
    using scan_numeral [OF c(2), of "cs @ rest"] by simp
qed

lemma reads_string: "utf8 s \<Longrightarrow> quoted s = Inr t \<Longrightarrow> reads t (JStr s)"
  using scan_quoted by (intro readsI [where tok = "Value_string s" and f = id]) simp_all

lemma num_end_ws: "list_all is_ws ws \<Longrightarrow> ws \<noteq> [] \<or> num_end t \<Longrightarrow> num_end (ws @ t)"
  by (cases ws) (auto simp: is_ws_def is_digit_def Let_def)

text \<open>The elements of an array, behind a first one that is parsed already.\<close>

lemma array_loop:
  assumes "list_all2 reads ts vs" "list_all is_ws p" "list_all is_ws q"
  shows "value_done v (concat (map (\<lambda>u. '','' @ p @ u) ts) @ q @ CHR '']'' # rest) (In_array acc # fs) =
    value_done (JArr (acc @ v # vs)) rest fs"
  using assms(1)
proof (induction ts vs arbitrary: v acc rule: list_all2_induct)
  case Nil
  then show ?case using scan_ws [OF assms(3), of "CHR '']'' # rest"] by simp
next
  case (Cons t ts w vs)
  let ?rest = "concat (map (\<lambda>u. '','' @ p @ u) ts) @ q @ CHR '']'' # rest"
  have "num_end ?rest" by (cases ts) (simp_all add: num_end_ws [OF assms(3)] is_digit_def)
  then obtain tok r where "scan (p @ t @ ?rest) = (tok, r)" "\<And>fs. parse_value tok r fs = value_done w ?rest fs"
    using readsD [OF Cons(1) _ assms(2)] by metis
  then show ?case using Cons.IH [of w "acc @ [v]"] by simp
qed

lemma parse_first_element:
  "scan s = (tok, r) \<Longrightarrow> tok \<noteq> End_array \<Longrightarrow> parse_value Begin_array s fs = parse_value tok r (In_array [] # fs)"
  by (cases tok) simp_all

lemma reads_array:
  assumes "list_all2 reads ts vs" "list_all is_ws p" "list_all is_ws q"
  shows "reads (''['' @ items p q ts @ '']'') (JArr vs)"
proof (rule readsI [where tok = Begin_array and f = "\<lambda>rest. items p q ts @ '']'' @ rest"])
  fix rest fs
  show "parse_value Begin_array (items p q ts @ '']'' @ rest) fs = value_done (JArr vs) rest fs"
  proof (cases ts)
    case (Cons t ts')
    then obtain v vs' where v: "vs = v # vs'" "reads t v" "list_all2 reads ts' vs'" using assms(1) by (auto simp: list_all2_Cons1)
    let ?rest = "concat (map (\<lambda>u. '','' @ p @ u) ts') @ q @ CHR '']'' # rest"
    have "num_end ?rest" by (cases ts') (simp_all add: num_end_ws [OF assms(3)] is_digit_def)
    then obtain tok r where t: "scan (p @ t @ ?rest) = (tok, r)" "tok \<noteq> End_array" "\<And>fs. parse_value tok r fs = value_done v ?rest fs"
      using readsD [OF v(2) _ assms(2)] by metis
    have "items p q ts @ '']'' @ rest = p @ t @ ?rest" using Cons by simp
    then have "parse_value Begin_array (items p q ts @ '']'' @ rest) fs = value_done v ?rest (In_array [] # fs)"
      using parse_first_element [OF t(1,2)] t(3) by simp
    then show ?thesis using array_loop [OF v(3) assms(2,3), of v rest "[]" fs] v(1) by simp
  qed (use assms(1) in simp)
qed simp_all

text \<open>The members of an object; they come in the order of their keys, so each is added at the end.\<close>

definition reads_member :: "string \<Rightarrow> string \<times> json \<Rightarrow> bool" where
  "reads_member u kv \<longleftrightarrow>
     (\<exists>q sp t. u = q @ CHR '':'' # sp @ t \<and> utf8 (fst kv) \<and> quoted (fst kv) = Inr q \<and> list_all is_ws sp \<and> reads t (snd kv))"

lemma om_set_last: "om_wf (acc @ (k, v) # m) \<Longrightarrow> om_set k v acc = acc @ [(k, v)]"
  by (induction acc) (auto simp: om_wf_Cons)

lemma reads_memberD:
  assumes "reads_member u (k, v)" "num_end rest" "list_all is_ws p"
  obtains r1 r2 tok r where "scan (p @ u @ rest) = (Value_string k, r1)" "scan r1 = (Name_separator, r2)" "scan r2 = (tok, r)"
    "\<And>fs. parse_value tok r fs = value_done v rest fs"
proof -
  obtain q sp t where u: "u = q @ CHR '':'' # sp @ t" "utf8 k" "quoted k = Inr q" "list_all is_ws sp" "reads t v"
    using assms(1) by (auto simp: reads_member_def)
  obtain tok r where "scan (sp @ t @ rest) = (tok, r)" "\<And>fs. parse_value tok r fs = value_done v rest fs"
    using readsD [OF u(5) assms(2) u(4)] by blast
  moreover have "scan (p @ u @ rest) = (Value_string k, CHR '':'' # sp @ t @ rest)"
    using scan_quoted [OF u(2,3)] by (simp add: scan_ws [OF assms(3)] u(1))
  ultimately show thesis using that by simp
qed

lemma object_loop:
  assumes "list_all2 reads_member us m" "list_all is_ws p" "list_all is_ws q" "om_wf (acc @ (k, v) # m)"
  shows "value_done v (concat (map (\<lambda>u. '','' @ p @ u) us) @ q @ CHR ''}'' # rest) (In_object acc k # fs) =
    value_done (JObj (acc @ (k, v) # m)) rest fs"
  using assms(1,4)
proof (induction us m arbitrary: k v acc rule: list_all2_induct)
  case Nil
  then show ?case using scan_ws [OF assms(3), of "CHR ''}'' # rest"] om_set_last [of acc k v "[]"] by simp
next
  case (Cons u us kv m)
  obtain k' v' where kv: "kv = (k', v')" by fastforce
  let ?rest = "concat (map (\<lambda>u. '','' @ p @ u) us) @ q @ CHR ''}'' # rest"
  have "num_end ?rest" by (cases us) (simp_all add: num_end_ws [OF assms(3)] is_digit_def)
  then obtain r1 r2 tok r where "scan (p @ u @ ?rest) = (Value_string k', r1)" "scan r1 = (Name_separator, r2)" "scan r2 = (tok, r)"
    "\<And>fs. parse_value tok r fs = value_done v' ?rest fs"
    using reads_memberD [OF Cons(1) [unfolded kv] _ assms(2)] by metis
  then show ?case using Cons.IH [of "acc @ [(k, v)]" k' v'] Cons.prems om_set_last [OF Cons.prems] by (simp add: kv)
qed

lemma reads_object:
  assumes "list_all2 reads_member us m" "list_all is_ws p" "list_all is_ws q" "om_wf m"
  shows "reads (''{'' @ items p q us @ ''}'') (JObj m)"
proof (rule readsI [where tok = Begin_object and f = "\<lambda>rest. items p q us @ ''}'' @ rest"])
  fix rest fs
  show "parse_value Begin_object (items p q us @ ''}'' @ rest) fs = value_done (JObj m) rest fs"
  proof (cases us)
    case (Cons u us')
    then obtain k v m' where v: "m = (k, v) # m'" "reads_member u (k, v)" "list_all2 reads_member us' m'"
      using assms(1) by (auto simp: list_all2_Cons1)
    let ?rest = "concat (map (\<lambda>u. '','' @ p @ u) us') @ q @ CHR ''}'' # rest"
    have "num_end ?rest" by (cases us') (simp_all add: num_end_ws [OF assms(3)] is_digit_def)
    then obtain r1 r2 tok r where "scan (p @ u @ ?rest) = (Value_string k, r1)" "scan r1 = (Name_separator, r2)" "scan r2 = (tok, r)"
      "\<And>fs. parse_value tok r fs = value_done v ?rest fs"
      using reads_memberD [OF v(2) _ assms(2)] by metis
    moreover have "items p q us @ ''}'' @ rest = p @ u @ ?rest" using Cons by simp
    ultimately have "parse_value Begin_object (items p q us @ ''}'' @ rest) fs = value_done v ?rest (In_object [] k # fs)"
      by simp
    then show ?thesis using object_loop [OF v(3) assms(2,3), of "[]" k v rest fs] assms(4) v(1) by simp
  qed (use assms(1) in simp)
qed simp_all

text \<open>The serializer writes texts that stand for the value.\<close>

lemma all_Inr: "list_all2 (\<lambda>r v. \<exists>t. r = Inr t \<and> P t v) rs vs \<Longrightarrow> \<exists>ts. rs = map Inr ts \<and> list_all2 P ts vs"
proof (induction rs vs rule: list_all2_induct)
  case (Cons r rs v vs)
  then obtain t ts where "r = Inr t" "P t v" "rs = map Inr ts" "list_all2 P ts vs" by blast
  then show ?case by (intro exI [of _ "t # ts"]) simp
qed simp

lemma dump_member:
  assumes "utf8 k" "reads t v"
  shows "\<exists>u. member pretty k (Inr t) = Inr u \<and> reads_member u (k, v)"
proof -
  obtain q where q: "quoted k = Inr q" using dump_escaped_utf8 [OF assms(1)] by (auto simp: quoted_def)
  have "list_all is_ws (if pretty then '' '' else [])" by (simp add: is_ws_def)
  moreover have "member pretty k (Inr t) = Inr (q @ CHR '':'' # (if pretty then '' '' else []) @ t)"
    using q by (simp add: member_def)
  ultimately show ?thesis using assms q unfolding reads_member_def fst_conv snd_conv by blast
qed

lemma dump_json_reads:
  "all_utf8 j \<Longrightarrow> storable j \<Longrightarrow> exact_floats g j \<Longrightarrow> \<exists>t. dump_json g pretty step cur j = Inr t \<and> reads t j"
proof (induction g pretty step cur j rule: dump_json.induct)
  case (1 g pretty step cur m)
  let ?d = "dump_json g pretty step (if pretty then cur + step else cur)"
  have "list_all2 (\<lambda>r kv. \<exists>t. r = Inr t \<and> reads_member t kv) (map (\<lambda>(k, v). member pretty k (?d v)) m) m"
  proof -
    have "\<exists>t. member pretty k (?d v) = Inr t \<and> reads_member t (k, v)" if "(k, v) \<in> set m" for k v
    proof -
      have "utf8 k" "all_utf8 v" "storable v" "exact_floats g v" using "1.prems" that by (auto simp: list_all_iff)
      then show ?thesis using "1.IH" [OF that refl] dump_member by metis
    qed
    then show ?thesis by (auto simp: list.rel_map list_all2_same)
  qed
  from all_Inr [OF this] obtain us where us: "map (\<lambda>(k, v). member pretty k (?d v)) m = map Inr us" "list_all2 reads_member us m"
    by blast
  show ?case unfolding dump_json.simps us(1) container_Inr using reads_object [OF us(2) lead_ws lead_ws] "1.prems"(2) by simp
next
  case (2 g pretty step cur vs)
  let ?d = "dump_json g pretty step (if pretty then cur + step else cur)"
  have "list_all2 (\<lambda>r v. \<exists>t. r = Inr t \<and> reads t v) (map ?d vs) vs"
    using 2 by (auto simp: list.rel_map list_all2_same list_all_iff)
  from all_Inr [OF this] obtain ts where ts: "map ?d vs = map Inr ts" "list_all2 reads ts vs" by blast
  show ?case unfolding dump_json.simps ts(1) container_Inr using reads_array [OF ts(2) lead_ws lead_ws] by simp
next
  case (3 g pretty step cur s)
  then show ?case using dump_escaped_utf8 [of s] reads_string by (auto simp: quoted_def)
qed (auto simp: reads_int reads_float intro!: readsI)

lemma scan_bom: "code c = 239 \<Longrightarrow> \<exists>e. fst (scan (c # r)) = Parse_error e"
proof -
  assume c: "code c = 239"
  have "code d \<noteq> 239 \<Longrightarrow> c \<noteq> d" for d using c by auto
  then have "\<forall>d \<in> set ''[]{}:,tfn-''. c \<noteq> d" by simp
  moreover have "\<not> is_ws c" "\<not> is_digit c" using c by (simp_all add: is_ws_def is_digit_def Let_def)
  ultimately show ?thesis using c by (simp add: scan_def)
qed

lemma reads_parse_ws:
  assumes "reads t j" "list_all is_ws ws"
  shows "parse_json (t @ ws) = Inr j"
proof -
  have n: "num_end ws" using num_end_ws [OF assms(2), of "[]"] by (cases ws) simp_all
  obtain tok r where t: "scan (t @ ws) = (tok, r)" "\<And>fs. parse_value tok r fs = value_done j ws fs"
    using assms(1) n unfolding reads_def by metis
  have "skip_bom (t @ ws) = Some (t @ ws)"
  proof (cases "t @ ws")
    case (Cons c u)
    have "code c \<noteq> 239"
    proof
      assume "code c = 239"
      then obtain e where "tok = Parse_error e" using scan_bom [of c u] t(1) Cons by auto
      then show False using t(2) [of "[]"] by simp
    qed
    then show ?thesis by (simp add: skip_bom_def Cons)
  qed (simp add: skip_bom_def)
  moreover have "fst (scan ws) = End_of_input" using scan_ws [OF assms(2), of "[]"] by (simp add: scan_def)
  ultimately show ?thesis using t by (simp add: parse_json_def)
qed

lemma reads_parse: "reads t j \<Longrightarrow> parse_json t = Inr j"
  using reads_parse_ws [of t j "[]"] by simp

section \<open>Errors of the serializer\<close>

lemma container_ok: "(\<exists>t. container op cl pretty ni ci rs = Inr t) \<longleftrightarrow> (\<forall>r \<in> set rs. \<exists>t. r = Inr t)"
proof -
  have m: "(\<exists>t. map_sum id f r = Inr t) \<longleftrightarrow> (\<exists>t. r = Inr t)" for f :: "string \<Rightarrow> string" and r :: "string result"
    by (cases r) auto
  show ?thesis by (auto simp: container_def m join_Inl)
qed

lemma member_ok: "(\<exists>t. member pretty k r = Inr t) \<longleftrightarrow> utf8 k \<and> (\<exists>t. r = Inr t)"
proof (cases "dump_escaped k")
  case (Inl e)
  then show ?thesis using dump_escaped_iff [of k] by (auto simp: member_def quoted_def)
next
  case (Inr q)
  then show ?thesis using dump_escaped_iff [of k] by (cases r) (auto simp: member_def quoted_def)
qed

lemma dump_json_ok: "(\<exists>t. dump_json g pretty step cur j = Inr t) \<longleftrightarrow> all_utf8 j"
proof (induction g pretty step cur j rule: dump_json.induct)
  case (1 g pretty step cur m)
  define d where "d = dump_json g pretty step (if pretty then cur + step else cur)"
  have eq: "(\<exists>t. member pretty k (d v) = Inr t) \<longleftrightarrow> utf8 k \<and> all_utf8 v" if "(k, v) \<in> set m" for k v
    using "1.IH" [OF that refl] by (simp add: member_ok d_def)
  have "(\<forall>kv \<in> set m. \<exists>t. (case kv of (k, v) \<Rightarrow> member pretty k (d v)) = Inr t) \<longleftrightarrow>
      (\<forall>kv \<in> set m. case kv of (k, v) \<Rightarrow> utf8 k \<and> all_utf8 v)"
    by (rule ball_cong [OF refl]) (clarsimp simp: eq)
  then show ?case unfolding dump_json.simps container_ok d_def [symmetric] by (simp add: list_all_iff)
next
  case (2 g pretty step cur vs)
  then show ?case unfolding dump_json.simps container_ok by (simp add: list_all_iff)
next
  case (3 g pretty step cur s)
  then show ?case using dump_escaped_iff [of s] by (cases "dump_escaped s") (auto simp: quoted_def)
qed auto

lemma dump_text_ok: "(\<exists>t. dump_text g indent j = Inr t) \<longleftrightarrow> all_utf8 j"
  by (simp add: dump_text_def dump_json_ok)

section \<open>What the parser returns\<close>

fun good_token :: "token \<Rightarrow> bool" where
  "good_token (Value_string s) = utf8 s"
| "good_token (Value_unsigned n) = (n < 2 ^ 64)"
| "good_token (Value_integer i) = (- (2 ^ 63) \<le> i \<and> i \<le> 0)"
| "good_token (Value_float x) = (\<forall>r. x = Fin r \<longrightarrow> \<bar>r\<bar> < 2 powi 1024)"
| "good_token _ = True"

lemma strtof_good: "strtof buf = Fin x \<Longrightarrow> \<bar>x\<bar> < 2 powi 1024"
  by (auto simp: strtof_def abs_less_iff split: option.splits fp.splits if_splits)

lemma convert_number_good: "good_token (convert_number ty buf)"
  by (cases ty) (auto simp: convert_number_def simp del: power_numeral dest: strtof_good)

lemma scan_number_good: "good_token (fst (scan_number c r))"
  by (auto simp: scan_number_def Let_def convert_number_good split: sum.split)

lemma scan_good:
  assumes "scan s = (tok, r)"
  shows "good_token tok"
proof (cases "dropWhile is_ws s")
  case Nil
  show ?thesis using assms unfolding scan_def Nil by auto
next
  case (Cons c t)
  have "good_token (fst (scan_literal u Literal_true t))" "good_token (fst (scan_literal u Literal_false t))"
    "good_token (fst (scan_literal u Literal_null t))" for u by (simp_all add: scan_literal_def)
  then have "good_token (fst (scan s))"
    unfolding scan_def Cons using scan_number_good [of c t] scan_string_utf8 [of t] by (auto split: sum.split)
  then show ?thesis using assms by simp
qed

lemma scan_key: "scan s = (Value_string k, r) \<Longrightarrow> utf8 k"
  using scan_good by fastforce

definition good_json :: "json \<Rightarrow> bool" where
  "good_json j \<longleftrightarrow> all_utf8 j \<and> storable j"

fun good_frame :: "frame \<Rightarrow> bool" where
  "good_frame (In_array vs) = (\<forall>v \<in> set vs. good_json v)"
| "good_frame (In_object m k) = (om_wf m \<and> utf8 k \<and> (\<forall>(k, v) \<in> set m. utf8 k \<and> good_json v))"

lemma good_json_simps [simp]:
  "good_json JNull" "good_json (JBool b)" "good_json (JInt i) \<longleftrightarrow> - (2 ^ 63) \<le> i \<and> i < 2 ^ 64"
  "good_json (JFloat x) \<longleftrightarrow> \<bar>x\<bar> < 2 powi 1024" "good_json (JStr s) \<longleftrightarrow> utf8 s"
  "good_json (JArr vs) \<longleftrightarrow> (\<forall>v \<in> set vs. good_json v)"
  "good_json (JObj m) \<longleftrightarrow> om_wf m \<and> (\<forall>(k, v) \<in> set m. utf8 k \<and> good_json v)"
  by (auto simp: good_json_def list_all_iff)

lemma om_set_in: "x \<in> set (om_set k v m) \<Longrightarrow> x = (k, v) \<or> x \<in> set m"
  by (induction m) (auto split: if_splits)

lemma good_frame_set: "good_frame (In_object m k) \<Longrightarrow> good_json v \<Longrightarrow> good_json (JObj (om_set k v m))"
  by (auto simp: om_wf_set dest!: om_set_in)

lemma parse_good:
  "parse_value tok r fs = Inr (j, r') \<Longrightarrow> good_token tok \<Longrightarrow> list_all good_frame fs \<Longrightarrow> good_json j"
  "value_done v r fs = Inr (j, r') \<Longrightarrow> good_json v \<Longrightarrow> list_all good_frame fs \<Longrightarrow> good_json j"
proof (induction tok r fs and v r fs rule: parse_value_value_done.induct)
  case (1 r fs)
  then show ?case by (auto split: prod.splits token.splits) (blast intro: scan_good scan_key)
next
  case (2 r fs)
  obtain tok r1 where s: "scan r = (tok, r1)" by fastforce
  then show ?case using 2 scan_good [OF s] by (cases tok) simp_all
next
  case (3 x r fs)
  then show ?case by (auto split: fp.splits)
next
  case (13 v r vs fs)
  obtain tok r1 tok' r2 where s: "scan r = (tok, r1)" "scan r1 = (tok', r2)" by fastforce
  then show ?case using 13 scan_good [OF s(2)] by (cases tok) auto
next
  case (14 v r m k fs)
  have g: "good_json (JObj (om_set k v m))" by (rule good_frame_set) (use "14.prems" in simp_all)
  obtain t1 r1 t2 r2 t3 r3 t4 r4 where s: "scan r = (t1, r1)" "scan r1 = (t2, r2)" "scan r2 = (t3, r3)" "scan r3 = (t4, r4)"
    by fastforce
  have "t2 = Value_string k' \<Longrightarrow> utf8 k'" for k' using scan_key s(2) by blast
  then show ?case using 14 g s scan_good [OF s(4)] by (auto split: token.splits)
qed auto

lemma parsed_good:
  assumes "parse_json s = Inr j"
  shows "good_json j"
proof -
  obtain s' tok r r' where p: "scan s' = (tok, r)" "parse_value tok r [] = Inr (j, r')"
    using assms by (auto simp: parse_json_def split: option.splits sum.splits prod.splits if_splits)
  show ?thesis using parse_good(1) [OF p(2) scan_good [OF p(1)]] by simp
qed

lemma utf8_ascii: "list_all (\<lambda>c. code c < 128) s \<Longrightarrow> utf8 s"
  by (induction s) (auto intro: utf8.intros)

section \<open>One line\<close>

abbreviation printable :: "string \<Rightarrow> bool" where
  "printable t \<equiv> \<forall>c \<in> set t. 32 \<le> code c"

lemma join_printable: "join sep rs = Inr t \<Longrightarrow> printable sep \<Longrightarrow> \<forall>r \<in> set rs. \<forall>u. r = Inr u \<longrightarrow> printable u \<Longrightarrow> printable t"
proof (induction sep rs arbitrary: t rule: join.induct)
  case (3 sep r r' rs)
  obtain u where u: "r = Inr u" using "3.prems"(1) by (cases r) simp_all
  obtain v where v: "join sep (r' # rs) = Inr v" using "3.prems"(1) u by (cases "join sep (r' # rs)") simp_all
  have "t = u @ sep @ v" using "3.prems"(1) u v by simp
  moreover have "printable v" by (rule "3.IH" [OF u v "3.prems"(2)]) (use "3.prems"(3) in \<open>meson list.set_intros(2)\<close>)
  moreover have "printable u" using bspec [OF "3.prems"(3), of r] u by (simp del: Ball_def)
  ultimately show ?case using "3.prems"(2) by auto
qed auto

lemma container_printable:
  assumes "container op cl False ni ci rs = Inr t" "printable op" "printable cl" "\<forall>r \<in> set rs. \<forall>u. r = Inr u \<longrightarrow> printable u"
  shows "printable t"
proof (cases "join '','' rs")
  case (Inr u)
  then have "printable u" using join_printable assms(4) by fastforce
  then show ?thesis using assms(1-3) Inr by (auto simp: container_def split: if_splits)
qed (use assms in \<open>auto simp: container_def split: if_splits\<close>)

lemma quoted_printable: "quoted s = Inr t \<Longrightarrow> printable t"
  using dump_escaped_utf8 [of s] dump_escaped_iff [of s] by (cases "dump_escaped s") (auto simp: quoted_def)

lemma member_printable: "member False k r = Inr t \<Longrightarrow> \<forall>u. r = Inr u \<longrightarrow> printable u \<Longrightarrow> printable t"
  using quoted_printable [of k] by (cases r) (auto simp: member_def split: sum.splits)

lemma digits_printable: "list_all is_digit ds \<Longrightarrow> printable ds"
  by (auto simp: list_all_iff is_digit_def Let_def)

lemma integer_printable: "- (2 ^ 63) \<le> x \<Longrightarrow> x < 2 ^ 64 \<Longrightarrow> printable (dump_integer x)"
  using digits_printable [of "numeral_text (nat \<bar>x\<bar>)"] numeral_text_digits [of "nat \<bar>x\<bar>"] by (auto simp: dump_integer_digits)

lemma float_printable:
  assumes "x = 0 \<or> exact_digits (g \<bar>x\<bar>) \<bar>x\<bar>"
  shows "printable (to_chars g x)"
proof (cases "x = 0")
  case False
  obtain buf e where g: "g \<bar>x\<bar> = (buf, e)" by fastforce
  then have "exact_digits (buf, e) \<bar>x\<bar>" using assms False by simp
  then obtain ds fr ex e' where f: "format_buffer buf e (- 4) 15 = float_text ds fr ex" "int_part ds" "list_all is_digit fr" "exp_text ex e'"
    by (rule format_buffer_float)
  have "printable ex" using f(4) append_exponent_shape [of e'] digits_printable by (fastforce simp: exp_text_def)
  moreover have "printable ds" "printable fr" using digits_printable int_part_digits [OF f(2)] f(3) by blast+
  ultimately have "printable (float_text ds fr ex)" by (auto simp: float_text_def)
  then show ?thesis using False g f(1) by (auto simp: to_chars_def)
qed (auto simp: to_chars_def)

lemma dump_json_printable:
  "dump_json g pretty step cur j = Inr t \<Longrightarrow> storable j \<Longrightarrow> exact_floats g j \<Longrightarrow> \<not> pretty \<Longrightarrow> printable t"
proof (induction g pretty step cur j arbitrary: t rule: dump_json.induct)
  case (1 g pretty step cur m)
  define d where "d = dump_json g False step cur"
  have "d v = Inr u \<Longrightarrow> printable u" if "(k, v) \<in> set m" for k v u
    using "1.IH" [OF that refl, of u] "1.prems" that by (auto simp: list_all_iff d_def)
  then have "member False k (d v) = Inr u \<Longrightarrow> printable u" if "(k, v) \<in> set m" for k v u
    using that member_printable [of k "d v" u] by blast
  then have "\<forall>r \<in> set (map (\<lambda>(k, v). member False k (d v)) m). \<forall>u. r = Inr u \<longrightarrow> printable u" by auto
  then show ?case using container_printable "1.prems" by (fastforce simp: d_def)
next
  case (2 g pretty step cur vs)
  then have "\<forall>r \<in> set (map (dump_json g False step cur) vs). \<forall>u. r = Inr u \<longrightarrow> printable u"
    by (auto simp: list_all_iff)
  then show ?case using container_printable "2.prems" by fastforce
qed (auto simp: quoted_printable integer_printable float_printable)

section \<open>Properties\<close>

text \<open>C3. Text round trip: a value whose strings are UTF-8 and whose numbers the number types can hold is written without
  error, on one line or with an indentation of up to 512 spaces, and parsing the text gives the value back, with every member of
  every object. For the floating-point numbers this asks that the digits written are the exact decimal digits.\<close>

theorem json_text_roundtrip:
  assumes "all_utf8 j" "storable j" "exact_floats g j" "indent \<le> 512"
  shows "\<exists>t. dump_text g indent j = Inr t \<and> parse_json t = Inr j"
proof -
  obtain t where "dump_text g indent j = Inr t" "reads t j"
    using dump_json_reads [OF assms(1-3)] unfolding dump_text_def by metis
  then show ?thesis using reads_parse by blast
qed

definition example_json :: json where
  "example_json = JObj [(''a'', JArr [JInt (- 7), JFloat (- 5 / 2), JStr [CHR ''x'', char_of (10 :: nat), char_of (34 :: nat)], JNull]), (''b'', JBool True)]"

definition example_digits :: "real \<Rightarrow> string \<times> int" where
  "example_digits x = (''25'', - 1)"

lemma example_json_ok: "all_utf8 example_json" "storable example_json" "exact_floats example_digits example_json"
proof -
  have "utf8 [c]" if "code c < 128" for c using that utf8.intros by simp
  moreover have "utf8 [CHR ''x'', char_of (10 :: nat), char_of (34 :: nat)]" by (intro utf8.intros) simp_all
  ultimately show "all_utf8 example_json" by (simp add: example_json_def)
  show "storable example_json" by (simp add: example_json_def om_wf_def abs_less_iff)
  show "exact_floats example_digits example_json"
    by (simp add: example_json_def example_digits_def exact_digits_def is_19_def is_digit_def read_digits_def digit_val_def power_int_def)
qed

theorem json_text_roundtrip_witness:
  "\<exists>t u. dump_text example_digits (- 1) example_json = Inr t \<and> parse_json t = Inr example_json \<and>
     dump_text example_digits 4 example_json = Inr u \<and> parse_json u = Inr example_json"
proof -
  have "\<exists>t. dump_text example_digits (- 1) example_json = Inr t \<and> parse_json t = Inr example_json"
    by (rule json_text_roundtrip [OF example_json_ok]) simp
  moreover have "\<exists>t. dump_text example_digits 4 example_json = Inr t \<and> parse_json t = Inr example_json"
    by (rule json_text_roundtrip [OF example_json_ok]) simp
  ultimately show ?thesis by blast
qed

text \<open>C20. Whatever text is parsed, the value that results can be written again: its strings are UTF-8, escapes included,
  its integers are in the range of the integer types, its floating-point numbers are finite, and its objects have
  each key once, in order. So a request cannot make the serializer throw later on.\<close>

theorem parsed_json_is_writable:
  assumes "parse_json s = Inr j" "indent \<le> 512"
  shows "all_utf8 j \<and> storable j \<and> (\<exists>t. dump_text g indent j = Inr t)"
  using parsed_good [OF assms(1)] by (simp add: good_json_def dump_text_ok)

theorem parsed_json_is_writable_witness:
  "\<exists>t. parse_json ''[1, true]'' = Inr (JArr [JInt 1, JBool True]) \<and> dump_text example_digits 2 (JArr [JInt 1, JBool True]) = Inr t"
proof -
  have p: "parse_json ''[1, true]'' = Inr (JArr [JInt 1, JBool True])"
    by (simp add: parse_json_def skip_bom_def scan_def is_ws_def is_digit_def scan_number_def convert_number_def read_digits_def
        digit_val_def scan_literal_def)
  have i: "(2 :: int) \<le> 512" by simp
  show ?thesis using parsed_json_is_writable [OF p i] p by blast
qed

text \<open>The serializer, on one line as the program uses it for messages, fails on exactly the values with a string or a key
  that is not UTF-8, at any depth, and never on anything else.\<close>

theorem dump_fails_iff_not_utf8: "(\<exists>e. dump_text g (- 1) j = Inl e) \<longleftrightarrow> \<not> all_utf8 j"
  using dump_text_ok [of g "- 1" j] by (cases "dump_text g (- 1) j") auto

text \<open>C21. Two automata for UTF-8: the table-driven one of the serializer and the byte ranges of the lexer. The serializer
  accepts exactly the well-formed strings, the strings the lexer returns from any text are exactly the same
  ones, and the lexer reads the escaped text of such a string, up to the closing quote, back as the string, whatever follows.\<close>

theorem string_text_roundtrip:
  "((\<exists>t. dump_escaped s = Inr t) \<longleftrightarrow> utf8 s) \<and>
   ((\<exists>t r. scan_string t = Inr (s, r)) \<longleftrightarrow> utf8 s) \<and>
   (\<forall>t. dump_escaped s = Inr t \<longrightarrow> (\<forall>r. scan_string (t @ char_of (34 :: nat) # r) = Inr (s, r)))"
  using dump_escaped_utf8 [of s] dump_escaped_iff [of s] scan_string_utf8 by (metis sum.inject(2))

text \<open>The serializer refuses the encoded surrogate half \<open>ED A0 80\<close>, so there is no text from which the lexer reads it.\<close>

theorem string_text_roundtrip_witness:
  "(\<nexists>t r. scan_string t = Inr ([char_of (237 :: nat), char_of (160 :: nat), char_of (128 :: nat)], r)) \<and>
   scan_string (''a'' @ char_of (34 :: nat) # ''b'') = Inr (''a'', ''b'')"
proof -
  have d: "(case dump_escaped [char_of (237 :: nat), char_of (160 :: nat), char_of (128 :: nat)] of Inl _ \<Rightarrow> True | Inr _ \<Rightarrow> False)"
    "dump_escaped ''a'' = Inr ''a''"
    by code_simp+
  then have "\<nexists>t. dump_escaped [char_of (237 :: nat), char_of (160 :: nat), char_of (128 :: nat)] = Inr t" by auto
  then show ?thesis
    using string_text_roundtrip [of "[char_of 237, char_of 160, char_of 128]"] string_text_roundtrip [of "''a''"] d(2) by blast
qed

text \<open>C22. The integers of both types, the smallest one included, are written as their decimal numerals, although the digits
  are counted four at a time and stored two at a time from the end of a buffer; and they are read back exactly.\<close>

theorem integer_text:
  assumes "- (2 ^ 63) \<le> x" "x < 2 ^ 64"
  shows "dump_integer x = (if x < 0 then ''-'' else []) @ numeral_text (nat \<bar>x\<bar>) \<and> parse_json (dump_integer x) = Inr (JInt x)"
  using dump_integer_digits [OF assms] reads_parse [OF reads_int [OF assms]] by simp

theorem integer_text_witness: "parse_json (dump_integer (- (2 ^ 63))) = Inr (JInt (- (2 ^ 63)))"
proof -
  have a: "- (2 ^ 63) \<le> - (2 ^ 63 :: int)" "- (2 ^ 63) < (2 ^ 64 :: int)" by simp_all
  show ?thesis using integer_text [OF a] by (rule conjunct2)
qed

end
