(* ===== verification/Json_Requests.thy ===== *)
theory Json_Requests
  imports Json_Roundtrip Tcp_Server
begin

text \<open>
  The line protocol of the controller, from bytes to bytes: the TCP front end cuts a line out of what has arrived, the
  JSON parser makes a value of it, the request handler answers with a value, and the
  serializer turns the answer into a line. Here the arguments of \<open>controller_handler\<close> are the JSON parser and
  serializer of the program.
\<close>

section \<open>Handlers on text\<close>

text \<open>The handler catches every exception of the parser.\<close>

definition parse_request :: "string \<Rightarrow> json option" where
  "parse_request request = (case parse_json request of Inr j \<Rightarrow> Some j | Inl _ \<Rightarrow> None)"

text \<open>\<open>resp.dump()\<close>. The exception it can throw does not occur, as shown below.\<close>

definition dump_response :: "(real \<Rightarrow> string \<times> int) \<Rightarrow> json \<Rightarrow> string" where
  "dump_response g resp = (case dump_text g (- 1) resp of Inr t \<Rightarrow> t | Inl _ \<Rightarrow> [])"

definition serve_text :: "(real \<Rightarrow> string \<times> int) \<Rightarrow> ct_env \<Rightarrow> Controller tcp_handler" where
  "serve_text g env = controller_handler parse_request (dump_response g) env"

section \<open>Answers\<close>

text \<open>Every answer of the controller is a status alone or a status with the two ports.\<close>

definition is_answer :: "json \<Rightarrow> bool" where
  "is_answer resp \<longleftrightarrow> resp = reply ''fail'' \<or> resp = reply ''success'' \<or> (\<exists>nc. resp = reply_ports nc)"

lemma is_answer_simps [simp]: "is_answer (reply ''fail'')" "is_answer (reply ''success'')" "is_answer (reply_ports nc)"
  by (auto simp: is_answer_def)

definition answers :: "json ct_result \<Rightarrow> bool" where
  "answers r \<longleftrightarrow> (\<forall>resp. fst r = Inr resp \<longrightarrow> is_answer resp)"

lemma answers_simps [simp]: "answers (Inr resp, c) = is_answer resp" "answers (Inl e, c)"
  by (simp_all add: answers_def)

lemma answers_then: "(\<And>x c. answers (f x c)) \<Longrightarrow> answers (ct_then r f)"
  by (cases r; cases "fst r") (auto simp: ct_then_def answers_def)

lemma serve_answers: "answers (serve env nc new c)"
  unfolding serve_def Let_def by (auto intro!: answers_then split: prod.split)

lemma requestHandler_answers: "answers (requestHandler env request c)"
proof -
  have "answers (heartbeat_request env j c)" for j c unfolding heartbeat_request_def by (rule answers_then) simp
  moreover have "answers (disconnect_request j c)" for j c
    unfolding disconnect_request_def by (rule answers_then) (simp add: answers_then split: option.split)
  moreover have "answers (configure env j c)" for j c unfolding configure_def Let_def by (rule answers_then) (rule serve_answers)
  ultimately show ?thesis by (simp add: requestHandler_def answers_then split: option.split)
qed

text \<open>An answer has no floating-point numbers, ports of 16 bits, and ASCII strings.\<close>

lemma answer_ok:
  assumes "is_answer resp"
  shows "all_utf8 resp" "storable resp" "exact_floats g resp"
proof -
  have r: "- (2 ^ 63) \<le> sint w" "sint w < 2 ^ 64" for w :: u16
    using sint_greater_eq [of w] sint_less [of w] by simp_all
  show "all_utf8 resp" using assms by (auto simp: is_answer_def reply_def reply_ports_def jobj_def intro!: utf8_ascii)
  show "storable resp" using assms r by (auto simp: is_answer_def reply_def reply_ports_def jobj_def om_wf_def)
  show "exact_floats g resp" using assms by (auto simp: is_answer_def reply_def reply_ports_def jobj_def)
qed

section \<open>Lines\<close>

text \<open>What the two sides of a connection rely on: a text form of values that stays on one line and is read back.\<close>

locale line_codec =
  fixes enc :: "json \<Rightarrow> string" and dec :: "string \<Rightarrow> json option" and sendable :: "json \<Rightarrow> bool"
  assumes dec_enc: "sendable j \<Longrightarrow> dec (enc j) = Some j"
    and one_line: "sendable j \<Longrightarrow> char_of (10 :: nat) \<notin> set (enc j)"
begin

lemma first_line_enc: "sendable j \<Longrightarrow> first_line (enc j @ UNTIL @ rest) = enc j"
  by (rule first_line_until) (rule one_line)

lemma received: "sendable j \<Longrightarrow> dec (first_line (enc j @ UNTIL @ rest)) = Some j"
  by (simp add: first_line_enc dec_enc del: append_assoc)

end

lemma printable_no_newline: "printable t \<Longrightarrow> char_of (10 :: nat) \<notin> set t"
  by force

definition sendable :: "(real \<Rightarrow> string \<times> int) \<Rightarrow> json \<Rightarrow> bool" where
  "sendable g j \<longleftrightarrow> all_utf8 j \<and> storable j \<and> exact_floats g j"

lemma sendable_text:
  assumes "sendable g j"
  shows "dump_text g (- 1) j = Inr (dump_response g j)" "parse_json (dump_response g j) = Inr j" "printable (dump_response g j)"
proof -
  obtain t where t: "dump_json g False 0 0 j = Inr t" "reads t j"
    using assms dump_json_reads unfolding sendable_def by blast
  then have "printable t" using dump_json_printable [OF t(1)] assms by (simp add: sendable_def)
  then show "dump_text g (- 1) j = Inr (dump_response g j)" "parse_json (dump_response g j) = Inr j" "printable (dump_response g j)"
    using t reads_parse by (simp_all add: dump_text_def dump_response_def)
qed

interpretation wire: line_codec "dump_response g" parse_request "sendable g" for g
proof
  fix j assume j: "sendable g j"
  show "parse_request (dump_response g j) = Some j" by (simp add: parse_request_def sendable_text(2) [OF j])
  show "char_of (10 :: nat) \<notin> set (dump_response g j)" using printable_no_newline sendable_text(3) [OF j] by blast
qed

lemma answer_sendable: "is_answer resp \<Longrightarrow> sendable g resp"
  using answer_ok by (simp add: sendable_def)

lemma serve_text_step:
  assumes "om_find (ts_open srv) s = Some addr"
  shows "tcp_step (serve_text g env) (Read s buf) (srv, c) =
    (case requestHandler (env\<lparr>ce_remoteIp := ts_remote_ip srv\<rparr>) (parse_request (first_line buf)) c of
       (Inl e, c') \<Rightarrow> (Some e, srv\<lparr>ts_open := om_erase s (ts_open srv)\<rparr>, c')
     | (Inr resp, c') \<Rightarrow>
         (None, handle_connection s addr (srv\<lparr>ts_written := ts_written srv @ [(s, dump_response g resp @ UNTIL)]\<rparr>), c'))"
  using assms by (auto simp: read_completed_def serve_text_def controller_handler_def split: prod.split sum.split)

section \<open>Properties\<close>

text \<open>C4. The line protocol between a client and the controller, down to the bytes: when the text of a request, written on
  one line, and a line feed arrive, together with anything else, on an open connection, the handler gets exactly the value
  that was written; and what goes back is one line, which the client's parser reads as the
  handler's answer.\<close>

theorem text_request_served:
  assumes "sendable g j" "dump_text g (- 1) j = Inr t" "om_find (ts_open srv) s = Some addr"
    and "requestHandler (env\<lparr>ce_remoteIp := ts_remote_ip srv\<rparr>) (Some j) c = (Inr resp, c')"
  shows "\<exists>line. tcp_step (serve_text g' env) (Read s (t @ UNTIL @ rest)) (srv, c) =
      (None, handle_connection s addr (srv\<lparr>ts_written := ts_written srv @ [(s, line @ UNTIL)]\<rparr>), c') \<and>
    (\<forall>more. first_line (line @ UNTIL @ more) = line) \<and> parse_json line = Inr resp"
proof -
  have "parse_request (first_line (t @ UNTIL @ rest)) = Some j"
    using wire.received [OF assms(1), of rest] sendable_text(1) [OF assms(1)] assms(2) by simp
  moreover have a: "is_answer resp" using requestHandler_answers [of "env\<lparr>ce_remoteIp := ts_remote_ip srv\<rparr>" "Some j" c] assms(4) by simp
  ultimately show ?thesis unfolding serve_text_step [OF assms(3)]
    using sendable_text(2) [OF answer_sendable [OF a]] wire.first_line_enc [OF answer_sendable [OF a], of g'] assms(4)
    by (intro exI [of _ "dump_response g' resp"]) simp
qed

theorem text_request_served_witness:
  "\<exists>t line. dump_text example_digits (- 1) (JObj [(''id'', JStr ''a''), (''type'', JStr ''heartbeat'')]) = Inr t \<and>
     tcp_step (serve_text example_digits example_ct_env) (Read 1 (t @ UNTIL @ ''more'')) (handle_connection 1 ''10.0.0.2'' TCPServer_new, example_controller) =
       (None, handle_connection 1 ''10.0.0.2'' ((handle_connection 1 ''10.0.0.2'' TCPServer_new)\<lparr>ts_written := [(1, line @ UNTIL)]\<rparr>), example_controller) \<and>
     parse_json line = Inr (reply ''fail'')"
proof -
  let ?j = "JObj [(''id'', JStr ''a''), (''type'', JStr ''heartbeat'')]" let ?srv = "handle_connection 1 ''10.0.0.2'' TCPServer_new"
  have j: "sendable example_digits ?j" by (auto simp: sendable_def om_wf_def intro!: utf8_ascii)
  obtain t where t: "dump_text example_digits (- 1) ?j = Inr t" using sendable_text(1) [OF j] by blast
  have o: "om_find (ts_open ?srv) 1 = Some ''10.0.0.2''" by (simp add: handle_connection_def om_find_set)
  have w: "ts_written ?srv = []" by (simp add: handle_connection_def TCPServer_new_def)
  have r: "requestHandler (example_ct_env\<lparr>ce_remoteIp := ts_remote_ip ?srv\<rparr>) (Some ?j) example_controller = (Inr (reply ''fail''), example_controller)"
    by (simp add: requestHandler_def contains_def jmember_def heartbeat_request_def example_controller_def om_find_def Controller_new_def)
  show ?thesis using text_request_served [OF j t o r, of example_digits "''more''"] t w by auto
qed

text \<open>C19. Whatever bytes arrive on an open connection, the controller, unless an exception leaves the handler, answers with exactly one
  line that the peer's parser reads: a status, or a status and two ports. Bytes that are not JSON, ill-formed
  UTF-8 and numbers out of range included, are answered with the status fail and leave the controller as it was.\<close>

theorem any_bytes_answered:
  assumes "om_find (ts_open srv) s = Some addr" "tcp_step (serve_text g env) (Read s buf) (srv, c) = (None, srv', c')"
  shows "\<exists>resp line. ts_written srv' = ts_written srv @ [(s, line @ UNTIL)] \<and> (\<forall>more. first_line (line @ UNTIL @ more) = line) \<and>
    parse_json line = Inr resp \<and> is_answer resp \<and> ((\<exists>e. parse_json (first_line buf) = Inl e) \<longrightarrow> resp = reply ''fail'' \<and> c' = c)"
proof -
  let ?r = "requestHandler (env\<lparr>ce_remoteIp := ts_remote_ip srv\<rparr>) (parse_request (first_line buf)) c"
  obtain resp where r: "?r = (Inr resp, c')"
    and w: "srv' = handle_connection s addr (srv\<lparr>ts_written := ts_written srv @ [(s, dump_response g resp @ UNTIL)]\<rparr>)"
    using assms(2) unfolding serve_text_step [OF assms(1)] by (auto split: prod.splits sum.splits)
  have a: "is_answer resp" using requestHandler_answers r by (metis answers_simps(1))
  have "(\<exists>e. parse_json (first_line buf) = Inl e) \<Longrightarrow> resp = reply ''fail'' \<and> c' = c"
    using r by (auto simp: parse_request_def requestHandler_def)
  then show ?thesis using a sendable_text(2) [OF answer_sendable [OF a], of g] wire.first_line_enc [OF answer_sendable [OF a], of g] w
    by (intro exI [of _ resp] exI [of _ "dump_response g resp"]) (simp add: handle_connection_def)
qed

theorem any_bytes_answered_witness:
  "\<exists>srv' c' resp line. tcp_step (serve_text example_digits example_ct_env) (Read 1 (''{'' @ UNTIL)) (handle_connection 1 ''10.0.0.2'' TCPServer_new, example_controller) =
       (None, srv', c') \<and> ts_written srv' = [(1, line @ UNTIL)] \<and> parse_json line = Inr (reply ''fail'') \<and> c' = example_controller"
proof -
  let ?srv = "handle_connection 1 ''10.0.0.2'' TCPServer_new"
  have "char_of (10 :: nat) \<notin> set ''{''" by (rule printable_no_newline) simp
  then have f: "first_line (''{'' @ UNTIL) = ''{''" using first_line_until [of "''{''" "[]"] by simp
  have p: "parse_json ''{'' = Inl (Syntax_error ''object key'')" by (simp add: parse_json_def skip_bom_def scan_def is_ws_def)
  have o: "om_find (ts_open ?srv) 1 = Some ''10.0.0.2''" by (simp add: handle_connection_def om_find_set)
  have "requestHandler e (parse_request ''{'') c = (Inr (reply ''fail''), c)" for e c
    by (simp add: parse_request_def p requestHandler_def)
  then obtain srv' where st: "tcp_step (serve_text example_digits example_ct_env) (Read 1 (''{'' @ UNTIL)) (?srv, example_controller) =
      (None, srv', example_controller)" unfolding serve_text_step [OF o] f by simp
  have w: "ts_written ?srv = []" by (simp add: handle_connection_def TCPServer_new_def)
  show ?thesis using any_bytes_answered [OF o st] st w f p by auto
qed

end
