(* ===== verification/Config_File.thy ===== *)
theory Config_File
  imports Json_Roundtrip Chem_System
begin

text \<open>
  The configuration file as text: \<open>Config::read\<close> and \<open>Config::save\<close> of \<open>src/chem/config.cpp\<close> with the JSON parser and serializer
  of the program, and the choice of the file in \<open>src/chem/main.cpp\<close>. A file is its text; one that is missing reads as the empty text.
\<close>

section \<open>Reading and saving\<close>

definition parse_file :: "string \<Rightarrow> json option" where
  "parse_file text = (case parse_json text of Inr j \<Rightarrow> Some j | Inl _ \<Rightarrow> None)"

definition Config_read_text :: "string \<Rightarrow> string \<Rightarrow> Config \<Rightarrow> (bool \<times> Config) result" where
  "Config_read_text fpath text c = Config_read fpath (parse_file text) c"

text \<open>The file is opened, and truncated, before the text is made.\<close>

definition Config_save_text :: "(real \<Rightarrow> string \<times> int) \<Rightarrow> (string \<Rightarrow> bool) \<Rightarrow> string \<Rightarrow> Config \<Rightarrow> (string \<times> string) option result" where
  "Config_save_text g disk path c =
     (case Config_save disk path c of
        None \<Rightarrow> Inr None
      | Some (target, j) \<Rightarrow> map_sum id (\<lambda>t. Some (target, t @ NL)) (dump_text g 4 j))"

section \<open>Start of the program\<close>

datatype start_error = Exit nat | Null_string | Uncaught cpp_exn

definition has_json_suffix :: "string \<Rightarrow> bool" where
  "has_json_suffix fpath = (\<exists>i \<in> set [0..<Suc (length fpath)]. take 5 (drop i fpath) = ''.json'')"

text \<open>The first argument, or a file below the home directory. The home directory is used before the argument is looked at.\<close>

definition config_path :: "string option \<Rightarrow> string list \<Rightarrow> start_error + string" where
  "config_path homeDir args =
     (case homeDir of
        None \<Rightarrow> Inl Null_string
      | Some home \<Rightarrow>
          (case args of
             [] \<Rightarrow> Inr (home @ ''/.config/CHEM/config.json'')
           | a # _ \<Rightarrow> if has_json_suffix a then Inr a else Inl (Exit 1)))"

definition sandbox_env :: "string option \<Rightarrow> bool" where
  "sandbox_env v = (v = Some ''Sandbox'')"

definition start_program ::
  "string option \<Rightarrow> string option \<Rightarrow> string list \<Rightarrow> (string \<Rightarrow> string) \<Rightarrow> Controller \<Rightarrow> start_error + Coordinator" where
  "start_program homeDir sandboxEnv args files ctl =
     (case config_path homeDir args of
        Inl e \<Rightarrow> Inl e
      | Inr fpath \<Rightarrow>
          (case Config_read_text fpath (files fpath) Config_new of
             Inl e \<Rightarrow> Inl (Uncaught e)
           | Inr (_, cfg) \<Rightarrow> Inr (boot (sandbox_env sandboxEnv) cfg ctl)))"

text \<open>The configurations a session can have: what a file text gives, changed by the patches of commands.\<close>

inductive config_reach :: "Config \<Rightarrow> bool" where
  read: "Config_read_text fpath text Config_new = Inr (ok, c) \<Longrightarrow> config_reach c"
| patch: "config_reach c \<Longrightarrow> parse_json request = Inr j \<Longrightarrow> typed_member is_object j ''config'' = Some p \<Longrightarrow>
    config_reach (mergePatch p c)"

section \<open>The configuration stays writable\<close>

lemma om_find_in: "om_find m k = Some v \<Longrightarrow> (k, v) \<in> set m"
  by (simp add: om_find_def map_of_SomeD)

lemma om_erase_in: "x \<in> set (om_erase k m) \<Longrightarrow> x \<in> set m"
  by (simp add: om_erase_def)

definition good_members :: "(string, json) omap \<Rightarrow> bool" where
  "good_members m \<longleftrightarrow> om_wf m \<and> (\<forall>(k, v) \<in> set m. utf8 k \<and> good_json v)"

lemma good_members_find: "good_members m \<Longrightarrow> om_find m k = Some v \<Longrightarrow> good_json v"
  by (auto simp: good_members_def dest: om_find_in)

lemma good_jmembers: "good_json j \<Longrightarrow> good_members (jmembers j)"
  by (cases j) (auto simp: good_members_def)

lemma good_members_set: "good_members m \<Longrightarrow> utf8 k \<Longrightarrow> good_json v \<Longrightarrow> good_members (om_set k v m)"
  unfolding good_members_def by (auto simp: om_wf_set dest: om_set_in)

lemma good_members_erase: "good_members m \<Longrightarrow> good_members (om_erase k m)"
  unfolding good_members_def by (auto simp: om_wf_erase dest: om_erase_in)

lemma merge_good:
  "good_json target \<Longrightarrow> good_json p \<Longrightarrow> good_json (merge_patch target p)"
  "\<forall>(k, v) \<in> set ps. utf8 k \<and> good_json v \<Longrightarrow> good_members m \<Longrightarrow> good_members (merge_members ps m)"
proof (induction target p and ps m rule: merge_patch_merge_members.induct)
  case (1 target ps)
  then show ?case using good_jmembers [OF "1.prems"(1)] by (simp add: good_members_def)
next
  case (4 k v ps m)
  have "good_json (case om_find m k of Some t \<Rightarrow> t | None \<Rightarrow> JNull)"
    using good_members_find [OF "4.prems"(2)] by (simp split: option.split)
  then show ?case using 4 good_members_set good_members_erase by simp
qed auto

lemma typed_member_good: "good_json j \<Longrightarrow> typed_member p j k = Some v \<Longrightarrow> good_json v"
  using good_jmembers good_members_find by (fastforce simp: typed_member_def split: option.splits if_splits)

text \<open>Reading: the members it adds are null.\<close>

lemma jindex_good: "jindex k j = Some (v, j') \<Longrightarrow> good_json j \<Longrightarrow> utf8 k \<Longrightarrow> good_json j'"
proof (cases j)
  case (JObj m)
  assume "jindex k j = Some (v, j')" "good_json j" "utf8 k"
  moreover from this have "good_members (om_set k JNull m)" using good_members_set [of m k JNull] good_jmembers JObj by fastforce
  ultimately show ?thesis using JObj by (auto simp: good_members_def split: option.splits)
qed (auto simp: om_wf_def)

definition keeps_good :: "cfg_step \<Rightarrow> bool" where
  "keeps_good f \<longleftrightarrow> (\<forall>c. good_json (cf_configuration c) \<longrightarrow> good_json (cf_configuration (snd (f c))))"

lemma keeps_good_assign [intro]:
  assumes "utf8 k" "\<And>x c. cf_configuration (put x c) = cf_configuration c"
  shows "keeps_good (cfg_assign k conv put)" "keeps_good (cfg_optional k conv put)"
proof -
  show *: "keeps_good (cfg_assign k conv put)"
    unfolding keeps_good_def cfg_assign_def using assms by (auto dest: jindex_good split: option.splits sum.splits)
  show "keeps_good (cfg_optional k conv put)" using * by (simp add: keeps_good_def cfg_optional_def)
qed

lemma keeps_good_block: "list_all keeps_good fs \<Longrightarrow> keeps_good (cfg_block fs)"
proof (induction fs)
  case (Cons f fs)
  show ?case unfolding keeps_good_def
  proof (intro allI impI)
    fix c :: Config assume "good_json (cf_configuration c)"
    moreover obtain b c' where f: "f c = (b, c')" by fastforce
    ultimately have "good_json (cf_configuration c')" using Cons.prems by (fastforce simp: keeps_good_def)
    then show "good_json (cf_configuration (snd (cfg_block (f # fs) c)))" using Cons by (cases b) (simp_all add: f keeps_good_def)
  qed
qed (simp add: keeps_good_def)

lemma read_fields_keep_good: "list_all keeps_good read_fields"
  unfolding read_fields_def list.pred_inject
  by (intro conjI keeps_good_assign TrueI)
    (auto simp: keeps_good_def cfg_sandbox_def Let_def intro!: utf8_ascii split: option.splits)

lemma Config_read_good:
  assumes "Config_read_text fpath text c = Inr (ok, c')"
  shows "good_json (cf_configuration c')"
proof -
  obtain j where j: "parse_json text = Inr j" and
    b: "cfg_block read_fields (c\<lparr>cf_path := fpath, cf_configuration := j\<rparr>) = (ok, c')"
    using assms by (auto simp: Config_read_text_def Config_read_def parse_file_def split: option.splits sum.splits)
  show ?thesis using keeps_good_block [OF read_fields_keep_good] parsed_good [OF j] b
    unfolding keeps_good_def by (metis Config.select_convs(1) Config.surjective Config.update_convs(1) snd_conv)
qed

lemma config_reach_good: "config_reach c \<Longrightarrow> good_json (cf_configuration c)"
proof (induction rule: config_reach.induct)
  case (patch c request j p)
  then have "good_json p" using typed_member_good parsed_good by blast
  then show ?case using merge_good(1) patch.IH by (simp add: mergePatch_def)
qed (rule Config_read_good)

text \<open>What is shown of the runs of the system holds of the program started from the text of a file.\<close>

lemma start_program_reach:
  "start_program homeDir sandboxEnv args files (Controller_new [] [] defaults rx tx item numa n) = Inr c \<Longrightarrow> sys_reach c"
  by (auto simp: start_program_def Config_read_text_def intro: sys_reach.start split: sum.splits prod.splits)

text \<open>Without a home directory the program does not start, whatever file its command line names.\<close>

lemma no_home_no_start: "start_program None sandboxEnv args files ctl = Inl Null_string"
  by (simp add: start_program_def config_path_def)

text \<open>A file that is missing or is not JSON ends the program with an exception nobody catches.\<close>

lemma bad_file_uncaught:
  assumes "config_path homeDir args = Inr fpath" "parse_json (files fpath) = Inl e"
  shows "\<exists>ex. start_program homeDir sandboxEnv args files ctl = Inl (Uncaught ex)"
  using assms by (simp add: start_program_def Config_read_text_def Config_read_def parse_file_def)

section \<open>Properties\<close>

lemma four_spaces: "dump_text g 4 j = dump_json g True 4 0 j"
  by (simp add: dump_text_def)

lemma saved_text:
  assumes "good_json j" "exact_floats g j"
  shows "\<exists>t. dump_text g 4 j = Inr t \<and> parse_json (t @ NL) = Inr j"
proof -
  obtain t where "dump_json g True 4 0 j = Inr t" "reads t j"
    using dump_json_reads assms unfolding good_json_def by blast
  moreover have "list_all is_ws NL" by (simp add: NL_def is_ws_def)
  ultimately show ?thesis using reads_parse_ws by (auto simp: four_spaces)
qed

text \<open>C18. Persistence: whatever file the program was started from and whatever patches arrived as text since, saving the
  configuration to a path that can be written never throws, and a program that reads the file back, in whatever
  state, finds exactly the configuration that was saved.\<close>

theorem saved_config_reads_back:
  assumes "config_reach c" "exact_floats g (cf_configuration c)" "target = (if path = [] then cf_path c else path)"
    and "target \<noteq> []" "disk target"
  shows "\<exists>text. Config_save_text g disk path c = Inr (Some (target, text)) \<and>
    (\<forall>p c'. Config_read_text p text c' = Config_read p (Some (cf_configuration c)) c')"
proof -
  obtain t where "dump_text g 4 (cf_configuration c) = Inr t" "parse_json (t @ NL) = Inr (cf_configuration c)"
    using saved_text [OF config_reach_good [OF assms(1)] assms(2)] by blast
  then show ?thesis using assms(3-5)
    by (intro exI [of _ "t @ NL"]) (simp add: Config_save_text_def Config_save_def Config_read_text_def parse_file_def Let_def)
qed

definition example_config_text :: string where
  "example_config_text = ''{}''"

theorem saved_config_reads_back_witness:
  "\<exists>c text. Config_read_text ''a.json'' example_config_text Config_new = Inr (False, c) \<and>
     Config_save_text example_digits (\<lambda>_. True) [] c = Inr (Some (''a.json'', text)) \<and>
     Config_read_text ''b.json'' text Config_new = Config_read ''b.json'' (Some (JObj [(''controllerIpAddress'', JNull)])) Config_new"
proof -
  define c where "c = Config_new\<lparr>cf_path := ''a.json'', cf_configuration := JObj [(''controllerIpAddress'', JNull)]\<rparr>"
  have "parse_json ''{}'' = Inr (JObj [])" by (simp add: parse_json_def skip_bom_def scan_def is_ws_def)
  then have r: "Config_read_text ''a.json'' example_config_text Config_new = Inr (False, c)"
    by (simp add: example_config_text_def Config_read_text_def Config_read_def parse_file_def read_fields_def cfg_assign_def c_def)
  have e: "exact_floats example_digits (cf_configuration c)" by (simp add: c_def)
  have "\<exists>text. Config_save_text example_digits (\<lambda>_. True) [] c = Inr (Some (''a.json'', text)) \<and>
      (\<forall>p c'. Config_read_text p text c' = Config_read p (Some (cf_configuration c)) c')"
    by (rule saved_config_reads_back [OF config_reach.read [OF r] e]) (simp_all add: c_def)
  then show ?thesis using r by (auto simp: c_def)
qed

end
