(* ===== verification/Tcp_Client.thy ===== *)
theory Tcp_Client
  imports Cpp_Containers
begin

text \<open>
  The stream client of \<open>src/chem/net/tcp_client.cpp\<close>. The socket is the bytes that will arrive on it and the bytes
  written to it; which addresses parse, whether a connection succeeds and how much memory an allocation gets are arguments.
\<close>

section \<open>The client\<close>

datatype client_error = Net_error string | Bad_alloc | Overrun

record Client =
  cl_open :: bool
  cl_connected :: bool
  cl_in :: "byte list"
  cl_sent :: "byte list"

definition Client_new :: Client where
  "Client_new = \<lparr>cl_open = False, cl_connected = False, cl_in = [], cl_sent = []\<rparr>"

text \<open>The string of the request with its terminating zero.\<close>

definition request_bytes :: "byte list" where
  "request_bytes = [48, 120, 70, 70, 0]"

definition HEADER_LENGTH :: nat where
  "HEADER_LENGTH = 8"

text \<open>\<open>Connect\<close>: the address is parsed first, and a socket that is open already cannot be opened again.
  The options are set in either case.\<close>

definition Client_Connect :: "bool \<Rightarrow> byte list option \<Rightarrow> Client \<Rightarrow> (client_error + bool) \<times> Client" where
  "Client_Connect address_ok peer c =
     (if \<not> address_ok then (Inl (Net_error ''invalid address''), c)
      else if cl_open c then (Inl (Net_error ''already open''), c)
      else case peer of
             Some bytes \<Rightarrow> (Inr True, c\<lparr>cl_open := True, cl_connected := True, cl_in := bytes\<rparr>)
           | None \<Rightarrow> (Inr False, c\<lparr>cl_open := True\<rparr>))"

definition Client_Close :: "Client \<Rightarrow> Client" where
  "Client_Close c = c\<lparr>cl_open := False, cl_connected := False\<rparr>"

definition Client_Disconnect :: "Client \<Rightarrow> Client" where
  "Client_Disconnect c = c"

text \<open>\<open>boost::asio::read\<close> into a part of a buffer: all bytes arrive, or the end of the stream throws after what was left
  was stored.\<close>

definition asio_read :: "byte list \<Rightarrow> nat \<Rightarrow> nat \<Rightarrow> byte list \<Rightarrow> client_error + byte list \<times> byte list" where
  "asio_read buf off n stream =
     (case buf_write buf off (take n stream) of
        None \<Rightarrow> Inl Overrun
      | Some buf' \<Rightarrow> if length stream < n then Inl (Net_error ''end of file'') else Inr (buf', drop n stream))"

text \<open>\<open>Recv\<close>: the request, the header, whose eight bytes are the size of the packet, and the rest of the packet. The size
  is signed, but it is passed on as an unsigned 64-bit number.\<close>

definition Client_Recv :: "(nat \<Rightarrow> bool) \<Rightarrow> Client \<Rightarrow> (client_error + nat \<times> byte list option) \<times> Client" where
  "Client_Recv can_allocate c =
     (if \<not> cl_connected c then (Inl (Net_error ''not connected''), c)
      else
        let c1 = c\<lparr>cl_sent := cl_sent c @ request_bytes\<rparr>
        in case asio_read (replicate 8 0) 0 8 (cl_in c1) of
             Inl e \<Rightarrow> (Inl e, c1\<lparr>cl_in := []\<rparr>)
           | Inr (req, rest) \<Rightarrow>
               let pck_size = (of_nat (of_le req) :: 64 word);
                   c2 = c1\<lparr>cl_in := rest\<rparr>
               in if pck_size = 0 then (Inr (0, None), c2)
                  else if \<not> can_allocate (unat pck_size) then (Inl Bad_alloc, c2)
                  else case asio_read (replicate (unat pck_size) 0) 8 (unat (pck_size - of_nat HEADER_LENGTH)) rest of
                         Inl e \<Rightarrow> (Inl e, c2\<lparr>cl_in := []\<rparr>)
                       | Inr (pckt, rest') \<Rightarrow>
                           (case buf_write pckt 0 (take HEADER_LENGTH req) of
                              None \<Rightarrow> (Inl Overrun, c2)
                            | Some pckt' \<Rightarrow> (Inr (unat pck_size, Some pckt'), c2\<lparr>cl_in := rest'\<rparr>)))"

fun recv_packets :: "(nat \<Rightarrow> bool) \<Rightarrow> nat \<Rightarrow> Client \<Rightarrow> (client_error + byte list list) \<times> Client" where
  "recv_packets can_allocate 0 c = (Inr [], c)"
| "recv_packets can_allocate (Suc n) c =
     (case Client_Recv can_allocate c of
        (Inr (_, Some p), c') \<Rightarrow> (case recv_packets can_allocate n c' of (Inr ps, c'') \<Rightarrow> (Inr (p # ps), c'') | r \<Rightarrow> r)
      | (Inr (_, None), c') \<Rightarrow> recv_packets can_allocate n c'
      | (Inl e, c') \<Rightarrow> (Inl e, c'))"

section \<open>Packets\<close>

text \<open>What the peer sends: the size, its own bytes included, and the payload.\<close>

definition packet :: "byte list \<Rightarrow> byte list" where
  "packet payload = le_bytes 8 (8 + length payload) @ payload"

lemma asio_read_append:
  assumes "length xs = n" "length buf = off + n"
  shows "asio_read buf off n (xs @ rest) = Inr (take off buf @ xs, rest)"
  using assms by (simp add: asio_read_def buf_write_def)

lemma unat_size: "n < 2 ^ 64 \<Longrightarrow> unat (of_nat n :: 64 word) = n"
  by (simp add: unat_of_nat)

lemma Recv_packet:
  assumes "cl_connected c" "cl_in c = packet payload @ rest" "8 + length payload < 2 ^ 64" "can_allocate (8 + length payload)"
  shows "Client_Recv can_allocate c =
    (Inr (8 + length payload, Some (packet payload)), c\<lparr>cl_in := rest, cl_sent := cl_sent c @ request_bytes\<rparr>)"
proof -
  let ?n = "8 + length payload" let ?h = "le_bytes 8 ?n"
  have w: "unat (of_nat ?n :: 64 word) = ?n" by (rule unat_size [OF assms(3)])
  have z: "(of_nat ?n :: 64 word) \<noteq> 0" using w by (metis add_is_0 unat_0 zero_neq_numeral)
  have d: "unat ((of_nat ?n :: 64 word) - of_nat HEADER_LENGTH) = length payload"
    using unat_size [of "length payload"] assms(3) by (simp add: HEADER_LENGTH_def)
  have h: "of_le ?h = ?n" using assms(3) by (simp add: of_le_le_bytes)
  have r1: "asio_read (replicate 8 0) 0 8 (cl_in c) = Inr (?h, payload @ rest)"
    using asio_read_append [of ?h 8 "replicate 8 0" 0 "payload @ rest"] assms(2) by (simp add: packet_def)
  have r2: "asio_read (replicate ?n 0) 8 (length payload) (payload @ rest) = Inr (replicate 8 0 @ payload, rest)"
    using asio_read_append [of payload "length payload" "replicate ?n 0" 8 rest] by simp
  have r3: "buf_write (replicate 8 0 @ payload) 0 (take HEADER_LENGTH ?h) = Some (packet payload)"
    by (simp add: buf_write_def packet_def HEADER_LENGTH_def)
  show ?thesis unfolding Client_Recv_def Let_def using assms(1,4) w z d h r1 r2 r3 by simp
qed

text \<open>Stream round trip: packets that arrive one behind the other are returned one by one, unchanged, for one request each.\<close>

theorem recv_packets_stream:
  assumes "cl_connected c" "cl_in c = concat (map packet ps) @ rest"
    and "\<forall>p \<in> set ps. 8 + length p < 2 ^ 64 \<and> can_allocate (8 + length p)"
  shows "recv_packets can_allocate (length ps) c =
    (Inr (map packet ps), c\<lparr>cl_in := rest, cl_sent := cl_sent c @ concat (replicate (length ps) request_bytes)\<rparr>)"
  using assms
proof (induction ps arbitrary: c)
  case (Cons p ps)
  then have "Client_Recv can_allocate c =
      (Inr (8 + length p, Some (packet p)), c\<lparr>cl_in := concat (map packet ps) @ rest, cl_sent := cl_sent c @ request_bytes\<rparr>)"
    by (intro Recv_packet) simp_all
  then show ?case using Cons by simp
qed simp

theorem recv_packets_stream_witness:
  "fst (recv_packets (\<lambda>n. n \<le> 100) 2 (Client_new\<lparr>cl_connected := True, cl_in := packet [1, 2] @ packet [] @ [9]\<rparr>)) =
     Inr [packet [1, 2], packet []]"
proof -
  have l: "2 = length [[1, 2], [] :: byte list]" by simp
  show ?thesis unfolding l by (subst recv_packets_stream [where ps = "[[1, 2], []]" and rest = "[9]"]) simp_all
qed

text \<open>A header that announces one to seven bytes, less than the header itself, makes the size of the remaining read wrap around
  and the read start behind the end of the packet.\<close>

theorem short_packet_overruns:
  assumes "cl_connected c" "cl_in c = le_bytes 8 k @ rest" "0 < k" "k < 8" "can_allocate k"
  shows "fst (Client_Recv can_allocate c) = Inl Overrun"
proof -
  have w: "unat (of_nat k :: 64 word) = k" using assms(4) by (simp add: unat_of_nat)
  have z: "(of_nat k :: 64 word) \<noteq> 0" using w assms(3) by auto
  have h: "of_le (le_bytes 8 k) = k" using assms(4) by (simp add: of_le_le_bytes)
  have r1: "asio_read (replicate 8 0) 0 8 (cl_in c) = Inr (le_bytes 8 k, rest)"
    using asio_read_append [of "le_bytes 8 k" 8 "replicate 8 0" 0 rest] assms(2) by simp
  have "asio_read (replicate k 0) 8 m rest = Inl Overrun" for m using assms(4) by (simp add: asio_read_def buf_write_def)
  then show ?thesis unfolding Client_Recv_def Let_def using assms(1,5) w z h r1 by simp
qed

theorem short_packet_overruns_witness:
  "fst (Client_Recv (\<lambda>_. True) (Client_new\<lparr>cl_connected := True, cl_in := le_bytes 8 4\<rparr>)) = Inl Overrun"
  by (rule short_packet_overruns [where k = 4 and rest = "[]"]) simp_all

end
