(* ===== verification/Spec2Isabelle.thy ===== *)
theory Spec2Isabelle
  imports Controller_Safety Sandbox_Run Command_Effects Link_Geometry Process_Stats Tcp_Server Vehicle_Handler Benchmark Burst_Routing
    Json_Requests Config_File Tcp_Client
begin

text \<open>
  A verification development for CHEM, a wireless channel emulator. Radio nodes register with the
  emulator over TCP, send bursts of IQ samples to it over UDP, and receive what the other
  nodes on their frequency send, changed by the links between them. Positions come from
  the vehicles the radios are mounted on; a user interface sends commands; extensions replace the
  statistical path loss by a ray tracer or report the links to a simulator.

  \<^bold>\<open>The parts and their theories.\<close>

  \<^item> \<open>Chem_Prelude\<close>, \<open>Cpp_Containers\<close>: numbers with NaN and infinities (type \<open>fp\<close>), exceptions, strings;
    \<open>std::map\<close> as a sorted association list (type \<open>omap\<close>) with a locale for its laws, buffers with
    writes that fault out of range. Shared by everything else.
  \<^item> \<open>Chem_Common\<close> (\<open>include/chem/common.h\<close>): headers and their byte layout, enumerations, constants.
  \<^item> \<open>Data_Pool\<close> (\<open>models/data_pool.hpp\<close>): the buffer pools, with a locale for conservation of buffers.
  \<^item> \<open>Udp_Client\<close>, \<open>Udp_Server\<close> (\<open>net/udp_client.cpp\<close>, \<open>net/udp_server.cpp\<close>): fragmentation and reassembly of bursts.
  \<^item> \<open>Json\<close>, \<open>Node_Config\<close> (\<open>models/node_config.hpp\<close>, \<open>aerpaw/*.h\<close>): the JSON operations the program uses,
    node configurations and their parser with every error branch.
  \<^item> \<open>Json_Text\<close>, \<open>Json_Utf8\<close>, \<open>Json_Numbers\<close>, \<open>Json_Roundtrip\<close> (\<open>include/chem/nlohmann/json.hpp\<close>): JSON text, that is the
    lexer, the parser and the serializer every message goes through, and what they do with strings, numbers and values.
  \<^item> \<open>Path_Loss\<close>, \<open>Dsp_Signal\<close>, \<open>Antenna\<close> (\<open>channel_models/*.hpp\<close>, \<open>dsp/*.cpp\<close>): the five path loss models, noise,
    filters, resampling, frequency offset, antenna gains.
  \<^item> \<open>Link_Channel\<close> (\<open>channel/channel.cpp\<close>): one link and the processing of a burst over it.
  \<^item> \<open>Transceiver\<close> (\<open>node/receiver.cpp\<close>, \<open>node/transmitter.cpp\<close>): the two threads of a node with their queues.
  \<^item> \<open>Intermediate_Channel\<close>, \<open>Burst_Routing\<close> (\<open>channel/intermediate.cpp\<close>): the channel of one frequency, its sources, destinations
    and links, the workers with their cached snapshots, the processing of a burst for all destinations, and
    what becomes of ports and roles in it.
  \<^item> \<open>Node_Entity\<close>, \<open>Vehicle_Handler\<close> (\<open>node/node_entity.cpp\<close>, \<open>vehicle/handler.cpp\<close>): nodes, their positions and the thread that
    follows a vehicle.
  \<^item> \<open>Db_Handler\<close> (\<open>db/dbHandler.cpp\<close>): the SQL text and the JSON made of the rows.
  \<^item> \<open>Controller\<close>, \<open>Controller_Safety\<close> (\<open>node/controller.cpp\<close>): requests of the nodes and the timeout loop.
  \<^item> \<open>Tcp_Server\<close>, \<open>Json_Requests\<close> (\<open>net/tcp_server.cpp\<close>): the callbacks that call the request handlers, and the controller's
    handler on the bytes of a connection.
  \<^item> \<open>Tcp_Client\<close> (\<open>net/tcp_client.cpp\<close>): the stream client, which the program does not use.
  \<^item> \<open>Runtime_Config\<close>, \<open>Config_File\<close> (\<open>config.cpp\<close>, \<open>runtime_config.h\<close>, \<open>location_store.h\<close>): the configuration file, as a value and as
    text, the choice of the file in \<open>main.cpp\<close>, and the run-time values.
  \<^item> \<open>Extensions\<close>, \<open>Sionna_Sync\<close> (\<open>extensions/*\<close>): the registry, the sandbox extension, and the exchange of the
    Sionna extension with its server.
  \<^item> \<open>Coordinator\<close>, \<open>Coordinator_Commands\<close>, \<open>Command_Effects\<close>, \<open>Link_Geometry\<close>, \<open>Process_Stats\<close> (\<open>channel/coordinator.cpp\<close>):
    the geometry of the links and the commands of the user interface.
  \<^item> \<open>Chem_System\<close>, \<open>Link_Invariants\<close>, \<open>Sandbox_Run\<close> (\<open>main.cpp\<close>): start-up and the system whose steps are the
    requests, timeout passes, commands, updates and extension rounds, in any order.
  \<^item> \<open>Benchmark\<close> (\<open>benchmark/achem_benchmark.cpp\<close>): the load generator, its command line, statistics and loops.

  \<^bold>\<open>How the program is represented.\<close> A class is a record with a prefix per class (\<open>ct_\<close> for \<open>Controller\<close>, \<open>im_\<close> for
  \<open>Intermediate\<close>, \<open>ch_\<close> for \<open>Channel\<close>, \<open>co_\<close> for \<open>Coordinator\<close>, and so on), a method a function from the state to
  the state. Receivers and transmitters are shared between a node, the channel and the workers, so they
  live in a heap and are named by addresses. An operation that can throw returns a sum with the exception;
  undefined behaviour, such as a null pointer or a write outside of a buffer, is the error \<open>Crash\<close> or
  the value \<open>None\<close>. Machine integers are words where their width matters. Floating-point arithmetic is exact
  arithmetic on reals extended with NaN and the two infinities; rounding is modelled only in the age test
  of the sender. Threads are steps: a theorem about runs quantifies over all interleavings of whole
  operations, and where the code gives up a lock in the middle of an operation the parts are
  separate definitions.

  \<^bold>\<open>What is proved.\<close>

  \<^item> Transport: a burst that is sent is received unchanged however its datagrams are batched; no write
    leaves the reassembly buffer; every buffer taken from a pool is given back. The exceptions are
    stated as theorems: short bursts, oversized headers, and the timeout that leaks four buffers.
  \<^item> Channels: a worker's cached destinations are those attached at that moment in every run of fewer than
    \<open>2 ^ 64\<close> operations; processing a burst does not fault and keeps sizes; the vectorised filter is the
    direct convolution; a receive port gets one transmit port, not the sum (bursts that are not resampled); the send queue
    is bounded and conserves buffers, and the sender sends in the order of the start times.
  \<^item> Controller: outside of sandbox mode no request has undefined behaviour; a request is answered exactly when it has the form
    the predicate \<open>acceptable\<close> describes, and any other ends in an exception that nothing catches, which ends the process;
    disconnecting and timing out remove exactly what they should.
  \<^item> JSON text: a value that is written is read back, on one line or indented; what is parsed can be written again; the
    serializer fails on strings that are not UTF-8 and on nothing else; integers are written as their numerals. Behind the
    TCP front end, a request on one line reaches the handler as the value that was sent, and any bytes get one line of JSON back.
    A configuration that is saved, patches of commands included, is read back as it was.
  \<^item> Coordinator: only the changing commands change anything, a link command changes one link, a model
    reaches all links of its frequency; the two directions of a link agree, for positions off the equator and the prime meridian.
  \<^item> Extensions: the order lists of the Sionna extension are the registration order, so that every row of a response
    reaches the link it belongs to; the taps of a filter collect the gains of the paths by their delay; the creation of the scene ends
    exactly when the server answers or the extension is stopped.
  \<^item> System: the run-time values stay in their limits and every link keeps its shape in every run.
  \<^item> Benchmark: the command line accepts only loads that fit the buffers, the search for the largest load ends and
    reports what it found, the statistics of the latencies are consistent.
  \<^item> Defects found on the way are stated as theorems of their own (error and safety properties) with a witness.

  \<^bold>\<open>Interfaces.\<close> The laws of maps, of values as lines of text, of the queue of a transmitter, of buffer pools, of detaching operations, of operations
  of an extension and of link properties are locales, interpreted on the definitions of the model;
  the properties rest on the facts of these interpretations.

  \<^bold>\<open>Runs of the controller.\<close> \<open>ct_run\<close> has the runs of the program, which end with the first request that throws; \<open>ct_reach\<close>
  also goes on behind such a request, so what is proved for it (disconnecting, timing out) holds in particular in the runs of the program.

  \<^bold>\<open>Bounds.\<close> No definition has fuel. The receive loop recurses over the list of socket results, the
  wait for a vehicle over the seconds left, tokenising and parsing over the length of the text; the scene creation and the search of
  the benchmark, which need not end, are partial functions: the first is proved to end exactly when the server
  answers or the extension is stopped, the second for every limit below \<open>2 ^ 63\<close>.

  \<^bold>\<open>Parameters.\<close> Code that is not part of the repository is an argument: VOLK kernels (with their
  documented behaviour as a hypothesis), random numbers, clocks, the answers of SQLite, MAVSDK, the
  HTTP servers, the concurrent priority queue of the sender (it pops an element no other comes before), the text of files, and the generated antenna tables. The digits of a floating-point number in JSON text
  are an argument too: the routine that computes them works on the bits of a \<open>double\<close>, which is a real here; the round
  trip of text asks that they are exact. \<open>Tcp_Server\<close> takes the JSON parser and serializer as arguments;
  \<open>Json_Requests\<close> supplies them.

  \<^bold>\<open>Not modelled.\<close> What a scenario of the benchmark measures, and its output; logging, profiling, NUMA placement, socket and thread set-up,
  DSP kernels nothing calls, failing allocations, the life time of the buffer a response is sent from (the response counts as sent), and the vendored libraries beyond the
  JSON operations and the JSON text the program uses.
\<close>

end
